(* ===== verification/Prelude.thy ===== *)
theory Prelude
  imports Main "HOL-Library.Sublist" "HOL-Library.Code_Target_Numeral"
begin

text \<open>
  Shared vocabulary of the development: the result type of fallible Rust code, Rust strings as
  lists of Unicode scalar values together with the \<^verbatim>\<open>str\<close> operations the sources use, and the
  list lemmas the components share.

  Conventions.
  \<^item> A Rust \<^verbatim>\<open>Result<T, E>\<close> is the sum \<open>'e + 'a\<close>, \<open>Inl\<close> holding the error. \<open>bind_result\<close> is the
    question-mark operator.
  \<^item> \<open>str\<close> is a Rust \<^verbatim>\<open>&str\<close> or \<^verbatim>\<open>String\<close> seen as its \<^verbatim>\<open>chars()\<close>: a list of scalar values, each
    a natural number. \<open>lit\<close> turns an ASCII literal into such a list.
  \<^item> \<^verbatim>\<open>usize\<close> counters that count lines, hunks or arguments of an in-memory list are \<open>nat\<close>.
\<close>

section \<open>Collections of facts\<close>

named_theorems text_simps \<open>evaluation and algebra of the string operations\<close>
named_theorems result_simps \<open>inversion of fallible computations\<close>

section \<open>Fallible computations\<close>

definition bind_result :: "'e + 'a \<Rightarrow> ('a \<Rightarrow> 'e + 'b) \<Rightarrow> 'e + 'b" where
  "bind_result m f = (case m of Inl e \<Rightarrow> Inl e | Inr x \<Rightarrow> f x)"

definition map_err :: "('e \<Rightarrow> 'f) \<Rightarrow> 'e + 'a \<Rightarrow> 'f + 'a" where
  "map_err g m = (case m of Inl e \<Rightarrow> Inl (g e) | Inr x \<Rightarrow> Inr x)"

lemma bind_result_simps [simp]:
  "bind_result (Inl e) f = Inl e"
  "bind_result (Inr x) f = f x"
  by (simp_all add: bind_result_def)

lemma map_err_simps [simp]:
  "map_err g (Inl e) = Inl (g e)"
  "map_err g (Inr x) = Inr x"
  by (simp_all add: map_err_def)

lemma bind_result_Inr_iff [result_simps]:
  "bind_result m f = Inr y \<longleftrightarrow> (\<exists>x. m = Inr x \<and> f x = Inr y)"
  by (cases m) simp_all

lemma bind_result_Inl_iff [result_simps]:
  "bind_result m f = Inl e \<longleftrightarrow> m = Inl e \<or> (\<exists>x. m = Inr x \<and> f x = Inl e)"
  by (cases m) simp_all

lemma map_err_Inr_iff [result_simps]: "map_err g m = Inr y \<longleftrightarrow> m = Inr y"
  by (cases m) simp_all

lemma if_error_Inr_iff [result_simps]: "(if c then Inl e else m) = Inr y \<longleftrightarrow> \<not> c \<and> m = Inr y"
  by simp

text \<open>Checks run one after the other; the first error is the result.\<close>

fun first_error :: "('e + unit) list \<Rightarrow> 'e + unit" where
  "first_error [] = Inr ()"
| "first_error (c # cs) = (case c of Inl e \<Rightarrow> Inl e | Inr _ \<Rightarrow> first_error cs)"

lemma first_error_Inr_iff [result_simps]: "first_error cs = Inr u \<longleftrightarrow> (\<forall>c \<in> set cs. c = Inr ())"
  by (induction cs) (auto split: sum.splits)

text \<open>\<^verbatim>\<open>collect::<Result<Vec<_>, _>>()\<close>: the results of all, or the first error.\<close>

fun map_result :: "('a \<Rightarrow> 'e + 'b) \<Rightarrow> 'a list \<Rightarrow> 'e + 'b list" where
  "map_result f [] = Inr []"
| "map_result f (x # xs) = bind_result (f x) (\<lambda>y. bind_result (map_result f xs) (\<lambda>ys. Inr (y # ys)))"

lemma map_result_Inr_iff: "map_result f xs = Inr ys \<longleftrightarrow> list_all2 (\<lambda>x y. f x = Inr y) xs ys"
  by (induction xs arbitrary: ys) (auto simp: result_simps list_all2_Cons1)

section \<open>Text\<close>

type_synonym str = "nat list"

definition lit :: "string \<Rightarrow> str" where
  "lit s = map of_char s"

abbreviation nl :: nat where "nl \<equiv> 10"
abbreviation cr :: nat where "cr \<equiv> 13"
abbreviation sp :: nat where "sp \<equiv> 32"
abbreviation squote :: nat where "squote \<equiv> 39"
abbreviation dquote :: nat where "dquote \<equiv> 34"
abbreviation plus_sign :: nat where "plus_sign \<equiv> 43"
abbreviation minus_sign :: nat where "minus_sign \<equiv> 45"
abbreviation star_sign :: nat where "star_sign \<equiv> 42"

definition quoted :: "str \<Rightarrow> str" where
  "quoted s = squote # s @ [squote]"

lemma lit_append [text_simps]: "lit (s @ t) = lit s @ lit t"
  by (simp add: lit_def)

lemma lit_Nil [simp]: "lit [] = []"
  by (simp add: lit_def)

lemma lit_Cons [text_simps]: "lit (c # s) = of_char c # lit s"
  by (simp add: lit_def)

lemma length_lit [simp]: "length (lit s) = length s"
  by (simp add: lit_def)

lemma lit_eq_iff [simp]: "lit s = lit t \<longleftrightarrow> s = t"
  by (simp add: lit_def inj_map_eq_map inj_def)

text \<open>The \<^verbatim>\<open>White_Space\<close> property of Unicode, which \<^verbatim>\<open>char::is_whitespace\<close> tests.\<close>

definition is_whitespace :: "nat \<Rightarrow> bool" where
  "is_whitespace c \<longleftrightarrow>
     9 \<le> c \<and> c \<le> 13 \<or> c = 32 \<or> c = 133 \<or> c = 160 \<or> c = 5760
     \<or> 8192 \<le> c \<and> c \<le> 8202 \<or> c = 8232 \<or> c = 8233 \<or> c = 8239 \<or> c = 8287 \<or> c = 12288"

definition trim_start :: "str \<Rightarrow> str" where
  "trim_start s = dropWhile is_whitespace s"

definition trim_end :: "str \<Rightarrow> str" where
  "trim_end s = rev (dropWhile is_whitespace (rev s))"

definition trim :: "str \<Rightarrow> str" where
  "trim s = trim_end (trim_start s)"

fun strip_prefix :: "'a list \<Rightarrow> 'a list \<Rightarrow> 'a list option" where
  "strip_prefix [] s = Some s"
| "strip_prefix (p # ps) [] = None"
| "strip_prefix (p # ps) (c # s) = (if p = c then strip_prefix ps s else None)"

definition strip_suffix :: "'a list \<Rightarrow> 'a list \<Rightarrow> 'a list option" where
  "strip_suffix p s = map_option rev (strip_prefix (rev p) (rev s))"

definition starts_with :: "'a list \<Rightarrow> 'a list \<Rightarrow> bool" where
  "starts_with p s \<longleftrightarrow> strip_prefix p s \<noteq> None"

definition ends_with :: "'a list \<Rightarrow> 'a list \<Rightarrow> bool" where
  "ends_with p s \<longleftrightarrow> strip_suffix p s \<noteq> None"

text \<open>\<^verbatim>\<open>s.split(c)\<close> for a single character, \<^verbatim>\<open>xs.join(sep)\<close> and \<^verbatim>\<open>s.lines()\<close>. A line ends at
  \<^verbatim>\<open>\n\<close> or \<^verbatim>\<open>\r\n\<close>; an unterminated last line keeps a bare \<^verbatim>\<open>\r\<close>; the empty piece after a final
  line break is no line.\<close>

fun split_on :: "'a \<Rightarrow> 'a list \<Rightarrow> 'a list list" where
  "split_on c [] = [[]]"
| "split_on c (x # xs) =
     (if x = c then [] # split_on c xs
      else (case split_on c xs of [] \<Rightarrow> [[x]] | l # ls \<Rightarrow> (x # l) # ls))"

fun join_with :: "'a list \<Rightarrow> 'a list list \<Rightarrow> 'a list" where
  "join_with sep [] = []"
| "join_with sep [x] = x"
| "join_with sep (x # y # ys) = x @ sep @ join_with sep (y # ys)"

definition strip_cr :: "str \<Rightarrow> str" where
  "strip_cr s = (case strip_suffix [cr] s of Some r \<Rightarrow> r | None \<Rightarrow> s)"

definition str_lines :: "str \<Rightarrow> str list" where
  "str_lines s =
     (let ps = split_on nl s
      in map strip_cr (butlast ps) @ (if last ps = [] then [] else [last ps]))"

text \<open>\<^verbatim>\<open>contains\<close>, \<^verbatim>\<open>split_once\<close>, \<^verbatim>\<open>rsplit_once\<close>, \<^verbatim>\<open>trim_end_matches\<close> for one character, and the ASCII
  case operations.\<close>

fun contains_str :: "'a list \<Rightarrow> 'a list \<Rightarrow> bool" where
  "contains_str p s \<longleftrightarrow> starts_with p s \<or> (case s of [] \<Rightarrow> False | _ # t \<Rightarrow> contains_str p t)"

declare contains_str.simps [simp del]

fun split_once :: "'a \<Rightarrow> 'a list \<Rightarrow> ('a list \<times> 'a list) option" where
  "split_once c [] = None"
| "split_once c (x # xs) =
     (if x = c then Some ([], xs) else map_option (\<lambda>(l, r). (x # l, r)) (split_once c xs))"

fun split_once_str :: "'a list \<Rightarrow> 'a list \<Rightarrow> ('a list \<times> 'a list) option" where
  "split_once_str p [] = (if p = [] then Some ([], []) else None)"
| "split_once_str p (c # s) =
     (case strip_prefix p (c # s) of
        Some rest \<Rightarrow> Some ([], rest)
      | None \<Rightarrow> map_option (\<lambda>(l, r). (c # l, r)) (split_once_str p s))"

definition rsplit_once :: "'a \<Rightarrow> 'a list \<Rightarrow> ('a list \<times> 'a list) option" where
  "rsplit_once c s = map_option (\<lambda>(l, r). (rev r, rev l)) (split_once c (rev s))"

definition trim_end_matches :: "'a \<Rightarrow> 'a list \<Rightarrow> 'a list" where
  "trim_end_matches c s = rev (dropWhile (\<lambda>x. x = c) (rev s))"

definition ascii_lower :: "nat \<Rightarrow> nat" where
  "ascii_lower c = (if 65 \<le> c \<and> c \<le> 90 then c + 32 else c)"

definition to_ascii_lowercase :: "str \<Rightarrow> str" where
  "to_ascii_lowercase s = map ascii_lower s"

definition is_ascii_digit :: "nat \<Rightarrow> bool" where
  "is_ascii_digit c \<longleftrightarrow> 48 \<le> c \<and> c \<le> 57"

text \<open>The length in UTF-8 bytes, \<^verbatim>\<open>len()\<close> of a Rust string, and the pieces of \<^verbatim>\<open>format!\<close> the messages
  use: a number in decimal, and a value between backquotes.\<close>

definition utf8_width :: "nat \<Rightarrow> nat" where
  "utf8_width c = (if c < 128 then 1 else if c < 2048 then 2 else if c < 65536 then 3 else 4)"

definition utf8_len :: "str \<Rightarrow> nat" where
  "utf8_len s = sum_list (map utf8_width s)"

fun show_nat :: "nat \<Rightarrow> str" where
  "show_nat n = (if n < 10 then [48 + n] else show_nat (n div 10) @ [48 + n mod 10])"

declare show_nat.simps [simp del]

definition backquoted :: "str \<Rightarrow> str" where
  "backquoted s = lit [CHR 0x60] @ s @ lit [CHR 0x60]"

text \<open>\<^verbatim>\<open>std::io::Error\<close>: its kind and its text. \<open>OtherKind\<close> stands for the kinds the code does not name.\<close>

datatype ErrorKind = NotFound | PermissionDenied | AlreadyExists | InvalidInput | InvalidData | OtherKind

record io_error =
  kind :: ErrorKind
  message :: str

subsection \<open>Algebra of the string operations\<close>

lemma split_once_Some: "split_once c s = Some (l, r) \<Longrightarrow> s = l @ c # r \<and> c \<notin> set l"
  by (induction s arbitrary: l) (auto split: if_splits)

lemma split_once_None_iff: "split_once c s = None \<longleftrightarrow> c \<notin> set s"
  by (induction s) auto

lemma rsplit_once_Some: "rsplit_once c s = Some (l, r) \<Longrightarrow> s = l @ c # r \<and> c \<notin> set r"
  by (auto simp: rsplit_once_def rev_swap dest!: split_once_Some)

lemma ascii_lower_idem [simp]: "ascii_lower (ascii_lower c) = ascii_lower c"
  by (simp add: ascii_lower_def)

lemma to_ascii_lowercase_idem [simp]: "to_ascii_lowercase (to_ascii_lowercase s) = to_ascii_lowercase s"
  by (simp add: to_ascii_lowercase_def)

lemma to_ascii_lowercase_Nil_iff [simp]: "to_ascii_lowercase s = [] \<longleftrightarrow> s = []"
  by (simp add: to_ascii_lowercase_def)

lemma strip_prefix_Some_iff [text_simps]: "strip_prefix p s = Some r \<longleftrightarrow> s = p @ r"
  by (induction p s rule: strip_prefix.induct) auto

lemma strip_prefix_append [simp]: "strip_prefix p (p @ r) = Some r"
  by (simp add: strip_prefix_Some_iff)

lemma strip_prefix_None_iff [text_simps]: "strip_prefix p s = None \<longleftrightarrow> \<not> prefix p s"
  by (induction p s rule: strip_prefix.induct) auto

lemma starts_with_iff [text_simps]: "starts_with p s \<longleftrightarrow> prefix p s"
  by (simp add: starts_with_def strip_prefix_None_iff)

lemma strip_suffix_Some_iff [text_simps]: "strip_suffix p s = Some r \<longleftrightarrow> s = r @ p"
proof -
  have "strip_suffix p s = Some r \<longleftrightarrow> rev s = rev p @ rev r"
    by (auto simp: strip_suffix_def strip_prefix_Some_iff)
  also have "\<dots> \<longleftrightarrow> s = r @ p"
    by (metis rev_append rev_rev_ident)
  finally show ?thesis .
qed

lemma ends_with_iff [text_simps]: "ends_with p s \<longleftrightarrow> suffix p s"
  using strip_suffix_Some_iff [of p s] by (auto simp: ends_with_def suffix_def)

lemma strip_cr_id: "l = [] \<or> last l \<noteq> cr \<Longrightarrow> strip_cr l = l"
  by (cases l rule: rev_cases)
     (auto simp: strip_cr_def strip_suffix_Some_iff split: option.splits)

lemma split_on_nonempty [simp]: "split_on c s \<noteq> []"
  by (induction s) (auto split: list.splits)

lemma join_with_Cons: "xs \<noteq> [] \<Longrightarrow> join_with sep (x # xs) = x @ sep @ join_with sep xs"
  by (cases xs) simp_all

lemma join_split_on [simp]: "join_with [c] (split_on c s) = s"
proof (induction s)
  case (Cons a s)
  obtain l ls where l: "split_on c s = l # ls"
    by (metis split_on_nonempty neq_Nil_conv)
  with Cons.IH have "join_with [c] (l # ls) = s" by simp
  with l show ?case by (cases ls) auto
qed simp

lemma split_on_pieces: "l \<in> set (split_on c s) \<Longrightarrow> c \<notin> set l"
proof (induction s arbitrary: l)
  case (Cons a s)
  then show ?case by (auto split: if_splits list.splits)
qed simp

lemma split_on_no_sep: "c \<notin> set l \<Longrightarrow> split_on c l = [l]"
  by (induction l) auto

lemma split_on_append_sep: "c \<notin> set l \<Longrightarrow> split_on c (l @ c # s) = l # split_on c s"
  by (induction l) auto

lemma split_on_join:
  "ls \<noteq> [] \<Longrightarrow> \<forall>l \<in> set ls. c \<notin> set l \<Longrightarrow> split_on c (join_with [c] ls) = ls"
proof (induction ls)
  case (Cons x ls)
  then show ?case
    by (cases ls) (simp_all add: split_on_no_sep split_on_append_sep)
qed simp

lemma split_on_snoc_sep: "split_on c (s @ [c]) = split_on c s @ [[]]"
  by (induction s) (auto split: list.splits)

lemma last_split_on_snoc: "x \<noteq> c \<Longrightarrow> last (split_on c (s @ [x])) \<noteq> []"
  by (induction s) (auto split: list.splits)

lemma join_with_snoc_empty: "xs \<noteq> [] \<Longrightarrow> join_with sep (xs @ [[]]) = join_with sep xs @ sep"
proof (induction xs)
  case (Cons x xs)
  then show ?case by (cases xs) simp_all
qed simp

lemma trim_end_Nil [simp]: "trim_end [] = []"
  by (simp add: trim_end_def)

lemma trim_end_Cons:
  "trim_end (c # s) = (if trim_end s = [] \<and> is_whitespace c then [] else c # trim_end s)"
  by (auto simp: trim_end_def dropWhile_append dropWhile_eq_Nil_conv)

lemma trim_start_Nil [simp]: "trim_start [] = []"
  by (simp add: trim_start_def)

lemma trim_start_Cons:
  "trim_start (c # s) = (if is_whitespace c then trim_start s else c # s)"
  by (simp add: trim_start_def)

lemma trim_alt: "trim s = trim_start (trim_end s)"
  by (induction s) (auto simp: trim_def trim_end_Cons trim_start_Cons)

lemma trim_cong_trim_end: "trim_end s = trim_end t \<Longrightarrow> trim s = trim t"
  by (simp add: trim_alt)

lemma set_trim_end: "set (trim_end s) \<subseteq> set s"
  by (metis set_dropWhileD set_rev subsetI trim_end_def)

lemma trim_end_idem [simp]: "trim_end (trim_end s) = trim_end s"
  by (simp add: trim_end_def)

lemma trim_start_idem [simp]: "trim_start (trim_start s) = trim_start s"
  by (simp add: trim_start_def)

lemma trim_idem [simp]: "trim (trim s) = trim s"
  by (metis trim_alt trim_def trim_end_idem trim_start_idem)

lemma trim_id:
  "s \<noteq> [] \<Longrightarrow> \<not> is_whitespace (hd s) \<Longrightarrow> \<not> is_whitespace (last s) \<Longrightarrow> trim s = s"
proof -
  assume s: "s \<noteq> []" "\<not> is_whitespace (hd s)" "\<not> is_whitespace (last s)"
  then have start: "trim_start s = s"
    by (cases s) (simp_all add: trim_start_Cons)
  have "trim_end s = s"
    using s by (cases s rule: rev_cases) (simp_all add: trim_end_def)
  with start show "trim s = s" by (simp add: trim_def)
qed

lemma set_trim: "set (trim s) \<subseteq> set s"
  by (auto simp: trim_def trim_start_def trim_end_def dest!: set_dropWhileD)

lemma set_trim_end_matches: "set (trim_end_matches c s) \<subseteq> set s"
  by (auto simp: trim_end_matches_def dest: set_dropWhileD)

section \<open>Iterators\<close>

text \<open>\<^verbatim>\<open>find_map\<close>: the first result, in order.\<close>

fun find_map :: "('a \<Rightarrow> 'b option) \<Rightarrow> 'a list \<Rightarrow> 'b option" where
  "find_map f [] = None"
| "find_map f (x # xs) = (case f x of Some y \<Rightarrow> Some y | None \<Rightarrow> find_map f xs)"

lemma find_map_cong [fundef_cong]:
  "xs = ys \<Longrightarrow> (\<And>x. x \<in> set ys \<Longrightarrow> f x = g x) \<Longrightarrow> find_map f xs = find_map g ys"
  by (induction xs arbitrary: ys) (auto split: option.splits)

lemma find_map_None: "(\<And>x. x \<in> set xs \<Longrightarrow> f x = None) \<Longrightarrow> find_map f xs = None"
  by (induction xs) auto

lemma find_map_Some: "find_map f xs = Some y \<Longrightarrow> \<exists>x \<in> set xs. f x = Some y"
  by (induction xs) (auto split: option.splits)

text \<open>\<^verbatim>\<open>Iterator::max_by_key\<close>: the last of the elements with the greatest key.\<close>

fun max_by_key :: "('a \<Rightarrow> 'k :: linorder) \<Rightarrow> 'a list \<Rightarrow> 'a option" where
  "max_by_key key [] = None"
| "max_by_key key (x # xs) =
     (case max_by_key key xs of
        None \<Rightarrow> Some x
      | Some y \<Rightarrow> if key y < key x then Some x else Some y)"

lemma max_by_key_None_iff: "max_by_key key xs = None \<longleftrightarrow> xs = []"
  by (cases xs) (auto split: option.splits)

lemma max_by_key_Some:
  "max_by_key key xs = Some y \<Longrightarrow> y \<in> set xs \<and> (\<forall>x \<in> set xs. key x \<le> key y)"
proof (induction xs arbitrary: y)
  case (Cons x xs)
  then show ?case
    by (cases "max_by_key key xs") (fastforce simp: max_by_key_None_iff split: if_splits)+
qed simp

end
