(* ===== verification/Patch_Parser.thy ===== *)
theory Patch_Parser
  imports Prelude
begin

text \<open>
  The batch parser of the patch format (\<^verbatim>\<open>apply-patch/src/parser.rs\<close>): patch text to hunks. Loops
  with \<^verbatim>\<open>break\<close> are recursive functions over the remaining lines that also return the number of
  lines they consumed, as the code does; their termination rests on every step consuming at least
  one line.
\<close>

section \<open>Markers, errors and hunks\<close>

definition BEGIN_PATCH_MARKER :: str where "BEGIN_PATCH_MARKER = lit ''*** Begin Patch''"
definition ENVIRONMENT_ID_MARKER :: str where "ENVIRONMENT_ID_MARKER = lit ''*** Environment ID: ''"
definition END_PATCH_MARKER :: str where "END_PATCH_MARKER = lit ''*** End Patch''"
definition ADD_FILE_MARKER :: str where "ADD_FILE_MARKER = lit ''*** Add File: ''"
definition DELETE_FILE_MARKER :: str where "DELETE_FILE_MARKER = lit ''*** Delete File: ''"
definition UPDATE_FILE_MARKER :: str where "UPDATE_FILE_MARKER = lit ''*** Update File: ''"
definition MOVE_TO_MARKER :: str where "MOVE_TO_MARKER = lit ''*** Move to: ''"
definition EOF_MARKER :: str where "EOF_MARKER = lit ''*** End of File''"
definition CHANGE_CONTEXT_MARKER :: str where "CHANGE_CONTEXT_MARKER = lit ''@@ ''"
definition EMPTY_CHANGE_CONTEXT_MARKER :: str where "EMPTY_CHANGE_CONTEXT_MARKER = lit ''@@''"

lemmas marker_defs =
  BEGIN_PATCH_MARKER_def ENVIRONMENT_ID_MARKER_def END_PATCH_MARKER_def ADD_FILE_MARKER_def
  DELETE_FILE_MARKER_def UPDATE_FILE_MARKER_def MOVE_TO_MARKER_def EOF_MARKER_def
  CHANGE_CONTEXT_MARKER_def EMPTY_CHANGE_CONTEXT_MARKER_def

datatype ParseError =
    InvalidPatchError str
  | InvalidHunkError str nat

type_synonym path = str

record UpdateFileChunk =
  change_context :: "str option"
  old_lines :: "str list"
  new_lines :: "str list"
  is_end_of_file :: bool

datatype Hunk =
    AddFile path str
  | DeleteFile path
  | UpdateFile path "path option" "UpdateFileChunk list"

record ApplyPatchArgs =
  patch :: str
  hunks :: "Hunk list"
  workdir :: "str option"
  environment_id :: "str option"

fun hunk_path :: "Hunk \<Rightarrow> path" where
  "hunk_path (AddFile p _) = p"
| "hunk_path (DeleteFile p) = p"
| "hunk_path (UpdateFile _ (Some p) _) = p"
| "hunk_path (UpdateFile p None _) = p"

definition empty_chunk :: "str option \<Rightarrow> UpdateFileChunk" where
  "empty_chunk ctx =
     \<lparr>change_context = ctx, old_lines = [], new_lines = [], is_end_of_file = False\<rparr>"

definition push_old :: "str \<Rightarrow> UpdateFileChunk \<Rightarrow> UpdateFileChunk" where
  "push_old l c = c\<lparr>old_lines := old_lines c @ [l]\<rparr>"

definition push_new :: "str \<Rightarrow> UpdateFileChunk \<Rightarrow> UpdateFileChunk" where
  "push_new l c = c\<lparr>new_lines := new_lines c @ [l]\<rparr>"

section \<open>Error messages\<close>

definition not_a_header_msg :: "str \<Rightarrow> str" where
  "not_a_header_msg l =
     quoted l @ lit '' is not a valid hunk header. Valid hunk headers: ''
     @ quoted (lit ''*** Add File: {path}'') @ lit '', '' @ quoted (lit ''*** Delete File: {path}'')
     @ lit '', '' @ quoted (lit ''*** Update File: {path}'')"

definition empty_hunk_msg :: "path \<Rightarrow> str" where
  "empty_hunk_msg p = lit ''Update file hunk for path '' @ quoted p @ lit '' is empty''"

definition no_lines_msg :: str where
  "no_lines_msg = lit ''Update hunk does not contain any lines''"

definition unexpected_line_msg :: "str \<Rightarrow> str" where
  "unexpected_line_msg l =
     lit ''Unexpected line found in update hunk: '' @ quoted l
     @ lit ''. Every line should start with '' @ quoted (lit '' '') @ lit '' (context line), ''
     @ quoted (lit ''+'') @ lit '' (added line), or '' @ quoted (lit ''-'') @ lit '' (removed line)''"

definition missing_context_msg :: "str \<Rightarrow> str" where
  "missing_context_msg l =
     lit ''Expected update hunk to start with a @@ context marker, got: '' @ quoted l"

definition first_line_msg :: str where
  "first_line_msg = lit ''The first line of the patch must be '' @ quoted BEGIN_PATCH_MARKER"

definition last_line_msg :: str where
  "last_line_msg = lit ''The last line of the patch must be '' @ quoted END_PATCH_MARKER"

section \<open>Chunks\<close>

text \<open>The loop over the body lines of a chunk: \<open>n\<close> is \<^verbatim>\<open>parsed_lines\<close>.\<close>

fun chunk_loop ::
  "nat \<Rightarrow> UpdateFileChunk \<Rightarrow> nat \<Rightarrow> str list \<Rightarrow> ParseError + UpdateFileChunk \<times> nat" where
  "chunk_loop line_number chunk n [] = Inr (chunk, n)"
| "chunk_loop line_number chunk n (line # rest) =
     (if line = EOF_MARKER then
        (if n = 0 then Inl (InvalidHunkError no_lines_msg (line_number + 1))
         else Inr (chunk\<lparr>is_end_of_file := True\<rparr>, n + 1))
      else (case line of
          [] \<Rightarrow> chunk_loop line_number (push_new [] (push_old [] chunk)) (n + 1) rest
        | c # cs \<Rightarrow>
            if c = sp then chunk_loop line_number (push_new cs (push_old cs chunk)) (n + 1) rest
            else if c = plus_sign then chunk_loop line_number (push_new cs chunk) (n + 1) rest
            else if c = minus_sign then chunk_loop line_number (push_old cs chunk) (n + 1) rest
            else if n = 0 then Inl (InvalidHunkError (unexpected_line_msg line) (line_number + 1))
            else Inr (chunk, n)))"

definition parse_update_file_chunk ::
  "str list \<Rightarrow> nat \<Rightarrow> bool \<Rightarrow> ParseError + UpdateFileChunk \<times> nat" where
  "parse_update_file_chunk ls line_number allow_missing_context =
     (case ls of
        [] \<Rightarrow> Inl (InvalidHunkError no_lines_msg line_number)
      | l # _ \<Rightarrow>
          bind_result
            (if l = EMPTY_CHANGE_CONTEXT_MARKER then Inr (None, 1)
             else case strip_prefix CHANGE_CONTEXT_MARKER l of
                 Some context \<Rightarrow> Inr (Some context, 1)
               | None \<Rightarrow>
                   if \<not> allow_missing_context
                   then Inl (InvalidHunkError (missing_context_msg l) line_number)
                   else Inr (None, 0))
            (\<lambda>(ctx, start_index).
               if start_index \<ge> length ls then Inl (InvalidHunkError no_lines_msg (line_number + 1))
               else bind_result (chunk_loop line_number (empty_chunk ctx) 0 (drop start_index ls))
                      (\<lambda>(chunk, n). Inr (chunk, n + start_index))))"

lemma chunk_loop_consumes:
  "chunk_loop ln ch n ls = Inr (ch', k) \<Longrightarrow> n \<le> k \<and> k \<le> n + length ls \<and> (n = 0 \<longrightarrow> ls \<noteq> [] \<longrightarrow> 0 < k)"
proof (induction ln ch n ls rule: chunk_loop.induct)
  case (2 line_number chunk n line rest)
  then show ?case by (cases line) (auto split: if_splits)
qed simp

lemma parse_update_file_chunk_consumes:
  assumes "parse_update_file_chunk ls ln allow = Inr (ch, k)"
  shows "0 < k \<and> k \<le> length ls"
  using assms
  by (auto simp: parse_update_file_chunk_def result_simps
           split: list.splits if_splits option.splits dest!: chunk_loop_consumes)

section \<open>Hunks\<close>

fun add_loop :: "str \<Rightarrow> nat \<Rightarrow> str list \<Rightarrow> str \<times> nat" where
  "add_loop contents parsed [] = (contents, parsed)"
| "add_loop contents parsed (l # ls) =
     (case strip_prefix [plus_sign] l of
        Some line_to_add \<Rightarrow> add_loop (contents @ line_to_add @ [nl]) (parsed + 1) ls
      | None \<Rightarrow> (contents, parsed))"

function update_loop ::
  "nat \<Rightarrow> nat \<Rightarrow> UpdateFileChunk list \<Rightarrow> str list \<Rightarrow> ParseError + UpdateFileChunk list \<times> nat" where
  "update_loop line_number parsed chunks ls =
     (case ls of
        [] \<Rightarrow> Inr (chunks, parsed)
      | l # rest \<Rightarrow>
          if trim l = [] then update_loop line_number (parsed + 1) chunks rest
          else if starts_with [star_sign] l then Inr (chunks, parsed)
          else case parse_update_file_chunk ls (line_number + parsed) (chunks = []) of
              Inl e \<Rightarrow> Inl e
            | Inr (chunk, chunk_lines) \<Rightarrow>
                update_loop line_number (parsed + chunk_lines) (chunks @ [chunk])
                  (drop chunk_lines ls))"
  by pat_completeness auto
termination
  by (relation "measure (\<lambda>(_, _, _, ls). length ls)")
     (auto dest: parse_update_file_chunk_consumes)

declare update_loop.simps [simp del]

text \<open>\<^verbatim>\<open>parse_one_hunk\<close> indexes \<^verbatim>\<open>lines[0]\<close>; its only caller runs while lines remain, so the
  head of an empty list is never read.\<close>

definition parse_one_hunk :: "str list \<Rightarrow> nat \<Rightarrow> ParseError + Hunk \<times> nat" where
  "parse_one_hunk ls line_number =
     (let first_line = trim (hd ls)
      in case strip_prefix ADD_FILE_MARKER first_line of
           Some p \<Rightarrow> (case add_loop [] 1 (tl ls) of (contents, parsed) \<Rightarrow> Inr (AddFile p contents, parsed))
         | None \<Rightarrow>
         (case strip_prefix DELETE_FILE_MARKER first_line of
           Some p \<Rightarrow> Inr (DeleteFile p, 1)
         | None \<Rightarrow>
         (case strip_prefix UPDATE_FILE_MARKER first_line of
           Some p \<Rightarrow>
             (let move_path = (case tl ls of [] \<Rightarrow> None | x # _ \<Rightarrow> strip_prefix MOVE_TO_MARKER x);
                  remaining = (if move_path \<noteq> None then tl (tl ls) else tl ls);
                  parsed = (if move_path \<noteq> None then 2 else 1)
              in bind_result (update_loop line_number parsed [] remaining)
                   (\<lambda>(chunks, parsed').
                      if chunks = [] then Inl (InvalidHunkError (empty_hunk_msg p) line_number)
                      else Inr (UpdateFile p move_path chunks, parsed')))
         | None \<Rightarrow> Inl (InvalidHunkError (not_a_header_msg first_line) line_number))))"

lemma add_loop_parsed: "add_loop c p ls = (c', k) \<Longrightarrow> p \<le> k \<and> k \<le> p + length ls"
  by (induction c p ls rule: add_loop.induct) (force split: option.splits)+

lemma update_loop_parsed:
  "update_loop ln p cs ls = Inr (cs', k) \<Longrightarrow> p \<le> k \<and> k \<le> p + length ls"
proof (induction ln p cs ls rule: update_loop.induct)
  case (1 ln p cs ls)
  show ?case
  proof (cases ls)
    case Nil
    with "1.prems" show ?thesis by (simp add: update_loop.simps)
  next
    case (Cons l rest)
    consider (blank) "trim l = []" | (star) "trim l \<noteq> []" "starts_with [star_sign] l"
      | (chunk) "trim l \<noteq> []" "\<not> starts_with [star_sign] l" by blast
    then show ?thesis
    proof cases
      case blank
      with "1.prems" have "update_loop ln (p + 1) cs rest = Inr (cs', k)"
        by (simp add: Cons update_loop.simps [of ln p cs "l # rest"])
      from "1.IH"(1) [OF Cons blank this] show ?thesis by (simp add: Cons)
    next
      case star
      with "1.prems" show ?thesis by (simp add: Cons update_loop.simps [of ln p cs "l # rest"])
    next
      case chunk
      with "1.prems" obtain ch n where
        parse: "parse_update_file_chunk ls (ln + p) (cs = []) = Inr (ch, n)"
        and loop: "update_loop ln (p + n) (cs @ [ch]) (drop n ls) = Inr (cs', k)"
        by (auto simp: Cons update_loop.simps [of ln p cs "l # rest"] split: sum.splits)
      from "1.IH"(2) [OF Cons chunk parse refl loop] parse_update_file_chunk_consumes [OF parse]
      show ?thesis by simp
    qed
  qed
qed

lemma parse_one_hunk_consumes:
  assumes "parse_one_hunk ls ln = Inr (h, k)" and "ls \<noteq> []"
  shows "0 < k \<and> k \<le> length ls"
  using assms
  by (cases ls)
     (auto simp: parse_one_hunk_def Let_def result_simps
           split: option.splits list.splits prod.splits if_splits
           dest!: update_loop_parsed add_loop_parsed)

section \<open>The patch\<close>

definition check_start_and_end_lines_strict :: "str option \<Rightarrow> str option \<Rightarrow> ParseError + unit" where
  "check_start_and_end_lines_strict first_line last_line =
     (case (map_option trim first_line, map_option trim last_line) of
        (Some f, Some l) \<Rightarrow>
          if f = BEGIN_PATCH_MARKER \<and> l = END_PATCH_MARKER then Inr ()
          else if f \<noteq> BEGIN_PATCH_MARKER then Inl (InvalidPatchError first_line_msg)
          else Inl (InvalidPatchError last_line_msg)
      | (Some f, None) \<Rightarrow>
          if f \<noteq> BEGIN_PATCH_MARKER then Inl (InvalidPatchError first_line_msg)
          else Inl (InvalidPatchError last_line_msg)
      | (None, _) \<Rightarrow> Inl (InvalidPatchError last_line_msg))"

definition check_patch_boundaries_strict ::
  "str list \<Rightarrow> ParseError + str list \<times> str list" where
  "check_patch_boundaries_strict ls =
     (let (first_line, last_line) =
            (case ls of [] \<Rightarrow> (None, None) | f # _ \<Rightarrow> (Some f, Some (last ls)))
      in bind_result (check_start_and_end_lines_strict first_line last_line)
           (\<lambda>_. Inr (ls, butlast (tl ls))))"

definition check_patch_boundaries_lenient ::
  "str list \<Rightarrow> ParseError + str list \<times> str list" where
  "check_patch_boundaries_lenient ls =
     (case check_patch_boundaries_strict ls of
        Inr r \<Rightarrow> Inr r
      | Inl original_parse_error \<Rightarrow>
          (case ls of
             first # _ # _ \<Rightarrow>
               if (first = lit ''<<EOF'' \<or> first = lit ''<<'' @ quoted (lit ''EOF'')
                   \<or> first = lit ''<<'' @ [dquote] @ lit ''EOF'' @ [dquote])
                  \<and> ends_with (lit ''EOF'') (last ls) \<and> length ls \<ge> 4
               then check_patch_boundaries_strict (butlast (tl ls))
               else Inl original_parse_error
           | _ \<Rightarrow> Inl original_parse_error))"

definition parse_environment_id_preamble ::
  "str list \<Rightarrow> ParseError + str option \<times> str list \<times> nat" where
  "parse_environment_id_preamble hunk_lines =
     (case hunk_lines of
        [] \<Rightarrow> Inr (None, hunk_lines, 2)
      | first_line # rest \<Rightarrow>
          (case strip_prefix ENVIRONMENT_ID_MARKER (trim_start first_line) of
             None \<Rightarrow> Inr (None, hunk_lines, 2)
           | Some env \<Rightarrow>
               if trim env = []
               then Inl (InvalidPatchError (lit ''apply_patch environment_id cannot be empty''))
               else Inr (Some (trim env), rest, 3)))"

function hunks_loop :: "Hunk list \<Rightarrow> nat \<Rightarrow> str list \<Rightarrow> ParseError + Hunk list" where
  "hunks_loop hs line_number remaining =
     (if remaining = [] then Inr hs
      else case parse_one_hunk remaining line_number of
          Inl e \<Rightarrow> Inl e
        | Inr (hunk, hunk_lines) \<Rightarrow>
            hunks_loop (hs @ [hunk]) (line_number + hunk_lines) (drop hunk_lines remaining))"
  by pat_completeness auto
termination
  by (relation "measure (\<lambda>(_, _, ls). length ls)") (auto dest: parse_one_hunk_consumes)

declare hunks_loop.simps [simp del]

datatype ParseMode = Strict | Lenient

definition parse_patch_text :: "str \<Rightarrow> ParseMode \<Rightarrow> ParseError + ApplyPatchArgs" where
  "parse_patch_text p mode =
     bind_result
       (case mode of
          Strict \<Rightarrow> check_patch_boundaries_strict (str_lines (trim p))
        | Lenient \<Rightarrow> check_patch_boundaries_lenient (str_lines (trim p)))
       (\<lambda>(patch_lines, hunk_lines).
          bind_result (parse_environment_id_preamble hunk_lines)
            (\<lambda>(env, remaining, line_number).
               bind_result (hunks_loop [] line_number remaining)
                 (\<lambda>hs. Inr \<lparr>patch = join_with [nl] patch_lines, hunks = hs, workdir = None,
                            environment_id = env\<rparr>)))"

definition PARSE_IN_STRICT_MODE :: bool where "PARSE_IN_STRICT_MODE = False"

definition parse_patch :: "str \<Rightarrow> ParseError + ApplyPatchArgs" where
  "parse_patch p = parse_patch_text p (if PARSE_IN_STRICT_MODE then Strict else Lenient)"

end
