(* ===== verification/Streaming_Parser.thy ===== *)
theory Streaming_Parser
  imports Patch_Parser
begin

text \<open>
  The incremental parser that previews a patch while the model still streams it
  (\<^verbatim>\<open>apply-patch/src/streaming_parser.rs\<close>): a line-driven state machine. The Rust value holds a
  line buffer, a nested state (mode and hunks) and a line number; the record flattens the nested
  state. Methods on \<^verbatim>\<open>&mut self\<close> that can fail return the state they leave behind together with
  the result, because a failed \<^verbatim>\<open>push_delta\<close> has already consumed its line.
\<close>

section \<open>State\<close>

datatype StreamingParserMode =
    NotStarted
  | StartedPatch
  | AddFileMode
  | DeleteFileMode
  | UpdateFileMode nat
  | EndedPatch

record StreamingPatchParser =
  line_buffer :: str
  mode :: StreamingParserMode
  parsed :: "Hunk list"
  line_number :: nat

definition default_parser :: StreamingPatchParser where
  "default_parser = \<lparr>line_buffer = [], mode = NotStarted, parsed = [], line_number = 0\<rparr>"

definition last_opt :: "'a list \<Rightarrow> 'a option" where
  "last_opt xs = (if xs = [] then None else Some (last xs))"

definition set_last :: "'a list \<Rightarrow> 'a \<Rightarrow> 'a list" where
  "set_last xs x = butlast xs @ [x]"

definition no_lines :: "UpdateFileChunk \<Rightarrow> bool" where
  "no_lines c \<longleftrightarrow> old_lines c = [] \<and> new_lines c = []"

definition last_has_no_lines :: "UpdateFileChunk list \<Rightarrow> bool" where
  "last_has_no_lines cs \<longleftrightarrow> (case last_opt cs of None \<Rightarrow> False | Some c \<Rightarrow> no_lines c)"

section \<open>Transitions\<close>

definition is_environment_id_preamble_line :: "str \<Rightarrow> bool" where
  "is_environment_id_preamble_line line \<longleftrightarrow> starts_with ENVIRONMENT_ID_MARKER line"

definition ensure_update_hunk_is_not_empty ::
  "StreamingPatchParser \<Rightarrow> str \<Rightarrow> ParseError + unit" where
  "ensure_update_hunk_is_not_empty p line =
     (case last_opt (parsed p) of
        Some (UpdateFile pth mv cs) \<Rightarrow>
          (case (cs, mode p) of
             ([], UpdateFileMode hunk_line_number) \<Rightarrow>
               Inl (InvalidHunkError (empty_hunk_msg pth) hunk_line_number)
           | _ \<Rightarrow>
               if last_has_no_lines cs then
                 (if line = END_PATCH_MARKER
                  then Inl (InvalidHunkError no_lines_msg (line_number p))
                  else Inl (InvalidHunkError (unexpected_line_msg line) (line_number p)))
               else Inr ())
      | _ \<Rightarrow> Inr ())"

definition push_hunk :: "StreamingPatchParser \<Rightarrow> Hunk \<Rightarrow> StreamingParserMode \<Rightarrow> StreamingPatchParser" where
  "push_hunk p h m = p\<lparr>parsed := parsed p @ [h], mode := m\<rparr>"

definition handle_hunk_headers_and_end_patch ::
  "StreamingPatchParser \<Rightarrow> str \<Rightarrow> ParseError + StreamingPatchParser \<times> bool" where
  "handle_hunk_headers_and_end_patch p trimmed =
     (if trimmed = END_PATCH_MARKER then
        bind_result (ensure_update_hunk_is_not_empty p trimmed)
          (\<lambda>_. Inr (p\<lparr>mode := EndedPatch\<rparr>, True))
      else case strip_prefix ADD_FILE_MARKER trimmed of
        Some pth \<Rightarrow>
          bind_result (ensure_update_hunk_is_not_empty p trimmed)
            (\<lambda>_. Inr (push_hunk p (AddFile pth []) AddFileMode, True))
      | None \<Rightarrow> (case strip_prefix DELETE_FILE_MARKER trimmed of
        Some pth \<Rightarrow>
          bind_result (ensure_update_hunk_is_not_empty p trimmed)
            (\<lambda>_. Inr (push_hunk p (DeleteFile pth) DeleteFileMode, True))
      | None \<Rightarrow> (case strip_prefix UPDATE_FILE_MARKER trimmed of
        Some pth \<Rightarrow>
          bind_result (ensure_update_hunk_is_not_empty p trimmed)
            (\<lambda>_. Inr (push_hunk p (UpdateFile pth None []) (UpdateFileMode (line_number p)), True))
      | None \<Rightarrow> Inr (p, False))))"

text \<open>A body line of an update hunk: a missing first chunk is created on demand, then the last
  chunk is changed by \<open>f\<close>.\<close>

definition with_last_chunk ::
  "(UpdateFileChunk \<Rightarrow> UpdateFileChunk) \<Rightarrow> UpdateFileChunk list \<Rightarrow> UpdateFileChunk list" where
  "with_last_chunk f cs =
     (let cs' = (if cs = [] then [empty_chunk None] else cs) in set_last cs' (f (last cs')))"

definition update_file_line ::
  "nat \<Rightarrow> path option \<Rightarrow> UpdateFileChunk list \<Rightarrow> str
   \<Rightarrow> (ParseError + path option \<times> UpdateFileChunk list) option" where
  "update_file_line lineno move_path cs line =
     (let update_line = trim_end line
      in if cs = [] \<and> move_path = None \<and> strip_prefix MOVE_TO_MARKER update_line \<noteq> None then
           Some (Inr (strip_prefix MOVE_TO_MARKER update_line, cs))
         else if (update_line = EMPTY_CHANGE_CONTEXT_MARKER \<or> starts_with CHANGE_CONTEXT_MARKER update_line)
                 \<and> last_has_no_lines cs then
           Some (Inl (InvalidHunkError (unexpected_line_msg line) lineno))
         else if update_line = EMPTY_CHANGE_CONTEXT_MARKER then
           Some (Inr (move_path, cs @ [empty_chunk None]))
         else if strip_prefix CHANGE_CONTEXT_MARKER update_line \<noteq> None then
           Some (Inr (move_path, cs @ [empty_chunk (strip_prefix CHANGE_CONTEXT_MARKER update_line)]))
         else if update_line = EOF_MARKER then
           (if last_has_no_lines cs then Some (Inl (InvalidHunkError no_lines_msg lineno))
            else Some (Inr (move_path,
                   if cs = [] then cs else set_last cs ((last cs)\<lparr>is_end_of_file := True\<rparr>))))
         else case line of
             [] \<Rightarrow> Some (Inr (move_path, with_last_chunk (push_new [] \<circ> push_old []) cs))
           | c # rest \<Rightarrow>
               if c = sp then Some (Inr (move_path, with_last_chunk (push_new rest \<circ> push_old rest) cs))
               else if c = plus_sign then Some (Inr (move_path, with_last_chunk (push_new rest) cs))
               else if c = minus_sign then Some (Inr (move_path, with_last_chunk (push_old rest) cs))
               else if cs \<noteq> [] \<and> \<not> no_lines (last cs) then
                 Some (Inl (InvalidHunkError (missing_context_msg line) lineno))
               else None)"

definition process_line ::
  "StreamingPatchParser \<Rightarrow> str \<Rightarrow> StreamingPatchParser \<times> (ParseError + unit)" where
  "process_line p line =
     (let trimmed = trim line;
          bad_header = (p, Inl (InvalidHunkError (not_a_header_msg trimmed) (line_number p)))
      in case mode p of
           NotStarted \<Rightarrow>
             if trimmed = BEGIN_PATCH_MARKER then (p\<lparr>mode := StartedPatch\<rparr>, Inr ())
             else (p, Inl (InvalidPatchError first_line_msg))
         | StartedPatch \<Rightarrow>
             if is_environment_id_preamble_line line then (p, Inr ())
             else (case handle_hunk_headers_and_end_patch p trimmed of
                     Inl e \<Rightarrow> (p, Inl e)
                   | Inr (p', True) \<Rightarrow> (p', Inr ())
                   | Inr (p', False) \<Rightarrow> bad_header)
         | AddFileMode \<Rightarrow>
             (case handle_hunk_headers_and_end_patch p trimmed of
                Inl e \<Rightarrow> (p, Inl e)
              | Inr (p', True) \<Rightarrow> (p', Inr ())
              | Inr (p', False) \<Rightarrow>
                  (case (strip_prefix [plus_sign] line, last_opt (parsed p)) of
                     (Some line_to_add, Some (AddFile pth contents)) \<Rightarrow>
                       (p\<lparr>parsed := set_last (parsed p) (AddFile pth (contents @ line_to_add @ [nl]))\<rparr>,
                        Inr ())
                   | _ \<Rightarrow> bad_header))
         | DeleteFileMode \<Rightarrow>
             (case handle_hunk_headers_and_end_patch p trimmed of
                Inl e \<Rightarrow> (p, Inl e)
              | Inr (p', True) \<Rightarrow> (p', Inr ())
              | Inr (p', False) \<Rightarrow> bad_header)
         | UpdateFileMode hunk_line_number \<Rightarrow>
             (case handle_hunk_headers_and_end_patch p (trim_end line) of
                Inl e \<Rightarrow> (p, Inl e)
              | Inr (p', True) \<Rightarrow> (p', Inr ())
              | Inr (p', False) \<Rightarrow>
                  (case last_opt (parsed p) of
                     Some (UpdateFile pth move_path cs) \<Rightarrow>
                       (case update_file_line (line_number p) move_path cs line of
                          Some (Inl e) \<Rightarrow> (p, Inl e)
                        | Some (Inr (mv, cs')) \<Rightarrow>
                            (p\<lparr>parsed := set_last (parsed p) (UpdateFile pth mv cs'),
                               mode := UpdateFileMode hunk_line_number\<rparr>, Inr ())
                        | None \<Rightarrow>
                            (p, Inl (InvalidHunkError (unexpected_line_msg line) (line_number p))))
                   | _ \<Rightarrow>
                       (p, Inl (InvalidHunkError (unexpected_line_msg line) (line_number p)))))
         | EndedPatch \<Rightarrow> (p, Inr ()))"

fun push_chars :: "StreamingPatchParser \<Rightarrow> str \<Rightarrow> StreamingPatchParser \<times> (ParseError + unit)" where
  "push_chars p [] = (p, Inr ())"
| "push_chars p (ch # rest) =
     (if ch = nl then
        (case process_line (p\<lparr>line_buffer := [], line_number := line_number p + 1\<rparr>)
                (strip_cr (line_buffer p)) of
           (p', Inl e) \<Rightarrow> (p', Inl e)
         | (p', Inr _) \<Rightarrow> push_chars p' rest)
      else push_chars (p\<lparr>line_buffer := line_buffer p @ [ch]\<rparr>) rest)"

definition push_delta ::
  "StreamingPatchParser \<Rightarrow> str \<Rightarrow> StreamingPatchParser \<times> (ParseError + Hunk list)" where
  "push_delta p delta =
     (case push_chars p delta of
        (p', Inl e) \<Rightarrow> (p', Inl e)
      | (p', Inr _) \<Rightarrow> (p', Inr (parsed p')))"

definition finish_buffer :: "StreamingPatchParser \<Rightarrow> StreamingPatchParser \<times> (ParseError + unit)" where
  "finish_buffer p =
     (if line_buffer p = [] then (p, Inr ())
      else
        let line = line_buffer p;
            p1 = p\<lparr>line_buffer := [], line_number := line_number p + 1\<rparr>
        in if trim line = END_PATCH_MARKER then
             (case ensure_update_hunk_is_not_empty p1 (trim line) of
                Inl e \<Rightarrow> (p1, Inl e)
              | Inr _ \<Rightarrow> (p1\<lparr>mode := EndedPatch\<rparr>, Inr ()))
           else process_line p1 line)"

definition finish :: "StreamingPatchParser \<Rightarrow> StreamingPatchParser \<times> (ParseError + Hunk list)" where
  "finish p =
     (case finish_buffer p of
        (p', Inl e) \<Rightarrow> (p', Inl e)
      | (p', Inr _) \<Rightarrow>
          if mode p' \<noteq> EndedPatch then (p', Inl (InvalidPatchError last_line_msg))
          else (p', Inr (parsed p')))"

section \<open>Chunking independence\<close>

lemma push_chars_append:
  "push_chars p (xs @ ys) =
     (case push_chars p xs of (p', Inl e) \<Rightarrow> (p', Inl e) | (p', Inr _) \<Rightarrow> push_chars p' ys)"
  by (induction p xs rule: push_chars.induct) (auto split: prod.splits sum.splits)

section \<open>Invariant\<close>

text \<open>A hunk is complete when the applier can use it: an update hunk has chunks and every chunk
  has lines. Only the update hunk being streamed may be incomplete, and of its chunks only the
  last.\<close>

fun complete_hunk :: "Hunk \<Rightarrow> bool" where
  "complete_hunk (UpdateFile _ _ cs) \<longleftrightarrow> cs \<noteq> [] \<and> list_all (\<lambda>c. \<not> no_lines c) cs"
| "complete_hunk _ \<longleftrightarrow> True"

fun open_hunk :: "StreamingParserMode \<Rightarrow> Hunk \<Rightarrow> bool" where
  "open_hunk (UpdateFileMode _) (UpdateFile _ _ cs) \<longleftrightarrow> list_all (\<lambda>c. \<not> no_lines c) (butlast cs)"
| "open_hunk AddFileMode (AddFile _ _) \<longleftrightarrow> True"
| "open_hunk DeleteFileMode (DeleteFile _) \<longleftrightarrow> True"
| "open_hunk EndedPatch h \<longleftrightarrow> complete_hunk h"
| "open_hunk _ _ \<longleftrightarrow> False"

definition stream_inv :: "StreamingPatchParser \<Rightarrow> bool" where
  "stream_inv p \<longleftrightarrow>
     list_all complete_hunk (butlast (parsed p))
     \<and> (case last_opt (parsed p) of
          None \<Rightarrow> mode p \<in> {NotStarted, StartedPatch, EndedPatch}
        | Some h \<Rightarrow> open_hunk (mode p) h)"

lemma last_opt_snoc [simp]: "last_opt (xs @ [x]) = Some x"
  by (simp add: last_opt_def)

lemma last_opt_Nil [simp]: "last_opt [] = None"
  by (simp add: last_opt_def)

lemma last_opt_Some_iff: "last_opt xs = Some x \<longleftrightarrow> (\<exists>ys. xs = ys @ [x])"
  by (cases xs rule: rev_cases) (auto simp: last_opt_def)

lemma last_opt_None_iff: "last_opt xs = None \<longleftrightarrow> xs = []"
  by (simp add: last_opt_def)

lemma set_last_snoc [simp]: "set_last (xs @ [x]) y = xs @ [y]"
  by (simp add: set_last_def)

lemma no_lines_empty_chunk [simp]: "no_lines (empty_chunk ctx)"
  by (simp add: no_lines_def empty_chunk_def)

lemma no_lines_push [simp]:
  "\<not> no_lines (push_old l c)" "\<not> no_lines (push_new l c)"
  by (simp_all add: no_lines_def push_old_def push_new_def)

lemma no_lines_eof [simp]: "no_lines (c\<lparr>is_end_of_file := b\<rparr>) = no_lines c"
  by (simp add: no_lines_def)

text \<open>Once the emptiness check passes, the last hunk is complete.\<close>

lemma ensure_complete:
  assumes "stream_inv p" and "ensure_update_hunk_is_not_empty p l = Inr ()"
  shows "list_all complete_hunk (parsed p)"
proof (cases "parsed p" rule: rev_cases)
  case (snoc hs h)
  with assms(1) have hs: "list_all complete_hunk hs" and op: "open_hunk (mode p) h"
    by (simp_all add: stream_inv_def)
  have "complete_hunk h"
  proof (cases h)
    case (UpdateFile pth mv cs)
    with assms(2) op snoc show ?thesis
      by (cases "mode p"; cases cs rule: rev_cases)
         (auto simp: ensure_update_hunk_is_not_empty_def last_has_no_lines_def
               split: if_splits list.splits)
  qed simp_all
  with hs snoc show ?thesis by simp
qed simp

lemma stream_inv_header:
  assumes inv: "stream_inv p" and step: "handle_hunk_headers_and_end_patch p l = Inr (p', b)"
  shows "stream_inv p'"
proof (cases b)
  case False
  with step have "p' = p"
    by (auto simp: handle_hunk_headers_and_end_patch_def result_simps split: if_splits option.splits)
  with inv show ?thesis by simp
next
  case True
  with step have "ensure_update_hunk_is_not_empty p l = Inr ()"
    by (auto simp: handle_hunk_headers_and_end_patch_def result_simps split: if_splits option.splits)
  with inv have all: "list_all complete_hunk (parsed p)" by (rule ensure_complete)
  then have "case last_opt (parsed p) of None \<Rightarrow> True | Some h \<Rightarrow> complete_hunk h"
    by (auto simp: last_opt_def list_all_iff)
  with all step True show ?thesis
    by (auto simp: handle_hunk_headers_and_end_patch_def result_simps stream_inv_def push_hunk_def
                   list_all_iff dest: in_set_butlastD split: if_splits option.splits)
qed

lemma with_last_chunk_lines:
  assumes "list_all (\<lambda>c. \<not> no_lines c) (butlast cs)" and "\<And>c. \<not> no_lines (f c)"
  shows "list_all (\<lambda>c. \<not> no_lines c) (butlast (with_last_chunk f cs))"
  using assms by (cases cs rule: rev_cases) (auto simp: with_last_chunk_def set_last_def)

lemma update_file_line_open:
  assumes "list_all (\<lambda>c. \<not> no_lines c) (butlast cs)"
    and "update_file_line ln mv cs line = Some (Inr (mv', cs'))"
  shows "list_all (\<lambda>c. \<not> no_lines c) (butlast cs')"
proof -
  have snoc: "list_all (\<lambda>c. \<not> no_lines c) cs" if "\<not> last_has_no_lines cs"
    using that assms(1) by (cases cs rule: rev_cases) (auto simp: last_has_no_lines_def)
  from assms show ?thesis
    by (auto simp: update_file_line_def Let_def snoc set_last_def starts_with_def
             split: if_splits list.splits intro: with_last_chunk_lines)
qed

lemma stream_inv_process_line:
  assumes inv: "stream_inv p"
  shows "stream_inv (fst (process_line p line))"
proof -
  note header = stream_inv_header [OF inv]
  have update: "stream_inv (p\<lparr>parsed := set_last (parsed p) (UpdateFile pth mv' cs'), mode := UpdateFileMode n\<rparr>)"
    if "mode p = UpdateFileMode n" "last_opt (parsed p) = Some (UpdateFile pth mv cs)"
       "update_file_line ln mv cs line = Some (Inr (mv', cs'))" for n pth mv cs mv' cs' ln
    using that inv update_file_line_open [of cs ln mv line mv' cs']
    by (auto simp: stream_inv_def last_opt_Some_iff)
  have add: "stream_inv (p\<lparr>parsed := set_last (parsed p) (AddFile pth c')\<rparr>)"
    if "mode p = AddFileMode" "last_opt (parsed p) = Some (AddFile pth c)" for pth c c'
    using that inv by (auto simp: stream_inv_def last_opt_Some_iff)
  show ?thesis
  proof (cases "mode p")
    case NotStarted
    with inv show ?thesis
      by (auto simp: process_line_def Let_def stream_inv_def split: option.splits)
  next
    case (UpdateFileMode n)
    with inv header update show ?thesis
      by (auto simp: process_line_def Let_def split: sum.splits bool.splits option.splits Hunk.splits)
  next
    case AddFileMode
    with inv header add show ?thesis
      by (auto simp: process_line_def Let_def split: sum.splits bool.splits option.splits Hunk.splits)
  qed (use inv header in \<open>auto simp: process_line_def Let_def split: sum.splits bool.splits option.splits\<close>)
qed

lemma stream_inv_buffer [simp]:
  "stream_inv (p\<lparr>line_buffer := b\<rparr>) = stream_inv p"
  "stream_inv (p\<lparr>line_buffer := b, line_number := n\<rparr>) = stream_inv p"
  by (simp_all add: stream_inv_def split: option.splits)

lemma stream_inv_push_chars: "stream_inv p \<Longrightarrow> stream_inv (fst (push_chars p s))"
proof (induction p s rule: push_chars.induct)
  case (2 p ch rest)
  show ?case
  proof (cases "ch = nl")
    case False
    with 2 show ?thesis by simp
  next
    case True
    let ?q = "p\<lparr>line_buffer := [], line_number := line_number p + 1\<rparr>"
    let ?r = "process_line ?q (strip_cr (line_buffer p))"
    from "2.prems" have "stream_inv (fst ?r)" by (intro stream_inv_process_line) simp
    with "2.IH"(1) [OF True, of "fst ?r" "snd ?r"] True show ?thesis
      by (cases ?r) (auto split: sum.splits)
  qed
qed simp

lemma stream_inv_finish: "stream_inv p \<Longrightarrow> stream_inv (fst (finish p))"
proof -
  assume inv: "stream_inv p"
  let ?q = "p\<lparr>line_buffer := [], line_number := line_number p + 1\<rparr>"
  have q: "stream_inv ?q" using inv by simp
  have ended: "stream_inv (?q\<lparr>mode := EndedPatch\<rparr>)"
    if "ensure_update_hunk_is_not_empty ?q l = Inr ()" for l
  proof -
    from q that have all: "list_all complete_hunk (parsed ?q)" by (rule ensure_complete)
    then show ?thesis
      by (auto simp: stream_inv_def last_opt_def list_all_iff dest: in_set_butlastD)
  qed
  have buf: "stream_inv (fst (finish_buffer p))"
    using inv q ended stream_inv_process_line [OF q, of "line_buffer p"]
    by (auto simp: finish_buffer_def Let_def split: sum.splits)
  have "fst (finish p) = fst (finish_buffer p)"
    by (auto simp: finish_def split: prod.splits sum.splits)
  with buf show ?thesis by simp
qed

text \<open>The states a client of the parser can see: any sequence of deltas, whether or not an earlier
  one failed, and \<^verbatim>\<open>finish\<close>.\<close>

inductive stream_reachable :: "StreamingPatchParser \<Rightarrow> bool" where
  start: "stream_reachable default_parser"
| delta: "stream_reachable p \<Longrightarrow> stream_reachable (fst (push_delta p d))"
| finish: "stream_reachable p \<Longrightarrow> stream_reachable (fst (finish p))"

lemma fst_push_delta: "fst (push_delta p d) = fst (push_chars p d)"
  by (auto simp: push_delta_def split: prod.splits sum.splits)

lemma stream_reachable_inv: "stream_reachable p \<Longrightarrow> stream_inv p"
proof (induction rule: stream_reachable.induct)
  case start
  show ?case by (simp add: stream_inv_def default_parser_def)
next
  case (delta p d)
  then show ?case by (simp add: fst_push_delta stream_inv_push_chars)
next
  case (finish p)
  then show ?case by (simp add: stream_inv_finish)
qed

end
