(* ===== verification/Patch_Render.thy ===== *)
theory Patch_Render
  imports Streaming_Parser
begin

text \<open>
  The patch format from the writer's side: a printer for hunks, and the round trip through both
  parsers. The code has no printer; \<open>render_patch\<close> is the format the module documentation gives,
  with every update chunk introduced by its context marker and its removed lines before its added
  lines.
\<close>

section \<open>Printing\<close>

fun render_chunk :: "UpdateFileChunk \<Rightarrow> str list" where
  "render_chunk c =
     (case change_context c of
        None \<Rightarrow> EMPTY_CHANGE_CONTEXT_MARKER
      | Some ctx \<Rightarrow> CHANGE_CONTEXT_MARKER @ ctx)
     # map (\<lambda>l. minus_sign # l) (old_lines c)
     @ map (\<lambda>l. plus_sign # l) (new_lines c)
     @ (if is_end_of_file c then [EOF_MARKER] else [])"

declare render_chunk.simps [simp del]

fun hunk_header :: "Hunk \<Rightarrow> str" where
  "hunk_header (AddFile p _) = ADD_FILE_MARKER @ p"
| "hunk_header (DeleteFile p) = DELETE_FILE_MARKER @ p"
| "hunk_header (UpdateFile p _ _) = UPDATE_FILE_MARKER @ p"

fun hunk_body :: "Hunk \<Rightarrow> str list" where
  "hunk_body (AddFile _ contents) = map (\<lambda>l. plus_sign # l) (butlast (split_on nl contents))"
| "hunk_body (DeleteFile _) = []"
| "hunk_body (UpdateFile _ mv cs) =
     (case mv of None \<Rightarrow> [] | Some m \<Rightarrow> [MOVE_TO_MARKER @ m]) @ concat (map render_chunk cs)"

definition render_hunk :: "Hunk \<Rightarrow> str list" where
  "render_hunk h = hunk_header h # hunk_body h"

definition patch_lines :: "Hunk list \<Rightarrow> str list" where
  "patch_lines hs = BEGIN_PATCH_MARKER # concat (map render_hunk hs) @ [END_PATCH_MARKER]"

definition render_patch :: "Hunk list \<Rightarrow> str" where
  "render_patch hs = join_with [nl] (patch_lines hs)"

text \<open>What can be printed: one-line texts whose end survives trimming.\<close>

definition line_ok :: "str \<Rightarrow> bool" where
  "line_ok l \<longleftrightarrow> nl \<notin> set l \<and> (l = [] \<or> last l \<noteq> cr)"

definition name_ok :: "str \<Rightarrow> bool" where
  "name_ok p \<longleftrightarrow> nl \<notin> set p \<and> p \<noteq> [] \<and> \<not> is_whitespace (last p)"

definition chunk_ok :: "UpdateFileChunk \<Rightarrow> bool" where
  "chunk_ok c \<longleftrightarrow> \<not> no_lines c \<and> list_all line_ok (old_lines c) \<and> list_all line_ok (new_lines c)
     \<and> (case change_context c of None \<Rightarrow> True | Some ctx \<Rightarrow> name_ok ctx)"

fun hunk_ok :: "Hunk \<Rightarrow> bool" where
  "hunk_ok (AddFile p contents) \<longleftrightarrow>
     name_ok p \<and> (contents = [] \<or> last contents = nl) \<and> list_all line_ok (butlast (split_on nl contents))"
| "hunk_ok (DeleteFile p) \<longleftrightarrow> name_ok p"
| "hunk_ok (UpdateFile p mv cs) \<longleftrightarrow>
     name_ok p \<and> (case mv of None \<Rightarrow> True | Some m \<Rightarrow> name_ok m) \<and> cs \<noteq> [] \<and> list_all chunk_ok cs"

section \<open>Marker lines\<close>

lemma lit_marker_codes:
  "BEGIN_PATCH_MARKER = [42,42,42,32,66,101,103,105,110,32,80,97,116,99,104]"
  "ENVIRONMENT_ID_MARKER = [42,42,42,32,69,110,118,105,114,111,110,109,101,110,116,32,73,68,58,32]"
  "END_PATCH_MARKER = [42,42,42,32,69,110,100,32,80,97,116,99,104]"
  "ADD_FILE_MARKER = [42,42,42,32,65,100,100,32,70,105,108,101,58,32]"
  "DELETE_FILE_MARKER = [42,42,42,32,68,101,108,101,116,101,32,70,105,108,101,58,32]"
  "UPDATE_FILE_MARKER = [42,42,42,32,85,112,100,97,116,101,32,70,105,108,101,58,32]"
  "MOVE_TO_MARKER = [42,42,42,32,77,111,118,101,32,116,111,58,32]"
  "EOF_MARKER = [42,42,42,32,69,110,100,32,111,102,32,70,105,108,101]"
  "CHANGE_CONTEXT_MARKER = [64,64,32]"
  "EMPTY_CHANGE_CONTEXT_MARKER = [64,64]"
  by (simp_all add: marker_defs lit_def)

lemma whitespace_codes [simp]:
  "is_whitespace 32" "is_whitespace 10" "is_whitespace 13"
  "\<not> is_whitespace 42" "\<not> is_whitespace 64" "\<not> is_whitespace 43" "\<not> is_whitespace 45"
  "\<not> is_whitespace 104" "\<not> is_whitespace 101"
  by (simp_all add: is_whitespace_def)

lemma trim_end_last: "s \<noteq> [] \<Longrightarrow> \<not> is_whitespace (last s) \<Longrightarrow> trim_end s = s"
  by (cases s rule: rev_cases) (simp_all add: trim_end_def)

lemma trim_marked: "name_ok p \<Longrightarrow> trim (42 # ms @ p) = 42 # ms @ p"
  by (rule trim_id) (simp_all add: name_ok_def)

lemma header_simps:
  assumes "hunk_ok h"
  shows "trim (hunk_header h) = hunk_header h" and "trim_end (hunk_header h) = hunk_header h"
    and "trim_start (hunk_header h) = hunk_header h"
  using assms
  by (cases h;
      simp add: lit_marker_codes trim_id trim_end_last trim_start_Cons name_ok_def)+

section \<open>The batch parser reads what is printed\<close>

definition stops :: "str list \<Rightarrow> bool" where
  "stops rest \<longleftrightarrow> rest = [] \<or> (\<exists>t. hd rest = star_sign # t) \<and> hd rest \<noteq> EOF_MARKER"

definition chunk_stops :: "str list \<Rightarrow> bool" where
  "chunk_stops rest \<longleftrightarrow>
     rest = [] \<or> (\<exists>c t. hd rest = c # t \<and> c \<notin> {sp, plus_sign, minus_sign}) \<and> hd rest \<noteq> EOF_MARKER"

lemma chunk_loop_old:
  "chunk_loop ln c n (map (\<lambda>l. minus_sign # l) ls @ rest)
   = chunk_loop ln (c\<lparr>old_lines := old_lines c @ ls\<rparr>) (n + length ls) rest"
  by (induction ls arbitrary: c n) (simp_all add: lit_marker_codes push_old_def)

lemma chunk_loop_new:
  "chunk_loop ln c n (map (\<lambda>l. plus_sign # l) ls @ rest)
   = chunk_loop ln (c\<lparr>new_lines := new_lines c @ ls\<rparr>) (n + length ls) rest"
  by (induction ls arbitrary: c n) (simp_all add: lit_marker_codes push_new_def)

lemma chunk_loop_stop: "chunk_stops rest \<Longrightarrow> 0 < n \<Longrightarrow> chunk_loop ln c n rest = Inr (c, n)"
  by (cases rest) (auto simp: chunk_stops_def)

lemma chunk_loop_render:
  assumes "\<not> no_lines c" and "chunk_stops rest"
  shows "chunk_loop ln (empty_chunk (change_context c)) 0 (tl (render_chunk c) @ rest)
         = Inr (c, length (tl (render_chunk c)))"
proof -
  have "0 < length (old_lines c) + length (new_lines c)"
    using assms(1) by (auto simp: no_lines_def)
  with assms(2) show ?thesis
    by (auto simp: render_chunk.simps chunk_loop_old chunk_loop_new chunk_loop_stop empty_chunk_def)
qed

lemma parse_chunk_render:
  assumes "chunk_ok c" and "chunk_stops rest"
  shows "parse_update_file_chunk (render_chunk c @ rest) ln allow = Inr (c, length (render_chunk c))"
proof -
  have ne: "\<not> no_lines c" using assms(1) by (simp add: chunk_ok_def)
  have long: "tl (render_chunk c) \<noteq> []"
    using ne by (auto simp: no_lines_def render_chunk.simps)
  have "render_chunk c = hd (render_chunk c) # tl (render_chunk c)"
    by (simp add: render_chunk.simps)
  with chunk_loop_render [OF ne assms(2), of ln] long show ?thesis
    by (cases "change_context c")
       (auto simp: parse_update_file_chunk_def render_chunk.simps lit_marker_codes)
qed

lemma chunk_stops_render: "chunk_stops (concat (map render_chunk cs) @ rest) \<longleftrightarrow> cs \<noteq> [] \<or> chunk_stops rest"
  by (cases cs)
     (auto simp: chunk_stops_def render_chunk.simps lit_marker_codes split: option.splits)

lemma stops_chunk_stops: "stops rest \<Longrightarrow> chunk_stops rest"
  by (auto simp: stops_def chunk_stops_def)

lemma render_chunk_hd:
  "\<exists>t. hd (render_chunk c) = 64 # t \<and> trim (64 # t) \<noteq> []"
  by (auto simp: render_chunk.simps lit_marker_codes trim_def trim_start_Cons trim_end_Cons
           split: option.splits)

lemma update_loop_render:
  assumes "list_all chunk_ok cs" and "stops rest"
  shows "update_loop ln n done (concat (map render_chunk cs) @ rest)
         = Inr (done @ cs, n + length (concat (map render_chunk cs)))"
  using assms
proof (induction cs arbitrary: n "done")
  case Nil
  then show ?case
    by (cases rest)
       (auto simp: update_loop.simps [of _ _ _ "_ # _"] update_loop.simps [of _ _ _ "[]"] stops_def
                   starts_with_def trim_def trim_start_Cons trim_end_Cons)
next
  case (Cons c cs)
  let ?rest = "concat (map render_chunk cs) @ rest"
  have "chunk_stops ?rest" using Cons.prems by (simp add: chunk_stops_render stops_chunk_stops)
  with Cons.prems have parse:
    "parse_update_file_chunk (render_chunk c @ ?rest) l a = Inr (c, length (render_chunk c))" for l a
    by (intro parse_chunk_render) simp_all
  obtain t where t: "hd (render_chunk c) = 64 # t" "trim (64 # t) \<noteq> []" using render_chunk_hd by blast
  then obtain ts where ts: "render_chunk c = (64 # t) # ts" by (cases "render_chunk c") (auto simp: render_chunk.simps)
  have "update_loop ln n done (render_chunk c @ ?rest)
        = update_loop ln (n + length (render_chunk c)) (done @ [c]) ?rest"
    using parse [of "ln + n" "done = []"] t(2)
    by (simp add: ts update_loop.simps [of ln n "done" "(64 # t) # ts @ ?rest"] starts_with_def)
  with Cons show ?case by simp
qed

lemma add_loop_render:
  "stops rest \<Longrightarrow> add_loop c n (map (\<lambda>l. plus_sign # l) ls @ rest)
   = (c @ concat (map (\<lambda>l. l @ [nl]) ls), n + length ls)"
proof (induction ls arbitrary: c n)
  case Nil
  then show ?case by (cases rest) (auto simp: stops_def)
qed simp

lemma concat_split_on: "concat (map (\<lambda>l. l @ [c]) (butlast (split_on c s))) @ last (split_on c s) = s"
proof (induction s)
  case (Cons a s)
  obtain l ls where "split_on c s = l # ls" by (metis split_on_nonempty neq_Nil_conv)
  with Cons show ?case by (cases ls) auto
qed simp

lemma last_split_on_terminated: "s = [] \<or> last s = c \<Longrightarrow> last (split_on c s) = []"
  by (cases s rule: rev_cases) (auto simp: split_on_snoc_sep)

lemma parse_one_hunk_render:
  assumes "hunk_ok h" and "stops rest"
  shows "parse_one_hunk (render_hunk h @ rest) ln = Inr (h, length (render_hunk h))"
proof (cases h)
  case (AddFile p contents)
  with assms(1) have "concat (map (\<lambda>l. l @ [nl]) (butlast (split_on nl contents))) = contents"
    using concat_split_on [of nl contents] last_split_on_terminated [of contents nl] by simp
  with AddFile assms header_simps(1) [OF assms(1)] show ?thesis
    by (simp add: parse_one_hunk_def render_hunk_def add_loop_render)
next
  case (DeleteFile p)
  with assms header_simps(1) [OF assms(1)] show ?thesis
    by (simp add: parse_one_hunk_def render_hunk_def lit_marker_codes)
next
  case (UpdateFile p mv cs)
  let ?chunks = "concat (map render_chunk cs)"
  have strip: "strip_prefix ADD_FILE_MARKER (UPDATE_FILE_MARKER @ p) = None"
    "strip_prefix DELETE_FILE_MARKER (UPDATE_FILE_MARKER @ p) = None"
    by (simp_all add: lit_marker_codes)
  from UpdateFile assms(1) obtain c cs' where cs: "cs = c # cs'" by (cases cs) auto
  have no_move: "strip_prefix MOVE_TO_MARKER (hd (render_chunk c)) = None"
    using render_chunk_hd [of c] by (auto simp: lit_marker_codes)
  have hd_chunk: "render_chunk c = hd (render_chunk c) # tl (render_chunk c)"
    by (simp add: render_chunk.simps)
  have loop: "update_loop ln n [] (?chunks @ rest) = Inr (cs, n + length ?chunks)" for n
    using update_loop_render [of cs rest ln n "[]"] assms UpdateFile by simp
  show ?thesis
  proof (cases mv)
    case None
    have "tl (render_hunk h @ rest) = ?chunks @ rest"
      by (simp add: render_hunk_def UpdateFile None)
    moreover have "(case ?chunks @ rest of [] \<Rightarrow> None | x # _ \<Rightarrow> strip_prefix MOVE_TO_MARKER x) = None"
      using no_move by (simp add: cs) (subst hd_chunk, simp)
    ultimately show ?thesis
      using header_simps(1) [OF assms(1)] UpdateFile None cs loop [of 1] strip
      by (simp add: parse_one_hunk_def render_hunk_def)
  next
    case (Some m)
    then show ?thesis
      using header_simps(1) [OF assms(1)] UpdateFile cs loop [of 2] strip
      by (simp add: parse_one_hunk_def render_hunk_def)
  qed
qed

lemma stops_render: "stops (concat (map render_hunk hs))"
proof (cases hs)
  case (Cons h hs')
  then show ?thesis
    by (cases h) (simp_all add: stops_def render_hunk_def lit_marker_codes)
qed (simp add: stops_def)

lemma render_hunk_ne [simp]: "render_hunk h \<noteq> []"
  by (simp add: render_hunk_def)

lemma hunks_loop_render:
  "list_all hunk_ok hs \<Longrightarrow> hunks_loop done ln (concat (map render_hunk hs)) = Inr (done @ hs)"
proof (induction hs arbitrary: "done" ln)
  case (Cons h hs)
  have "parse_one_hunk (render_hunk h @ concat (map render_hunk hs)) ln = Inr (h, length (render_hunk h))"
    using Cons.prems stops_render by (intro parse_one_hunk_render) simp_all
  with Cons show ?case
    by (simp add: hunks_loop.simps [of "done" ln "_ @ _"])
qed (simp add: hunks_loop.simps)

lemma str_lines_join:
  assumes "ls \<noteq> []" and "list_all line_ok ls" and "last ls \<noteq> []"
  shows "str_lines (join_with [nl] ls) = ls"
proof -
  have "split_on nl (join_with [nl] ls) = ls"
    using assms by (intro split_on_join) (auto simp: line_ok_def list_all_iff)
  moreover have "map strip_cr (butlast ls) = butlast ls"
    using assms(2) by (intro map_idI strip_cr_id) (auto simp: line_ok_def list_all_iff dest: in_set_butlastD)
  ultimately show ?thesis using assms by (simp add: str_lines_def)
qed

lemma name_ok_line: "name_ok p \<Longrightarrow> nl \<notin> set m \<Longrightarrow> line_ok (m @ p)"
  by (auto simp: name_ok_def line_ok_def)

lemma line_ok_chunk: "chunk_ok c \<Longrightarrow> list_all line_ok (render_chunk c)"
  by (auto simp: render_chunk.simps chunk_ok_def list_all_iff lit_marker_codes line_ok_def name_ok_def
           split: option.splits if_splits)

lemma line_ok_hunk: "hunk_ok h \<Longrightarrow> list_all line_ok (render_hunk h)"
  by (cases h)
     (auto simp: render_hunk_def lit_marker_codes list_all_iff line_ok_def name_ok_def
           dest!: line_ok_chunk [unfolded list_all_iff line_ok_def] split: option.splits if_splits)

lemma line_ok_patch: "list_all hunk_ok hs \<Longrightarrow> list_all line_ok (patch_lines hs)"
  by (auto simp: patch_lines_def list_all_iff dest: line_ok_hunk [unfolded list_all_iff])
     (simp_all add: line_ok_def lit_marker_codes)

lemma hd_join_with: "ls \<noteq> [] \<Longrightarrow> hd ls \<noteq> [] \<Longrightarrow> hd (join_with sep ls) = hd (hd ls)"
  by (cases "(sep, ls)" rule: join_with.cases) simp_all

lemma last_join_with:
  "ls \<noteq> [] \<Longrightarrow> last ls \<noteq> [] \<Longrightarrow> join_with sep ls \<noteq> [] \<and> last (join_with sep ls) = last (last ls)"
proof (induction ls)
  case (Cons l ls)
  then show ?case by (cases ls) auto
qed simp

lemma trim_render: "trim (render_patch hs) = render_patch hs"
proof (rule trim_id)
  have ls: "patch_lines hs \<noteq> []" "hd (patch_lines hs) = BEGIN_PATCH_MARKER"
    "last (patch_lines hs) = END_PATCH_MARKER" by (simp_all add: patch_lines_def)
  show "render_patch hs \<noteq> []"
    by (simp add: render_patch_def patch_lines_def join_with_Cons lit_marker_codes)
  show "\<not> is_whitespace (hd (render_patch hs))" "\<not> is_whitespace (last (render_patch hs))"
    using ls by (simp_all add: render_patch_def hd_join_with last_join_with lit_marker_codes)
qed

lemma preamble_render:
  "list_all hunk_ok hs \<Longrightarrow>
   parse_environment_id_preamble (concat (map render_hunk hs)) = Inr (None, concat (map render_hunk hs), 2)"
proof (cases hs)
  case (Cons h hs')
  assume ok: "list_all hunk_ok hs"
  have "strip_prefix ENVIRONMENT_ID_MARKER (hunk_header h) = None"
    by (cases h) (simp_all add: lit_marker_codes)
  with Cons ok header_simps(3) [of h] show ?thesis
    by (simp add: parse_environment_id_preamble_def render_hunk_def)
qed (simp add: parse_environment_id_preamble_def)

end
