(* ===== verification/Patch_Roundtrip.thy ===== *)
theory Patch_Roundtrip
  imports Patch_Render
begin

text \<open>
  The streaming parser on printed patches, and the agreement of the two parsers there.
\<close>

section \<open>Feeding whole lines\<close>

fun run_lines :: "StreamingPatchParser \<Rightarrow> str list \<Rightarrow> StreamingPatchParser \<times> (ParseError + unit)" where
  "run_lines p [] = (p, Inr ())"
| "run_lines p (l # ls) =
     (case process_line (p\<lparr>line_number := line_number p + 1\<rparr>) l of
        (p', Inl e) \<Rightarrow> (p', Inl e)
      | (p', Inr _) \<Rightarrow> run_lines p' ls)"

lemma run_lines_append:
  "run_lines p xs = (p', Inr ()) \<Longrightarrow> run_lines p (xs @ ys) = run_lines p' ys"
  by (induction p xs rule: run_lines.induct) (auto split: prod.splits sum.splits)

lemma push_chars_line:
  "nl \<notin> set l \<Longrightarrow>
   push_chars p (l @ nl # rest) =
     (case process_line (p\<lparr>line_buffer := [], line_number := line_number p + 1\<rparr>)
             (strip_cr (line_buffer p @ l)) of
        (p', Inl e) \<Rightarrow> (p', Inl e)
      | (p', Inr _) \<Rightarrow> push_chars p' rest)"
  by (induction l arbitrary: p) simp_all

lemma push_chars_no_nl: "nl \<notin> set l \<Longrightarrow> push_chars p l = (p\<lparr>line_buffer := line_buffer p @ l\<rparr>, Inr ())"
  by (induction l arbitrary: p) simp_all

lemma handle_headers_buffer:
  "handle_hunk_headers_and_end_patch p l = Inr (p', b) \<Longrightarrow> line_buffer p' = line_buffer p"
  by (auto simp: handle_hunk_headers_and_end_patch_def result_simps push_hunk_def
           split: if_splits option.splits)

lemma process_line_buffer: "line_buffer (fst (process_line p l)) = line_buffer p"
  by (auto simp: process_line_def Let_def dest: handle_headers_buffer
           split: StreamingParserMode.splits sum.splits bool.splits option.splits Hunk.splits)

lemma push_chars_lines:
  assumes "list_all line_ok ls" and "line_buffer p = []"
  shows "push_chars p (concat (map (\<lambda>l. l @ [nl]) ls) @ rest) =
     (case run_lines p ls of (p', Inl e) \<Rightarrow> (p', Inl e) | (p', Inr _) \<Rightarrow> push_chars p' rest)"
  using assms
proof (induction ls arbitrary: p)
  case (Cons l ls)
  then have l: "nl \<notin> set l" "strip_cr l = l" by (auto simp: line_ok_def intro: strip_cr_id)
  let ?q = "p\<lparr>line_number := line_number p + 1\<rparr>"
  have q: "p\<lparr>line_buffer := [], line_number := line_number p + 1\<rparr> = ?q"
    using Cons.prems(2) by (cases p) simp
  have step: "push_chars p (l @ nl # X) =
      (case process_line ?q l of (p', Inl e) \<Rightarrow> (p', Inl e) | (p', Inr _) \<Rightarrow> push_chars p' X)" for X
    using push_chars_line [OF l(1), of p X] l(2) Cons.prems(2) by (simp only: q append_Nil)
  show ?case
  proof (cases "process_line ?q l")
    case (Pair p' r)
    with process_line_buffer [of ?q l] Cons.prems(2) have "line_buffer p' = []" by simp
    with Cons Pair step show ?thesis by (cases r) simp_all
  qed
qed simp

lemma join_with_butlast:
  "ls \<noteq> [] \<Longrightarrow> join_with [c] ls = concat (map (\<lambda>l. l @ [c]) (butlast ls)) @ last ls"
proof (induction ls)
  case (Cons l ls)
  then show ?case by (cases ls) simp_all
qed simp

section \<open>One hunk\<close>

definition at :: "nat \<Rightarrow> StreamingParserMode \<Rightarrow> Hunk list \<Rightarrow> StreamingPatchParser" where
  "at n m hs = \<lparr>line_buffer = [], mode = m, parsed = hs, line_number = n\<rparr>"

lemma at_simps [simp]:
  "line_buffer (at n m hs) = []" "mode (at n m hs) = m" "parsed (at n m hs) = hs"
  "line_number (at n m hs) = n"
  "(at n m hs)\<lparr>line_number := k\<rparr> = at k m hs"
  "(at n m hs)\<lparr>parsed := hs'\<rparr> = at n m hs'"
  "(at n m hs)\<lparr>mode := m'\<rparr> = at n m' hs"
  "(at n m hs)\<lparr>line_buffer := []\<rparr> = at n m hs"
  by (simp_all add: at_def)

definition takes_header :: "StreamingParserMode \<Rightarrow> bool" where
  "takes_header m \<longleftrightarrow> m \<noteq> NotStarted \<and> m \<noteq> EndedPatch"

fun opened :: "nat \<Rightarrow> Hunk \<Rightarrow> StreamingParserMode \<times> Hunk" where
  "opened n (AddFile p _) = (AddFileMode, AddFile p [])"
| "opened n (DeleteFile p) = (DeleteFileMode, DeleteFile p)"
| "opened n (UpdateFile p _ _) = (UpdateFileMode n, UpdateFile p None [])"

lemma ensure_ok: "list_all complete_hunk (parsed p) \<Longrightarrow> ensure_update_hunk_is_not_empty p l = Inr ()"
  by (cases "parsed p" rule: rev_cases)
     (auto simp: ensure_update_hunk_is_not_empty_def last_has_no_lines_def last_opt_def list_all_iff
           split: Hunk.splits list.splits)

lemma handle_header:
  assumes "hunk_ok h" and "list_all complete_hunk hs" and "opened n h = (m', h')"
  shows "handle_hunk_headers_and_end_patch (at n m hs) (hunk_header h) = Inr (at n m' (hs @ [h']), True)"
  using assms ensure_ok [of "at n m hs"]
  by (cases h) (auto simp: handle_hunk_headers_and_end_patch_def lit_marker_codes push_hunk_def)

lemma header_step:
  assumes "hunk_ok h" and "list_all complete_hunk hs" and "takes_header m" and "opened n h = (m', h')"
  shows "process_line (at n m hs) (hunk_header h) = (at n m' (hs @ [h']), Inr ())"
proof -
  have "\<not> is_environment_id_preamble_line (hunk_header h)"
    by (cases h) (simp_all add: is_environment_id_preamble_line_def starts_with_def lit_marker_codes)
  with handle_header [OF assms(1,2,4), of m] header_simps [OF assms(1)] assms(3) show ?thesis
    by (cases m) (simp_all add: process_line_def takes_header_def)
qed

lemma not_header:
  "s = [] \<or> hd s \<noteq> star_sign \<Longrightarrow> handle_hunk_headers_and_end_patch p s = Inr (p, False)"
  by (cases s) (auto simp: handle_hunk_headers_and_end_patch_def lit_marker_codes)

lemma trim_end_cons: "\<not> is_whitespace c \<Longrightarrow> trim_end (c # s) = c # trim_end s"
  by (simp add: trim_end_Cons)

lemma trim_cons: "\<not> is_whitespace c \<Longrightarrow> trim (c # s) = c # trim_end s"
  by (simp add: trim_def trim_start_Cons trim_end_Cons)

lemma add_body:
  "run_lines (at n AddFileMode (hs @ [AddFile p c])) (map (\<lambda>l. plus_sign # l) ls)
   = (at (n + length ls) AddFileMode (hs @ [AddFile p (c @ concat (map (\<lambda>l. l @ [nl]) ls))]), Inr ())"
  by (induction ls arbitrary: n c) (simp_all add: process_line_def not_header trim_cons)

lemma update_step:
  assumes "handle_hunk_headers_and_end_patch (at (n + 1) (UpdateFileMode k) (hs @ [UpdateFile p mv cs])) (trim_end l)
             = Inr (at (n + 1) (UpdateFileMode k) (hs @ [UpdateFile p mv cs]), False)"
    and "update_file_line (n + 1) mv cs l = Some (Inr (mv', cs'))"
  shows "run_lines (at n (UpdateFileMode k) (hs @ [UpdateFile p mv cs])) (l # ls)
         = run_lines (at (n + 1) (UpdateFileMode k) (hs @ [UpdateFile p mv' cs'])) ls"
  using assms by (simp add: process_line_def)

lemma update_file_line_old:
  "update_file_line n mv (cs @ [c]) (minus_sign # l) = Some (Inr (mv, cs @ [push_old l c]))"
  by (simp add: update_file_line_def Let_def trim_end_cons lit_marker_codes starts_with_def
                with_last_chunk_def)

lemma update_file_line_new:
  "update_file_line n mv (cs @ [c]) (plus_sign # l) = Some (Inr (mv, cs @ [push_new l c]))"
  by (simp add: update_file_line_def Let_def trim_end_cons lit_marker_codes starts_with_def
                with_last_chunk_def)

lemma run_old:
  "run_lines (at n (UpdateFileMode k) (hs @ [UpdateFile p mv (cs @ [c])])) (map (\<lambda>l. minus_sign # l) ls)
   = (at (n + length ls) (UpdateFileMode k)
        (hs @ [UpdateFile p mv (cs @ [c\<lparr>old_lines := old_lines c @ ls\<rparr>])]), Inr ())"
proof (induction ls arbitrary: n c)
  case (Cons l ls)
  have "run_lines (at n (UpdateFileMode k) (hs @ [UpdateFile p mv (cs @ [c])])) ((minus_sign # l) # map (\<lambda>l. minus_sign # l) ls)
        = run_lines (at (n + 1) (UpdateFileMode k) (hs @ [UpdateFile p mv (cs @ [push_old l c])])) (map (\<lambda>l. minus_sign # l) ls)"
    by (rule update_step) (simp_all add: not_header trim_end_cons update_file_line_old)
  with Cons.IH [of "n + 1" "push_old l c"] show ?case by (simp add: push_old_def)
qed simp

lemma run_new:
  "run_lines (at n (UpdateFileMode k) (hs @ [UpdateFile p mv (cs @ [c])])) (map (\<lambda>l. plus_sign # l) ls)
   = (at (n + length ls) (UpdateFileMode k)
        (hs @ [UpdateFile p mv (cs @ [c\<lparr>new_lines := new_lines c @ ls\<rparr>])]), Inr ())"
proof (induction ls arbitrary: n c)
  case (Cons l ls)
  have "run_lines (at n (UpdateFileMode k) (hs @ [UpdateFile p mv (cs @ [c])])) ((plus_sign # l) # map (\<lambda>l. plus_sign # l) ls)
        = run_lines (at (n + 1) (UpdateFileMode k) (hs @ [UpdateFile p mv (cs @ [push_new l c])])) (map (\<lambda>l. plus_sign # l) ls)"
    by (rule update_step) (simp_all add: not_header trim_end_cons update_file_line_new)
  with Cons.IH [of "n + 1" "push_new l c"] show ?case by (simp add: push_new_def)
qed simp

lemma run_context:
  assumes "chunk_ok c" and "list_all (\<lambda>c. \<not> no_lines c) cs"
  shows "run_lines (at n (UpdateFileMode k) (hs @ [UpdateFile p mv cs])) [hd (render_chunk c)]
         = (at (n + 1) (UpdateFileMode k) (hs @ [UpdateFile p mv (cs @ [empty_chunk (change_context c)])]), Inr ())"
proof -
  let ?l = "hd (render_chunk c)"
  have id: "trim_end ?l = ?l"
    using assms(1) by (intro trim_end_last)
      (auto simp: render_chunk.simps lit_marker_codes chunk_ok_def name_ok_def split: option.splits)
  have no: "\<not> last_has_no_lines cs"
    using assms(2) by (cases cs rule: rev_cases) (auto simp: last_has_no_lines_def)
  have "update_file_line (n + 1) mv cs ?l = Some (Inr (mv, cs @ [empty_chunk (change_context c)]))"
    unfolding update_file_line_def Let_def id using no assms(1)
    by (cases "change_context c")
       (auto simp: render_chunk.simps lit_marker_codes starts_with_def chunk_ok_def name_ok_def)
  moreover have "handle_hunk_headers_and_end_patch q (trim_end ?l) = Inr (q, False)" for q
    unfolding id by (rule not_header) (auto simp: render_chunk.simps lit_marker_codes split: option.splits)
  ultimately show ?thesis
    using update_step [of n k hs p mv cs ?l mv "cs @ [empty_chunk (change_context c)]" "[]"] by simp
qed

lemma run_eof:
  assumes "\<not> no_lines c"
  shows "run_lines (at n (UpdateFileMode k) (hs @ [UpdateFile p mv (cs @ [c])])) [EOF_MARKER]
         = (at (n + 1) (UpdateFileMode k) (hs @ [UpdateFile p mv (cs @ [c\<lparr>is_end_of_file := True\<rparr>])]), Inr ())"
proof -
  have id: "trim_end EOF_MARKER = EOF_MARKER"
    by (intro trim_end_last) (simp_all add: lit_marker_codes)
  have "update_file_line (n + 1) mv (cs @ [c]) EOF_MARKER = Some (Inr (mv, cs @ [c\<lparr>is_end_of_file := True\<rparr>]))"
    unfolding update_file_line_def Let_def id using assms
    by (simp add: lit_marker_codes starts_with_def last_has_no_lines_def)
  moreover have "handle_hunk_headers_and_end_patch q (trim_end EOF_MARKER) = Inr (q, False)" for q
    unfolding id by (simp add: handle_hunk_headers_and_end_patch_def lit_marker_codes)
  ultimately show ?thesis
    using update_step [of n k hs p mv "cs @ [c]" EOF_MARKER mv "cs @ [c\<lparr>is_end_of_file := True\<rparr>]" "[]"] by simp
qed

lemma run_chunk:
  assumes "chunk_ok c" and "list_all (\<lambda>c. \<not> no_lines c) cs"
  shows "run_lines (at n (UpdateFileMode k) (hs @ [UpdateFile p mv cs])) (render_chunk c)
         = (at (n + length (render_chunk c)) (UpdateFileMode k) (hs @ [UpdateFile p mv (cs @ [c])]), Inr ())"
proof -
  let ?c = "(empty_chunk (change_context c))\<lparr>old_lines := old_lines c, new_lines := new_lines c\<rparr>"
  have ne: "\<not> no_lines ?c" using assms(1) by (simp add: chunk_ok_def no_lines_def)
  have c: "c = (if is_end_of_file c then ?c\<lparr>is_end_of_file := True\<rparr> else ?c)"
    by (simp add: empty_chunk_def)
  have split: "render_chunk c = [hd (render_chunk c)] @ map (\<lambda>l. minus_sign # l) (old_lines c)
      @ map (\<lambda>l. plus_sign # l) (new_lines c) @ (if is_end_of_file c then [EOF_MARKER] else [])"
    by (simp add: render_chunk.simps)
  have ctx: "run_lines (at n (UpdateFileMode k) (hs @ [UpdateFile p mv cs])) (hd (render_chunk c) # ys)
      = run_lines (at (n + 1) (UpdateFileMode k)
          (hs @ [UpdateFile p mv (cs @ [empty_chunk (change_context c)])])) ys" for ys
    using run_lines_append [OF run_context [OF assms], of n k hs p mv ys] by (simp only: append_Cons append_Nil)
  have "run_lines (at n (UpdateFileMode k) (hs @ [UpdateFile p mv cs])) (render_chunk c)
        = run_lines (at (n + 1 + length (old_lines c) + length (new_lines c)) (UpdateFileMode k)
            (hs @ [UpdateFile p mv (cs @ [?c])])) (if is_end_of_file c then [EOF_MARKER] else [])"
    by (subst split)
       (simp add: ctx run_lines_append [OF run_old] run_lines_append [OF run_new] empty_chunk_def
             del: run_lines.simps)
  also have "\<dots> = (at (n + length (render_chunk c)) (UpdateFileMode k) (hs @ [UpdateFile p mv (cs @ [c])]), Inr ())"
  proof (cases "is_end_of_file c")
    case True
    with c run_eof [OF ne] show ?thesis by (simp add: render_chunk.simps)
  next
    case False
    with c show ?thesis by (simp add: render_chunk.simps)
  qed
  finally show ?thesis .
qed

lemma run_chunks:
  assumes "list_all chunk_ok cs'" and "list_all (\<lambda>c. \<not> no_lines c) cs"
  shows "run_lines (at n (UpdateFileMode k) (hs @ [UpdateFile p mv cs])) (concat (map render_chunk cs'))
         = (at (n + length (concat (map render_chunk cs'))) (UpdateFileMode k)
              (hs @ [UpdateFile p mv (cs @ cs')]), Inr ())"
  using assms
proof (induction cs' arbitrary: n cs)
  case (Cons c cs')
  then have c: "chunk_ok c" "list_all (\<lambda>c. \<not> no_lines c) (cs @ [c])" by (simp_all add: chunk_ok_def)
  with Cons.prems Cons.IH [of "cs @ [c]" "n + length (render_chunk c)"] show ?case
    by (simp add: run_lines_append [OF run_chunk] add.assoc del: run_lines.simps)
qed simp

lemma run_move:
  assumes "name_ok m"
  shows "run_lines (at n (UpdateFileMode k) (hs @ [UpdateFile p None []])) [MOVE_TO_MARKER @ m]
         = (at (n + 1) (UpdateFileMode k) (hs @ [UpdateFile p (Some m) []]), Inr ())"
proof -
  let ?l = "MOVE_TO_MARKER @ m"
  have id: "trim_end ?l = ?l" using assms by (intro trim_end_last) (auto simp: name_ok_def)
  have "update_file_line (n + 1) None [] ?l = Some (Inr (Some m, []))"
    unfolding update_file_line_def Let_def id by simp
  moreover have "handle_hunk_headers_and_end_patch q (trim_end ?l) = Inr (q, False)" for q
    unfolding id by (simp add: handle_hunk_headers_and_end_patch_def lit_marker_codes)
  ultimately show ?thesis
    using update_step [of n k hs p None "[]" ?l "Some m" "[]" "[]"] by simp
qed

fun mode_of :: "nat \<Rightarrow> Hunk \<Rightarrow> StreamingParserMode" where
  "mode_of n (AddFile _ _) = AddFileMode"
| "mode_of n (DeleteFile _) = DeleteFileMode"
| "mode_of n (UpdateFile _ _ _) = UpdateFileMode n"

lemma hunk_ok_complete: "hunk_ok h \<Longrightarrow> complete_hunk h"
  by (cases h) (auto simp: chunk_ok_def list_all_iff)

lemma run_hunk:
  assumes "hunk_ok h" and "list_all complete_hunk hs" and "takes_header m"
  shows "run_lines (at n m hs) (render_hunk h)
         = (at (n + length (render_hunk h)) (mode_of (n + 1) h) (hs @ [h]), Inr ())"
proof -
  have header: "run_lines (at n m hs) (render_hunk h)
      = run_lines (at (n + 1) (fst (opened (n + 1) h)) (hs @ [snd (opened (n + 1) h)])) (hunk_body h)"
    using header_step [OF assms, of "n + 1"]
    by (cases "opened (n + 1) h") (simp add: render_hunk_def)
  show ?thesis
  proof (cases h)
    case (AddFile p contents)
    with assms(1) have "concat (map (\<lambda>l. l @ [nl]) (butlast (split_on nl contents))) = contents"
      using concat_split_on [of nl contents] last_split_on_terminated [of contents nl] by simp
    then show ?thesis unfolding header
      using add_body [of "n + 1" hs p "[]" "butlast (split_on nl contents)"]
      by (simp add: AddFile render_hunk_def)
  next
    case (DeleteFile p)
    then show ?thesis unfolding header by (simp add: render_hunk_def)
  next
    case (UpdateFile p mv cs)
    have cs: "list_all chunk_ok cs" using assms(1) UpdateFile by simp
    show ?thesis
    proof (cases mv)
      case None
      then show ?thesis unfolding header
        using run_chunks [OF cs, of "[]" "n + 1" "n + 1" hs p None]
        by (simp add: UpdateFile render_hunk_def del: run_lines.simps)
    next
      case (Some d)
      then have "name_ok d" using assms(1) UpdateFile by simp
      from run_lines_append [OF run_move [OF this], of "n + 1" "n + 1" hs p "concat (map render_chunk cs)"]
        run_chunks [OF cs, of "[]" "n + 2" "n + 1" hs p mv]
      show ?thesis unfolding header
        by (simp add: UpdateFile Some render_hunk_def del: run_lines.simps)
    qed
  qed
qed

lemma run_hunks:
  assumes "list_all hunk_ok hs'" and "list_all complete_hunk hs" and "takes_header m"
  shows "\<exists>n' m'. run_lines (at n m hs) (concat (map render_hunk hs')) = (at n' m' (hs @ hs'), Inr ())
            \<and> takes_header m'"
  using assms
proof (induction hs' arbitrary: n m hs)
  case (Cons h hs')
  let ?m = "mode_of (n + 1) h"
  have h: "takes_header ?m" by (cases h) (simp_all add: takes_header_def)
  have "list_all complete_hunk (hs @ [h])" using Cons.prems by (simp add: hunk_ok_complete)
  from Cons.IH [OF _ this h, of "n + length (render_hunk h)"] Cons.prems show ?case
    by (simp add: run_lines_append [OF run_hunk] del: run_lines.simps)
qed auto

section \<open>The whole patch\<close>

lemma finish_at_end:
  assumes "list_all complete_hunk hs" and "line_buffer p = END_PATCH_MARKER" and "parsed p = hs"
  shows "snd (finish p) = Inr hs"
proof -
  have "trim END_PATCH_MARKER = END_PATCH_MARKER"
    by (rule trim_id) (simp_all add: lit_marker_codes)
  with assms ensure_ok [of "p\<lparr>line_buffer := [], line_number := line_number p + 1\<rparr>"] show ?thesis
    by (simp add: finish_def finish_buffer_def lit_marker_codes)
qed

lemma stream_render:
  assumes "list_all hunk_ok hs"
  shows "\<exists>p. push_delta default_parser (render_patch hs) = (p, Inr hs) \<and> snd (finish p) = Inr hs"
proof -
  let ?body = "concat (map render_hunk hs)"
  have lines: "list_all line_ok (BEGIN_PATCH_MARKER # ?body)"
    using line_ok_patch [OF assms] by (simp add: patch_lines_def)
  have "trim BEGIN_PATCH_MARKER = BEGIN_PATCH_MARKER"
    by (rule trim_id) (simp_all add: lit_marker_codes)
  then have "run_lines default_parser (BEGIN_PATCH_MARKER # ?body) = run_lines (at 1 StartedPatch []) ?body"
    by (simp add: process_line_def default_parser_def at_def)
  moreover obtain n m where
    "run_lines (at 1 StartedPatch []) ?body = (at n m hs, Inr ())"
    using run_hunks [OF assms, of "[]" StartedPatch 1] by (auto simp: takes_header_def)
  moreover have "render_patch hs = concat (map (\<lambda>l. l @ [nl]) (BEGIN_PATCH_MARKER # ?body)) @ END_PATCH_MARKER"
    by (simp add: render_patch_def join_with_butlast patch_lines_def butlast_append)
  ultimately have "push_chars default_parser (render_patch hs) = push_chars (at n m hs) END_PATCH_MARKER"
    using push_chars_lines [OF lines, of default_parser END_PATCH_MARKER]
    by (simp add: default_parser_def del: run_lines.simps)
  also have "\<dots> = ((at n m hs)\<lparr>line_buffer := END_PATCH_MARKER\<rparr>, Inr ())"
    by (subst push_chars_no_nl) (simp_all add: lit_marker_codes)
  finally have "push_delta default_parser (render_patch hs)
      = ((at n m hs)\<lparr>line_buffer := END_PATCH_MARKER\<rparr>, Inr hs)"
    by (simp add: push_delta_def at_def)
  moreover have "list_all complete_hunk hs" using assms by (auto simp: list_all_iff hunk_ok_complete)
  ultimately show ?thesis using finish_at_end [of hs "(at n m hs)\<lparr>line_buffer := END_PATCH_MARKER\<rparr>"]
    by (simp add: at_def)
qed

lemma batch_render:
  assumes "list_all hunk_ok hs"
  shows "parse_patch (render_patch hs)
         = Inr \<lparr>patch = render_patch hs, hunks = hs, workdir = None, environment_id = None\<rparr>"
proof -
  have lines: "str_lines (trim (render_patch hs)) = patch_lines hs"
    unfolding trim_render unfolding render_patch_def using line_ok_patch [OF assms]
    by (intro str_lines_join) (simp_all add: patch_lines_def lit_marker_codes)
  have "trim BEGIN_PATCH_MARKER = BEGIN_PATCH_MARKER" "trim END_PATCH_MARKER = END_PATCH_MARKER"
    by (rule trim_id; simp add: lit_marker_codes)+
  then have "check_patch_boundaries_lenient (patch_lines hs) = Inr (patch_lines hs, concat (map render_hunk hs))"
    by (simp add: check_patch_boundaries_lenient_def check_patch_boundaries_strict_def
                  check_start_and_end_lines_strict_def patch_lines_def)
  with lines preamble_render [OF assms] hunks_loop_render [OF assms, of "[]" 2] show ?thesis
    by (simp add: parse_patch_def parse_patch_text_def PARSE_IN_STRICT_MODE_def render_patch_def)
qed

end
