(* ===== verification/Seek_Sequence.thy ===== *)
theory Seek_Sequence
  imports Prelude
begin

text \<open>
  The line matcher of the patch engine (\<^verbatim>\<open>apply-patch/src/seek_sequence.rs\<close>): it looks for a block
  of lines in a file with four passes of decreasing strictness. Each pass compares lines up to a
  normalisation; the locale \<open>line_pass\<close> states what the passes share and is interpreted once per
  normalisation the code uses.
\<close>

section \<open>Definitions\<close>

definition normalise_char :: "nat \<Rightarrow> nat" where
  "normalise_char c =
     (if c \<in> {0x2010, 0x2011, 0x2012, 0x2013, 0x2014, 0x2015, 0x2212} then minus_sign
      else if c \<in> {0x2018, 0x2019, 0x201A, 0x201B} then squote
      else if c \<in> {0x201C, 0x201D, 0x201E, 0x201F} then dquote
      else if c \<in> {0x00A0, 0x2002, 0x2003, 0x2004, 0x2005, 0x2006, 0x2007, 0x2008, 0x2009,
                   0x200A, 0x202F, 0x205F, 0x3000} then sp
      else c)"

definition normalise :: "str \<Rightarrow> str" where
  "normalise s = map normalise_char (trim s)"

text \<open>The inner loop of one pass at index \<open>i\<close> (the flag \<open>ok\<close>), and the outer loop over the
  candidate indices. The first pass compares slices, the others line by line.\<close>

definition lines_ok :: "(str \<Rightarrow> str) \<Rightarrow> str list \<Rightarrow> str list \<Rightarrow> nat \<Rightarrow> bool" where
  "lines_ok norm flines pattern i \<longleftrightarrow>
     list_all (\<lambda>(p_idx, pat). norm (flines ! (i + p_idx)) = norm pat) (List.enumerate 0 pattern)"

definition slice_ok :: "str list \<Rightarrow> str list \<Rightarrow> nat \<Rightarrow> bool" where
  "slice_ok flines pattern i \<longleftrightarrow> take (length pattern) (drop i flines) = pattern"

definition candidates :: "str list \<Rightarrow> str list \<Rightarrow> nat \<Rightarrow> nat list" where
  "candidates flines pattern search_start = [search_start ..< Suc (length flines - length pattern)]"

definition seek_sequence :: "str list \<Rightarrow> str list \<Rightarrow> nat \<Rightarrow> bool \<Rightarrow> nat option" where
  "seek_sequence flines pattern start eof =
     (if pattern = [] then Some start
      else if length pattern > length flines then None
      else
        let search_start =
              (if eof \<and> length flines \<ge> length pattern then length flines - length pattern else start);
            is = candidates flines pattern search_start
        in case List.find (slice_ok flines pattern) is of Some i \<Rightarrow> Some i | None \<Rightarrow>
           (case List.find (lines_ok trim_end flines pattern) is of Some i \<Rightarrow> Some i | None \<Rightarrow>
           (case List.find (lines_ok trim flines pattern) is of Some i \<Rightarrow> Some i | None \<Rightarrow>
            List.find (lines_ok normalise flines pattern) is)))"

section \<open>One pass\<close>

lemma lines_ok_iff_map:
  assumes "i + length pattern \<le> length flines"
  shows "lines_ok norm flines pattern i
         \<longleftrightarrow> map norm (take (length pattern) (drop i flines)) = map norm pattern"
proof -
  have "lines_ok norm flines pattern i
        \<longleftrightarrow> (\<forall>j < length pattern. norm (flines ! (i + j)) = norm (pattern ! j))"
    by (auto simp: lines_ok_def list_all_iff in_set_enumerate_eq)
  also have "\<dots> \<longleftrightarrow> map norm (take (length pattern) (drop i flines)) = map norm pattern"
    using assms by (auto simp: list_eq_iff_nth_eq)
  finally show ?thesis .
qed

lemma lines_ok_id_iff_slice:
  "i + length pattern \<le> length flines \<Longrightarrow> lines_ok (\<lambda>s. s) flines pattern i \<longleftrightarrow> slice_ok flines pattern i"
  by (simp add: lines_ok_iff_map slice_ok_def)

lemma in_candidates_iff:
  "length pattern \<le> length flines \<Longrightarrow>
   i \<in> set (candidates flines pattern s) \<longleftrightarrow> s \<le> i \<and> i + length pattern \<le> length flines"
  by (auto simp: candidates_def)

lemma find_upt_Some_iff:
  "List.find P [a ..< b] = Some i \<longleftrightarrow> a \<le> i \<and> i < b \<and> P i \<and> (\<forall>j. a \<le> j \<and> j < i \<longrightarrow> \<not> P j)"
proof -
  have "List.find P [a ..< b] = Some i \<longleftrightarrow>
        (\<exists>k < b - a. P (a + k) \<and> i = a + k \<and> (\<forall>j < k. \<not> P (a + j)))"
    by (auto simp: find_Some_iff)
  also have "\<dots> \<longleftrightarrow> a \<le> i \<and> i < b \<and> P i \<and> (\<forall>j. a \<le> j \<and> j < i \<longrightarrow> \<not> P j)"
    by (auto simp: less_diff_conv2 le_iff_add intro!: exI [of _ "i - a"])
  finally show ?thesis .
qed

text \<open>What the passes have in common. A pass is given by the normalisation it compares lines
  under; the law says it is no stricter than equality after a further one.\<close>

locale line_pass =
  fixes norm :: "str \<Rightarrow> str" and coarse :: "str \<Rightarrow> str"
  assumes coarser: "norm s = norm t \<Longrightarrow> coarse s = coarse t"
begin

lemma lines_ok_coarser:
  "i + length pattern \<le> length flines \<Longrightarrow> lines_ok norm flines pattern i
   \<Longrightarrow> lines_ok coarse flines pattern i"
  by (auto simp: lines_ok_def list_all_iff intro: coarser)

lemma pass_fails_if_coarse_fails:
  assumes "length pattern \<le> length flines"
    and "List.find (lines_ok coarse flines pattern) (candidates flines pattern s) = None"
  shows "List.find (lines_ok norm flines pattern) (candidates flines pattern s) = None"
  using assms lines_ok_coarser by (auto simp: find_None_iff in_candidates_iff)

end

interpretation exact_pass: line_pass "\<lambda>s. s" normalise
  by unfold_locales simp

interpretation trim_end_pass: line_pass trim_end normalise
  by unfold_locales (metis normalise_def trim_cong_trim_end)

interpretation trim_pass: line_pass trim normalise
  by unfold_locales (simp add: normalise_def)

end
