(* ===== verification/Patch_Replace.thy ===== *)
theory Patch_Replace
  imports Seek_Sequence Patch_Parser
begin

text \<open>
  From chunks to new file contents (\<^verbatim>\<open>apply-patch/src/lib.rs\<close>: \<^verbatim>\<open>compute_replacements\<close>,
  \<^verbatim>\<open>apply_replacements\<close> and the text part of \<^verbatim>\<open>derive_new_contents_from_chunks\<close>).
  \<^verbatim>\<open>Vec::insert\<close> panics past the end of the vector, so \<open>apply_replacements\<close> returns an option in
  which \<open>None\<close> is the panic; it is shown never to happen.
\<close>

section \<open>Errors\<close>

record IoError =
  context_msg :: str
  source :: io_error

datatype ApplyPatchError =
    ParseErr ParseError
  | IoErr IoError
  | ComputeReplacements str
  | ImplicitInvocation

section \<open>Computing the replacements\<close>

type_synonym replacement = "nat \<times> nat \<times> str list"

definition last_is_empty :: "str list \<Rightarrow> bool" where
  "last_is_empty ls \<longleftrightarrow> ls \<noteq> [] \<and> last ls = []"

definition drop_last_empty :: "str list \<Rightarrow> str list" where
  "drop_last_empty ls = (if last_is_empty ls then butlast ls else ls)"

definition seek_context ::
  "str list \<Rightarrow> path \<Rightarrow> nat \<Rightarrow> str option \<Rightarrow> ApplyPatchError + nat" where
  "seek_context flines pth line_index ctx =
     (case ctx of
        None \<Rightarrow> Inr line_index
      | Some ctx_line \<Rightarrow>
          (case seek_sequence flines [ctx_line] line_index False of
             Some idx \<Rightarrow> Inr (idx + 1)
           | None \<Rightarrow> Inl (ComputeReplacements
                 (lit ''Failed to find context '' @ quoted ctx_line @ lit '' in '' @ pth))))"

text \<open>The part of the loop body that locates the old lines: the pattern, the replacement slice and
  the index found.\<close>

definition locate_old_lines ::
  "str list \<Rightarrow> nat \<Rightarrow> UpdateFileChunk \<Rightarrow> str list \<times> str list \<times> nat option" where
  "locate_old_lines flines line_index chunk =
     (let found = seek_sequence flines (old_lines chunk) line_index (is_end_of_file chunk)
      in if found = None \<and> last_is_empty (old_lines chunk) then
           let pattern = butlast (old_lines chunk)
           in (pattern, drop_last_empty (new_lines chunk),
               seek_sequence flines pattern line_index (is_end_of_file chunk))
         else (old_lines chunk, new_lines chunk, found))"

definition chunk_replacement ::
  "str list \<Rightarrow> path \<Rightarrow> nat \<Rightarrow> UpdateFileChunk \<Rightarrow> ApplyPatchError + replacement \<times> nat" where
  "chunk_replacement flines pth line_index chunk =
     bind_result (seek_context flines pth line_index (change_context chunk))
       (\<lambda>line_index'.
          if old_lines chunk = [] then
            let insertion_idx = (if last_is_empty flines then length flines - 1 else length flines)
            in Inr ((insertion_idx, 0, new_lines chunk), line_index')
          else case locate_old_lines flines line_index' chunk of
              (pattern, new_slice, Some start_idx) \<Rightarrow>
                Inr ((start_idx, length pattern, new_slice), start_idx + length pattern)
            | (_, _, None) \<Rightarrow> Inl (ComputeReplacements
                (lit ''Failed to find expected lines in '' @ pth @ lit '':'' @ [nl]
                 @ join_with [nl] (old_lines chunk))))"

fun replacements_loop ::
  "str list \<Rightarrow> path \<Rightarrow> nat \<Rightarrow> replacement list \<Rightarrow> UpdateFileChunk list
   \<Rightarrow> ApplyPatchError + replacement list" where
  "replacements_loop flines pth line_index acc [] = Inr acc"
| "replacements_loop flines pth line_index acc (chunk # chunks) =
     (case chunk_replacement flines pth line_index chunk of
        Inl e \<Rightarrow> Inl e
      | Inr (r, line_index') \<Rightarrow> replacements_loop flines pth line_index' (acc @ [r]) chunks)"

definition compute_replacements ::
  "str list \<Rightarrow> path \<Rightarrow> UpdateFileChunk list \<Rightarrow> ApplyPatchError + replacement list" where
  "compute_replacements flines pth chunks =
     bind_result (replacements_loop flines pth 0 [] chunks) (\<lambda>rs. Inr (sort_key fst rs))"

section \<open>Applying the replacements\<close>

fun remove_lines :: "nat \<Rightarrow> nat \<Rightarrow> 'a list \<Rightarrow> 'a list" where
  "remove_lines 0 start_idx ls = ls"
| "remove_lines (Suc n) start_idx ls =
     remove_lines n start_idx
       (if start_idx < length ls then take start_idx ls @ drop (Suc start_idx) ls else ls)"

definition vec_insert :: "nat \<Rightarrow> 'a \<Rightarrow> 'a list \<Rightarrow> 'a list option" where
  "vec_insert i x ls = (if i \<le> length ls then Some (take i ls @ x # drop i ls) else None)"

fun insert_lines :: "nat \<Rightarrow> nat \<Rightarrow> 'a list \<Rightarrow> 'a list \<Rightarrow> 'a list option" where
  "insert_lines start_idx offset [] ls = Some ls"
| "insert_lines start_idx offset (x # xs) ls =
     Option.bind (vec_insert (start_idx + offset) x ls) (insert_lines start_idx (Suc offset) xs)"

definition apply_replacement :: "nat \<times> nat \<times> 'a list \<Rightarrow> 'a list \<Rightarrow> 'a list option" where
  "apply_replacement r ls =
     (case r of (start_idx, old_len, new_segment) \<Rightarrow>
        insert_lines start_idx 0 new_segment (remove_lines old_len start_idx ls))"

fun apply_in_turn :: "(nat \<times> nat \<times> 'a list) list \<Rightarrow> 'a list \<Rightarrow> 'a list option" where
  "apply_in_turn [] ls = Some ls"
| "apply_in_turn (r # rs) ls = Option.bind (apply_replacement r ls) (apply_in_turn rs)"

definition apply_replacements :: "'a list \<Rightarrow> (nat \<times> nat \<times> 'a list) list \<Rightarrow> 'a list option" where
  "apply_replacements ls rs = apply_in_turn (rev rs) ls"

section \<open>New contents\<close>

definition file_lines :: "str \<Rightarrow> str list" where
  "file_lines contents =
     (let ls = split_on nl contents in if last_is_empty ls then butlast ls else ls)"

definition unlines :: "str list \<Rightarrow> str" where
  "unlines ls = join_with [nl] (if last_is_empty ls then ls else ls @ [[]])"

text \<open>The outer option is the panic of the line surgery.\<close>

definition derive_new_text :: "path \<Rightarrow> str \<Rightarrow> UpdateFileChunk list \<Rightarrow> (ApplyPatchError + str) option" where
  "derive_new_text pth contents chunks =
     (let ls = file_lines contents
      in case compute_replacements ls pth chunks of
           Inl e \<Rightarrow> Some (Inl e)
         | Inr rs \<Rightarrow> map_option (Inr \<circ> unlines) (apply_replacements ls rs))"

section \<open>Line surgery\<close>

lemma remove_lines_eq [simp]: "remove_lines n i ls = take i ls @ drop (i + n) ls"
proof (induction n arbitrary: ls)
  case (Suc n)
  show ?case
  proof (cases "i < length ls")
    case True
    then have "remove_lines (Suc n) i ls = take i (take i ls @ drop (Suc i) ls)
        @ drop (i + n) (take i ls @ drop (Suc i) ls)"
      using Suc.IH by simp
    with True show ?thesis by (simp add: min_def add.commute)
  next
    case False
    with Suc.IH show ?thesis by simp
  qed
qed simp

lemma insert_lines_eq:
  "i + k \<le> length ls \<Longrightarrow> insert_lines i k xs ls = Some (take (i + k) ls @ xs @ drop (i + k) ls)"
proof (induction i k xs ls rule: insert_lines.induct)
  case (2 i k x xs ls)
  then have "insert_lines i (Suc k) xs (take (i + k) ls @ x # drop (i + k) ls)
             = Some (take (i + k) ls @ x # xs @ drop (i + k) ls)"
    using "2.IH" [of "take (i + k) ls @ x # drop (i + k) ls"] by (simp add: min_def vec_insert_def)
  with 2 show ?case by (simp add: vec_insert_def)
qed simp

lemma apply_replacement_eq:
  "s \<le> length ls \<Longrightarrow>
   apply_replacement (s, n, new) ls = Some (take s ls @ new @ drop (s + n) ls)"
  by (simp add: apply_replacement_def insert_lines_eq min_def)

text \<open>Applied from the back, replacements whose start lies within the file never panic, whatever
  their extents.\<close>

lemma apply_in_turn_Some:
  assumes "sorted_wrt (\<ge>) (map fst rs)" and "\<forall>r \<in> set rs. fst r \<le> length ls"
  shows "\<exists>out. apply_in_turn rs ls = Some out"
  using assms
proof (induction rs arbitrary: ls)
  case (Cons r rs)
  obtain s n new where r: "r = (s, n, new)" by (cases r)
  let ?ls = "take s ls @ new @ drop (s + n) ls"
  from Cons.prems r have s: "s \<le> length ls" by simp
  then have "\<forall>r' \<in> set rs. fst r' \<le> length ?ls"
    using Cons.prems(1) r by fastforce
  with Cons.prems(1) obtain out where "apply_in_turn rs ?ls = Some out"
    using Cons.IH [of ?ls] by auto
  with s r show ?case by (simp add: apply_replacement_eq)
qed simp

lemma apply_replacements_Some:
  "sorted (map fst rs) \<Longrightarrow> \<forall>r \<in> set rs. fst r \<le> length ls \<Longrightarrow> \<exists>out. apply_replacements ls rs = Some out"
  unfolding apply_replacements_def
  by (rule apply_in_turn_Some) (simp_all add: rev_map [symmetric] sorted_wrt_rev)

text \<open>The specification of non-overlapping replacements: one pass from the front.\<close>

fun splice :: "nat \<Rightarrow> 'a list \<Rightarrow> (nat \<times> nat \<times> 'a list) list \<Rightarrow> 'a list" where
  "splice pos ls [] = drop pos ls"
| "splice pos ls ((s, n, new) # rs) = drop pos (take s ls) @ new @ splice (s + n) ls rs"

fun disjoint_from :: "nat \<Rightarrow> (nat \<times> nat \<times> 'a list) list \<Rightarrow> nat \<Rightarrow> bool" where
  "disjoint_from pos [] len \<longleftrightarrow> pos \<le> len"
| "disjoint_from pos ((s, n, new) # rs) len \<longleftrightarrow> pos \<le> s \<and> disjoint_from (s + n) rs len"

lemma disjoint_from_le: "disjoint_from pos rs len \<Longrightarrow> pos \<le> len"
  by (induction pos rs len rule: disjoint_from.induct) auto

lemma apply_in_turn_append:
  "apply_in_turn (rs @ qs) ls = Option.bind (apply_in_turn rs ls) (apply_in_turn qs)"
  by (induction rs arbitrary: ls) (simp_all split: Option.bind_splits)

lemma apply_replacements_splice_from:
  "disjoint_from pos rs (length ls) \<Longrightarrow>
   apply_in_turn (rev rs) ls = Some (take pos ls @ splice pos ls rs)"
proof (induction pos rs "length ls" rule: disjoint_from.induct)
  case (2 pos s n new rs)
  then have le: "s + n \<le> length ls" using disjoint_from_le by auto
  from 2 have "apply_in_turn (rev rs) ls = Some (take (s + n) ls @ splice (s + n) ls rs)" by simp
  with le 2 show ?case
    by (simp add: apply_in_turn_append apply_replacement_eq take_drop min_def)
       (metis append_take_drop_id min.absorb1 take_take)
qed simp

lemma apply_replacements_splice:
  "disjoint_from 0 rs (length ls) \<Longrightarrow> apply_replacements ls rs = Some (splice 0 ls rs)"
  unfolding apply_replacements_def using apply_replacements_splice_from [of 0 rs ls] by simp

section \<open>Where the replacements lie\<close>

text \<open>The four passes as one specification: a pattern occurs at an index up to a normalisation.\<close>

definition occurs_at :: "(str \<Rightarrow> str) \<Rightarrow> str list \<Rightarrow> str list \<Rightarrow> nat \<Rightarrow> bool" where
  "occurs_at norm flines pattern i \<longleftrightarrow>
     i + length pattern \<le> length flines
     \<and> map norm (take (length pattern) (drop i flines)) = map norm pattern"

lemma occurs_at_normalise:
  "occurs_at (\<lambda>s. s) flines pattern i \<Longrightarrow> occurs_at normalise flines pattern i"
  "occurs_at trim_end flines pattern i \<Longrightarrow> occurs_at normalise flines pattern i"
  "occurs_at trim flines pattern i \<Longrightarrow> occurs_at normalise flines pattern i"
  unfolding occurs_at_def
  by (auto simp: lines_ok_iff_map [symmetric] simp del: map_ident
           intro: exact_pass.lines_ok_coarser trim_end_pass.lines_ok_coarser
                  trim_pass.lines_ok_coarser)

lemma seek_sequence_cases:
  assumes "seek_sequence flines pattern start eof = Some i" and "pattern \<noteq> []"
  shows "occurs_at normalise flines pattern i
         \<and> (if eof then i = length flines - length pattern else start \<le> i)"
proof -
  define s where "s = (if eof then length flines - length pattern else start)"
  from assms have len: "length pattern \<le> length flines" by (auto simp: seek_sequence_def split: if_splits)
  have found: "occurs_at norm flines pattern i \<and> s \<le> i"
    if "List.find (lines_ok norm flines pattern) (candidates flines pattern s) = Some i" for norm
    using that len
    by (auto simp: candidates_def find_upt_Some_iff occurs_at_def lines_ok_iff_map less_Suc_eq_le
                   le_diff_conv2 simp del: upt_Suc)
  have exact: "occurs_at (\<lambda>s. s) flines pattern i \<and> s \<le> i"
    if "List.find (slice_ok flines pattern) (candidates flines pattern s) = Some i"
    using that len
    by (auto simp: candidates_def find_upt_Some_iff occurs_at_def slice_ok_def less_Suc_eq_le
                   le_diff_conv2 simp del: upt_Suc)
  from assms len have "occurs_at normalise flines pattern i \<and> s \<le> i"
    by (auto simp: seek_sequence_def Let_def s_def [symmetric]
             split: if_splits option.splits dest!: found exact intro: occurs_at_normalise)
  with len show ?thesis by (auto simp: s_def occurs_at_def split: if_splits)
qed

lemma seek_sequence_bounds:
  assumes "seek_sequence flines pattern start eof = Some i" and "start \<le> length flines"
  shows "i + length pattern \<le> length flines"
proof (cases "pattern = []")
  case True
  with assms show ?thesis by (simp add: seek_sequence_def)
next
  case False
  with assms seek_sequence_cases show ?thesis by (fastforce simp: occurs_at_def)
qed

lemma seek_context_bounds:
  "seek_context flines pth li ctx = Inr li' \<Longrightarrow> li \<le> length flines \<Longrightarrow> li \<le> li' \<and> li' \<le> length flines"
  using seek_sequence_cases [of flines "[the ctx]" li False] seek_sequence_bounds [of flines "[the ctx]" li False]
  by (fastforce simp: seek_context_def split: option.splits)

lemma chunk_replacement_bounds:
  assumes "chunk_replacement flines pth li ch = Inr ((s, n, new), li')" and "li \<le> length flines"
  shows "s + n \<le> length flines \<and> li' \<le> length flines"
  using assms
  by (auto simp: chunk_replacement_def result_simps locate_old_lines_def Let_def last_is_empty_def
           split: if_splits option.splits
           dest!: seek_context_bounds seek_sequence_bounds)

lemma replacements_loop_bounds:
  assumes "replacements_loop flines pth li acc chs = Inr rs" and "li \<le> length flines"
    and "\<forall>(s, n, new) \<in> set acc. s + n \<le> length flines"
  shows "\<forall>(s, n, new) \<in> set rs. s + n \<le> length flines"
  using assms
proof (induction flines pth li acc chs rule: replacements_loop.induct)
  case (2 flines pth li acc ch chs)
  then obtain r li' where r: "chunk_replacement flines pth li ch = Inr (r, li')"
    and loop: "replacements_loop flines pth li' (acc @ [r]) chs = Inr rs"
    by (auto split: sum.splits)
  obtain s n new where rr: "r = (s, n, new)" by (cases r)
  with r "2.prems"(2) have "s + n \<le> length flines \<and> li' \<le> length flines"
    by (blast dest: chunk_replacement_bounds)
  with rr "2.prems"(3) show ?case
    by (intro "2.IH" [OF r refl loop]) auto
qed simp

lemma compute_replacements_bounds:
  assumes "compute_replacements flines pth chs = Inr rs"
  shows "sorted (map fst rs)" and "\<forall>(s, n, new) \<in> set rs. s + n \<le> length flines"
  using assms replacements_loop_bounds [of flines pth 0 "[]" chs]
  by (auto simp: compute_replacements_def result_simps)

end
