(* ===== verification/Patch_Edit_Spec.thy ===== *)
theory Patch_Edit_Spec
  imports Patch_Replace
begin

text \<open>
  What an update promises, stated without line numbers, and the proof that the line surgery of
  \<open>Patch_Replace\<close> implements it: the new lines are the old ones with, for every chunk in order, one
  block that matches the chunk's old lines replaced by its new lines, and everything between the
  blocks kept as it was.
\<close>

section \<open>Specification\<close>

text \<open>The pairs (old block, new block) a chunk may stand for: as written, or without the final
  empty line that represents the newline at the end of the file.\<close>

definition chunk_variant :: "UpdateFileChunk \<Rightarrow> str list \<Rightarrow> str list \<Rightarrow> bool" where
  "chunk_variant c pat new \<longleftrightarrow>
     pat = old_lines c \<and> new = new_lines c
     \<or> last_is_empty (old_lines c) \<and> pat = butlast (old_lines c) \<and> new = drop_last_empty (new_lines c)"

definition context_seen :: "UpdateFileChunk \<Rightarrow> str list \<Rightarrow> bool" where
  "context_seen c kept \<longleftrightarrow>
     (case change_context c of
        None \<Rightarrow> True
      | Some ctx \<Rightarrow> \<exists>l \<in> set kept. normalise l = normalise ctx)"

inductive edits :: "str list \<Rightarrow> UpdateFileChunk list \<Rightarrow> str list \<Rightarrow> bool" where
  no_more: "edits rest [] rest"
| edit: "chunk_variant c pat new \<Longrightarrow> map normalise old = map normalise pat \<Longrightarrow> context_seen c kept
         \<Longrightarrow> edits rest cs out \<Longrightarrow> edits (kept @ old @ rest) (c # cs) (kept @ new @ out)"

inductive_cases edits_NilE [elim!]: "edits ls [] out"
inductive_cases edits_ConsE [elim]: "edits ls (c # cs) out"

text \<open>The chunks the specification speaks about: they remove or quote at least one line and are not
  pinned to the end of the file.\<close>

definition plain_chunk :: "UpdateFileChunk \<Rightarrow> bool" where
  "plain_chunk c \<longleftrightarrow> old_lines c \<noteq> [] \<and> \<not> is_end_of_file c"

section \<open>Implementation meets specification\<close>

lemma seek_forward:
  assumes "seek_sequence flines pat li False = Some s" and "li \<le> length flines"
  shows "li \<le> s \<and> s + length pat \<le> length flines
         \<and> map normalise (take (length pat) (drop s flines)) = map normalise pat"
proof (cases "pat = []")
  case True
  with assms show ?thesis by (simp add: seek_sequence_def)
next
  case False
  with assms seek_sequence_cases [OF assms(1)] show ?thesis by (simp add: occurs_at_def)
qed

lemma seek_context_seen:
  assumes "seek_context flines pth li (change_context c) = Inr li'" and "li \<le> length flines"
    and "li' \<le> s"
  shows "context_seen c (drop li (take s flines))"
proof (cases "change_context c")
  case None
  then show ?thesis by (simp add: context_seen_def)
next
  case (Some ctx)
  with assms(1) obtain idx where idx: "seek_sequence flines [ctx] li False = Some idx" "li' = idx + 1"
    by (auto simp: seek_context_def split: option.splits)
  from seek_forward [OF idx(1) assms(2)] have le: "li \<le> idx" "idx < length flines"
    and eq: "normalise (flines ! idx) = normalise ctx"
    by (auto simp: take_Suc_conv_app_nth hd_drop_conv_nth take_Suc)
  with assms(3) idx(2) have "flines ! idx \<in> set (drop li (take s flines))"
    by (auto simp: in_set_conv_nth intro!: exI [of _ "idx - li"])
  with Some eq show ?thesis by (auto simp: context_seen_def)
qed

lemma chunk_replacement_plain:
  assumes "chunk_replacement flines pth li c = Inr ((s, n, new), li')"
    and "plain_chunk c" and "li \<le> length flines"
  shows "\<exists>pat. chunk_variant c pat new \<and> n = length pat \<and> li \<le> s \<and> li' = s + n
           \<and> s + n \<le> length flines
           \<and> map normalise (take n (drop s flines)) = map normalise pat
           \<and> context_seen c (drop li (take s flines))"
proof -
  from assms(1) obtain li1 where ctx: "seek_context flines pth li (change_context c) = Inr li1"
    by (auto simp: chunk_replacement_def result_simps)
  with assms obtain pat where pat: "locate_old_lines flines li1 c = (pat, new, Some s)"
    "n = length pat" "li' = s + n"
    by (auto simp: chunk_replacement_def plain_chunk_def split: prod.splits option.splits)
  from ctx assms(3) have li1: "li \<le> li1" "li1 \<le> length flines" by (blast dest: seek_context_bounds)+
  from pat assms(2) have variant: "chunk_variant c pat new"
    and seek: "seek_sequence flines pat li1 False = Some s"
    by (auto simp: locate_old_lines_def plain_chunk_def chunk_variant_def Let_def split: if_splits)
  from seek_forward [OF seek li1(2)] seek_context_seen [OF ctx assms(3)] li1 variant pat
  show ?thesis by auto
qed

lemma replacements_loop_edits:
  assumes "replacements_loop flines pth li acc cs = Inr rs"
    and "list_all plain_chunk cs" and "li \<le> length flines"
  shows "\<exists>rs'. rs = acc @ rs' \<and> disjoint_from li rs' (length flines)
           \<and> edits (drop li flines) cs (splice li flines rs')"
  using assms
proof (induction flines pth li acc cs rule: replacements_loop.induct)
  case (1 flines pth li acc)
  then show ?case by (auto intro: no_more)
next
  case (2 flines pth li acc c cs)
  then obtain r li' where r: "chunk_replacement flines pth li c = Inr (r, li')"
    and loop: "replacements_loop flines pth li' (acc @ [r]) cs = Inr rs"
    by (auto split: sum.splits)
  obtain s n new where rr: "r = (s, n, new)" by (cases r)
  from 2 r rr obtain pat where c: "chunk_variant c pat new" "n = length pat" "li \<le> s"
    "li' = s + n" "s + n \<le> length flines"
    "map normalise (take n (drop s flines)) = map normalise pat"
    "context_seen c (drop li (take s flines))"
    using chunk_replacement_plain [of flines pth li c s n new li'] by auto
  from "2.IH" [OF r refl loop] "2.prems" c obtain rs' where rs': "rs = acc @ r # rs'"
    "disjoint_from (s + n) rs' (length flines)"
    "edits (drop (s + n) flines) cs (splice (s + n) flines rs')" by auto
  let ?kept = "drop li (take s flines)" and ?old = "take n (drop s flines)"
  have "edits (?kept @ ?old @ drop (s + n) flines) (c # cs) (?kept @ new @ splice (s + n) flines rs')"
    using c rs' by (intro edit) auto
  moreover have "drop li flines = ?kept @ ?old @ drop (s + n) flines"
  proof -
    have "flines = take s flines @ ?old @ drop (s + n) flines"
      by (metis add.commute append_take_drop_id drop_drop)
    with c(3) c(5) show ?thesis
      by (metis (no_types, lifting) add_leD1 drop_append diff_is_0_eq' drop_0 length_take min.absorb2)
  qed
  ultimately show ?case using rs' rr c by auto
qed

lemma disjoint_from_sorted:
  "disjoint_from pos rs len \<Longrightarrow> sorted (map fst rs) \<and> (\<forall>r \<in> set rs. pos \<le> fst r)"
proof (induction pos rs len rule: disjoint_from.induct)
  case (2 pos s n new rs len)
  then show ?case by fastforce
qed simp

lemma compute_replacements_edits:
  assumes "compute_replacements flines pth cs = Inr rs" and "list_all plain_chunk cs"
  shows "disjoint_from 0 rs (length flines) \<and> edits flines cs (splice 0 flines rs)"
proof -
  from assms(1) obtain rs0 where "replacements_loop flines pth 0 [] cs = Inr rs0" "rs = sort_key fst rs0"
    by (auto simp: compute_replacements_def result_simps)
  with replacements_loop_edits [of flines pth 0 "[]" cs rs0] assms(2)
  have "disjoint_from 0 rs0 (length flines)" "edits flines cs (splice 0 flines rs0)" by auto
  moreover have "rs = rs0"
    using calculation(1) disjoint_from_sorted \<open>rs = sort_key fst rs0\<close>
    by (metis sort_key_id_if_sorted)
  ultimately show ?thesis by simp
qed

section \<open>Lines and contents\<close>

lemma file_lines_no_nl: "l \<in> set (file_lines s) \<Longrightarrow> nl \<notin> set l"
  by (auto simp: file_lines_def Let_def dest: split_on_pieces in_set_butlastD split: if_splits)

lemma last_is_empty_snoc [simp]: "last_is_empty (xs @ [x]) \<longleftrightarrow> x = []"
  by (simp add: last_is_empty_def)

lemma file_lines_terminated: "file_lines (s @ [nl]) = split_on nl s"
  by (simp add: file_lines_def Let_def split_on_snoc_sep)

lemma unlines_split: "last (split_on nl s) \<noteq> [] \<Longrightarrow> unlines (split_on nl s) = s @ [nl]"
  by (simp add: unlines_def last_is_empty_def join_with_snoc_empty)

lemma unlines_file_lines_terminated:
  "x \<noteq> nl \<Longrightarrow> unlines (file_lines (s @ [x, nl])) = s @ [x, nl]"
  using unlines_split [of "s @ [x]"] last_split_on_snoc [of x nl s] file_lines_terminated [of "s @ [x]"]
  by simp

lemma unlines_file_lines_unterminated:
  "x \<noteq> nl \<Longrightarrow> unlines (file_lines (s @ [x])) = s @ [x, nl]"
  using unlines_split [of "s @ [x]"] last_split_on_snoc [of x nl s]
  by (simp add: file_lines_def Let_def last_is_empty_def)

lemma unlines_file_lines_blank_end: "unlines (file_lines (s @ [nl, nl])) = s @ [nl]"
  using file_lines_terminated [of "s @ [nl]"]
  by (simp add: split_on_snoc_sep unlines_def) (simp add: join_with_snoc_empty)

lemma unlines_terminated: "ls \<noteq> [] \<Longrightarrow> unlines ls = [] \<or> last (unlines ls) = nl"
proof (cases "last_is_empty ls")
  case True
  then obtain xs where "ls = xs @ [[]]"
    by (cases ls rule: rev_cases) (auto simp: last_is_empty_def)
  then show ?thesis by (cases "xs = []") (simp_all add: unlines_def join_with_snoc_empty)
next
  case False
  assume "ls \<noteq> []"
  with False show ?thesis by (simp add: unlines_def join_with_snoc_empty)
qed

end
