(* ===== verification/Absolute_Path.thy ===== *)
theory Absolute_Path
  imports Prelude
begin

text \<open>
  Lexical path resolution on Unix (\<^verbatim>\<open>utils/absolute-path/src/absolutize.rs\<close> and the resolving
  constructors of \<^verbatim>\<open>AbsolutePathBuf\<close>). A \<^verbatim>\<open>PathBuf\<close> is the list of its components: Rust compares,
  orders and hashes paths component-wise, so two path values with the same components are the same
  map key. The home directory is an argument: the code asks the \<^verbatim>\<open>dirs\<close> crate for it.
\<close>

section \<open>Paths\<close>

datatype component = RootDir | CurDir | ParentDir | Normal str

type_synonym path_buf = "component list"

abbreviation slash :: nat where "slash \<equiv> 47"
abbreviation tilde :: nat where "tilde \<equiv> 126"

definition component_of :: "str \<Rightarrow> component" where
  "component_of piece = (if piece = lit ''..'' then ParentDir else Normal piece)"

definition components :: "str \<Rightarrow> path_buf" where
  "components s =
     (let pieces = split_on slash s;
          body = map component_of (filter (\<lambda>x. x \<noteq> [] \<and> x \<noteq> lit ''.'') pieces)
      in if starts_with [slash] s then RootDir # body
         else if hd pieces = lit ''.'' then CurDir # body
         else body)"

definition path_is_absolute :: "path_buf \<Rightarrow> bool" where
  "path_is_absolute p \<longleftrightarrow> (case p of RootDir # _ \<Rightarrow> True | _ \<Rightarrow> False)"

definition path_join :: "path_buf \<Rightarrow> path_buf \<Rightarrow> path_buf" where
  "path_join base p =
     (if path_is_absolute p then p
      else if base = [] then p
      else base @ filter (\<lambda>c. c \<noteq> CurDir) p)"

definition path_pop :: "path_buf \<Rightarrow> path_buf" where
  "path_pop p = (case p of [] \<Rightarrow> [] | [RootDir] \<Rightarrow> [RootDir] | _ \<Rightarrow> butlast p)"

definition path_parent :: "path_buf \<Rightarrow> path_buf option" where
  "path_parent p = (if p = [] \<or> last p = RootDir then None else Some (butlast p))"

fun component_str :: "component \<Rightarrow> str" where
  "component_str RootDir = [slash]"
| "component_str CurDir = lit ''.''"
| "component_str ParentDir = lit ''..''"
| "component_str (Normal s) = s"

definition path_display :: "path_buf \<Rightarrow> str" where
  "path_display p =
     (case p of
        RootDir # rest \<Rightarrow> slash # join_with [slash] (map component_str rest)
      | _ \<Rightarrow> join_with [slash] (map component_str p))"

section \<open>Normalisation\<close>

fun normalize_step :: "path_buf \<Rightarrow> component \<Rightarrow> path_buf" where
  "normalize_step acc CurDir = acc"
| "normalize_step acc ParentDir = path_pop acc"
| "normalize_step acc RootDir = [RootDir]"
| "normalize_step acc (Normal s) = acc @ [Normal s]"

definition normalize_path :: "path_buf \<Rightarrow> path_buf" where
  "normalize_path p =
     (let normalized = foldl normalize_step [] p
      in if normalized = [] then [CurDir] else normalized)"

definition path_with_base :: "path_buf \<Rightarrow> path_buf \<Rightarrow> path_buf" where
  "path_with_base p base = (if path_is_absolute p then p else path_join base p)"

definition absolutize_from :: "path_buf \<Rightarrow> path_buf \<Rightarrow> path_buf" where
  "absolutize_from p base = normalize_path (path_with_base p base)"

definition maybe_expand_home_directory :: "path_buf option \<Rightarrow> str \<Rightarrow> path_buf" where
  "maybe_expand_home_directory home s =
     (case (home, strip_prefix [tilde] s) of
        (Some h, Some rest) \<Rightarrow>
          if rest = [] then h
          else (case strip_prefix [slash] rest of
                  Some r \<Rightarrow> path_join h (components (dropWhile (\<lambda>c. c = slash) r))
                | None \<Rightarrow> components s)
      | _ \<Rightarrow> components s)"

definition resolve_path_against_base :: "path_buf option \<Rightarrow> str \<Rightarrow> path_buf \<Rightarrow> path_buf" where
  "resolve_path_against_base home p base = absolutize_from (maybe_expand_home_directory home p) base"

text \<open>\<^verbatim>\<open>absolutize\<close> asks the process for its current directory only for a relative path; the directory
  is an argument, None when the process has none.\<close>

definition absolutize :: "path_buf option \<Rightarrow> path_buf \<Rightarrow> path_buf option" where
  "absolutize current_dir p =
     (if path_is_absolute p then Some (normalize_path p)
      else map_option (absolutize_from p) current_dir)"

definition from_absolute_path :: "path_buf option \<Rightarrow> path_buf option \<Rightarrow> str \<Rightarrow> path_buf option" where
  "from_absolute_path home current_dir s = absolutize current_dir (maybe_expand_home_directory home s)"

definition path_file_name :: "path_buf \<Rightarrow> str option" where
  "path_file_name p =
     (if p = [] then None else (case last p of Normal s \<Rightarrow> Some s | _ \<Rightarrow> None))"

text \<open>The same constructors for a path that is already a list of components.\<close>

definition expand_home :: "path_buf option \<Rightarrow> path_buf \<Rightarrow> path_buf" where
  "expand_home home p =
     (case (home, p) of
        (Some h, Normal t # rest) \<Rightarrow> if t = [tilde] then path_join h rest else p
      | _ \<Rightarrow> p)"

definition resolve_against_base :: "path_buf option \<Rightarrow> path_buf \<Rightarrow> path_buf \<Rightarrow> path_buf" where
  "resolve_against_base home p base = absolutize_from (expand_home home p) base"

definition absolute_from :: "path_buf option \<Rightarrow> path_buf option \<Rightarrow> path_buf \<Rightarrow> path_buf option" where
  "absolute_from home current_dir p = absolutize current_dir (expand_home home p)"

text \<open>\<^verbatim>\<open>Path::ancestors\<close>: the path, its parent, and so on.\<close>

function path_ancestors :: "path_buf \<Rightarrow> path_buf list" where
  "path_ancestors p = p # (case path_parent p of None \<Rightarrow> [] | Some q \<Rightarrow> path_ancestors q)"
  by pat_completeness auto
termination
  by (relation "measure length") (auto simp: path_parent_def split: if_splits)

declare path_ancestors.simps [simp del]

section \<open>Absolute and normalised\<close>

text \<open>The invariant the type documents: a root followed by plain names.\<close>

definition is_normal :: "component \<Rightarrow> bool" where
  "is_normal c \<longleftrightarrow> (case c of Normal _ \<Rightarrow> True | _ \<Rightarrow> False)"

definition absolute_normalized :: "path_buf \<Rightarrow> bool" where
  "absolute_normalized p \<longleftrightarrow> (case p of RootDir # rest \<Rightarrow> list_all is_normal rest | _ \<Rightarrow> False)"

lemma absolute_normalized_push:
  "absolute_normalized p \<Longrightarrow> absolute_normalized (p @ [Normal s])"
  by (auto simp: absolute_normalized_def is_normal_def split: list.splits component.splits)

lemma absolute_normalized_pop: "absolute_normalized p \<Longrightarrow> absolute_normalized (path_pop p)"
  by (auto simp: absolute_normalized_def path_pop_def list_all_iff dest: in_set_butlastD
           split: list.splits component.splits)

lemma normalize_step_absolute:
  "absolute_normalized acc \<Longrightarrow> absolute_normalized (normalize_step acc c)"
  by (cases c)
     (simp_all add: absolute_normalized_push absolute_normalized_pop,
      simp add: absolute_normalized_def)

lemma foldl_normalize_absolute:
  "absolute_normalized acc \<Longrightarrow> absolute_normalized (foldl normalize_step acc p)"
  by (induction p arbitrary: acc) (auto simp: normalize_step_absolute)

lemma normalize_path_absolute:
  assumes "path_is_absolute p"
  shows "absolute_normalized (normalize_path p)"
proof -
  from assms obtain rest where p: "p = RootDir # rest"
    by (auto simp: path_is_absolute_def split: list.splits component.splits)
  have "absolute_normalized (foldl normalize_step [RootDir] rest)"
    by (rule foldl_normalize_absolute) (simp add: absolute_normalized_def)
  moreover from this have "foldl normalize_step [RootDir] rest \<noteq> []"
    by (auto simp: absolute_normalized_def)
  ultimately show ?thesis using p by (simp add: normalize_path_def)
qed

lemma path_with_base_absolute: "path_is_absolute base \<Longrightarrow> path_is_absolute (path_with_base p base)"
  by (auto simp: path_with_base_def path_join_def path_is_absolute_def
           split: list.splits component.splits)

lemma foldl_normalize_normals:
  "list_all is_normal rest \<Longrightarrow> foldl normalize_step acc rest = acc @ rest"
  by (induction rest arbitrary: acc) (auto simp: is_normal_def split: component.splits)

lemma normalize_path_id: "absolute_normalized p \<Longrightarrow> normalize_path p = p"
  by (auto simp: absolute_normalized_def normalize_path_def foldl_normalize_normals
           split: list.splits component.splits)

lemma absolute_normalized_is_absolute: "absolute_normalized p \<Longrightarrow> path_is_absolute p"
  by (auto simp: absolute_normalized_def path_is_absolute_def split: list.splits component.splits)

text \<open>Every component before a \<^verbatim>\<open>..\<close> is removed with it: a path without \<^verbatim>\<open>..\<close> stays below its
  base.\<close>

lemma foldl_normalize_below:
  assumes "ParentDir \<notin> set p" and "RootDir \<notin> set p"
  shows "foldl normalize_step acc p = acc @ filter (\<lambda>c. c \<noteq> CurDir) p"
  using assms
proof (induction p arbitrary: acc)
  case (Cons c p)
  then show ?case by (cases c) auto
qed simp

lemma RootDir_not_in_relative: "\<not> path_is_absolute (components s) \<Longrightarrow> RootDir \<notin> set (components s)"
  by (auto simp: components_def Let_def path_is_absolute_def component_of_def split: if_splits)

section \<open>Text and components\<close>

text \<open>Expanding the home directory in the text of a path is expanding it in its components.\<close>

lemma split_on_dropWhile:
  "filter (\<lambda>x. x \<noteq> [] \<and> Q x) (split_on c (dropWhile (\<lambda>x. x = c) s)) = filter (\<lambda>x. x \<noteq> [] \<and> Q x) (split_on c s)"
  by (induction s) (auto split: list.splits)

lemma components_body:
  "filter (\<lambda>c. c \<noteq> CurDir) (components s) =
     (if starts_with [slash] s then [RootDir] else [])
     @ map component_of (filter (\<lambda>x. x \<noteq> [] \<and> x \<noteq> lit ''.'') (split_on slash s))"
  by (auto simp: components_def Let_def component_of_def intro!: filter_True)

lemma dropWhile_no_slash: "\<not> starts_with [slash] (dropWhile (\<lambda>c. c = slash) r)"
  by (induction r) (auto simp: starts_with_iff prefix_def)

lemma components_tilde: "components (tilde # slash # r) = Normal [tilde] #
     map component_of (filter (\<lambda>x. x \<noteq> [] \<and> x \<noteq> lit ''.'') (split_on slash r))"
  by (simp add: components_def Let_def starts_with_iff component_of_def lit_Cons)

lemma expand_home_components:
  assumes "\<And>h. home = Some h \<Longrightarrow> h \<noteq> []"
  shows "maybe_expand_home_directory home s = expand_home home (components s)"
proof (cases home)
  case None
  then show ?thesis by (simp add: maybe_expand_home_directory_def expand_home_def)
next
  case (Some h)
  with assms have h: "h \<noteq> []" by simp
  consider (bare) "s = [tilde]" | (sub) r where "s = tilde # slash # r"
    | (named) r where "s = tilde # r" "r \<noteq> []" "hd r \<noteq> slash" | (other) "\<not> starts_with [tilde] s"
    by (cases s; cases "tl s") (auto simp: starts_with_iff)
  then show ?thesis
  proof cases
    case bare
    then show ?thesis using Some h
      by (simp add: maybe_expand_home_directory_def expand_home_def components_def starts_with_iff
            component_of_def path_join_def path_is_absolute_def text_simps)
  next
    case sub
    let ?r = "dropWhile (\<lambda>c. c = slash) r"
    have rel: "\<not> path_is_absolute (components ?r)"
      using dropWhile_no_slash [of r]
      by (auto simp: components_def Let_def path_is_absolute_def component_of_def Cons_eq_map_conv
               split: list.splits component.splits if_splits)
    have rel': "\<not> path_is_absolute (map component_of (filter (\<lambda>x. x \<noteq> [] \<and> x \<noteq> lit ''.'') (split_on slash r)))"
      by (auto simp: path_is_absolute_def component_of_def map_eq_Cons_conv split: list.splits component.splits if_splits)
    have cur: "filter (\<lambda>c. c \<noteq> CurDir) (map component_of xs) = map component_of xs" for xs
      by (auto simp: component_of_def intro!: filter_True)
    show ?thesis using Some h sub rel rel'
      by (simp add: maybe_expand_home_directory_def expand_home_def components_tilde path_join_def
            components_body dropWhile_no_slash split_on_dropWhile cur del: filter_map)
  next
    case named
    then have "components s = s2 \<Longrightarrow> (case s2 of Normal t # _ \<Rightarrow> t \<noteq> [tilde] | _ \<Rightarrow> True)" for s2
      by (cases r) (auto simp: components_def Let_def starts_with_iff component_of_def lit_Cons split: list.splits component.splits if_splits)
    then show ?thesis using Some named
      by (cases r) (auto simp: maybe_expand_home_directory_def expand_home_def split: list.splits component.splits)
  next
    case other
    have "t \<noteq> [tilde]" if "components s = Normal t # rest" for t rest
      using that other
      by (cases s; cases "split_on slash (tl s)")
         (auto simp: components_def Let_def starts_with_iff component_of_def lit_Cons split: if_splits)
    then show ?thesis using Some other
      by (auto simp: maybe_expand_home_directory_def expand_home_def starts_with_def split: list.splits component.splits)
  qed
qed

lemma resolve_path_components:
  "(\<And>h. home = Some h \<Longrightarrow> h \<noteq> []) \<Longrightarrow>
   resolve_path_against_base home s base = resolve_against_base home (components s) base"
  by (simp add: resolve_path_against_base_def resolve_against_base_def expand_home_components)

lemma from_absolute_components:
  "(\<And>h. home = Some h \<Longrightarrow> h \<noteq> []) \<Longrightarrow>
   from_absolute_path home current_dir s = absolute_from home current_dir (components s)"
  by (simp add: from_absolute_path_def absolute_from_def expand_home_components)

lemma expand_home_absolute: "path_is_absolute p \<Longrightarrow> expand_home home p = p"
  by (auto simp: expand_home_def path_is_absolute_def split: option.splits list.splits component.splits)

lemma absolute_from_id [simp]: "absolute_normalized p \<Longrightarrow> absolute_from home current_dir p = Some p"
  by (simp add: absolute_from_def absolutize_def absolute_normalized_is_absolute expand_home_absolute
        normalize_path_id)

lemma absolute_from_absolute:
  "path_is_absolute p \<Longrightarrow> absolute_from home current_dir p = Some (normalize_path p)"
  by (simp add: absolute_from_def absolutize_def expand_home_absolute)

lemma absolutize_from_normalized: "path_is_absolute base \<Longrightarrow> absolute_normalized (absolutize_from p base)"
  by (simp add: absolutize_from_def normalize_path_absolute path_with_base_absolute)

lemma resolve_against_base_normalized:
  "path_is_absolute base \<Longrightarrow> absolute_normalized (resolve_against_base home p base)"
  by (simp add: resolve_against_base_def absolutize_from_normalized)

lemma absolute_from_normalized:
  assumes "absolute_from home current_dir p = Some q"
    and "\<And>c. current_dir = Some c \<Longrightarrow> path_is_absolute c"
  shows "absolute_normalized q"
  using assms
  by (auto simp: absolute_from_def absolutize_def normalize_path_absolute absolutize_from_normalized
           split: if_splits)

lemma resolve_normal_name:
  assumes "absolute_normalized base" and "s \<noteq> [tilde]"
  shows "resolve_against_base home [Normal s] base = base @ [Normal s]"
proof -
  have "absolute_normalized (base @ [Normal s])" using assms(1) by (rule absolute_normalized_push)
  moreover have "base \<noteq> []" using assms(1) by (auto simp: absolute_normalized_def)
  ultimately show ?thesis using assms(2)
    by (auto simp: resolve_against_base_def expand_home_def absolutize_from_def path_with_base_def
          path_join_def path_is_absolute_def normalize_path_id split: option.splits)
qed

lemma last_path_ancestors:
  assumes "absolute_normalized p"
  shows "last (path_ancestors p) = [RootDir]"
  using assms
proof (induction p rule: path_ancestors.induct)
  case (1 p)
  show ?case
  proof (cases "path_parent p")
    case None
    with 1 have "p = [RootDir]"
      by (cases p) (auto simp: path_parent_def absolute_normalized_def is_normal_def list_all_iff
                         split: component.splits if_splits dest: last_in_set)
    then show ?thesis using None by (subst path_ancestors.simps) simp
  next
    case (Some q)
    then have q: "q = butlast p" and ne: "p \<noteq> []" "last p \<noteq> RootDir"
      by (auto simp: path_parent_def split: if_splits)
    have "absolute_normalized q" using 1(2) q ne
      by (cases p) (auto simp: absolute_normalized_def list_all_iff dest: in_set_butlastD split: component.splits)
    with 1(1) Some have "last (path_ancestors q) = [RootDir]" by simp
    moreover have "path_ancestors q \<noteq> []" by (subst path_ancestors.simps) simp
    ultimately show ?thesis using Some by (subst path_ancestors.simps) simp
  qed
qed

end
