(* ===== verification/Patch_Apply.thy ===== *)
theory Patch_Apply
  imports Patch_Edit_Spec Absolute_Path
begin

text \<open>
  Applying parsed hunks to a file system (\<^verbatim>\<open>apply-patch/src/lib.rs\<close>: \<^verbatim>\<open>apply_patch\<close>,
  \<^verbatim>\<open>apply_hunks\<close>, \<^verbatim>\<open>apply_hunks_to_files\<close> and their helpers). The file system is the
  \<^verbatim>\<open>ExecutorFileSystem\<close> trait object the code receives: a record of operations over an abstract
  state \<open>'s\<close>, already bound to its sandbox argument. Standard output and error are writers that may
  fail. Errors are \<^verbatim>\<open>anyhow\<close> values: a cause under zero or more context messages.
\<close>

section \<open>The file system interface\<close>

record FileMetadata =
  is_directory :: bool
  is_regular :: bool
  is_symlink :: bool

record 's fs_ops =
  read_file_text :: "'s \<Rightarrow> path_buf \<Rightarrow> io_error + str"
  write_file :: "'s \<Rightarrow> path_buf \<Rightarrow> str \<Rightarrow> 's \<times> (io_error + unit)"
  create_directory :: "'s \<Rightarrow> path_buf \<Rightarrow> bool \<Rightarrow> 's \<times> (io_error + unit)"
  get_metadata :: "'s \<Rightarrow> path_buf \<Rightarrow> io_error + FileMetadata"
  remove_path :: "'s \<Rightarrow> path_buf \<Rightarrow> bool \<Rightarrow> bool \<Rightarrow> 's \<times> (io_error + unit)"

type_synonym writer = "str \<Rightarrow> str \<Rightarrow> io_error + str"

datatype any_error =
    Bail str
  | FromIo io_error
  | FromApply ApplyPatchError
  | WithContext str any_error

definition with_context :: "str \<Rightarrow> io_error + 'a \<Rightarrow> any_error + 'a" where
  "with_context msg r = map_err (\<lambda>e. WithContext msg (FromIo e)) r"

section \<open>The committed delta\<close>

datatype AppliedPatchFileChange =
    AddChange str "str option"
  | DeleteChange str
  | UpdateChange "path_buf option" str "str option" str

record AppliedPatchChange =
  change_path :: path_buf
  change :: AppliedPatchFileChange

record AppliedPatchDelta =
  changes :: "AppliedPatchChange list"
  exact :: bool

definition empty_delta :: AppliedPatchDelta where
  "empty_delta = \<lparr>changes = [], exact = True\<rparr>"

definition push_change :: "AppliedPatchDelta \<Rightarrow> path_buf \<Rightarrow> AppliedPatchFileChange \<Rightarrow> AppliedPatchDelta" where
  "push_change d p c = d\<lparr>changes := changes d @ [\<lparr>change_path = p, change = c\<rparr>]\<rparr>"

definition append_delta :: "AppliedPatchDelta \<Rightarrow> AppliedPatchDelta \<Rightarrow> AppliedPatchDelta" where
  "append_delta d other =
     d\<lparr>changes := changes d @ changes other, exact := exact d \<and> exact other\<rparr>"

record AffectedPaths =
  added :: "path list"
  modified :: "path list"
  deleted :: "path list"

section \<open>Helpers\<close>

definition ensure_not_directory :: "'s fs_ops \<Rightarrow> 's \<Rightarrow> path_buf \<Rightarrow> io_error + unit" where
  "ensure_not_directory ops s p =
     bind_result (get_metadata ops s p)
       (\<lambda>m. if is_directory m
            then Inl \<lparr>kind = InvalidInput, message = lit ''path is a directory''\<rparr>
            else Inr ())"

definition remove_failure_was_side_effect_free ::
  "'s fs_ops \<Rightarrow> 's \<Rightarrow> path_buf \<Rightarrow> str option \<Rightarrow> bool" where
  "remove_failure_was_side_effect_free ops s p expected_content =
     (case expected_content of
        Some expected \<Rightarrow> read_file_text ops s p = Inr expected
      | None \<Rightarrow> False)"

text \<open>\<^verbatim>\<open>note_existing_path_delta_support\<close> clears the flag through its \<^verbatim>\<open>&mut bool\<close> argument; the model
  returns the flag.\<close>

definition note_existing_path_delta_support ::
  "'s fs_ops \<Rightarrow> 's \<Rightarrow> path_buf \<Rightarrow> bool \<Rightarrow> bool" where
  "note_existing_path_delta_support ops s p ex =
     (case get_metadata ops s p of
        Inr m \<Rightarrow> if is_regular m \<and> \<not> is_symlink m then ex else False
      | Inl e \<Rightarrow> if kind e = NotFound then ex else False)"

definition read_optional_file_text_for_delta ::
  "'s fs_ops \<Rightarrow> 's \<Rightarrow> path_buf \<Rightarrow> bool \<Rightarrow> bool \<times> str option" where
  "read_optional_file_text_for_delta ops s p ex =
     (let ex1 = note_existing_path_delta_support ops s p ex
      in case read_file_text ops s p of
           Inr content \<Rightarrow> (ex1, Some content)
         | Inl e \<Rightarrow> if kind e = NotFound then (ex1, None) else (False, None))"

definition write_file_with_missing_parent_retry ::
  "'s fs_ops \<Rightarrow> 's \<Rightarrow> path_buf \<Rightarrow> str \<Rightarrow> 's \<times> (any_error + unit)" where
  "write_file_with_missing_parent_retry ops s p contents =
     (let write_msg = lit ''Failed to write file '' @ path_display p
      in case write_file ops s p contents of
           (s1, Inr _) \<Rightarrow> (s1, Inr ())
         | (s1, Inl err) \<Rightarrow>
             if kind err = NotFound then
               (let (s2, mk) =
                  (case path_parent p of
                     Some parent \<Rightarrow>
                       (case create_directory ops s1 parent True of
                          (s2, r) \<Rightarrow>
                            (s2, with_context
                                   (lit ''Failed to create parent directories for '' @ path_display p) r))
                   | None \<Rightarrow> (s1, Inr ()))
                in case mk of
                     Inl e \<Rightarrow> (s2, Inl e)
                   | Inr _ \<Rightarrow>
                       (case write_file ops s2 p contents of
                          (s3, r) \<Rightarrow> (s3, with_context write_msg r)))
             else (s1, Inl (WithContext write_msg (FromIo err))))"

definition derive_new_contents_from_chunks ::
  "'s fs_ops \<Rightarrow> 's \<Rightarrow> path_buf \<Rightarrow> UpdateFileChunk list \<Rightarrow> (ApplyPatchError + str \<times> str) option" where
  "derive_new_contents_from_chunks ops s p chunks =
     (case read_file_text ops s p of
        Inl err \<Rightarrow> Some (Inl (IoErr
          \<lparr>context_msg = lit ''Failed to read file to update '' @ path_display p, source = err\<rparr>))
      | Inr original \<Rightarrow>
          map_option (\<lambda>r. bind_result r (\<lambda>new. Inr (original, new)))
            (derive_new_text (path_display p) original chunks))"

section \<open>One hunk\<close>

text \<open>The loop of \<^verbatim>\<open>apply_hunks_to_files\<close> threads the file system, the delta and the affected paths;
  an early return keeps what was committed so far.\<close>

record 's apply_state =
  fs :: 's
  delta :: AppliedPatchDelta
  affected :: AffectedPaths

definition set_exact :: "bool \<Rightarrow> 's apply_state \<Rightarrow> 's apply_state" where
  "set_exact b st = st\<lparr>delta := (delta st)\<lparr>exact := b\<rparr>\<rparr>"

definition commit :: "path_buf \<Rightarrow> AppliedPatchFileChange \<Rightarrow> 's apply_state \<Rightarrow> 's apply_state" where
  "commit p c st = st\<lparr>delta := push_change (delta st) p c\<rparr>"

definition add_affected :: "path \<Rightarrow> AffectedPaths \<Rightarrow> AffectedPaths" where
  "add_affected p a = a\<lparr>added := added a @ [p]\<rparr>"

definition mod_affected :: "path \<Rightarrow> AffectedPaths \<Rightarrow> AffectedPaths" where
  "mod_affected p a = a\<lparr>modified := modified a @ [p]\<rparr>"

definition del_affected :: "path \<Rightarrow> AffectedPaths \<Rightarrow> AffectedPaths" where
  "del_affected p a = a\<lparr>deleted := deleted a @ [p]\<rparr>"

text \<open>\<^verbatim>\<open>try_write!\<close>: a failed write makes the delta inexact.\<close>

definition try_write ::
  "'s apply_state \<Rightarrow> 's \<times> (any_error + unit)
   \<Rightarrow> ('s apply_state \<Rightarrow> 's apply_state \<times> (any_error + unit)) \<Rightarrow> 's apply_state \<times> (any_error + unit)" where
  "try_write st w k =
     (case w of
        (s', Inr _) \<Rightarrow> k (st\<lparr>fs := s'\<rparr>)
      | (s', Inl e) \<Rightarrow> (set_exact False (st\<lparr>fs := s'\<rparr>), Inl e))"

text \<open>Removing a file: the directory check, the removal, and on a failed removal the test that
  nothing was lost.\<close>

definition remove_checked ::
  "'s fs_ops \<Rightarrow> 's apply_state \<Rightarrow> path_buf \<Rightarrow> str \<Rightarrow> str option
   \<Rightarrow> ('s apply_state \<Rightarrow> 's apply_state \<times> (any_error + unit)) \<Rightarrow> 's apply_state \<times> (any_error + unit)" where
  "remove_checked ops st p msg expected k =
     (case with_context msg (ensure_not_directory ops (fs st) p) of
        Inl e \<Rightarrow> (st, Inl e)
      | Inr _ \<Rightarrow>
          (case remove_path ops (fs st) p False False of
             (s', Inl err) \<Rightarrow>
               (set_exact (exact (delta st) \<and> remove_failure_was_side_effect_free ops s' p expected)
                  (st\<lparr>fs := s'\<rparr>),
                Inl (WithContext msg (FromIo err)))
           | (s', Inr _) \<Rightarrow> k (st\<lparr>fs := s'\<rparr>)))"

definition apply_add ::
  "'s fs_ops \<Rightarrow> 's apply_state \<Rightarrow> path \<Rightarrow> path_buf \<Rightarrow> str \<Rightarrow> 's apply_state \<times> (any_error + unit)" where
  "apply_add ops st aff p contents =
     (case read_optional_file_text_for_delta ops (fs st) p (exact (delta st)) of
        (ex, overwritten) \<Rightarrow>
          try_write (set_exact ex st) (write_file_with_missing_parent_retry ops (fs st) p contents)
            (\<lambda>st1. let st2 = commit p (AddChange contents overwritten) st1
                   in (st2\<lparr>affected := add_affected aff (affected st2)\<rparr>, Inr ())))"

definition apply_delete ::
  "'s fs_ops \<Rightarrow> 's apply_state \<Rightarrow> path \<Rightarrow> path_buf \<Rightarrow> 's apply_state \<times> (any_error + unit)" where
  "apply_delete ops st aff p =
     (let ex = note_existing_path_delta_support ops (fs st) p (exact (delta st));
          content = (case read_file_text ops (fs st) p of Inr c \<Rightarrow> Some c | Inl _ \<Rightarrow> None);
          st1 = set_exact (if content = None then False else ex) st
      in remove_checked ops st1 p (lit ''Failed to delete file '' @ path_display p) content
           (\<lambda>st2. let st3 = (case content of Some c \<Rightarrow> commit p (DeleteChange c) st2 | None \<Rightarrow> st2)
                  in (st3\<lparr>affected := del_affected aff (affected st3)\<rparr>, Inr ())))"

text \<open>A move writes the destination and records it as an addition; once the original is removed the
  recorded entry becomes the update.\<close>

definition set_change :: "nat \<Rightarrow> path_buf \<Rightarrow> AppliedPatchFileChange \<Rightarrow> 's apply_state \<Rightarrow> 's apply_state" where
  "set_change i p c st =
     st\<lparr>delta := (delta st)\<lparr>changes := (changes (delta st))[i := \<lparr>change_path = p, change = c\<rparr>]\<rparr>\<rparr>"

definition apply_move ::
  "'s fs_ops \<Rightarrow> 's apply_state \<Rightarrow> path \<Rightarrow> path_buf \<Rightarrow> path_buf \<Rightarrow> str \<Rightarrow> str
   \<Rightarrow> 's apply_state \<times> (any_error + unit)" where
  "apply_move ops st aff p dest original new_contents =
     (case read_optional_file_text_for_delta ops (fs st) dest (exact (delta st)) of
        (ex, overwritten) \<Rightarrow>
          try_write (set_exact ex st) (write_file_with_missing_parent_retry ops (fs st) dest new_contents)
            (\<lambda>st1.
               let i = length (changes (delta st1));
                   st2 = commit dest (AddChange new_contents overwritten) st1
               in remove_checked ops st2 p (lit ''Failed to remove original '' @ path_display p)
                    (Some original)
                    (\<lambda>st3. let st4 = set_change i p
                                 (UpdateChange (Some dest) original overwritten new_contents) st3
                           in (st4\<lparr>affected := mod_affected aff (affected st4)\<rparr>, Inr ()))))"

definition apply_update ::
  "'s fs_ops \<Rightarrow> path_buf option \<Rightarrow> path_buf \<Rightarrow> 's apply_state \<Rightarrow> path \<Rightarrow> path_buf \<Rightarrow> path option
   \<Rightarrow> UpdateFileChunk list \<Rightarrow> ('s apply_state \<times> (any_error + unit)) option" where
  "apply_update ops home cwd st aff p move_path chunks =
     (let st1 = set_exact (note_existing_path_delta_support ops (fs st) p (exact (delta st))) st
      in case derive_new_contents_from_chunks ops (fs st) p chunks of
           None \<Rightarrow> None
         | Some (Inl e) \<Rightarrow> Some (st1, Inl (FromApply e))
         | Some (Inr (original, new_contents)) \<Rightarrow>
             Some (case move_path of
                 Some dest \<Rightarrow>
                   apply_move ops st1 aff p (resolve_path_against_base home dest cwd) original new_contents
               | None \<Rightarrow>
                   try_write st1
                     (case write_file ops (fs st1) p new_contents of
                        (s', r) \<Rightarrow> (s', with_context (lit ''Failed to write file '' @ path_display p) r))
                     (\<lambda>st2. let st3 = commit p (UpdateChange None original None new_contents) st2
                            in (st3\<lparr>affected := mod_affected aff (affected st3)\<rparr>, Inr ()))))"

fun resolve_path :: "path_buf option \<Rightarrow> Hunk \<Rightarrow> path_buf \<Rightarrow> path_buf" where
  "resolve_path home (UpdateFile p _ _) cwd = resolve_path_against_base home p cwd"
| "resolve_path home h cwd = resolve_path_against_base home (hunk_path h) cwd"

definition apply_hunk ::
  "'s fs_ops \<Rightarrow> path_buf option \<Rightarrow> path_buf \<Rightarrow> Hunk \<Rightarrow> 's apply_state
   \<Rightarrow> ('s apply_state \<times> (any_error + unit)) option" where
  "apply_hunk ops home cwd h st =
     (let aff = hunk_path h; p = resolve_path home h cwd
      in case h of
           AddFile _ contents \<Rightarrow> Some (apply_add ops st aff p contents)
         | DeleteFile _ \<Rightarrow> Some (apply_delete ops st aff p)
         | UpdateFile _ move_path chunks \<Rightarrow> apply_update ops home cwd st aff p move_path chunks)"

section \<open>All hunks\<close>

fun apply_hunks_loop ::
  "'s fs_ops \<Rightarrow> path_buf option \<Rightarrow> path_buf \<Rightarrow> Hunk list \<Rightarrow> 's apply_state
   \<Rightarrow> ('s apply_state \<times> (any_error + unit)) option" where
  "apply_hunks_loop ops home cwd [] st = Some (st, Inr ())"
| "apply_hunks_loop ops home cwd (h # hs) st =
     (case apply_hunk ops home cwd h st of
        None \<Rightarrow> None
      | Some (st', Inl e) \<Rightarrow> Some (st', Inl e)
      | Some (st', Inr _) \<Rightarrow> apply_hunks_loop ops home cwd hs st')"

definition init_state :: "'s \<Rightarrow> 's apply_state" where
  "init_state s =
     \<lparr>fs = s, delta = empty_delta, affected = \<lparr>added = [], modified = [], deleted = []\<rparr>\<rparr>"

definition apply_hunks_to_files ::
  "'s fs_ops \<Rightarrow> path_buf option \<Rightarrow> path_buf \<Rightarrow> Hunk list \<Rightarrow> 's \<Rightarrow> ('s apply_state \<times> (any_error + unit)) option" where
  "apply_hunks_to_files ops home cwd hs s =
     (if hs = [] then Some (init_state s, Inl (Bail (lit ''No files were modified.'')))
      else apply_hunks_loop ops home cwd hs (init_state s))"

section \<open>Reporting\<close>

fun parse_error_display :: "ParseError \<Rightarrow> str" where
  "parse_error_display (InvalidPatchError m) = lit ''invalid patch: '' @ m"
| "parse_error_display (InvalidHunkError m n) =
     lit ''invalid hunk at line '' @ show_nat n @ lit '', '' @ m"

fun apply_error_display :: "ApplyPatchError \<Rightarrow> str" where
  "apply_error_display (ParseErr e) = parse_error_display e"
| "apply_error_display (IoErr e) = context_msg e @ lit '': '' @ message (source e)"
| "apply_error_display (ComputeReplacements m) = m"
| "apply_error_display ImplicitInvocation =
     lit ''patch detected without explicit call to apply_patch. Rerun as ['' @ [dquote]
     @ lit ''apply_patch'' @ [dquote] @ lit '', '' @ [dquote] @ lit ''<patch>'' @ [dquote] @ lit '']''"

fun any_error_display :: "any_error \<Rightarrow> str" where
  "any_error_display (Bail m) = m"
| "any_error_display (FromIo e) = message e"
| "any_error_display (FromApply e) = apply_error_display e"
| "any_error_display (WithContext m _) = m"

fun downcast_io :: "any_error \<Rightarrow> io_error option" where
  "downcast_io (FromIo e) = Some e"
| "downcast_io (WithContext _ e) = downcast_io e"
| "downcast_io (Bail _) = None"
| "downcast_io (FromApply _) = None"

text \<open>\<^verbatim>\<open>From<std::io::Error> for ApplyPatchError\<close>.\<close>

definition apply_error_from_io :: "io_error \<Rightarrow> ApplyPatchError" where
  "apply_error_from_io e = IoErr \<lparr>context_msg = lit ''I/O error'', source = e\<rparr>"

record ApplyPatchFailure =
  failure_error :: ApplyPatchError
  failure_delta :: AppliedPatchDelta

fun write_lines :: "writer \<Rightarrow> str list \<Rightarrow> str \<Rightarrow> io_error + str" where
  "write_lines w [] out = Inr out"
| "write_lines w (l # ls) out = bind_result (w out (l @ [nl])) (write_lines w ls)"

definition summary_lines :: "AffectedPaths \<Rightarrow> str list" where
  "summary_lines a =
     [lit ''Success. Updated the following files:'']
     @ map (\<lambda>p. lit ''A '' @ p) (added a)
     @ map (\<lambda>p. lit ''M '' @ p) (modified a)
     @ map (\<lambda>p. lit ''D '' @ p) (deleted a)"

definition print_summary :: "writer \<Rightarrow> AffectedPaths \<Rightarrow> str \<Rightarrow> io_error + str" where
  "print_summary w a out = write_lines w (summary_lines a) out"

text \<open>What a run leaves behind. When a writer fails its own content is unspecified; the model keeps
  what was there before the call.\<close>

record 's apply_outcome =
  final_fs :: 's
  stdout :: str
  stderr :: str
  outcome :: "ApplyPatchFailure + AppliedPatchDelta"

definition apply_hunks ::
  "'s fs_ops \<Rightarrow> path_buf option \<Rightarrow> path_buf \<Rightarrow> writer \<Rightarrow> writer \<Rightarrow> Hunk list \<Rightarrow> 's \<Rightarrow> str \<Rightarrow> str
   \<Rightarrow> 's apply_outcome option" where
  "apply_hunks ops home cwd wout werr hs s out err =
     (case apply_hunks_to_files ops home cwd hs s of
        None \<Rightarrow> None
      | Some (st, Inr _) \<Rightarrow>
          Some (case print_summary wout (affected st) out of
              Inl e \<Rightarrow> \<lparr>final_fs = fs st, stdout = out, stderr = err,
                        outcome = Inl \<lparr>failure_error = apply_error_from_io e, failure_delta = delta st\<rparr>\<rparr>
            | Inr out' \<Rightarrow> \<lparr>final_fs = fs st, stdout = out', stderr = err, outcome = Inr (delta st)\<rparr>)
      | Some (st, Inl error) \<Rightarrow>
          (let msg = any_error_display error
           in Some (case werr err (msg @ [nl]) of
                Inl e \<Rightarrow> \<lparr>final_fs = fs st, stdout = out, stderr = err,
                          outcome = Inl \<lparr>failure_error = apply_error_from_io e, failure_delta = delta st\<rparr>\<rparr>
              | Inr err' \<Rightarrow>
                  \<lparr>final_fs = fs st, stdout = out, stderr = err',
                   outcome = Inl \<lparr>failure_error =
                       (case downcast_io error of
                          Some io \<Rightarrow> apply_error_from_io io
                        | None \<Rightarrow> IoErr \<lparr>context_msg = msg,
                                         source = \<lparr>kind = OtherKind, message = msg\<rparr>\<rparr>),
                     failure_delta = delta st\<rparr>\<rparr>)))"

definition apply_patch ::
  "'s fs_ops \<Rightarrow> path_buf option \<Rightarrow> path_buf \<Rightarrow> writer \<Rightarrow> writer \<Rightarrow> str \<Rightarrow> 's \<Rightarrow> str \<Rightarrow> str
   \<Rightarrow> 's apply_outcome option" where
  "apply_patch ops home cwd wout werr p s out err =
     (case parse_patch p of
        Inr args \<Rightarrow> apply_hunks ops home cwd wout werr (hunks args) s out err
      | Inl e \<Rightarrow>
          (let report = (case e of
                  InvalidPatchError m \<Rightarrow> lit ''Invalid patch: '' @ m
                | InvalidHunkError m n \<Rightarrow>
                    lit ''Invalid patch hunk on line '' @ show_nat n @ lit '': '' @ m)
           in Some (case werr err (report @ [nl]) of
                Inl io \<Rightarrow> \<lparr>final_fs = s, stdout = out, stderr = err,
                   outcome = Inl \<lparr>failure_error = apply_error_from_io io, failure_delta = empty_delta\<rparr>\<rparr>
              | Inr err' \<Rightarrow> \<lparr>final_fs = s, stdout = out, stderr = err',
                   outcome = Inl \<lparr>failure_error = ParseErr e, failure_delta = empty_delta\<rparr>\<rparr>)))"

section \<open>No panic\<close>

lemma derive_new_text_total: "\<exists>r. derive_new_text p contents chunks = Some r"
proof (cases "compute_replacements (file_lines contents) p chunks")
  case (Inr rs)
  from compute_replacements_bounds [OF Inr]
  have "\<exists>out. apply_replacements (file_lines contents) rs = Some out"
    by (intro apply_replacements_Some) (auto split: prod.splits)
  with Inr show ?thesis by (auto simp: derive_new_text_def)
qed (simp add: derive_new_text_def)

lemma derive_new_contents_total: "\<exists>r. derive_new_contents_from_chunks ops s p chunks = Some r"
  using derive_new_text_total
  by (fastforce simp: derive_new_contents_from_chunks_def split: sum.splits)

lemma apply_hunk_total: "\<exists>st' r. apply_hunk ops home cwd h st = Some (st', r)"
proof (cases h)
  case (UpdateFile p mv chunks)
  obtain r where r: "derive_new_contents_from_chunks ops (fs st) (resolve_path home h cwd) chunks = Some r"
    using derive_new_contents_total [of ops "fs st" "resolve_path home h cwd" chunks] by (elim exE)
  then have "\<exists>x. apply_hunk ops home cwd h st = Some x"
    using UpdateFile by (cases r) (auto simp: apply_hunk_def apply_update_def Let_def split: option.splits)
  then show ?thesis by auto
qed (auto simp: apply_hunk_def Let_def)

lemma apply_hunks_loop_total: "\<exists>st' r. apply_hunks_loop ops home cwd hs st = Some (st', r)"
proof (induction hs arbitrary: st)
  case (Cons h hs)
  obtain st1 r where "apply_hunk ops home cwd h st = Some (st1, r)"
    using apply_hunk_total by blast
  with Cons.IH [of st1] show ?case by (cases r) auto
qed simp

lemma apply_hunks_to_files_total: "\<exists>st r. apply_hunks_to_files ops home cwd hs s = Some (st, r)"
  using apply_hunks_loop_total by (auto simp: apply_hunks_to_files_def)

end
