(* ===== verification/Patch_Delta.thy ===== *)
theory Patch_Delta
  imports Patch_Apply
begin

text \<open>
  What the committed delta of a patch means. \<open>view\<close> reads the text files of a file-system state;
  \<open>lawful_fs\<close> states what the engine relies on of the file system. While the delta is marked exact,
  replaying its entries on the old view gives the new view and undoing them in reverse order gives
  the old view back, also when the patch failed half way.
\<close>

section \<open>Replaying and undoing a delta\<close>

type_synonym view = "path_buf \<Rightarrow> str option"

fun replay_file :: "path_buf \<Rightarrow> AppliedPatchFileChange \<Rightarrow> view \<Rightarrow> view" where
  "replay_file p (AddChange c _) m = m(p \<mapsto> c)"
| "replay_file p (DeleteChange _) m = m(p := None)"
| "replay_file p (UpdateChange None _ _ new) m = m(p \<mapsto> new)"
| "replay_file p (UpdateChange (Some d) _ _ new) m = m(d \<mapsto> new, p := None)"

fun undo_file :: "path_buf \<Rightarrow> AppliedPatchFileChange \<Rightarrow> view \<Rightarrow> view" where
  "undo_file p (AddChange _ ow) m = m(p := ow)"
| "undo_file p (DeleteChange c) m = m(p \<mapsto> c)"
| "undo_file p (UpdateChange None old _ _) m = m(p \<mapsto> old)"
| "undo_file p (UpdateChange (Some d) old ow _) m = m(d := ow, p \<mapsto> old)"

definition replay :: "AppliedPatchChange \<Rightarrow> view \<Rightarrow> view" where
  "replay c = replay_file (change_path c) (change c)"

definition undo :: "AppliedPatchChange \<Rightarrow> view \<Rightarrow> view" where
  "undo c = undo_file (change_path c) (change c)"

section \<open>The file system laws\<close>

definition plain_path :: "'s fs_ops \<Rightarrow> 's \<Rightarrow> path_buf \<Rightarrow> bool" where
  "plain_path ops s p \<longleftrightarrow> note_existing_path_delta_support ops s p True"

text \<open>Reading agrees with the view; writing a path that is absent or a regular file sets exactly that
  path; a write that fails because a directory is missing changes nothing, and creating the parent
  directory changes no text file; removal removes exactly its path, and a failed removal either
  removed it or did nothing.\<close>

definition read_law :: "'s fs_ops \<Rightarrow> ('s \<Rightarrow> view) \<Rightarrow> bool" where
  "read_law ops view \<longleftrightarrow>
     (\<forall>s p c. read_file_text ops s p = Inr c
        \<longrightarrow> view s p = Some c)"

definition missing_law :: "'s fs_ops \<Rightarrow> ('s \<Rightarrow> view) \<Rightarrow> bool" where
  "missing_law ops view \<longleftrightarrow>
     (\<forall>s p e. read_file_text ops s p = Inl e \<and> kind e = NotFound
        \<longrightarrow> view s p = None)"

definition write_law :: "'s fs_ops \<Rightarrow> ('s \<Rightarrow> view) \<Rightarrow> bool" where
  "write_law ops view \<longleftrightarrow>
     (\<forall>s p c s'. plain_path ops s p \<and> write_file ops s p c = (s', Inr ())
        \<longrightarrow> view s' = (view s)(p \<mapsto> c))"

definition write_missing_law :: "'s fs_ops \<Rightarrow> ('s \<Rightarrow> view) \<Rightarrow> bool" where
  "write_missing_law ops view \<longleftrightarrow>
     (\<forall>s p c s' e. plain_path ops s p \<and> write_file ops s p c = (s', Inl e) \<and> kind e = NotFound
        \<longrightarrow> view s' = view s \<and> plain_path ops s' p)"

definition mkdir_law :: "'s fs_ops \<Rightarrow> ('s \<Rightarrow> view) \<Rightarrow> bool" where
  "mkdir_law ops view \<longleftrightarrow>
     (\<forall>s p d s' r. plain_path ops s p \<and> path_parent p = Some d \<and> create_directory ops s d True = (s', r)
        \<longrightarrow> view s' = view s \<and> plain_path ops s' p)"

definition remove_law :: "'s fs_ops \<Rightarrow> ('s \<Rightarrow> view) \<Rightarrow> bool" where
  "remove_law ops view \<longleftrightarrow>
     (\<forall>s p s'. remove_path ops s p False False = (s', Inr ())
        \<longrightarrow> view s' = (view s)(p := None))"

definition remove_failed_law :: "'s fs_ops \<Rightarrow> ('s \<Rightarrow> view) \<Rightarrow> bool" where
  "remove_failed_law ops view \<longleftrightarrow>
     (\<forall>s p s' e. remove_path ops s p False False = (s', Inl e)
        \<longrightarrow> view s' = view s \<or> view s' = (view s)(p := None))"

definition lawful_fs :: "'s fs_ops \<Rightarrow> ('s \<Rightarrow> view) \<Rightarrow> bool" where
  "lawful_fs ops view \<longleftrightarrow>
     read_law ops view \<and> missing_law ops view \<and> write_law ops view \<and> write_missing_law ops view \<and> mkdir_law ops view \<and> remove_law ops view \<and> remove_failed_law ops view"

lemmas law_defs = read_law_def missing_law_def write_law_def write_missing_law_def mkdir_law_def remove_law_def remove_failed_law_def

lemma lawful_read:
  "lawful_fs ops view \<Longrightarrow> read_file_text ops s p = Inr c
   \<Longrightarrow> view s p = Some c"
  unfolding lawful_fs_def read_law_def by simp

lemma lawful_missing:
  "lawful_fs ops view \<Longrightarrow> read_file_text ops s p = Inl e \<Longrightarrow> kind e = NotFound
   \<Longrightarrow> view s p = None"
  unfolding lawful_fs_def missing_law_def by simp

lemma lawful_write:
  "lawful_fs ops view \<Longrightarrow> plain_path ops s p \<Longrightarrow> write_file ops s p c = (s', Inr ())
   \<Longrightarrow> view s' = (view s)(p \<mapsto> c)"
  unfolding lawful_fs_def write_law_def by simp

lemma lawful_write_missing:
  "lawful_fs ops view \<Longrightarrow> plain_path ops s p \<Longrightarrow> write_file ops s p c = (s', Inl e) \<Longrightarrow> kind e = NotFound
   \<Longrightarrow> view s' = view s \<and> plain_path ops s' p"
  unfolding lawful_fs_def write_missing_law_def by metis

lemma lawful_mkdir:
  "lawful_fs ops view \<Longrightarrow> plain_path ops s p \<Longrightarrow> path_parent p = Some d \<Longrightarrow> create_directory ops s d True = (s', r)
   \<Longrightarrow> view s' = view s \<and> plain_path ops s' p"
  unfolding lawful_fs_def mkdir_law_def by metis

lemma lawful_remove:
  "lawful_fs ops view \<Longrightarrow> remove_path ops s p False False = (s', Inr ())
   \<Longrightarrow> view s' = (view s)(p := None)"
  unfolding lawful_fs_def remove_law_def by simp

lemma lawful_remove_failed:
  "lawful_fs ops view \<Longrightarrow> remove_path ops s p False False = (s', Inl e)
   \<Longrightarrow> view s' = view s \<or> view s' = (view s)(p := None)"
  unfolding lawful_fs_def remove_failed_law_def by simp

lemma note_existing_iff:
  "note_existing_path_delta_support ops s p ex \<longleftrightarrow> ex \<and> plain_path ops s p"
  by (auto simp: plain_path_def note_existing_path_delta_support_def split: sum.splits)

section \<open>Exact deltas\<close>

definition tracks :: "('s \<Rightarrow> view) \<Rightarrow> view \<Rightarrow> 's apply_state \<Rightarrow> bool" where
  "tracks view v0 st \<longleftrightarrow>
     (exact (delta st) \<longrightarrow>
        fold replay (changes (delta st)) v0 = view (fs st)
        \<and> foldr undo (changes (delta st)) (view (fs st)) = v0)"

lemma tracks_inexact [simp]: "tracks view v0 (set_exact False st)"
  by (simp add: tracks_def set_exact_def)

lemma tracks_affected [simp]: "tracks view v0 (st\<lparr>affected := a\<rparr>) = tracks view v0 st"
  by (simp add: tracks_def)

lemma tracks_weaken:
  "tracks view v0 st \<Longrightarrow> (ex \<Longrightarrow> exact (delta st)) \<Longrightarrow> tracks view v0 (set_exact ex st)"
  by (auto simp: tracks_def set_exact_def)

lemma exact_commit [simp]: "exact (delta (commit p c st)) = exact (delta st)"
  by (simp add: commit_def push_change_def)

lemma fs_commit [simp]: "fs (commit p c st) = fs st"
  by (simp add: commit_def)

lemma fs_set_exact [simp]: "fs (set_exact b st) = fs st"
  by (simp add: set_exact_def)

lemma exact_set_exact [simp]: "exact (delta (set_exact b st)) = b"
  by (simp add: set_exact_def)

lemma tracks_commit:
  assumes "tracks view v0 st"
    and "exact (delta st) \<Longrightarrow> replay_file p c (view (fs st)) = view s' \<and> undo_file p c (view s') = view (fs st)"
  shows "tracks view v0 (commit p c (st\<lparr>fs := s'\<rparr>))"
  using assms by (auto simp: tracks_def commit_def push_change_def replay_def undo_def)

lemma tracks_same_view:
  assumes "tracks view v0 st" and "exact (delta st) \<Longrightarrow> view s' = view (fs st)"
  shows "tracks view v0 (st\<lparr>fs := s'\<rparr>)"
  using assms by (auto simp: tracks_def)

lemma write_retry_view:
  assumes "lawful_fs ops view" and "plain_path ops s p"
    and "write_file_with_missing_parent_retry ops s p c = (s', Inr ())"
  shows "view s' = (view s)(p \<mapsto> c)"
proof (cases "write_file ops s p c")
  case (Pair s1 r)
  show ?thesis
  proof (cases r)
    case (Inr u)
    with Pair assms show ?thesis
      by (auto simp: write_file_with_missing_parent_retry_def Let_def dest: lawful_write)
  next
    case (Inl e)
    with Pair assms(3) have nf: "kind e = NotFound"
      by (auto simp: write_file_with_missing_parent_retry_def Let_def split: if_splits)
    from lawful_write_missing [OF assms(1,2) Pair [unfolded Inl] nf]
    have s1: "view s1 = view s" "plain_path ops s1 p" by simp_all
    from Pair Inl nf assms(3) obtain s2 where s2: "view s2 = view s1" "plain_path ops s2 p"
      "write_file ops s2 p c = (s', Inr ())"
      using lawful_mkdir [OF assms(1) s1(2)] s1(2)
      by (auto simp: write_file_with_missing_parent_retry_def Let_def with_context_def result_simps
               split: option.splits prod.splits sum.splits)
    with s1 lawful_write [OF assms(1) s2(2,3)] show ?thesis by simp
  qed
qed

lemma read_optional_view:
  assumes "lawful_fs ops view" and "read_optional_file_text_for_delta ops s p ex = (ex', ow)"
  shows "ex' \<Longrightarrow> ex \<and> plain_path ops s p \<and> view s p = ow"
  using assms
  by (auto simp: read_optional_file_text_for_delta_def Let_def note_existing_iff
           split: sum.splits if_splits dest: lawful_read lawful_missing)

lemma remove_checked_tracks:
  assumes laws: "lawful_fs ops view" and tr: "tracks view v0 st"
    and k: "\<And>s'. remove_path ops (fs st) p False False = (s', Inr ()) \<Longrightarrow> tracks view v0 (fst (k (st\<lparr>fs := s'\<rparr>)))"
  shows "tracks view v0 (fst (remove_checked ops st p msg expected k))"
proof (cases "with_context msg (ensure_not_directory ops (fs st) p)")
  case (Inl e)
  with tr show ?thesis by (simp add: remove_checked_def)
next
  case (Inr u)
  show ?thesis
  proof (cases "remove_path ops (fs st) p False False")
    case (Pair s' r)
    show ?thesis
    proof (cases r)
      case (Inr u')
      with Pair \<open>with_context _ _ = Inr u\<close> k [of s'] show ?thesis by (simp add: remove_checked_def)
    next
      case (Inl e)
      have same: "view s' = view (fs st)"
        if "remove_failure_was_side_effect_free ops s' p expected"
      proof -
        from that obtain c' where "view s' p = Some c'"
          by (auto simp: remove_failure_was_side_effect_free_def split: option.splits
                   dest: lawful_read [OF laws])
        with lawful_remove_failed [OF laws Pair [unfolded Inl]] show ?thesis by auto
      qed
      have "tracks view v0 (set_exact (exact (delta st) \<and> remove_failure_was_side_effect_free ops s' p expected)
              (st\<lparr>fs := s'\<rparr>))"
        using tr same by (auto simp: tracks_def set_exact_def)
      with Inl Pair \<open>with_context _ _ = Inr u\<close> show ?thesis by (simp add: remove_checked_def)
    qed
  qed
qed

lemma apply_add_tracks:
  assumes laws: "lawful_fs ops view" and tr: "tracks view v0 st"
  shows "tracks view v0 (fst (apply_add ops st aff p contents))"
proof (cases "read_optional_file_text_for_delta ops (fs st) p (exact (delta st))")
  case (Pair ex ow)
  note ro = read_optional_view [OF laws Pair]
  have st: "tracks view v0 (set_exact ex st)" using tr ro by (intro tracks_weaken) auto
  have "tracks view v0 (commit p (AddChange contents ow) ((set_exact ex st)\<lparr>fs := s'\<rparr>))"
    if "write_file_with_missing_parent_retry ops (fs st) p contents = (s', Inr ())" for s'
    using st ro write_retry_view [OF laws _ that] by (intro tracks_commit) auto
  with Pair show ?thesis
    by (auto simp: apply_add_def try_write_def Let_def split: prod.splits sum.splits)
qed

lemma apply_delete_tracks:
  assumes laws: "lawful_fs ops view" and tr: "tracks view v0 st"
  shows "tracks view v0 (fst (apply_delete ops st aff p))"
proof -
  let ?ex = "note_existing_path_delta_support ops (fs st) p (exact (delta st))"
  let ?content = "case read_file_text ops (fs st) p of Inr c \<Rightarrow> Some c | Inl _ \<Rightarrow> None"
  let ?st1 = "set_exact (if ?content = None then False else ?ex) st"
  have st1: "tracks view v0 ?st1"
    using tr by (intro tracks_weaken) (auto simp: note_existing_iff split: if_splits)
  have "tracks view v0 (case ?content of Some c \<Rightarrow> commit p (DeleteChange c) (?st1\<lparr>fs := s'\<rparr>) | None \<Rightarrow> ?st1\<lparr>fs := s'\<rparr>)"
    if "remove_path ops (fs st) p False False = (s', Inr ())" for s'
  proof (cases "read_file_text ops (fs st) p")
    case (Inl e)
    then show ?thesis by (simp add: tracks_def)
  next
    case (Inr c)
    with lawful_read [OF laws Inr] lawful_remove [OF laws that] st1
    have "tracks view v0 (commit p (DeleteChange c) (?st1\<lparr>fs := s'\<rparr>))"
      by (intro tracks_commit) auto
    with Inr show ?thesis by simp
  qed
  then show ?thesis
    unfolding apply_delete_def Let_def by (intro remove_checked_tracks [OF laws st1]) simp
qed

lemma set_change_commit:
  "set_change (length (changes (delta st))) p c ((commit q c' (st\<lparr>fs := s\<rparr>))\<lparr>fs := s'\<rparr>)
   = commit p c (st\<lparr>fs := s'\<rparr>)"
  by (simp add: set_change_def commit_def push_change_def)

lemma apply_move_tracks:
  assumes laws: "lawful_fs ops view" and tr: "tracks view v0 st"
    and old: "view (fs st) p = Some original"
  shows "tracks view v0 (fst (apply_move ops st aff p dest original new))"
proof (cases "read_optional_file_text_for_delta ops (fs st) dest (exact (delta st))")
  case (Pair ex ow)
  note ro = read_optional_view [OF laws Pair]
  let ?st = "set_exact ex st"
  have st: "tracks view v0 ?st" using tr ro by (intro tracks_weaken) auto
  have "tracks view v0 (fst (remove_checked ops (commit dest (AddChange new ow) (?st\<lparr>fs := s'\<rparr>)) p msg expected
           (\<lambda>st3. let st4 = set_change (length (changes (delta (?st\<lparr>fs := s'\<rparr>)))) p
                           (UpdateChange (Some dest) original ow new) st3
                  in (st4\<lparr>affected := mod_affected aff (affected st4)\<rparr>, Inr ()))))"
    if w: "write_file_with_missing_parent_retry ops (fs st) dest new = (s', Inr ())" for s' msg expected
  proof (rule remove_checked_tracks [OF laws])
    show "tracks view v0 (commit dest (AddChange new ow) (?st\<lparr>fs := s'\<rparr>))"
      using st ro write_retry_view [OF laws _ w] by (intro tracks_commit) auto
  next
    fix s'' assume "remove_path ops (fs (commit dest (AddChange new ow) (?st\<lparr>fs := s'\<rparr>))) p False False = (s'', Inr ())"
    then have rm: "view s'' = (view s')(p := None)" by (auto dest: lawful_remove [OF laws])
    have "tracks view v0 (commit p (UpdateChange (Some dest) original ow new) (?st\<lparr>fs := s''\<rparr>))"
    proof (rule tracks_commit [OF st])
      assume "exact (delta ?st)"
      with ro have d: "view (fs st) dest = ow" and v: "view s' = (view (fs st))(dest \<mapsto> new)"
        using write_retry_view [OF laws _ w] by auto
      show "replay_file p (UpdateChange (Some dest) original ow new) (view (fs ?st)) = view s''
            \<and> undo_file p (UpdateChange (Some dest) original ow new) (view s'') = view (fs ?st)"
        using d v rm old by (auto simp: fun_eq_iff)
    qed
    then show "tracks view v0 (fst (let st4 = set_change (length (changes (delta (?st\<lparr>fs := s'\<rparr>)))) p
                  (UpdateChange (Some dest) original ow new)
                  ((commit dest (AddChange new ow) (?st\<lparr>fs := s'\<rparr>))\<lparr>fs := s''\<rparr>)
              in (st4\<lparr>affected := mod_affected aff (affected st4)\<rparr>, Inr ())))"
      by (simp add: set_change_commit Let_def)
  qed
  with Pair show ?thesis
    by (auto simp: apply_move_def try_write_def Let_def split: prod.splits sum.splits)
qed

lemma derive_reads_original:
  "derive_new_contents_from_chunks ops s p chunks = Some (Inr (original, new)) \<Longrightarrow>
   read_file_text ops s p = Inr original"
  by (auto simp: derive_new_contents_from_chunks_def result_simps split: sum.splits)

lemma apply_update_tracks:
  assumes laws: "lawful_fs ops view" and tr: "tracks view v0 st"
    and run: "apply_update ops home cwd st aff p mv chunks = Some (st', r)"
  shows "tracks view v0 st'"
proof -
  let ?st1 = "set_exact (note_existing_path_delta_support ops (fs st) p (exact (delta st))) st"
  have st1: "tracks view v0 ?st1"
    using tr by (intro tracks_weaken) (auto simp: note_existing_iff)
  show ?thesis
  proof (cases "derive_new_contents_from_chunks ops (fs st) p chunks")
    case None
    with run show ?thesis by (simp add: apply_update_def Let_def)
  next
    case (Some d)
    show ?thesis
    proof (cases d)
      case (Inl e)
      with run Some st1 show ?thesis by (auto simp: apply_update_def Let_def)
    next
      case (Inr on)
      obtain original new where on: "on = (original, new)" by (cases on)
      from Some Inr on have old: "view (fs st) p = Some original"
        by (auto dest!: derive_reads_original intro: lawful_read [OF laws])
      have written: "tracks view v0 (commit p (UpdateChange None original None new) (?st1\<lparr>fs := s'\<rparr>))"
        if "write_file ops (fs st) p new = (s', Inr ())" for s'
        using st1 old lawful_write [OF laws _ that]
        by (intro tracks_commit) (auto simp: note_existing_iff)
      have move: "tracks view v0 st2" if "apply_move ops ?st1 aff p dest original new = (st2, r2)" for dest st2 r2
        using apply_move_tracks [OF laws st1, of p original aff dest new] old that by simp
      from run Some Inr on show ?thesis
        using written move
        by (auto simp: apply_update_def Let_def try_write_def with_context_def result_simps
                 split: option.splits prod.splits sum.splits)
    qed
  qed
qed

lemma apply_hunk_tracks:
  assumes "lawful_fs ops view" and "tracks view v0 st" and "apply_hunk ops home cwd h st = Some (st', r)"
  shows "tracks view v0 st'"
proof (cases h)
  case (AddFile p c)
  with assms(3) apply_add_tracks [OF assms(1,2), of "hunk_path h" "resolve_path home h cwd" c]
  show ?thesis by (simp add: apply_hunk_def Let_def)
next
  case (DeleteFile p)
  with assms(3) apply_delete_tracks [OF assms(1,2), of "hunk_path h" "resolve_path home h cwd"]
  show ?thesis by (simp add: apply_hunk_def Let_def)
next
  case (UpdateFile p mv cs)
  with assms(3) show ?thesis
    by (auto simp: apply_hunk_def Let_def intro: apply_update_tracks [OF assms(1,2)])
qed

lemma apply_hunks_loop_tracks:
  assumes "lawful_fs ops view" and "tracks view v0 st" and "apply_hunks_loop ops home cwd hs st = Some (st', r)"
  shows "tracks view v0 st'"
  using assms
proof (induction hs arbitrary: st)
  case (Cons h hs)
  obtain st1 r1 where h: "apply_hunk ops home cwd h st = Some (st1, r1)"
    using apply_hunk_total by blast
  with Cons.prems have "tracks view v0 st1" by (blast intro: apply_hunk_tracks)
  with Cons h show ?case by (cases r1) auto
qed simp

end
