(* ===== verification/Patch_Properties.thy ===== *)
theory Patch_Properties
  imports Patch_Roundtrip Patch_Delta
begin

text \<open>
  The properties of the patch engine, from parsing to the committed delta, with their witnesses.
\<close>

section \<open>Lemmas the properties rest on\<close>

lemma chunk_loop_lines:
  "chunk_loop ln c n ls = Inr (c', k) \<Longrightarrow> 0 < n \<longrightarrow> \<not> no_lines c \<Longrightarrow> 0 < k \<Longrightarrow> \<not> no_lines c'"
proof (induction ln c n ls rule: chunk_loop.induct)
  case (2 ln c n line rest)
  then show ?case by (cases line) (auto split: if_splits)
qed simp

lemma parse_update_file_chunk_lines:
  "parse_update_file_chunk ls ln allow = Inr (c, k) \<Longrightarrow> \<not> no_lines c"
proof -
  assume parse: "parse_update_file_chunk ls ln allow = Inr (c, k)"
  then obtain ctx s n where s: "s < length ls"
    and body: "chunk_loop ln (empty_chunk ctx) 0 (drop s ls) = Inr (c, n)"
    by (fastforce simp: parse_update_file_chunk_def result_simps split: list.splits if_splits option.splits)
  from chunk_loop_consumes [OF body] s have "0 < n" by auto
  with chunk_loop_lines [OF body] show ?thesis by simp
qed

lemma update_loop_lines:
  "update_loop ln n cs ls = Inr (cs', k) \<Longrightarrow> list_all (\<lambda>c. \<not> no_lines c) cs
   \<Longrightarrow> list_all (\<lambda>c. \<not> no_lines c) cs'"
proof (induction ln n cs ls rule: update_loop.induct)
  case (1 ln n cs ls)
  show ?case
  proof (cases ls)
    case Nil
    with 1 show ?thesis by (simp add: update_loop.simps)
  next
    case (Cons l rest)
    note unfold = update_loop.simps [of ln n cs "l # rest"]
    show ?thesis
      using "1.prems" "1.IH" [OF Cons] parse_update_file_chunk_lines [of ls "ln + n" "cs = []"]
      by (auto simp: Cons unfold split: if_splits sum.splits)
  qed
qed

lemma parse_one_hunk_complete: "parse_one_hunk ls ln = Inr (h, k) \<Longrightarrow> complete_hunk h"
  by (auto simp: parse_one_hunk_def Let_def result_simps
           split: option.splits prod.splits list.splits if_splits dest!: update_loop_lines)

lemma hunks_loop_complete:
  "hunks_loop hs ln ls = Inr hs' \<Longrightarrow> list_all complete_hunk hs \<Longrightarrow> list_all complete_hunk hs'"
proof (induction hs ln ls rule: hunks_loop.induct)
  case (1 hs ln ls)
  show ?case
  proof (cases "ls = []")
    case True
    with 1 show ?thesis by (simp add: hunks_loop.simps)
  next
    case False
    with "1.prems" obtain h k where h: "parse_one_hunk ls ln = Inr (h, k)"
      "hunks_loop (hs @ [h]) (ln + k) (drop k ls) = Inr hs'"
      by (auto simp: hunks_loop.simps [of hs ln ls] split: sum.splits)
    with "1.IH" [OF False h(1) refl h(2)] "1.prems" show ?thesis
      by (simp add: parse_one_hunk_complete)
  qed
qed

text \<open>A one-file patch used by the witnesses: replace the line \<^verbatim>\<open>old\<close> of \<^verbatim>\<open>a.txt\<close> by \<^verbatim>\<open>new\<close>.\<close>

definition sample_chunk :: UpdateFileChunk where
  "sample_chunk = \<lparr>change_context = None, old_lines = [lit ''old''], new_lines = [lit ''new''],
                   is_end_of_file = False\<rparr>"

definition sample_hunk :: Hunk where
  "sample_hunk = UpdateFile (lit ''a.txt'') None [sample_chunk]"

lemma sample_ok: "hunk_ok sample_hunk"
  by code_simp

section \<open>Parsing\<close>

text \<open>C1: what both parsers make of a printed patch. For every list of printable hunks the batch
  parser returns exactly these hunks, and the streaming parser, fed the same text in one delta,
  shows exactly these hunks and confirms them when it finishes.\<close>

theorem parsers_read_printed_patch:
  assumes "list_all hunk_ok hs"
  shows "parse_patch (render_patch hs)
           = Inr \<lparr>patch = render_patch hs, hunks = hs, workdir = None, environment_id = None\<rparr>
         \<and> (\<exists>p. push_delta default_parser (render_patch hs) = (p, Inr hs) \<and> snd (finish p) = Inr hs)"
  using batch_render [OF assms] stream_render [OF assms] by blast

theorem parsers_read_printed_patch_witness:
  "map_err (\<lambda>_. ()) (bind_result (parse_patch (render_patch [sample_hunk])) (\<lambda>a. Inr (hunks a)))
   = Inr [sample_hunk]"
  using parsers_read_printed_patch [of "[sample_hunk]"] sample_ok by simp

text \<open>The streaming parser does not depend on how the text is cut into deltas. Pushing two
  deltas one after the other leaves the same state and gives the same result as pushing their
  concatenation, and an error in the first stops there.\<close>

theorem push_delta_split:
  "push_delta p (a @ b) =
     (case push_delta p a of (p', Inl e) \<Rightarrow> (p', Inl e) | (p', Inr _) \<Rightarrow> push_delta p' b)"
  by (auto simp: push_delta_def push_chars_append split: prod.splits sum.splits)

text \<open>C2: in every state a client can bring the streaming parser into, a successful finish returns
  complete hunks only: no update without chunks and no chunk without lines.\<close>

theorem finish_returns_complete_hunks:
  assumes "stream_reachable p" and "finish p = (p', Inr hs)"
  shows "list_all complete_hunk hs"
proof -
  have inv: "stream_inv p'"
    using stream_inv_finish [OF stream_reachable_inv [OF assms(1)]] assms(2) by simp
  from assms(2) have "mode p' = EndedPatch" "hs = parsed p'"
    by (auto simp: finish_def split: prod.splits sum.splits if_splits)
  with inv show ?thesis
    by (cases "parsed p'" rule: rev_cases) (auto simp: stream_inv_def)
qed

theorem finish_returns_complete_hunks_witness:
  "list_all complete_hunk [sample_hunk]"
proof -
  let ?p = "fst (push_delta default_parser (render_patch [sample_hunk]))"
  have "stream_reachable ?p" by (intro stream_reachable.intros)
  moreover have "snd (finish ?p) = Inr [sample_hunk]"
    using stream_render [of "[sample_hunk]"] sample_ok by auto
  ultimately show ?thesis
    using finish_returns_complete_hunks [of ?p "fst (finish ?p)" "[sample_hunk]"]
    by (metis prod.collapse)
qed

text \<open>The batch parser only returns complete hunks.\<close>

theorem parse_patch_returns_complete_hunks:
  assumes "parse_patch t = Inr args"
  shows "list_all complete_hunk (hunks args)"
  using assms hunks_loop_complete [of "[]"]
  by (auto simp: parse_patch_def parse_patch_text_def result_simps)

theorem parse_patch_returns_complete_hunks_witness:
  "list_all complete_hunk [sample_hunk]"
  using parse_patch_returns_complete_hunks [OF batch_render [of "[sample_hunk]"]] sample_ok by simp

section \<open>Finding lines\<close>

text \<open>The first index at or after \<open>s\<close> where the pattern occurs up to \<open>norm\<close>.\<close>

definition first_at :: "(str \<Rightarrow> str) \<Rightarrow> str list \<Rightarrow> str list \<Rightarrow> nat \<Rightarrow> nat option" where
  "first_at norm flines pattern s =
     (if \<exists>i \<ge> s. occurs_at norm flines pattern i
      then Some (LEAST i. s \<le> i \<and> occurs_at norm flines pattern i) else None)"

lemma find_candidates_first_at:
  assumes "length pattern \<le> length flines"
    and "\<And>i. i + length pattern \<le> length flines \<Longrightarrow> ok i \<longleftrightarrow> occurs_at norm flines pattern i"
  shows "List.find ok (candidates flines pattern s) = first_at norm flines pattern s"
proof (cases "List.find ok (candidates flines pattern s)")
  case None
  with assms show ?thesis
    by (auto simp: find_None_iff in_candidates_iff first_at_def occurs_at_def)
next
  case (Some i)
  then have i: "s \<le> i" "i + length pattern \<le> length flines" "ok i"
    and least: "\<forall>j. s \<le> j \<and> j < i \<longrightarrow> \<not> ok j"
    using assms(1) by (auto simp: candidates_def find_upt_Some_iff simp del: upt_Suc)
  have "(LEAST j. s \<le> j \<and> occurs_at norm flines pattern j) = i"
  proof (rule Least_equality)
    show "s \<le> i \<and> occurs_at norm flines pattern i" using i assms(2) by blast
    show "i \<le> j" if "s \<le> j \<and> occurs_at norm flines pattern j" for j
      using that least assms(2) [of j] by (auto simp: occurs_at_def not_less [symmetric])
  qed
  with Some i assms(2) show ?thesis by (auto simp: first_at_def)
qed

text \<open>The matcher returns the first place of the strictest pass that matches anywhere at or after
  its search start: lines equal, else equal up to trailing whitespace, else up to surrounding
  whitespace, else up to the punctuation folding. With the end-of-file flag the search start is the
  only index at which the pattern can end the file.\<close>

theorem seek_sequence_strictest_pass_first:
  assumes "pattern \<noteq> []" and "length pattern \<le> length flines"
  shows "seek_sequence flines pattern start eof =
     (let s = (if eof then length flines - length pattern else start);
          pass = (\<lambda>norm. first_at norm flines pattern s)
      in case pass (\<lambda>l. l) of Some i \<Rightarrow> Some i | None \<Rightarrow>
        (case pass trim_end of Some i \<Rightarrow> Some i | None \<Rightarrow>
        (case pass trim of Some i \<Rightarrow> Some i | None \<Rightarrow> pass normalise)))"
proof -
  have passes: "List.find (lines_ok norm flines pattern) (candidates flines pattern s)
                = first_at norm flines pattern s" for norm s
    using assms(2) by (intro find_candidates_first_at) (simp_all add: lines_ok_iff_map occurs_at_def)
  have exact: "List.find (slice_ok flines pattern) (candidates flines pattern s)
               = first_at (\<lambda>l. l) flines pattern s" for s
    using assms(2) by (intro find_candidates_first_at) (auto simp: slice_ok_def occurs_at_def)
  show ?thesis
    unfolding seek_sequence_def Let_def passes exact using assms by (simp split: option.splits)
qed

theorem seek_sequence_strictest_pass_first_witness:
  "seek_sequence [lit ''a '', lit ''b'', lit ''a''] [lit ''a''] 0 False = Some 2
   \<and> first_at (\<lambda>l. l) [lit ''a '', lit ''b'', lit ''a''] [lit ''a''] 0 = Some 2"
proof -
  have run: "seek_sequence [lit ''a '', lit ''b'', lit ''a''] [lit ''a''] 0 False = Some 2"
    by code_simp
  have "List.find (slice_ok [lit ''a '', lit ''b'', lit ''a''] [lit ''a'']) (candidates [lit ''a '', lit ''b'', lit ''a''] [lit ''a''] 0)
        = Some 2" by code_simp
  then have "first_at (\<lambda>l. l) [lit ''a '', lit ''b'', lit ''a''] [lit ''a''] 0 = Some 2"
    by (subst (asm) find_candidates_first_at) (auto simp: slice_ok_def occurs_at_def)
  with run seek_sequence_strictest_pass_first
    [of "[lit ''a'']" "[lit ''a '', lit ''b'', lit ''a'']" 0 False]
  show ?thesis by simp
qed

text \<open>With the end-of-file flag there is no second search: a pattern that occurs in the file, even
  from the given start, is not found unless it ends the file. (The documentation of the function
  announces a fall-back to searching from the start index.)\<close>

theorem seek_sequence_eof_no_fallback:
  assumes "pattern \<noteq> []" and "seek_sequence flines pattern start True = Some i"
  shows "i = length flines - length pattern"
  using seek_sequence_cases [OF assms(2,1)] by simp

theorem seek_sequence_eof_no_fallback_witness:
  "seek_sequence [lit ''x'', lit ''y''] [lit ''y''] 0 True = Some 1
   \<and> seek_sequence [lit ''x'', lit ''y''] [lit ''x''] 0 True = None
   \<and> seek_sequence [lit ''x'', lit ''y''] [lit ''x''] 0 False = Some 0"
proof -
  have a: "seek_sequence [lit ''x'', lit ''y''] [lit ''y''] 0 True = Some 1" by code_simp
  have "(1::nat) = length [lit ''x'', lit ''y''] - length [lit ''y'']"
    using seek_sequence_eof_no_fallback [OF _ a] by simp
  moreover have "seek_sequence [lit ''x'', lit ''y''] [lit ''x''] 0 True = None" by code_simp
  moreover have "seek_sequence [lit ''x'', lit ''y''] [lit ''x''] 0 False = Some 0" by code_simp
  ultimately show ?thesis using a by simp
qed

section \<open>Rewriting files\<close>



text \<open>An update leaves the file empty or ending in a line break.\<close>

lemma derive_new_text_ends_with_newline:
  assumes "derive_new_text p contents chunks = Some (Inr new)"
  shows "new = [] \<or> last new = nl"
proof -
  from assms obtain out where new: "new = unlines out"
    by (auto simp: derive_new_text_def Let_def split: sum.splits)
  show ?thesis
  proof (cases "out = []")
    case True
    then show ?thesis by (simp add: new unlines_def last_is_empty_def)
  next
    case False
    with new unlines_terminated show ?thesis by auto
  qed
qed

text \<open>A blank line at the end of the file does not survive an update of another line: the file
  with it and the file without it get the same new contents.\<close>

theorem update_drops_trailing_blank_line:
  "derive_new_text p (lit ''old'' @ [nl, nl]) [sample_chunk] = Some (Inr (lit ''new'' @ [nl]))
   \<and> derive_new_text p (lit ''old'' @ [nl]) [sample_chunk] = Some (Inr (lit ''new'' @ [nl]))"
proof -
  have two: "file_lines (lit ''old'' @ [nl, nl]) = [lit ''old'', []]" by code_simp
  have one: "file_lines (lit ''old'' @ [nl]) = [lit ''old'']" by code_simp
  have seek: "seek_sequence [lit ''old'', []] [lit ''old''] 0 False = Some 0"
    "seek_sequence [lit ''old''] [lit ''old''] 0 False = Some 0" by code_simp+
  have "compute_replacements ls p [sample_chunk] = Inr [(0, 1, [lit ''new''])]"
    if "seek_sequence ls [lit ''old''] 0 False = Some 0" for ls
    using that
    by (simp add: compute_replacements_def chunk_replacement_def seek_context_def sample_chunk_def
                  locate_old_lines_def last_is_empty_def)
  moreover have "apply_replacements [lit ''old'', []] [(0, 1, [lit ''new''])] = Some [lit ''new'', []]"
    "apply_replacements [lit ''old''] [(0, 1, [lit ''new''])] = Some [lit ''new'']" by code_simp+
  moreover have "unlines [lit ''new'', []] = lit ''new'' @ [nl]" "unlines [lit ''new''] = lit ''new'' @ [nl]"
    by code_simp+
  ultimately show ?thesis using seek by (simp add: derive_new_text_def two one)
qed

section \<open>Changing the file system\<close>

text \<open>Applying hunks always returns. Whatever the file system answers, no step indexes or inserts
  past the end of a line vector (the model's \<open>None\<close>).\<close>

theorem apply_hunks_to_files_never_panics:
  "\<exists>st r. apply_hunks_to_files ops home cwd hs s = Some (st, r)"
  by (rule apply_hunks_to_files_total)

text \<open>An in-memory file system for the witnesses: one level of text files.\<close>

definition mem_fs :: "(path_buf \<Rightarrow> str option) fs_ops" where
  "mem_fs =
     \<lparr>read_file_text = (\<lambda>s p. case s p of Some c \<Rightarrow> Inr c | None \<Rightarrow> Inl \<lparr>kind = NotFound, message = []\<rparr>),
      write_file = (\<lambda>s p c. (s(p := Some c), Inr ())),
      create_directory = (\<lambda>s p r. (s, Inr ())),
      get_metadata = (\<lambda>s p. case s p of
          Some _ \<Rightarrow> Inr \<lparr>is_directory = False, is_regular = True, is_symlink = False\<rparr>
        | None \<Rightarrow> Inl \<lparr>kind = NotFound, message = []\<rparr>),
      remove_path = (\<lambda>s p r f. case s p of
          Some _ \<Rightarrow> (s(p := None), Inr ())
        | None \<Rightarrow> (s, Inl \<lparr>kind = NotFound, message = []\<rparr>))\<rparr>"

lemma mem_fs_lawful: "lawful_fs mem_fs (\<lambda>s. s)"
  by (auto simp: lawful_fs_def law_defs mem_fs_def plain_path_def note_existing_path_delta_support_def
           split: option.splits)

definition sample_path :: path_buf where
  "sample_path = [RootDir, Normal (lit ''a.txt'')]"

definition sample_fs :: "path_buf \<Rightarrow> str option" where
  "sample_fs = (\<lambda>p. if p = sample_path then Some (lit ''old'' @ [nl]) else None)"

text \<open>C4: while the delta is exact it is the whole truth about the text files. On a file system that
  keeps its contract, replaying the committed changes on the old files gives the new files and
  undoing them in reverse gives the old files back, whether the patch succeeded or stopped half
  way.\<close>

theorem exact_delta_replays_and_undoes:
  assumes "lawful_fs ops view" and "apply_hunks_to_files ops home cwd hs s = Some (st, r)"
    and "exact (delta st)"
  shows "fold replay (changes (delta st)) (view s) = view (fs st)
         \<and> foldr undo (changes (delta st)) (view (fs st)) = view s"
proof -
  have "tracks view (view s) (init_state s)"
    by (simp add: tracks_def init_state_def empty_delta_def)
  then have "tracks view (view s) st"
    using assms(2) apply_hunks_loop_tracks [OF assms(1)]
    by (auto simp: apply_hunks_to_files_def split: if_splits)
  with assms(3) show ?thesis by (simp add: tracks_def)
qed

definition sample_run where
  "sample_run = the (apply_hunks_to_files mem_fs None [RootDir] [sample_hunk] sample_fs)"

lemma sample_run_exact: "exact (delta (fst sample_run))"
  by code_simp

theorem exact_delta_replays_and_undoes_witness:
  "fold replay (changes (delta (fst sample_run))) sample_fs = fs (fst sample_run)
   \<and> foldr undo (changes (delta (fst sample_run))) (fs (fst sample_run)) = sample_fs"
proof -
  have "apply_hunks_to_files mem_fs None [RootDir] [sample_hunk] sample_fs
        = Some (fst sample_run, snd sample_run)"
    using apply_hunks_to_files_total [of mem_fs None "[RootDir]" "[sample_hunk]" sample_fs]
    by (auto simp: sample_run_def)
  from exact_delta_replays_and_undoes [OF mem_fs_lawful this sample_run_exact] show ?thesis .
qed

text \<open>An update that moves a file onto itself loses it: when the destination resolves to the
  path of the file, a successful application ends with the file removed.\<close>

theorem move_onto_itself_removes_file:
  assumes "lawful_fs ops view"
    and "apply_hunk ops home cwd (UpdateFile src (Some dst) chunks) st = Some (st', Inr ())"
    and "resolve_path_against_base home dst cwd = resolve_path_against_base home src cwd"
  shows "view (fs st') (resolve_path_against_base home src cwd) = None"
  using assms(2)
  by (auto simp: apply_hunk_def apply_update_def apply_move_def try_write_def remove_checked_def
                 set_change_def commit_def push_change_def set_exact_def Let_def
           split: option.splits sum.splits prod.splits dest!: lawful_remove [OF assms(1)])

definition self_move_run where
  "self_move_run = the (apply_hunk mem_fs None [RootDir]
     (UpdateFile (lit ''a.txt'') (Some (lit ''./a.txt'')) [sample_chunk]) (init_state sample_fs))"

theorem move_onto_itself_removes_file_witness:
  "sample_fs sample_path = Some (lit ''old'' @ [nl]) \<and> fs (fst self_move_run) sample_path = None"
proof -
  have p: "resolve_path_against_base None (lit ''a.txt'') [RootDir] = sample_path"
    "resolve_path_against_base None (lit ''./a.txt'') [RootDir] = sample_path" by code_simp+
  have "snd self_move_run = Inr ()" by code_simp
  then have "apply_hunk mem_fs None [RootDir]
     (UpdateFile (lit ''a.txt'') (Some (lit ''./a.txt'')) [sample_chunk]) (init_state sample_fs)
     = Some (fst self_move_run, Inr ())"
    using apply_hunk_total [of mem_fs None "[RootDir]"
      "UpdateFile (lit ''a.txt'') (Some (lit ''./a.txt'')) [sample_chunk]" "init_state sample_fs"]
    by (auto simp: self_move_run_def)
  from move_onto_itself_removes_file [OF mem_fs_lawful this] p show ?thesis
    by (simp add: sample_fs_def)
qed



section \<open>Paths\<close>

text \<open>C6: resolving any path text against an absolute base gives an absolute path without \<^verbatim>\<open>.\<close>, \<^verbatim>\<open>..\<close> or
  a second root, whatever the home directory is.\<close>

theorem resolve_path_is_absolute_and_normalized:
  assumes "path_is_absolute base"
  shows "absolute_normalized (resolve_path_against_base home p base)"
  unfolding resolve_path_against_base_def absolutize_from_def
  by (intro normalize_path_absolute path_with_base_absolute assms)

theorem resolve_path_is_absolute_and_normalized_witness:
  "absolute_normalized (resolve_path_against_base None (lit ''a/../../b'') [RootDir, Normal (lit ''w'')])"
  by (rule resolve_path_is_absolute_and_normalized) (simp add: path_is_absolute_def)

text \<open>A relative path without \<^verbatim>\<open>..\<close> components that is not a home path stays below the base it is
  resolved against.\<close>

theorem resolve_path_stays_below_base:
  assumes "absolute_normalized base" and "\<not> starts_with [tilde] p"
    and "\<not> path_is_absolute (components p)" and "ParentDir \<notin> set (components p)"
  shows "\<exists>rest. resolve_path_against_base home p base = base @ rest"
proof -
  have home: "maybe_expand_home_directory home p = components p"
    using assms(2) by (auto simp: maybe_expand_home_directory_def starts_with_def split: option.splits)
  have base: "base \<noteq> []" using assms(1) by (auto simp: absolute_normalized_def)
  have start: "foldl normalize_step [] base = base"
    using assms(1)
    by (auto simp: absolute_normalized_def foldl_normalize_normals split: list.splits component.splits)
  have "foldl normalize_step [] (base @ filter (\<lambda>c. c \<noteq> CurDir) (components p))
        = base @ filter (\<lambda>c. c \<noteq> CurDir) (filter (\<lambda>c. c \<noteq> CurDir) (components p))"
    unfolding foldl_append start
    using RootDir_not_in_relative [OF assms(3)] assms(4) by (intro foldl_normalize_below) auto
  with base assms(3) home show ?thesis
    by (auto simp: resolve_path_against_base_def absolutize_from_def path_with_base_def path_join_def
                   normalize_path_def)
qed

theorem resolve_path_stays_below_base_witness:
  "\<exists>rest. resolve_path_against_base None (lit ''./x/y'') [RootDir, Normal (lit ''w'')]
          = [RootDir, Normal (lit ''w'')] @ rest"
  by (rule resolve_path_stays_below_base) code_simp+

end
