(* ===== verification/Shell_Script.thy ===== *)
theory Shell_Script
  imports Absolute_Path
begin

text \<open>
  Reading shell scripts (\<^verbatim>\<open>shell-command/src/bash.rs\<close> and \<^verbatim>\<open>detect_shell_type\<close> of \<^verbatim>\<open>shell_detect.rs\<close>).
  The syntax tree comes from the tree-sitter bash grammar, which is a third-party parser: it is an
  argument \<open>parse\<close> of the definitions, from a script to the tree it produces. A node carries what the
  code reads of it: its kind, whether it is named, whether it contains a syntax error, where it
  starts, its source text (None when the bytes are not UTF-8) and its children. The walks keep an
  explicit stack as the code does; the stack is a list with its top first.
\<close>

section \<open>Syntax trees\<close>

datatype ts_node =
  TsNode (node_kind: str) (is_named: bool) (has_error: bool) (start_byte: nat)
    (node_text: "str option") (children: "ts_node list")

type_synonym shell_parser = "str \<Rightarrow> ts_node option"

definition named_children :: "ts_node \<Rightarrow> ts_node list" where
  "named_children n = filter is_named (children n)"

definition named_child0 :: "ts_node \<Rightarrow> ts_node option" where
  "named_child0 n = (case named_children n of [] \<Rightarrow> None | c # _ \<Rightarrow> Some c)"

fun node_size :: "ts_node \<Rightarrow> nat" where
  "node_size (TsNode _ _ _ _ _ cs) = Suc (sum_list (map node_size cs))"

definition stack_size :: "ts_node list \<Rightarrow> nat" where
  "stack_size st = sum_list (map node_size st)"

lemma node_size_children: "node_size n = Suc (stack_size (children n))"
  by (cases n) (simp add: stack_size_def)

lemma stack_size_simps [simp]:
  "stack_size [] = 0"
  "stack_size (n # st) = node_size n + stack_size st"
  "stack_size (st @ st') = stack_size st + stack_size st'"
  "stack_size (rev st) = stack_size st"
  by (simp_all add: stack_size_def rev_map [symmetric])

lemma stack_size_filter: "stack_size (filter P st) \<le> stack_size st"
  by (induction st) (auto simp: le_SucI)

lemma stack_size_push [simp]:
  "stack_size (children n) < node_size n" "stack_size (named_children n) < node_size n"
  using stack_size_filter [of is_named "children n"]
  by (simp_all add: node_size_children named_children_def)

text \<open>All nodes of a tree, and those reached through named nodes only.\<close>

fun all_nodes :: "ts_node \<Rightarrow> ts_node list" where
  "all_nodes (TsNode k nm e b t cs) = TsNode k nm e b t cs # concat (map all_nodes cs)"

section \<open>Which shell\<close>

datatype ShellType = Zsh | Bash | PowerShell | Sh | Cmd

definition file_stem_of :: "str \<Rightarrow> str" where
  "file_stem_of name =
     (if name = lit ''..'' then name
      else case rsplit_once (of_char CHR ''.'') name of
             None \<Rightarrow> name
           | Some (before, _) \<Rightarrow> if before = [] then name else before)"

definition path_file_stem :: "path_buf \<Rightarrow> str option" where
  "path_file_stem p = map_option file_stem_of (path_file_name p)"

lemma length_rsplit_once: "rsplit_once c s = Some (l, r) \<Longrightarrow> length l < length s"
  by (auto dest: rsplit_once_Some)

lemma length_file_stem_of: "length (file_stem_of s) \<le> length s"
  by (auto simp: file_stem_of_def split: option.splits dest: length_rsplit_once)

lemma length_split_on_piece: "l \<in> set (split_on c s) \<Longrightarrow> length l \<le> length s \<and> (length l = length s \<longrightarrow> l = s)"
proof (induction s arbitrary: l)
  case (Cons a s)
  then show ?case by (fastforce split: if_splits list.splits)
qed simp

lemma components_Normal: "Normal n \<in> set (components s) \<Longrightarrow> n \<in> set (split_on slash s)"
  by (auto simp: components_def Let_def component_of_def split: if_splits)

lemma path_file_stem_shorter:
  assumes "path_file_stem (components s) = Some stem" and "components stem \<noteq> components s"
  shows "length stem < length s"
proof -
  from assms(1) obtain name where name: "path_file_name (components s) = Some name"
    and stem: "stem = file_stem_of name" by (auto simp: path_file_stem_def)
  then have "Normal name \<in> set (components s)"
    by (auto simp: path_file_name_def split: if_splits component.splits intro: last_in_set)
      (metis last_in_set)
  from length_split_on_piece [OF components_Normal [OF this]]
  have le: "length name \<le> length s" "length name = length s \<Longrightarrow> name = s" by auto
  show ?thesis
  proof (rule ccontr)
    assume "\<not> length stem < length s"
    with le length_file_stem_of [of name] have eq: "name = s" "length (file_stem_of s) = length s"
      by (auto simp: stem)
    then have "file_stem_of s = s"
      by (auto simp: file_stem_of_def split: option.splits if_splits dest: length_rsplit_once)
    with eq assms(2) show False by (simp add: stem)
  qed
qed

function detect_shell_type :: "str \<Rightarrow> ShellType option" where
  "detect_shell_type shell_path =
     (if shell_path = lit ''zsh'' then Some Zsh
      else if shell_path = lit ''sh'' then Some Sh
      else if shell_path = lit ''cmd'' then Some Cmd
      else if shell_path = lit ''bash'' then Some Bash
      else if shell_path = lit ''pwsh'' then Some PowerShell
      else if shell_path = lit ''powershell'' then Some PowerShell
      else case path_file_stem (components shell_path) of
             None \<Rightarrow> None
           | Some shell_name \<Rightarrow>
               if components shell_name \<noteq> components shell_path then detect_shell_type shell_name
               else None)"
  by pat_completeness auto
termination
  by (relation "measure length") (auto simp: path_file_stem_shorter)

declare detect_shell_type.simps [simp del]

definition extract_bash_command :: "str list \<Rightarrow> (str \<times> str) option" where
  "extract_bash_command command =
     (case command of
        [shell, flag, script] \<Rightarrow>
          if \<not> (flag = lit ''-lc'' \<or> flag = lit ''-c'')
             \<or> detect_shell_type shell \<notin> {Some Zsh, Some Bash, Some Sh}
          then None
          else Some (shell, script)
      | _ \<Rightarrow> None)"

section \<open>Words of a command node\<close>

definition parse_double_quoted_string :: "ts_node \<Rightarrow> str option" where
  "parse_double_quoted_string n =
     (if node_kind n \<noteq> lit ''string'' then None
      else if \<exists>p \<in> set (named_children n). node_kind p \<noteq> lit ''string_content'' then None
      else Option.bind (node_text n) (\<lambda>raw.
           Option.bind (strip_prefix [dquote] raw) (strip_suffix [dquote])))"

definition parse_raw_string :: "ts_node \<Rightarrow> str option" where
  "parse_raw_string n =
     (if node_kind n \<noteq> lit ''raw_string'' then None
      else Option.bind (node_text n) (\<lambda>raw.
           Option.bind (strip_prefix [squote] raw) (strip_suffix [squote])))"

definition is_word_or_number :: "ts_node \<Rightarrow> bool" where
  "is_word_or_number n \<longleftrightarrow> node_kind n = lit ''word'' \<or> node_kind n = lit ''number''"

definition is_literal_word_or_number :: "ts_node \<Rightarrow> bool" where
  "is_literal_word_or_number n \<longleftrightarrow> is_word_or_number n \<and> named_children n = []"

text \<open>Loops that push a piece per child and give up when a piece is missing.\<close>

fun push_each :: "('a \<Rightarrow> 'b list option) \<Rightarrow> 'b list \<Rightarrow> 'a list \<Rightarrow> 'b list option" where
  "push_each f acc [] = Some acc"
| "push_each f acc (x # xs) = (case f x of None \<Rightarrow> None | Some p \<Rightarrow> push_each f (acc @ p) xs)"

definition plain_part :: "ts_node \<Rightarrow> str option" where
  "plain_part p =
     (if is_word_or_number p then node_text p
      else if node_kind p = lit ''string'' then parse_double_quoted_string p
      else if node_kind p = lit ''raw_string'' then parse_raw_string p
      else None)"

definition plain_word :: "ts_node \<Rightarrow> str list option" where
  "plain_word child =
     (if node_kind child = lit ''command_name'' then
        Option.bind (named_child0 child) (\<lambda>w.
          if node_kind w \<noteq> lit ''word'' then None else map_option (\<lambda>t. [t]) (node_text w))
      else if node_kind child = lit ''concatenation'' then
        Option.bind (push_each plain_part [] (named_children child)) (\<lambda>concatenated.
          if concatenated = [] then None else Some [concatenated])
      else map_option (\<lambda>t. [t]) (plain_part child))"

definition parse_plain_command_from_node :: "ts_node \<Rightarrow> str list option" where
  "parse_plain_command_from_node cmd =
     (if node_kind cmd \<noteq> lit ''command'' then None
      else push_each plain_word [] (named_children cmd))"

function parse_literal_shell_word :: "ts_node \<Rightarrow> str option"
  and parse_literal_parts :: "str \<Rightarrow> ts_node list \<Rightarrow> str option" where
  "parse_literal_shell_word n =
     (if is_word_or_number n \<and> is_literal_word_or_number n then node_text n
      else if node_kind n = lit ''string'' then parse_double_quoted_string n
      else if node_kind n = lit ''raw_string'' then parse_raw_string n
      else if node_kind n = lit ''concatenation'' then
        Option.bind (parse_literal_parts [] (named_children n)) (\<lambda>concatenated.
          if concatenated = [] then None else Some concatenated)
      else None)"
| "parse_literal_parts acc [] = Some acc"
| "parse_literal_parts acc (p # ps) =
     (case parse_literal_shell_word p of None \<Rightarrow> None | Some w \<Rightarrow> parse_literal_parts (acc @ w) ps)"
  by pat_completeness auto
termination
  by (relation "measure (\<lambda>x. case x of Inl n \<Rightarrow> 2 * node_size n | Inr (_, ps) \<Rightarrow> 2 * stack_size ps + 1)")
     (use stack_size_filter in \<open>auto simp: node_size_children named_children_def less_Suc_eq_le\<close>)

declare parse_literal_shell_word.simps [simp del]

fun literal_words :: "str list \<Rightarrow> bool \<Rightarrow> ts_node list \<Rightarrow> str list option" where
  "literal_words words found_command_name [] = (if found_command_name then Some words else None)"
| "literal_words words found_command_name (child # rest) =
     (if node_kind child = lit ''command_name'' then
        (case Option.bind (named_child0 child) parse_literal_shell_word of
           None \<Rightarrow> None
         | Some command_name \<Rightarrow> literal_words (words @ [command_name]) True rest)
      else if found_command_name then
        (case parse_literal_shell_word child of
           Some word \<Rightarrow> literal_words (words @ [word]) True rest
         | None \<Rightarrow> literal_words words True rest)
      else literal_words words found_command_name rest)"

definition parse_literal_command_from_node :: "ts_node \<Rightarrow> str list option" where
  "parse_literal_command_from_node cmd =
     (if node_kind cmd \<noteq> lit ''command'' then None
      else literal_words [] False (named_children cmd))"

definition is_allowed_heredoc_attachment_kind :: "str \<Rightarrow> bool" where
  "is_allowed_heredoc_attachment_kind k \<longleftrightarrow>
     k \<in> {lit ''heredoc_body'', lit ''simple_heredoc_body'', lit ''heredoc_redirect'',
          lit ''herestring_redirect'', lit ''redirected_statement''}"

definition heredoc_word :: "ts_node \<Rightarrow> str list option" where
  "heredoc_word child =
     (if node_kind child = lit ''command_name'' then
        Option.bind (named_child0 child) (\<lambda>w.
          if \<not> is_word_or_number w \<or> \<not> is_literal_word_or_number w then None
          else map_option (\<lambda>t. [t]) (node_text w))
      else if is_word_or_number child then
        (if \<not> is_literal_word_or_number child then None else map_option (\<lambda>t. [t]) (node_text child))
      else if node_kind child = lit ''comment'' then Some []
      else if is_allowed_heredoc_attachment_kind (node_kind child) then Some []
      else None)"

definition parse_heredoc_command_words :: "ts_node \<Rightarrow> str list option" where
  "parse_heredoc_command_words cmd =
     (if node_kind cmd \<noteq> lit ''command'' then None
      else Option.bind (push_each heredoc_word [] (named_children cmd)) (\<lambda>words.
           if words = [] then None else Some words))"

section \<open>Walking the tree\<close>

definition ALLOWED_KINDS :: "str list" where
  "ALLOWED_KINDS = map lit [''program'', ''list'', ''pipeline'', ''command'', ''command_name'', ''word'',
     ''string'', ''string_content'', ''raw_string'', ''number'', ''concatenation'']"

definition ALLOWED_PUNCT_TOKENS :: "str list" where
  "ALLOWED_PUNCT_TOKENS = [lit ''&&'', lit ''||'', lit '';'', lit ''|'', [dquote], [squote]]"

definition node_allowed :: "ts_node \<Rightarrow> bool" where
  "node_allowed n \<longleftrightarrow>
     (if is_named n then node_kind n \<in> set ALLOWED_KINDS
      else \<not> ((\<exists>c \<in> set (node_kind n). c \<in> set (lit ''&;|'')) \<and> node_kind n \<notin> set ALLOWED_PUNCT_TOKENS)
           \<and> (node_kind n \<in> set ALLOWED_PUNCT_TOKENS \<or> trim (node_kind n) = []))"

function collect_commands :: "ts_node list \<Rightarrow> ts_node list \<Rightarrow> ts_node list option" where
  "collect_commands command_nodes [] = Some command_nodes"
| "collect_commands command_nodes (n # stack) =
     (if \<not> node_allowed n then None
      else collect_commands
             (if is_named n \<and> node_kind n = lit ''command'' then command_nodes @ [n] else command_nodes)
             (rev (children n) @ stack))"
  by pat_completeness auto
termination
  by (relation "measure (\<lambda>(_, st). stack_size st)") (auto simp: node_size_children)

definition try_parse_word_only_commands_sequence :: "ts_node \<Rightarrow> str list list option" where
  "try_parse_word_only_commands_sequence root =
     (if has_error root then None
      else Option.bind (collect_commands [] [root]) (\<lambda>command_nodes.
           push_each (\<lambda>n. map_option (\<lambda>ws. [ws]) (parse_plain_command_from_node n)) []
             (sort_key start_byte command_nodes)))"

definition parse_shell_lc_plain_commands :: "shell_parser \<Rightarrow> str list \<Rightarrow> str list list option" where
  "parse_shell_lc_plain_commands parse command =
     Option.bind (extract_bash_command command) (\<lambda>(_, script).
     Option.bind (parse script) try_parse_word_only_commands_sequence)"

function collect_literal :: "str list list \<Rightarrow> ts_node list \<Rightarrow> str list list" where
  "collect_literal commands [] = commands"
| "collect_literal commands (n # stack) =
     collect_literal
       (if node_kind n = lit ''command''
        then (case parse_literal_command_from_node n of Some c \<Rightarrow> commands @ [c] | None \<Rightarrow> commands)
        else commands)
       (rev (named_children n) @ stack)"
  by pat_completeness auto
termination
  by (relation "measure (\<lambda>(_, st). stack_size st)") auto

definition parse_shell_lc_literal_commands :: "shell_parser \<Rightarrow> str list \<Rightarrow> str list list option" where
  "parse_shell_lc_literal_commands parse command =
     Option.bind (extract_bash_command command) (\<lambda>(_, script).
     Option.bind (parse script) (\<lambda>root.
       if has_error root then None else Some (collect_literal [] [root])))"

function find_single :: "ts_node option \<Rightarrow> ts_node list \<Rightarrow> ts_node option" where
  "find_single single_command [] = single_command"
| "find_single single_command (n # stack) =
     (if node_kind n = lit ''command'' \<and> single_command \<noteq> None then None
      else find_single (if node_kind n = lit ''command'' then Some n else single_command)
             (rev (named_children n) @ stack))"
  by pat_completeness auto
termination
  by (relation "measure (\<lambda>(_, st). stack_size st)") auto

definition find_single_command_node :: "ts_node \<Rightarrow> ts_node option" where
  "find_single_command_node root = find_single None [root]"

function has_kind :: "str \<Rightarrow> ts_node list \<Rightarrow> bool" where
  "has_kind k [] = False"
| "has_kind k (n # stack) =
     (if node_kind n = k then True else has_kind k (rev (named_children n) @ stack))"
  by pat_completeness auto
termination
  by (relation "measure (\<lambda>(_, st). stack_size st)") auto

definition has_named_descendant_kind :: "ts_node \<Rightarrow> str \<Rightarrow> bool" where
  "has_named_descendant_kind n k = has_kind k [n]"

definition parse_shell_lc_single_command_prefix :: "shell_parser \<Rightarrow> str list \<Rightarrow> str list option" where
  "parse_shell_lc_single_command_prefix parse command =
     Option.bind (extract_bash_command command) (\<lambda>(_, script).
     Option.bind (parse script) (\<lambda>root.
       if has_error root then None
       else if \<not> has_named_descendant_kind root (lit ''heredoc_redirect'') then None
       else if has_named_descendant_kind root (lit ''file_redirect'') then None
       else Option.bind (find_single_command_node root) parse_heredoc_command_words))"

end
