(* ===== verification/Patch_Invocation.thy ===== *)
theory Patch_Invocation
  imports Patch_Apply Shell_Script "HOL-Library.AList"
begin

text \<open>
  Recognising a call of \<^verbatim>\<open>apply_patch\<close> and verifying it before it is approved (\<^verbatim>\<open>apply-patch/src/invocation.rs\<close>):
  the direct form and the shell heredoc form, and the proposed change of every file. The Tree-sitter query over the
  script is an argument: for each match the captured names with their text, None where it is not UTF-8. So is the
  text of the unified diff, which the \<^verbatim>\<open>similar\<close> crate prints.
\<close>

section \<open>Recognising the call\<close>

definition APPLY_PATCH_COMMANDS :: "str list" where
  "APPLY_PATCH_COMMANDS = [lit ''apply_patch'', lit ''applypatch'']"

datatype ApplyPatchShell = Unix | PowerShell | Cmd

datatype ExtractHeredocError =
  CommandDidNotStartWithApplyPatch
| FailedToLoadBashGrammar
| HeredocNotUtf8
| FailedToParsePatchIntoAst
| FailedToFindHeredocBody

datatype MaybeApplyPatch =
  Body ApplyPatchArgs
| ShellParseError ExtractHeredocError
| PatchParseError ParseError
| NotApplyPatch

definition classify_shell_name :: "str \<Rightarrow> str option" where
  "classify_shell_name shell = map_option to_ascii_lowercase (path_file_stem (components shell))"

definition classify_shell :: "str \<Rightarrow> str \<Rightarrow> ApplyPatchShell option" where
  "classify_shell shell flag =
     Option.bind (classify_shell_name shell) (\<lambda>name.
       if name \<in> {lit ''bash'', lit ''zsh'', lit ''sh''} \<and> flag \<in> {lit ''-lc'', lit ''-c''} then Some Unix
       else if name \<in> {lit ''pwsh'', lit ''powershell''} \<and> to_ascii_lowercase flag = lit ''-command'' then Some PowerShell
       else if name = lit ''cmd'' \<and> to_ascii_lowercase flag = lit ''/c'' then Some Cmd
       else None)"

definition can_skip_flag :: "str \<Rightarrow> str \<Rightarrow> bool" where
  "can_skip_flag shell flag =
     (case classify_shell_name shell of
        Some name \<Rightarrow> name \<in> {lit ''pwsh'', lit ''powershell''} \<and> to_ascii_lowercase flag = lit ''-noprofile''
      | None \<Rightarrow> False)"

fun parse_shell_script :: "str list \<Rightarrow> (ApplyPatchShell \<times> str) option" where
  "parse_shell_script [shell, flag, script] = map_option (\<lambda>t. (t, script)) (classify_shell shell flag)"
| "parse_shell_script [shell, skip_flag, flag, script] =
     (if can_skip_flag shell skip_flag then map_option (\<lambda>t. (t, script)) (classify_shell shell flag) else None)"
| "parse_shell_script _ = None"

section \<open>The body of the heredoc\<close>

type_synonym captures = "(str \<times> str option) list"

text \<open>The query on a script: an error when the grammar cannot be loaded or the script cannot be parsed at all,
  the captures of each match otherwise.\<close>

type_synonym bash_query = "str \<Rightarrow> ExtractHeredocError + captures list"

fun scan_captures :: "captures \<Rightarrow> str option \<Rightarrow> str option \<Rightarrow> ExtractHeredocError + str option \<times> str option" where
  "scan_captures [] heredoc_text cd_path = Inr (heredoc_text, cd_path)"
| "scan_captures ((name, txt) # cs) heredoc_text cd_path =
     (if name = lit ''heredoc'' then
        (case txt of
           None \<Rightarrow> Inl HeredocNotUtf8
         | Some t \<Rightarrow> scan_captures cs (Some (trim_end_matches nl t)) cd_path)
      else if name = lit ''cd_path'' then
        (case txt of None \<Rightarrow> Inl HeredocNotUtf8 | Some t \<Rightarrow> scan_captures cs heredoc_text (Some t))
      else if name = lit ''cd_raw_string'' then
        (case txt of
           None \<Rightarrow> Inl HeredocNotUtf8
         | Some raw \<Rightarrow>
             let trimmed = (case Option.bind (strip_prefix [squote] raw) (strip_suffix [squote]) of
                              Some t \<Rightarrow> t
                            | None \<Rightarrow> raw)
             in scan_captures cs heredoc_text (Some trimmed))
      else scan_captures cs heredoc_text cd_path)"

fun first_heredoc :: "captures list \<Rightarrow> ExtractHeredocError + str \<times> str option" where
  "first_heredoc [] = Inl CommandDidNotStartWithApplyPatch"
| "first_heredoc (m # ms) =
     bind_result (scan_captures m None None)
       (\<lambda>(heredoc_text, cd_path).
          case heredoc_text of Some heredoc \<Rightarrow> Inr (heredoc, cd_path) | None \<Rightarrow> first_heredoc ms)"

definition extract_apply_patch_from_bash :: "bash_query \<Rightarrow> str \<Rightarrow> ExtractHeredocError + str \<times> str option" where
  "extract_apply_patch_from_bash query src = bind_result (query src) first_heredoc"

definition extract_apply_patch_from_shell ::
  "bash_query \<Rightarrow> ApplyPatchShell \<Rightarrow> str \<Rightarrow> ExtractHeredocError + str \<times> str option" where
  "extract_apply_patch_from_shell query shell script = extract_apply_patch_from_bash query script"

definition parse_shell_form :: "bash_query \<Rightarrow> str list \<Rightarrow> MaybeApplyPatch" where
  "parse_shell_form query argv =
     (case parse_shell_script argv of
        None \<Rightarrow> NotApplyPatch
      | Some (shell, script) \<Rightarrow>
          (case extract_apply_patch_from_shell query shell script of
             Inr (body, dir) \<Rightarrow>
               (case parse_patch body of
                  Inr source_args \<Rightarrow> Body (source_args\<lparr>workdir := dir\<rparr>)
                | Inl e \<Rightarrow> PatchParseError e)
           | Inl e \<Rightarrow> if e = CommandDidNotStartWithApplyPatch then NotApplyPatch else ShellParseError e))"

definition maybe_parse_apply_patch :: "bash_query \<Rightarrow> str list \<Rightarrow> MaybeApplyPatch" where
  "maybe_parse_apply_patch query argv =
     (case argv of
        [cmd, body] \<Rightarrow>
          if cmd \<in> set APPLY_PATCH_COMMANDS then
            (case parse_patch body of Inr source_args \<Rightarrow> Body source_args | Inl e \<Rightarrow> PatchParseError e)
          else parse_shell_form query argv
      | _ \<Rightarrow> parse_shell_form query argv)"

section \<open>Verifying the patch\<close>

datatype ApplyPatchFileChange =
  Add str
| Delete str
| Update str "path_buf option" str

text \<open>The changes are a hash map from paths: a later change of the same path replaces the earlier one.\<close>

record ApplyPatchAction =
  action_changes :: "(path_buf \<times> ApplyPatchFileChange) list"
  action_patch :: str
  action_cwd :: path_buf

definition is_empty :: "ApplyPatchAction \<Rightarrow> bool" where
  "is_empty action \<longleftrightarrow> action_changes action = []"

datatype MaybeApplyPatchVerified =
  VerifiedBody ApplyPatchAction
| VerifiedShellParseError ExtractHeredocError
| CorrectnessError ApplyPatchError
| VerifiedNotApplyPatch

text \<open>\<^verbatim>\<open>unified_diff_from_chunks\<close>: the diff with one line of context and the new contents.\<close>

definition unified_diff_from_chunks ::
  "(nat \<Rightarrow> str \<Rightarrow> str \<Rightarrow> str) \<Rightarrow> 's fs_ops \<Rightarrow> 's \<Rightarrow> path_buf \<Rightarrow> UpdateFileChunk list
   \<Rightarrow> (ApplyPatchError + str \<times> str) option" where
  "unified_diff_from_chunks text_diff ops s p chunks =
     map_option (\<lambda>r. bind_result r (\<lambda>(original, new_contents). Inr (text_diff 1 original new_contents, new_contents)))
       (derive_new_contents_from_chunks ops s p chunks)"

fun verify_hunk ::
  "(nat \<Rightarrow> str \<Rightarrow> str \<Rightarrow> str) \<Rightarrow> 's fs_ops \<Rightarrow> 's \<Rightarrow> path_buf option \<Rightarrow> path_buf \<Rightarrow> Hunk
   \<Rightarrow> (ApplyPatchError + ApplyPatchFileChange) option" where
  "verify_hunk text_diff ops s home cwd (AddFile p contents) = Some (Inr (Add contents))"
| "verify_hunk text_diff ops s home cwd (DeleteFile p) =
     (let q = resolve_path home (DeleteFile p) cwd
      in Some (case read_file_text ops s q of
             Inr content \<Rightarrow> Inr (Delete content)
           | Inl e \<Rightarrow> Inl (IoErr \<lparr>context_msg = lit ''Failed to read '' @ path_display q, source = e\<rparr>)))"
| "verify_hunk text_diff ops s home cwd (UpdateFile p move_path chunks) =
     map_option (\<lambda>r. bind_result r (\<lambda>(diff, new_contents).
         Inr (Update diff (map_option (\<lambda>m. resolve_path_against_base home m cwd) move_path) new_contents)))
       (unified_diff_from_chunks text_diff ops s (resolve_path home (UpdateFile p move_path chunks) cwd) chunks)"

fun verify_hunks ::
  "(nat \<Rightarrow> str \<Rightarrow> str \<Rightarrow> str) \<Rightarrow> 's fs_ops \<Rightarrow> 's \<Rightarrow> path_buf option \<Rightarrow> path_buf \<Rightarrow> Hunk list
   \<Rightarrow> (path_buf \<times> ApplyPatchFileChange) list \<Rightarrow> (ApplyPatchError + (path_buf \<times> ApplyPatchFileChange) list) option" where
  "verify_hunks text_diff ops s home cwd [] chs = Some (Inr chs)"
| "verify_hunks text_diff ops s home cwd (h # hs) chs =
     (case verify_hunk text_diff ops s home cwd h of
        None \<Rightarrow> None
      | Some (Inl e) \<Rightarrow> Some (Inl e)
      | Some (Inr c) \<Rightarrow> verify_hunks text_diff ops s home cwd hs (AList.update (resolve_path home h cwd) c chs))"

definition verify_apply_patch_args ::
  "(nat \<Rightarrow> str \<Rightarrow> str \<Rightarrow> str) \<Rightarrow> 's fs_ops \<Rightarrow> 's \<Rightarrow> path_buf option \<Rightarrow> ApplyPatchArgs \<Rightarrow> path_buf
   \<Rightarrow> MaybeApplyPatchVerified option" where
  "verify_apply_patch_args text_diff ops s home args cwd =
     (let effective_cwd = (case workdir args of Some dir \<Rightarrow> resolve_path_against_base home dir cwd | None \<Rightarrow> cwd)
      in map_option (\<lambda>r. case r of
              Inl e \<Rightarrow> CorrectnessError e
            | Inr chs \<Rightarrow> VerifiedBody \<lparr>action_changes = chs, action_patch = patch args, action_cwd = effective_cwd\<rparr>)
           (verify_hunks text_diff ops s home effective_cwd (hunks args) []))"

definition parses :: "str \<Rightarrow> bool" where
  "parses body \<longleftrightarrow> (case parse_patch body of Inr _ \<Rightarrow> True | Inl _ \<Rightarrow> False)"

definition maybe_parse_apply_patch_verified ::
  "bash_query \<Rightarrow> (nat \<Rightarrow> str \<Rightarrow> str \<Rightarrow> str) \<Rightarrow> 's fs_ops \<Rightarrow> 's \<Rightarrow> path_buf option \<Rightarrow> str list \<Rightarrow> path_buf
   \<Rightarrow> MaybeApplyPatchVerified option" where
  "maybe_parse_apply_patch_verified query text_diff ops s home argv cwd =
     (if (case argv of [body] \<Rightarrow> parses body | _ \<Rightarrow> False) then Some (CorrectnessError ImplicitInvocation)
      else if (case parse_shell_script argv of Some (_, script) \<Rightarrow> parses script | None \<Rightarrow> False)
      then Some (CorrectnessError ImplicitInvocation)
      else case maybe_parse_apply_patch query argv of
          Body args \<Rightarrow> verify_apply_patch_args text_diff ops s home args cwd
        | ShellParseError e \<Rightarrow> Some (VerifiedShellParseError e)
        | PatchParseError e \<Rightarrow> Some (CorrectnessError (ParseErr e))
        | NotApplyPatch \<Rightarrow> Some VerifiedNotApplyPatch)"

end
