(* ===== verification/Exec_Policy_Rule.thy ===== *)
theory Exec_Policy_Rule
  imports Absolute_Path
begin

text \<open>
  The rules of the execution policy (\<^verbatim>\<open>execpolicy/src/decision.rs\<close>, \<^verbatim>\<open>rule.rs\<close>, \<^verbatim>\<open>error.rs\<close> and
  \<^verbatim>\<open>executable_name.rs\<close>, on Unix): decisions and their order, prefix patterns, rule matches, network
  rules and the normalisation of their hosts.
\<close>

section \<open>Decisions\<close>

datatype Decision = Allow | Prompt | Forbidden

text \<open>The derived \<^verbatim>\<open>Ord\<close> orders the variants as they are declared: a later variant is stricter.\<close>

fun decision_rank :: "Decision \<Rightarrow> nat" where
  "decision_rank Allow = 0"
| "decision_rank Prompt = 1"
| "decision_rank Forbidden = 2"

lemma decision_rank_inject: "decision_rank a = decision_rank b \<longleftrightarrow> a = b"
  by (cases a; cases b) simp_all

instantiation Decision :: linorder
begin

definition less_eq_Decision :: "Decision \<Rightarrow> Decision \<Rightarrow> bool" where
  "less_eq_Decision a b \<longleftrightarrow> decision_rank a \<le> decision_rank b"

definition less_Decision :: "Decision \<Rightarrow> Decision \<Rightarrow> bool" where
  "less_Decision a b \<longleftrightarrow> decision_rank a < decision_rank b"

instance
  by standard (auto simp: less_eq_Decision_def less_Decision_def decision_rank_inject)

end

lemma Decision_le_simps [simp]:
  "Allow \<le> d" "d \<le> Forbidden" "d \<le> Allow \<longleftrightarrow> d = Allow" "Forbidden \<le> d \<longleftrightarrow> d = Forbidden"
  by (cases d; simp add: less_eq_Decision_def)+

section \<open>Errors\<close>

record TextPosition =
  tp_line :: nat
  tp_column :: nat

record TextRange =
  range_start :: TextPosition
  range_end :: TextPosition

record ErrorLocation =
  loc_path :: str
  loc_range :: TextRange

text \<open>\<open>'e\<close> is the error type of the \<^verbatim>\<open>starlark\<close> crate.\<close>

datatype 'e policy_error =
  InvalidDecision str
| InvalidPattern str
| InvalidExample str
| InvalidRule str
| ExampleDidNotMatch "str list" "str list" "ErrorLocation option"
| ExampleDidMatch str str "ErrorLocation option"
| Starlark 'e

fun with_location :: "'e policy_error \<Rightarrow> ErrorLocation \<Rightarrow> 'e policy_error" where
  "with_location (ExampleDidNotMatch rules examples None) l = ExampleDidNotMatch rules examples (Some l)"
| "with_location (ExampleDidMatch rule example None) l = ExampleDidMatch rule example (Some l)"
| "with_location e l = e"

definition decision_parse :: "str \<Rightarrow> 'e policy_error + Decision" where
  "decision_parse raw =
     (if raw = lit ''allow'' then Inr Allow
      else if raw = lit ''prompt'' then Inr Prompt
      else if raw = lit ''forbidden'' then Inr Forbidden
      else Inl (InvalidDecision raw))"

section \<open>Prefix patterns\<close>

datatype PatternToken = Single str | Alts "str list"

fun token_matches :: "PatternToken \<Rightarrow> str \<Rightarrow> bool" where
  "token_matches (Single expected) tok \<longleftrightarrow> expected = tok"
| "token_matches (Alts alternatives) tok \<longleftrightarrow> (\<exists>alt \<in> set alternatives. alt = tok)"

fun token_alternatives :: "PatternToken \<Rightarrow> str list" where
  "token_alternatives (Single expected) = [expected]"
| "token_alternatives (Alts alternatives) = alternatives"

record PrefixPattern =
  pattern_first :: str
  pattern_rest :: "PatternToken list"

definition matches_prefix :: "PrefixPattern \<Rightarrow> str list \<Rightarrow> str list option" where
  "matches_prefix pat cmd =
     (let pattern_length = length (pattern_rest pat) + 1
      in if length cmd < pattern_length \<or> hd cmd \<noteq> pattern_first pat then None
         else if \<exists>(t, c) \<in> set (zip (pattern_rest pat) (take (pattern_length - 1) (tl cmd))).
                   \<not> token_matches t c
         then None
         else Some (take pattern_length cmd))"

section \<open>Rules and their matches\<close>

datatype RuleMatch =
  PrefixRuleMatch "str list" Decision "path_buf option" "str option"
| HeuristicsRuleMatch "str list" Decision

fun match_decision :: "RuleMatch \<Rightarrow> Decision" where
  "match_decision (PrefixRuleMatch _ d _ _) = d"
| "match_decision (HeuristicsRuleMatch _ d) = d"

fun with_resolved_program :: "RuleMatch \<Rightarrow> path_buf \<Rightarrow> RuleMatch" where
  "with_resolved_program (PrefixRuleMatch pre d _ j) program = PrefixRuleMatch pre d (Some program) j"
| "with_resolved_program other program = other"

record PrefixRule =
  rule_pattern :: PrefixPattern
  rule_decision :: Decision
  rule_justification :: "str option"

definition rule_program :: "PrefixRule \<Rightarrow> str" where
  "rule_program r = pattern_first (rule_pattern r)"

definition rule_matches :: "PrefixRule \<Rightarrow> str list \<Rightarrow> RuleMatch option" where
  "rule_matches r cmd =
     map_option (\<lambda>pre. PrefixRuleMatch pre (rule_decision r) None (rule_justification r))
       (matches_prefix (rule_pattern r) cmd)"

section \<open>Network rules\<close>

datatype NetworkRuleProtocol = Http | Https | Socks5Tcp | Socks5Udp

definition protocol_parse :: "str \<Rightarrow> 'e policy_error + NetworkRuleProtocol" where
  "protocol_parse raw =
     (if raw = lit ''http'' then Inr Http
      else if raw = lit ''https'' \<or> raw = lit ''https_connect'' \<or> raw = lit ''http-connect'' then Inr Https
      else if raw = lit ''socks5_tcp'' then Inr Socks5Tcp
      else if raw = lit ''socks5_udp'' then Inr Socks5Udp
      else Inl (InvalidRule
        (lit ''network_rule protocol must be one of http, https, socks5_tcp, socks5_udp (got ''
         @ raw @ lit '')'')))"

fun as_policy_string :: "NetworkRuleProtocol \<Rightarrow> str" where
  "as_policy_string Http = lit ''http''"
| "as_policy_string Https = lit ''https''"
| "as_policy_string Socks5Tcp = lit ''socks5_tcp''"
| "as_policy_string Socks5Udp = lit ''socks5_udp''"

record NetworkRule =
  net_host :: str
  net_protocol :: NetworkRuleProtocol
  net_decision :: Decision
  net_justification :: "str option"

abbreviation colon :: nat where "colon \<equiv> 58"
abbreviation dot :: nat where "dot \<equiv> 46"

definition all_digits :: "str \<Rightarrow> bool" where
  "all_digits p \<longleftrightarrow> p \<noteq> [] \<and> list_all is_ascii_digit p"

text \<open>The host text with its brackets or its port taken off.\<close>

definition host_without_port :: "str \<Rightarrow> str \<Rightarrow> 'e policy_error + str" where
  "host_without_port raw host =
     (case strip_prefix (lit ''['') host of
        Some stripped \<Rightarrow>
          (case split_once (of_char CHR '']'') stripped of
             None \<Rightarrow> Inl (InvalidRule (lit ''network_rule host has an invalid bracketed IPv6 literal''))
           | Some (inside, rest) \<Rightarrow>
               (let port_ok = (case strip_prefix [colon] rest of Some port \<Rightarrow> all_digits port | None \<Rightarrow> False)
                in if rest \<noteq> [] \<and> \<not> port_ok
                   then Inl (InvalidRule (lit ''network_rule host contains an unsupported suffix: '' @ raw))
                   else Inr inside))
      | None \<Rightarrow>
          (if count_list host colon = 1 then
             (case rsplit_once colon host of
                Some (candidate, port) \<Rightarrow>
                  if candidate \<noteq> [] \<and> all_digits port then Inr candidate else Inr host
              | None \<Rightarrow> Inr host)
           else Inr host))"

definition empty_host_msg :: str where
  "empty_host_msg = lit ''network_rule host cannot be empty''"

definition normalize_network_rule_host :: "str \<Rightarrow> 'e policy_error + str" where
  "normalize_network_rule_host raw =
     (let host = trim raw
      in if host = [] then Inl (InvalidRule empty_host_msg)
         else if contains_str (lit ''://'') host \<or> slash \<in> set host
                 \<or> of_char CHR ''?'' \<in> set host \<or> of_char CHR ''#'' \<in> set host
         then Inl (InvalidRule
                (lit ''network_rule host must be a hostname or IP literal (without scheme or path)''))
         else bind_result (host_without_port raw host) (\<lambda>h.
           let normalized = to_ascii_lowercase (trim (trim_end_matches dot h))
           in if normalized = [] then Inl (InvalidRule empty_host_msg)
              else if star_sign \<in> set normalized
              then Inl (InvalidRule
                     (lit ''network_rule host must be a specific host; wildcards are not allowed''))
              else if \<exists>c \<in> set normalized. is_whitespace c
              then Inl (InvalidRule (lit ''network_rule host cannot contain whitespace''))
              else Inr normalized))"

section \<open>Executable names\<close>

definition executable_lookup_key :: "str \<Rightarrow> str" where
  "executable_lookup_key raw = raw"

definition executable_path_lookup_key :: "path_buf \<Rightarrow> str option" where
  "executable_path_lookup_key p = map_option executable_lookup_key (path_file_name p)"

end
