(* ===== verification/Exec_Policy.thy ===== *)
theory Exec_Policy
  imports Exec_Policy_Rule "HOL-Library.List_Lexorder"
begin

text \<open>
  The execution policy (\<^verbatim>\<open>execpolicy/src/policy.rs\<close>): the rules by program, the network rules and the
  host executables, how a command is matched against them and how the matches become one decision.

  The \<^verbatim>\<open>MultiMap\<close> comes from a third-party crate, so its operations are an argument \<open>mm\<close> of every
  definition that uses them and \<open>multimap_laws\<close> states what its documentation promises. The
  \<^verbatim>\<open>HashMap\<close> of host executables is a HOL map. \<open>home\<close> and \<open>cwd\<close> are the home directory and the current
  directory of the process, which resolving a program name consults.
\<close>

section \<open>The multimap\<close>

record ('m, 'v) multimap_ops =
  mm_new :: 'm
  mm_insert :: "str \<Rightarrow> 'v \<Rightarrow> 'm \<Rightarrow> 'm"
  mm_get_vec :: "'m \<Rightarrow> str \<Rightarrow> 'v list option"
  mm_iter_all :: "'m \<Rightarrow> (str \<times> 'v list) list"

text \<open>\<^verbatim>\<open>insert\<close> appends to the values of a key; \<^verbatim>\<open>get_vec\<close> returns all of them in that order;
  \<^verbatim>\<open>iter_all\<close> visits each key once, in an order that is not specified.\<close>

definition multimap_laws :: "('m, 'v) multimap_ops \<Rightarrow> bool" where
  "multimap_laws mm \<longleftrightarrow>
     (\<forall>k. mm_get_vec mm (mm_new mm) k = None)
     \<and> (\<forall>m k v j. mm_get_vec mm (mm_insert mm k v m) j =
          (if j = k then Some ((case mm_get_vec mm m k of Some vs \<Rightarrow> vs | None \<Rightarrow> []) @ [v])
           else mm_get_vec mm m j))
     \<and> (\<forall>m. distinct (map fst (mm_iter_all mm m)))
     \<and> (\<forall>m k vs. (k, vs) \<in> set (mm_iter_all mm m) \<longleftrightarrow> mm_get_vec mm m k = Some vs)"

definition mm_values :: "('m, 'v) multimap_ops \<Rightarrow> 'm \<Rightarrow> str \<Rightarrow> 'v list" where
  "mm_values mm m k = (case mm_get_vec mm m k of Some vs \<Rightarrow> vs | None \<Rightarrow> [])"

section \<open>The policy\<close>

record MatchOptions =
  resolve_host_executables :: bool

definition default_match_options :: MatchOptions where
  "default_match_options = \<lparr>resolve_host_executables = False\<rparr>"

record 'm Policy =
  rules_by_program :: 'm
  network_rules :: "NetworkRule list"
  host_executables_by_name :: "str \<rightharpoonup> path_buf list"

definition policy_from_parts ::
  "'m \<Rightarrow> NetworkRule list \<Rightarrow> (str \<rightharpoonup> path_buf list) \<Rightarrow> 'm Policy" where
  "policy_from_parts rules net hosts =
     \<lparr>rules_by_program = rules, network_rules = net, host_executables_by_name = hosts\<rparr>"

definition policy_new :: "'m \<Rightarrow> 'm Policy" where
  "policy_new rules = policy_from_parts rules [] Map.empty"

definition policy_empty :: "('m, PrefixRule) multimap_ops \<Rightarrow> 'm Policy" where
  "policy_empty mm = policy_new (mm_new mm)"

fun render_pattern_token :: "PatternToken \<Rightarrow> str" where
  "render_pattern_token (Single v) = v"
| "render_pattern_token (Alts alternatives) = lit ''['' @ join_with (lit ''|'') alternatives @ lit '']''"

definition allowed_prefix :: "PrefixRule \<Rightarrow> str list option" where
  "allowed_prefix r =
     (if rule_decision r \<noteq> Allow then None
      else Some (pattern_first (rule_pattern r)
                 # map render_pattern_token (pattern_rest (rule_pattern r))))"

definition get_allowed_prefixes :: "('m, PrefixRule) multimap_ops \<Rightarrow> 'm Policy \<Rightarrow> str list list" where
  "get_allowed_prefixes mm pol =
     remdups_adj (sort
       (concat (map (\<lambda>(_, rules). List.map_filter allowed_prefix rules)
                  (mm_iter_all mm (rules_by_program pol)))))"

definition add_prefix_rule ::
  "('m, PrefixRule) multimap_ops \<Rightarrow> 'm Policy \<Rightarrow> str list \<Rightarrow> Decision \<Rightarrow> 'e policy_error + 'm Policy" where
  "add_prefix_rule mm pol pre d =
     (case pre of
        [] \<Rightarrow> Inl (InvalidPattern (lit ''prefix cannot be empty''))
      | first_token # remaining \<Rightarrow>
          Inr (pol\<lparr>rules_by_program :=
            mm_insert mm first_token
              \<lparr>rule_pattern = \<lparr>pattern_first = first_token, pattern_rest = map Single remaining\<rparr>,
               rule_decision = d, rule_justification = None\<rparr>
              (rules_by_program pol)\<rparr>))"

definition blank_justification :: "str option \<Rightarrow> bool" where
  "blank_justification j \<longleftrightarrow> (case j of Some raw \<Rightarrow> trim raw = [] | None \<Rightarrow> False)"

definition justification_msg :: str where
  "justification_msg = lit ''justification cannot be empty''"

definition add_network_rule ::
  "'m Policy \<Rightarrow> str \<Rightarrow> NetworkRuleProtocol \<Rightarrow> Decision \<Rightarrow> str option \<Rightarrow> 'e policy_error + 'm Policy" where
  "add_network_rule pol host protocol d j =
     bind_result (normalize_network_rule_host host) (\<lambda>h.
       if blank_justification j then Inl (InvalidRule justification_msg)
       else Inr (pol\<lparr>network_rules := network_rules pol
              @ [\<lparr>net_host = h, net_protocol = protocol, net_decision = d, net_justification = j\<rparr>]\<rparr>))"

definition set_host_executable_paths :: "'m Policy \<Rightarrow> str \<Rightarrow> path_buf list \<Rightarrow> 'm Policy" where
  "set_host_executable_paths pol name paths =
     pol\<lparr>host_executables_by_name := (host_executables_by_name pol)(name \<mapsto> paths)\<rparr>"

definition insert_rules ::
  "('m, PrefixRule) multimap_ops \<Rightarrow> str \<times> PrefixRule list \<Rightarrow> 'm \<Rightarrow> 'm" where
  "insert_rules mm = (\<lambda>(program, rules) m. fold (mm_insert mm program) rules m)"

definition merge_overlay :: "('m, PrefixRule) multimap_ops \<Rightarrow> 'm Policy \<Rightarrow> 'm Policy \<Rightarrow> 'm Policy" where
  "merge_overlay mm pol overlay =
     policy_from_parts
       (fold (insert_rules mm) (mm_iter_all mm (rules_by_program overlay)) (rules_by_program pol))
       (network_rules pol @ network_rules overlay)
       (host_executables_by_name pol ++ host_executables_by_name overlay)"

section \<open>Network domains\<close>

definition upsert_domain :: "str list \<Rightarrow> str \<Rightarrow> str list" where
  "upsert_domain entries host = filter (\<lambda>entry. entry \<noteq> host) entries @ [host]"

fun compile_domain :: "NetworkRule \<Rightarrow> str list \<times> str list \<Rightarrow> str list \<times> str list" where
  "compile_domain r (allowed, denied) =
     (case net_decision r of
        Allow \<Rightarrow> (upsert_domain allowed (net_host r), filter (\<lambda>entry. entry \<noteq> net_host r) denied)
      | Forbidden \<Rightarrow> (filter (\<lambda>entry. entry \<noteq> net_host r) allowed, upsert_domain denied (net_host r))
      | Prompt \<Rightarrow> (allowed, denied))"

definition compiled_network_domains :: "'m Policy \<Rightarrow> str list \<times> str list" where
  "compiled_network_domains pol = fold compile_domain (network_rules pol) ([], [])"

section \<open>Matching a command\<close>

definition match_exact_rules ::
  "('m, PrefixRule) multimap_ops \<Rightarrow> 'm Policy \<Rightarrow> str list \<Rightarrow> RuleMatch list option" where
  "match_exact_rules mm pol cmd =
     (case cmd of
        [] \<Rightarrow> None
      | first # _ \<Rightarrow>
          Some (case mm_get_vec mm (rules_by_program pol) first of
              Some rules \<Rightarrow> List.map_filter (\<lambda>r. rule_matches r cmd) rules
            | None \<Rightarrow> []))"

definition match_host_executable_rules ::
  "('m, PrefixRule) multimap_ops \<Rightarrow> path_buf option \<Rightarrow> path_buf option \<Rightarrow> 'm Policy \<Rightarrow> str list
   \<Rightarrow> RuleMatch list" where
  "match_host_executable_rules mm home cwd pol cmd =
     (case cmd of
        [] \<Rightarrow> []
      | first # args \<Rightarrow>
          (case from_absolute_path home cwd first of
             None \<Rightarrow> []
           | Some program \<Rightarrow>
               (case executable_path_lookup_key program of
                  None \<Rightarrow> []
                | Some basename \<Rightarrow>
                    (case mm_get_vec mm (rules_by_program pol) basename of
                       None \<Rightarrow> []
                     | Some rules \<Rightarrow>
                         if (case host_executables_by_name pol basename of
                               Some paths \<Rightarrow> program \<notin> set paths
                             | None \<Rightarrow> False)
                         then []
                         else map (\<lambda>m. with_resolved_program m program)
                                (List.map_filter (\<lambda>r. rule_matches r (basename # args)) rules)))))"

definition matches_for_command_with_options ::
  "('m, PrefixRule) multimap_ops \<Rightarrow> path_buf option \<Rightarrow> path_buf option \<Rightarrow> 'm Policy \<Rightarrow> str list
   \<Rightarrow> (str list \<Rightarrow> Decision) option \<Rightarrow> MatchOptions \<Rightarrow> RuleMatch list" where
  "matches_for_command_with_options mm home cwd pol cmd heuristics_fallback options =
     (let exact = (case match_exact_rules mm pol cmd of Some ms \<Rightarrow> ms | None \<Rightarrow> []);
          matched_rules =
            (if exact \<noteq> [] then exact
             else if resolve_host_executables options
             then match_host_executable_rules mm home cwd pol cmd
             else [])
      in case heuristics_fallback of
           Some h \<Rightarrow> if matched_rules = [] then [HeuristicsRuleMatch cmd (h cmd)] else matched_rules
         | None \<Rightarrow> matched_rules)"

definition matches_for_command ::
  "('m, PrefixRule) multimap_ops \<Rightarrow> path_buf option \<Rightarrow> path_buf option \<Rightarrow> 'm Policy \<Rightarrow> str list
   \<Rightarrow> (str list \<Rightarrow> Decision) option \<Rightarrow> RuleMatch list" where
  "matches_for_command mm home cwd pol cmd h =
     matches_for_command_with_options mm home cwd pol cmd h default_match_options"

section \<open>Evaluation\<close>

record Evaluation =
  eval_decision :: Decision
  eval_matched_rules :: "RuleMatch list"

fun is_heuristics :: "RuleMatch \<Rightarrow> bool" where
  "is_heuristics (HeuristicsRuleMatch _ _) = True"
| "is_heuristics (PrefixRuleMatch _ _ _ _) = False"

definition is_match :: "Evaluation \<Rightarrow> bool" where
  "is_match e \<longleftrightarrow> (\<exists>m \<in> set (eval_matched_rules e). \<not> is_heuristics m)"

text \<open>\<^verbatim>\<open>from_matches\<close> panics on an empty list; the model returns None there.\<close>

definition from_matches :: "RuleMatch list \<Rightarrow> Evaluation option" where
  "from_matches matched_rules =
     (case map match_decision matched_rules of
        [] \<Rightarrow> None
      | d # ds \<Rightarrow> Some \<lparr>eval_decision = fold max ds d, eval_matched_rules = matched_rules\<rparr>)"

definition check_with_options ::
  "('m, PrefixRule) multimap_ops \<Rightarrow> path_buf option \<Rightarrow> path_buf option \<Rightarrow> 'm Policy \<Rightarrow> str list
   \<Rightarrow> (str list \<Rightarrow> Decision) \<Rightarrow> MatchOptions \<Rightarrow> Evaluation option" where
  "check_with_options mm home cwd pol cmd heuristics_fallback options =
     from_matches (matches_for_command_with_options mm home cwd pol cmd (Some heuristics_fallback) options)"

definition check ::
  "('m, PrefixRule) multimap_ops \<Rightarrow> path_buf option \<Rightarrow> path_buf option \<Rightarrow> 'm Policy \<Rightarrow> str list
   \<Rightarrow> (str list \<Rightarrow> Decision) \<Rightarrow> Evaluation option" where
  "check mm home cwd pol cmd h =
     from_matches (matches_for_command_with_options mm home cwd pol cmd (Some h) default_match_options)"

definition check_multiple_with_options ::
  "('m, PrefixRule) multimap_ops \<Rightarrow> path_buf option \<Rightarrow> path_buf option \<Rightarrow> 'm Policy \<Rightarrow> str list list
   \<Rightarrow> (str list \<Rightarrow> Decision) \<Rightarrow> MatchOptions \<Rightarrow> Evaluation option" where
  "check_multiple_with_options mm home cwd pol commands h options =
     from_matches (concat (map (\<lambda>cmd.
       matches_for_command_with_options mm home cwd pol cmd (Some h) options) commands))"

definition check_multiple ::
  "('m, PrefixRule) multimap_ops \<Rightarrow> path_buf option \<Rightarrow> path_buf option \<Rightarrow> 'm Policy \<Rightarrow> str list list
   \<Rightarrow> (str list \<Rightarrow> Decision) \<Rightarrow> Evaluation option" where
  "check_multiple mm home cwd pol commands h =
     check_multiple_with_options mm home cwd pol commands h default_match_options"

section \<open>The interface of a rule\<close>

lemma set_map_filter [simp]: "set (List.map_filter f xs) = {y. \<exists>x \<in> set xs. f x = Some y}"
  by (induction xs) (auto split: option.splits)

lemma map_filter_append [simp]:
  "List.map_filter f (xs @ ys) = List.map_filter f xs @ List.map_filter f ys"
  by (simp add: List.map_filter_def)

lemma map_filter_Nil_iff: "List.map_filter f xs = [] \<longleftrightarrow> (\<forall>x \<in> set xs. f x = None)"
  by (induction xs) (auto split: option.splits)

text \<open>What the policy relies on when it stores \<^verbatim>\<open>Rule\<close> values by their program and filters them by
  \<^verbatim>\<open>matches\<close>: a rule only matches commands of its program, and arguments added at the end of a
  command keep its match.\<close>

locale rule_trait =
  fixes program :: "'r \<Rightarrow> str"
    and matches :: "'r \<Rightarrow> str list \<Rightarrow> RuleMatch option"
  assumes match_keyed: "matches r cmd = Some m \<Longrightarrow> cmd \<noteq> [] \<and> program r = hd cmd"
    and match_extends: "matches r cmd = Some m \<Longrightarrow> matches r (cmd @ args) = Some m"
begin

lemma matched_with_args:
  "set (List.map_filter (\<lambda>r. matches r cmd) rules)
   \<subseteq> set (List.map_filter (\<lambda>r. matches r (cmd @ args)) rules)"
  by (auto dest: match_extends [of _ _ _ args])

text \<open>Looking rules up by the first word of a command loses none of them.\<close>

lemma matched_by_program:
  assumes "\<And>k r. r \<in> set (index k) \<Longrightarrow> program r = k"
  shows "(\<Union>k. set (List.map_filter (\<lambda>r. matches r cmd) (index k)))
         = (case cmd of [] \<Rightarrow> {} | first # _ \<Rightarrow> set (List.map_filter (\<lambda>r. matches r cmd) (index first)))"
proof (cases cmd)
  case Nil
  then show ?thesis by (auto dest: match_keyed)
next
  case (Cons first args)
  have "k = first" if "r \<in> set (index k)" "matches r cmd = Some m" for k r m
    using match_keyed [OF that(2)] assms [OF that(1)] Cons by simp
  with Cons show ?thesis by auto
qed

end

lemma all_zip_list_all2:
  "length xs \<le> length ys \<Longrightarrow>
   (\<forall>(x, y) \<in> set (zip xs (take (length xs) ys)). P x y) \<longleftrightarrow> list_all2 P xs (take (length xs) ys)"
  by (auto simp: list_all2_iff)

lemma matches_prefix_Some_iff:
  "matches_prefix pat cmd = Some pre \<longleftrightarrow>
     (\<exists>args more_args. cmd = (pattern_first pat # args) @ more_args \<and> pre = pattern_first pat # args
        \<and> list_all2 token_matches (pattern_rest pat) args)"
proof (cases cmd)
  case (Cons c cs)
  have "matches_prefix pat cmd = Some pre \<longleftrightarrow>
      length (pattern_rest pat) \<le> length cs \<and> c = pattern_first pat
      \<and> list_all2 token_matches (pattern_rest pat) (take (length (pattern_rest pat)) cs)
      \<and> pre = c # take (length (pattern_rest pat)) cs"
    using all_zip_list_all2 [of "pattern_rest pat" cs token_matches]
    by (auto simp: matches_prefix_def Let_def Cons)
  also have "\<dots> \<longleftrightarrow> (\<exists>args more_args. cmd = (pattern_first pat # args) @ more_args
        \<and> pre = pattern_first pat # args \<and> list_all2 token_matches (pattern_rest pat) args)"
    by (auto simp: Cons, metis append_take_drop_id, simp_all add: list_all2_lengthD)
  finally show ?thesis .
qed (simp add: matches_prefix_def Let_def)

lemma rule_matches_Some_iff:
  "rule_matches r cmd = Some m \<longleftrightarrow>
     (\<exists>pre. matches_prefix (rule_pattern r) cmd = Some pre
        \<and> m = PrefixRuleMatch pre (rule_decision r) None (rule_justification r))"
  by (auto simp: rule_matches_def)

interpretation prefix_rule: rule_trait rule_program rule_matches
  by unfold_locales
     (auto simp: rule_matches_Some_iff matches_prefix_Some_iff rule_program_def)

section \<open>Facts about the multimap\<close>

lemma multimap_lawsD:
  assumes "multimap_laws mm"
  shows "mm_get_vec mm (mm_new mm) k = None"
    and "mm_get_vec mm (mm_insert mm k v m) j =
           (if j = k then Some (mm_values mm m k @ [v]) else mm_get_vec mm m j)"
    and "distinct (map fst (mm_iter_all mm m))"
    and "(k, vs) \<in> set (mm_iter_all mm m) \<longleftrightarrow> mm_get_vec mm m k = Some vs"
  using assms by (auto simp: multimap_laws_def mm_values_def)

lemma mm_values_insert:
  "multimap_laws mm \<Longrightarrow>
   mm_values mm (mm_insert mm k v m) j = (if j = k then mm_values mm m k @ [v] else mm_values mm m j)"
  by (simp add: mm_values_def multimap_lawsD)

lemma mm_values_new: "multimap_laws mm \<Longrightarrow> mm_values mm (mm_new mm) k = []"
  by (simp add: mm_values_def multimap_lawsD)

lemma mm_values_insert_rules:
  assumes "multimap_laws mm"
  shows "mm_values mm (insert_rules mm (k, vs) m) j = mm_values mm m j @ (if j = k then vs else [])"
proof -
  have "mm_values mm (fold (mm_insert mm k) vs m) j = mm_values mm m j @ (if j = k then vs else [])"
    by (induction vs arbitrary: m) (auto simp: mm_values_insert [OF assms])
  then show ?thesis by (simp add: insert_rules_def)
qed

lemma mm_values_merge:
  assumes "multimap_laws mm"
  shows "mm_values mm (fold (insert_rules mm) (mm_iter_all mm m') m) j = mm_values mm m j @ mm_values mm m' j"
proof -
  have fold: "mm_values mm (fold (insert_rules mm) kvs m) j
              = mm_values mm m j @ concat (map (\<lambda>(k, vs). if j = k then vs else []) kvs)" for kvs
  proof (induction kvs arbitrary: m)
    case (Cons kv kvs)
    then show ?case by (cases kv) (simp add: mm_values_insert_rules [OF assms])
  qed simp
  have pick: "concat (map (\<lambda>(k, vs). if j = k then vs else []) kvs)
              = (case map_of kvs j of Some vs \<Rightarrow> vs | None \<Rightarrow> [])" if "distinct (map fst kvs)"
    for kvs :: "(str \<times> 'b list) list"
    using that
  proof (induction kvs)
    case (Cons kv kvs)
    then show ?case
      by (cases kv) (auto split: option.splits dest: map_of_SomeD image_eqI [where f = fst, rotated])
  qed simp
  have "map_of (mm_iter_all mm m') j = mm_get_vec mm m' j"
    using multimap_lawsD(3,4) [OF assms]
    by (cases "mm_get_vec mm m' j") (force simp: map_of_eq_None_iff, simp)
  then show ?thesis
    using fold pick [OF multimap_lawsD(3) [OF assms]] by (simp add: mm_values_def)
qed

section \<open>Facts about matching\<close>

definition exact_matches ::
  "('m, PrefixRule) multimap_ops \<Rightarrow> 'm Policy \<Rightarrow> str list \<Rightarrow> RuleMatch list" where
  "exact_matches mm pol cmd =
     (case cmd of
        [] \<Rightarrow> []
      | first # _ \<Rightarrow>
          List.map_filter (\<lambda>r. rule_matches r cmd) (mm_values mm (rules_by_program pol) first))"

lemma match_exact_rules_exact:
  "(case match_exact_rules mm pol cmd of Some ms \<Rightarrow> ms | None \<Rightarrow> []) = exact_matches mm pol cmd"
  by (simp add: match_exact_rules_def exact_matches_def mm_values_def split: list.splits option.splits)

lemma matches_with_exact:
  "exact_matches mm pol cmd \<noteq> [] \<Longrightarrow>
   matches_for_command_with_options mm home cwd pol cmd h options = exact_matches mm pol cmd"
  by (simp add: matches_for_command_with_options_def match_exact_rules_exact Let_def split: option.splits)

lemma matches_nonempty:
  "matches_for_command_with_options mm home cwd pol cmd (Some h) options \<noteq> []"
  by (simp add: matches_for_command_with_options_def Let_def)

lemma matches_default:
  "matches_for_command_with_options mm home cwd pol cmd (Some h) default_match_options =
     (if exact_matches mm pol cmd = [] then [HeuristicsRuleMatch cmd (h cmd)]
      else exact_matches mm pol cmd)"
  by (simp add: matches_for_command_with_options_def match_exact_rules_exact default_match_options_def)

lemma exact_matches_not_heuristics: "m \<in> set (exact_matches mm pol cmd) \<Longrightarrow> \<not> is_heuristics m"
  by (auto simp: exact_matches_def rule_matches_Some_iff split: list.splits)

lemma fold_max_Max: "fold max ds d = Max (set (d # ds))" for d :: "'a :: linorder"
proof (induction ds arbitrary: d)
  case (Cons a ds)
  then show ?case by (cases "ds = []") (auto simp: Max_insert ac_simps)
qed simp

lemma from_matches_Max:
  "ms \<noteq> [] \<Longrightarrow> from_matches ms =
     Some \<lparr>eval_decision = Max (match_decision ` set ms), eval_matched_rules = ms\<rparr>"
  by (cases ms) (simp_all add: from_matches_def fold_max_Max)

lemma from_matches_mono:
  assumes "set ms \<subseteq> set ms'" and "from_matches ms = Some e" and "from_matches ms' = Some e'"
  shows "eval_decision e \<le> eval_decision e'"
proof -
  have "ms \<noteq> []" "ms' \<noteq> []" using assms(2,3) by (auto simp: from_matches_def)
  with assms show ?thesis
    using Max_mono [of "match_decision ` set ms" "match_decision ` set ms'"]
    by (auto simp: from_matches_Max image_mono)
qed

lemmas policy_eval_defs = check_def check_with_options_def check_multiple_def check_multiple_with_options_def

end
