(* ===== verification/Exec_Policy_Amend.thy ===== *)
theory Exec_Policy_Amend
  imports Exec_Policy
begin

text \<open>
  Changing a policy file: appending a rule the user approved (\<^verbatim>\<open>execpolicy/src/amend.rs\<close>) and the
  one-shot migration that drops banned rules (\<^verbatim>\<open>execpolicy/src/sandbox_migration.rs\<close>). The file
  system calls and the JSON encoder are arguments.
\<close>

section \<open>Appending a rule\<close>

datatype 'j AmendError =
  EmptyPrefix
| InvalidNetworkRule str
| MissingParent path_buf
| CreatePolicyDir path_buf io_error
| SerializePrefix 'j
| SerializeNetworkRule 'j
| OpenPolicyFile path_buf io_error
| WritePolicyFile path_buf io_error
| LockPolicyFile path_buf io_error
| SeekPolicyFile path_buf io_error
| ReadPolicyFile path_buf io_error
| PolicyMetadata path_buf io_error

text \<open>The calls on the policy file: \<^verbatim>\<open>open\<close> creates it when missing and positions every write at its
  end.\<close>

record 's amend_fs =
  af_create_dir :: "'s \<Rightarrow> path_buf \<Rightarrow> 's \<times> (io_error + unit)"
  af_open :: "'s \<Rightarrow> path_buf \<Rightarrow> 's \<times> (io_error + unit)"
  af_lock :: "'s \<Rightarrow> path_buf \<Rightarrow> 's \<times> (io_error + unit)"
  af_seek_start :: "'s \<Rightarrow> path_buf \<Rightarrow> 's \<times> (io_error + unit)"
  af_read_to_string :: "'s \<Rightarrow> path_buf \<Rightarrow> 's \<times> (io_error + str)"
  af_write_all :: "'s \<Rightarrow> path_buf \<Rightarrow> str \<Rightarrow> 's \<times> (io_error + unit)"

text \<open>One call after another: the error of a call ends the operation.\<close>

definition then_do ::
  "'s \<times> (io_error + 'a) \<Rightarrow> (io_error \<Rightarrow> 'e) \<Rightarrow> ('s \<Rightarrow> 'a \<Rightarrow> 's \<times> ('e + 'b)) \<Rightarrow> 's \<times> ('e + 'b)" where
  "then_do r err k = (case r of (s, Inl e) \<Rightarrow> (s, Inl (err e)) | (s, Inr x) \<Rightarrow> k s x)"

definition append_locked_line ::
  "'s amend_fs \<Rightarrow> path_buf \<Rightarrow> str \<Rightarrow> 's \<Rightarrow> 's \<times> ('j AmendError + unit)" where
  "append_locked_line fsys policy_path line s =
     then_do (af_open fsys s policy_path) (OpenPolicyFile policy_path) (\<lambda>s1 _.
     then_do (af_lock fsys s1 policy_path) (LockPolicyFile policy_path) (\<lambda>s2 _.
     then_do (af_seek_start fsys s2 policy_path) (SeekPolicyFile policy_path) (\<lambda>s3 _.
     then_do (af_read_to_string fsys s3 policy_path) (ReadPolicyFile policy_path) (\<lambda>s4 contents.
       if line \<in> set (str_lines contents) then (s4, Inr ())
       else then_do
              (if contents \<noteq> [] \<and> \<not> ends_with [nl] contents then af_write_all fsys s4 policy_path [nl]
               else (s4, Inr ()))
              (WritePolicyFile policy_path) (\<lambda>s5 _.
            then_do (af_write_all fsys s5 policy_path (line @ [nl]))
              (WritePolicyFile policy_path) (\<lambda>s6 _. (s6, Inr ())))))))"

definition append_rule_line ::
  "'s amend_fs \<Rightarrow> path_buf \<Rightarrow> str \<Rightarrow> 's \<Rightarrow> 's \<times> ('j AmendError + unit)" where
  "append_rule_line fsys policy_path rule s =
     (case path_parent policy_path of
        None \<Rightarrow> (s, Inl (MissingParent policy_path))
      | Some dir \<Rightarrow>
          (case af_create_dir fsys s dir of
             (s1, Inr _) \<Rightarrow> append_locked_line fsys policy_path rule s1
           | (s1, Inl e) \<Rightarrow>
               if kind e = AlreadyExists then append_locked_line fsys policy_path rule s1
               else (s1, Inl (CreatePolicyDir dir e))))"

fun json_tokens :: "(str \<Rightarrow> 'j + str) \<Rightarrow> str list \<Rightarrow> 'j + str list" where
  "json_tokens json [] = Inr []"
| "json_tokens json (t # ts) =
     bind_result (json t) (\<lambda>j. bind_result (json_tokens json ts) (\<lambda>js. Inr (j # js)))"

definition rule_head :: str where "rule_head = lit ''prefix_rule(pattern=''"

definition rule_tail :: str where
  "rule_tail = lit '', decision='' @ [dquote] @ lit ''allow'' @ [dquote] @ lit '')''"

definition json_array :: "str list \<Rightarrow> str" where
  "json_array js = lit ''['' @ join_with (lit '', '') js @ lit '']''"

definition blocking_append_allow_prefix_rule ::
  "(str \<Rightarrow> 'j + str) \<Rightarrow> 's amend_fs \<Rightarrow> path_buf \<Rightarrow> str list \<Rightarrow> 's \<Rightarrow> 's \<times> ('j AmendError + unit)" where
  "blocking_append_allow_prefix_rule json fsys policy_path pre s =
     (if pre = [] then (s, Inl EmptyPrefix)
      else case json_tokens json pre of
             Inl e \<Rightarrow> (s, Inl (SerializePrefix e))
           | Inr tokens \<Rightarrow>
               append_rule_line fsys policy_path (rule_head @ json_array tokens @ rule_tail) s)"

fun network_decision_text :: "Decision \<Rightarrow> str" where
  "network_decision_text Allow = lit ''allow''"
| "network_decision_text Prompt = lit ''prompt''"
| "network_decision_text Forbidden = lit ''deny''"

text \<open>The display of the errors \<open>normalize_network_rule_host\<close> returns.\<close>

fun policy_error_display :: "unit policy_error \<Rightarrow> str" where
  "policy_error_display (InvalidDecision m) = lit ''invalid decision: '' @ m"
| "policy_error_display (InvalidPattern m) = lit ''invalid pattern element: '' @ m"
| "policy_error_display (InvalidExample m) = lit ''invalid example: '' @ m"
| "policy_error_display (InvalidRule m) = lit ''invalid rule: '' @ m"
| "policy_error_display _ = []"

definition network_rule_text ::
  "(str \<Rightarrow> 'j + str) \<Rightarrow> str \<Rightarrow> NetworkRuleProtocol \<Rightarrow> Decision \<Rightarrow> str option \<Rightarrow> 'j + str" where
  "network_rule_text json host protocol d j =
     bind_result (json host) (\<lambda>h.
     bind_result (json (as_policy_string protocol)) (\<lambda>p.
     bind_result (json (network_decision_text d)) (\<lambda>dt.
     bind_result (case j of
         Some raw \<Rightarrow> bind_result (json raw) (\<lambda>t. Inr [lit ''justification='' @ t])
       | None \<Rightarrow> Inr []) (\<lambda>extra.
     Inr (lit ''network_rule('' @ join_with (lit '', '')
            ([lit ''host='' @ h, lit ''protocol='' @ p, lit ''decision='' @ dt] @ extra) @ lit '')'')))))"

definition blocking_append_network_rule ::
  "(str \<Rightarrow> 'j + str) \<Rightarrow> 's amend_fs \<Rightarrow> path_buf \<Rightarrow> str \<Rightarrow> NetworkRuleProtocol \<Rightarrow> Decision \<Rightarrow> str option
   \<Rightarrow> 's \<Rightarrow> 's \<times> ('j AmendError + unit)" where
  "blocking_append_network_rule json fsys policy_path host protocol d j s =
     (case normalize_network_rule_host host of
        Inl e \<Rightarrow> (s, Inl (InvalidNetworkRule (policy_error_display e)))
      | Inr h \<Rightarrow>
          if blank_justification j then (s, Inl (InvalidNetworkRule justification_msg))
          else (case network_rule_text json h protocol d j of
                  Inl e \<Rightarrow> (s, Inl (SerializeNetworkRule e))
                | Inr rule \<Rightarrow> append_rule_line fsys policy_path rule s))"

section \<open>Dropping banned rules\<close>

text \<open>\<^verbatim>\<open>split_inclusive('\n')\<close>: every piece but the last ends with the line break, no piece is empty.\<close>

fun split_inclusive :: "'a \<Rightarrow> 'a list \<Rightarrow> 'a list list" where
  "split_inclusive c [] = []"
| "split_inclusive c (x # xs) =
     (if x = c then [x] # split_inclusive c xs
      else (case split_inclusive c xs of [] \<Rightarrow> [[x]] | p # ps \<Rightarrow> (x # p) # ps))"

definition strip_suffix_opt :: "str \<Rightarrow> str \<Rightarrow> str" where
  "strip_suffix_opt suf s = (case strip_suffix suf s of Some r \<Rightarrow> r | None \<Rightarrow> s)"

text \<open>\<open>from_json\<close> is the JSON decoder for lists of strings, None when the text is not one.\<close>

definition should_remove_rule :: "(str \<Rightarrow> str list option) \<Rightarrow> str list set \<Rightarrow> str \<Rightarrow> bool" where
  "should_remove_rule from_json banned line0 =
     (let line = strip_suffix_opt [cr] (strip_suffix_opt [nl] line0)
      in case Option.bind (strip_prefix rule_head line) (strip_suffix rule_tail) of
           None \<Rightarrow> False
         | Some pattern \<Rightarrow>
             (case from_json pattern of
                None \<Rightarrow> False
              | Some pre \<Rightarrow> map to_ascii_lowercase pre \<in> banned))"

definition strip_banned_allow_rules :: "(str \<Rightarrow> str list option) \<Rightarrow> str list list \<Rightarrow> str \<Rightarrow> str" where
  "strip_banned_allow_rules from_json banned_prefixes contents =
     (let banned = set (map (map to_ascii_lowercase) banned_prefixes)
      in concat (filter (\<lambda>line. \<not> should_remove_rule from_json banned line) (split_inclusive nl contents)))"

record 's migration_fs =
  mf_try_exists :: "'s \<Rightarrow> path_buf \<Rightarrow> io_error + bool"
  mf_read_to_string :: "'s \<Rightarrow> path_buf \<Rightarrow> io_error + str"
  mf_open_rw :: "'s \<Rightarrow> path_buf \<Rightarrow> 's \<times> (io_error + unit)"
  mf_file_read :: "'s \<Rightarrow> path_buf \<Rightarrow> 's \<times> (io_error + str)"
  mf_seek_start :: "'s \<Rightarrow> path_buf \<Rightarrow> 's \<times> (io_error + unit)"
  mf_write_all :: "'s \<Rightarrow> path_buf \<Rightarrow> str \<Rightarrow> 's \<times> (io_error + unit)"
  mf_set_len :: "'s \<Rightarrow> path_buf \<Rightarrow> nat \<Rightarrow> 's \<times> (io_error + unit)"
  mf_create_dir_all :: "'s \<Rightarrow> path_buf \<Rightarrow> 's \<times> (io_error + unit)"
  mf_new_temp_file :: "'s \<Rightarrow> path_buf \<Rightarrow> 's \<times> (io_error + path_buf)"
  mf_persist_noclobber :: "'s \<Rightarrow> path_buf \<Rightarrow> path_buf \<Rightarrow> 's \<times> (io_error + unit)"

definition clean_rules_file ::
  "(str \<Rightarrow> str list option) \<Rightarrow> 's migration_fs \<Rightarrow> path_buf \<Rightarrow> str list list \<Rightarrow> 's \<Rightarrow> 's \<times> (io_error + unit)" where
  "clean_rules_file from_json fsys policy_path banned s =
     (case mf_read_to_string fsys s policy_path of
        Inl e \<Rightarrow> if kind e = NotFound then (s, Inr ()) else (s, Inl e)
      | Inr before \<Rightarrow>
          if strip_banned_allow_rules from_json banned before = before then (s, Inr ())
          else (case mf_open_rw fsys s policy_path of
             (s1, Inl e) \<Rightarrow> if kind e = NotFound then (s1, Inr ()) else (s1, Inl e)
           | (s1, Inr _) \<Rightarrow>
               then_do (mf_file_read fsys s1 policy_path) (\<lambda>e. e) (\<lambda>s2 contents.
                 let retained = strip_banned_allow_rules from_json banned contents
                 in if retained = contents then (s2, Inr ())
                    else then_do (mf_seek_start fsys s2 policy_path) (\<lambda>e. e) (\<lambda>s3 _.
                         then_do (mf_write_all fsys s3 policy_path retained) (\<lambda>e. e) (\<lambda>s4 _.
                         then_do (mf_set_len fsys s4 policy_path (utf8_len retained)) (\<lambda>e. e)
                           (\<lambda>s5 _. (s5, Inr ())))))))"

definition write_migration_marker ::
  "'s migration_fs \<Rightarrow> path_buf \<Rightarrow> path_buf \<Rightarrow> 's \<Rightarrow> 's \<times> (io_error + unit)" where
  "write_migration_marker fsys codex_home marker_path s =
     then_do (mf_create_dir_all fsys s codex_home) (\<lambda>e. e) (\<lambda>s1 _.
     then_do (mf_new_temp_file fsys s1 codex_home) (\<lambda>e. e) (\<lambda>s2 marker.
     then_do (mf_write_all fsys s2 marker (lit ''v1'' @ [nl])) (\<lambda>e. e) (\<lambda>s3 _.
       (case mf_persist_noclobber fsys s3 marker marker_path of
          (s4, Inr _) \<Rightarrow> (s4, Inr ())
        | (s4, Inl e) \<Rightarrow> if kind e = AlreadyExists then (s4, Inr ()) else (s4, Inl e)))))"

definition MIGRATION_MARKER_FILENAME :: str where
  "MIGRATION_MARKER_FILENAME = lit ''.sandbox_migration''"

definition prefix_rule_migration ::
  "(str \<Rightarrow> str list option) \<Rightarrow> 's migration_fs \<Rightarrow> path_buf \<Rightarrow> path_buf \<Rightarrow> str list list \<Rightarrow> 's
   \<Rightarrow> 's \<times> (io_error + unit)" where
  "prefix_rule_migration from_json fsys codex_home policy_path banned s =
     (let marker_path = path_join codex_home (components MIGRATION_MARKER_FILENAME)
      in case mf_try_exists fsys s marker_path of
           Inl e \<Rightarrow> (s, Inl e)
         | Inr True \<Rightarrow> (s, Inr ())
         | Inr False \<Rightarrow>
             then_do (clean_rules_file from_json fsys policy_path banned s) (\<lambda>e. e) (\<lambda>s1 _.
             write_migration_marker fsys codex_home marker_path s1))"

section \<open>The lines of a policy file\<close>

lemma concat_split_inclusive [simp]: "concat (split_inclusive c s) = s"
  by (induction c s rule: split_inclusive.induct) (auto split: list.splits)

lemma split_inclusive_line: "c \<notin> set l \<Longrightarrow> split_inclusive c (l @ c # s) = (l @ [c]) # split_inclusive c s"
  by (induction l) auto

lemma split_inclusive_no_break: "c \<notin> set l \<Longrightarrow> l \<noteq> [] \<Longrightarrow> split_inclusive c l = [l]"
proof (induction l)
  case (Cons x l)
  then show ?case by (cases "l = []") auto
qed simp

section \<open>What an append leaves in the file\<close>

text \<open>What is relied on of the file calls, for a view \<open>content\<close> of the files: opening creates a
  missing file and keeps an existing one, creating the directory, locking, seeking and reading
  change no content, reading returns the content, a write appends.\<close>

definition amend_fs_lawful :: "'s amend_fs \<Rightarrow> ('s \<Rightarrow> path_buf \<Rightarrow> str option) \<Rightarrow> bool" where
  "amend_fs_lawful fsys content \<longleftrightarrow>
     (\<forall>s p s'. af_open fsys s p = (s', Inr ()) \<longrightarrow>
        content s' p = Some (case content s p of Some c \<Rightarrow> c | None \<Rightarrow> []))
     \<and> (\<forall>s d s' r. af_create_dir fsys s d = (s', r) \<longrightarrow> content s' = content s)
     \<and> (\<forall>s p s'. af_lock fsys s p = (s', Inr ()) \<longrightarrow> content s' = content s)
     \<and> (\<forall>s p s'. af_seek_start fsys s p = (s', Inr ()) \<longrightarrow> content s' = content s)
     \<and> (\<forall>s p s' c. af_read_to_string fsys s p = (s', Inr c) \<longrightarrow> content s' = content s \<and> content s p = Some c)
     \<and> (\<forall>s p t s' c. af_write_all fsys s p t = (s', Inr ()) \<longrightarrow> content s p = Some c
          \<longrightarrow> content s' p = Some (c @ t))"

definition with_line :: "str \<Rightarrow> str \<Rightarrow> str" where
  "with_line old line =
     (if line \<in> set (str_lines old) then old
      else (if old \<noteq> [] \<and> \<not> ends_with [nl] old then old @ [nl] else old) @ line @ [nl])"

lemma then_do_Inr_iff:
  "then_do r err k = (s', Inr y) \<longleftrightarrow> (\<exists>s x. r = (s, Inr x) \<and> k s x = (s', Inr y))"
  by (cases r; cases "snd r") (auto simp: then_do_def)

lemma append_locked_line_content:
  assumes "amend_fs_lawful fsys content"
    and "append_locked_line fsys p line s = (s', Inr () :: 'j AmendError + unit)"
  shows "content s' p = Some (with_line (case content s p of Some c \<Rightarrow> c | None \<Rightarrow> []) line)"
proof -
  define old where "old = (case content s p of Some c \<Rightarrow> c | None \<Rightarrow> [])"
  note law = assms(1) [unfolded amend_fs_lawful_def]
  from assms(2) obtain s1 s2 s3 s4 contents where
    calls: "af_open fsys s p = (s1, Inr ())" "af_lock fsys s1 p = (s2, Inr ())"
      "af_seek_start fsys s2 p = (s3, Inr ())" "af_read_to_string fsys s3 p = (s4, Inr contents)"
    and tail: "(if line \<in> set (str_lines contents) then (s4, Inr ())
       else then_do
              (if contents \<noteq> [] \<and> \<not> ends_with [nl] contents then af_write_all fsys s4 p [nl]
               else (s4, Inr ()))
              (WritePolicyFile p) (\<lambda>s5 _.
            then_do (af_write_all fsys s5 p (line @ [nl]))
              (WritePolicyFile p) (\<lambda>s6 _. (s6, Inr ())))) = (s', Inr () :: 'j AmendError + unit)"
    unfolding append_locked_line_def then_do_Inr_iff by auto
  have "content s1 p = Some old" using law calls(1) by (simp add: old_def)
  moreover have "content s2 = content s1" "content s3 = content s2" using law calls(2,3) by blast+
  moreover have "content s4 = content s3" "content s3 p = Some contents" using law calls(4) by blast+
  ultimately have s4: "content s4 p = Some old" and c: "contents = old" by simp_all
  have write_ok: "content u' p = Some (x @ t)" if "af_write_all fsys u p t = (u', Inr ())" "content u p = Some x"
    for u u' t x using law that by blast
  show ?thesis
  proof (cases "line \<in> set (str_lines old)")
    case True
    with tail s4 show ?thesis by (simp add: c with_line_def flip: old_def)
  next
    case False
    let ?open = "old \<noteq> [] \<and> \<not> ends_with [nl] old"
    from tail False obtain s5 where
      first: "(if ?open then af_write_all fsys s4 p [nl] else (s4, Inr ())) = (s5, Inr ())"
      and second: "af_write_all fsys s5 p (line @ [nl]) = (s', Inr ())"
      by (auto simp: then_do_Inr_iff c)
    have "content s5 p = Some (if ?open then old @ [nl] else old)"
      using first write_ok [OF _ s4] s4 by (auto split: if_splits)
    from write_ok [OF second this] False show ?thesis by (simp add: with_line_def flip: old_def)
  qed
qed

lemma append_rule_line_content:
  assumes "amend_fs_lawful fsys content"
    and "append_rule_line fsys p line s = (s', Inr () :: 'j AmendError + unit)"
  shows "content s' p = Some (with_line (case content s p of Some c \<Rightarrow> c | None \<Rightarrow> []) line)"
proof -
  from assms(2) obtain dir where dir: "path_parent p = Some dir"
    by (cases "path_parent p") (simp_all add: append_rule_line_def)
  obtain s1 r where call: "af_create_dir fsys s dir = (s1, r)" by fastforce
  have "append_locked_line fsys p line s1 = (s', Inr () :: 'j AmendError + unit)"
    using assms(2) by (cases r) (auto simp: append_rule_line_def dir call split: if_splits)
  moreover have "content s1 = content s"
    using assms(1) call unfolding amend_fs_lawful_def by blast
  ultimately show ?thesis using append_locked_line_content [OF assms(1)] by metis
qed

lemma split_on_append: "split_on c (a @ c # b) = split_on c a @ split_on c b"
  by (induction a) (auto split: list.splits)

lemma str_lines_snoc_nl: "str_lines (a @ [nl]) = map strip_cr (split_on nl a)"
  by (simp add: str_lines_def split_on_snoc_sep Let_def)

lemma str_lines_append_line:
  assumes "nl \<notin> set line" "line = [] \<or> last line \<noteq> cr"
  shows "str_lines (a @ [nl] @ line @ [nl]) = str_lines (a @ [nl]) @ [line]"
proof -
  have "a @ [nl] @ line @ [nl] = (a @ nl # line) @ [nl]" by simp
  then show ?thesis
    by (simp only: str_lines_snoc_nl split_on_append)
       (simp add: split_on_no_sep assms strip_cr_id)
qed

lemma last_last_split_on: "s \<noteq> [] \<Longrightarrow> last s \<noteq> c \<Longrightarrow> last (split_on c s) \<noteq> [] \<and> last (last (split_on c s)) = last s"
  by (induction s) (auto split: list.splits if_splits)

lemma str_lines_close:
  assumes "s \<noteq> []" "last s \<noteq> nl" "last s \<noteq> cr"
  shows "str_lines (s @ [nl]) = str_lines s"
proof -
  let ?ps = "split_on nl s"
  have l: "last ?ps \<noteq> []" "last (last ?ps) \<noteq> cr" using last_last_split_on [of s nl] assms by auto
  have "map strip_cr ?ps = map strip_cr (butlast ?ps) @ [strip_cr (last ?ps)]"
    by (metis append_butlast_last_id list.simps(8,9) map_append split_on_nonempty)
  with l show ?thesis unfolding str_lines_snoc_nl by (simp add: str_lines_def Let_def strip_cr_id)
qed

lemma str_lines_with_line:
  assumes "nl \<notin> set line" "line = [] \<or> last line \<noteq> cr" "old = [] \<or> last old \<noteq> cr"
  shows "str_lines (with_line old line) = (if line \<in> set (str_lines old) then str_lines old else str_lines old @ [line])"
proof (cases "line \<in> set (str_lines old)")
  case False
  consider (empty) "old = []" | (closed) a where "old = a @ [nl]" | (unclosed) "old \<noteq> []" "last old \<noteq> nl"
    by (metis append_butlast_last_id)
  then show ?thesis
  proof cases
    case empty
    with False assms show ?thesis
      by (simp add: with_line_def str_lines_snoc_nl split_on_no_sep strip_cr_id)
         (simp add: str_lines_def)
  next
    case closed
    with False str_lines_append_line [OF assms(1,2), of a] show ?thesis
      by (simp add: with_line_def text_simps)
  next
    case unclosed
    then have "\<not> ends_with [nl] old" by (auto simp: text_simps suffix_def)
    with unclosed False str_lines_append_line [OF assms(1,2), of old] str_lines_close [of old] assms(3)
    show ?thesis by (simp add: with_line_def)
  qed
qed (simp add: with_line_def)

lemma with_line_idem:
  assumes "nl \<notin> set line" "line = [] \<or> last line \<noteq> cr" "old = [] \<or> last old \<noteq> cr"
  shows "with_line (with_line old line) line = with_line old line"
  using str_lines_with_line [OF assms] by (simp add: with_line_def [of "with_line old line"] split: if_splits)

section \<open>What the migration leaves in the file\<close>

definition line_pieces :: "'a \<Rightarrow> 'a list list \<Rightarrow> bool" where
  "line_pieces c ps \<longleftrightarrow> (\<forall>p \<in> set ps. p \<noteq> [] \<and> c \<notin> set (butlast p)) \<and> (\<forall>p \<in> set (butlast ps). last p = c)"

lemma line_pieces_split_inclusive: "line_pieces c (split_inclusive c s)"
proof (induction c s rule: split_inclusive.induct)
  case (2 c x xs)
  then show ?case
    by (auto simp: line_pieces_def split: list.splits if_splits)
qed (simp add: line_pieces_def)

lemma split_inclusive_concat: "line_pieces c ps \<Longrightarrow> split_inclusive c (concat ps) = ps"
proof (induction ps)
  case (Cons p ps)
  then have p: "p \<noteq> []" "c \<notin> set (butlast p)" and ps: "line_pieces c ps"
    by (auto simp: line_pieces_def split: if_splits)
  have closed: "split_inclusive c (concat (p # ps)) = p # ps" if "last p = c"
    using split_inclusive_line [OF p(2), of "concat ps"] p(1) that Cons.IH [OF ps]
    by (metis append.assoc append_Cons append_Nil append_butlast_last_id concat.simps(2))
  show ?case
  proof (cases "last p = c")
    case False
    then have "ps = []" using Cons.prems by (auto simp: line_pieces_def split: if_splits)
    moreover have "c \<notin> set p"
      using False p by (metis append_butlast_last_id rotate1.simps(2) set_ConsD set_rotate1)
    ultimately show ?thesis using split_inclusive_no_break p(1) by simp
  qed (rule closed)
qed simp

lemma last_split_inclusive: "s \<noteq> [] \<Longrightarrow> split_inclusive c s \<noteq> [] \<and> last (last (split_inclusive c s)) = last s"
proof -
  assume s: "s \<noteq> []"
  let ?ps = "split_inclusive c s"
  from s have ps: "?ps \<noteq> []" by (metis concat.simps(1) concat_split_inclusive)
  then have "last ?ps \<noteq> []" using line_pieces_split_inclusive [of c s] by (simp add: line_pieces_def)
  then have "last (concat ?ps) = last (last ?ps)"
    using ps by (cases ?ps rule: rev_cases) simp_all
  with ps show ?thesis by simp
qed

lemma split_inclusive_append:
  assumes "old = [] \<or> last old = c" and "c \<notin> set l"
  shows "split_inclusive c (old @ l @ [c]) = split_inclusive c old @ [l @ [c]]"
proof -
  have "line_pieces c (split_inclusive c old @ [l @ [c]])"
  proof (cases "old = []")
    case False
    with line_pieces_split_inclusive [of c old] last_split_inclusive [of old c] assms show ?thesis
      by (cases "split_inclusive c old" rule: rev_cases) (auto simp: line_pieces_def butlast_append)
  qed (use assms in \<open>simp add: line_pieces_def\<close>)
  from split_inclusive_concat [OF this] show ?thesis by simp
qed

lemma line_pieces_filter: "line_pieces c ps \<Longrightarrow> line_pieces c (filter P ps)"
proof (cases ps rule: rev_cases)
  case (snoc qs q)
  then show "line_pieces c ps \<Longrightarrow> line_pieces c (filter P ps)"
    by (auto simp: line_pieces_def dest!: in_set_butlastD)
qed simp

lemma split_strip_banned:
  "split_inclusive nl (strip_banned_allow_rules from_json banned s) =
     filter (\<lambda>line. \<not> should_remove_rule from_json (set (map (map to_ascii_lowercase) banned)) line)
       (split_inclusive nl s)"
  unfolding strip_banned_allow_rules_def Let_def
  by (rule split_inclusive_concat) (rule line_pieces_filter, rule line_pieces_split_inclusive)

end
