(* ===== verification/Command_Safety.thy ===== *)
theory Command_Safety
  imports Shell_Script
begin

text \<open>
  The command classifiers (\<^verbatim>\<open>shell-command/src/command_safety/is_safe_command.rs\<close> and
  \<^verbatim>\<open>is_dangerous_command.rs\<close>, as built for Linux): which commands may run without asking and which
  are known to be dangerous. Both look inside shell scripts through the syntax tree of
  \<^verbatim>\<open>Shell_Script\<close>.
\<close>

section \<open>Executables and git\<close>

definition executable_name_lookup_key :: "str \<Rightarrow> str option" where
  "executable_name_lookup_key raw = path_file_name (components raw)"

definition is_git_global_option_with_value :: "str \<Rightarrow> bool" where
  "is_git_global_option_with_value arg \<longleftrightarrow>
     arg \<in> set (map lit [''-C'', ''-c'', ''--config-env'', ''--exec-path'', ''--git-dir'', ''--namespace'',
       ''--super-prefix'', ''--work-tree''])"

definition is_git_global_option_with_inline_value :: "str \<Rightarrow> bool" where
  "is_git_global_option_with_inline_value arg \<longleftrightarrow>
     (\<exists>p \<in> set (map lit [''--config-env='', ''--exec-path='', ''--git-dir='', ''--namespace='',
        ''--super-prefix='', ''--work-tree='']). starts_with p arg)
     \<or> (starts_with (lit ''-C'') arg \<or> starts_with (lit ''-c'') arg) \<and> length arg > 2"

fun git_scan :: "str list \<Rightarrow> bool \<Rightarrow> nat \<Rightarrow> str list \<Rightarrow> (nat \<times> str) option" where
  "git_scan subcommands skip_next idx [] = None"
| "git_scan subcommands skip_next idx (arg # args) =
     (if skip_next then git_scan subcommands False (idx + 1) args
      else if is_git_global_option_with_inline_value arg then git_scan subcommands False (idx + 1) args
      else if is_git_global_option_with_value arg then git_scan subcommands True (idx + 1) args
      else if arg = lit ''--'' \<or> starts_with [minus_sign] arg then git_scan subcommands False (idx + 1) args
      else if arg \<in> set subcommands then Some (idx, arg)
      else None)"

definition find_git_subcommand :: "str list \<Rightarrow> str list \<Rightarrow> (nat \<times> str) option" where
  "find_git_subcommand command subcommands =
     (case command of
        [] \<Rightarrow> None
      | cmd0 # args \<Rightarrow>
          if executable_name_lookup_key cmd0 \<noteq> Some (lit ''git'') then None
          else git_scan subcommands False 1 args)"

section \<open>Dangerous commands\<close>

datatype DangerousCommandMatch = ForcedRm | OtherDanger

definition MAX_DANGEROUS_COMMAND_WRAPPER_DEPTH :: nat where
  "MAX_DANGEROUS_COMMAND_WRAPPER_DEPTH = 8"

definition short_force_flag :: "str \<Rightarrow> bool" where
  "short_force_flag arg \<longleftrightarrow>
     (case strip_prefix [minus_sign] arg of
        Some flags \<Rightarrow> \<not> starts_with [minus_sign] flags \<and> of_char CHR ''f'' \<in> set flags
      | None \<Rightarrow> False)"

definition rm_args_include_force_option :: "str list \<Rightarrow> bool" where
  "rm_args_include_force_option args \<longleftrightarrow>
     (\<exists>arg \<in> set (takeWhile (\<lambda>arg. arg \<noteq> lit ''--'') args). arg = lit ''--force'' \<or> short_force_flag arg)"

text \<open>The words that the loop over the arguments of \<^verbatim>\<open>env\<close> leaves, as the tail of the command.\<close>

definition env_assignment :: "str \<Rightarrow> bool" where
  "env_assignment argument \<longleftrightarrow>
     argument = lit ''-i'' \<or> argument = lit ''--ignore-environment''
     \<or> (case split_once (of_char CHR ''='') argument of
          Some (name, _) \<Rightarrow> name \<noteq> [] \<and> \<not> starts_with [minus_sign] name
        | None \<Rightarrow> False)"

fun env_command :: "str list \<Rightarrow> str list" where
  "env_command [] = []"
| "env_command (argument # args) =
     (if argument = lit ''--'' then args
      else if env_assignment argument then env_command args
      else argument # args)"

definition trap_action :: "str list \<Rightarrow> str option" where
  "trap_action args =
     (case (case args of a # rest \<Rightarrow> if a = lit ''--'' then rest else args | [] \<Rightarrow> []) of
        [] \<Rightarrow> None
      | action # _ \<Rightarrow> if starts_with [minus_sign] action then None else Some action)"

function dangerous_command_match_with_depth ::
    "shell_parser \<Rightarrow> str list \<Rightarrow> nat \<Rightarrow> DangerousCommandMatch option"
  and dangerous_command_match_for_exec ::
    "shell_parser \<Rightarrow> str list \<Rightarrow> nat \<Rightarrow> DangerousCommandMatch option" where
  "dangerous_command_match_with_depth parse command wrapper_depth =
     (if wrapper_depth > MAX_DANGEROUS_COMMAND_WRAPPER_DEPTH then None
      else case dangerous_command_match_for_exec parse command wrapper_depth of
          Some m \<Rightarrow> Some m
        | None \<Rightarrow>
            (case parse_shell_lc_literal_commands parse command of
               None \<Rightarrow> None
             | Some commands \<Rightarrow>
                 find_map (\<lambda>c. dangerous_command_match_with_depth parse c (wrapper_depth + 1)) commands))"
| "dangerous_command_match_for_exec parse command wrapper_depth =
     (case command of
        [] \<Rightarrow> None
      | cmd0 # args \<Rightarrow>
          (case executable_name_lookup_key cmd0 of
             None \<Rightarrow> None
           | Some name \<Rightarrow>
               if name = lit ''rm'' then
                 (if rm_args_include_force_option args then Some ForcedRm else None)
               else if name = lit ''sudo'' then
                 dangerous_command_match_with_depth parse args (wrapper_depth + 1)
               else if name = lit ''env'' then
                 dangerous_command_match_with_depth parse (env_command args) (wrapper_depth + 1)
               else if name = lit ''trap'' then
                 (case trap_action args of
                    None \<Rightarrow> None
                  | Some action \<Rightarrow>
                      dangerous_command_match_with_depth parse [lit ''sh'', lit ''-c'', action]
                        (wrapper_depth + 1))
               else None))"
  by pat_completeness auto
termination
  by (relation "measure (\<lambda>x. case x of Inl (_, _, d) \<Rightarrow> 2 * (10 - d) + 1 | Inr (_, _, d) \<Rightarrow> 2 * (10 - d) + (if d > 9 then 2 else 0))")
     (auto simp: MAX_DANGEROUS_COMMAND_WRAPPER_DEPTH_def)

declare dangerous_command_match_with_depth.simps [simp del]
declare dangerous_command_match_for_exec.simps [simp del]

definition dangerous_command_match :: "shell_parser \<Rightarrow> str list \<Rightarrow> DangerousCommandMatch option" where
  "dangerous_command_match parse command = dangerous_command_match_with_depth parse command 0"

section \<open>Safe commands\<close>

datatype GitOptionPattern = Exact str | ShortWithInlineValue str | Prefix str

fun git_option_matches :: "GitOptionPattern \<Rightarrow> str \<Rightarrow> bool" where
  "git_option_matches (Exact option) arg \<longleftrightarrow> arg = option"
| "git_option_matches (ShortWithInlineValue option) arg \<longleftrightarrow> starts_with option arg \<and> length arg > length option"
| "git_option_matches (Prefix pre) arg \<longleftrightarrow> starts_with pre arg"

definition UNSAFE_GIT_GLOBAL_OPTIONS :: "GitOptionPattern list" where
  "UNSAFE_GIT_GLOBAL_OPTIONS =
     [Exact (lit ''-C''), ShortWithInlineValue (lit ''-C''), Exact (lit ''-c''), ShortWithInlineValue (lit ''-c''),
      Exact (lit ''-p''), Exact (lit ''--config-env''), Prefix (lit ''--config-env=''),
      Exact (lit ''--exec-path''), Prefix (lit ''--exec-path=''), Exact (lit ''--git-dir''),
      Prefix (lit ''--git-dir=''), Exact (lit ''--namespace''), Prefix (lit ''--namespace=''),
      Exact (lit ''--paginate''), Exact (lit ''--super-prefix''), Prefix (lit ''--super-prefix=''),
      Exact (lit ''--work-tree''), Prefix (lit ''--work-tree='')]"

definition UNSAFE_GIT_SUBCOMMAND_OPTIONS :: "GitOptionPattern list" where
  "UNSAFE_GIT_SUBCOMMAND_OPTIONS =
     [Exact (lit ''--output''), Prefix (lit ''--output=''), Exact (lit ''--ext-diff''),
      Exact (lit ''--textconv''), Exact (lit ''--exec''), Prefix (lit ''--exec='')]"

definition git_matches_option_pattern :: "str \<Rightarrow> GitOptionPattern list \<Rightarrow> bool" where
  "git_matches_option_pattern arg patterns \<longleftrightarrow> (\<exists>p \<in> set patterns. git_option_matches p arg)"

definition git_has_unsafe_global_option :: "str list \<Rightarrow> bool" where
  "git_has_unsafe_global_option global_args \<longleftrightarrow>
     (\<exists>arg \<in> set global_args. git_matches_option_pattern arg UNSAFE_GIT_GLOBAL_OPTIONS)"

definition git_subcommand_args_are_read_only :: "str list \<Rightarrow> bool" where
  "git_subcommand_args_are_read_only args \<longleftrightarrow>
     \<not> (\<exists>arg \<in> set args. git_matches_option_pattern arg UNSAFE_GIT_SUBCOMMAND_OPTIONS)"

definition branch_query_flag :: "str \<Rightarrow> bool" where
  "branch_query_flag arg \<longleftrightarrow>
     arg \<in> set (map lit [''--list'', ''-l'', ''--show-current'', ''-a'', ''--all'', ''-r'', ''--remotes'',
       ''-v'', ''-vv'', ''--verbose'']) \<or> starts_with (lit ''--format='') arg"

fun branch_scan :: "bool \<Rightarrow> str list \<Rightarrow> bool" where
  "branch_scan saw_read_only_flag [] = saw_read_only_flag"
| "branch_scan saw_read_only_flag (arg # args) =
     (if branch_query_flag arg then branch_scan True args else False)"

definition git_branch_is_read_only :: "str list \<Rightarrow> bool" where
  "git_branch_is_read_only branch_args = (if branch_args = [] then True else branch_scan False branch_args)"

definition is_safe_git_command :: "str list \<Rightarrow> bool" where
  "is_safe_git_command command =
     (case find_git_subcommand command (map lit [''status'', ''log'', ''diff'', ''show'', ''branch'']) of
        None \<Rightarrow> False
      | Some (subcommand_idx, subcommand) \<Rightarrow>
          if git_has_unsafe_global_option (drop 1 (take subcommand_idx command)) then False
          else (let subcommand_args = drop (subcommand_idx + 1) command
                in if subcommand \<in> set (map lit [''status'', ''log'', ''diff'', ''show''])
                   then git_subcommand_args_are_read_only subcommand_args
                   else if subcommand = lit ''branch''
                   then git_subcommand_args_are_read_only subcommand_args
                        \<and> git_branch_is_read_only subcommand_args
                   else False))"

definition is_valid_sed_n_arg :: "str option \<Rightarrow> bool" where
  "is_valid_sed_n_arg arg =
     (case Option.bind arg (strip_suffix (lit ''p'')) of
        None \<Rightarrow> False
      | Some core \<Rightarrow>
          (case split_on (of_char CHR '','') core of
             [num] \<Rightarrow> num \<noteq> [] \<and> list_all is_ascii_digit num
           | [a, b] \<Rightarrow> a \<noteq> [] \<and> b \<noteq> [] \<and> list_all is_ascii_digit a \<and> list_all is_ascii_digit b
           | _ \<Rightarrow> False))"

definition ALWAYS_SAFE :: "str list" where
  "ALWAYS_SAFE = map lit [''cat'', ''cd'', ''cut'', ''echo'', ''expr'', ''false'', ''grep'', ''head'', ''id'',
     ''ls'', ''nl'', ''paste'', ''pwd'', ''rev'', ''seq'', ''stat'', ''tail'', ''tr'', ''true'', ''uname'',
     ''uniq'', ''wc'', ''which'', ''whoami'']"

definition UNSAFE_FIND_OPTIONS :: "str list" where
  "UNSAFE_FIND_OPTIONS = map lit [''-exec'', ''-execdir'', ''-ok'', ''-okdir'', ''-delete'', ''-fls'',
     ''-fprint'', ''-fprint0'', ''-fprintf'']"

definition unsafe_base64_arg :: "str \<Rightarrow> bool" where
  "unsafe_base64_arg arg \<longleftrightarrow>
     arg \<in> {lit ''-o'', lit ''--output''} \<or> starts_with (lit ''--output='') arg
     \<or> starts_with (lit ''-o'') arg \<and> arg \<noteq> lit ''-o''"

definition unsafe_ripgrep_arg :: "str \<Rightarrow> bool" where
  "unsafe_ripgrep_arg arg \<longleftrightarrow>
     arg \<in> {lit ''--search-zip'', lit ''-z''}
     \<or> (\<exists>opt \<in> {lit ''--pre'', lit ''--hostname-bin''}. arg = opt \<or> starts_with (opt @ lit ''='') arg)"

definition nth_arg :: "str list \<Rightarrow> nat \<Rightarrow> str option" where
  "nth_arg command i = (if i < length command then Some (command ! i) else None)"

definition is_safe_to_call_with_exec :: "str list \<Rightarrow> bool" where
  "is_safe_to_call_with_exec command =
     (case command of
        [] \<Rightarrow> False
      | cmd0 # args \<Rightarrow>
          (case executable_name_lookup_key cmd0 of
             None \<Rightarrow> False
           | Some cmd \<Rightarrow>
               if cmd = lit ''numfmt'' \<or> cmd = lit ''tac'' then True
               else if cmd \<in> set ALWAYS_SAFE then True
               else if cmd = lit ''base64'' then \<not> (\<exists>arg \<in> set args. unsafe_base64_arg arg)
               else if cmd = lit ''find'' then \<not> (\<exists>arg \<in> set command. arg \<in> set UNSAFE_FIND_OPTIONS)
               else if cmd = lit ''rg'' then \<not> (\<exists>arg \<in> set command. unsafe_ripgrep_arg arg)
               else if cmd = lit ''git'' then is_safe_git_command command
               else if cmd = lit ''sed'' then
                 length command \<le> 4 \<and> nth_arg command 1 = Some (lit ''-n'')
                 \<and> is_valid_sed_n_arg (nth_arg command 2)
               else False))"

definition zsh_as_bash :: "str \<Rightarrow> str" where
  "zsh_as_bash s = (if s = lit ''zsh'' then lit ''bash'' else s)"

definition is_known_safe_command :: "shell_parser \<Rightarrow> str list \<Rightarrow> bool" where
  "is_known_safe_command parse command0 =
     (let command = map zsh_as_bash command0
      in if is_safe_to_call_with_exec command then True
         else case parse_shell_lc_plain_commands parse command of
                Some all_commands \<Rightarrow>
                  all_commands \<noteq> [] \<and> list_all is_safe_to_call_with_exec all_commands
              | None \<Rightarrow> False)"

end
