(* ===== verification/Permission_Policy.thy ===== *)
theory Permission_Policy
  imports Absolute_Path "HOL-Library.Product_Lexorder"
begin

text \<open>
  The file system permissions of a command (\<^verbatim>\<open>protocol/src/permissions.rs\<close>, with the permission profile
  of \<^verbatim>\<open>protocol/src/models.rs\<close> and the legacy sandbox policy of \<^verbatim>\<open>protocol/src/protocol.rs\<close>): a policy is
  a list of entries, each an access mode for a path, a glob pattern or a special path; the most
  specific entry that covers a path decides.

  What the code asks the system for, the home and current directories, \<^verbatim>\<open>TMPDIR\<close> and the state of the
  file system, is the argument \<open>env\<close>.
\<close>

section \<open>The environment\<close>

text \<open>\<open>env_is_symlink\<close> is \<^verbatim>\<open>symlink_metadata\<close>, None when it fails; \<open>env_canonicalize\<close> is \<^verbatim>\<open>dunce::canonicalize\<close>.\<close>

record path_env =
  env_home :: "path_buf option"
  env_current_dir :: "path_buf option"
  env_tmpdir :: "str option"
  env_is_dir :: "path_buf \<Rightarrow> bool"
  env_is_file :: "path_buf \<Rightarrow> bool"
  env_exists :: "path_buf \<Rightarrow> bool"
  env_read_to_string :: "path_buf \<Rightarrow> str option"
  env_is_symlink :: "path_buf \<Rightarrow> bool option"
  env_canonicalize :: "path_buf \<Rightarrow> path_buf option"

definition env_absolute :: "path_env \<Rightarrow> path_buf \<Rightarrow> path_buf option" where
  "env_absolute env p = absolute_from (env_home env) (env_current_dir env) p"

definition env_join :: "path_env \<Rightarrow> path_buf \<Rightarrow> path_buf \<Rightarrow> path_buf" where
  "env_join env base p = resolve_against_base (env_home env) p base"

section \<open>Entries and policies\<close>

datatype NetworkSandboxPolicy = NetRestricted | NetEnabled

fun network_is_enabled :: "NetworkSandboxPolicy \<Rightarrow> bool" where
  "network_is_enabled NetEnabled = True"
| "network_is_enabled NetRestricted = False"

datatype FileSystemAccessMode = Read | Write | Deny

fun can_read :: "FileSystemAccessMode \<Rightarrow> bool" where
  "can_read Deny = False"
| "can_read _ = True"

fun can_write :: "FileSystemAccessMode \<Rightarrow> bool" where
  "can_write Write = True"
| "can_write _ = False"

text \<open>The derived order compares the variants as they are declared: of two entries for the same path
  the later mode wins.\<close>

fun access_rank :: "FileSystemAccessMode \<Rightarrow> nat" where
  "access_rank Read = 0"
| "access_rank Write = 1"
| "access_rank Deny = 2"

lemma access_rank_inject: "access_rank a = access_rank b \<longleftrightarrow> a = b"
  by (cases a; cases b) simp_all

instantiation FileSystemAccessMode :: linorder
begin

definition less_eq_FileSystemAccessMode :: "FileSystemAccessMode \<Rightarrow> FileSystemAccessMode \<Rightarrow> bool" where
  "less_eq_FileSystemAccessMode a b \<longleftrightarrow> access_rank a \<le> access_rank b"

definition less_FileSystemAccessMode :: "FileSystemAccessMode \<Rightarrow> FileSystemAccessMode \<Rightarrow> bool" where
  "less_FileSystemAccessMode a b \<longleftrightarrow> access_rank a < access_rank b"

instance
  by standard
     (auto simp: less_eq_FileSystemAccessMode_def less_FileSystemAccessMode_def access_rank_inject)

end

datatype FileSystemSpecialPath =
  Root
| Minimal
| ProjectRoots "path_buf option"
| Tmpdir
| SlashTmp
| UnknownPath str "path_buf option"

datatype FileSystemPath =
  AbsPath path_buf
| GlobPattern str
| Special FileSystemSpecialPath

record FileSystemSandboxEntry =
  entry_path :: FileSystemPath
  entry_access :: FileSystemAccessMode

datatype FileSystemSandboxKind = Restricted | Unrestricted | ExternalSandbox

record FileSystemSandboxPolicy =
  policy_kind :: FileSystemSandboxKind
  glob_scan_max_depth :: "nat option"
  policy_entries :: "FileSystemSandboxEntry list"

record ResolvedFileSystemEntry =
  resolved_path :: path_buf
  resolved_access :: FileSystemAccessMode

abbreviation mk_entry :: "FileSystemPath \<Rightarrow> FileSystemAccessMode \<Rightarrow> FileSystemSandboxEntry" where
  "mk_entry p a \<equiv> \<lparr>entry_path = p, entry_access = a\<rparr>"

definition read_only_file_system_entries :: "FileSystemSandboxEntry list" where
  "read_only_file_system_entries = [mk_entry (Special Root) Read]"

definition restricted :: "FileSystemSandboxEntry list \<Rightarrow> FileSystemSandboxPolicy" where
  "restricted entries = \<lparr>policy_kind = Restricted, glob_scan_max_depth = None, policy_entries = entries\<rparr>"

definition read_only :: FileSystemSandboxPolicy where
  "read_only = restricted read_only_file_system_entries"

definition unrestricted :: FileSystemSandboxPolicy where
  "unrestricted = \<lparr>policy_kind = Unrestricted, glob_scan_max_depth = None, policy_entries = []\<rparr>"

definition external_sandbox :: FileSystemSandboxPolicy where
  "external_sandbox = \<lparr>policy_kind = ExternalSandbox, glob_scan_max_depth = None, policy_entries = []\<rparr>"

section \<open>What a policy grants as a whole\<close>

definition has_root_access :: "FileSystemSandboxPolicy \<Rightarrow> (FileSystemAccessMode \<Rightarrow> bool) \<Rightarrow> bool" where
  "has_root_access pol predicate \<longleftrightarrow>
     policy_kind pol = Restricted
     \<and> list_ex (\<lambda>e. entry_path e = Special Root \<and> predicate (entry_access e)) (policy_entries pol)"

definition has_denied_read_restrictions :: "FileSystemSandboxPolicy \<Rightarrow> bool" where
  "has_denied_read_restrictions pol \<longleftrightarrow>
     policy_kind pol = Restricted \<and> list_ex (\<lambda>e. entry_access e = Deny) (policy_entries pol)"

definition special_paths_share_target :: "FileSystemSpecialPath \<Rightarrow> FileSystemSpecialPath \<Rightarrow> bool" where
  "special_paths_share_target left right =
     (case (left, right) of
        (Root, Root) \<Rightarrow> True
      | (Minimal, Minimal) \<Rightarrow> True
      | (Tmpdir, Tmpdir) \<Rightarrow> True
      | (SlashTmp, SlashTmp) \<Rightarrow> True
      | (ProjectRoots l, ProjectRoots r) \<Rightarrow> l = r
      | (UnknownPath l ls, UnknownPath r rs) \<Rightarrow> l = r \<and> ls = rs
      | _ \<Rightarrow> False)"

definition slash_tmp_path :: path_buf where
  "slash_tmp_path = [RootDir, Normal (lit ''tmp'')]"

fun special_path_matches_absolute_path :: "FileSystemSpecialPath \<Rightarrow> path_buf \<Rightarrow> bool" where
  "special_path_matches_absolute_path Root p \<longleftrightarrow> path_parent p = None"
| "special_path_matches_absolute_path SlashTmp p \<longleftrightarrow> p = slash_tmp_path"
| "special_path_matches_absolute_path _ p \<longleftrightarrow> False"

fun file_system_paths_share_target :: "FileSystemPath \<Rightarrow> FileSystemPath \<Rightarrow> bool" where
  "file_system_paths_share_target (AbsPath l) (AbsPath r) \<longleftrightarrow> l = r"
| "file_system_paths_share_target (Special l) (Special r) \<longleftrightarrow> special_paths_share_target l r"
| "file_system_paths_share_target (AbsPath p) (Special v) \<longleftrightarrow> special_path_matches_absolute_path v p"
| "file_system_paths_share_target (Special v) (AbsPath p) \<longleftrightarrow> special_path_matches_absolute_path v p"
| "file_system_paths_share_target (GlobPattern l) (GlobPattern r) \<longleftrightarrow> l = r"
| "file_system_paths_share_target _ _ \<longleftrightarrow> False"

definition has_same_target_write_override :: "FileSystemSandboxPolicy \<Rightarrow> FileSystemSandboxEntry \<Rightarrow> bool" where
  "has_same_target_write_override pol e \<longleftrightarrow>
     list_ex (\<lambda>c. can_write (entry_access c) \<and> entry_access c > entry_access e
                   \<and> file_system_paths_share_target (entry_path c) (entry_path e)) (policy_entries pol)"

definition narrows_write :: "FileSystemSandboxPolicy \<Rightarrow> FileSystemSandboxEntry \<Rightarrow> bool" where
  "narrows_write pol e \<longleftrightarrow>
     \<not> can_write (entry_access e)
     \<and> (case entry_path e of
          AbsPath _ \<Rightarrow> \<not> has_same_target_write_override pol e
        | GlobPattern _ \<Rightarrow> True
        | Special Root \<Rightarrow> entry_access e = Deny
        | Special Minimal \<Rightarrow> False
        | Special (UnknownPath _ _) \<Rightarrow> False
        | Special _ \<Rightarrow> \<not> has_same_target_write_override pol e)"

definition has_write_narrowing_entries :: "FileSystemSandboxPolicy \<Rightarrow> bool" where
  "has_write_narrowing_entries pol \<longleftrightarrow>
     policy_kind pol = Restricted \<and> list_ex (narrows_write pol) (policy_entries pol)"

definition has_full_disk_read_access :: "FileSystemSandboxPolicy \<Rightarrow> bool" where
  "has_full_disk_read_access pol =
     (case policy_kind pol of
        Restricted \<Rightarrow> has_root_access pol can_read \<and> \<not> has_denied_read_restrictions pol
      | _ \<Rightarrow> True)"

definition has_full_disk_write_access :: "FileSystemSandboxPolicy \<Rightarrow> bool" where
  "has_full_disk_write_access pol =
     (case policy_kind pol of
        Restricted \<Rightarrow> has_root_access pol can_write \<and> \<not> has_write_narrowing_entries pol
      | _ \<Rightarrow> True)"

definition include_platform_defaults :: "FileSystemSandboxPolicy \<Rightarrow> bool" where
  "include_platform_defaults pol \<longleftrightarrow>
     \<not> has_full_disk_read_access pol \<and> policy_kind pol = Restricted
     \<and> list_ex (\<lambda>e. entry_path e = Special Minimal \<and> can_read (entry_access e)) (policy_entries pol)"

section \<open>Resolving entries\<close>

text \<open>The root of the current directory. The code panics when it has none or when it is not absolute;
  the lemma \<open>absolute_root_path_is_root\<close> shows that neither happens for an absolute directory.\<close>

definition absolute_root_path_for_cwd :: "path_env \<Rightarrow> path_buf \<Rightarrow> path_buf option" where
  "absolute_root_path_for_cwd env cwd = env_absolute env (last (path_ancestors cwd))"

definition resolve_file_system_special_path ::
  "path_env \<Rightarrow> FileSystemSpecialPath \<Rightarrow> path_buf option \<Rightarrow> path_buf option" where
  "resolve_file_system_special_path env v cwd =
     (case v of
        Root \<Rightarrow> None
      | Minimal \<Rightarrow> None
      | UnknownPath _ _ \<Rightarrow> None
      | ProjectRoots subpath \<Rightarrow>
          (case cwd of
             None \<Rightarrow> None
           | Some c \<Rightarrow> (case subpath of Some s \<Rightarrow> Some (env_join env c s) | None \<Rightarrow> Some c))
      | Tmpdir \<Rightarrow>
          (case env_tmpdir env of
             None \<Rightarrow> None
           | Some t \<Rightarrow> if t = [] then None else env_absolute env (components t))
      | SlashTmp \<Rightarrow> if env_is_dir env slash_tmp_path then Some slash_tmp_path else None)"

fun resolve_file_system_path :: "path_env \<Rightarrow> FileSystemPath \<Rightarrow> path_buf option \<Rightarrow> path_buf option" where
  "resolve_file_system_path env (AbsPath p) cwd = Some p"
| "resolve_file_system_path env (GlobPattern _) cwd = None"
| "resolve_file_system_path env (Special v) cwd = resolve_file_system_special_path env v cwd"

definition resolve_entry_path :: "path_env \<Rightarrow> FileSystemPath \<Rightarrow> path_buf option \<Rightarrow> path_buf option" where
  "resolve_entry_path env p cwd =
     (if p = Special Root
      then (case cwd of None \<Rightarrow> None | Some c \<Rightarrow> absolute_root_path_for_cwd env c)
      else resolve_file_system_path env p cwd)"

definition resolve_candidate_path :: "path_env \<Rightarrow> path_buf \<Rightarrow> path_buf \<Rightarrow> path_buf option" where
  "resolve_candidate_path env p cwd =
     (if path_is_absolute p then env_absolute env p
      else map_option (\<lambda>c. env_join env c p) (env_absolute env cwd))"

definition resolved_entries_with_cwd ::
  "path_env \<Rightarrow> FileSystemSandboxPolicy \<Rightarrow> path_buf \<Rightarrow> ResolvedFileSystemEntry list" where
  "resolved_entries_with_cwd env pol cwd =
     List.map_filter
       (\<lambda>e. map_option (\<lambda>p. \<lparr>resolved_path = p, resolved_access = entry_access e\<rparr>)
              (resolve_entry_path env (entry_path e) (env_absolute env cwd)))
       (policy_entries pol)"

section \<open>The access of a path\<close>

definition resolved_entry_precedence :: "ResolvedFileSystemEntry \<Rightarrow> nat \<times> FileSystemAccessMode" where
  "resolved_entry_precedence e = (length (resolved_path e), resolved_access e)"

definition resolve_access_with_cwd ::
  "path_env \<Rightarrow> FileSystemSandboxPolicy \<Rightarrow> path_buf \<Rightarrow> path_buf \<Rightarrow> FileSystemAccessMode" where
  "resolve_access_with_cwd env pol p cwd =
     (if policy_kind pol \<noteq> Restricted then Write
      else case resolve_candidate_path env p cwd of
             None \<Rightarrow> Deny
           | Some q \<Rightarrow>
               (case max_by_key resolved_entry_precedence
                       (filter (\<lambda>e. starts_with (resolved_path e) q) (resolved_entries_with_cwd env pol cwd)) of
                  Some e \<Rightarrow> resolved_access e
                | None \<Rightarrow> Deny))"

definition can_read_path_with_cwd ::
  "path_env \<Rightarrow> FileSystemSandboxPolicy \<Rightarrow> path_buf \<Rightarrow> path_buf \<Rightarrow> bool" where
  "can_read_path_with_cwd env pol p cwd \<longleftrightarrow> can_read (resolve_access_with_cwd env pol p cwd)"

section \<open>Protected metadata\<close>

definition PROTECTED_METADATA_PATH_NAMES :: "str list" where
  "PROTECTED_METADATA_PATH_NAMES = [lit ''.git'', lit ''.agents'', lit ''.codewith'', lit ''.codex'']"

definition is_protected_metadata_name :: "str \<Rightarrow> bool" where
  "is_protected_metadata_name name \<longleftrightarrow> name \<in> set PROTECTED_METADATA_PATH_NAMES"

definition is_protected_metadata_directory_name :: "str \<Rightarrow> bool" where
  "is_protected_metadata_directory_name name \<longleftrightarrow>
     name = lit ''.agents'' \<or> name = lit ''.codewith'' \<or> name = lit ''.codex''"

definition metadata_path_name :: "str \<Rightarrow> str option" where
  "metadata_path_name name = List.find (\<lambda>m. name = m) PROTECTED_METADATA_PATH_NAMES"

definition metadata_child :: "path_env \<Rightarrow> path_buf \<Rightarrow> ResolvedFileSystemEntry \<Rightarrow> (path_buf \<times> str) option" where
  "metadata_child env target e =
     (case strip_prefix (resolved_path e) target of
        Some (c # _) \<Rightarrow>
          map_option (\<lambda>name. (env_join env (resolved_path e) (components name), name))
            (metadata_path_name (component_str c))
      | _ \<Rightarrow> None)"

definition metadata_child_of_writable_root ::
  "path_env \<Rightarrow> FileSystemSandboxPolicy \<Rightarrow> path_buf \<Rightarrow> path_buf \<Rightarrow> (path_buf \<times> str) option" where
  "metadata_child_of_writable_root env pol target cwd =
     (case List.map_filter (metadata_child env target)
             (filter (\<lambda>e. can_write (resolved_access e)) (resolved_entries_with_cwd env pol cwd)) of
        [] \<Rightarrow> None
      | x # _ \<Rightarrow> Some x)"

definition has_explicit_write_entry_for_metadata_path ::
  "path_env \<Rightarrow> FileSystemSandboxPolicy \<Rightarrow> path_buf \<Rightarrow> path_buf \<Rightarrow> path_buf \<Rightarrow> bool" where
  "has_explicit_write_entry_for_metadata_path env pol protected_metadata_path target cwd \<longleftrightarrow>
     list_ex (\<lambda>e. can_write (resolved_access e)
                   \<and> starts_with (resolved_path e) target
                   \<and> starts_with protected_metadata_path (resolved_path e))
       (resolved_entries_with_cwd env pol cwd)"

definition is_metadata_write_denied ::
  "path_env \<Rightarrow> FileSystemSandboxPolicy \<Rightarrow> path_buf \<Rightarrow> path_buf \<Rightarrow> bool" where
  "is_metadata_write_denied env pol p cwd =
     (if policy_kind pol \<noteq> Restricted then False
      else case resolve_candidate_path env p cwd of
             None \<Rightarrow> True
           | Some target \<Rightarrow>
               (case metadata_child_of_writable_root env pol target cwd of
                  None \<Rightarrow> False
                | Some (protected, _) \<Rightarrow>
                    \<not> has_explicit_write_entry_for_metadata_path env pol protected target cwd))"

definition can_write_path_with_cwd ::
  "path_env \<Rightarrow> FileSystemSandboxPolicy \<Rightarrow> path_buf \<Rightarrow> path_buf \<Rightarrow> bool" where
  "can_write_path_with_cwd env pol p cwd =
     (if \<not> can_write (resolve_access_with_cwd env pol p cwd) then False
      else if has_full_disk_write_access pol then True
      else \<not> is_metadata_write_denied env pol p cwd)"

definition forbidden_agent_metadata_write ::
  "path_env \<Rightarrow> path_buf \<Rightarrow> path_buf \<Rightarrow> FileSystemSandboxPolicy \<Rightarrow> str option" where
  "forbidden_agent_metadata_write env p cwd pol =
     (if policy_kind pol \<noteq> Restricted then None
      else case resolve_candidate_path env p cwd of
             None \<Rightarrow> None
           | Some target \<Rightarrow>
               (case metadata_child_of_writable_root env pol target cwd of
                  None \<Rightarrow> None
                | Some (protected, name) \<Rightarrow>
                    if has_explicit_write_entry_for_metadata_path env pol protected target cwd then None
                    else if \<not> can_write_path_with_cwd env pol target cwd then Some name
                    else None))"

section \<open>Changing a policy\<close>

definition push_missing :: "'a list \<Rightarrow> 'a list \<Rightarrow> 'a list" where
  "push_missing = fold (\<lambda>x entries. if x \<in> set entries then entries else entries @ [x])"

definition deny_entries :: "FileSystemSandboxPolicy \<Rightarrow> FileSystemSandboxEntry list" where
  "deny_entries pol = filter (\<lambda>e. entry_access e = Deny) (policy_entries pol)"

definition preserve_deny_read_restrictions_from ::
  "FileSystemSandboxPolicy \<Rightarrow> FileSystemSandboxPolicy \<Rightarrow> FileSystemSandboxPolicy" where
  "preserve_deny_read_restrictions_from pol existing =
     (let start = (if policy_kind pol = Unrestricted \<and> list_ex (\<lambda>e. entry_access e = Deny) (policy_entries existing)
                   then restricted [mk_entry (Special Root) Write] else pol)
      in if policy_kind start \<noteq> Restricted then start
         else start\<lparr>glob_scan_max_depth :=
                      (if glob_scan_max_depth start = None then glob_scan_max_depth existing
                       else glob_scan_max_depth start),
                    policy_entries := push_missing (deny_entries existing) (policy_entries start)\<rparr>)"

definition project_roots_glob_prefix :: str where
  "project_roots_glob_prefix = lit ''codex-project-roots://''"

definition project_roots_glob_pattern :: "path_buf \<Rightarrow> str" where
  "project_roots_glob_pattern subpath = project_roots_glob_prefix @ path_display subpath"

definition parse_project_roots_glob_pattern :: "str \<Rightarrow> path_buf option" where
  "parse_project_roots_glob_pattern pattern =
     map_option components (strip_prefix project_roots_glob_prefix pattern)"

definition resolve_project_roots_glob_pattern :: "path_env \<Rightarrow> path_buf \<Rightarrow> path_buf \<Rightarrow> str" where
  "resolve_project_roots_glob_pattern env subpath root = path_display (env_join env root subpath)"

definition materialize_entry_with_cwd ::
  "path_env \<Rightarrow> path_buf option \<Rightarrow> FileSystemSandboxEntry \<Rightarrow> FileSystemSandboxEntry" where
  "materialize_entry_with_cwd env cwd e =
     (case entry_path e of
        Special (ProjectRoots _) \<Rightarrow>
          (case resolve_file_system_path env (entry_path e) cwd of
             Some p \<Rightarrow> e\<lparr>entry_path := AbsPath p\<rparr>
           | None \<Rightarrow> e)
      | GlobPattern pattern \<Rightarrow>
          (case (cwd, parse_project_roots_glob_pattern pattern) of
             (Some c, Some subpath) \<Rightarrow>
               e\<lparr>entry_path := GlobPattern (resolve_project_roots_glob_pattern env subpath c)\<rparr>
           | _ \<Rightarrow> e)
      | _ \<Rightarrow> e)"

definition materialize_project_roots_with_cwd ::
  "path_env \<Rightarrow> FileSystemSandboxPolicy \<Rightarrow> path_buf \<Rightarrow> FileSystemSandboxPolicy" where
  "materialize_project_roots_with_cwd env pol cwd =
     pol\<lparr>policy_entries := map (materialize_entry_with_cwd env (env_absolute env cwd)) (policy_entries pol)\<rparr>"

definition materialize_entry_with_roots ::
  "path_env \<Rightarrow> path_buf list \<Rightarrow> FileSystemSandboxEntry \<Rightarrow> FileSystemSandboxEntry list" where
  "materialize_entry_with_roots env workspace_roots e =
     (case entry_path e of
        Special (ProjectRoots subpath) \<Rightarrow>
          map (\<lambda>root. mk_entry (AbsPath (case subpath of
                                          Some s \<Rightarrow> env_join env root s
                                        | None \<Rightarrow> root)) (entry_access e)) workspace_roots
      | GlobPattern pattern \<Rightarrow>
          (case parse_project_roots_glob_pattern pattern of
             Some subpath \<Rightarrow>
               map (\<lambda>root. mk_entry (GlobPattern (resolve_project_roots_glob_pattern env subpath root))
                             (entry_access e)) workspace_roots
           | None \<Rightarrow> [mk_entry (GlobPattern pattern) (entry_access e)])
      | AbsPath p \<Rightarrow> [mk_entry (AbsPath p) (entry_access e)]
      | Special v \<Rightarrow> [mk_entry (Special v) (entry_access e)])"

definition materialize_project_roots_with_workspace_roots ::
  "path_env \<Rightarrow> FileSystemSandboxPolicy \<Rightarrow> path_buf list \<Rightarrow> FileSystemSandboxPolicy" where
  "materialize_project_roots_with_workspace_roots env pol workspace_roots =
     pol\<lparr>policy_entries := concat (map (materialize_entry_with_roots env workspace_roots) (policy_entries pol))\<rparr>"

definition with_materialized_project_roots_for_workspace_roots ::
  "path_env \<Rightarrow> FileSystemSandboxPolicy \<Rightarrow> path_buf list \<Rightarrow> FileSystemSandboxPolicy" where
  "with_materialized_project_roots_for_workspace_roots env pol workspace_roots =
     pol\<lparr>policy_entries :=
           push_missing
             (policy_entries (materialize_project_roots_with_workspace_roots env pol workspace_roots))
             (policy_entries pol)\<rparr>"

definition push_entry :: "FileSystemSandboxPolicy \<Rightarrow> FileSystemSandboxEntry \<Rightarrow> FileSystemSandboxPolicy" where
  "push_entry pol e = pol\<lparr>policy_entries := policy_entries pol @ [e]\<rparr>"

definition with_additional_readable_roots ::
  "path_env \<Rightarrow> FileSystemSandboxPolicy \<Rightarrow> path_buf \<Rightarrow> path_buf list \<Rightarrow> FileSystemSandboxPolicy" where
  "with_additional_readable_roots env pol cwd roots =
     (if has_full_disk_read_access pol then pol
      else foldl (\<lambda>acc p. if can_read_path_with_cwd env acc p cwd then acc
                          else push_entry acc (mk_entry (AbsPath p) Read)) pol roots)"

definition with_additional_writable_roots ::
  "path_env \<Rightarrow> FileSystemSandboxPolicy \<Rightarrow> path_buf \<Rightarrow> path_buf list \<Rightarrow> FileSystemSandboxPolicy" where
  "with_additional_writable_roots env pol cwd roots =
     foldl (\<lambda>acc p. if can_write_path_with_cwd env acc p cwd then acc
                    else push_entry acc (mk_entry (AbsPath p) Write)) pol roots"

end
