(* ===== verification/Permission_Profile.thy ===== *)
theory Permission_Profile
  imports Permission_Policy
begin

text \<open>
  Permission profiles (\<^verbatim>\<open>protocol/src/models.rs\<close>), the legacy sandbox policy they replace
  (\<^verbatim>\<open>protocol/src/protocol.rs\<close>) and the conversions between the two (\<^verbatim>\<open>protocol/src/permissions.rs\<close>), with
  the settings for approvals that are read beside them.
\<close>

section \<open>Subpaths of a writable root that stay read-only\<close>

definition dedup_absolute_paths :: "(path_buf \<Rightarrow> path_buf) \<Rightarrow> path_buf list \<Rightarrow> path_buf list" where
  "dedup_absolute_paths normalise paths =
     foldl (\<lambda>deduped p. if normalise p \<in> set deduped then deduped else deduped @ [normalise p]) [] paths"

definition is_git_pointer_file :: "path_env \<Rightarrow> path_buf \<Rightarrow> bool" where
  "is_git_pointer_file env p \<longleftrightarrow> env_is_file env p \<and> path_file_name p = Some (lit ''.git'')"

definition resolve_gitdir_from_file :: "path_env \<Rightarrow> path_buf \<Rightarrow> path_buf option" where
  "resolve_gitdir_from_file env dot_git =
     (case env_read_to_string env dot_git of
        None \<Rightarrow> None
      | Some contents \<Rightarrow>
          (case split_once 58 (trim contents) of
             None \<Rightarrow> None
           | Some (pre, raw) \<Rightarrow>
               if trim pre \<noteq> lit ''gitdir'' then None
               else let gitdir_raw = trim raw in
                    if gitdir_raw = [] then None
                    else (case path_parent dot_git of
                            None \<Rightarrow> None
                          | Some base \<Rightarrow>
                              let gitdir_path = env_join env base (components gitdir_raw) in
                              if env_exists env gitdir_path then Some gitdir_path else None)))"

definition default_read_only_subpaths_for_writable_root ::
  "path_env \<Rightarrow> path_buf \<Rightarrow> bool \<Rightarrow> path_buf list" where
  "default_read_only_subpaths_for_writable_root env root protect_missing_dot_codex =
     (let top_level_git = env_join env root (components (lit ''.git''));
          top_level_agents = env_join env root (components (lit ''.agents''));
          top_level_codewith = env_join env root (components (lit ''.codewith''));
          top_level_codex = env_join env root (components (lit ''.codex''));
          git_is_file = env_is_file env top_level_git;
          git_is_dir = env_is_dir env top_level_git;
          gitdir = (if git_is_file \<and> is_git_pointer_file env top_level_git
                    then resolve_gitdir_from_file env top_level_git else None)
      in dedup_absolute_paths (\<lambda>p. p)
           ((if git_is_dir \<or> git_is_file
             then (case gitdir of Some g \<Rightarrow> [g] | None \<Rightarrow> []) @ [top_level_git] else [])
            @ (if env_is_dir env top_level_agents then [top_level_agents] else [])
            @ (if protect_missing_dot_codex \<or> env_is_dir env top_level_codewith
               then [top_level_codewith] else [])
            @ (if protect_missing_dot_codex \<or> env_is_dir env top_level_codex
               then [top_level_codex] else [])))"

definition append_default_read_only_entry_if_no_explicit_rule ::
  "FileSystemPath \<Rightarrow> FileSystemSandboxEntry list \<Rightarrow> FileSystemSandboxEntry list" where
  "append_default_read_only_entry_if_no_explicit_rule p entries =
     (if list_ex (\<lambda>e. file_system_paths_share_target (entry_path e) p) entries then entries
      else entries @ [mk_entry p Read])"

definition append_default_read_only_path_if_no_explicit_rule ::
  "path_buf \<Rightarrow> FileSystemSandboxEntry list \<Rightarrow> FileSystemSandboxEntry list" where
  "append_default_read_only_path_if_no_explicit_rule p =
     append_default_read_only_entry_if_no_explicit_rule (AbsPath p)"

definition append_default_read_only_project_root_subpath_if_no_explicit_rule ::
  "str \<Rightarrow> FileSystemSandboxEntry list \<Rightarrow> FileSystemSandboxEntry list" where
  "append_default_read_only_project_root_subpath_if_no_explicit_rule subpath =
     append_default_read_only_entry_if_no_explicit_rule (Special (ProjectRoots (Some (components subpath))))"

definition protect_roots ::
  "path_env \<Rightarrow> bool \<Rightarrow> path_buf list \<Rightarrow> FileSystemSandboxEntry list \<Rightarrow> FileSystemSandboxEntry list" where
  "protect_roots env protect_missing roots entries =
     fold append_default_read_only_path_if_no_explicit_rule
       (concat (map (\<lambda>r. default_read_only_subpaths_for_writable_root env r protect_missing) roots)) entries"

definition with_additional_legacy_workspace_writable_roots ::
  "path_env \<Rightarrow> FileSystemSandboxPolicy \<Rightarrow> path_buf list \<Rightarrow> FileSystemSandboxPolicy" where
  "with_additional_legacy_workspace_writable_roots env pol roots =
     (if policy_kind pol \<noteq> Restricted then pol
      else pol\<lparr>policy_entries :=
             foldl (\<lambda>entries p.
                 protect_roots env False [p]
                   (if list_ex (\<lambda>e. can_write (entry_access e) \<and> entry_path e = AbsPath p) entries
                    then entries else entries @ [mk_entry (AbsPath p) Write]))
               (policy_entries pol) roots\<rparr>)"

section \<open>The legacy sandbox policy\<close>

text \<open>\<^verbatim>\<open>NetworkAccess\<close> has the two variants of \<^verbatim>\<open>NetworkSandboxPolicy\<close>, which stands for it. The fields of
  \<open>WorkspaceWrite\<close> are the writable roots, the network access and the two exclusions.\<close>

datatype SandboxPolicy =
  DangerFullAccess
| ReadOnly bool
| ExternalSandboxPolicy NetworkSandboxPolicy
| WorkspaceWrite "path_buf list" bool bool bool

fun sandbox_has_full_network_access :: "SandboxPolicy \<Rightarrow> bool" where
  "sandbox_has_full_network_access DangerFullAccess = True"
| "sandbox_has_full_network_access (ExternalSandboxPolicy n) = network_is_enabled n"
| "sandbox_has_full_network_access (ReadOnly n) = n"
| "sandbox_has_full_network_access (WorkspaceWrite _ n _ _) = n"

fun sandbox_has_full_disk_write_access :: "SandboxPolicy \<Rightarrow> bool" where
  "sandbox_has_full_disk_write_access DangerFullAccess = True"
| "sandbox_has_full_disk_write_access (ExternalSandboxPolicy _) = True"
| "sandbox_has_full_disk_write_access (ReadOnly _) = False"
| "sandbox_has_full_disk_write_access (WorkspaceWrite _ _ _ _) = False"

definition legacy_workspace_entries ::
  "path_buf list \<Rightarrow> bool \<Rightarrow> bool \<Rightarrow> FileSystemSandboxEntry list" where
  "legacy_workspace_entries roots exclude_tmpdir_env_var exclude_slash_tmp =
     [mk_entry (Special Root) Read, mk_entry (Special (ProjectRoots None)) Write]
     @ (if exclude_slash_tmp then [] else [mk_entry (Special SlashTmp) Write])
     @ (if exclude_tmpdir_env_var then [] else [mk_entry (Special Tmpdir) Write])
     @ map (\<lambda>p. mk_entry (AbsPath p) Write) roots"

definition workspace_write ::
  "path_env \<Rightarrow> path_buf list \<Rightarrow> bool \<Rightarrow> bool \<Rightarrow> FileSystemSandboxPolicy" where
  "workspace_write env roots exclude_tmpdir_env_var exclude_slash_tmp =
     restricted
       (protect_roots env False roots
         (fold append_default_read_only_project_root_subpath_if_no_explicit_rule
           [lit ''.git'', lit ''.agents'', lit ''.codewith'', lit ''.codex'']
           (legacy_workspace_entries roots exclude_tmpdir_env_var exclude_slash_tmp)))"

fun fs_policy_from_sandbox :: "path_env \<Rightarrow> SandboxPolicy \<Rightarrow> FileSystemSandboxPolicy" where
  "fs_policy_from_sandbox env DangerFullAccess = unrestricted"
| "fs_policy_from_sandbox env (ExternalSandboxPolicy _) = external_sandbox"
| "fs_policy_from_sandbox env (ReadOnly _) = restricted [mk_entry (Special Root) Read]"
| "fs_policy_from_sandbox env (WorkspaceWrite roots _ no_tmpdir no_tmp) =
     workspace_write env roots no_tmpdir no_tmp"

definition network_from_sandbox :: "SandboxPolicy \<Rightarrow> NetworkSandboxPolicy" where
  "network_from_sandbox s = (if sandbox_has_full_network_access s then NetEnabled else NetRestricted)"

definition cwd_root :: "path_env \<Rightarrow> path_buf \<Rightarrow> path_buf list" where
  "cwd_root env cwd = (case env_absolute env cwd of Some c \<Rightarrow> [c] | None \<Rightarrow> [])"

definition from_legacy_sandbox_policy_for_cwd ::
  "path_env \<Rightarrow> SandboxPolicy \<Rightarrow> path_buf \<Rightarrow> FileSystemSandboxPolicy" where
  "from_legacy_sandbox_policy_for_cwd env s cwd =
     (let pol = fs_policy_from_sandbox env s in
      case s of
        WorkspaceWrite roots _ _ _ \<Rightarrow>
          pol\<lparr>policy_entries :=
                protect_roots env False roots (protect_roots env True (cwd_root env cwd) (policy_entries pol))\<rparr>
      | _ \<Rightarrow> pol)"

definition from_legacy_sandbox_policy_preserving_deny_entries ::
  "path_env \<Rightarrow> SandboxPolicy \<Rightarrow> path_buf \<Rightarrow> FileSystemSandboxPolicy \<Rightarrow> FileSystemSandboxPolicy" where
  "from_legacy_sandbox_policy_preserving_deny_entries env s cwd existing =
     (let rebuilt = from_legacy_sandbox_policy_for_cwd env s cwd in
      if policy_kind rebuilt \<noteq> Restricted then rebuilt
      else rebuilt\<lparr>glob_scan_max_depth := glob_scan_max_depth existing,
                   policy_entries := push_missing (deny_entries existing) (policy_entries rebuilt)\<rparr>)"

definition legacy_runtime_file_system_policy_for_cwd ::
  "path_env \<Rightarrow> SandboxPolicy \<Rightarrow> path_buf \<Rightarrow> FileSystemSandboxPolicy" where
  "legacy_runtime_file_system_policy_for_cwd env s cwd =
     (case s of
        WorkspaceWrite roots _ no_tmpdir no_tmp \<Rightarrow>
          restricted
            (protect_roots env False roots
              (protect_roots env True (cwd_root env cwd) (legacy_workspace_entries roots no_tmpdir no_tmp)))
      | _ \<Rightarrow> fs_policy_from_sandbox env s)"

section \<open>From a file system policy to a legacy policy\<close>

record legacy_scan =
  workspace_root_writable :: bool
  scan_writable_roots :: "path_buf list"
  tmpdir_writable :: bool
  slash_tmp_writable :: bool
  unbridgeable_root_write :: bool

definition legacy_scan_start :: legacy_scan where
  "legacy_scan_start =
     \<lparr>workspace_root_writable = False, scan_writable_roots = [], tmpdir_writable = False,
      slash_tmp_writable = False, unbridgeable_root_write = False\<rparr>"

definition legacy_scan_step ::
  "path_env \<Rightarrow> path_buf option \<Rightarrow> legacy_scan \<Rightarrow> FileSystemSandboxEntry \<Rightarrow> legacy_scan" where
  "legacy_scan_step env cwd st e =
     (case entry_path e of
        GlobPattern _ \<Rightarrow> st
      | AbsPath p \<Rightarrow>
          if can_write (entry_access e) then
            if cwd = Some p then st\<lparr>workspace_root_writable := True\<rparr>
            else st\<lparr>scan_writable_roots := scan_writable_roots st @ [p]\<rparr>
          else st
      | Special Root \<Rightarrow> if entry_access e = Write then st\<lparr>unbridgeable_root_write := True\<rparr> else st
      | Special Minimal \<Rightarrow> st
      | Special (ProjectRoots subpath) \<Rightarrow>
          if subpath = None \<and> can_write (entry_access e) then st\<lparr>workspace_root_writable := True\<rparr>
          else (case resolve_file_system_special_path env (ProjectRoots subpath) cwd of
                  Some p \<Rightarrow>
                    if can_write (entry_access e)
                    then st\<lparr>scan_writable_roots := scan_writable_roots st @ [p]\<rparr> else st
                | None \<Rightarrow> st)
      | Special Tmpdir \<Rightarrow> if can_write (entry_access e) then st\<lparr>tmpdir_writable := True\<rparr> else st
      | Special SlashTmp \<Rightarrow> if can_write (entry_access e) then st\<lparr>slash_tmp_writable := True\<rparr> else st
      | Special (UnknownPath _ _) \<Rightarrow> st)"

definition unbridgeable_msg :: str where
  "unbridgeable_msg =
     lit ''permissions profile requests filesystem writes outside the workspace root, which is not supported until the runtime enforces FileSystemSandboxPolicy directly''"

definition to_legacy_sandbox_policy ::
  "path_env \<Rightarrow> FileSystemSandboxPolicy \<Rightarrow> NetworkSandboxPolicy \<Rightarrow> path_buf \<Rightarrow> io_error + SandboxPolicy" where
  "to_legacy_sandbox_policy env pol net cwd =
     (case policy_kind pol of
        ExternalSandbox \<Rightarrow>
          Inr (ExternalSandboxPolicy (if network_is_enabled net then NetEnabled else NetRestricted))
      | Unrestricted \<Rightarrow>
          Inr (if network_is_enabled net then DangerFullAccess else ExternalSandboxPolicy NetRestricted)
      | Restricted \<Rightarrow>
          let st = foldl (legacy_scan_step env (env_absolute env cwd)) legacy_scan_start (policy_entries pol) in
          if has_full_disk_write_access pol then
            Inr (if network_is_enabled net then DangerFullAccess else ExternalSandboxPolicy NetRestricted)
          else if workspace_root_writable st then
            Inr (WorkspaceWrite (dedup_absolute_paths (\<lambda>p. p) (scan_writable_roots st))
                   (network_is_enabled net) (\<not> tmpdir_writable st) (\<not> slash_tmp_writable st))
          else if unbridgeable_root_write st \<or> scan_writable_roots st \<noteq> [] \<or> tmpdir_writable st
                  \<or> slash_tmp_writable st then
            Inl \<lparr>kind = InvalidInput, message = unbridgeable_msg\<rparr>
          else Inr (ReadOnly (network_is_enabled net)))"

section \<open>Permission profiles\<close>

datatype ManagedFileSystemPermissions =
  ManagedRestricted "FileSystemSandboxEntry list" "nat option"
| ManagedUnrestricted

datatype PermissionProfile =
  Managed ManagedFileSystemPermissions NetworkSandboxPolicy
| Disabled
| External NetworkSandboxPolicy

datatype SandboxEnforcement = EnforceManaged | EnforceDisabled | EnforceExternal

text \<open>\<^verbatim>\<open>NonZeroUsize::new\<close>: the depth of a managed profile is never zero.\<close>

definition non_zero :: "nat option \<Rightarrow> nat option" where
  "non_zero d = (case d of Some n \<Rightarrow> if n = 0 then None else Some n | None \<Rightarrow> None)"

text \<open>The external kind is unreachable here, the code panics on it: None.\<close>

definition managed_from_sandbox_policy :: "FileSystemSandboxPolicy \<Rightarrow> ManagedFileSystemPermissions option" where
  "managed_from_sandbox_policy pol =
     (case policy_kind pol of
        Restricted \<Rightarrow> Some (ManagedRestricted (policy_entries pol) (non_zero (glob_scan_max_depth pol)))
      | Unrestricted \<Rightarrow> Some ManagedUnrestricted
      | ExternalSandbox \<Rightarrow> None)"

fun to_sandbox_policy :: "ManagedFileSystemPermissions \<Rightarrow> FileSystemSandboxPolicy" where
  "to_sandbox_policy (ManagedRestricted entries depth) =
     \<lparr>policy_kind = Restricted, glob_scan_max_depth = depth, policy_entries = entries\<rparr>"
| "to_sandbox_policy ManagedUnrestricted = unrestricted"

fun file_system_sandbox_policy :: "PermissionProfile \<Rightarrow> FileSystemSandboxPolicy" where
  "file_system_sandbox_policy (Managed file_system _) = to_sandbox_policy file_system"
| "file_system_sandbox_policy Disabled = unrestricted"
| "file_system_sandbox_policy (External _) = external_sandbox"

fun network_sandbox_policy :: "PermissionProfile \<Rightarrow> NetworkSandboxPolicy" where
  "network_sandbox_policy (Managed _ network) = network"
| "network_sandbox_policy (External network) = network"
| "network_sandbox_policy Disabled = NetEnabled"

fun enforcement :: "PermissionProfile \<Rightarrow> SandboxEnforcement" where
  "enforcement (Managed _ _) = EnforceManaged"
| "enforcement Disabled = EnforceDisabled"
| "enforcement (External _) = EnforceExternal"

fun enforcement_from_legacy :: "SandboxPolicy \<Rightarrow> SandboxEnforcement" where
  "enforcement_from_legacy DangerFullAccess = EnforceDisabled"
| "enforcement_from_legacy (ExternalSandboxPolicy _) = EnforceExternal"
| "enforcement_from_legacy (ReadOnly _) = EnforceManaged"
| "enforcement_from_legacy (WorkspaceWrite _ _ _ _) = EnforceManaged"

definition from_runtime_permissions_with_enforcement ::
  "SandboxEnforcement \<Rightarrow> FileSystemSandboxPolicy \<Rightarrow> NetworkSandboxPolicy \<Rightarrow> PermissionProfile option" where
  "from_runtime_permissions_with_enforcement enf pol net =
     (case policy_kind pol of
        ExternalSandbox \<Rightarrow> Some (External net)
      | Unrestricted \<Rightarrow>
          if enf = EnforceDisabled then Some Disabled
          else map_option (\<lambda>m. Managed m net) (managed_from_sandbox_policy pol)
      | Restricted \<Rightarrow> map_option (\<lambda>m. Managed m net) (managed_from_sandbox_policy pol))"

definition from_runtime_permissions ::
  "FileSystemSandboxPolicy \<Rightarrow> NetworkSandboxPolicy \<Rightarrow> PermissionProfile option" where
  "from_runtime_permissions pol net =
     from_runtime_permissions_with_enforcement
       (if policy_kind pol = ExternalSandbox then EnforceExternal else EnforceManaged) pol net"

definition to_runtime_permissions :: "PermissionProfile \<Rightarrow> FileSystemSandboxPolicy \<times> NetworkSandboxPolicy" where
  "to_runtime_permissions p = (file_system_sandbox_policy p, network_sandbox_policy p)"

definition profile_from_legacy_sandbox_policy :: "path_env \<Rightarrow> SandboxPolicy \<Rightarrow> PermissionProfile option" where
  "profile_from_legacy_sandbox_policy env s =
     from_runtime_permissions_with_enforcement (enforcement_from_legacy s)
       (fs_policy_from_sandbox env s) (network_from_sandbox s)"

fun profile_to_legacy_sandbox_policy ::
  "path_env \<Rightarrow> PermissionProfile \<Rightarrow> path_buf \<Rightarrow> io_error + SandboxPolicy" where
  "profile_to_legacy_sandbox_policy env (Managed file_system network) cwd =
     to_legacy_sandbox_policy env (to_sandbox_policy file_system) network cwd"
| "profile_to_legacy_sandbox_policy env Disabled cwd = Inr DangerFullAccess"
| "profile_to_legacy_sandbox_policy env (External network) cwd =
     Inr (ExternalSandboxPolicy (if network_is_enabled network then NetEnabled else NetRestricted))"

section \<open>Approval settings\<close>

record GranularApprovalConfig =
  sandbox_approval :: bool
  rules_approval :: bool
  skill_approval :: bool
  request_permissions :: bool
  mcp_elicitations :: bool

datatype AskForApproval = UnlessTrusted | OnFailure | OnRequest | Granular GranularApprovalConfig | Never

datatype SandboxPermissions = UseDefault | RequireEscalated | WithAdditionalPermissions

definition requires_escalated_permissions :: "SandboxPermissions \<Rightarrow> bool" where
  "requires_escalated_permissions p \<longleftrightarrow> p = RequireEscalated"

definition requests_sandbox_override :: "SandboxPermissions \<Rightarrow> bool" where
  "requests_sandbox_override p \<longleftrightarrow> p \<noteq> UseDefault"

definition uses_additional_permissions :: "SandboxPermissions \<Rightarrow> bool" where
  "uses_additional_permissions p \<longleftrightarrow> p = WithAdditionalPermissions"

end
