(* ===== verification/Exec_Approval.thy ===== *)
theory Exec_Approval
  imports Exec_Policy_Amend Command_Safety Permission_Profile
begin

text \<open>
  Whether a command runs, needs the user's approval or is refused (\<^verbatim>\<open>core/src/exec_policy.rs\<close>, as built
  for Unix): the command is split into the commands of its shell script, the policy is evaluated on
  each, and a command no rule matches is decided from the approval setting, the sandbox and the
  command classifiers. Approved commands may be added to the policy.

  \<open>ts\<close> is the parser of shell scripts, \<open>mm\<close> the multimap of the policy, \<open>home\<close> and \<open>cwd\<close> the directories of
  the process and \<open>shlex_join\<close> the quoting of the \<^verbatim>\<open>shlex\<close> crate, None where it fails.
\<close>

section \<open>Constants\<close>

definition PROMPT_CONFLICT_REASON :: str where
  "PROMPT_CONFLICT_REASON = lit ''approval required by policy, but AskForApproval is set to Never''"

definition REJECT_SANDBOX_APPROVAL_REASON :: str where
  "REJECT_SANDBOX_APPROVAL_REASON =
     lit ''approval required by policy, but AskForApproval::Granular.sandbox_approval is false''"

definition REJECT_RULES_APPROVAL_REASON :: str where
  "REJECT_RULES_APPROVAL_REASON =
     lit ''approval required by policy rule, but AskForApproval::Granular.rules is false''"

definition RULES_DIR_NAME :: str where "RULES_DIR_NAME = lit ''rules''"

definition RULE_EXTENSION :: str where "RULE_EXTENSION = lit ''rules''"

definition DEFAULT_POLICY_FILE :: str where "DEFAULT_POLICY_FILE = lit ''default.rules''"

definition BANNED_PREFIX_SUGGESTIONS :: "str list list" where
  "BANNED_PREFIX_SUGGESTIONS = map (map lit)
     [[''/bin/bash''], [''/bin/bash'', ''-c''], [''/bin/bash'', ''-lc''], [''/bin/sh''],
      [''/bin/sh'', ''-c''], [''/bin/sh'', ''-lc''], [''/bin/zsh''], [''/bin/zsh'', ''-c''],
      [''/bin/zsh'', ''-lc''], [''Rscript''], [''bash''], [''bash'', ''-c''], [''bash'', ''-lc''],
      [''bun''], [''bun'', ''-e''], [''bun'', ''run''], [''cmd''], [''cmd'', ''/c''],
      [''cmd'', ''/k''], [''cmd.exe''], [''cmd.exe'', ''/c''], [''cmd.exe'', ''/k''], [''dash''],
      [''dash'', ''-c''], [''deno''], [''deno'', ''eval''], [''env''], [''fish''],
      [''fish'', ''-c''], [''git''], [''julia''], [''julia'', ''-e''], [''ksh''], [''ksh'', ''-c''],
      [''lua''], [''lua'', ''-e''], [''node''], [''node'', ''-e''], [''nodejs''],
      [''nodejs'', ''-e''], [''npm'', ''run''], [''osascript''], [''perl''], [''perl'', ''-e''],
      [''php''], [''php'', ''-r''], [''pnpm'', ''run''], [''powershell''],
      [''powershell'', ''-Command''], [''powershell'', ''-EncodedCommand''],
      [''powershell'', ''-File''], [''powershell'', ''-c''], [''powershell.exe''],
      [''powershell.exe'', ''-Command''], [''powershell.exe'', ''-EncodedCommand''],
      [''powershell.exe'', ''-File''], [''powershell.exe'', ''-c''], [''pwsh''],
      [''pwsh'', ''-Command''], [''pwsh'', ''-EncodedCommand''], [''pwsh'', ''-File''],
      [''pwsh'', ''-c''], [''pwsh'', ''-e''], [''pwsh'', ''-ec''], [''pwsh'', ''-f''], [''py''],
      [''py'', ''-3''], [''pypy''], [''pypy3''], [''python''], [''python'', ''-''],
      [''python'', ''-c''], [''python3''], [''python3'', ''-''], [''python3'', ''-c''],
      [''pythonw''], [''pyw''], [''rm''], [''ruby''], [''ruby'', ''-e''], [''sh''],
      [''sh'', ''-c''], [''sh'', ''-lc''], [''sudo''], [''yarn'', ''run''], [''zsh''],
      [''zsh'', ''-c''], [''zsh'', ''-lc'']]"

section \<open>Requests and requirements\<close>

record ExecPolicyAmendment =
  amendment_command :: "str list"

datatype ExecApprovalRequirement =
  Skip bool "ExecPolicyAmendment option"
| NeedsApproval "str option" "ExecPolicyAmendment option"
| ForbiddenRequirement str

record ExecApprovalRequest =
  req_command :: "str list"
  req_approval_policy :: AskForApproval
  req_permission_profile :: PermissionProfile
  req_sandbox_permissions :: SandboxPermissions
  req_prefix_rule :: "str list option"

record UnmatchedCommandContext =
  ctx_approval_policy :: AskForApproval
  ctx_permission_profile :: PermissionProfile
  ctx_sandbox_permissions :: SandboxPermissions
  ctx_used_complex_parsing :: bool

record ExecPolicyCommands =
  policy_commands :: "str list list"
  used_complex_parsing :: bool

fun is_policy_match :: "RuleMatch \<Rightarrow> bool" where
  "is_policy_match (PrefixRuleMatch _ _ _ _) = True"
| "is_policy_match (HeuristicsRuleMatch _ _) = False"

fun prompt_is_rejected_by_policy :: "AskForApproval \<Rightarrow> bool \<Rightarrow> str option" where
  "prompt_is_rejected_by_policy Never prompt_is_rule = Some PROMPT_CONFLICT_REASON"
| "prompt_is_rejected_by_policy OnFailure prompt_is_rule = None"
| "prompt_is_rejected_by_policy OnRequest prompt_is_rule = None"
| "prompt_is_rejected_by_policy UnlessTrusted prompt_is_rule = None"
| "prompt_is_rejected_by_policy (Granular cfg) prompt_is_rule =
     (if prompt_is_rule then
        if \<not> rules_approval cfg then Some REJECT_RULES_APPROVAL_REASON else None
      else if \<not> sandbox_approval cfg then Some REJECT_SANDBOX_APPROVAL_REASON else None)"

section \<open>Commands no rule matches\<close>

definition sandbox_is_explicitly_disabled :: "PermissionProfile \<Rightarrow> bool" where
  "sandbox_is_explicitly_disabled p = (case p of Disabled \<Rightarrow> True | External _ \<Rightarrow> True | Managed _ _ \<Rightarrow> False)"

definition restricted_sandbox_decision :: "UnmatchedCommandContext \<Rightarrow> Decision" where
  "restricted_sandbox_decision ctx =
     (case policy_kind (file_system_sandbox_policy (ctx_permission_profile ctx)) of
        Restricted \<Rightarrow>
          if requests_sandbox_override (ctx_sandbox_permissions ctx) then Prompt else Allow
      | _ \<Rightarrow> Allow)"

definition render_decision_for_unmatched_command ::
  "shell_parser \<Rightarrow> str list \<Rightarrow> UnmatchedCommandContext \<Rightarrow> Decision" where
  "render_decision_for_unmatched_command ts cmd ctx =
     (if is_known_safe_command ts cmd \<and> \<not> ctx_used_complex_parsing ctx
         \<and> ctx_approval_policy ctx = UnlessTrusted
      then Allow
      else if dangerous_command_match ts cmd \<noteq> None then
        (case ctx_approval_policy ctx of
           Never \<Rightarrow>
             if sandbox_is_explicitly_disabled (ctx_permission_profile ctx) then Allow else Forbidden
         | _ \<Rightarrow> Prompt)
      else
        (case ctx_approval_policy ctx of
           Never \<Rightarrow> Allow
         | OnFailure \<Rightarrow> Allow
         | UnlessTrusted \<Rightarrow> Prompt
         | OnRequest \<Rightarrow> restricted_sandbox_decision ctx
         | Granular _ \<Rightarrow> restricted_sandbox_decision ctx))"

definition commands_for_exec_policy :: "shell_parser \<Rightarrow> str list \<Rightarrow> ExecPolicyCommands" where
  "commands_for_exec_policy ts cmd =
     (case parse_shell_lc_plain_commands ts cmd of
        Some (c # cs) \<Rightarrow> \<lparr>policy_commands = c # cs, used_complex_parsing = False\<rparr>
      | _ \<Rightarrow>
          (case parse_shell_lc_single_command_prefix ts cmd of
             Some single_command \<Rightarrow> \<lparr>policy_commands = [single_command], used_complex_parsing = True\<rparr>
           | None \<Rightarrow> \<lparr>policy_commands = [cmd], used_complex_parsing = False\<rparr>))"

section \<open>Amendments\<close>

fun heuristics_command :: "Decision \<Rightarrow> RuleMatch \<Rightarrow> ExecPolicyAmendment option" where
  "heuristics_command d (HeuristicsRuleMatch cmd d') =
     (if d' = d then Some \<lparr>amendment_command = cmd\<rparr> else None)"
| "heuristics_command d (PrefixRuleMatch _ _ _ _) = None"

definition policy_prompts :: "RuleMatch list \<Rightarrow> bool" where
  "policy_prompts ms \<longleftrightarrow> list_ex (\<lambda>m. is_policy_match m \<and> match_decision m = Prompt) ms"

definition try_derive_execpolicy_amendment_for_prompt_rules ::
  "RuleMatch list \<Rightarrow> ExecPolicyAmendment option" where
  "try_derive_execpolicy_amendment_for_prompt_rules ms =
     (if policy_prompts ms then None else find_map (heuristics_command Prompt) ms)"

definition try_derive_execpolicy_amendment_for_allow_rules ::
  "RuleMatch list \<Rightarrow> ExecPolicyAmendment option" where
  "try_derive_execpolicy_amendment_for_allow_rules ms =
     (if list_ex is_policy_match ms then None else find_map (heuristics_command Allow) ms)"

definition prefix_rule_would_approve_all_commands ::
  "('m, PrefixRule) multimap_ops \<Rightarrow> path_buf option \<Rightarrow> path_buf option \<Rightarrow> 'm Policy \<Rightarrow> str list
   \<Rightarrow> str list list \<Rightarrow> (str list \<Rightarrow> Decision) \<Rightarrow> MatchOptions \<Rightarrow> bool" where
  "prefix_rule_would_approve_all_commands mm home cwd pol prefix_rule commands fallback options =
     (case (add_prefix_rule mm pol prefix_rule Allow :: unit policy_error + _) of
        Inl _ \<Rightarrow> False
      | Inr pol' \<Rightarrow>
          list_all (\<lambda>cmd. map_option eval_decision (check_with_options mm home cwd pol' cmd fallback options)
                            = Some Allow) commands)"

definition derive_requested_execpolicy_amendment_from_prefix_rule ::
  "('m, PrefixRule) multimap_ops \<Rightarrow> path_buf option \<Rightarrow> path_buf option \<Rightarrow> str list option
   \<Rightarrow> RuleMatch list \<Rightarrow> 'm Policy \<Rightarrow> str list list \<Rightarrow> (str list \<Rightarrow> Decision) \<Rightarrow> MatchOptions
   \<Rightarrow> ExecPolicyAmendment option" where
  "derive_requested_execpolicy_amendment_from_prefix_rule mm home cwd prefix_rule ms pol commands fallback options =
     (case prefix_rule of
        None \<Rightarrow> None
      | Some pre \<Rightarrow>
          if pre = [] then None
          else if pre \<in> set BANNED_PREFIX_SUGGESTIONS then None
          else if list_ex is_policy_match ms then None
          else if prefix_rule_would_approve_all_commands mm home cwd pol pre commands fallback options
          then Some \<lparr>amendment_command = pre\<rparr>
          else None)"

section \<open>Reasons\<close>

definition render_shlex_command :: "(str list \<Rightarrow> str option) \<Rightarrow> str list \<Rightarrow> str" where
  "render_shlex_command shlex_join args =
     (case shlex_join args of Some s \<Rightarrow> s | None \<Rightarrow> join_with [sp] args)"

fun prefix_match_of :: "Decision \<Rightarrow> RuleMatch \<Rightarrow> (str list \<times> str option) option" where
  "prefix_match_of d (PrefixRuleMatch pre d' _ j) = (if d' = d then Some (pre, j) else None)"
| "prefix_match_of d (HeuristicsRuleMatch _ _) = None"

definition most_specific :: "Decision \<Rightarrow> RuleMatch list \<Rightarrow> (str list \<times> str option) option" where
  "most_specific d ms = max_by_key (\<lambda>m. length (fst m)) (List.map_filter (prefix_match_of d) ms)"

definition derive_prompt_reason ::
  "(str list \<Rightarrow> str option) \<Rightarrow> str list \<Rightarrow> Evaluation \<Rightarrow> str option" where
  "derive_prompt_reason shlex_join args ev =
     (let command = render_shlex_command shlex_join args in
      case most_specific Prompt (eval_matched_rules ev) of
        Some (_, Some j) \<Rightarrow> Some (backquoted command @ lit '' requires approval: '' @ j)
      | Some (_, None) \<Rightarrow> Some (backquoted command @ lit '' requires approval by policy'')
      | None \<Rightarrow> None)"

fun dangerous_command_rejection_reason :: "DangerousCommandMatch \<Rightarrow> str" where
  "dangerous_command_rejection_reason ForcedRm =
     lit ''rm -f style commands are not permitted. Use a safer approach''"
| "dangerous_command_rejection_reason OtherDanger = lit ''blocked by policy''"

definition derive_forbidden_reason ::
  "(str list \<Rightarrow> str option) \<Rightarrow> str list \<Rightarrow> Evaluation \<Rightarrow> DangerousCommandMatch option \<Rightarrow> str" where
  "derive_forbidden_reason shlex_join args ev danger =
     (let command = render_shlex_command shlex_join args in
      case most_specific Forbidden (eval_matched_rules ev) of
        Some (_, Some j) \<Rightarrow> backquoted command @ lit '' rejected: '' @ j
      | Some (pre, None) \<Rightarrow>
          backquoted command @ lit '' rejected: policy forbids commands starting with ''
          @ backquoted (render_shlex_command shlex_join pre)
      | None \<Rightarrow>
          (case danger of
             Some d \<Rightarrow> backquoted command @ lit '' rejected: '' @ dangerous_command_rejection_reason d
           | None \<Rightarrow> backquoted command @ lit '' rejected: blocked by policy''))"

fun derive_rejected_prompt_reason :: "str \<Rightarrow> DangerousCommandMatch option \<Rightarrow> str" where
  "derive_rejected_prompt_reason fallback_reason (Some ForcedRm) = dangerous_command_rejection_reason ForcedRm"
| "derive_rejected_prompt_reason fallback_reason (Some OtherDanger) = fallback_reason"
| "derive_rejected_prompt_reason fallback_reason None = fallback_reason"

fun heuristics_danger :: "shell_parser \<Rightarrow> Decision \<Rightarrow> RuleMatch \<Rightarrow> DangerousCommandMatch option" where
  "heuristics_danger ts d (HeuristicsRuleMatch cmd d') =
     (if d' = d then dangerous_command_match ts cmd else None)"
| "heuristics_danger ts d (PrefixRuleMatch _ _ _ _) = None"

definition dangerous_command_match_for_heuristics ::
  "shell_parser \<Rightarrow> Evaluation \<Rightarrow> Decision \<Rightarrow> DangerousCommandMatch option" where
  "dangerous_command_match_for_heuristics ts ev d = find_map (heuristics_danger ts d) (eval_matched_rules ev)"

section \<open>The requirement of a command\<close>

definition host_match_options :: MatchOptions where
  "host_match_options = \<lparr>resolve_host_executables = True\<rparr>"

definition exec_policy_fallback ::
  "shell_parser \<Rightarrow> ExecApprovalRequest \<Rightarrow> bool \<Rightarrow> str list \<Rightarrow> Decision" where
  "exec_policy_fallback ts req complex cmd =
     render_decision_for_unmatched_command ts cmd
       \<lparr>ctx_approval_policy = req_approval_policy req,
        ctx_permission_profile = req_permission_profile req,
        ctx_sandbox_permissions = req_sandbox_permissions req,
        ctx_used_complex_parsing = complex\<rparr>"

definition explicitly_allowed ::
  "('m, PrefixRule) multimap_ops \<Rightarrow> path_buf option \<Rightarrow> path_buf option \<Rightarrow> 'm Policy \<Rightarrow> str list \<Rightarrow> bool" where
  "explicitly_allowed mm home cwd pol cmd \<longleftrightarrow>
     list_ex (\<lambda>m. is_policy_match m \<and> match_decision m = Allow)
       (matches_for_command_with_options mm home cwd pol cmd None host_match_options)"

text \<open>None stands for the panic of an evaluation without matches.\<close>

definition create_exec_approval_requirement_for_command ::
  "shell_parser \<Rightarrow> ('m, PrefixRule) multimap_ops \<Rightarrow> path_buf option \<Rightarrow> path_buf option
   \<Rightarrow> (str list \<Rightarrow> str option) \<Rightarrow> 'm Policy \<Rightarrow> ExecApprovalRequest \<Rightarrow> ExecApprovalRequirement option" where
  "create_exec_approval_requirement_for_command ts mm home cwd shlex_join pol req =
     (let parsed = commands_for_exec_policy ts (req_command req);
          commands = policy_commands parsed;
          auto_amendment_allowed = (\<not> used_complex_parsing parsed);
          fallback = exec_policy_fallback ts req (used_complex_parsing parsed)
      in case check_multiple_with_options mm home cwd pol commands fallback host_match_options of
           None \<Rightarrow> None
         | Some ev \<Rightarrow>
             let requested_amendment =
                   (if auto_amendment_allowed
                    then derive_requested_execpolicy_amendment_from_prefix_rule mm home cwd
                           (req_prefix_rule req) (eval_matched_rules ev) pol commands fallback host_match_options
                    else None)
             in Some (case eval_decision ev of
                  Forbidden \<Rightarrow>
                    ForbiddenRequirement
                      (derive_forbidden_reason shlex_join (req_command req) ev
                        (dangerous_command_match_for_heuristics ts ev Forbidden))
                | Prompt \<Rightarrow>
                    (let prompt_is_rule = policy_prompts (eval_matched_rules ev) in
                     case prompt_is_rejected_by_policy (req_approval_policy req) prompt_is_rule of
                       Some reason \<Rightarrow>
                         if prompt_is_rule then ForbiddenRequirement reason
                         else ForbiddenRequirement
                                (derive_rejected_prompt_reason reason
                                  (dangerous_command_match_for_heuristics ts ev Prompt))
                     | None \<Rightarrow>
                         NeedsApproval (derive_prompt_reason shlex_join (req_command req) ev)
                           (case requested_amendment of
                              Some a \<Rightarrow> Some a
                            | None \<Rightarrow>
                                if auto_amendment_allowed
                                then try_derive_execpolicy_amendment_for_prompt_rules (eval_matched_rules ev)
                                else None))
                | Allow \<Rightarrow>
                    Skip (list_all (explicitly_allowed mm home cwd pol) commands)
                      (if auto_amendment_allowed
                       then try_derive_execpolicy_amendment_for_allow_rules (eval_matched_rules ev)
                       else None)))"

section \<open>Updating the policy\<close>

definition default_policy_path :: "path_buf \<Rightarrow> path_buf" where
  "default_policy_path codex_home =
     path_join (path_join codex_home (components RULES_DIR_NAME)) (components DEFAULT_POLICY_FILE)"

text \<open>The semaphore is never closed and the blocking task does not panic, so two of the errors are never
  returned.\<close>

datatype ('j, 'e) ExecPolicyUpdateError =
  AppendRule path_buf "'j AmendError"
| JoinBlockingTask
| AddRule "'e policy_error"

definition already_allowed ::
  "('m, PrefixRule) multimap_ops \<Rightarrow> path_buf option \<Rightarrow> path_buf option \<Rightarrow> 'm Policy \<Rightarrow> str list \<Rightarrow> bool" where
  "already_allowed mm home cwd pol cmd =
     (case check_multiple_with_options mm home cwd pol [cmd] (\<lambda>_. Forbidden) host_match_options of
        Some ev \<Rightarrow>
          eval_decision ev = Allow
          \<and> list_ex (\<lambda>m. is_policy_match m \<and> match_decision m = Allow) (eval_matched_rules ev)
      | None \<Rightarrow> False)"

definition append_amendment_and_update ::
  "(str \<Rightarrow> 'j + str) \<Rightarrow> 's amend_fs \<Rightarrow> ('m, PrefixRule) multimap_ops \<Rightarrow> path_buf option \<Rightarrow> path_buf option
   \<Rightarrow> path_buf \<Rightarrow> ExecPolicyAmendment \<Rightarrow> 's \<times> 'm Policy
   \<Rightarrow> ('s \<times> 'm Policy) \<times> (('j, 'e) ExecPolicyUpdateError + unit)" where
  "append_amendment_and_update json fsys mm home cwd codex_home amendment = (\<lambda>(s, pol).
     let policy_path = default_policy_path codex_home in
     case blocking_append_allow_prefix_rule json fsys policy_path (amendment_command amendment) s of
       (s1, Inl e) \<Rightarrow> ((s1, pol), Inl (AppendRule policy_path e))
     | (s1, Inr _) \<Rightarrow>
         if already_allowed mm home cwd pol (amendment_command amendment) then ((s1, pol), Inr ())
         else (case add_prefix_rule mm pol (amendment_command amendment) Allow of
                 Inl e \<Rightarrow> ((s1, pol), Inl (AddRule e))
               | Inr pol' \<Rightarrow> ((s1, pol'), Inr ())))"

definition append_network_rule_and_update ::
  "(str \<Rightarrow> 'j + str) \<Rightarrow> 's amend_fs \<Rightarrow> path_buf \<Rightarrow> str \<Rightarrow> NetworkRuleProtocol \<Rightarrow> Decision \<Rightarrow> str option
   \<Rightarrow> 's \<times> 'm Policy \<Rightarrow> ('s \<times> 'm Policy) \<times> (('j, 'e) ExecPolicyUpdateError + unit)" where
  "append_network_rule_and_update json fsys codex_home host protocol d j = (\<lambda>(s, pol).
     let policy_path = default_policy_path codex_home in
     case blocking_append_network_rule json fsys policy_path host protocol d j s of
       (s1, Inl e) \<Rightarrow> ((s1, pol), Inl (AppendRule policy_path e))
     | (s1, Inr _) \<Rightarrow>
         (case add_network_rule pol host protocol d j of
            Inl e \<Rightarrow> ((s1, pol), Inl (AddRule e))
          | Inr pol' \<Rightarrow> ((s1, pol'), Inr ())))"

end
