(* ===== verification/Permission_Roots.thy ===== *)
theory Permission_Roots
  imports Permission_Profile "HOL-Library.List_Lexorder"
begin

text \<open>
  What a platform sandbox is told about a policy (the second half of \<^verbatim>\<open>protocol/src/permissions.rs\<close>): the roots
  that are readable, writable with their read-only subpaths, and unreadable, the comparison of policies by these,
  and the matcher that refuses reads inside the program itself. Resolving symbolic links is
  \<^verbatim>\<open>utils/absolute-path/src/lib.rs\<close> over the environment; compiling and matching a glob pattern is the \<^verbatim>\<open>globset\<close>
  crate, an argument.
\<close>

section \<open>Paths behind symbolic links\<close>

definition should_preserve_logical_path :: "path_env \<Rightarrow> path_buf \<Rightarrow> bool" where
  "should_preserve_logical_path env logical \<longleftrightarrow>
     list_ex (\<lambda>ancestor. env_is_symlink env ancestor = Some True \<and> Option.bind (path_parent ancestor) path_parent \<noteq> None)
       (path_ancestors logical)"

definition canonicalize_preserving_symlinks :: "path_env \<Rightarrow> path_buf \<Rightarrow> path_buf option" where
  "canonicalize_preserving_symlinks env p =
     (case env_absolute env p of
        None \<Rightarrow> None
      | Some logical \<Rightarrow>
          (case env_canonicalize env p of
             Some canonical \<Rightarrow>
               if should_preserve_logical_path env logical \<and> canonical \<noteq> logical then Some logical else Some canonical
           | None \<Rightarrow> Some logical))"

definition canonicalize_existing_preserving_symlinks :: "path_env \<Rightarrow> path_buf \<Rightarrow> path_buf option" where
  "canonicalize_existing_preserving_symlinks env p =
     (case (env_absolute env p, env_canonicalize env p) of
        (Some logical, Some canonical) \<Rightarrow>
          Some (if should_preserve_logical_path env logical \<and> canonical \<noteq> logical then logical else canonical)
      | _ \<Rightarrow> None)"

definition normalize_effective_absolute_path :: "path_env \<Rightarrow> path_buf \<Rightarrow> path_buf" where
  "normalize_effective_absolute_path env p =
     (case find_map (\<lambda>ancestor.
         if env_is_symlink env ancestor = None then None
         else case canonicalize_preserving_symlinks env ancestor of
                None \<Rightarrow> None
              | Some normalized_ancestor \<Rightarrow>
                  (case strip_prefix ancestor p of
                     None \<Rightarrow> None
                   | Some sfx \<Rightarrow> env_absolute env (path_join normalized_ancestor sfx)))
        (path_ancestors p) of
        Some q \<Rightarrow> q
      | None \<Rightarrow> p)"

section \<open>Writable roots\<close>

record WritableRoot =
  root_path :: path_buf
  read_only_subpaths :: "path_buf list"
  protected_metadata_names :: "str list"

definition path_contains_protected_metadata_name :: "WritableRoot \<Rightarrow> path_buf \<Rightarrow> bool" where
  "path_contains_protected_metadata_name r p =
     (case strip_prefix (root_path r) p of
        Some (c # _) \<Rightarrow> list_ex (\<lambda>name. component_str c = name) (protected_metadata_names r)
      | _ \<Rightarrow> False)"

definition is_path_writable :: "WritableRoot \<Rightarrow> path_buf \<Rightarrow> bool" where
  "is_path_writable r p =
     (if \<not> starts_with (root_path r) p then False
      else if list_ex (\<lambda>subpath. starts_with subpath p) (read_only_subpaths r) then False
      else \<not> path_contains_protected_metadata_name r p)"

fun sandbox_get_writable_roots_with_cwd :: "path_env \<Rightarrow> SandboxPolicy \<Rightarrow> path_buf \<Rightarrow> WritableRoot list" where
  "sandbox_get_writable_roots_with_cwd env (WorkspaceWrite writable_roots _ exclude_tmpdir_env_var exclude_slash_tmp) cwd =
     (let cwd_root = env_absolute env cwd;
          roots = writable_roots
            @ (case cwd_root of Some c \<Rightarrow> [c] | None \<Rightarrow> [])
            @ (if \<not> exclude_slash_tmp then
                 (case env_absolute env slash_tmp_path of
                    Some slash_tmp \<Rightarrow> if env_is_dir env slash_tmp then [slash_tmp] else []
                  | None \<Rightarrow> [])
               else [])
            @ (if \<not> exclude_tmpdir_env_var then
                 (case env_tmpdir env of
                    Some t \<Rightarrow>
                      if t = [] then []
                      else (case env_absolute env (components t) of Some tmp \<Rightarrow> [tmp] | None \<Rightarrow> [])
                  | None \<Rightarrow> [])
               else [])
      in map (\<lambda>writable_root.
           \<lparr>root_path = writable_root,
            read_only_subpaths = default_read_only_subpaths_for_writable_root env writable_root (cwd_root = Some writable_root),
            protected_metadata_names = []\<rparr>) roots)"
| "sandbox_get_writable_roots_with_cwd env _ cwd = []"

definition has_explicit_resolved_path_entry :: "ResolvedFileSystemEntry list \<Rightarrow> path_buf \<Rightarrow> bool" where
  "has_explicit_resolved_path_entry entries p \<longleftrightarrow> list_ex (\<lambda>e. resolved_path e = p) entries"

definition protected_metadata_names_for_writable_root ::
  "path_env \<Rightarrow> FileSystemSandboxPolicy \<Rightarrow> path_buf \<Rightarrow> path_buf list \<Rightarrow> path_buf \<Rightarrow> str list" where
  "protected_metadata_names_for_writable_root env pol root raw_writable_roots cwd =
     filter (\<lambda>name. list_all (\<lambda>base. \<not> can_write_path_with_cwd env pol (env_join env base (components name)) cwd)
         (root # raw_writable_roots))
       PROTECTED_METADATA_PATH_NAMES"

text \<open>The path under which an entry that grants no writing is carved out of a root, if it lies below it.\<close>

definition carveout_path :: "path_env \<Rightarrow> path_buf \<Rightarrow> path_buf list \<Rightarrow> path_buf \<Rightarrow> path_buf option" where
  "carveout_path env root raw_writable_roots p =
     (let effective_path = normalize_effective_absolute_path env p;
          raw_carveout_path =
            (if path_parent root \<noteq> None then
               (if p = root then None
                else if starts_with root p then Some p
                else find_map (\<lambda>raw_root.
                       case strip_prefix raw_root p of
                         None \<Rightarrow> None
                       | Some sfx \<Rightarrow> if sfx = [] then None else Some (env_join env root sfx)) raw_writable_roots)
             else None)
      in case raw_carveout_path of
           Some raw \<Rightarrow> Some raw
         | None \<Rightarrow> if effective_path = root \<or> \<not> starts_with root effective_path then None else Some effective_path)"

definition writable_entry_paths :: "path_env \<Rightarrow> FileSystemSandboxPolicy \<Rightarrow> path_buf \<Rightarrow> path_buf list" where
  "writable_entry_paths env pol cwd =
     map resolved_path
       (filter (\<lambda>e. can_write (resolved_access e) \<and> can_write_path_with_cwd env pol (resolved_path e) cwd)
         (resolved_entries_with_cwd env pol cwd))"

definition writable_root_for ::
  "path_env \<Rightarrow> FileSystemSandboxPolicy \<Rightarrow> path_buf \<Rightarrow> path_buf \<Rightarrow> WritableRoot" where
  "writable_root_for env pol cwd root =
     (let resolved_entries = resolved_entries_with_cwd env pol cwd;
          raw_writable_roots =
            filter (\<lambda>p. normalize_effective_absolute_path env p = root) (writable_entry_paths env pol cwd);
          protect_missing_dot_codex =
            (case env_absolute env cwd of
               Some c \<Rightarrow> normalize_effective_absolute_path env c = root
             | None \<Rightarrow> False);
          subpaths =
            filter (\<lambda>p. \<not> has_explicit_resolved_path_entry resolved_entries p)
              (default_read_only_subpaths_for_writable_root env root protect_missing_dot_codex)
            @ List.map_filter (\<lambda>e. carveout_path env root raw_writable_roots (resolved_path e))
                (filter (\<lambda>e. \<not> can_write (resolved_access e) \<and> \<not> can_write_path_with_cwd env pol (resolved_path e) cwd)
                  resolved_entries)
      in \<lparr>root_path = root,
          read_only_subpaths = dedup_absolute_paths (\<lambda>p. p) subpaths,
          protected_metadata_names = protected_metadata_names_for_writable_root env pol root raw_writable_roots cwd\<rparr>)"

definition get_writable_roots_with_cwd :: "path_env \<Rightarrow> FileSystemSandboxPolicy \<Rightarrow> path_buf \<Rightarrow> WritableRoot list" where
  "get_writable_roots_with_cwd env pol cwd =
     (if has_full_disk_write_access pol then []
      else map (writable_root_for env pol cwd)
             (dedup_absolute_paths (normalize_effective_absolute_path env) (writable_entry_paths env pol cwd)))"

section \<open>Readable and unreadable roots\<close>

definition get_readable_roots_with_cwd :: "path_env \<Rightarrow> FileSystemSandboxPolicy \<Rightarrow> path_buf \<Rightarrow> path_buf list" where
  "get_readable_roots_with_cwd env pol cwd =
     (if has_full_disk_read_access pol then []
      else dedup_absolute_paths (normalize_effective_absolute_path env)
             (map resolved_path
               (filter (\<lambda>e. can_read (resolved_access e) \<and> can_read_path_with_cwd env pol (resolved_path e) cwd)
                 (resolved_entries_with_cwd env pol cwd))))"

definition get_unreadable_roots_with_cwd :: "path_env \<Rightarrow> FileSystemSandboxPolicy \<Rightarrow> path_buf \<Rightarrow> path_buf list" where
  "get_unreadable_roots_with_cwd env pol cwd =
     (if policy_kind pol \<noteq> Restricted then []
      else
        let root = Option.bind (env_absolute env cwd) (absolute_root_path_for_cwd env)
        in dedup_absolute_paths (normalize_effective_absolute_path env)
             (map resolved_path
               (filter (\<lambda>e. resolved_access e = Deny \<and> \<not> can_read_path_with_cwd env pol (resolved_path e) cwd
                           \<and> root \<noteq> Some (resolved_path e))
                 (resolved_entries_with_cwd env pol cwd))))"

definition get_unreadable_globs_with_cwd :: "path_env \<Rightarrow> FileSystemSandboxPolicy \<Rightarrow> path_buf \<Rightarrow> str list" where
  "get_unreadable_globs_with_cwd env pol cwd =
     (if policy_kind pol \<noteq> Restricted then []
      else remdups_adj (sort
             (List.map_filter (\<lambda>e.
                 case entry_path e of
                   GlobPattern pattern \<Rightarrow>
                     if entry_access e = Deny
                     then Some (path_display (resolve_path_against_base (env_home env) pattern cwd)) else None
                 | _ \<Rightarrow> None)
               (policy_entries pol))))"

section \<open>Comparing policies\<close>

text \<open>\<^verbatim>\<open>Path::cmp\<close> compares the components in turn, each by its kind and then by its name.\<close>

fun component_rank :: "component \<Rightarrow> nat \<times> str" where
  "component_rank RootDir = (0, [])"
| "component_rank CurDir = (1, [])"
| "component_rank ParentDir = (2, [])"
| "component_rank (Normal s) = (3, s)"

lemma component_rank_inject: "component_rank a = component_rank b \<longleftrightarrow> a = b"
  by (cases a; cases b) simp_all

instantiation component :: linorder
begin

definition less_eq_component :: "component \<Rightarrow> component \<Rightarrow> bool" where
  "less_eq_component a b \<longleftrightarrow> component_rank a \<le> component_rank b"

definition less_component :: "component \<Rightarrow> component \<Rightarrow> bool" where
  "less_component a b \<longleftrightarrow> component_rank a < component_rank b"

instance
  by standard (auto simp: less_eq_component_def less_component_def less_le_not_le component_rank_inject
      simp flip: component_rank_inject)

end

definition sorted_absolute_paths :: "path_buf list \<Rightarrow> path_buf list" where
  "sorted_absolute_paths paths = sort paths"

definition sorted_writable_roots :: "WritableRoot list \<Rightarrow> WritableRoot list" where
  "sorted_writable_roots roots =
     sort_key root_path
       (map (\<lambda>r. r\<lparr>read_only_subpaths := sorted_absolute_paths (read_only_subpaths r),
                   protected_metadata_names := remdups_adj (sort (protected_metadata_names r))\<rparr>) roots)"

record FileSystemSemanticSignature =
  sig_full_disk_read_access :: bool
  sig_full_disk_write_access :: bool
  sig_platform_defaults :: bool
  sig_readable_roots :: "path_buf list"
  sig_writable_roots :: "WritableRoot list"
  sig_unreadable_roots :: "path_buf list"
  sig_unreadable_globs :: "str list"

definition semantic_signature :: "path_env \<Rightarrow> FileSystemSandboxPolicy \<Rightarrow> path_buf \<Rightarrow> FileSystemSemanticSignature" where
  "semantic_signature env pol cwd =
     \<lparr>sig_full_disk_read_access = has_full_disk_read_access pol,
      sig_full_disk_write_access = has_full_disk_write_access pol,
      sig_platform_defaults = include_platform_defaults pol,
      sig_readable_roots = sorted_absolute_paths (get_readable_roots_with_cwd env pol cwd),
      sig_writable_roots = sorted_writable_roots (get_writable_roots_with_cwd env pol cwd),
      sig_unreadable_roots = sorted_absolute_paths (get_unreadable_roots_with_cwd env pol cwd),
      sig_unreadable_globs = get_unreadable_globs_with_cwd env pol cwd\<rparr>"

definition is_semantically_equivalent_to ::
  "path_env \<Rightarrow> FileSystemSandboxPolicy \<Rightarrow> FileSystemSandboxPolicy \<Rightarrow> path_buf \<Rightarrow> bool" where
  "is_semantically_equivalent_to env pol other cwd \<longleftrightarrow> semantic_signature env pol cwd = semantic_signature env other cwd"

definition protected_metadata_names_need_direct_runtime_enforcement ::
  "path_env \<Rightarrow> FileSystemSandboxPolicy \<Rightarrow> SandboxPolicy \<Rightarrow> path_buf \<Rightarrow> bool" where
  "protected_metadata_names_need_direct_runtime_enforcement env pol legacy_policy cwd \<longleftrightarrow>
     list_ex (\<lambda>writable_root.
         case List.find (\<lambda>candidate. root_path candidate = root_path writable_root)
                (sandbox_get_writable_roots_with_cwd env legacy_policy cwd) of
           None \<Rightarrow> protected_metadata_names writable_root \<noteq> []
         | Some legacy_root \<Rightarrow>
             list_ex (\<lambda>name.
                 env_join env (root_path writable_root) (components name) \<notin> set (read_only_subpaths legacy_root))
               (protected_metadata_names writable_root))
       (get_writable_roots_with_cwd env pol cwd)"

definition needs_direct_runtime_enforcement ::
  "path_env \<Rightarrow> FileSystemSandboxPolicy \<Rightarrow> NetworkSandboxPolicy \<Rightarrow> path_buf \<Rightarrow> bool" where
  "needs_direct_runtime_enforcement env pol network_policy cwd =
     (if policy_kind pol \<noteq> Restricted then False
      else case to_legacy_sandbox_policy env pol network_policy cwd of
             Inl _ \<Rightarrow> True
           | Inr legacy_policy \<Rightarrow>
               if protected_metadata_names_need_direct_runtime_enforcement env pol legacy_policy cwd then True
               else semantic_signature env pol cwd \<noteq>
                      semantic_signature env (legacy_runtime_file_system_policy_for_cwd env legacy_policy cwd) cwd)"

section \<open>Refusing reads\<close>

definition push_unique :: "'a list \<Rightarrow> 'a \<Rightarrow> 'a list" where
  "push_unique candidates candidate = (if candidate \<in> set candidates then candidates else candidates @ [candidate])"

definition normalized_and_canonical_candidates :: "path_env \<Rightarrow> path_buf \<Rightarrow> path_buf list" where
  "normalized_and_canonical_candidates env p =
     (let lexical = [case env_absolute env p of Some q \<Rightarrow> q | None \<Rightarrow> p]
      in case Option.bind (env_canonicalize env p) (env_absolute env) of
           Some c \<Rightarrow> push_unique lexical c
         | None \<Rightarrow> lexical)"

datatype InvalidDenyReadGlobBehavior = FailClosed | ReturnError

record 'g ReadDenyMatcher =
  denied_candidates :: "path_buf list list"
  deny_read_matchers :: "'g list"
  invalid_pattern :: bool

fun compile_globs ::
  "(str \<Rightarrow> str + 'g) \<Rightarrow> InvalidDenyReadGlobBehavior \<Rightarrow> str list \<Rightarrow> 'g list \<Rightarrow> bool \<Rightarrow> str + 'g list \<times> bool" where
  "compile_globs build_glob behavior [] matchers invalid = Inr (matchers, invalid)"
| "compile_globs build_glob behavior (pattern # ps) matchers invalid =
     (case build_glob pattern of
        Inr m \<Rightarrow> compile_globs build_glob behavior ps (matchers @ [m]) invalid
      | Inl err \<Rightarrow>
          (case behavior of
             FailClosed \<Rightarrow> compile_globs build_glob behavior ps matchers True
           | ReturnError \<Rightarrow> Inl (lit ''invalid deny-read glob pattern '' @ backquoted pattern @ lit '': '' @ err)))"

definition read_deny_build ::
  "(str \<Rightarrow> str + 'g) \<Rightarrow> path_env \<Rightarrow> FileSystemSandboxPolicy \<Rightarrow> path_buf \<Rightarrow> InvalidDenyReadGlobBehavior \<Rightarrow>
   str + 'g ReadDenyMatcher option" where
  "read_deny_build build_glob env pol cwd behavior =
     (if \<not> has_denied_read_restrictions pol then Inr None
      else bind_result (compile_globs build_glob behavior (get_unreadable_globs_with_cwd env pol cwd) [] False)
             (\<lambda>(matchers, invalid).
                Inr (Some \<lparr>denied_candidates =
                             map (normalized_and_canonical_candidates env) (get_unreadable_roots_with_cwd env pol cwd),
                           deny_read_matchers = matchers, invalid_pattern = invalid\<rparr>)))"

text \<open>\<^verbatim>\<open>ReadDenyMatcher::new\<close> panics on an error; the outer option is that panic.\<close>

definition read_deny_new ::
  "(str \<Rightarrow> str + 'g) \<Rightarrow> path_env \<Rightarrow> FileSystemSandboxPolicy \<Rightarrow> path_buf \<Rightarrow> 'g ReadDenyMatcher option option" where
  "read_deny_new build_glob env pol cwd =
     (case read_deny_build build_glob env pol cwd FailClosed of Inr m \<Rightarrow> Some m | Inl _ \<Rightarrow> None)"

definition read_deny_try_new ::
  "(str \<Rightarrow> str + 'g) \<Rightarrow> path_env \<Rightarrow> FileSystemSandboxPolicy \<Rightarrow> path_buf \<Rightarrow> str + 'g ReadDenyMatcher option" where
  "read_deny_try_new build_glob env pol cwd = read_deny_build build_glob env pol cwd ReturnError"

definition is_read_denied ::
  "('g \<Rightarrow> path_buf \<Rightarrow> bool) \<Rightarrow> path_env \<Rightarrow> 'g ReadDenyMatcher \<Rightarrow> path_buf \<Rightarrow> bool" where
  "is_read_denied is_match env m p =
     (if invalid_pattern m then True
      else
        let path_candidates = normalized_and_canonical_candidates env p
        in if list_ex (\<lambda>denied. list_ex (\<lambda>candidate. list_ex (\<lambda>d. candidate = d \<or> starts_with d candidate) denied)
                 path_candidates) (denied_candidates m)
           then True
           else list_ex (\<lambda>g. list_ex (is_match g) path_candidates) (deny_read_matchers m))"

end
