(* ===== verification/Patch_Safety.thy ===== *)
theory Patch_Safety
  imports Patch_Invocation Exec_Approval Permission_Roots
begin

text \<open>
  Deciding what happens to a verified patch (\<^verbatim>\<open>core/src/safety.rs\<close> and \<^verbatim>\<open>core/src/apply_patch.rs\<close>): it is approved when
  every path it names may be written, put to the user, or rejected. The operating system the program is compiled for
  is an argument.
\<close>

datatype target_os = Macos | Linux | Windows | OtherOs

datatype SandboxType = NoSandbox | MacosSeatbelt | LinuxSeccomp | WindowsRestrictedToken

datatype WindowsSandboxLevel = LevelDisabled | RestrictedToken | Elevated

fun get_platform_sandbox :: "target_os \<Rightarrow> bool \<Rightarrow> SandboxType option" where
  "get_platform_sandbox Macos enabled = Some MacosSeatbelt"
| "get_platform_sandbox Linux enabled = Some LinuxSeccomp"
| "get_platform_sandbox Windows enabled = (if enabled then Some WindowsRestrictedToken else None)"
| "get_platform_sandbox OtherOs enabled = None"

datatype SafetyCheck =
  AutoApprove SandboxType bool
| AskUser
| Reject str

section \<open>The paths of a patch\<close>

definition util_resolve_path :: "path_buf \<Rightarrow> path_buf \<Rightarrow> path_buf" where
  "util_resolve_path base p = (if path_is_absolute p then p else path_join base p)"

definition normalize_components :: "path_buf \<Rightarrow> path_buf" where
  "normalize_components p = foldl normalize_step [] p"

definition patch_path_writable :: "path_env \<Rightarrow> FileSystemSandboxPolicy \<Rightarrow> path_buf \<Rightarrow> path_buf \<Rightarrow> bool" where
  "patch_path_writable env pol cwd p =
     can_write_path_with_cwd env pol (normalize_components (util_resolve_path cwd p)) cwd"

fun change_constrained :: "path_env \<Rightarrow> FileSystemSandboxPolicy \<Rightarrow> path_buf \<Rightarrow> path_buf \<times> ApplyPatchFileChange \<Rightarrow> bool" where
  "change_constrained env pol cwd (p, Update _ move_path _) \<longleftrightarrow>
     patch_path_writable env pol cwd p
     \<and> (case move_path of Some dest \<Rightarrow> patch_path_writable env pol cwd dest | None \<Rightarrow> True)"
| "change_constrained env pol cwd (p, _) \<longleftrightarrow> patch_path_writable env pol cwd p"

definition is_write_patch_constrained_to_writable_paths ::
  "path_env \<Rightarrow> ApplyPatchAction \<Rightarrow> FileSystemSandboxPolicy \<Rightarrow> path_buf \<Rightarrow> bool" where
  "is_write_patch_constrained_to_writable_paths env action pol cwd \<longleftrightarrow>
     list_all (change_constrained env pol cwd) (action_changes action)"

section \<open>The decision\<close>

definition PATCH_REJECTED_OUTSIDE_PROJECT_REASON :: str where
  "PATCH_REJECTED_OUTSIDE_PROJECT_REASON = lit ''writing outside of the project; rejected by user approval settings''"

definition PATCH_REJECTED_READ_ONLY_REASON :: str where
  "PATCH_REJECTED_READ_ONLY_REASON = lit ''writing is blocked by read-only sandbox; rejected by user approval settings''"

fun patch_rejection_reason :: "path_env \<Rightarrow> PermissionProfile \<Rightarrow> FileSystemSandboxPolicy \<Rightarrow> path_buf \<Rightarrow> str" where
  "patch_rejection_reason env (Managed _ _) pol cwd =
     (if \<not> has_full_disk_write_access pol \<and> get_writable_roots_with_cwd env pol cwd = []
      then PATCH_REJECTED_READ_ONLY_REASON else PATCH_REJECTED_OUTSIDE_PROJECT_REASON)"
| "patch_rejection_reason env _ pol cwd = PATCH_REJECTED_OUTSIDE_PROJECT_REASON"

fun rejects_sandbox_approval :: "AskForApproval \<Rightarrow> bool" where
  "rejects_sandbox_approval Never = True"
| "rejects_sandbox_approval (Granular config) = (\<not> sandbox_approval config)"
| "rejects_sandbox_approval _ = False"

fun profile_unsandboxed :: "PermissionProfile \<Rightarrow> bool" where
  "profile_unsandboxed (Managed _ _) = False"
| "profile_unsandboxed _ = True"

definition assess_patch_safety ::
  "target_os \<Rightarrow> path_env \<Rightarrow> ApplyPatchAction \<Rightarrow> AskForApproval \<Rightarrow> PermissionProfile \<Rightarrow> FileSystemSandboxPolicy
   \<Rightarrow> path_buf \<Rightarrow> WindowsSandboxLevel \<Rightarrow> SafetyCheck" where
  "assess_patch_safety os env action policy profile pol cwd level =
     (let refuse = (if rejects_sandbox_approval policy then Reject (patch_rejection_reason env profile pol cwd) else AskUser)
      in if is_empty action then Reject (lit ''empty patch'')
         else if policy = UnlessTrusted then AskUser
         else if is_write_patch_constrained_to_writable_paths env action pol cwd \<or> policy = OnFailure then
           (if profile_unsandboxed profile then AutoApprove NoSandbox False
            else case get_platform_sandbox os (level \<noteq> LevelDisabled) of
                   Some sandbox_type \<Rightarrow> AutoApprove sandbox_type False
                 | None \<Rightarrow> refuse)
         else refuse)"

section \<open>Handing the patch on\<close>

record ApplyPatchRuntimeInvocation =
  inv_action :: ApplyPatchAction
  inv_auto_approved :: bool
  inv_exec_approval_requirement :: ExecApprovalRequirement

datatype InternalApplyPatchInvocation =
  RespondToModel str
| DelegateToRuntime ApplyPatchRuntimeInvocation

definition core_apply_patch ::
  "target_os \<Rightarrow> path_env \<Rightarrow> AskForApproval \<Rightarrow> PermissionProfile \<Rightarrow> WindowsSandboxLevel \<Rightarrow> FileSystemSandboxPolicy
   \<Rightarrow> ApplyPatchAction \<Rightarrow> InternalApplyPatchInvocation" where
  "core_apply_patch os env policy profile level pol action =
     (case assess_patch_safety os env action policy profile pol (action_cwd action) level of
        AutoApprove _ user_explicitly_approved \<Rightarrow>
          DelegateToRuntime \<lparr>inv_action = action, inv_auto_approved = (\<not> user_explicitly_approved),
            inv_exec_approval_requirement = Skip False None\<rparr>
      | AskUser \<Rightarrow>
          DelegateToRuntime \<lparr>inv_action = action, inv_auto_approved = False,
            inv_exec_approval_requirement = NeedsApproval None None\<rparr>
      | Reject reason \<Rightarrow> RespondToModel (lit ''patch rejected: '' @ reason))"

datatype FileChange = ChangeAdd str | ChangeDelete str | ChangeUpdate str "path_buf option"

fun protocol_change :: "ApplyPatchFileChange \<Rightarrow> FileChange" where
  "protocol_change (Add content) = ChangeAdd content"
| "protocol_change (Delete content) = ChangeDelete content"
| "protocol_change (Update diff move_path _) = ChangeUpdate diff move_path"

definition convert_apply_patch_to_protocol :: "ApplyPatchAction \<Rightarrow> (path_buf \<times> FileChange) list" where
  "convert_apply_patch_to_protocol action = map (\<lambda>(p, c). (p, protocol_change c)) (action_changes action)"

text \<open>The paths whose approval is asked for (\<^verbatim>\<open>tools/handlers/apply_patch.rs\<close>).\<close>

definition file_paths_for_action :: "path_env \<Rightarrow> ApplyPatchAction \<Rightarrow> path_buf list" where
  "file_paths_for_action env action =
     concat (map (\<lambda>(p, c).
         env_join env (action_cwd action) p
         # (case c of Update _ (Some dest) _ \<Rightarrow> [env_join env (action_cwd action) dest] | _ \<Rightarrow> []))
       (action_changes action))"

end
