(* ===== verification/Permission_Properties.thy ===== *)
theory Permission_Properties
  imports Permission_Profile
begin

text \<open>
  What the file system permissions guarantee: how the entries decide the access of a path, what full
  access means, that denials survive and that the legacy policy round-trips.
\<close>

section \<open>Well-formed environments and policies\<close>

text \<open>The current directory is absolute, and the paths of a policy are \<^verbatim>\<open>AbsolutePathBuf\<close>s.\<close>

definition env_ok :: "path_env \<Rightarrow> bool" where
  "env_ok env \<longleftrightarrow> (case env_current_dir env of Some c \<Rightarrow> path_is_absolute c | None \<Rightarrow> True)"

definition policy_ok :: "FileSystemSandboxPolicy \<Rightarrow> bool" where
  "policy_ok pol \<longleftrightarrow>
     list_all (\<lambda>e. case entry_path e of AbsPath p \<Rightarrow> absolute_normalized p | _ \<Rightarrow> True) (policy_entries pol)"

lemma env_absolute_normalized: "env_ok env \<Longrightarrow> env_absolute env p = Some q \<Longrightarrow> absolute_normalized q"
  by (auto simp: env_ok_def env_absolute_def intro: absolute_from_normalized split: option.splits)

lemma env_join_normalized: "path_is_absolute base \<Longrightarrow> absolute_normalized (env_join env base p)"
  by (simp add: env_join_def resolve_against_base_normalized)

lemma resolve_candidate_normalized:
  assumes "env_ok env" and "resolve_candidate_path env p cwd = Some q"
  shows "absolute_normalized q"
  using assms
  by (auto simp: resolve_candidate_path_def env_absolute_normalized env_join_normalized
           absolute_normalized_is_absolute split: if_splits)

lemma resolve_candidate_id:
  "absolute_normalized p \<Longrightarrow> resolve_candidate_path env p cwd = Some p"
  by (simp add: resolve_candidate_path_def env_absolute_def absolute_normalized_is_absolute)

lemma absolute_root_path_is_root:
  "absolute_normalized cwd \<Longrightarrow> absolute_root_path_for_cwd env cwd = Some [RootDir]"
  by (simp add: absolute_root_path_for_cwd_def last_path_ancestors env_absolute_def absolute_normalized_def
        absolute_from_absolute path_is_absolute_def normalize_path_def)

lemma absolute_starts_with_root: "absolute_normalized q \<Longrightarrow> starts_with [RootDir] q"
  by (auto simp: absolute_normalized_def starts_with_iff split: list.splits component.splits)

section \<open>The deciding entry\<close>

definition covering ::
  "path_env \<Rightarrow> FileSystemSandboxPolicy \<Rightarrow> path_buf \<Rightarrow> path_buf \<Rightarrow> ResolvedFileSystemEntry list" where
  "covering env pol cwd q =
     filter (\<lambda>e. starts_with (resolved_path e) q) (resolved_entries_with_cwd env pol cwd)"

text \<open>Two entries that cover the same path compare by the longer path, and by the mode when the paths
  are equal.\<close>

lemma covering_precedence:
  assumes "e \<in> set (covering env pol cwd q)" and "e' \<in> set (covering env pol cwd q)"
  shows "resolved_entry_precedence e \<le> resolved_entry_precedence e' \<longleftrightarrow>
     length (resolved_path e) < length (resolved_path e')
     \<or> resolved_path e = resolved_path e' \<and> resolved_access e \<le> resolved_access e'"
proof -
  have "resolved_path e = resolved_path e'" if "length (resolved_path e) = length (resolved_path e')"
    using assms that by (auto simp: covering_def starts_with_iff prefix_def append_eq_append_conv)
  then show ?thesis by (auto simp: resolved_entry_precedence_def less_eq_prod_def)
qed

lemma resolve_access_covering:
  assumes "policy_kind pol = Restricted" and "resolve_candidate_path env p cwd = Some q"
  shows "resolve_access_with_cwd env pol p cwd =
     (case max_by_key resolved_entry_precedence (covering env pol cwd q) of
        Some e \<Rightarrow> resolved_access e | None \<Rightarrow> Deny)"
  using assms by (simp add: resolve_access_with_cwd_def covering_def)

lemma access_by_deciding_entry:
  assumes "policy_kind pol = Restricted" and "resolve_candidate_path env p cwd = Some q"
    and "e \<in> set (covering env pol cwd q)"
    and "\<And>e'. e' \<in> set (covering env pol cwd q) \<Longrightarrow>
           length (resolved_path e') < length (resolved_path e)
           \<or> resolved_path e' = resolved_path e \<and> resolved_access e' \<le> resolved_access e"
  shows "resolve_access_with_cwd env pol p cwd = resolved_access e"
proof -
  obtain m where m: "max_by_key resolved_entry_precedence (covering env pol cwd q) = Some m"
    using assms(3) by (cases "max_by_key resolved_entry_precedence (covering env pol cwd q)")
                      (auto simp: max_by_key_None_iff)
  from max_by_key_Some [OF m] assms(3)
  have *: "m \<in> set (covering env pol cwd q)" "resolved_entry_precedence e \<le> resolved_entry_precedence m" by auto
  with assms(4) [OF *(1)] covering_precedence [OF assms(3) *(1)] have "resolved_access m = resolved_access e"
    by auto
  with m show ?thesis by (simp add: resolve_access_covering [OF assms(1,2)])
qed

lemma resolved_entries_iff:
  "r \<in> set (resolved_entries_with_cwd env pol cwd) \<longleftrightarrow>
     (\<exists>e \<in> set (policy_entries pol). resolve_entry_path env (entry_path e) (env_absolute env cwd) = Some (resolved_path r)
        \<and> resolved_access r = entry_access e)"
  by (cases r) (auto simp: resolved_entries_with_cwd_def map_filter_def image_iff)

lemma deciding_entry_iff:
  assumes "policy_kind pol = Restricted" and "resolve_candidate_path env p cwd = Some q"
  shows "resolve_access_with_cwd env pol p cwd = a \<longleftrightarrow>
     covering env pol cwd q = [] \<and> a = Deny
     \<or> (\<exists>e \<in> set (covering env pol cwd q). resolved_access e = a
          \<and> (\<forall>e' \<in> set (covering env pol cwd q).
               length (resolved_path e') < length (resolved_path e)
               \<or> resolved_path e' = resolved_path e \<and> resolved_access e' \<le> resolved_access e))"
  (is "_ \<longleftrightarrow> ?none \<or> ?some")
proof
  assume a: "resolve_access_with_cwd env pol p cwd = a"
  show "?none \<or> ?some"
  proof (cases "max_by_key resolved_entry_precedence (covering env pol cwd q)")
    case None
    with a show ?thesis by (simp add: resolve_access_covering [OF assms] max_by_key_None_iff)
  next
    case (Some m)
    have m: "m \<in> set (covering env pol cwd q)"
      "\<forall>e' \<in> set (covering env pol cwd q). resolved_entry_precedence e' \<le> resolved_entry_precedence m"
      using max_by_key_Some [OF Some] by simp_all
    moreover have "resolved_access m = a" using a Some by (simp add: resolve_access_covering [OF assms])
    ultimately have ?some using covering_precedence [OF _ m(1)] by blast
    then show ?thesis ..
  qed
next
  assume "?none \<or> ?some"
  then show "resolve_access_with_cwd env pol p cwd = a"
    using access_by_deciding_entry [OF assms] by (auto simp: resolve_access_covering [OF assms])
qed

section \<open>Samples\<close>

definition sample_path_env :: path_env where
  "sample_path_env =
     \<lparr>env_home = None, env_current_dir = Some [RootDir], env_tmpdir = None, env_is_dir = (\<lambda>_. True),
      env_is_file = (\<lambda>_. False), env_exists = (\<lambda>_. False), env_read_to_string = (\<lambda>_. None),
      env_is_symlink = (\<lambda>_. Some False), env_canonicalize = Some\<rparr>"

definition sample_path :: "string list \<Rightarrow> path_buf" where
  "sample_path names = RootDir # map (\<lambda>n. Normal (lit n)) names"

definition sample_permissions :: FileSystemSandboxPolicy where
  "sample_permissions =
     restricted [mk_entry (Special Root) Read, mk_entry (AbsPath (sample_path [''w''])) Write,
                 mk_entry (AbsPath (sample_path [''w'', ''s''])) Deny,
                 mk_entry (AbsPath (sample_path [''w'', ''.git'', ''hooks''])) Write]"

lemma sample_policy_ok: "env_ok sample_path_env" "policy_ok sample_permissions" "env_is_dir sample_path_env slash_tmp_path"
  by code_simp+

lemma sample_path_normalized [simp]: "absolute_normalized (sample_path names)"
  by (induction names) (auto simp: sample_path_def absolute_normalized_def is_normal_def)

section \<open>Access\<close>



section \<open>Full access\<close>

text \<open>Two paths with the same target resolve to the same path.\<close>

lemma root_path_normalized: "absolute_normalized p \<Longrightarrow> path_parent p = None \<longleftrightarrow> p = [RootDir]"
  by (cases p) (auto simp: path_parent_def absolute_normalized_def is_normal_def list_all_iff
                     split: component.splits if_splits dest: last_in_set)

lemma share_target_resolve:
  assumes "file_system_paths_share_target a b" and "absolute_normalized c"
    and "env_is_dir env slash_tmp_path"
    and "\<And>p. a = AbsPath p \<Longrightarrow> absolute_normalized p" and "\<And>p. b = AbsPath p \<Longrightarrow> absolute_normalized p"
  shows "resolve_entry_path env a (Some c) = resolve_entry_path env b (Some c)"
proof -
  have special: "resolve_entry_path env (Special v) (Some c) = Some p"
    if "special_path_matches_absolute_path v p" "absolute_normalized p" for v p
    using that assms(2,3)
    by (cases v) (auto simp: resolve_entry_path_def root_path_normalized absolute_root_path_is_root
                             resolve_file_system_special_path_def)
  have eq: "v = w" if "special_paths_share_target v w" for v w
    using that by (auto simp: special_paths_share_target_def split: FileSystemSpecialPath.splits)
  show ?thesis
    using assms(1) assms(4,5)
    by (cases a; cases b) (auto simp: resolve_entry_path_def special eq dest!: special eq)
qed

lemma root_entry_covers:
  assumes "has_root_access pol P" and "env_ok env" and "env_absolute env cwd = Some c" and "absolute_normalized q"
  shows "\<exists>r \<in> set (covering env pol cwd q). resolved_path r = [RootDir] \<and> P (resolved_access r)"
proof -
  from assms(1) obtain e where e: "e \<in> set (policy_entries pol)" "entry_path e = Special Root" "P (entry_access e)"
    by (auto simp: has_root_access_def list_ex_iff)
  let ?r = "\<lparr>resolved_path = [RootDir], resolved_access = entry_access e\<rparr>"
  have "resolve_entry_path env (entry_path e) (env_absolute env cwd) = Some [RootDir]"
    using env_absolute_normalized [OF assms(2,3)] assms(3) e(2)
    by (simp add: resolve_entry_path_def absolute_root_path_is_root)
  with e(1) have "?r \<in> set (resolved_entries_with_cwd env pol cwd)" by (auto simp: resolved_entries_iff)
  with e(3) absolute_starts_with_root [OF assms(4)] show ?thesis by (intro bexI [of _ ?r]) (auto simp: covering_def)
qed

lemma not_narrowing_read_or_shadowed:
  assumes "e \<in> set (policy_entries pol)" and "\<not> narrows_write pol e" and "\<not> can_write (entry_access e)"
    and "resolve_entry_path env (entry_path e) (Some c) = Some p"
  obtains (root) "entry_path e = Special Root" "entry_access e = Read"
  | (shadowed) w where "w \<in> set (policy_entries pol)" "can_write (entry_access w)" "entry_access e < entry_access w"
      "file_system_paths_share_target (entry_path w) (entry_path e)"
proof -
  have none: "resolve_entry_path env (Special Minimal) (Some c) = None"
    "resolve_entry_path env (Special (UnknownPath x y)) (Some c) = None" for x y
    by (simp_all add: resolve_entry_path_def resolve_file_system_special_path_def)
  show thesis
  proof (cases "has_same_target_write_override pol e")
    case True
    then show ?thesis by (auto simp: has_same_target_write_override_def list_ex_iff intro: shadowed)
  next
    case False
    with assms(2-4) none have "entry_path e = Special Root" "entry_access e \<noteq> Deny"
      by (auto simp: narrows_write_def split: FileSystemPath.splits FileSystemSpecialPath.splits)
    with assms(3) root show ?thesis by (cases "entry_access e") auto
  qed
qed

lemma policy_ok_path: "policy_ok pol \<Longrightarrow> e \<in> set (policy_entries pol) \<Longrightarrow> entry_path e = AbsPath p \<Longrightarrow> absolute_normalized p"
  by (auto simp: policy_ok_def list_all_iff split: FileSystemPath.splits)

text \<open>Full access is real. When the policy claims full read or write access, every path that can be
  resolved is readable or writable, whatever else the policy lists.\<close>

theorem full_disk_access_covers_every_path:
  assumes ok: "env_ok env" "policy_ok pol" "env_is_dir env slash_tmp_path"
    and cwd: "env_absolute env cwd = Some c"
    and q: "resolve_candidate_path env p cwd = Some q"
  shows "(has_full_disk_read_access pol \<longrightarrow> can_read_path_with_cwd env pol p cwd)
     \<and> (has_full_disk_write_access pol \<longrightarrow> can_write_path_with_cwd env pol p cwd)"
proof (cases "policy_kind pol = Restricted")
  case False
  then show ?thesis
    by (simp add: can_read_path_with_cwd_def can_write_path_with_cwd_def resolve_access_with_cwd_def
          is_metadata_write_denied_def)
next
  case True
  note nq = resolve_candidate_normalized [OF ok(1) q] and nc = env_absolute_normalized [OF ok(1) cwd]
  let ?a = "resolve_access_with_cwd env pol p cwd"
  have read: "can_read ?a" if "has_full_disk_read_access pol"
  proof -
    from that True have root: "has_root_access pol can_read"
      and no_deny: "\<And>e. e \<in> set (policy_entries pol) \<Longrightarrow> entry_access e \<noteq> Deny"
      by (auto simp: has_full_disk_read_access_def has_denied_read_restrictions_def list_ex_iff)
    from root_entry_covers [OF root ok(1) cwd nq] have "covering env pol cwd q \<noteq> []" by auto
    with deciding_entry_iff [OF True q, of ?a]
    obtain m where "m \<in> set (covering env pol cwd q)" "resolved_access m = ?a" by auto
    moreover from this no_deny have "resolved_access m \<noteq> Deny"
      by (auto simp: covering_def resolved_entries_iff) metis
    ultimately show ?thesis by (cases ?a) simp_all
  qed
  have "can_write ?a" if "has_full_disk_write_access pol"
  proof (rule ccontr)
    assume no: "\<not> can_write ?a"
    from that True have root: "has_root_access pol can_write"
      and no_narrow: "\<And>e. e \<in> set (policy_entries pol) \<Longrightarrow> \<not> narrows_write pol e"
      by (auto simp: has_full_disk_write_access_def has_write_narrowing_entries_def list_ex_iff)
    from root_entry_covers [OF root ok(1) cwd nq] obtain r where
      r: "r \<in> set (covering env pol cwd q)" "resolved_path r = [RootDir]" "resolved_access r = Write"
      by (auto elim: can_write.elims(2))
    then have "covering env pol cwd q \<noteq> []" by auto
    with deciding_entry_iff [OF True q, of ?a] obtain m where
      m: "m \<in> set (covering env pol cwd q)" "resolved_access m = ?a"
      and top: "\<And>e'. e' \<in> set (covering env pol cwd q) \<Longrightarrow>
           length (resolved_path e') < length (resolved_path m)
           \<or> resolved_path e' = resolved_path m \<and> resolved_access e' \<le> resolved_access m" by auto
    from m(1) obtain e where e: "e \<in> set (policy_entries pol)" "resolved_access m = entry_access e"
      "resolve_entry_path env (entry_path e) (Some c) = Some (resolved_path m)"
      by (auto simp: covering_def resolved_entries_iff cwd)
    from e(1) no_narrow [OF e(1)] no [folded m(2), unfolded e(2)] e(3) show False
    proof (cases rule: not_narrowing_read_or_shadowed)
      case root
      then have "resolved_path m = [RootDir]" using e(3) nc by (simp add: resolve_entry_path_def absolute_root_path_is_root)
      with top [OF r(1)] r root e(2) show False by (simp add: less_eq_FileSystemAccessMode_def)
    next
      case (shadowed w)
      let ?w = "\<lparr>resolved_path = resolved_path m, resolved_access = entry_access w\<rparr>"
      have "resolve_entry_path env (entry_path w) (Some c) = Some (resolved_path m)"
        using share_target_resolve [OF shadowed(4) nc ok(3)] policy_ok_path [OF ok(2)] shadowed(1) e by metis
      with shadowed(1) m(1) have "?w \<in> set (covering env pol cwd q)"
        by (auto simp: covering_def resolved_entries_iff cwd)
      from top [OF this] shadowed(3) e(2) show False by simp
    qed
  qed
  with read show ?thesis by (simp add: can_read_path_with_cwd_def can_write_path_with_cwd_def)
qed

theorem full_disk_access_covers_every_path_witness:
  "can_write_path_with_cwd sample_path_env
     (restricted [mk_entry (Special Root) Write, mk_entry (AbsPath (sample_path [''w''])) Read,
                  mk_entry (AbsPath (sample_path [''w''])) Write])
     (sample_path [''w'', ''x'']) [RootDir]"
proof -
  let ?pol = "restricted [mk_entry (Special Root) Write, mk_entry (AbsPath (sample_path [''w''])) Read,
                  mk_entry (AbsPath (sample_path [''w''])) Write]"
  have "policy_ok ?pol" "env_absolute sample_path_env [RootDir] = Some [RootDir]" "has_full_disk_write_access ?pol"
    "resolve_candidate_path sample_path_env (sample_path [''w'', ''x'']) [RootDir] = Some (sample_path [''w'', ''x''])"
    by code_simp+
  with full_disk_access_covers_every_path [OF sample_policy_ok(1) this(1) sample_policy_ok(3) this(2) this(4)]
  show ?thesis by blast
qed

section \<open>Denials\<close>

lemma set_push_missing [simp]: "set (push_missing xs ys) = set xs \<union> set ys"
  unfolding push_missing_def by (induction xs arbitrary: ys) auto

lemma resolve_entry_normalized:
  assumes "env_ok env" and "\<And>x. p = AbsPath x \<Longrightarrow> absolute_normalized x"
    and "resolve_entry_path env p (env_absolute env cwd) = Some d"
  shows "absolute_normalized d"
proof -
  have slash: "absolute_normalized slash_tmp_path" by code_simp
  have root: "absolute_normalized d" if "absolute_root_path_for_cwd env c = Some d" for c
    using that env_absolute_normalized [OF assms(1)] by (simp add: absolute_root_path_for_cwd_def)
  have join: "absolute_normalized (env_join env c x)" if "env_absolute env cwd = Some c" for c x
    using env_absolute_normalized [OF assms(1) that] by (simp add: env_join_normalized absolute_normalized_is_absolute)
  show ?thesis
  proof (cases p)
    case (AbsPath x)
    with assms(2,3) show ?thesis by (simp add: resolve_entry_path_def)
  next
    case GlobPattern
    with assms(3) show ?thesis by (simp add: resolve_entry_path_def)
  next
    case (Special v)
    with assms(3) slash root join env_absolute_normalized [OF assms(1)] show ?thesis
      by (cases v) (auto simp: resolve_entry_path_def resolve_file_system_special_path_def split: option.splits if_splits)
  qed
qed

lemma preserve_restricted:
  assumes "policy_kind pol \<noteq> ExternalSandbox" and "e \<in> set (deny_entries existing)"
  shows "policy_kind (preserve_deny_read_restrictions_from pol existing) = Restricted"
    "set (policy_entries (preserve_deny_read_restrictions_from pol existing)) =
       set (deny_entries existing)
       \<union> (if policy_kind pol = Unrestricted then {mk_entry (Special Root) Write} else set (policy_entries pol))"
proof -
  have "list_ex (\<lambda>e. entry_access e = Deny) (policy_entries existing)"
    using assms(2) by (auto simp: deny_entries_def list_ex_iff)
  with assms(1) show "policy_kind (preserve_deny_read_restrictions_from pol existing) = Restricted"
    "set (policy_entries (preserve_deny_read_restrictions_from pol existing)) =
       set (deny_entries existing)
       \<union> (if policy_kind pol = Unrestricted then {mk_entry (Special Root) Write} else set (policy_entries pol))"
    by (cases "policy_kind pol"; simp add: preserve_deny_read_restrictions_from_def restricted_def)+
qed

lemma deny_entries_access: "e \<in> set (deny_entries pol) \<Longrightarrow> entry_access e = Deny \<and> e \<in> set (policy_entries pol)"
  by (simp add: deny_entries_def)

lemma covering_iff:
  "r \<in> set (covering env pol cwd q) \<longleftrightarrow> starts_with (resolved_path r) q \<and>
      (\<exists>x \<in> set (policy_entries pol). resolve_entry_path env (entry_path x) (env_absolute env cwd) = Some (resolved_path r)
          \<and> resolved_access r = entry_access x)"
  by (auto simp: covering_def resolved_entries_iff)

lemma resolve_root_entry:
  "env_ok env \<Longrightarrow> resolve_entry_path env (Special Root) (env_absolute env cwd) = Some d \<Longrightarrow> d = [RootDir]"
  using env_absolute_normalized
  by (auto simp: resolve_entry_path_def absolute_root_path_is_root split: option.splits)

lemma carried_denial_decides:
  assumes ok: "env_ok env" "absolute_normalized d" "absolute_normalized q" and internal: "policy_kind pol \<noteq> ExternalSandbox"
    and e: "e \<in> set (deny_entries existing)"
      "resolve_entry_path env (entry_path e) (env_absolute env cwd) = Some d"
    and below: "starts_with d q"
    and specific: "policy_kind pol = Restricted \<Longrightarrow>
         \<forall>r \<in> set (covering env pol cwd q). length (resolved_path r) \<le> length d"
  shows "resolve_access_with_cwd env (preserve_deny_read_restrictions_from pol existing) q cwd = Deny"
proof -
  let ?pol = "preserve_deny_read_restrictions_from pol existing"
  let ?cov = "covering env ?pol cwd q"
  note kind = preserve_restricted [OF internal e(1)] and rq = resolve_candidate_id [OF ok(3), of env cwd]
  let ?r = "\<lparr>resolved_path = d, resolved_access = Deny\<rparr>"
  have r: "?r \<in> set ?cov" using below e kind(2) deny_entries_access [OF e(1)] by (auto simp: covering_iff)
  then have "?cov \<noteq> []" by auto
  with deciding_entry_iff [OF kind(1) rq, of "resolve_access_with_cwd env ?pol q cwd"] obtain m where
    m: "m \<in> set ?cov" "resolved_access m = resolve_access_with_cwd env ?pol q cwd"
    and top: "\<And>e'. e' \<in> set ?cov \<Longrightarrow> length (resolved_path e') < length (resolved_path m)
         \<or> resolved_path e' = resolved_path m \<and> resolved_access e' \<le> resolved_access m" by auto
  from m(1) obtain x where x: "x \<in> set (policy_entries ?pol)" "resolved_access m = entry_access x"
    "resolve_entry_path env (entry_path x) (env_absolute env cwd) = Some (resolved_path m)"
    "starts_with (resolved_path m) q" by (auto simp: covering_iff)
  consider (deny) "x \<in> set (deny_entries existing)"
    | (root) "entry_path x = Special Root" | (own) "policy_kind pol = Restricted" "x \<in> set (policy_entries pol)"
    using x(1) internal by (cases "policy_kind pol") (auto simp: kind(2))
  then show ?thesis
  proof cases
    case deny
    then show ?thesis using x(2) m(2) deny_entries_access by simp
  next
    case root
    then have "length (resolved_path m) \<le> length d"
      using x(3) ok(1,2) by (cases d) (auto simp: absolute_normalized_def dest!: resolve_root_entry)
    with top [OF r] have "Deny \<le> resolved_access m" by auto
    then show ?thesis using m(2) by (cases "resolved_access m") (auto simp: less_eq_FileSystemAccessMode_def)
  next
    case own
    then have "m \<in> set (covering env pol cwd q)" using x by (auto simp: covering_iff)
    with own specific have "length (resolved_path m) \<le> length d" by blast
    with top [OF r] have "Deny \<le> resolved_access m" by auto
    then show ?thesis using m(2) by (cases "resolved_access m") (auto simp: less_eq_FileSystemAccessMode_def)
  qed
qed

lemma unrestricted_keeps_write:
  assumes ok: "env_ok env" "absolute_normalized q" "env_absolute env cwd = Some c"
    and unr: "policy_kind pol = Unrestricted" and e: "e \<in> set (deny_entries existing)"
    and away: "\<forall>x \<in> set (deny_entries existing). \<forall>y.
         resolve_entry_path env (entry_path x) (env_absolute env cwd) = Some y \<longrightarrow> \<not> starts_with y q"
  shows "resolve_access_with_cwd env (preserve_deny_read_restrictions_from pol existing) q cwd = Write"
proof -
  let ?pol = "preserve_deny_read_restrictions_from pol existing"
  let ?cov = "covering env ?pol cwd q"
  have "policy_kind pol \<noteq> ExternalSandbox" using unr by simp
  note kind = preserve_restricted [OF this e] and rq = resolve_candidate_id [OF ok(2), of env cwd]
  have "has_root_access ?pol can_write" using kind unr by (auto simp: has_root_access_def list_ex_iff)
  from root_entry_covers [OF this ok(1,3,2)] obtain r where
    r: "r \<in> set ?cov" "resolved_path r = [RootDir]" "resolved_access r = Write" by (auto elim: can_write.elims(2))
  have "r' = r" if "r' \<in> set ?cov" for r'
  proof -
    from that away kind(2) unr have "resolve_entry_path env (Special Root) (env_absolute env cwd) = Some (resolved_path r')"
      "resolved_access r' = Write" by (auto simp: covering_iff)
    with r resolve_root_entry [OF ok(1)] show ?thesis by (cases r; cases r') auto
  qed
  then show ?thesis using access_by_deciding_entry [OF kind(1) rq r(1)] r(3) by auto
qed

text \<open>Denials survive a change of the policy. After the denials of an existing policy are carried
  over, each of them is enforced at its path and below it, except where the new policy has a more
  specific entry; and an unrestricted policy keeps its write access everywhere else.\<close>

theorem preserved_denials_are_enforced:
  assumes ok: "env_ok env" "policy_ok existing" and internal: "policy_kind pol \<noteq> ExternalSandbox"
    and e: "e \<in> set (deny_entries existing)"
      "resolve_entry_path env (entry_path e) (env_absolute env cwd) = Some d"
    and q: "absolute_normalized q"
  shows "(starts_with d q
          \<and> (policy_kind pol = Restricted \<longrightarrow>
               (\<forall>r \<in> set (covering env pol cwd q). length (resolved_path r) \<le> length d))
            \<longrightarrow> \<not> can_read_path_with_cwd env (preserve_deny_read_restrictions_from pol existing) q cwd)
     \<and> (policy_kind pol = Unrestricted \<and> env_absolute env cwd \<noteq> None
          \<and> (\<forall>x \<in> set (deny_entries existing). \<forall>y.
               resolve_entry_path env (entry_path x) (env_absolute env cwd) = Some y \<longrightarrow> \<not> starts_with y q)
            \<longrightarrow> resolve_access_with_cwd env (preserve_deny_read_restrictions_from pol existing) q cwd = Write)"
proof -
  have nd: "absolute_normalized d"
    using resolve_entry_normalized [OF ok(1) _ e(2)] policy_ok_path [OF ok(2)] deny_entries_access [OF e(1)] by blast
  show ?thesis
    using carried_denial_decides [OF ok(1) nd q internal e] unrestricted_keeps_write [OF ok(1) q _ _ e(1)]
    by (auto simp: can_read_path_with_cwd_def)
qed

theorem preserved_denials_are_enforced_witness:
  "\<not> can_read_path_with_cwd sample_path_env (preserve_deny_read_restrictions_from unrestricted sample_permissions)
       (sample_path [''w'', ''s'', ''x'']) [RootDir]"
proof -
  let ?e = "mk_entry (AbsPath (sample_path [''w'', ''s''])) Deny"
  have "policy_kind unrestricted \<noteq> ExternalSandbox" "?e \<in> set (deny_entries sample_permissions)"
    "resolve_entry_path sample_path_env (entry_path ?e) (env_absolute sample_path_env [RootDir])
       = Some (sample_path [''w'', ''s''])"
    "starts_with (sample_path [''w'', ''s'']) (sample_path [''w'', ''s'', ''x''])"
    "policy_kind unrestricted \<noteq> Restricted"
    by code_simp+
  with preserved_denials_are_enforced [OF sample_policy_ok(1,2) this(1-3) sample_path_normalized, of "[''w'', ''s'', ''x'']"]
  show ?thesis by blast
qed

section \<open>Protected metadata\<close>

lemma metadata_path_name_Some: "metadata_path_name n = Some m \<longleftrightarrow> m = n \<and> is_protected_metadata_name n"
  by (auto simp: metadata_path_name_def is_protected_metadata_name_def PROTECTED_METADATA_PATH_NAMES_def)

lemma protected_name_components:
  assumes "is_protected_metadata_name n"
  shows "components n = [Normal n]" "n \<noteq> [tilde]"
proof -
  have "list_all (\<lambda>n. components n = [Normal n] \<and> n \<noteq> [tilde]) PROTECTED_METADATA_PATH_NAMES" by code_simp
  with assms show "components n = [Normal n]" "n \<noteq> [tilde]"
    by (auto simp: is_protected_metadata_name_def list_all_iff)
qed

lemma metadata_child_Some:
  assumes "absolute_normalized (resolved_path r)" and "absolute_normalized q"
  shows "metadata_child env q r = Some (x, n) \<longleftrightarrow>
     x = resolved_path r @ [Normal n] \<and> is_protected_metadata_name n \<and> starts_with x q"
proof -
  have join: "env_join env (resolved_path r) (components n) = resolved_path r @ [Normal n]"
    if "is_protected_metadata_name n" for n
    using protected_name_components [OF that] assms(1) by (simp add: env_join_def resolve_normal_name)
  have normal: "c = Normal (component_str c)" if "q = resolved_path r @ c # rest" for c rest
    using assms that by (cases "resolved_path r"; cases c)
                        (auto simp: absolute_normalized_def is_normal_def split: component.splits)
  show ?thesis
  proof (cases "strip_prefix (resolved_path r) q")
    case None
    then have "\<not> prefix (resolved_path r) q" by (simp add: strip_prefix_None_iff)
    with None show ?thesis by (auto simp: metadata_child_def starts_with_iff dest: append_prefixD)
  next
    case (Some rest)
    then have q: "q = resolved_path r @ rest" by (simp add: strip_prefix_Some_iff)
    show ?thesis
    proof (cases rest)
      case Nil
      with Some q show ?thesis by (auto simp: metadata_child_def starts_with_iff prefix_def)
    next
      case (Cons c cs)
      with q normal have "c = Normal (component_str c)" by blast
      with Some Cons q join show ?thesis
        by (auto simp: metadata_child_def metadata_path_name_Some starts_with_iff prefix_def)
    qed
  qed
qed

lemma resolved_entry_normalized:
  assumes "env_ok env" and "policy_ok pol" and "r \<in> set (resolved_entries_with_cwd env pol cwd)"
  shows "absolute_normalized (resolved_path r)"
  using assms resolve_entry_normalized [OF assms(1)] policy_ok_path [OF assms(2)]
  by (auto simp: resolved_entries_iff) blast

lemma metadata_child_of_writable_root_Some:
  assumes "metadata_child_of_writable_root env pol q cwd = Some y"
  shows "\<exists>r \<in> set (resolved_entries_with_cwd env pol cwd). can_write (resolved_access r) \<and> metadata_child env q r = Some y"
proof -
  from assms have "y \<in> set (List.map_filter (metadata_child env q)
      (filter (\<lambda>e. can_write (resolved_access e)) (resolved_entries_with_cwd env pol cwd)))"
    by (auto simp: metadata_child_of_writable_root_def split: list.splits)
  then show ?thesis by (auto simp: map_filter_def)
qed

lemma metadata_child_of_writable_root_None:
  assumes "metadata_child_of_writable_root env pol q cwd = None"
    and "r \<in> set (resolved_entries_with_cwd env pol cwd)" and "can_write (resolved_access r)"
  shows "metadata_child env q r = None"
proof (rule ccontr)
  assume "metadata_child env q r \<noteq> None"
  then have "List.map_filter (metadata_child env q)
      (filter (\<lambda>e. can_write (resolved_access e)) (resolved_entries_with_cwd env pol cwd)) \<noteq> []"
    using assms(2,3) by (auto simp: map_filter_def filter_empty_conv)
  with assms(1) show False by (auto simp: metadata_child_of_writable_root_def split: list.splits)
qed

text \<open>The metadata directories directly below a writable root stay protected: unless the policy grants
  the whole disk, a path in one of them is writable only when a write entry that covers it lies itself
  at or below such a directory of a writable root.\<close>

theorem metadata_write_needs_its_own_entry:
  assumes ok: "env_ok env" "policy_ok pol" "absolute_normalized q"
    and pol: "policy_kind pol = Restricted" "\<not> has_full_disk_write_access pol"
    and r: "r \<in> set (resolved_entries_with_cwd env pol cwd)" "can_write (resolved_access r)"
    and name: "is_protected_metadata_name name" "starts_with (resolved_path r @ [Normal name]) q"
    and writable: "can_write_path_with_cwd env pol q cwd"
  shows "\<exists>w \<in> set (resolved_entries_with_cwd env pol cwd). \<exists>r' \<in> set (resolved_entries_with_cwd env pol cwd).
     \<exists>name'. can_write (resolved_access w) \<and> starts_with (resolved_path w) q
       \<and> can_write (resolved_access r') \<and> is_protected_metadata_name name'
       \<and> starts_with (resolved_path r' @ [Normal name']) (resolved_path w)"
proof -
  note normal = resolved_entry_normalized [OF ok(1,2)]
  have "\<not> is_metadata_write_denied env pol q cwd"
    using writable pol(2) by (auto simp: can_write_path_with_cwd_def split: if_splits)
  then have step: "case metadata_child_of_writable_root env pol q cwd of
      None \<Rightarrow> True | Some (protected, _) \<Rightarrow> has_explicit_write_entry_for_metadata_path env pol protected q cwd"
    using pol(1) by (simp add: is_metadata_write_denied_def resolve_candidate_id [OF ok(3)] split: option.splits prod.splits)
  have "metadata_child env q r = Some (resolved_path r @ [Normal name], name)"
    using name by (simp add: metadata_child_Some [OF normal [OF r(1)] ok(3)])
  then obtain x n where first: "metadata_child_of_writable_root env pol q cwd = Some (x, n)"
    using metadata_child_of_writable_root_None [OF _ r] by (cases "metadata_child_of_writable_root env pol q cwd") auto
  from metadata_child_of_writable_root_Some [OF first] obtain r' where
    r': "r' \<in> set (resolved_entries_with_cwd env pol cwd)" "can_write (resolved_access r')"
      "x = resolved_path r' @ [Normal n]" "is_protected_metadata_name n"
    using metadata_child_Some [OF normal ok(3)] by blast
  from step first have "has_explicit_write_entry_for_metadata_path env pol x q cwd" by simp
  then obtain w where "w \<in> set (resolved_entries_with_cwd env pol cwd)" "can_write (resolved_access w)"
    "starts_with (resolved_path w) q" "starts_with x (resolved_path w)"
    by (auto simp: has_explicit_write_entry_for_metadata_path_def list_ex_iff)
  with r' show ?thesis by blast
qed

theorem metadata_write_needs_its_own_entry_witness:
  "\<exists>w \<in> set (resolved_entries_with_cwd sample_path_env sample_permissions [RootDir]).
     can_write (resolved_access w) \<and> starts_with (resolved_path w) (sample_path [''w'', ''.git'', ''hooks'', ''x''])
     \<and> length (resolved_path w) > 2"
proof -
  let ?q = "sample_path [''w'', ''.git'', ''hooks'', ''x'']"
  let ?r = "\<lparr>resolved_path = sample_path [''w''], resolved_access = Write\<rparr>"
  have facts: "policy_kind sample_permissions = Restricted" "\<not> has_full_disk_write_access sample_permissions"
    "?r \<in> set (resolved_entries_with_cwd sample_path_env sample_permissions [RootDir])"
    "can_write (resolved_access ?r)" "is_protected_metadata_name (lit ''.git'')"
    "starts_with (resolved_path ?r @ [Normal (lit ''.git'')]) ?q"
    "can_write_path_with_cwd sample_path_env sample_permissions ?q [RootDir]"
    by code_simp+
  have long: "length (resolved_path w) > 2" if "starts_with (resolved_path r' @ [Normal n]) (resolved_path w)"
    "absolute_normalized (resolved_path r')" "resolved_path r' \<noteq> [RootDir]" for w r' :: ResolvedFileSystemEntry and n
    using that prefix_length_le [of "resolved_path r' @ [Normal n]" "resolved_path w"]
    by (cases "resolved_path r'"; cases "tl (resolved_path r')")
       (auto simp: starts_with_iff absolute_normalized_def split: component.splits)
  have "list_all (\<lambda>r. can_write (resolved_access r) \<longrightarrow> resolved_path r \<noteq> [RootDir])
      (resolved_entries_with_cwd sample_path_env sample_permissions [RootDir])" by code_simp
  with metadata_write_needs_its_own_entry [OF sample_policy_ok(1,2) sample_path_normalized facts]
    resolved_entry_normalized [OF sample_policy_ok(1,2)] long
  show ?thesis by (auto simp: list_all_iff)
qed

text \<open>The protection depends on the order of the entries: with two nested writable roots, a metadata
  directory of the inner one is protected only when the inner root is listed first.\<close>

lemma metadata_protection_depends_on_order:
  "can_write_path_with_cwd sample_path_env
     (restricted [mk_entry (AbsPath (sample_path [''w''])) Write, mk_entry (AbsPath (sample_path [''w'', ''.git''])) Write])
     (sample_path [''w'', ''.git'', ''.codex'', ''x'']) [RootDir]"
  "\<not> can_write_path_with_cwd sample_path_env
     (restricted [mk_entry (AbsPath (sample_path [''w'', ''.git''])) Write, mk_entry (AbsPath (sample_path [''w''])) Write])
     (sample_path [''w'', ''.git'', ''.codex'', ''x'']) [RootDir]"
  by code_simp+

text \<open>A \<^verbatim>\<open>.git\<close> file may point anywhere, so a read-only subpath of a writable root need not lie below it.\<close>

lemma read_only_subpath_outside_root:
  "default_read_only_subpaths_for_writable_root
     (sample_path_env\<lparr>env_is_file := (\<lambda>p. p = sample_path [''w'', ''.git'']), env_is_dir := (\<lambda>_. False),
        env_exists := (\<lambda>_. True), env_read_to_string := (\<lambda>_. Some (lit ''gitdir: /r/git''))\<rparr>)
     (sample_path [''w'']) False
   = [sample_path [''r'', ''git''], sample_path [''w'', ''.git'']]"
  by code_simp

section \<open>The legacy policy\<close>

lemma append_read_only_entries:
  "\<exists>reads. append_default_read_only_entry_if_no_explicit_rule p entries = entries @ reads
     \<and> list_all (\<lambda>e. entry_access e = Read) reads"
  by (simp add: append_default_read_only_entry_if_no_explicit_rule_def)

lemma fold_append_read_only:
  assumes "\<And>x es. \<exists>reads. f x es = es @ reads \<and> list_all (\<lambda>e. entry_access e = Read) reads"
  shows "\<exists>reads. fold f xs es = es @ reads \<and> list_all (\<lambda>e. entry_access e = Read) reads"
proof (induction xs arbitrary: es)
  case (Cons x xs)
  obtain r1 where "f x es = es @ r1" "list_all (\<lambda>e. entry_access e = Read) r1" using assms by blast
  moreover obtain r2 where "fold f xs (es @ r1) = (es @ r1) @ r2" "list_all (\<lambda>e. entry_access e = Read) r2"
    using Cons.IH by blast
  ultimately show ?case by simp
qed simp

lemma protect_roots_reads:
  "\<exists>reads. protect_roots env b roots es = es @ reads \<and> list_all (\<lambda>e. entry_access e = Read) reads"
  unfolding protect_roots_def
  by (rule fold_append_read_only) (simp add: append_default_read_only_path_if_no_explicit_rule_def append_read_only_entries)

lemma workspace_write_entries:
  "\<exists>reads. policy_entries (workspace_write env roots nt ns) = legacy_workspace_entries roots nt ns @ reads
     \<and> list_all (\<lambda>e. entry_access e = Read) reads"
proof -
  let ?base = "legacy_workspace_entries roots nt ns"
  let ?names = "[lit ''.git'', lit ''.agents'', lit ''.codewith'', lit ''.codex'']"
  have "\<exists>reads. fold append_default_read_only_project_root_subpath_if_no_explicit_rule ?names ?base = ?base @ reads
     \<and> list_all (\<lambda>e. entry_access e = Read) reads"
    by (rule fold_append_read_only)
       (simp add: append_default_read_only_project_root_subpath_if_no_explicit_rule_def append_read_only_entries)
  then obtain r1 where "fold append_default_read_only_project_root_subpath_if_no_explicit_rule ?names ?base = ?base @ r1"
    "list_all (\<lambda>e. entry_access e = Read) r1" by blast
  moreover obtain r2 where "protect_roots env False roots (?base @ r1) = (?base @ r1) @ r2"
    "list_all (\<lambda>e. entry_access e = Read) r2" using protect_roots_reads by blast
  ultimately show ?thesis by (simp add: workspace_write_def restricted_def)
qed

lemma scan_read_entry: "entry_access e = Read \<Longrightarrow> legacy_scan_step env cwd st e = st"
  by (auto simp: legacy_scan_step_def split: FileSystemPath.splits FileSystemSpecialPath.splits option.splits)

lemma scan_read_entries: "list_all (\<lambda>e. entry_access e = Read) es \<Longrightarrow> foldl (legacy_scan_step env cwd) st es = st"
  by (induction es arbitrary: st) (simp_all add: scan_read_entry)

lemma scan_roots:
  "workspace_root_writable st \<Longrightarrow> foldl (legacy_scan_step env cwd) st (map (\<lambda>p. mk_entry (AbsPath p) Write) roots)
     = st\<lparr>scan_writable_roots := scan_writable_roots st @ filter (\<lambda>p. cwd \<noteq> Some p) roots\<rparr>"
  by (induction roots arbitrary: st) (auto simp: legacy_scan_step_def)

lemma scan_workspace_write:
  "foldl (legacy_scan_step env cwd) legacy_scan_start (policy_entries (workspace_write env roots nt ns)) =
     \<lparr>workspace_root_writable = True, scan_writable_roots = filter (\<lambda>p. cwd \<noteq> Some p) roots,
      tmpdir_writable = (\<not> nt), slash_tmp_writable = (\<not> ns), unbridgeable_root_write = False\<rparr>"
proof -
  obtain reads where "policy_entries (workspace_write env roots nt ns) = legacy_workspace_entries roots nt ns @ reads"
    "list_all (\<lambda>e. entry_access e = Read) reads" using workspace_write_entries by blast
  then show ?thesis
    by (simp add: scan_read_entries legacy_workspace_entries_def scan_roots legacy_scan_start_def legacy_scan_step_def)
qed

lemma workspace_write_not_full: "\<not> has_full_disk_write_access (workspace_write env roots nt ns)"
proof -
  obtain reads where "policy_entries (workspace_write env roots nt ns) = legacy_workspace_entries roots nt ns @ reads"
    "list_all (\<lambda>e. entry_access e = Read) reads" using workspace_write_entries by blast
  moreover have "policy_kind (workspace_write env roots nt ns) = Restricted" by (simp add: workspace_write_def restricted_def)
  ultimately show ?thesis
    by (auto simp: has_full_disk_write_access_def has_root_access_def legacy_workspace_entries_def list_all_iff list_ex_iff)
qed

definition legacy_normal_form :: "path_env \<Rightarrow> path_buf \<Rightarrow> SandboxPolicy \<Rightarrow> SandboxPolicy" where
  "legacy_normal_form env cwd s =
     (case s of
        WorkspaceWrite roots n nt ns \<Rightarrow>
          WorkspaceWrite (dedup_absolute_paths (\<lambda>p. p) (filter (\<lambda>p. env_absolute env cwd \<noteq> Some p) roots)) n nt ns
      | _ \<Rightarrow> s)"

text \<open>C14: a legacy sandbox policy survives the trip through permission profiles: the profile always
  exists, keeps the enforcement and the network setting, and converts back to the policy it came from,
  less repeated writable roots and a root that is the current directory itself.\<close>

theorem legacy_policy_round_trip:
  "\<exists>p. profile_from_legacy_sandbox_policy env s = Some p
     \<and> enforcement p = enforcement_from_legacy s
     \<and> network_sandbox_policy p = network_from_sandbox s
     \<and> file_system_sandbox_policy p = fs_policy_from_sandbox env s
     \<and> profile_to_legacy_sandbox_policy env p cwd = Inr (legacy_normal_form env cwd s)"
proof (cases s)
  case DangerFullAccess
  then show ?thesis
    by (simp add: profile_from_legacy_sandbox_policy_def from_runtime_permissions_with_enforcement_def
          unrestricted_def network_from_sandbox_def legacy_normal_form_def)
next
  case (ReadOnly n)
  then show ?thesis
    by (simp add: profile_from_legacy_sandbox_policy_def from_runtime_permissions_with_enforcement_def
          restricted_def managed_from_sandbox_policy_def non_zero_def network_from_sandbox_def legacy_normal_form_def
          to_legacy_sandbox_policy_def has_full_disk_write_access_def has_root_access_def legacy_scan_step_def
          legacy_scan_start_def)
next
  case (ExternalSandboxPolicy n)
  then show ?thesis
    by (cases n) (simp_all add: profile_from_legacy_sandbox_policy_def from_runtime_permissions_with_enforcement_def
          external_sandbox_def network_from_sandbox_def legacy_normal_form_def)
next
  case (WorkspaceWrite roots n nt ns)
  define w where "w = workspace_write env roots nt ns"
  have w: "policy_kind w = Restricted" "glob_scan_max_depth w = None"
    by (simp_all add: w_def workspace_write_def restricted_def)
  then have same: "\<lparr>policy_kind = Restricted, glob_scan_max_depth = None, policy_entries = policy_entries w\<rparr> = w"
    by simp
  have "to_legacy_sandbox_policy env w (network_from_sandbox s) cwd = Inr (legacy_normal_form env cwd s)"
    using w(1) WorkspaceWrite
    by (simp add: w_def to_legacy_sandbox_policy_def workspace_write_not_full scan_workspace_write network_from_sandbox_def
          legacy_normal_form_def)
  with WorkspaceWrite w show ?thesis
    by (simp add: same profile_from_legacy_sandbox_policy_def from_runtime_permissions_with_enforcement_def
          managed_from_sandbox_policy_def non_zero_def flip: w_def)
qed

end
