(* ===== verification/Patch_Safety_Properties.thy ===== *)
theory Patch_Safety_Properties
  imports Patch_Safety Permission_Properties Patch_Properties
begin

text \<open>
  From the verified patch to the files it changes: the text handed on parses to the same hunks again, and a patch that was
  approved without asking changes no path the policy protects.
\<close>

section \<open>Parsing the normalised patch again\<close>

lemma strip_cr_subset: "set (strip_cr l) \<subseteq> set l"
  by (auto simp: strip_cr_def text_simps split: option.splits)

lemma split_on_subset: "l \<in> set (split_on c s) \<Longrightarrow> set l \<subseteq> set s"
proof (induction s arbitrary: l)
  case (Cons x s)
  then show ?case by (cases "split_on c s") (fastforce split: if_splits)+
qed simp

lemma str_lines_pieces:
  assumes "l \<in> set (str_lines s)"
  shows "nl \<notin> set l" "set l \<subseteq> set s"
proof -
  have "\<exists>l' \<in> set (split_on nl s). set l \<subseteq> set l'"
  proof (cases "l = last (split_on nl s)")
    case False
    with assms obtain l' where "l' \<in> set (butlast (split_on nl s))" "l = strip_cr l'"
      by (auto simp: str_lines_def Let_def split: if_splits)
    then show ?thesis using strip_cr_subset [of l'] by (blast dest: in_set_butlastD)
  qed auto
  then obtain l' where "l' \<in> set (split_on nl s)" "set l \<subseteq> set l'" ..
  then show "nl \<notin> set l" "set l \<subseteq> set s" using split_on_pieces [of l' nl s] split_on_subset [of l' nl s] by auto
qed

lemma trim_empty: "(\<forall>x \<in> set s. is_whitespace x) \<Longrightarrow> trim s = []"
  by (simp add: trim_def trim_start_def iffD2 [OF dropWhile_eq_Nil_conv])

lemma trim_between:
  assumes "trim f \<noteq> []" and "trim l \<noteq> []"
  shows "trim (f @ m @ l) = trim_start f @ m @ trim_end l"
proof -
  obtain x y where "x \<in> set f" "\<not> is_whitespace x" "y \<in> set (rev l)" "\<not> is_whitespace y"
    using trim_empty assms by (metis set_rev)
  then show ?thesis by (simp add: trim_def trim_start_def trim_end_def dropWhile_append1)
qed

lemma trim_trim_start [simp]: "trim (trim_start s) = trim s"
  by (simp add: trim_def)

lemma trim_trim_end [simp]: "trim (trim_end s) = trim s"
  by (simp add: trim_alt)

lemma check_strict_split:
  assumes "check_patch_boundaries_strict ls = Inr (pl, hl)"
  obtains f l where "ls = f # hl @ [l]" "pl = ls" "trim f = BEGIN_PATCH_MARKER" "trim l = END_PATCH_MARKER"
proof (cases ls)
  case Nil
  with assms show ?thesis by (simp add: check_patch_boundaries_strict_def check_start_and_end_lines_strict_def)
next
  case (Cons f rest)
  with assms have ends: "trim f = BEGIN_PATCH_MARKER" "trim (last ls) = END_PATCH_MARKER" "pl = ls" "hl = butlast rest"
    by (auto simp: check_patch_boundaries_strict_def check_start_and_end_lines_strict_def result_simps split: if_splits)
  have "BEGIN_PATCH_MARKER \<noteq> END_PATCH_MARKER" by code_simp
  with ends Cons have "rest \<noteq> []" by auto
  with ends Cons that [of f "last rest"] show ?thesis by simp
qed

lemma check_lenient_lines:
  assumes "check_patch_boundaries_lenient ls = Inr (pl, hl)"
  shows "set pl \<subseteq> set ls \<and> check_patch_boundaries_strict pl = Inr (pl, hl)"
proof -
  have strict: "pl = xs" if "check_patch_boundaries_strict xs = Inr (pl, hl)" for xs
    using that by (rule check_strict_split)
  have sub: "set (butlast (tl xs)) \<subseteq> set xs" for xs :: "str list"
    by (cases xs) (auto dest: in_set_butlastD)
  from assms have "check_patch_boundaries_strict ls = Inr (pl, hl)
      \<or> check_patch_boundaries_strict (butlast (tl ls)) = Inr (pl, hl)"
    by (auto simp: check_patch_boundaries_lenient_def split: sum.splits list.splits if_splits)
  with strict sub [of ls] show ?thesis by (metis subset_refl)
qed

text \<open>The text handed on differs from the lines that were parsed at most in the white space around it.\<close>

lemma reparse_normalised_patch:
  assumes "parse_patch p = Inr args" and "cr \<notin> set p"
  shows "parse_patch (patch args) = Inr (args\<lparr>patch := trim (patch args)\<rparr>)"
proof -
  from assms(1) obtain pl hl env remaining n hs where
    check: "check_patch_boundaries_lenient (str_lines (trim p)) = Inr (pl, hl)"
    and preamble: "parse_environment_id_preamble hl = Inr (env, remaining, n)" "hunks_loop [] n remaining = Inr hs"
    and args: "args = \<lparr>patch = join_with [nl] pl, hunks = hs, workdir = None, environment_id = env\<rparr>"
    by (auto simp: parse_patch_def parse_patch_text_def PARSE_IN_STRICT_MODE_def result_simps)
  from check_lenient_lines [OF check] have sub: "set pl \<subseteq> set (str_lines (trim p))"
    and "check_patch_boundaries_strict pl = Inr (pl, hl)" by auto
  from this(2) obtain f l where pl: "pl = f # hl @ [l]" "trim f = BEGIN_PATCH_MARKER" "trim l = END_PATCH_MARKER"
    by (rule check_strict_split)
  let ?pl = "trim_start f # hl @ [trim_end l]"
  have ne: "trim f \<noteq> []" "trim l \<noteq> []" by (simp_all add: pl lit_marker_codes)
  have join: "join_with [nl] (x # xs @ [y]) = x @ (nl # concat (map (\<lambda>z. z @ [nl]) xs)) @ y" for x xs and y :: str
    by (induction xs arbitrary: x) simp_all
  have trimmed: "trim (join_with [nl] pl) = join_with [nl] ?pl"
    by (simp only: pl(1) join trim_between [OF ne])
  have ok: "line_ok x" if "x \<in> set ?pl" for x
  proof -
    have "set (trim_start f) \<subseteq> set f" "set (trim_end l) \<subseteq> set l"
      by (auto simp: trim_start_def set_trim_end dest: set_dropWhileD subsetD [OF set_trim_end])
    with that pl(1) obtain y where "y \<in> set pl" "set x \<subseteq> set y" by auto
    with sub have "y \<in> set (str_lines (trim p))" by blast
    moreover have "set (trim p) \<subseteq> set p" using set_trim_end [of "trim_start p"]
      by (auto simp: trim_def trim_start_def dest: set_dropWhileD)
    ultimately have "nl \<notin> set x" "cr \<notin> set x"
      using str_lines_pieces [of y "trim p"] assms(2) \<open>set x \<subseteq> set y\<close> by auto
    then show ?thesis by (auto simp: line_ok_def dest: last_in_set)
  qed
  have "trim_end l \<noteq> []" using ne(2) by (auto simp: trim_alt)
  with ok have lines: "str_lines (join_with [nl] ?pl) = ?pl"
    by (intro str_lines_join) (auto simp: list_all_iff)
  have "check_patch_boundaries_lenient ?pl = Inr (?pl, hl)"
    using pl by (simp add: check_patch_boundaries_lenient_def check_patch_boundaries_strict_def
        check_start_and_end_lines_strict_def)
  then show ?thesis
    using preamble by (simp add: args parse_patch_def parse_patch_text_def PARSE_IN_STRICT_MODE_def trimmed lines)
qed

section \<open>Verified changes\<close>








section \<open>A file system that refuses\<close>

text \<open>The same file system, refusing every write and removal of a path that is not \<open>allowed\<close>.\<close>

definition guarded_fs :: "(path_buf \<Rightarrow> bool) \<Rightarrow> 's fs_ops \<Rightarrow> 's fs_ops" where
  "guarded_fs allowed ops = ops
     \<lparr>write_file := (\<lambda>s p c. if allowed p then write_file ops s p c
                          else (s, Inl \<lparr>kind = PermissionDenied, message = lit ''path is protected''\<rparr>)),
      remove_path := (\<lambda>s p r f. if allowed p then remove_path ops s p r f
                          else (s, Inl \<lparr>kind = PermissionDenied, message = lit ''path is protected''\<rparr>))\<rparr>"

lemma guarded_fs_sel [simp]:
  "read_file_text (guarded_fs allowed ops) = read_file_text ops"
  "get_metadata (guarded_fs allowed ops) = get_metadata ops"
  "create_directory (guarded_fs allowed ops) = create_directory ops"
  "allowed p \<Longrightarrow> write_file (guarded_fs allowed ops) s p c = write_file ops s p c"
  "allowed p \<Longrightarrow> remove_path (guarded_fs allowed ops) s p r f = remove_path ops s p r f"
  by (simp_all add: guarded_fs_def)

lemma guarded_queries [simp]:
  "ensure_not_directory (guarded_fs allowed ops) = ensure_not_directory ops"
  "remove_failure_was_side_effect_free (guarded_fs allowed ops) = remove_failure_was_side_effect_free ops"
  "note_existing_path_delta_support (guarded_fs allowed ops) = note_existing_path_delta_support ops"
  "read_optional_file_text_for_delta (guarded_fs allowed ops) = read_optional_file_text_for_delta ops"
  "derive_new_contents_from_chunks (guarded_fs allowed ops) = derive_new_contents_from_chunks ops"
  by (simp_all add: fun_eq_iff ensure_not_directory_def remove_failure_was_side_effect_free_def
        note_existing_path_delta_support_def read_optional_file_text_for_delta_def derive_new_contents_from_chunks_def
        cong: option.case_cong)

lemma guarded_write [simp]:
  "allowed p \<Longrightarrow> write_file_with_missing_parent_retry (guarded_fs allowed ops) s p c =
     write_file_with_missing_parent_retry ops s p c"
  by (simp add: write_file_with_missing_parent_retry_def Let_def split: prod.split sum.split option.split)

lemma guarded_remove [simp]:
  "allowed p \<Longrightarrow> remove_checked (guarded_fs allowed ops) st p msg expected k = remove_checked ops st p msg expected k"
  by (simp add: remove_checked_def cong: prod.case_cong sum.case_cong)




section \<open>Approved patches\<close>



definition sample_lines :: "string list \<Rightarrow> str" where
  "sample_lines ls = join_with [nl] (map lit ls)"

definition sample_add_patch :: str where
  "sample_add_patch = sample_lines [''*** Begin Patch'', ''*** Add File: w/x'', ''+hi'', ''*** End Patch'']"

definition sample_managed :: PermissionProfile where
  "sample_managed = Managed (ManagedRestricted (policy_entries sample_permissions) None) NetRestricted"

definition sample_args :: "str \<Rightarrow> ApplyPatchArgs" where
  "sample_args p = (case parse_patch p of Inr args \<Rightarrow> args | Inl _ \<Rightarrow> \<lparr>patch = [], hunks = [], workdir = None, environment_id = None\<rparr>)"

definition sample_action :: "str \<Rightarrow> (path_buf \<Rightarrow> str option) \<Rightarrow> ApplyPatchAction" where
  "sample_action p s =
     (case verify_apply_patch_args (\<lambda>_ _ _. []) mem_fs s None (sample_args p) [RootDir] of
        Some (VerifiedBody action) \<Rightarrow> action
      | _ \<Rightarrow> \<lparr>action_changes = [], action_patch = [], action_cwd = []\<rparr>)"

definition sample_applied :: "str \<Rightarrow> (path_buf \<Rightarrow> str option) \<Rightarrow> path_buf \<Rightarrow> str option" where
  "sample_applied p s q =
     (case apply_patch mem_fs None [RootDir] (\<lambda>a b. Inr (a @ b)) (\<lambda>a b. Inr (a @ b)) (action_patch (sample_action p s)) s [] [] of
        Some o' \<Rightarrow> final_fs o' q
      | None \<Rightarrow> None)"

lemma sample_action_eq:
  "parse_patch sample_add_patch = Inr (sample_args sample_add_patch)"
  "cr \<notin> set sample_add_patch"
  "verify_apply_patch_args (\<lambda>_ _ _. []) mem_fs (\<lambda>_. None) (env_home sample_path_env)
     ((sample_args sample_add_patch)\<lparr>workdir := None\<rparr>) [RootDir] = Some (VerifiedBody (sample_action sample_add_patch (\<lambda>_. None)))"
  "path_is_absolute [RootDir]"
  "distinct (map (\<lambda>h. resolve_path (env_home sample_path_env) h (action_cwd (sample_action sample_add_patch (\<lambda>_. None))))
     (hunks (sample_args sample_add_patch)))"
  "assess_patch_safety Linux sample_path_env (sample_action sample_add_patch (\<lambda>_. None)) OnRequest sample_managed
     sample_permissions (action_cwd (sample_action sample_add_patch (\<lambda>_. None))) LevelDisabled = AutoApprove LinuxSeccomp False"
  "OnRequest \<noteq> OnFailure"
  by code_simp+


text \<open>What is handed on is what was verified. The normalised text of a parsed patch, which the engine parses once more
  when it applies the patch, parses to the same hunks, as long as the patch has no carriage returns.\<close>

theorem normalised_patch_parses_again:
  assumes "parse_patch p = Inr args" and "cr \<notin> set p"
  shows "\<exists>args'. parse_patch (patch args) = Inr args' \<and> hunks args' = hunks args \<and> environment_id args' = environment_id args"
  using reparse_normalised_patch [OF assms] by simp

theorem normalised_patch_parses_again_witness:
  "\<exists>args'. parse_patch (patch (sample_args sample_add_patch)) = Inr args' \<and> hunks args' = hunks (sample_args sample_add_patch)"
  using normalised_patch_parses_again [OF sample_action_eq(1,2)] by blast

text \<open>The condition on the hunks is needed: the changes are kept by path, so a later hunk for a file hides an earlier one
  from the check. Here the first hunk moves the file out of the writable directory and the second adds a file of the same
  name; the patch is approved and writes the destination of the move.\<close>

definition hidden_move_patch :: str where
  "hidden_move_patch = sample_lines [''*** Begin Patch'', ''*** Update File: w/a'', ''*** Move to: out/x'', ''@@'', ''-old'', ''+new'',
     ''*** Add File: w/a'', ''+hi'', ''*** End Patch'']"

definition hidden_move_files :: "path_buf \<Rightarrow> str option" where
  "hidden_move_files q = (if q = Permission_Properties.sample_path [''w'', ''a''] then Some (lit ''old'' @ [nl]) else None)"

lemma repeated_path_hides_a_move:
  "assess_patch_safety Linux sample_path_env (sample_action hidden_move_patch hidden_move_files) OnRequest sample_managed
     sample_permissions [RootDir] LevelDisabled = AutoApprove LinuxSeccomp False"
  "\<not> can_write_path_with_cwd sample_path_env sample_permissions (Permission_Properties.sample_path [''out'', ''x'']) [RootDir]"
  "sample_applied hidden_move_patch hidden_move_files (Permission_Properties.sample_path [''out'', ''x'']) = Some (lit ''new'' @ [nl])"
  by code_simp+

text \<open>So is the condition on carriage returns: the parser drops one of them at the end of a line each time the text is parsed,
  so a destination that ends in one is verified under another name than it is written to.\<close>

definition returning_patch :: str where
  "returning_patch = join_with [nl] [lit ''*** Begin Patch'', lit ''*** Update File: w/a'', lit ''*** Move to: w/x'' @ [cr, cr],
     lit ''@@'', lit ''-old'', lit ''+new'', lit ''*** End Patch'']"

lemma carriage_return_changes_destination:
  "map snd (action_changes (sample_action returning_patch hidden_move_files)) =
     [Update [] (Some [RootDir, Normal (lit ''w''), Normal (lit ''x'' @ [cr])]) (lit ''new'' @ [nl])]"
  "sample_applied returning_patch hidden_move_files (Permission_Properties.sample_path [''w'', ''x'']) = Some (lit ''new'' @ [nl])"
  by code_simp+

end
