(* ===== verification/Exec_Policy_Parser.thy ===== *)
theory Exec_Policy_Parser
  imports Exec_Policy
begin

text \<open>
  Building a policy from policy files (\<^verbatim>\<open>execpolicy/src/parser.rs\<close> and the example checks of
  \<^verbatim>\<open>rule.rs\<close>). The Starlark interpreter is a third-party crate: running a policy file is an argument
  that yields a syntax error or the calls of the three builtins the file makes, in order, and the
  error that ends the run, if any. The builtins return nothing to the file, so the calls do not
  depend on their results; the first builtin that fails ends the run. Word splitting and joining
  (\<^verbatim>\<open>shlex\<close>), the debug text of rules and the process environment are fields of an environment record.
\<close>

section \<open>The environment\<close>

record policy_env =
  home_dir :: "path_buf option"
  current_dir :: "path_buf option"
  current_dir_error :: str
  shlex_split :: "str \<Rightarrow> str list option"
  shlex_try_join :: "str list \<Rightarrow> str option"
  debug_rule :: "PrefixRule \<Rightarrow> str"
  debug_match :: "RuleMatch \<Rightarrow> str"

definition resolving :: MatchOptions where
  "resolving = \<lparr>resolve_host_executables = True\<rparr>"

section \<open>Starlark values and calls\<close>

text \<open>\<open>OtherValue\<close> is a value that is neither a string nor a list, with the name of its type.\<close>

datatype starlark_value = StrValue str | ListValue "starlark_value list" | OtherValue str

fun unpack_str :: "starlark_value \<Rightarrow> str option" where
  "unpack_str (StrValue s) = Some s"
| "unpack_str _ = None"

fun get_type :: "starlark_value \<Rightarrow> str" where
  "get_type (StrValue _) = lit ''string''"
| "get_type (ListValue _) = lit ''list''"
| "get_type (OtherValue t) = t"

record FileSpan =
  span_filename :: str
  begin_line :: nat
  begin_column :: nat
  end_line :: nat
  end_column :: nat

datatype builtin_call =
  PrefixRuleCall "starlark_value list" "str option" "starlark_value list option"
    "starlark_value list option" "str option" "FileSpan option"
| NetworkRuleCall str str str "str option"
| HostExecutableCall str "starlark_value list"

section \<open>Patterns and examples\<close>

definition unpack_or :: "'e \<Rightarrow> starlark_value \<Rightarrow> 'e + str" where
  "unpack_or err v = (case unpack_str v of Some s \<Rightarrow> Inr s | None \<Rightarrow> Inl err)"

fun parse_pattern_token :: "starlark_value \<Rightarrow> 'e policy_error + PatternToken" where
  "parse_pattern_token (StrValue s) = Inr (Single s)"
| "parse_pattern_token (ListValue vs) =
     bind_result
       (map_result (\<lambda>v. unpack_or (InvalidPattern
          (lit ''pattern alternative must be a string (got '' @ get_type v @ lit '')'')) v) vs)
       (\<lambda>tokens. case tokens of
            [] \<Rightarrow> Inl (InvalidPattern (lit ''pattern alternatives cannot be empty''))
          | [single] \<Rightarrow> Inr (Single single)
          | _ \<Rightarrow> Inr (Alts tokens))"
| "parse_pattern_token (OtherValue t) =
     Inl (InvalidPattern (lit ''pattern element must be a string or list of strings (got '' @ t @ lit '')''))"

definition parse_pattern :: "starlark_value list \<Rightarrow> 'e policy_error + PatternToken list" where
  "parse_pattern vs =
     bind_result (map_result parse_pattern_token vs)
       (\<lambda>tokens. if tokens = [] then Inl (InvalidPattern (lit ''pattern cannot be empty''))
                 else Inr tokens)"

definition parse_string_example :: "policy_env \<Rightarrow> str \<Rightarrow> 'e policy_error + str list" where
  "parse_string_example env raw =
     (case shlex_split env raw of
        None \<Rightarrow> Inl (InvalidExample (lit ''example string has invalid shell syntax''))
      | Some tokens \<Rightarrow>
          if tokens = [] then Inl (InvalidExample (lit ''example cannot be an empty string''))
          else Inr tokens)"

definition parse_list_example :: "starlark_value list \<Rightarrow> 'e policy_error + str list" where
  "parse_list_example vs =
     bind_result
       (map_result (\<lambda>v. unpack_or (InvalidExample
          (lit ''example tokens must be strings (got '' @ get_type v @ lit '')'')) v) vs)
       (\<lambda>tokens. if tokens = [] then Inl (InvalidExample (lit ''example cannot be an empty list''))
                 else Inr tokens)"

fun parse_example :: "policy_env \<Rightarrow> starlark_value \<Rightarrow> 'e policy_error + str list" where
  "parse_example env (StrValue raw) = parse_string_example env raw"
| "parse_example env (ListValue vs) = parse_list_example vs"
| "parse_example env (OtherValue t) =
     Inl (InvalidExample (lit ''example must be a string or list of strings (got '' @ t @ lit '')''))"

definition parse_examples :: "policy_env \<Rightarrow> starlark_value list \<Rightarrow> 'e policy_error + str list list" where
  "parse_examples env vs = map_result (parse_example env) vs"

definition parse_optional_examples ::
  "policy_env \<Rightarrow> starlark_value list option \<Rightarrow> 'e policy_error + str list list" where
  "parse_optional_examples env vs = (case vs of Some es \<Rightarrow> parse_examples env es | None \<Rightarrow> Inr [])"

section \<open>Host executables and decisions\<close>

definition parse_literal_absolute_path :: "policy_env \<Rightarrow> str \<Rightarrow> 'e policy_error + path_buf" where
  "parse_literal_absolute_path env raw =
     (if \<not> path_is_absolute (components raw)
      then Inl (InvalidRule (lit ''host_executable paths must be absolute (got '' @ raw @ lit '')''))
      else case from_absolute_path (home_dir env) (current_dir env) raw of
             Some p \<Rightarrow> Inr p
           | None \<Rightarrow> Inl (InvalidRule
               (lit ''invalid absolute path `'' @ raw @ lit ''`: '' @ current_dir_error env)))"

definition validate_host_executable_name :: "str \<Rightarrow> 'e policy_error + unit" where
  "validate_host_executable_name name =
     (if name = [] then Inl (InvalidRule (lit ''host_executable name cannot be empty''))
      else if length (components name) \<noteq> 1 \<or> path_file_name (components name) \<noteq> Some name
      then Inl (InvalidRule
             (lit ''host_executable name must be a bare executable name (got '' @ name @ lit '')''))
      else Inr ())"

definition parse_network_rule_decision :: "str \<Rightarrow> 'e policy_error + Decision" where
  "parse_network_rule_decision raw = (if raw = lit ''deny'' then Inr Forbidden else decision_parse raw)"

definition error_location_from_file_span :: "FileSpan \<Rightarrow> ErrorLocation" where
  "error_location_from_file_span span =
     \<lparr>loc_path = span_filename span,
      loc_range = \<lparr>range_start = \<lparr>tp_line = begin_line span + 1, tp_column = begin_column span + 1\<rparr>,
                   range_end = \<lparr>tp_line = end_line span + 1, tp_column = end_column span + 1\<rparr>\<rparr>\<rparr>"

definition attach_validation_location ::
  "'e policy_error \<Rightarrow> ErrorLocation option \<Rightarrow> 'e policy_error" where
  "attach_validation_location e location =
     (case location of Some l \<Rightarrow> with_location e l | None \<Rightarrow> e)"

section \<open>The builder\<close>

record PendingExampleValidation =
  pv_rules :: "PrefixRule list"
  pv_matches :: "str list list"
  pv_not_matches :: "str list list"
  pv_location :: "ErrorLocation option"

record 'm PolicyBuilder =
  b_rules :: 'm
  b_network_rules :: "NetworkRule list"
  b_host_executables :: "str \<rightharpoonup> path_buf list"
  b_pending :: "PendingExampleValidation list"

definition builder_new :: "('m, PrefixRule) multimap_ops \<Rightarrow> 'm PolicyBuilder" where
  "builder_new mm = \<lparr>b_rules = mm_new mm, b_network_rules = [], b_host_executables = Map.empty, b_pending = []\<rparr>"

definition builder_add_rule ::
  "('m, PrefixRule) multimap_ops \<Rightarrow> PrefixRule \<Rightarrow> 'm PolicyBuilder \<Rightarrow> 'm PolicyBuilder" where
  "builder_add_rule mm r b = b\<lparr>b_rules := mm_insert mm (rule_program r) r (b_rules b)\<rparr>"

definition builder_add_network_rule :: "NetworkRule \<Rightarrow> 'm PolicyBuilder \<Rightarrow> 'm PolicyBuilder" where
  "builder_add_network_rule r b = b\<lparr>b_network_rules := b_network_rules b @ [r]\<rparr>"

definition builder_add_host_executable ::
  "str \<Rightarrow> path_buf list \<Rightarrow> 'm PolicyBuilder \<Rightarrow> 'm PolicyBuilder" where
  "builder_add_host_executable name paths b =
     b\<lparr>b_host_executables := (b_host_executables b)(name \<mapsto> paths)\<rparr>"

definition builder_add_pending :: "PendingExampleValidation \<Rightarrow> 'm PolicyBuilder \<Rightarrow> 'm PolicyBuilder" where
  "builder_add_pending v b = b\<lparr>b_pending := b_pending b @ [v]\<rparr>"

definition builder_build :: "'m PolicyBuilder \<Rightarrow> 'm Policy" where
  "builder_build b = policy_from_parts (b_rules b) (b_network_rules b) (b_host_executables b)"

section \<open>Example checks\<close>

definition render_example :: "policy_env \<Rightarrow> str list \<Rightarrow> str" where
  "render_example env example =
     (case shlex_try_join env example of Some s \<Rightarrow> s | None \<Rightarrow> lit ''unable to render example'')"

definition example_matches ::
  "('m, PrefixRule) multimap_ops \<Rightarrow> policy_env \<Rightarrow> 'm Policy \<Rightarrow> str list \<Rightarrow> RuleMatch list" where
  "example_matches mm env pol example =
     matches_for_command_with_options mm (home_dir env) (current_dir env) pol example None resolving"

definition validate_match_examples ::
  "('m, PrefixRule) multimap_ops \<Rightarrow> policy_env \<Rightarrow> 'm Policy \<Rightarrow> PrefixRule list \<Rightarrow> str list list
   \<Rightarrow> 'e policy_error + unit" where
  "validate_match_examples mm env pol rules matches =
     (let unmatched = filter (\<lambda>example. example_matches mm env pol example = []) matches
      in if unmatched = [] then Inr ()
         else Inl (ExampleDidNotMatch (map (debug_rule env) rules) (map (render_example env) unmatched) None))"

fun validate_not_match_examples ::
  "('m, PrefixRule) multimap_ops \<Rightarrow> policy_env \<Rightarrow> 'm Policy \<Rightarrow> PrefixRule list \<Rightarrow> str list list
   \<Rightarrow> 'e policy_error + unit" where
  "validate_not_match_examples mm env pol rules [] = Inr ()"
| "validate_not_match_examples mm env pol rules (example # examples) =
     (case example_matches mm env pol example of
        m # _ \<Rightarrow> Inl (ExampleDidMatch (debug_match env m) (render_example env example) None)
      | [] \<Rightarrow> validate_not_match_examples mm env pol rules examples)"

definition validation_policy ::
  "('m, PrefixRule) multimap_ops \<Rightarrow> 'm PolicyBuilder \<Rightarrow> PendingExampleValidation \<Rightarrow> 'm Policy" where
  "validation_policy mm b v =
     policy_from_parts (fold (\<lambda>r. mm_insert mm (rule_program r) r) (pv_rules v) (mm_new mm)) []
       (b_host_executables b)"

fun validate_pending ::
  "('m, PrefixRule) multimap_ops \<Rightarrow> policy_env \<Rightarrow> 'm PolicyBuilder \<Rightarrow> PendingExampleValidation list
   \<Rightarrow> 'e policy_error + unit" where
  "validate_pending mm env b [] = Inr ()"
| "validate_pending mm env b (v # vs) =
     (let pol = validation_policy mm b v
      in bind_result (map_err (\<lambda>e. attach_validation_location e (pv_location v))
             (validate_not_match_examples mm env pol (pv_rules v) (pv_not_matches v)))
           (\<lambda>_. bind_result (map_err (\<lambda>e. attach_validation_location e (pv_location v))
             (validate_match_examples mm env pol (pv_rules v) (pv_matches v)))
           (\<lambda>_. validate_pending mm env b vs)))"

definition validate_pending_examples_from ::
  "('m, PrefixRule) multimap_ops \<Rightarrow> policy_env \<Rightarrow> 'm PolicyBuilder \<Rightarrow> nat \<Rightarrow> 'e policy_error + unit" where
  "validate_pending_examples_from mm env b start = validate_pending mm env b (drop start (b_pending b))"

section \<open>The builtins\<close>

definition checked_justification :: "str option \<Rightarrow> 'e policy_error + str option" where
  "checked_justification j = (if blank_justification j then Inl (InvalidRule justification_msg) else Inr j)"

definition prefix_rule ::
  "('m, PrefixRule) multimap_ops \<Rightarrow> policy_env \<Rightarrow> starlark_value list \<Rightarrow> str option
   \<Rightarrow> starlark_value list option \<Rightarrow> starlark_value list option \<Rightarrow> str option \<Rightarrow> FileSpan option
   \<Rightarrow> 'm PolicyBuilder \<Rightarrow> 'e policy_error + 'm PolicyBuilder" where
  "prefix_rule mm env pattern decision match not_match justification span b =
     bind_result (case decision of Some raw \<Rightarrow> decision_parse raw | None \<Rightarrow> Inr Allow) (\<lambda>d.
     bind_result (checked_justification justification) (\<lambda>j.
     bind_result (parse_pattern pattern) (\<lambda>pattern_tokens.
     bind_result (parse_optional_examples env match) (\<lambda>matches.
     bind_result (parse_optional_examples env not_match) (\<lambda>not_matches.
     (case pattern_tokens of
        [] \<Rightarrow> Inl (InvalidPattern (lit ''pattern cannot be empty''))
      | first_token # remaining_tokens \<Rightarrow>
          (let rules = map (\<lambda>head. \<lparr>rule_pattern = \<lparr>pattern_first = head, pattern_rest = remaining_tokens\<rparr>,
                                    rule_decision = d, rule_justification = j\<rparr>)
                         (token_alternatives first_token)
           in Inr (fold (builder_add_rule mm) rules
                (builder_add_pending \<lparr>pv_rules = rules, pv_matches = matches, pv_not_matches = not_matches,
                   pv_location = map_option error_location_from_file_span span\<rparr> b)))))))))"

definition network_rule ::
  "str \<Rightarrow> str \<Rightarrow> str \<Rightarrow> str option \<Rightarrow> 'm PolicyBuilder \<Rightarrow> 'e policy_error + 'm PolicyBuilder" where
  "network_rule host protocol decision justification b =
     bind_result (protocol_parse protocol) (\<lambda>p.
     bind_result (parse_network_rule_decision decision) (\<lambda>d.
     bind_result (checked_justification justification) (\<lambda>j.
     bind_result (normalize_network_rule_host host) (\<lambda>h.
     Inr (builder_add_network_rule
       \<lparr>net_host = h, net_protocol = p, net_decision = d, net_justification = j\<rparr> b)))))"

definition basename_msg :: "str \<Rightarrow> str \<Rightarrow> str" where
  "basename_msg raw name =
     lit ''host_executable path `'' @ raw @ lit ''` must have basename `'' @ name @ lit ''`''"

fun parse_host_paths ::
  "policy_env \<Rightarrow> str \<Rightarrow> path_buf list \<Rightarrow> starlark_value list \<Rightarrow> 'e policy_error + path_buf list" where
  "parse_host_paths env name parsed_paths [] = Inr parsed_paths"
| "parse_host_paths env name parsed_paths (v # vs) =
     bind_result (unpack_or (InvalidRule
         (lit ''host_executable paths must be strings (got '' @ get_type v @ lit '')'')) v) (\<lambda>raw.
     bind_result (parse_literal_absolute_path env raw) (\<lambda>p.
     (case executable_path_lookup_key p of
        None \<Rightarrow> Inl (InvalidRule (basename_msg raw name))
      | Some path_name \<Rightarrow>
          if path_name \<noteq> executable_lookup_key name then Inl (InvalidRule (basename_msg raw name))
          else parse_host_paths env name
                 (if p \<in> set parsed_paths then parsed_paths else parsed_paths @ [p]) vs)))"

definition host_executable ::
  "policy_env \<Rightarrow> str \<Rightarrow> starlark_value list \<Rightarrow> 'm PolicyBuilder \<Rightarrow> 'e policy_error + 'm PolicyBuilder" where
  "host_executable env name paths b =
     bind_result (validate_host_executable_name name) (\<lambda>_.
     bind_result (parse_host_paths env name [] paths) (\<lambda>parsed_paths.
     Inr (builder_add_host_executable (executable_lookup_key name) parsed_paths b)))"

fun run_call ::
  "('m, PrefixRule) multimap_ops \<Rightarrow> policy_env \<Rightarrow> builtin_call \<Rightarrow> 'm PolicyBuilder
   \<Rightarrow> 'e policy_error + 'm PolicyBuilder" where
  "run_call mm env (PrefixRuleCall pattern d m nm j span) b = prefix_rule mm env pattern d m nm j span b"
| "run_call mm env (NetworkRuleCall host protocol d j) b = network_rule host protocol d j b"
| "run_call mm env (HostExecutableCall name paths) b = host_executable env name paths b"

section \<open>Parsing a policy file\<close>

text \<open>\<open>starlark\<close> is the interpreter, \<open>wrap\<close> how it reports an error of a builtin.\<close>

type_synonym 'e interpreter = "str \<Rightarrow> str \<Rightarrow> 'e + builtin_call list \<times> 'e option"

fun run_calls ::
  "('m, PrefixRule) multimap_ops \<Rightarrow> policy_env \<Rightarrow> builtin_call list \<Rightarrow> 'm PolicyBuilder
   \<Rightarrow> 'm PolicyBuilder \<times> ('e policy_error + unit)" where
  "run_calls mm env [] b = (b, Inr ())"
| "run_calls mm env (c # cs) b =
     (case run_call mm env c b of Inl e \<Rightarrow> (b, Inl e) | Inr b' \<Rightarrow> run_calls mm env cs b')"

definition policy_parse ::
  "('m, PrefixRule) multimap_ops \<Rightarrow> policy_env \<Rightarrow> 'e interpreter \<Rightarrow> ('e policy_error \<Rightarrow> 'e)
   \<Rightarrow> str \<Rightarrow> str \<Rightarrow> 'm PolicyBuilder \<Rightarrow> 'm PolicyBuilder \<times> ('e policy_error + unit)" where
  "policy_parse mm env starlark wrap policy_identifier policy_file_contents b =
     (let pending_validation_count = length (b_pending b)
      in case starlark policy_identifier policy_file_contents of
           Inl e \<Rightarrow> (b, Inl (Starlark e))
         | Inr (calls, final) \<Rightarrow>
             (case run_calls mm env calls b of
                (b', Inl e) \<Rightarrow> (b', Inl (Starlark (wrap e)))
              | (b', Inr _) \<Rightarrow>
                  (case final of
                     Some e \<Rightarrow> (b', Inl (Starlark e))
                   | None \<Rightarrow> (b', validate_pending_examples_from mm env b' pending_validation_count))))"

end
