(* ===== verification/Exec_Policy_Builder.thy ===== *)
theory Exec_Policy_Builder
  imports Exec_Policy_Parser
begin

text \<open>
  What every policy parser that was driven through its interface satisfies: the well-formedness of
  the rules it collected, as an invariant of the reachable builders, and what the example checks of
  a successful parse say about the policy that is built.
\<close>

section \<open>Well-formed entries\<close>

fun token_wf :: "PatternToken \<Rightarrow> bool" where
  "token_wf (Single _) \<longleftrightarrow> True"
| "token_wf (Alts alternatives) \<longleftrightarrow> 2 \<le> length alternatives"

definition rule_wf :: "PrefixRule \<Rightarrow> bool" where
  "rule_wf r \<longleftrightarrow> list_all token_wf (pattern_rest (rule_pattern r)) \<and> \<not> blank_justification (rule_justification r)"

definition host_wf :: "str \<Rightarrow> bool" where
  "host_wf h \<longleftrightarrow> h \<noteq> [] \<and> to_ascii_lowercase h = h \<and> star_sign \<notin> set h \<and> slash \<notin> set h
     \<and> (\<forall>c \<in> set h. \<not> is_whitespace c)"

definition network_rule_wf :: "NetworkRule \<Rightarrow> bool" where
  "network_rule_wf n \<longleftrightarrow> host_wf (net_host n) \<and> \<not> blank_justification (net_justification n)"

definition host_paths_wf :: "str \<Rightarrow> path_buf list \<Rightarrow> bool" where
  "host_paths_wf name paths \<longleftrightarrow> name \<noteq> [] \<and> distinct paths
     \<and> (\<forall>p \<in> set paths. absolute_normalized p \<and> path_file_name p = Some name)"

definition rules_ok :: "('m, PrefixRule) multimap_ops \<Rightarrow> 'm PolicyBuilder \<Rightarrow> bool" where
  "rules_ok mm b \<longleftrightarrow> (\<forall>k r. r \<in> set (mm_values mm (b_rules b) k) \<longrightarrow> rule_program r = k \<and> rule_wf r)"

definition pending_ok :: "('m, PrefixRule) multimap_ops \<Rightarrow> 'm PolicyBuilder \<Rightarrow> bool" where
  "pending_ok mm b \<longleftrightarrow> (\<forall>v r. v \<in> set (b_pending b) \<longrightarrow> r \<in> set (pv_rules v)
      \<longrightarrow> r \<in> set (mm_values mm (b_rules b) (rule_program r)))"

definition builder_ok :: "('m, PrefixRule) multimap_ops \<Rightarrow> 'm PolicyBuilder \<Rightarrow> bool" where
  "builder_ok mm b \<longleftrightarrow> rules_ok mm b \<and> pending_ok mm b
     \<and> (\<forall>n \<in> set (b_network_rules b). network_rule_wf n)
     \<and> (\<forall>name paths. b_host_executables b name = Some paths \<longrightarrow> host_paths_wf name paths)"

section \<open>The parts of a call\<close>

lemma parse_pattern_token_wf: "parse_pattern_token v = (Inr t :: 'e policy_error + _) \<Longrightarrow> token_wf t"
proof (cases v)
  case (ListValue vs)
  assume "parse_pattern_token v = (Inr t :: 'e policy_error + _)"
  then obtain tokens where "(case tokens of
       [] \<Rightarrow> Inl (InvalidPattern (lit ''pattern alternatives cannot be empty'') :: 'e policy_error)
     | [single] \<Rightarrow> Inr (Single single) | _ \<Rightarrow> Inr (Alts tokens)) = Inr t"
    unfolding ListValue parse_pattern_token.simps bind_result_Inr_iff by blast
  then show "token_wf t" by (cases tokens rule: remdups_adj.cases) auto
qed auto

lemma parse_pattern_wf: "parse_pattern vs = Inr ts \<Longrightarrow> list_all token_wf ts"
  by (auto simp: parse_pattern_def result_simps map_result_Inr_iff list_all_length list_all2_conv_all_nth
           intro: parse_pattern_token_wf split: if_splits)

lemma checked_justification_Inr: "checked_justification j = Inr j' \<longleftrightarrow> j' = j \<and> \<not> blank_justification j"
  by (auto simp: checked_justification_def)

lemma host_without_port_subset: "host_without_port raw host = Inr h \<Longrightarrow> set h \<subseteq> set host"
  by (auto simp: host_without_port_def Let_def strip_prefix_Some_iff
           split: option.splits prod.splits if_splits dest!: split_once_Some rsplit_once_Some)

lemma slash_ascii_lower [simp]: "ascii_lower c = slash \<longleftrightarrow> c = slash"
  by (auto simp: ascii_lower_def)

lemma normalize_network_rule_host_wf:
  assumes "normalize_network_rule_host raw = Inr h"
  shows "host_wf h"
proof -
  from assms obtain h0 where h0: "host_without_port raw (trim raw) = (Inr h0 :: 'a policy_error + str)"
    and slash: "slash \<notin> set (trim raw)"
    and h: "h = to_ascii_lowercase (trim (trim_end_matches dot h0))"
    and rest: "h \<noteq> []" "star_sign \<notin> set h" "\<forall>c \<in> set h. \<not> is_whitespace c"
    unfolding normalize_network_rule_host_def Let_def if_error_Inr_iff bind_result_Inr_iff by blast
  have "set (trim (trim_end_matches dot h0)) \<subseteq> set (trim raw)"
    by (intro order.trans [OF set_trim] order.trans [OF set_trim_end_matches]
              host_without_port_subset [OF h0])
  with slash have "slash \<notin> set h" by (auto simp: h to_ascii_lowercase_def)
  with rest show ?thesis by (simp add: host_wf_def h)
qed

lemma parse_literal_absolute_path_normalized:
  assumes "parse_literal_absolute_path env raw = Inr p"
  shows "absolute_normalized p"
proof -
  from assms have abs: "path_is_absolute (components raw)"
    and p: "from_absolute_path (home_dir env) (current_dir env) raw = Some p"
    by (auto simp: parse_literal_absolute_path_def split: if_splits option.splits)
  have "strip_prefix [tilde] raw = None"
  proof (cases raw)
    case (Cons c cs)
    with abs have "c = slash"
      by (auto simp: components_def path_is_absolute_def Let_def starts_with_def component_of_def
               split: list.splits component.splits if_splits)
    with Cons show ?thesis by simp
  qed simp
  then have "maybe_expand_home_directory (home_dir env) raw = components raw"
    by (simp add: maybe_expand_home_directory_def split: option.splits)
  with p abs show ?thesis
    by (auto simp: from_absolute_path_def absolutize_def intro: normalize_path_absolute)
qed

lemma parse_host_paths_wf:
  "parse_host_paths env name acc vs = (Inr paths :: 'e policy_error + _) \<Longrightarrow> host_paths_wf name acc
   \<Longrightarrow> host_paths_wf name paths"
proof (induction vs arbitrary: acc)
  case (Cons v vs)
  from Cons.prems(1) obtain raw p where
    p: "parse_literal_absolute_path env raw = (Inr p :: 'e policy_error + path_buf)"
    and name: "executable_path_lookup_key p = Some (executable_lookup_key name)"
    and step: "parse_host_paths env name (if p \<in> set acc then acc else acc @ [p]) vs
               = (Inr paths :: 'e policy_error + _)"
    by (auto simp: result_simps split: option.splits if_splits)
  have "host_paths_wf name (if p \<in> set acc then acc else acc @ [p])"
    using parse_literal_absolute_path_normalized [OF p] name Cons.prems(2)
    by (auto simp: host_paths_wf_def executable_path_lookup_key_def executable_lookup_key_def)
  from Cons.IH [OF step this] show ?case .
qed simp

section \<open>The invariant\<close>

lemma mm_values_fold_rules:
  assumes "multimap_laws mm"
  shows "mm_values mm (fold (\<lambda>r. mm_insert mm (rule_program r) r) rs m) k
         = mm_values mm m k @ filter (\<lambda>r. rule_program r = k) rs"
  by (induction rs arbitrary: m) (auto simp: mm_values_insert [OF assms])

lemma fold_builder_add_rule:
  "fold (builder_add_rule mm) rs b = b\<lparr>b_rules := fold (\<lambda>r. mm_insert mm (rule_program r) r) rs (b_rules b)\<rparr>"
  by (induction rs arbitrary: b) (simp_all add: builder_add_rule_def)

lemma builder_ok_new: "multimap_laws mm \<Longrightarrow> builder_ok mm (builder_new mm)"
  by (simp add: builder_ok_def rules_ok_def pending_ok_def builder_new_def mm_values_new)

lemma prefix_rule_Inr:
  assumes "prefix_rule mm env pattern d m nm j span b = (Inr b' :: 'e policy_error + _)"
  shows "\<exists>rules v. b' = fold (builder_add_rule mm) rules (builder_add_pending v b)
     \<and> pv_rules v = rules \<and> (\<forall>r \<in> set rules. rule_wf r)"
proof -
  from assms obtain tokens where tokens: "parse_pattern pattern = (Inr tokens :: 'e policy_error + _)"
    by (auto simp: prefix_rule_def result_simps)
  from parse_pattern_wf [OF tokens] have wf: "list_all token_wf tokens" .
  show ?thesis
  proof (cases tokens)
    case Nil
    with assms tokens show ?thesis by (auto simp: prefix_rule_def result_simps)
  next
    case (Cons t ts)
    with assms tokens obtain d' ms ns where j: "\<not> blank_justification j"
      and b': "Inr b' = (let rules = map (\<lambda>head. \<lparr>rule_pattern = \<lparr>pattern_first = head, pattern_rest = ts\<rparr>,
                      rule_decision = d', rule_justification = j\<rparr>) (token_alternatives t)
             in (Inr (fold (builder_add_rule mm) rules (builder_add_pending
                  \<lparr>pv_rules = rules, pv_matches = ms, pv_not_matches = ns,
                   pv_location = map_option error_location_from_file_span span\<rparr> b)) :: 'e policy_error + _))"
      unfolding prefix_rule_def bind_result_Inr_iff checked_justification_Inr by (auto simp: eq_commute)
    show ?thesis
      using b' unfolding Let_def sum.inject
      by (intro exI conjI, assumption) (use wf j Cons in \<open>auto simp: rule_wf_def\<close>)
  qed
qed

lemma prefix_rule_ok:
  assumes "multimap_laws mm" and "builder_ok mm b"
    and "prefix_rule mm env pattern d m nm j span b = (Inr b' :: 'e policy_error + _)"
  shows "builder_ok mm b'"
proof -
  from prefix_rule_Inr [OF assms(3)] obtain rules v where
    b': "b' = fold (builder_add_rule mm) rules (builder_add_pending v b)"
    and v: "pv_rules v = rules" and wf: "\<forall>r \<in> set rules. rule_wf r" by blast
  show ?thesis
    using assms(2) wf
    by (auto simp: builder_ok_def rules_ok_def pending_ok_def b' v builder_add_pending_def
                   fold_builder_add_rule mm_values_fold_rules [OF assms(1)])
qed

lemma network_rule_ok:
  assumes "builder_ok mm b" and "network_rule host protocol d j b = (Inr b' :: 'e policy_error + _)"
  shows "builder_ok mm b'"
proof -
  from assms(2) obtain h p d' where h: "normalize_network_rule_host host = (Inr h :: 'e policy_error + str)"
    and j: "\<not> blank_justification j"
    and b': "b' = builder_add_network_rule
          \<lparr>net_host = h, net_protocol = p, net_decision = d', net_justification = j\<rparr> b"
    by (auto simp: network_rule_def result_simps checked_justification_Inr)
  from normalize_network_rule_host_wf [OF h] j assms(1) show ?thesis
    by (auto simp: b' builder_ok_def rules_ok_def pending_ok_def builder_add_network_rule_def
                   network_rule_wf_def)
qed

lemma host_executable_ok:
  assumes "builder_ok mm b" and "host_executable env name paths b = (Inr b' :: 'e policy_error + _)"
  shows "builder_ok mm b'"
proof -
  from assms(2) obtain parsed where n: "name \<noteq> []"
    and parsed: "parse_host_paths env name [] paths = (Inr parsed :: 'e policy_error + _)"
    and b': "b' = builder_add_host_executable name parsed b"
    by (auto simp: host_executable_def result_simps validate_host_executable_name_def
                   executable_lookup_key_def split: if_splits)
  from n have "host_paths_wf name parsed"
    by (intro parse_host_paths_wf [OF parsed]) (simp add: host_paths_wf_def)
  with assms(1) show ?thesis
    by (auto simp: b' builder_ok_def rules_ok_def pending_ok_def builder_add_host_executable_def)
qed

lemma run_call_ok:
  "multimap_laws mm \<Longrightarrow> builder_ok mm b \<Longrightarrow> run_call mm env c b = (Inr b' :: 'e policy_error + _)
   \<Longrightarrow> builder_ok mm b'"
  by (cases c) (auto intro: prefix_rule_ok network_rule_ok host_executable_ok)

lemma run_calls_ok:
  "multimap_laws mm \<Longrightarrow> builder_ok mm b \<Longrightarrow> run_calls mm env cs b = (b', r :: 'e policy_error + unit)
   \<Longrightarrow> builder_ok mm b'"
  by (induction cs arbitrary: b) (auto split: sum.splits dest: run_call_ok)

lemma policy_parse_ok:
  assumes "multimap_laws mm" and "builder_ok mm b"
    and "policy_parse mm env starlark wrap ident contents b = (b', r)"
  shows "builder_ok mm b'"
  using assms(2,3)
  by (auto simp: policy_parse_def Let_def split: sum.splits prod.splits option.splits
           dest: run_calls_ok [OF assms(1)])

text \<open>The parsers a client can drive: a new one, and any that parsed a file, successfully or not.\<close>

inductive parser_reachable ::
  "('m, PrefixRule) multimap_ops \<Rightarrow> policy_env \<Rightarrow> 'e interpreter \<Rightarrow> ('e policy_error \<Rightarrow> 'e)
   \<Rightarrow> 'm PolicyBuilder \<Rightarrow> bool"
  for mm env starlark wrap where
  new_parser: "parser_reachable mm env starlark wrap (builder_new mm)"
| parsed_file: "parser_reachable mm env starlark wrap b \<Longrightarrow>
    policy_parse mm env starlark wrap ident contents b = (b', r) \<Longrightarrow>
    parser_reachable mm env starlark wrap b'"

lemma parser_reachable_ok:
  assumes "multimap_laws mm"
  shows "parser_reachable mm env starlark wrap b \<Longrightarrow> builder_ok mm b"
  by (induction rule: parser_reachable.induct)
     (auto intro: builder_ok_new [OF assms] policy_parse_ok [OF assms])

section \<open>The example checks\<close>

lemma validate_not_match_examples_Inr:
  "validate_not_match_examples mm env pol rules es = (Inr () :: 'e policy_error + unit)
   \<longleftrightarrow> (\<forall>ex \<in> set es. example_matches mm env pol ex = [])"
  by (induction es) (auto split: list.splits)

lemma validate_match_examples_Inr:
  "validate_match_examples mm env pol rules es = (Inr () :: 'e policy_error + unit)
   \<longleftrightarrow> (\<forall>ex \<in> set es. example_matches mm env pol ex \<noteq> [])"
  by (auto simp: validate_match_examples_def Let_def filter_empty_conv)

lemma validate_pending_Inr:
  "validate_pending mm env b vs = (Inr () :: 'e policy_error + unit) \<longleftrightarrow>
     (\<forall>v \<in> set vs. (\<forall>ex \<in> set (pv_not_matches v). example_matches mm env (validation_policy mm b v) ex = [])
        \<and> (\<forall>ex \<in> set (pv_matches v). example_matches mm env (validation_policy mm b v) ex \<noteq> []))"
  by (induction vs)
     (auto simp: Let_def result_simps validate_not_match_examples_Inr validate_match_examples_Inr)

lemma run_calls_pending:
  "run_calls mm env cs b = (b', r :: 'e policy_error + unit) \<Longrightarrow> prefix (b_pending b) (b_pending b')"
proof (induction cs arbitrary: b)
  case (Cons c cs)
  have step: "prefix (b_pending b) (b_pending b1)" if "run_call mm env c b = (Inr b1 :: 'e policy_error + _)" for b1
    using that
    by (cases c)
       (auto simp: network_rule_def host_executable_def result_simps
                   fold_builder_add_rule builder_add_pending_def builder_add_network_rule_def
                   builder_add_host_executable_def dest!: prefix_rule_Inr)
  from Cons show ?case
    by (auto split: sum.splits dest!: step intro: prefix_order.trans)
qed simp

section \<open>More rules match more\<close>

definition host_matches_by ::
  "(str \<Rightarrow> PrefixRule list) \<Rightarrow> (str \<rightharpoonup> path_buf list) \<Rightarrow> path_buf option \<Rightarrow> path_buf option \<Rightarrow> str list
   \<Rightarrow> RuleMatch list" where
  "host_matches_by rules_of hosts home cwd cmd =
     (case cmd of
        [] \<Rightarrow> []
      | first # args \<Rightarrow>
          (case from_absolute_path home cwd first of
             None \<Rightarrow> []
           | Some program \<Rightarrow>
               (case executable_path_lookup_key program of
                  None \<Rightarrow> []
                | Some basename \<Rightarrow>
                    if (case hosts basename of Some paths \<Rightarrow> program \<notin> set paths | None \<Rightarrow> False) then []
                    else map (\<lambda>m. with_resolved_program m program)
                           (List.map_filter (\<lambda>r. rule_matches r (basename # args)) (rules_of basename)))))"

lemma match_host_executable_rules_by:
  "match_host_executable_rules mm home cwd pol cmd
   = host_matches_by (mm_values mm (rules_by_program pol)) (host_executables_by_name pol) home cwd cmd"
  by (simp add: match_host_executable_rules_def host_matches_by_def mm_values_def
           split: list.splits option.splits)

lemma host_matches_by_mono:
  assumes "\<And>k r. r \<in> set (rules_of k) \<Longrightarrow> r \<in> set (rules_of' k)"
  shows "set (host_matches_by rules_of hosts home cwd cmd) \<subseteq> set (host_matches_by rules_of' hosts home cwd cmd)"
proof (cases cmd)
  case (Cons first args)
  show ?thesis
  proof (cases "Option.bind (from_absolute_path home cwd first)
                  (\<lambda>program. map_option (Pair program) (executable_path_lookup_key program))")
    case None
    then show ?thesis by (auto simp: Cons host_matches_by_def split: option.splits bind_splits)
  next
    case (Some pn)
    with assms show ?thesis
      by (cases pn) (force simp: Cons host_matches_by_def bind_eq_Some_conv)
  qed
qed (simp add: host_matches_by_def)

lemma example_matches_cases:
  "example_matches mm env pol ex =
     (if exact_matches mm pol ex \<noteq> [] then exact_matches mm pol ex
      else host_matches_by (mm_values mm (rules_by_program pol)) (host_executables_by_name pol)
             (home_dir env) (current_dir env) ex)"
  by (simp add: example_matches_def matches_for_command_with_options_def match_exact_rules_exact
                match_host_executable_rules_by resolving_def)

lemma example_matches_mono:
  assumes "\<And>k r. r \<in> set (mm_values mm (rules_by_program pol) k)
                \<Longrightarrow> r \<in> set (mm_values mm (rules_by_program pol') k)"
    and "host_executables_by_name pol = host_executables_by_name pol'"
    and "example_matches mm env pol ex \<noteq> []"
  shows "example_matches mm env pol' ex \<noteq> []"
proof -
  have exact: "set (exact_matches mm pol ex) \<subseteq> set (exact_matches mm pol' ex)"
    using assms(1) by (fastforce simp: exact_matches_def split: list.splits)
  show ?thesis
  proof (cases "exact_matches mm pol' ex = []")
    case True
    with exact have "exact_matches mm pol ex = []" by simp
    with True assms(2,3)
      host_matches_by_mono [of "mm_values mm (rules_by_program pol)" "mm_values mm (rules_by_program pol')",
        OF assms(1), where hosts = "host_executables_by_name pol'" and home = "home_dir env"
        and cwd = "current_dir env" and cmd = ex]
    show ?thesis by (auto simp: example_matches_cases)
  qed (simp add: example_matches_cases)
qed

end
