(* ===== verification/Exec_Policy_Properties.thy ===== *)
theory Exec_Policy_Properties
  imports Exec_Policy_Builder Exec_Policy_Amend "HOL-Library.DAList"
begin

text \<open>
  The properties of the execution policy, with a concrete multimap that satisfies the laws for the
  witnesses.
\<close>

lemma Max_UN:
  fixes f :: "'a \<Rightarrow> 'b :: linorder set"
  assumes "finite A" "A \<noteq> {}" "\<And>a. a \<in> A \<Longrightarrow> finite (f a)" "\<And>a. a \<in> A \<Longrightarrow> f a \<noteq> {}"
  shows "Max (\<Union>a \<in> A. f a) = Max ((\<lambda>a. Max (f a)) ` A)"
proof (rule Max_eqI)
  show "finite (\<Union>a \<in> A. f a)" using assms by simp
  show "y \<le> Max ((\<lambda>a. Max (f a)) ` A)" if "y \<in> (\<Union>a \<in> A. f a)" for y
  proof -
    from that obtain a where a: "a \<in> A" "y \<in> f a" by blast
    then have "y \<le> Max (f a)" using assms by simp
    also have "\<dots> \<le> Max ((\<lambda>a. Max (f a)) ` A)" using a assms by simp
    finally show ?thesis .
  qed
  have "Max ((\<lambda>a. Max (f a)) ` A) \<in> (\<lambda>a. Max (f a)) ` A" using assms by simp
  then obtain a where "a \<in> A" "Max ((\<lambda>a. Max (f a)) ` A) = Max (f a)" by blast
  then show "Max ((\<lambda>a. Max (f a)) ` A) \<in> (\<Union>a \<in> A. f a)" using assms Max_in by fastforce
qed

section \<open>A multimap that satisfies the laws\<close>

definition alist_multimap :: "((str, 'v list) alist, 'v) multimap_ops" where
  "alist_multimap =
     \<lparr>mm_new = DAList.empty,
      mm_insert = (\<lambda>k v m. DAList.update k
        ((case DAList.lookup m k of Some vs \<Rightarrow> vs | None \<Rightarrow> []) @ [v]) m),
      mm_get_vec = DAList.lookup,
      mm_iter_all = DAList.impl_of\<rparr>"

lemma alist_multimap_laws: "multimap_laws (alist_multimap :: (_, 'v) multimap_ops)"
proof -
  have "(k, vs) \<in> set (DAList.impl_of m) \<longleftrightarrow> DAList.lookup m k = Some vs" for m :: "(str, 'v list) alist" and k vs
    by (simp add: lookup.rep_eq map_of_eq_Some_iff)
  moreover have "DAList.lookup (DAList.update k v m) j = (if j = k then Some v else DAList.lookup m j)"
    for m :: "(str, 'v list) alist" and k j v
    by (simp add: lookup.rep_eq update.rep_eq update_conv')
  ultimately show ?thesis
    by (simp add: multimap_laws_def alist_multimap_def)
qed

lemma alist_multimap_simps [simp]:
  "mm_new alist_multimap = DAList.empty"
  "mm_insert alist_multimap k v m =
     DAList.update k ((case DAList.lookup m k of Some vs \<Rightarrow> vs | None \<Rightarrow> []) @ [v]) m"
  "mm_get_vec alist_multimap = DAList.lookup"
  "mm_iter_all alist_multimap = DAList.impl_of"
  by (simp_all add: alist_multimap_def)

definition sample_policy :: "(str, PrefixRule list) alist Policy" where
  "sample_policy =
     (let add = (\<lambda>pol pre d. case add_prefix_rule alist_multimap pol pre d of
                   Inr pol' \<Rightarrow> pol' | Inl (e :: unit policy_error) \<Rightarrow> pol)
      in set_host_executable_paths
           (add (add (policy_empty alist_multimap) [lit ''git''] Prompt)
                [lit ''git'', lit ''status''] Allow)
           (lit ''git'') [components (lit ''/usr/bin/git'')])"

section \<open>Decisions\<close>

text \<open>C7: checking any command never panics, and its decision is the strictest decision of the rules
  it matched: no matched rule asks for more, and one of them asks for exactly that.\<close>

theorem check_decides_by_strictest_match:
  "\<exists>e. check_with_options mm home cwd pol cmd h options = Some e
     \<and> eval_matched_rules e = matches_for_command_with_options mm home cwd pol cmd (Some h) options
     \<and> (\<forall>m. m \<in> set (eval_matched_rules e) \<longrightarrow> match_decision m \<le> eval_decision e)
     \<and> (\<exists>m. m \<in> set (eval_matched_rules e) \<and> match_decision m = eval_decision e)"
proof -
  let ?ms = "matches_for_command_with_options mm home cwd pol cmd (Some h) options"
  have "Max (match_decision ` set ?ms) \<in> match_decision ` set ?ms"
    by (rule Max_in) (simp_all add: matches_nonempty)
  then show ?thesis
    by (auto simp: check_with_options_def from_matches_Max [OF matches_nonempty])
qed

theorem check_decides_by_strictest_match_witness:
  "\<exists>e. check_with_options alist_multimap None None sample_policy [lit ''git'', lit ''status''] (\<lambda>_. Allow)
          default_match_options = Some e
     \<and> eval_matched_rules e = [PrefixRuleMatch [lit ''git''] Prompt None None,
          PrefixRuleMatch [lit ''git'', lit ''status''] Allow None None]
     \<and> eval_decision e \<noteq> Allow"
proof -
  let ?cmd = "[lit ''git'', lit ''status'']"
  have ms: "matches_for_command_with_options alist_multimap None None sample_policy ?cmd
      (Some (\<lambda>_. Allow)) default_match_options =
      [PrefixRuleMatch [lit ''git''] Prompt None None,
       PrefixRuleMatch [lit ''git'', lit ''status''] Allow None None]"
    by code_simp
  from check_decides_by_strictest_match [of alist_multimap None None sample_policy ?cmd "\<lambda>_. Allow"
      default_match_options]
  obtain e where "check_with_options alist_multimap None None sample_policy ?cmd (\<lambda>_. Allow)
      default_match_options = Some e"
    and rules: "eval_matched_rules e = [PrefixRuleMatch [lit ''git''] Prompt None None,
       PrefixRuleMatch [lit ''git'', lit ''status''] Allow None None]"
    and "\<forall>m. m \<in> set (eval_matched_rules e) \<longrightarrow> match_decision m \<le> eval_decision e"
    unfolding ms by blast
  then show ?thesis by (auto simp: rules)
qed

text \<open>Checking several commands gives the strictest of the decisions of the single commands.\<close>

theorem check_multiple_is_strictest_command:
  assumes "commands \<noteq> []"
  shows "\<exists>e. check_multiple_with_options mm home cwd pol commands h options = Some e
     \<and> eval_decision e =
         Max {eval_decision e' | cmd e'. cmd \<in> set commands
                \<and> check_with_options mm home cwd pol cmd h options = Some e'}"
proof -
  let ?m = "\<lambda>cmd. matches_for_command_with_options mm home cwd pol cmd (Some h) options"
  let ?all = "concat (map ?m commands)"
  have ne: "?all \<noteq> []" using assms by (cases commands) (simp_all add: matches_nonempty)
  have "{eval_decision e' | cmd e'. cmd \<in> set commands
           \<and> check_with_options mm home cwd pol cmd h options = Some e'}
        = (\<lambda>cmd. Max (match_decision ` set (?m cmd))) ` set commands"
    by (auto simp: check_with_options_def from_matches_Max [OF matches_nonempty])
  moreover have "match_decision ` set ?all = (\<Union>cmd \<in> set commands. match_decision ` set (?m cmd))"
    by auto
  moreover have "Max (\<Union>cmd \<in> set commands. match_decision ` set (?m cmd))
                 = Max ((\<lambda>cmd. Max (match_decision ` set (?m cmd))) ` set commands)"
    using assms by (intro Max_UN) (simp_all add: matches_nonempty)
  ultimately show ?thesis
    using ne by (simp add: check_multiple_with_options_def from_matches_Max)
qed


theorem check_multiple_is_strictest_command_witness:
  "\<exists>e. check_multiple_with_options alist_multimap None None sample_policy
          [[lit ''git'', lit ''status''], [lit ''git'', lit ''push'']] (\<lambda>_. Allow) default_match_options = Some e
     \<and> eval_decision e =
         Max {eval_decision e' | cmd e'. cmd \<in> set [[lit ''git'', lit ''status''], [lit ''git'', lit ''push'']]
                \<and> check_with_options alist_multimap None None sample_policy cmd (\<lambda>_. Allow)
                    default_match_options = Some e'}"
  by (rule check_multiple_is_strictest_command) simp

lemma exact_matches_add_prefix_rule:
  assumes "multimap_laws mm" and "add_prefix_rule mm pol pre d = (Inr pol' :: 'e policy_error + 'm Policy)"
  shows "exact_matches mm pol' cmd =
     exact_matches mm pol cmd @ (if prefix pre cmd then [PrefixRuleMatch pre d None None] else [])"
proof (cases pre)
  case Nil
  with assms(2) show ?thesis by (simp add: add_prefix_rule_def)
next
  case (Cons f args)
  define r where "r = \<lparr>rule_pattern = \<lparr>pattern_first = f, pattern_rest = map Single args\<rparr>,
    rule_decision = d, rule_justification = None\<rparr>"
  have pol': "pol' = pol\<lparr>rules_by_program := mm_insert mm f r (rules_by_program pol)\<rparr>"
    using assms(2) by (simp add: add_prefix_rule_def Cons r_def)
  have single: "list_all2 token_matches (map Single xs) ys \<longleftrightarrow> xs = ys" for xs ys
    by (induction xs arbitrary: ys) (auto simp: list_all2_Cons1)
  have "rule_matches r cmd = Some m \<longleftrightarrow> prefix pre cmd \<and> m = PrefixRuleMatch pre d None None" for m
    by (auto simp: rule_matches_Some_iff matches_prefix_Some_iff r_def single Cons prefix_def)
  then have "rule_matches r cmd = (if prefix pre cmd then Some (PrefixRuleMatch pre d None None) else None)"
    by (metis not_None_eq)
  moreover have "\<not> prefix pre cmd" if "cmd = [] \<or> hd cmd \<noteq> f"
    using that by (auto simp: Cons prefix_def)
  ultimately show ?thesis
    by (auto simp: exact_matches_def pol' mm_values_insert [OF assms(1)] split: list.splits)
qed

text \<open>A prefix rule takes effect on exactly the commands that extend its prefix: those are
  matched, with a decision at least as strict as the rule's, and every other command is decided as
  before.\<close>

theorem add_prefix_rule_decides_its_commands:
  assumes "multimap_laws mm" and "add_prefix_rule mm pol pre d = (Inr pol' :: 'e policy_error + 'm Policy)"
  shows "if prefix pre cmd
         then \<exists>e. check mm home cwd pol' cmd h = Some e \<and> is_match e \<and> d \<le> eval_decision e
         else check mm home cwd pol' cmd h = check mm home cwd pol cmd h"
proof (cases "prefix pre cmd")
  case True
  with exact_matches_add_prefix_rule [OF assms, of cmd] show ?thesis
    by (auto simp: check_def matches_default from_matches_Max is_match_def intro!: bexI)
next
  case False
  with exact_matches_add_prefix_rule [OF assms, of cmd] show ?thesis
    by (simp add: check_def matches_default)
qed


theorem add_prefix_rule_decides_its_commands_witness:
  "\<exists>pol'. add_prefix_rule alist_multimap sample_policy [lit ''git'', lit ''push''] Forbidden
            = (Inr pol' :: unit policy_error + _)
     \<and> (\<exists>e. check alist_multimap None None pol' [lit ''git'', lit ''push'', lit ''-f''] (\<lambda>_. Allow) = Some e
            \<and> is_match e \<and> Forbidden \<le> eval_decision e)"
proof -
  obtain pol' where pol': "add_prefix_rule alist_multimap sample_policy [lit ''git'', lit ''push''] Forbidden
            = (Inr pol' :: unit policy_error + _)"
    by (simp add: add_prefix_rule_def)
  from add_prefix_rule_decides_its_commands [OF alist_multimap_laws pol',
      of "[lit ''git'', lit ''push'', lit ''-f'']" None None "\<lambda>_. Allow"] pol'
  show ?thesis by simp
qed




text \<open>Arguments added at the end of a command never relax the decision its exact rules gave.\<close>

theorem more_arguments_never_relax:
  assumes "check mm home cwd pol cmd h = Some e" and "is_match e"
    and "check mm home cwd pol (cmd @ args) h = Some e'"
  shows "is_match e' \<and> eval_decision e \<le> eval_decision e'"
proof -
  have ne: "exact_matches mm pol cmd \<noteq> []"
    using assms(1,2)
    by (auto simp: check_def matches_default from_matches_def is_match_def split: if_splits)
  have sub: "set (exact_matches mm pol cmd) \<subseteq> set (exact_matches mm pol (cmd @ args))"
    using prefix_rule.matched_with_args [of cmd _ args]
    by (cases cmd) (simp_all add: exact_matches_def)
  with ne have ne': "exact_matches mm pol (cmd @ args) \<noteq> []" by auto
  from assms(1,3) ne ne' have "from_matches (exact_matches mm pol cmd) = Some e"
    "from_matches (exact_matches mm pol (cmd @ args)) = Some e'"
    by (simp_all add: check_def matches_default)
  moreover from ne' have "\<exists>m \<in> set (exact_matches mm pol (cmd @ args)). \<not> is_heuristics m"
    using exact_matches_not_heuristics by (meson hd_in_set)
  ultimately show ?thesis
    using from_matches_mono [OF sub] ne' by (auto simp: is_match_def from_matches_Max)
qed

theorem more_arguments_never_relax_witness:
  "\<exists>e e'. check alist_multimap None None sample_policy [lit ''git''] (\<lambda>_. Allow) = Some e
     \<and> check alist_multimap None None sample_policy ([lit ''git''] @ [lit ''status'']) (\<lambda>_. Allow) = Some e'
     \<and> is_match e' \<and> eval_decision e \<le> eval_decision e'"
proof -
  have "map_option is_match (check alist_multimap None None sample_policy [lit ''git''] (\<lambda>_. Allow)) = Some True"
    by code_simp
  then obtain e where e: "check alist_multimap None None sample_policy [lit ''git''] (\<lambda>_. Allow) = Some e"
    and m: "is_match e" by auto
  obtain e' where e': "check alist_multimap None None sample_policy ([lit ''git''] @ [lit ''status''])
      (\<lambda>_. Allow) = Some e'"
    by (simp only: check_def from_matches_Max [OF matches_nonempty])
  from more_arguments_never_relax [OF e m e'] e e' show ?thesis by blast
qed


section \<open>Host executables\<close>

lemma executable_path_lookup_key_file_name [simp]: "executable_path_lookup_key p = path_file_name p"
  by (cases "path_file_name p") (simp_all add: executable_path_lookup_key_def executable_lookup_key_def)

text \<open>A rule matched through the base name of a program path names that path as the program it
  resolved to; the rules are those of its base name, and when the policy lists the host executables
  of that name the path is one of them.\<close>

theorem host_executable_match_is_listed:
  assumes "m \<in> set (match_host_executable_rules mm home cwd pol (first # args))"
  shows "\<exists>program name pre d j. from_absolute_path home cwd first = Some program
     \<and> path_file_name program = Some name \<and> m = PrefixRuleMatch pre d (Some program) j
     \<and> prefix pre (name # args)
     \<and> (\<forall>paths. host_executables_by_name pol name = Some paths \<longrightarrow> program \<in> set paths)"
proof -
  from assms obtain program where p: "from_absolute_path home cwd first = Some program"
    by (cases "from_absolute_path home cwd first") (simp_all add: match_host_executable_rules_def)
  with assms obtain name where n: "path_file_name program = Some name"
    by (cases "path_file_name program") (simp_all add: match_host_executable_rules_def)
  with p assms obtain rules where vec: "mm_get_vec mm (rules_by_program pol) name = Some rules"
    by (cases "mm_get_vec mm (rules_by_program pol) name") (simp_all add: match_host_executable_rules_def)
  have listed: "\<forall>paths. host_executables_by_name pol name = Some paths \<longrightarrow> program \<in> set paths"
    using assms p n vec by (auto simp: match_host_executable_rules_def split: if_splits)
  then have m: "m \<in> (\<lambda>m. with_resolved_program m program)
                 ` set (List.map_filter (\<lambda>r. rule_matches r (name # args)) rules)"
    using assms p n vec
    by (cases "host_executables_by_name pol name")
       (auto simp: match_host_executable_rules_def split: if_splits)
  from m obtain r x where "rule_matches r (name # args) = Some x"
    and "m = with_resolved_program x program" by auto
  then obtain pre where "m = PrefixRuleMatch pre (rule_decision r) (Some program) (rule_justification r)"
    and "matches_prefix (rule_pattern r) (name # args) = Some pre"
    by (auto simp: rule_matches_Some_iff)
  moreover from this(2) have "prefix pre (name # args)"
    by (auto simp: matches_prefix_Some_iff)
  ultimately show ?thesis using p n listed by blast
qed

theorem host_executable_match_is_listed_witness:
  "\<exists>program name pre d j. from_absolute_path None None (lit ''/usr/bin/git'') = Some program
     \<and> path_file_name program = Some name
     \<and> PrefixRuleMatch [lit ''git''] Prompt (Some (components (lit ''/usr/bin/git''))) None
       = PrefixRuleMatch pre d (Some program) j
     \<and> prefix pre (name # [lit ''push''])
     \<and> (\<forall>paths. host_executables_by_name sample_policy name = Some paths \<longrightarrow> program \<in> set paths)"
proof (rule host_executable_match_is_listed)
  have "match_host_executable_rules alist_multimap None None sample_policy [lit ''/usr/bin/git'', lit ''push'']
        = [PrefixRuleMatch [lit ''git''] Prompt (Some (components (lit ''/usr/bin/git''))) None]"
    by code_simp
  then show "PrefixRuleMatch [lit ''git''] Prompt (Some (components (lit ''/usr/bin/git''))) None
     \<in> set (match_host_executable_rules alist_multimap None None sample_policy
              (lit ''/usr/bin/git'' # [lit ''push'']))"
    by simp
qed

section \<open>Network domains\<close>

text \<open>The last rule for a host that allows or forbids it.\<close>

definition last_verdict :: "NetworkRule list \<Rightarrow> str \<Rightarrow> Decision option" where
  "last_verdict rules host =
     (case filter (\<lambda>r. net_host r = host \<and> net_decision r \<noteq> Prompt) (rev rules) of
        [] \<Rightarrow> None | r # _ \<Rightarrow> Some (net_decision r))"

lemma compile_domain_step:
  assumes "distinct a" "distinct d" "set a \<inter> set d = {}"
    and "compile_domain r (a, d) = (a', d')"
  shows "distinct a' \<and> distinct d' \<and> set a' \<inter> set d' = {}
    \<and> (h \<in> set a' \<longleftrightarrow> (if net_host r = h \<and> net_decision r \<noteq> Prompt then net_decision r = Allow else h \<in> set a))
    \<and> (h \<in> set d' \<longleftrightarrow> (if net_host r = h \<and> net_decision r \<noteq> Prompt then net_decision r = Forbidden else h \<in> set d))"
  using assms by (cases "net_decision r") (auto simp: upsert_domain_def)

lemma last_verdict_snoc:
  "last_verdict (rs @ [r]) h =
     (if net_host r = h \<and> net_decision r \<noteq> Prompt then Some (net_decision r) else last_verdict rs h)"
  by (simp add: last_verdict_def)

text \<open>The compiled domain lists hold each host at most once, no host is in both, and a host is
  allowed (denied) exactly when the last rule about it that is not a prompt allows (forbids) it.\<close>

theorem compiled_network_domains_last_rule_wins:
  "case compiled_network_domains pol of (allowed, denied) \<Rightarrow>
     distinct allowed \<and> distinct denied \<and> set allowed \<inter> set denied = {}
     \<and> (\<forall>host. host \<in> set allowed \<longleftrightarrow> last_verdict (network_rules pol) host = Some Allow)
     \<and> (\<forall>host. host \<in> set denied \<longleftrightarrow> last_verdict (network_rules pol) host = Some Forbidden)"
proof -
  define rs where "rs = network_rules pol"
  have "case fold compile_domain rs ([], []) of (allowed, denied) \<Rightarrow>
     distinct allowed \<and> distinct denied \<and> set allowed \<inter> set denied = {}
     \<and> (\<forall>host. host \<in> set allowed \<longleftrightarrow> last_verdict rs host = Some Allow)
     \<and> (\<forall>host. host \<in> set denied \<longleftrightarrow> last_verdict rs host = Some Forbidden)"
  proof (induction rs rule: rev_induct)
    case Nil
    then show ?case by (simp add: last_verdict_def)
  next
    case (snoc r rs)
    obtain a d where ad: "fold compile_domain rs ([], []) = (a, d)" by fastforce
    obtain a' d' where step: "compile_domain r (a, d) = (a', d')" by fastforce
    from snoc ad have inv: "distinct a" "distinct d" "set a \<inter> set d = {}" by auto
    from snoc show ?case
      using compile_domain_step [OF inv step] by (auto simp: ad step last_verdict_snoc simp del: compile_domain.simps)
  qed
  then show ?thesis by (simp add: compiled_network_domains_def rs_def)
qed

section \<open>Allowed prefixes\<close>

lemma strict_sorted_remdups_adj: "sorted xs \<Longrightarrow> sorted_wrt (<) (remdups_adj xs)"
  by (induction xs rule: remdups_adj.induct) (auto simp: order.strict_iff_order intro: order.trans)

text \<open>The allowed prefixes are sorted without duplicates, whatever order the multimap is iterated
  in, and are exactly the rendered patterns of the stored rules that allow.\<close>

theorem get_allowed_prefixes_sorted_exact:
  assumes "multimap_laws mm"
  shows "sorted_wrt (<) (get_allowed_prefixes mm pol)
     \<and> set (get_allowed_prefixes mm pol) =
         {pre. \<exists>k r. r \<in> set (mm_values mm (rules_by_program pol) k) \<and> allowed_prefix r = Some pre}"
proof
  let ?all = "concat (map (\<lambda>(_, rules). List.map_filter allowed_prefix rules)
                  (mm_iter_all mm (rules_by_program pol)))"
  show "sorted_wrt (<) (get_allowed_prefixes mm pol)"
    unfolding get_allowed_prefixes_def by (rule strict_sorted_remdups_adj) simp
  show "set (get_allowed_prefixes mm pol) =
         {pre. \<exists>k r. r \<in> set (mm_values mm (rules_by_program pol) k) \<and> allowed_prefix r = Some pre}"
    by (auto simp: get_allowed_prefixes_def mm_values_def multimap_lawsD(4) [OF assms]
             split: option.splits) (metis multimap_lawsD(4) [OF assms])+
qed

theorem get_allowed_prefixes_sorted_exact_witness:
  "sorted_wrt (<) (get_allowed_prefixes alist_multimap sample_policy)
   \<and> set (get_allowed_prefixes alist_multimap sample_policy) =
       {pre. \<exists>k r. r \<in> set (mm_values alist_multimap (rules_by_program sample_policy) k)
               \<and> allowed_prefix r = Some pre}"
  by (rule get_allowed_prefixes_sorted_exact [OF alist_multimap_laws])


section \<open>Policy files\<close>


definition sample_env :: policy_env where
  "sample_env = \<lparr>home_dir = None, current_dir = None, current_dir_error = [],
     shlex_split = (\<lambda>s. Some [s]), shlex_try_join = (\<lambda>ws. Some (join_with [sp] ws)),
     debug_rule = rule_program, debug_match = (\<lambda>_. [])\<rparr>"

definition sample_interpreter :: "unit interpreter" where
  "sample_interpreter ident contents =
     Inr ([PrefixRuleCall [StrValue (lit ''git''), ListValue [StrValue (lit ''log''), StrValue (lit ''diff'')]]
             (Some (lit ''allow'')) (Some [ListValue [StrValue (lit ''/usr/bin/git''), StrValue (lit ''log'')]])
             (Some [ListValue [StrValue (lit ''git''), StrValue (lit ''push'')]]) None None,
           HostExecutableCall (lit ''git'') [StrValue (lit ''/usr/bin/git'')],
           NetworkRuleCall (lit ''Example.com:443'') (lit ''https'') (lit ''deny'') None], None)"

definition sample_builder :: "(str, PrefixRule list) alist PolicyBuilder" where
  "sample_builder = fst (policy_parse alist_multimap sample_env sample_interpreter (\<lambda>_. ()) [] []
                           (builder_new alist_multimap))"

lemma sample_parse:
  "policy_parse alist_multimap sample_env sample_interpreter (\<lambda>_. ()) [] [] (builder_new alist_multimap)
   = (sample_builder, Inr ())"
proof -
  have "snd (policy_parse alist_multimap sample_env sample_interpreter (\<lambda>_. ()) [] []
               (builder_new alist_multimap)) = Inr ()"
    by code_simp
  then show ?thesis by (simp add: sample_builder_def prod_eq_iff)
qed



text \<open>When a file parses, every \<^verbatim>\<open>match\<close> example of its prefix rules is matched by the policy built
  so far, and no \<^verbatim>\<open>not_match\<close> example is matched by the rules it was given for.\<close>

theorem parsed_examples_hold:
  fixes wrap :: "'e policy_error \<Rightarrow> 'e"
  assumes "multimap_laws mm" and "parser_reachable mm env starlark wrap b"
    and "policy_parse mm env starlark wrap ident contents b = (b', Inr ())"
    and "v \<in> set (drop (length (b_pending b)) (b_pending b'))"
  shows "(\<forall>ex. ex \<in> set (pv_matches v) \<longrightarrow> example_matches mm env (builder_build b') ex \<noteq> [])
     \<and> (\<forall>ex. ex \<in> set (pv_not_matches v) \<longrightarrow> example_matches mm env (validation_policy mm b' v) ex = [])"
proof -
  from assms(3) have "validate_pending mm env b' (drop (length (b_pending b)) (b_pending b'))
      = (Inr () :: 'e policy_error + unit)"
    by (auto simp: policy_parse_def validate_pending_examples_from_def Let_def
             split: sum.splits prod.splits option.splits)
  with assms(4) have neg: "\<forall>ex \<in> set (pv_not_matches v). example_matches mm env (validation_policy mm b' v) ex = []"
    and pos: "\<forall>ex \<in> set (pv_matches v). example_matches mm env (validation_policy mm b' v) ex \<noteq> []"
    by (auto simp: validate_pending_Inr)
  have "pending_ok mm b'"
    using parser_reachable_ok [OF assms(1) parsed_file [OF assms(2,3)]] by (simp add: builder_ok_def)
  moreover have "v \<in> set (b_pending b')" using assms(4) by (rule in_set_dropD)
  ultimately have sub: "r \<in> set (mm_values mm (rules_by_program (builder_build b')) k)"
    if "r \<in> set (mm_values mm (rules_by_program (validation_policy mm b' v)) k)" for r k
    using that
    by (auto simp: validation_policy_def builder_build_def policy_from_parts_def pending_ok_def
                   mm_values_fold_rules [OF assms(1)] mm_values_new [OF assms(1)])
  have "example_matches mm env (builder_build b') ex \<noteq> []"
    if "example_matches mm env (validation_policy mm b' v) ex \<noteq> []" for ex
    by (rule example_matches_mono [OF sub _ that])
       (simp_all add: validation_policy_def builder_build_def policy_from_parts_def)
  with pos neg show ?thesis by blast
qed

theorem parsed_examples_hold_witness:
  "list_all (\<lambda>ex. example_matches alist_multimap sample_env (builder_build sample_builder) ex \<noteq> [])
     (pv_matches (hd (b_pending sample_builder)))
   \<and> list_all (\<lambda>ex. example_matches alist_multimap sample_env
        (validation_policy alist_multimap sample_builder (hd (b_pending sample_builder))) ex = [])
     (pv_not_matches (hd (b_pending sample_builder)))"
proof -
  have "length (b_pending sample_builder) = 1" by code_simp
  then have "hd (b_pending sample_builder)
     \<in> set (drop (length (b_pending (builder_new alist_multimap))) (b_pending sample_builder))"
    by (cases "b_pending sample_builder") (simp_all add: builder_new_def)
  from parsed_examples_hold [OF alist_multimap_laws new_parser sample_parse this]
  show ?thesis by (simp add: list_all_iff)
qed

section \<open>Changing policy files\<close>

text \<open>Appending a rule adds it as a line of its own after the lines the file had, and appending a
  rule the file already lists leaves the file as it is.\<close>

theorem appended_rule_is_listed_once:
  assumes "amend_fs_lawful fsys content"
    and "nl \<notin> set line" and "line = [] \<or> last line \<noteq> cr"
    and "content s p = Some old" and "old = [] \<or> last old \<noteq> cr"
    and "append_rule_line fsys p line s = (s1, Inr () :: 'j AmendError + unit)"
    and "append_rule_line fsys p line s1 = (s2, Inr () :: 'j AmendError + unit)"
  shows "\<exists>new. content s1 p = Some new \<and> content s2 p = Some new
     \<and> str_lines new = (if line \<in> set (str_lines old) then str_lines old else str_lines old @ [line])"
  using append_rule_line_content [OF assms(1,6)] append_rule_line_content [OF assms(1,7)]
    with_line_idem [OF assms(2,3,5)] str_lines_with_line [OF assms(2,3,5)] assms(4)
  by simp

definition mem_amend_fs :: "(path_buf \<Rightarrow> str option) amend_fs" where
  "mem_amend_fs =
     \<lparr>af_create_dir = (\<lambda>s d. (s, Inl \<lparr>kind = AlreadyExists, message = []\<rparr>)),
      af_open = (\<lambda>s p. (s(p := Some (case s p of Some c \<Rightarrow> c | None \<Rightarrow> [])), Inr ())),
      af_lock = (\<lambda>s p. (s, Inr ())),
      af_seek_start = (\<lambda>s p. (s, Inr ())),
      af_read_to_string = (\<lambda>s p. case s p of Some c \<Rightarrow> (s, Inr c)
                                  | None \<Rightarrow> (s, Inl \<lparr>kind = NotFound, message = []\<rparr>)),
      af_write_all = (\<lambda>s p t. (s(p := map_option (\<lambda>c. c @ t) (s p)), Inr ()))\<rparr>"

lemma mem_amend_fs_lawful: "amend_fs_lawful mem_amend_fs (\<lambda>s. s)"
  by (auto simp: amend_fs_lawful_def mem_amend_fs_def split: option.splits)

theorem appended_rule_is_listed_once_witness:
  "\<exists>s1 s2 new. append_rule_line mem_amend_fs [RootDir, Normal (lit ''r'')] (lit ''b'')
        [[RootDir, Normal (lit ''r'')] \<mapsto> lit ''a''] = (s1, Inr () :: unit AmendError + unit)
     \<and> append_rule_line mem_amend_fs [RootDir, Normal (lit ''r'')] (lit ''b'') s1
        = (s2, Inr () :: unit AmendError + unit)
     \<and> s1 [RootDir, Normal (lit ''r'')] = Some new \<and> s2 [RootDir, Normal (lit ''r'')] = Some new
     \<and> str_lines new = [lit ''a'', lit ''b'']"
proof -
  let ?p = "[RootDir, Normal (lit ''r'')]"
  let ?s = "[?p \<mapsto> lit ''a'']"
  have ok: "\<exists>s'. append_rule_line mem_amend_fs ?p l s = (s', Inr () :: unit AmendError + unit)" for l s
    by (simp add: append_rule_line_def append_locked_line_def then_do_def mem_amend_fs_def path_parent_def
             split: if_splits)
  obtain s1 where s1: "append_rule_line mem_amend_fs ?p (lit ''b'') ?s = (s1, Inr () :: unit AmendError + unit)"
    using ok by blast
  obtain s2 where s2: "append_rule_line mem_amend_fs ?p (lit ''b'') s1 = (s2, Inr () :: unit AmendError + unit)"
    using ok by blast
  have lines: "nl \<notin> set (lit ''b'')" "lit ''b'' = [] \<or> last (lit ''b'') \<noteq> cr"
    "lit ''a'' = [] \<or> last (lit ''a'') \<noteq> cr" "str_lines (lit ''a'') = [lit ''a'']"
    "lit ''b'' \<notin> set (str_lines (lit ''a''))" by code_simp+
  from appended_rule_is_listed_once [OF mem_amend_fs_lawful lines(1,2) _ lines(3) s1 s2] s1 s2 lines(4,5)
  show ?thesis by auto
qed

text \<open>The rule line that approving a command appends is the line the migration looks for: after
  the migration it is gone exactly when the prefix, up to ASCII case, is a banned one. The JSON
  encoder is assumed to be inverted by the decoder and to escape line breaks.\<close>

theorem migration_recognises_amended_rules:
  assumes "json_tokens json pre = Inr js" and "from_json (json_array js) = Some pre"
    and "nl \<notin> set (json_array js)" and "old = [] \<or> ends_with [nl] old"
  shows "(rule_head @ json_array js @ rule_tail @ [nl])
           \<in> set (split_inclusive nl (strip_banned_allow_rules from_json banned
                    (old @ rule_head @ json_array js @ rule_tail @ [nl])))
     \<longleftrightarrow> map to_ascii_lowercase pre \<notin> set (map (map to_ascii_lowercase) banned)"
proof -
  let ?line = "rule_head @ json_array js @ rule_tail"
  have nl: "nl \<notin> set rule_head" "nl \<notin> set rule_tail" "rule_tail \<noteq> []" "last rule_tail \<noteq> cr"
    by (simp_all add: rule_head_def rule_tail_def lit_def)
  have "split_inclusive nl (old @ ?line @ [nl]) = split_inclusive nl old @ [?line @ [nl]]"
    using split_inclusive_append [of old nl ?line] assms(3,4) nl
    by (auto simp: text_simps suffix_def)
  moreover have "should_remove_rule from_json B (?line @ [nl]) \<longleftrightarrow> map to_ascii_lowercase pre \<in> B" for B
  proof -
    have "strip_suffix_opt [nl] (?line @ [nl]) = ?line"
      by (simp add: strip_suffix_opt_def text_simps split: option.splits)
    moreover have "strip_suffix_opt [cr] ?line = ?line"
    proof -
      have "last ?line \<noteq> cr" using nl by simp
      then show ?thesis by (metis last_snoc option.case(1) option.exhaust strip_suffix_Some_iff strip_suffix_opt_def)
    qed
    moreover have "strip_suffix rule_tail (json_array js @ rule_tail) = Some (json_array js)"
      by (simp add: strip_suffix_Some_iff)
    ultimately show ?thesis by (simp add: should_remove_rule_def assms(2))
  qed
  ultimately show ?thesis by (auto simp: split_strip_banned)
qed

theorem migration_recognises_amended_rules_witness:
  "(rule_head @ json_array [lit ''x''] @ rule_tail @ [nl])
     \<in> set (split_inclusive nl (strip_banned_allow_rules (\<lambda>_. Some [lit ''X'']) [[lit ''y'']]
              ([] @ rule_head @ json_array [lit ''x''] @ rule_tail @ [nl])))
   \<longleftrightarrow> map to_ascii_lowercase [lit ''X''] \<notin> set (map (map to_ascii_lowercase) [[lit ''y'']])"
  by (rule migration_recognises_amended_rules [where json = "\<lambda>_. Inr (lit ''x'')"])
     (simp_all add: json_array_def lit_def)

text \<open>The migration keeps, in order, exactly the lines that are not banned rules, and running it
  again changes nothing.\<close>

lemma migration_keeps_other_lines:
  "split_inclusive nl (strip_banned_allow_rules from_json banned s) =
     filter (\<lambda>line. \<not> should_remove_rule from_json (set (map (map to_ascii_lowercase) banned)) line)
       (split_inclusive nl s)
   \<and> strip_banned_allow_rules from_json banned (strip_banned_allow_rules from_json banned s)
     = strip_banned_allow_rules from_json banned s"
proof
  show "split_inclusive nl (strip_banned_allow_rules from_json banned s) =
     filter (\<lambda>line. \<not> should_remove_rule from_json (set (map (map to_ascii_lowercase) banned)) line)
       (split_inclusive nl s)"
    by (rule split_strip_banned)
  show "strip_banned_allow_rules from_json banned (strip_banned_allow_rules from_json banned s)
     = strip_banned_allow_rules from_json banned s"
    by (simp add: strip_banned_allow_rules_def [of _ _ "strip_banned_allow_rules from_json banned s"]
                  split_strip_banned)
       (simp add: strip_banned_allow_rules_def)
qed

text \<open>Normalising a host twice can change it: a port followed by a dot is only seen the second time.\<close>

lemma normalize_host_not_idempotent:
  "normalize_network_rule_host (lit ''a:80.'') = (Inr (lit ''a:80'') :: unit policy_error + str)
   \<and> normalize_network_rule_host (lit ''a:80'') = (Inr (lit ''a'') :: unit policy_error + str)"
  by code_simp

end
