(* ===== verification/Command_Safety_Properties.thy ===== *)
theory Command_Safety_Properties
  imports Command_Safety
begin

text \<open>
  What the command classifiers guarantee: what a script that is taken for safe consists of, that no
  command is both safe and dangerous, how deep wrappers are followed, and what the git rules accept.
\<close>

section \<open>The walks\<close>

lemma set_all_nodes: "set (all_nodes n) = insert n (\<Union>c \<in> set (children n). set (all_nodes c))"
  by (cases n) auto

lemma self_in_all_nodes [simp]: "n \<in> set (all_nodes n)"
  by (cases n) simp

definition command_node :: "ts_node \<Rightarrow> bool" where
  "command_node n \<longleftrightarrow> is_named n \<and> node_kind n = lit ''command''"

lemma collect_commands_Some:
  "collect_commands acc st = Some r \<Longrightarrow>
     (\<forall>n \<in> set (concat (map all_nodes st)). node_allowed n)
     \<and> set r = set acc \<union> {n \<in> set (concat (map all_nodes st)). command_node n}"
proof (induction acc st rule: collect_commands.induct)
  case (2 acc n stack)
  from "2.prems" have ok: "node_allowed n"
    and rest: "collect_commands (if command_node n then acc @ [n] else acc) (rev (children n) @ stack) = Some r"
    by (auto simp: command_node_def split: if_splits)
  have IH: "(\<forall>m \<in> set (concat (map all_nodes (rev (children n) @ stack))). node_allowed m)
     \<and> set r = set (if command_node n then acc @ [n] else acc)
               \<union> {m \<in> set (concat (map all_nodes (rev (children n) @ stack))). command_node m}"
    using "2.IH" [of] ok rest by (simp add: command_node_def)
  have nodes: "set (concat (map all_nodes (n # stack)))
               = insert n (set (concat (map all_nodes (rev (children n) @ stack))))"
    using set_all_nodes [of n] by auto
  from IH ok show ?case unfolding nodes by auto
qed simp

lemma push_each_words:
  "push_each (\<lambda>n. map_option (\<lambda>ws. [ws]) (f n)) acc ns = Some r \<longleftrightarrow>
     (\<exists>wss. list_all2 (\<lambda>n ws. f n = Some ws) ns wss \<and> r = acc @ wss)"
proof (induction ns arbitrary: acc)
  case (Cons n ns)
  show ?case by (cases "f n") (auto simp: Cons list_all2_Cons1)
qed auto

lemma collect_literal_from:
  "c \<in> set (collect_literal cs st) \<Longrightarrow>
     c \<in> set cs \<or> (\<exists>n \<in> set (concat (map all_nodes st)). node_kind n = lit ''command''
                   \<and> parse_literal_command_from_node n = Some c)"
proof (induction cs st rule: collect_literal.induct)
  case (2 cs n stack)
  have sub: "set (concat (map all_nodes (rev (named_children n) @ stack)))
             \<subseteq> set (concat (map all_nodes (n # stack)))"
    using set_all_nodes [of n] by (auto simp: named_children_def)
  have self: "n \<in> set (concat (map all_nodes (n # stack)))" by simp
  from "2.IH" "2.prems" sub self show ?case
    by (fastforce split: if_splits option.splits)
qed simp

text \<open>A script is read as plain commands only when every node of its tree is allowed and every
  command node is a plain command.\<close>

lemma word_only_commands:
  assumes "try_parse_word_only_commands_sequence root = Some cmds"
  shows "\<not> has_error root \<and> (\<forall>n \<in> set (all_nodes root). node_allowed n)
     \<and> set (map parse_plain_command_from_node (filter command_node (all_nodes root))) = Some ` set cmds"
proof -
  from assms obtain ns wss where err: "\<not> has_error root" and ns: "collect_commands [] [root] = Some ns"
    and wss: "list_all2 (\<lambda>n ws. parse_plain_command_from_node n = Some ws) (sort_key start_byte ns) cmds"
    by (auto simp: try_parse_word_only_commands_sequence_def push_each_words bind_eq_Some_conv
             split: if_splits)
  from collect_commands_Some [OF ns] have ok: "\<forall>n \<in> set (all_nodes root). node_allowed n"
    and set_ns: "set ns = {n \<in> set (all_nodes root). command_node n}" by simp_all
  from wss have "map parse_plain_command_from_node (sort_key start_byte ns) = map Some cmds"
    by (simp add: list_all2_conv_all_nth list_eq_iff_nth_eq)
  then have "parse_plain_command_from_node ` set ns = Some ` set cmds"
    by (metis set_map set_sort)
  with err ok set_ns show ?thesis by auto
qed

section \<open>Names that are no shells\<close>

definition SAFE_NAMES :: "str list" where
  "SAFE_NAMES = map lit [''numfmt'', ''tac''] @ ALWAYS_SAFE @ map lit [''base64'', ''find'', ''rg'', ''git'', ''sed'']"

definition WRAPPER_NAMES :: "str list" where
  "WRAPPER_NAMES = map lit [''rm'', ''sudo'', ''env'', ''trap'']"

lemma no_shell_names:
  "list_all (\<lambda>n. detect_shell_type n = None \<and> file_stem_of n = n) (SAFE_NAMES @ WRAPPER_NAMES)"
  by code_simp

lemma shell_file_names:
  "list_all (\<lambda>s. executable_name_lookup_key s = Some s \<and> s \<notin> set (SAFE_NAMES @ WRAPPER_NAMES))
     (map lit [''zsh'', ''sh'', ''cmd'', ''bash'', ''pwsh'', ''powershell''])"
  by code_simp

lemma detect_shell_type_other:
  assumes "executable_name_lookup_key s = Some n" and "n \<in> set (SAFE_NAMES @ WRAPPER_NAMES)"
  shows "detect_shell_type s = None"
proof -
  have n: "detect_shell_type n = None" "file_stem_of n = n"
    using no_shell_names assms(2) by (auto simp: list_all_iff)
  have "s \<notin> set (map lit [''zsh'', ''sh'', ''cmd'', ''bash'', ''pwsh'', ''powershell''])"
    using shell_file_names assms by (auto simp: list_all_iff)
  then show ?thesis
    using assms(1) n
    by (subst detect_shell_type.simps)
       (simp add: path_file_stem_def executable_name_lookup_key_def)
qed

lemma no_script:
  assumes "executable_name_lookup_key s = Some n" and "n \<in> set (SAFE_NAMES @ WRAPPER_NAMES)"
  shows "extract_bash_command (s # args) = None"
  using detect_shell_type_other [OF assms]
  by (auto simp: extract_bash_command_def split: list.splits)

lemma safe_wrapper_disjoint: "set SAFE_NAMES \<inter> set WRAPPER_NAMES = {}"
proof -
  have "list_all (\<lambda>n. n \<notin> set WRAPPER_NAMES) SAFE_NAMES" by code_simp
  then show ?thesis by (auto simp: list_all_iff)
qed

lemma safe_exec_name:
  assumes "is_safe_to_call_with_exec cmd"
  shows "\<exists>c args n. cmd = c # args \<and> executable_name_lookup_key c = Some n \<and> n \<in> set SAFE_NAMES"
  using assms
  by (auto simp: is_safe_to_call_with_exec_def SAFE_NAMES_def split: list.splits option.splits if_splits)

lemma not_wrapper_for_exec:
  assumes "executable_name_lookup_key c = Some n" and "n \<notin> set WRAPPER_NAMES"
  shows "dangerous_command_match_for_exec parse (c # args) d = None"
  using assms by (simp add: dangerous_command_match_for_exec.simps WRAPPER_NAMES_def)

lemma safe_name_not_dangerous:
  assumes "executable_name_lookup_key c = Some n" and "n \<in> set SAFE_NAMES"
  shows "dangerous_command_match_with_depth parse (c # args) d = None"
proof -
  have "n \<notin> set WRAPPER_NAMES" using assms(2) safe_wrapper_disjoint by blast
  then show ?thesis
    using not_wrapper_for_exec [OF assms(1)] no_script [OF assms(1)] assms(2)
    by (simp add: dangerous_command_match_with_depth.simps parse_shell_lc_literal_commands_def)
qed


section \<open>Safe scripts\<close>

text \<open>C10: a shell script that is known to be safe has no syntax error, consists of allowed nodes only
  (no redirections, substitutions, subshells or background jobs) and holds at least one command;
  every command node in it is a plain command that is safe on its own.\<close>

theorem safe_script_holds_only_safe_commands:
  assumes "is_known_safe_command parse [shell, flag, script]"
    and "detect_shell_type shell \<in> {Some Zsh, Some Bash, Some Sh}" and "script \<noteq> lit ''zsh''"
  shows "\<exists>root. parse script = Some root \<and> \<not> has_error root
     \<and> list_all node_allowed (all_nodes root) \<and> filter command_node (all_nodes root) \<noteq> []
     \<and> list_all (\<lambda>n. case parse_plain_command_from_node n of
                        Some ws \<Rightarrow> is_safe_to_call_with_exec ws | None \<Rightarrow> False)
         (filter command_node (all_nodes root))"
proof -
  have "\<not> is_safe_to_call_with_exec (map zsh_as_bash [shell, flag, script])"
  proof
    assume "is_safe_to_call_with_exec (map zsh_as_bash [shell, flag, script])"
    then obtain n where "executable_name_lookup_key (zsh_as_bash shell) = Some n" "n \<in> set SAFE_NAMES"
      by (auto dest: safe_exec_name)
    then have "detect_shell_type (zsh_as_bash shell) = None" by (simp add: detect_shell_type_other)
    with assms(2) show False by (auto simp: zsh_as_bash_def detect_shell_type.simps split: if_splits)
  qed
  with assms(1,3) obtain root cmds where root: "parse script = Some root"
    and cmds: "try_parse_word_only_commands_sequence root = Some cmds" "cmds \<noteq> []"
      "list_all is_safe_to_call_with_exec cmds"
    by (auto simp: is_known_safe_command_def parse_shell_lc_plain_commands_def extract_bash_command_def
                   bind_eq_Some_conv zsh_as_bash_def [of script] split: option.splits if_splits)
  from word_only_commands [OF cmds(1)] have ok: "\<not> has_error root" "\<forall>n \<in> set (all_nodes root). node_allowed n"
    and plain: "parse_plain_command_from_node ` set (filter command_node (all_nodes root)) = Some ` set cmds"
    by auto
  have "\<exists>ws \<in> set cmds. parse_plain_command_from_node n = Some ws"
    if "n \<in> set (filter command_node (all_nodes root))" for n
    using plain that by (metis imageE imageI)
  then have "list_all (\<lambda>n. case parse_plain_command_from_node n of
                        Some ws \<Rightarrow> is_safe_to_call_with_exec ws | None \<Rightarrow> False)
         (filter command_node (all_nodes root))"
    using cmds(3) by (fastforce simp: list_all_iff)
  moreover have "filter command_node (all_nodes root) \<noteq> []"
    using plain cmds(2) by (metis image_is_empty set_empty)
  ultimately show ?thesis using root ok by (auto simp: list_all_iff)
qed

text \<open>The tree of a one-word script.\<close>

definition sample_tree :: "str \<Rightarrow> ts_node" where
  "sample_tree w =
     TsNode (lit ''program'') True False 0 (Some w)
       [TsNode (lit ''command'') True False 0 (Some w)
          [TsNode (lit ''command_name'') True False 0 (Some w)
             [TsNode (lit ''word'') True False 0 (Some w) []]]]"

theorem safe_script_holds_only_safe_commands_witness:
  "\<exists>root. (\<lambda>s. Some (sample_tree s)) (lit ''ls'') = Some root \<and> \<not> has_error root
     \<and> list_all node_allowed (all_nodes root) \<and> filter command_node (all_nodes root) \<noteq> []
     \<and> list_all (\<lambda>n. case parse_plain_command_from_node n of
                        Some ws \<Rightarrow> is_safe_to_call_with_exec ws | None \<Rightarrow> False)
         (filter command_node (all_nodes root))"
proof (rule safe_script_holds_only_safe_commands)
  show "is_known_safe_command (\<lambda>s. Some (sample_tree s)) [lit ''bash'', lit ''-lc'', lit ''ls'']"
    by code_simp
  show "detect_shell_type (lit ''bash'') \<in> {Some Zsh, Some Bash, Some Sh}" by code_simp
qed code_simp

section \<open>Safe and dangerous\<close>

text \<open>What the bash grammar says of a command node: its name comes after assignments and redirections
  only, and a command has one name.\<close>

definition command_shape :: "ts_node \<Rightarrow> bool" where
  "command_shape n \<longleftrightarrow>
     (\<exists>pre name post. named_children n = pre @ name # post \<and> node_kind name = lit ''command_name''
        \<and> (\<forall>p \<in> set pre. node_kind p \<in> {lit ''variable_assignment'', lit ''file_redirect'', lit ''herestring_redirect''})
        \<and> (\<forall>p \<in> set post. node_kind p \<noteq> lit ''command_name''))"

definition bash_grammar :: "shell_parser \<Rightarrow> bool" where
  "bash_grammar parse \<longleftrightarrow>
     (\<forall>script root n. parse script = Some root \<longrightarrow> n \<in> set (all_nodes root)
        \<longrightarrow> node_kind n = lit ''command'' \<longrightarrow> command_shape n)"

lemma literal_words_keeps_head: "literal_words (t # ts) b kids = Some c \<Longrightarrow> \<exists>r. c = t # r"
  by (induction "t # ts" b kids arbitrary: ts rule: literal_words.induct) (auto split: option.splits if_splits)

lemma push_each_head: "push_each f (t # ts) xs = Some r \<Longrightarrow> \<exists>r'. r = t # r'"
  by (induction f "t # ts" xs arbitrary: ts rule: push_each.induct) (auto split: option.splits)

lemma same_command_name:
  assumes "command_shape n" and "parse_plain_command_from_node n = Some ws"
    and "parse_literal_command_from_node n = Some c"
  shows "\<exists>t r r'. ws = t # r \<and> c = t # r'"
proof -
  from assms(1) obtain pre name post where kids: "named_children n = pre @ name # post"
    and name: "node_kind name = lit ''command_name''"
    and pre: "\<forall>p \<in> set pre. node_kind p \<in> {lit ''variable_assignment'', lit ''file_redirect'', lit ''herestring_redirect''}"
    by (auto simp: command_shape_def)
  have other: "lit ''variable_assignment'' \<noteq> k \<and> lit ''file_redirect'' \<noteq> k \<and> lit ''herestring_redirect'' \<noteq> k"
    if "k \<in> set (map lit [''command_name'', ''concatenation'', ''word'', ''number'', ''string'', ''raw_string''])" for k
    using that by auto
  have "pre = []"
  proof (cases pre)
    case (Cons p ps)
    with pre have "plain_word p = None"
      by (auto simp: plain_word_def plain_part_def is_word_or_number_def)
    with assms(2) kids Cons show ?thesis by (auto simp: parse_plain_command_from_node_def split: if_splits)
  qed
  with kids have kids: "named_children n = name # post" by simp
  from assms(2) kids name obtain w t where w: "named_child0 name = Some w" "node_kind w = lit ''word''" "node_text w = Some t"
    and ws: "push_each plain_word [t] post = Some ws"
    by (auto simp: parse_plain_command_from_node_def plain_word_def bind_eq_Some_conv
             split: if_splits option.splits)
  from assms(3) kids name w obtain t' where t': "parse_literal_shell_word w = Some t'"
    and c: "literal_words [t'] True post = Some c"
    by (auto simp: parse_literal_command_from_node_def split: if_splits option.splits)
  from t' w have "t' = t"
    by (auto simp: parse_literal_shell_word.simps split: if_splits)
  with push_each_head [OF ws] literal_words_keeps_head [OF c] show ?thesis by auto
qed

lemma allowed_command_node: "node_allowed n \<Longrightarrow> node_kind n = lit ''command'' \<Longrightarrow> command_node n"
proof (rule ccontr)
  assume *: "node_allowed n" "node_kind n = lit ''command''" "\<not> command_node n"
  have "lit ''command'' \<notin> set ALLOWED_PUNCT_TOKENS" "trim (lit ''command'') \<noteq> []" by code_simp+
  with * show False by (auto simp: command_node_def node_allowed_def)
qed

lemma safe_not_dangerous:
  assumes "bash_grammar parse" and "lit ''zsh'' \<notin> set (tl command)"
    and "is_known_safe_command parse command"
  shows "dangerous_command_match parse command = None"
proof (cases "is_safe_to_call_with_exec (map zsh_as_bash command)")
  case True
  then obtain c args n where cmd: "command = c # args" and n: "executable_name_lookup_key (zsh_as_bash c) = Some n"
    "n \<in> set SAFE_NAMES"
    by (auto dest!: safe_exec_name)
  have "c \<noteq> lit ''zsh''"
  proof
    assume "c = lit ''zsh''"
    with n have "executable_name_lookup_key (lit ''bash'') = Some n" by (simp add: zsh_as_bash_def)
    with n(2) shell_file_names show False by (auto simp: list_all_iff)
  qed
  with n safe_name_not_dangerous show ?thesis
    by (simp add: cmd dangerous_command_match_def zsh_as_bash_def)
next
  case False
  with assms(3) obtain cmds where cmds: "parse_shell_lc_plain_commands parse (map zsh_as_bash command) = Some cmds"
    "list_all is_safe_to_call_with_exec cmds"
    by (auto simp: is_known_safe_command_def split: option.splits)
  then obtain shell flag script root where cmd: "command = [shell, flag, script]"
    and root: "parse script = Some root" "try_parse_word_only_commands_sequence root = Some cmds"
    and shell: "detect_shell_type (zsh_as_bash shell) \<noteq> None"
    using assms(2)
    by (auto simp: parse_shell_lc_plain_commands_def extract_bash_command_def bind_eq_Some_conv map_eq_Cons_conv
                   zsh_as_bash_def split: list.splits if_splits)
  note word_only = word_only_commands [OF root(2)]
  have "dangerous_command_match_with_depth parse c 1 = None"
    if c: "c \<in> set (collect_literal [] [root])" for c
  proof -
    from collect_literal_from [OF c] obtain n where n: "n \<in> set (all_nodes root)"
      "node_kind n = lit ''command''" "parse_literal_command_from_node n = Some c" by auto
    then have "n \<in> set (filter command_node (all_nodes root))"
      using word_only allowed_command_node by auto
    then obtain ws where ws: "ws \<in> set cmds" "parse_plain_command_from_node n = Some ws"
      using word_only by (metis imageE imageI set_map)
    have "command_shape n" using assms(1) root(1) n by (auto simp: bash_grammar_def)
    from same_command_name [OF this ws(2) n(3)] obtain t r r' where "ws = t # r" "c = t # r'" by blast
    moreover have "is_safe_to_call_with_exec ws" using ws(1) cmds(2) by (simp add: list_all_iff)
    ultimately show ?thesis using safe_exec_name safe_name_not_dangerous by (metis list.inject)
  qed
  then have inner: "find_map (\<lambda>c. dangerous_command_match_with_depth parse c (0 + 1)) (collect_literal [] [root]) = None"
    by (intro find_map_None) simp
  have "dangerous_command_match_for_exec parse command 0 = None"
  proof (cases "executable_name_lookup_key shell")
    case None
    then show ?thesis by (simp add: cmd dangerous_command_match_for_exec.simps)
  next
    case (Some n)
    have "n \<notin> set WRAPPER_NAMES"
    proof
      assume n: "n \<in> set WRAPPER_NAMES"
      then have "detect_shell_type shell = None" by (intro detect_shell_type_other [OF Some]) simp
      moreover have "shell \<noteq> lit ''zsh''" using Some n shell_file_names by (auto simp: list_all_iff)
      ultimately show False using shell by (simp add: zsh_as_bash_def)
    qed
    from not_wrapper_for_exec [OF Some this] show ?thesis by (simp add: cmd)
  qed
  then show ?thesis
    using inner root(1)
    by (subst dangerous_command_match_def, subst dangerous_command_match_with_depth.simps)
       (auto simp: parse_shell_lc_literal_commands_def extract_bash_command_def cmd split: option.splits)
qed

text \<open>No command is both known to be safe and known to be dangerous.\<close>

theorem known_safe_is_not_dangerous:
  assumes "bash_grammar parse" and "lit ''zsh'' \<notin> set (tl command)"
    and "is_known_safe_command parse command"
  shows "dangerous_command_match parse command = None"
  using assms by (rule safe_not_dangerous)

theorem known_safe_is_not_dangerous_witness:
  "dangerous_command_match (\<lambda>s. Some (sample_tree s)) [lit ''bash'', lit ''-lc'', lit ''ls''] = None"
proof (rule known_safe_is_not_dangerous)
  show "bash_grammar (\<lambda>s. Some (sample_tree s))"
    by (auto simp: bash_grammar_def sample_tree_def command_shape_def named_children_def
             intro!: exI [where x = "[]"])
qed code_simp+

section \<open>Wrappers\<close>

lemma sudo_step:
  assumes "d \<le> 8"
  shows "dangerous_command_match_with_depth parse (lit ''sudo'' # cmd) d
         = dangerous_command_match_with_depth parse cmd (d + 1)"
proof -
  have name: "executable_name_lookup_key (lit ''sudo'') = Some (lit ''sudo'')" by code_simp
  have "extract_bash_command (lit ''sudo'' # cmd) = None"
    by (rule no_script [OF name]) (simp add: WRAPPER_NAMES_def)
  with assms show ?thesis
    by (subst dangerous_command_match_with_depth.simps, subst dangerous_command_match_for_exec.simps)
       (simp add: name MAX_DANGEROUS_COMMAND_WRAPPER_DEPTH_def parse_shell_lc_literal_commands_def
             split: option.splits)
qed

lemma rm_step:
  assumes "d \<le> 8"
  shows "dangerous_command_match_with_depth parse (lit ''rm'' # args) d
         = (if rm_args_include_force_option args then Some ForcedRm else None)"
proof -
  have name: "executable_name_lookup_key (lit ''rm'') = Some (lit ''rm'')" by code_simp
  have "extract_bash_command (lit ''rm'' # args) = None"
    by (rule no_script [OF name]) (simp add: WRAPPER_NAMES_def)
  with assms show ?thesis
    by (subst dangerous_command_match_with_depth.simps, subst dangerous_command_match_for_exec.simps)
       (simp add: name MAX_DANGEROUS_COMMAND_WRAPPER_DEPTH_def parse_shell_lc_literal_commands_def)
qed

text \<open>A forced removal is found behind up to eight \<^verbatim>\<open>sudo\<close>s and is not looked for behind more.\<close>

theorem forced_rm_found_behind_wrappers:
  "dangerous_command_match parse (replicate n (lit ''sudo'') @ lit ''rm'' # args) =
     (if n \<le> 8 \<and> rm_args_include_force_option args then Some ForcedRm else None)"
proof -
  have deep: "dangerous_command_match_with_depth parse cmd d = None" if "d > 8" for cmd d
    using that by (subst dangerous_command_match_with_depth.simps)
      (simp add: MAX_DANGEROUS_COMMAND_WRAPPER_DEPTH_def)
  have "dangerous_command_match_with_depth parse (replicate n (lit ''sudo'') @ lit ''rm'' # args) d =
     (if d + n \<le> 8 \<and> rm_args_include_force_option args then Some ForcedRm else None)" for d
  proof (induction n arbitrary: d)
    case 0
    then show ?case by (cases "d \<le> 8") (simp_all add: rm_step deep)
  next
    case (Suc n)
    then show ?case by (cases "d \<le> 8") (simp_all add: sudo_step deep)
  qed
  from this [of 0] show ?thesis by (simp add: dangerous_command_match_def)
qed

section \<open>Git\<close>

lemma git_scan_found:
  "git_scan subs skip idx args = Some (i, sub) \<Longrightarrow>
     \<exists>pre post. args = pre @ sub # post \<and> i = idx + length pre \<and> sub \<in> set subs
       \<and> ((\<forall>a \<in> set pre. \<not> is_git_global_option_with_value a) \<longrightarrow> \<not> skip \<longrightarrow>
          (\<forall>a \<in> set pre. starts_with [minus_sign] a))"
proof (induction subs skip idx args rule: git_scan.induct)
  case (2 subs skip idx arg args)
  have inline: "starts_with [minus_sign] arg" if "is_git_global_option_with_inline_value arg"
    using that by (auto simp: is_git_global_option_with_inline_value_def starts_with_iff lit_def prefix_def)
  have step: "\<exists>pre post. arg # args = pre @ sub # post \<and> i = idx + length pre \<and> sub \<in> set subs
       \<and> ((\<forall>a \<in> set pre. \<not> is_git_global_option_with_value a) \<longrightarrow> \<not> skip \<longrightarrow>
          (\<forall>a \<in> set pre. starts_with [minus_sign] a))"
    if "\<exists>pre post. args = pre @ sub # post \<and> i = idx + 1 + length pre \<and> sub \<in> set subs
       \<and> ((\<forall>a \<in> set pre. \<not> is_git_global_option_with_value a) \<longrightarrow> \<not> sk \<longrightarrow>
          (\<forall>a \<in> set pre. starts_with [minus_sign] a))"
      and "skip \<or> is_git_global_option_with_value arg \<or> \<not> sk \<and> starts_with [minus_sign] arg" for sk
  proof -
    from that(1) obtain pre post where *: "args = pre @ sub # post" "i = idx + 1 + length pre" "sub \<in> set subs"
      "(\<forall>a \<in> set pre. \<not> is_git_global_option_with_value a) \<longrightarrow> \<not> sk \<longrightarrow> (\<forall>a \<in> set pre. starts_with [minus_sign] a)"
      by blast
    with that(2) show ?thesis by (intro exI [of _ "arg # pre"] exI [of _ post]) auto
  qed
  have dashes: "starts_with [minus_sign] (lit ''--'')" by code_simp
  show ?case
  proof (cases "skip \<or> is_git_global_option_with_inline_value arg \<or> is_git_global_option_with_value arg
                \<or> arg = lit ''--'' \<or> starts_with [minus_sign] arg")
    case True
    then show ?thesis
      using "2.IH" "2.prems" inline dashes
      by (intro step [of "\<not> skip \<and> \<not> is_git_global_option_with_inline_value arg
                           \<and> is_git_global_option_with_value arg"])
         (auto split: if_splits)
  next
    case False
    with "2.prems" show ?thesis by (auto split: if_splits)
  qed
qed simp

lemma unsafe_global_options:
  "is_git_global_option_with_value a \<Longrightarrow> git_matches_option_pattern a UNSAFE_GIT_GLOBAL_OPTIONS"
  by (auto simp: is_git_global_option_with_value_def git_matches_option_pattern_def UNSAFE_GIT_GLOBAL_OPTIONS_def)

lemma branch_scan_iff: "branch_scan b args \<longleftrightarrow> list_all branch_query_flag args \<and> (b \<or> args \<noteq> [])"
  by (induction b args rule: branch_scan.induct) auto

text \<open>A git command that counts as safe is a read-only subcommand: only dash options that select
  no other repository, configuration or pager come before it, none of its options writes a file or
  runs a program, and \<^verbatim>\<open>git branch\<close> only takes options that list branches.\<close>

theorem safe_git_command_is_read_only:
  assumes "is_safe_git_command (git # args)"
  shows "\<exists>pre sub post. args = pre @ sub # post
     \<and> sub \<in> set (map lit [''status'', ''log'', ''diff'', ''show'', ''branch''])
     \<and> list_all (\<lambda>a. starts_with [minus_sign] a \<and> \<not> git_matches_option_pattern a UNSAFE_GIT_GLOBAL_OPTIONS) pre
     \<and> list_all (\<lambda>a. \<not> git_matches_option_pattern a UNSAFE_GIT_SUBCOMMAND_OPTIONS) post
     \<and> (sub = lit ''branch'' \<longrightarrow> list_all branch_query_flag post)"
proof -
  let ?subs = "map lit [''status'', ''log'', ''diff'', ''show'', ''branch'']"
  from assms obtain i sub where scan: "git_scan ?subs False 1 args = Some (i, sub)"
    and g: "\<not> git_has_unsafe_global_option (drop 1 (take i (git # args)))"
    and r: "git_subcommand_args_are_read_only (drop (i + 1) (git # args))"
    and br: "sub = lit ''branch'' \<Longrightarrow> git_branch_is_read_only (drop (i + 1) (git # args))"
    by (auto simp: is_safe_git_command_def find_git_subcommand_def Let_def split: option.splits if_splits)
  from git_scan_found [OF scan] obtain pre post where args: "args = pre @ sub # post"
    and i: "i = 1 + length pre" and sub: "sub \<in> set ?subs"
    and dash: "(\<forall>a \<in> set pre. \<not> is_git_global_option_with_value a) \<longrightarrow> (\<forall>a \<in> set pre. starts_with [minus_sign] a)"
    by auto
  from g have pre: "\<forall>a \<in> set pre. \<not> git_matches_option_pattern a UNSAFE_GIT_GLOBAL_OPTIONS"
    by (simp add: git_has_unsafe_global_option_def args i)
  from r have post: "\<forall>a \<in> set post. \<not> git_matches_option_pattern a UNSAFE_GIT_SUBCOMMAND_OPTIONS"
    by (simp add: git_subcommand_args_are_read_only_def args i)
  have "sub = lit ''branch'' \<longrightarrow> list_all branch_query_flag post"
    using br by (auto simp: git_branch_is_read_only_def args i branch_scan_iff split: if_splits)
  moreover from dash pre unsafe_global_options
  have "list_all (\<lambda>a. starts_with [minus_sign] a \<and> \<not> git_matches_option_pattern a UNSAFE_GIT_GLOBAL_OPTIONS) pre"
    by (auto simp: list_all_iff)
  ultimately show ?thesis using args sub post by (auto simp: list_all_iff)
qed

theorem safe_git_command_is_read_only_witness:
  "\<exists>pre sub post. [lit ''--no-pager'', lit ''log'', lit ''-n1''] = pre @ sub # post
     \<and> sub \<in> set (map lit [''status'', ''log'', ''diff'', ''show'', ''branch''])
     \<and> list_all (\<lambda>a. starts_with [minus_sign] a \<and> \<not> git_matches_option_pattern a UNSAFE_GIT_GLOBAL_OPTIONS) pre
     \<and> list_all (\<lambda>a. \<not> git_matches_option_pattern a UNSAFE_GIT_SUBCOMMAND_OPTIONS) post
     \<and> (sub = lit ''branch'' \<longrightarrow> list_all branch_query_flag post)"
  by (rule safe_git_command_is_read_only [where git = "lit ''git''"]) code_simp

end
