(* ===== verification/Exec_Approval_Properties.thy ===== *)
theory Exec_Approval_Properties
  imports Exec_Approval Exec_Policy_Properties Command_Safety_Properties
begin

text \<open>
  What the approval of a command guarantees, from the request down to the rules that match.
\<close>

section \<open>The evaluation of a request\<close>

definition request_commands :: "shell_parser \<Rightarrow> ExecApprovalRequest \<Rightarrow> str list list" where
  "request_commands ts req = policy_commands (commands_for_exec_policy ts (req_command req))"

definition request_fallback :: "shell_parser \<Rightarrow> ExecApprovalRequest \<Rightarrow> str list \<Rightarrow> Decision" where
  "request_fallback ts req =
     exec_policy_fallback ts req (used_complex_parsing (commands_for_exec_policy ts (req_command req)))"

definition request_matches ::
  "shell_parser \<Rightarrow> ('m, PrefixRule) multimap_ops \<Rightarrow> path_buf option \<Rightarrow> path_buf option \<Rightarrow> 'm Policy
   \<Rightarrow> ExecApprovalRequest \<Rightarrow> RuleMatch list" where
  "request_matches ts mm home cwd pol req =
     concat (map (\<lambda>c. matches_for_command_with_options mm home cwd pol c
                        (Some (request_fallback ts req)) host_match_options) (request_commands ts req))"

lemma request_commands_nonempty [simp]: "request_commands ts req \<noteq> []"
  by (auto simp: request_commands_def commands_for_exec_policy_def split: option.splits list.splits)

lemma request_matches_nonempty [simp]: "request_matches ts mm home cwd pol req \<noteq> []"
proof -
  obtain c cs where "request_commands ts req = c # cs"
    using request_commands_nonempty by (cases "request_commands ts req") blast+
  then show ?thesis by (simp add: request_matches_def matches_nonempty)
qed

abbreviation request_decision ::
  "shell_parser \<Rightarrow> ('m, PrefixRule) multimap_ops \<Rightarrow> path_buf option \<Rightarrow> path_buf option \<Rightarrow> 'm Policy
   \<Rightarrow> ExecApprovalRequest \<Rightarrow> Decision" where
  "request_decision ts mm home cwd pol req \<equiv> Max (match_decision ` set (request_matches ts mm home cwd pol req))"

lemma request_evaluation:
  "check_multiple_with_options mm home cwd pol (request_commands ts req) (request_fallback ts req) host_match_options
     = Some \<lparr>eval_decision = request_decision ts mm home cwd pol req,
             eval_matched_rules = request_matches ts mm home cwd pol req\<rparr>"
  by (simp add: check_multiple_with_options_def from_matches_Max flip: request_matches_def)

text \<open>The requirement by the decision of the evaluation.\<close>

lemma requirement_cases:
  obtains (skip) "request_decision ts mm home cwd pol req = Allow"
      "create_exec_approval_requirement_for_command ts mm home cwd shlex_join pol req =
         Some (Skip (list_all (explicitly_allowed mm home cwd pol) (request_commands ts req))
                 (if used_complex_parsing (commands_for_exec_policy ts (req_command req)) then None
                  else try_derive_execpolicy_amendment_for_allow_rules (request_matches ts mm home cwd pol req)))"
  | (ask) "request_decision ts mm home cwd pol req = Prompt"
      "prompt_is_rejected_by_policy (req_approval_policy req)
         (policy_prompts (request_matches ts mm home cwd pol req)) = None"
      "create_exec_approval_requirement_for_command ts mm home cwd shlex_join pol req =
         Some (NeedsApproval
                 (derive_prompt_reason shlex_join (req_command req)
                    \<lparr>eval_decision = Prompt, eval_matched_rules = request_matches ts mm home cwd pol req\<rparr>)
                 (if used_complex_parsing (commands_for_exec_policy ts (req_command req)) then None
                  else case derive_requested_execpolicy_amendment_from_prefix_rule mm home cwd
                              (req_prefix_rule req) (request_matches ts mm home cwd pol req) pol
                              (request_commands ts req) (request_fallback ts req) host_match_options of
                         Some a \<Rightarrow> Some a
                       | None \<Rightarrow> try_derive_execpolicy_amendment_for_prompt_rules
                                   (request_matches ts mm home cwd pol req)))"
  | (refuse) reason where "request_decision ts mm home cwd pol req = Prompt"
      "prompt_is_rejected_by_policy (req_approval_policy req)
         (policy_prompts (request_matches ts mm home cwd pol req)) \<noteq> None"
      "create_exec_approval_requirement_for_command ts mm home cwd shlex_join pol req =
         Some (ForbiddenRequirement reason)"
  | (forbid) reason where "request_decision ts mm home cwd pol req = Forbidden"
      "create_exec_approval_requirement_for_command ts mm home cwd shlex_join pol req =
         Some (ForbiddenRequirement reason)"
proof -
  note eval = request_evaluation [of mm home cwd pol ts req]
  note unfold = create_exec_approval_requirement_for_command_def Let_def
  show thesis
  proof (cases "request_decision ts mm home cwd pol req")
    case Allow
    with eval show ?thesis
      by (intro skip) (simp_all add: unfold flip: request_commands_def request_fallback_def)
  next
    case Forbidden
    with eval show ?thesis
      by (intro forbid) (simp_all add: unfold flip: request_commands_def request_fallback_def)
  next
    case Prompt
    show ?thesis
    proof (cases "prompt_is_rejected_by_policy (req_approval_policy req)
                    (policy_prompts (request_matches ts mm home cwd pol req))")
      case None
      with Prompt eval show ?thesis
        by (intro ask)
           (simp_all add: unfold request_commands_def request_fallback_def cong: option.case_cong if_cong)
    next
      case (Some reason)
      show ?thesis
      proof (cases "policy_prompts (request_matches ts mm home cwd pol req)")
        case True
        with Prompt Some eval show ?thesis
          by (intro refuse [of reason]) (simp_all add: unfold flip: request_commands_def request_fallback_def)
      next
        case False
        with Prompt Some eval show ?thesis
          by (intro refuse) (simp_all add: unfold flip: request_commands_def request_fallback_def)
      qed
    qed
  qed
qed

lemma decision_Allow_iff:
  "request_decision ts mm home cwd pol req = Allow
     \<longleftrightarrow> (\<forall>m \<in> set (request_matches ts mm home cwd pol req). match_decision m = Allow)"
proof -
  let ?S = "match_decision ` set (request_matches ts mm home cwd pol req)"
  have fin: "finite ?S" "?S \<noteq> {}" by simp_all
  show ?thesis
  proof
    assume "Max ?S = Allow"
    with Max_ge [OF fin(1)] show "\<forall>m \<in> set (request_matches ts mm home cwd pol req). match_decision m = Allow"
      by fastforce
  next
    assume "\<forall>m \<in> set (request_matches ts mm home cwd pol req). match_decision m = Allow"
    with Max_in [OF fin] show "Max ?S = Allow" by auto
  qed
qed




section \<open>A sample policy and requests\<close>

definition sample_rules :: "(str, PrefixRule list) alist Policy" where
  "sample_rules =
     (let add = (\<lambda>pol pre d. case add_prefix_rule alist_multimap pol pre d of
                   Inr pol' \<Rightarrow> pol' | Inl (e :: unit policy_error) \<Rightarrow> pol)
      in add (add (policy_empty alist_multimap) [lit ''git'', lit ''status''] Allow) [lit ''curl''] Forbidden)"

definition sample_request :: "str list \<Rightarrow> AskForApproval \<Rightarrow> ExecApprovalRequest" where
  "sample_request cmd approval =
     \<lparr>req_command = cmd, req_approval_policy = approval,
      req_permission_profile = Managed (ManagedRestricted [] None) NetRestricted,
      req_sandbox_permissions = UseDefault, req_prefix_rule = None\<rparr>"


section \<open>Requirements\<close>





definition allowing_rule_for ::
  "('m, PrefixRule) multimap_ops \<Rightarrow> path_buf option \<Rightarrow> path_buf option \<Rightarrow> 'm Policy \<Rightarrow> str list \<Rightarrow> PrefixRule \<Rightarrow> bool" where
  "allowing_rule_for mm home cwd pol c r \<longleftrightarrow>
     c \<noteq> [] \<and> rule_decision r = Allow
     \<and> (\<exists>name. r \<in> set (mm_values mm (rules_by_program pol) name)
          \<and> rule_matches r (name # tl c) \<noteq> None
          \<and> (name = hd c
             \<or> (\<exists>program. from_absolute_path home cwd (hd c) = Some program
                  \<and> path_file_name program = Some name
                  \<and> (case host_executables_by_name pol name of
                       Some paths \<Rightarrow> program \<in> set paths | None \<Rightarrow> True))))"

lemma rule_matches_decision: "rule_matches r c = Some m \<Longrightarrow> match_decision m = rule_decision r"
  by (auto simp: rule_matches_def)

lemma with_resolved_program_decision [simp]: "match_decision (with_resolved_program m p) = match_decision m"
  by (cases m) simp_all

lemma host_match_rule:
  assumes "m \<in> set (match_host_executable_rules mm home cwd pol c)"
  obtains program name r x where "c \<noteq> []" "from_absolute_path home cwd (hd c) = Some program"
    "path_file_name program = Some name" "r \<in> set (mm_values mm (rules_by_program pol) name)"
    "rule_matches r (name # tl c) = Some x" "m = with_resolved_program x program"
    "case host_executables_by_name pol name of Some paths \<Rightarrow> program \<in> set paths | None \<Rightarrow> True"
proof -
  note unfold = match_host_executable_rules_def
  obtain first args where c: "c = first # args" using assms by (cases c) (auto simp: unfold)
  obtain program where program: "from_absolute_path home cwd first = Some program"
    using assms c by (cases "from_absolute_path home cwd first") (auto simp: unfold)
  obtain name where name: "path_file_name program = Some name"
    using assms c program by (cases "path_file_name program") (auto simp: unfold)
  obtain rules where rules: "mm_get_vec mm (rules_by_program pol) name = Some rules"
    using assms c program name by (cases "mm_get_vec mm (rules_by_program pol) name") (auto simp: unfold)
  have listed: "case host_executables_by_name pol name of Some paths \<Rightarrow> program \<in> set paths | None \<Rightarrow> True"
    using assms by (simp add: unfold c program name rules split: if_splits option.splits)
  then obtain r x where "r \<in> set rules" "rule_matches r (name # args) = Some x" "m = with_resolved_program x program"
    using assms by (auto simp: unfold c program name rules split: if_splits)
  with that c program name rules listed show thesis by (simp add: mm_values_def)
qed

lemma matches_cases:
  assumes "m \<in> set (matches_for_command_with_options mm home cwd pol c None options)"
  obtains "m \<in> set (exact_matches mm pol c)" | "m \<in> set (match_host_executable_rules mm home cwd pol c)"
  using assms
  by (auto simp: matches_for_command_with_options_def match_exact_rules_exact Let_def split: if_splits)

lemma explicitly_allowed_rule:
  assumes "explicitly_allowed mm home cwd pol c"
  shows "\<exists>r. allowing_rule_for mm home cwd pol c r"
proof -
  obtain m where m: "m \<in> set (matches_for_command_with_options mm home cwd pol c None host_match_options)"
    "match_decision m = Allow"
    using assms by (auto simp: explicitly_allowed_def list_ex_iff)
  from m(1) show ?thesis
  proof (cases rule: matches_cases)
    case 1
    then obtain f args r where r: "c = f # args" "r \<in> set (mm_values mm (rules_by_program pol) f)"
      "rule_matches r c = Some m"
      by (auto simp: exact_matches_def split: list.splits)
    with m(2) have "rule_decision r = Allow" by (simp add: rule_matches_decision)
    with r have "allowing_rule_for mm home cwd pol c r" by (auto simp: allowing_rule_for_def)
    then show ?thesis ..
  next
    case 2
    then obtain program name r x where *: "c \<noteq> []" "from_absolute_path home cwd (hd c) = Some program"
      "path_file_name program = Some name" "r \<in> set (mm_values mm (rules_by_program pol) name)"
      "rule_matches r (name # tl c) = Some x" "m = with_resolved_program x program"
      "case host_executables_by_name pol name of Some paths \<Rightarrow> program \<in> set paths | None \<Rightarrow> True"
      by (rule host_match_rule)
    then have "rule_decision r = Allow" using m(2) by (simp add: rule_matches_decision)
    with * have "allowing_rule_for mm home cwd pol c r" by (auto simp: allowing_rule_for_def)
    then show ?thesis ..
  qed
qed

text \<open>The sandbox is bypassed only for a script each of whose commands an allowing rule matches,
  under its own program name or, when no rule names it, under the base name of a program path the
  policy admits for that name; and no rule that matches is stricter.\<close>

theorem bypass_needs_allowing_rule_for_each_command:
  assumes "create_exec_approval_requirement_for_command ts mm home cwd shlex_join pol req = Some (Skip True a)"
    and "c \<in> set (request_commands ts req)"
  shows "(\<exists>r. allowing_rule_for mm home cwd pol c r)
     \<and> (\<forall>m \<in> set (matches_for_command_with_options mm home cwd pol c None host_match_options).
          match_decision m = Allow)"
proof (cases rule: requirement_cases [of ts mm home cwd pol req shlex_join])
  case skip
  with assms have "explicitly_allowed mm home cwd pol c" by (simp add: list_all_iff)
  moreover have "match_decision m = Allow"
    if "m \<in> set (matches_for_command_with_options mm home cwd pol c None host_match_options)" for m
  proof -
    have "m \<in> set (matches_for_command_with_options mm home cwd pol c
                    (Some (request_fallback ts req)) host_match_options)"
      using that by (auto simp: matches_for_command_with_options_def Let_def)
    with assms(2) have "m \<in> set (request_matches ts mm home cwd pol req)"
      by (auto simp: request_matches_def)
    with skip(1) show ?thesis by (simp add: decision_Allow_iff)
  qed
  ultimately show ?thesis using explicitly_allowed_rule by blast
qed (use assms in auto)

theorem bypass_needs_allowing_rule_for_each_command_witness:
  "\<exists>r. allowing_rule_for alist_multimap None None sample_rules [lit ''git'', lit ''status'', lit ''-s''] r"
proof -
  let ?c = "[lit ''git'', lit ''status'', lit ''-s'']"
  have "create_exec_approval_requirement_for_command (\<lambda>_. None) alist_multimap None None (\<lambda>_. None)
          sample_rules (sample_request ?c OnRequest) = Some (Skip True None)"
    "?c \<in> set (request_commands (\<lambda>_. None) (sample_request ?c OnRequest))"
    by code_simp+
  from bypass_needs_allowing_rule_for_each_command [OF this] show ?thesis by blast
qed

lemma heuristics_commandD: "heuristics_command d m = Some a \<Longrightarrow> m = HeuristicsRuleMatch (amendment_command a) d"
  by (cases m) (auto split: if_splits)

lemma exact_matches_policy: "m \<in> set (exact_matches mm pol c) \<Longrightarrow> is_policy_match m"
  by (cases m) (auto dest: exact_matches_not_heuristics)

lemma matches_not_heuristics:
  assumes "m \<in> set (matches_for_command_with_options mm home cwd pol c None options)"
  shows "is_policy_match m"
  using assms
proof (cases rule: matches_cases)
  case 1
  then show ?thesis by (rule exact_matches_policy)
next
  case 2
  then show ?thesis by (elim host_match_rule) (auto simp: rule_matches_def)
qed

lemma unmatched_command:
  assumes "HeuristicsRuleMatch c d \<in> set (request_matches ts mm home cwd pol req)"
  shows "c \<in> set (request_commands ts req)"
    "matches_for_command_with_options mm home cwd pol c None host_match_options = []"
proof -
  obtain c' where c': "c' \<in> set (request_commands ts req)"
    "HeuristicsRuleMatch c d \<in> set (matches_for_command_with_options mm home cwd pol c'
        (Some (request_fallback ts req)) host_match_options)"
    using assms by (auto simp: request_matches_def)
  let ?ms = "matches_for_command_with_options mm home cwd pol c' None host_match_options"
  have "matches_for_command_with_options mm home cwd pol c' (Some (request_fallback ts req)) host_match_options
      = (if ?ms = [] then [HeuristicsRuleMatch c' (request_fallback ts req c')] else ?ms)"
    by (simp add: matches_for_command_with_options_def Let_def)
  with c' matches_not_heuristics [of "HeuristicsRuleMatch c d" mm home cwd pol c' host_match_options]
  have "c = c'" "?ms = []" by (auto split: if_splits)
  with c' show "c \<in> set (request_commands ts req)"
    "matches_for_command_with_options mm home cwd pol c None host_match_options = []" by simp_all
qed

lemma added_rule_allows:
  assumes "multimap_laws mm" and "add_prefix_rule mm pol c Allow = (Inr pol' :: 'e policy_error + _)"
    and "matches_for_command_with_options mm home cwd pol c None host_match_options = []"
  shows "matches_for_command_with_options mm home cwd pol' c h host_match_options = [PrefixRuleMatch c Allow None None]"
proof -
  have "exact_matches mm pol c = []"
    using assms(3) matches_with_exact [of mm pol c home cwd None host_match_options] by metis
  with exact_matches_add_prefix_rule [OF assms(1,2), of c]
  have "exact_matches mm pol' c = [PrefixRuleMatch c Allow None None]" by simp
  then show ?thesis by (simp add: matches_with_exact)
qed

lemma would_approve_skips:
  assumes "prefix_rule_would_approve_all_commands mm home cwd pol pre (request_commands ts req)
             (request_fallback ts req) host_match_options"
    and "add_prefix_rule mm pol pre Allow = (Inr pol' :: unit policy_error + _)"
  shows "\<exists>bypass a. create_exec_approval_requirement_for_command ts mm home cwd shlex_join pol' req
                     = Some (Skip bypass a)"
proof -
  have "match_decision m = Allow" if "c \<in> set (request_commands ts req)"
    and m: "m \<in> set (matches_for_command_with_options mm home cwd pol' c
                      (Some (request_fallback ts req)) host_match_options)" for c m
  proof -
    let ?ms = "matches_for_command_with_options mm home cwd pol' c (Some (request_fallback ts req)) host_match_options"
    have "Max (match_decision ` set ?ms) = Allow"
      using assms that(1)
      by (simp add: prefix_rule_would_approve_all_commands_def list_all_iff check_with_options_def
               from_matches_Max matches_nonempty)
    moreover have "match_decision m \<le> Max (match_decision ` set ?ms)" using m by simp
    ultimately show ?thesis by simp
  qed
  then have "\<forall>m \<in> set (request_matches ts mm home cwd pol' req). match_decision m = Allow"
    by (auto simp: request_matches_def)
  then have "request_decision ts mm home cwd pol' req = Allow" by (simp only: decision_Allow_iff)
  then show ?thesis
    by (cases rule: requirement_cases [of ts mm home cwd pol' req shlex_join]) auto
qed

text \<open>A proposed amendment is worth approving. When it is the prefix the model asked for, it is not a
  banned one and with the rule added the same request runs without a prompt; otherwise it is one of the
  commands itself, which the added rule then allows, and a script of that command alone then runs
  outside the sandbox without a prompt.\<close>

theorem proposed_amendment_settles_the_command:
  assumes laws: "multimap_laws mm"
    and asked: "create_exec_approval_requirement_for_command ts mm home cwd shlex_join pol req
                  = Some (NeedsApproval reason (Some a))"
    and added: "add_prefix_rule mm pol (amendment_command a) Allow = (Inr pol' :: unit policy_error + _)"
  shows "(req_prefix_rule req = Some (amendment_command a)
            \<and> amendment_command a \<notin> set BANNED_PREFIX_SUGGESTIONS
            \<and> (\<exists>bypass a'. create_exec_approval_requirement_for_command ts mm home cwd shlex_join pol' req
                            = Some (Skip bypass a')))
       \<or> (amendment_command a \<in> set (request_commands ts req)
            \<and> explicitly_allowed mm home cwd pol' (amendment_command a)
            \<and> (request_commands ts req = [amendment_command a] \<longrightarrow>
                 create_exec_approval_requirement_for_command ts mm home cwd shlex_join pol' req
                   = Some (Skip True None)))"
proof (cases rule: requirement_cases [of ts mm home cwd pol req shlex_join])
  case ask
  let ?cmd = "amendment_command a"
  let ?ms = "request_matches ts mm home cwd pol req"
  let ?requested = "derive_requested_execpolicy_amendment_from_prefix_rule mm home cwd (req_prefix_rule req) ?ms
        pol (request_commands ts req) (request_fallback ts req) host_match_options"
  from ask(3) asked consider (requested) "?requested = Some a"
    | (heuristics) "try_derive_execpolicy_amendment_for_prompt_rules ?ms = Some a"
    by (auto split: if_splits option.splits)
  then show ?thesis
  proof cases
    case requested
    then have "req_prefix_rule req = Some ?cmd" "?cmd \<notin> set BANNED_PREFIX_SUGGESTIONS"
      "prefix_rule_would_approve_all_commands mm home cwd pol ?cmd (request_commands ts req)
             (request_fallback ts req) host_match_options"
      by (auto simp: derive_requested_execpolicy_amendment_from_prefix_rule_def split: option.splits if_splits)
    with would_approve_skips added show ?thesis by blast
  next
    case heuristics
    then have "HeuristicsRuleMatch ?cmd Prompt \<in> set ?ms"
      by (auto simp: try_derive_execpolicy_amendment_for_prompt_rules_def split: if_splits
               dest!: find_map_Some heuristics_commandD)
    note c = unmatched_command [OF this]
    note matches = added_rule_allows [OF laws added c(2)]
    have allowed: "explicitly_allowed mm home cwd pol' ?cmd" by (simp add: explicitly_allowed_def matches)
    have "create_exec_approval_requirement_for_command ts mm home cwd shlex_join pol' req = Some (Skip True None)"
      if single: "request_commands ts req = [?cmd]"
    proof -
      have "request_matches ts mm home cwd pol' req = [PrefixRuleMatch ?cmd Allow None None]"
        by (simp add: request_matches_def single matches)
      with allowed show ?thesis
        by (cases rule: requirement_cases [of ts mm home cwd pol' req shlex_join])
           (auto simp: single try_derive_execpolicy_amendment_for_allow_rules_def)
    qed
    with c(1) allowed show ?thesis by blast
  qed
qed (use asked in auto)

theorem proposed_amendment_settles_the_command_witness:
  "\<exists>pol'. add_prefix_rule alist_multimap sample_rules [lit ''make''] Allow = (Inr pol' :: unit policy_error + _)
     \<and> create_exec_approval_requirement_for_command (\<lambda>_. None) alist_multimap None None (\<lambda>_. None)
          pol' (sample_request [lit ''make''] UnlessTrusted) = Some (Skip True None)"
proof -
  let ?req = "sample_request [lit ''make''] UnlessTrusted"
  let ?a = "\<lparr>amendment_command = [lit ''make'']\<rparr>"
  have asked: "create_exec_approval_requirement_for_command (\<lambda>_. None) alist_multimap None None (\<lambda>_. None)
          sample_rules ?req = Some (NeedsApproval None (Some ?a))"
    and one: "request_commands (\<lambda>_. None) ?req = [[lit ''make'']]" and none: "req_prefix_rule ?req = None"
    by code_simp+
  obtain pol' where pol': "add_prefix_rule alist_multimap sample_rules (amendment_command ?a) Allow
            = (Inr pol' :: unit policy_error + _)"
    by (simp add: add_prefix_rule_def)
  from proposed_amendment_settles_the_command [OF alist_multimap_laws asked pol'] pol' one none
  show ?thesis by simp
qed

section \<open>Remembering an approval\<close>

lemma line_in_with_line:
  assumes "nl \<notin> set line" and "line = [] \<or> last line \<noteq> cr"
  shows "line \<in> set (str_lines (with_line old line))"
proof (cases "line \<in> set (str_lines old)")
  case False
  define x where "x = (if old \<noteq> [] \<and> \<not> ends_with [nl] old then old @ [nl] else old)"
  have "line \<in> set (str_lines (x @ line @ [nl]))"
  proof (cases "x = []")
    case True
    then show ?thesis by (simp add: str_lines_snoc_nl split_on_no_sep assms strip_cr_id)
  next
    case False
    then obtain a where "x = a @ [nl]" by (auto simp: x_def ends_with_iff suffix_def split: if_splits)
    then show ?thesis using str_lines_append_line [OF assms, of a] by simp
  qed
  with False show ?thesis by (simp add: with_line_def flip: x_def)
qed (simp add: with_line_def)

lemma already_allowed_explicitly:
  assumes "already_allowed mm home cwd pol c"
  shows "explicitly_allowed mm home cwd pol c"
proof -
  let ?ms = "matches_for_command_with_options mm home cwd pol c None host_match_options"
  let ?hs = "matches_for_command_with_options mm home cwd pol c (Some (\<lambda>_. Forbidden)) host_match_options"
  have "?hs = (if ?ms = [] then [HeuristicsRuleMatch c Forbidden] else ?ms)"
    by (simp add: matches_for_command_with_options_def Let_def)
  moreover have "list_ex (\<lambda>m. is_policy_match m \<and> match_decision m = Allow) ?hs"
    using assms
    by (simp add: already_allowed_def check_multiple_with_options_def from_matches_Max matches_nonempty)
  ultimately show ?thesis by (auto simp: explicitly_allowed_def split: if_splits)
qed

lemma added_rule_explicitly_allowed:
  assumes "multimap_laws mm" and "add_prefix_rule mm pol c Allow = (Inr pol' :: 'e policy_error + _)"
  shows "explicitly_allowed mm home cwd pol' c"
proof -
  have "PrefixRuleMatch c Allow None None \<in> set (exact_matches mm pol' c)"
    using exact_matches_add_prefix_rule [OF assms, of c] by simp
  moreover from this have "exact_matches mm pol' c \<noteq> []" by auto
  ultimately show ?thesis
    by (auto simp: explicitly_allowed_def matches_with_exact list_ex_iff intro!: bexI)
qed

lemma append_allow_rule_listed:
  assumes "amend_fs_lawful fsys content"
    and "blocking_append_allow_prefix_rule json fsys p pre s = (s', Inr () :: 'j AmendError + unit)"
    and "\<And>js. json_tokens json pre = Inr js \<Longrightarrow> nl \<notin> set (json_array js)"
  shows "\<exists>js new. json_tokens json pre = Inr js \<and> content s' p = Some new
           \<and> rule_head @ json_array js @ rule_tail \<in> set (str_lines new)"
proof -
  obtain js where js: "json_tokens json pre = Inr js"
    and call: "append_rule_line fsys p (rule_head @ json_array js @ rule_tail) s = (s', Inr () :: 'j AmendError + unit)"
    using assms(2) by (auto simp: blocking_append_allow_prefix_rule_def split: if_splits sum.splits)
  have ends: "nl \<notin> set rule_head" "nl \<notin> set rule_tail" "rule_tail \<noteq> []" "last rule_tail \<noteq> cr" by code_simp+
  let ?line = "rule_head @ json_array js @ rule_tail"
  have "nl \<notin> set ?line" "?line = [] \<or> last ?line \<noteq> cr" using ends assms(3) [OF js] by simp_all
  from line_in_with_line [OF this] append_rule_line_content [OF assms(1) call] js show ?thesis by blast
qed

text \<open>An approved amendment is remembered. When the update succeeds, a rule of the policy in memory
  allows the command, no rule was lost and the policy file lists the rule; when it fails, the policy in
  memory is the one before.\<close>

theorem approved_amendment_is_remembered:
  assumes laws: "multimap_laws mm" and fs: "amend_fs_lawful fsys content"
    and json: "\<And>js. json_tokens json (amendment_command a) = Inr js \<Longrightarrow> nl \<notin> set (json_array js)"
    and update: "append_amendment_and_update json fsys mm home cwd codex_home a (s, pol)
                  = ((s', pol'), res :: ('j, 'e) ExecPolicyUpdateError + unit)"
  shows "case res of
      Inl _ \<Rightarrow> pol' = pol
    | Inr _ \<Rightarrow>
        explicitly_allowed mm home cwd pol' (amendment_command a)
        \<and> (\<forall>c. set (exact_matches mm pol c) \<subseteq> set (exact_matches mm pol' c))
        \<and> (\<exists>js new. json_tokens json (amendment_command a) = Inr js
             \<and> content s' (default_policy_path codex_home) = Some new
             \<and> rule_head @ json_array js @ rule_tail \<in> set (str_lines new))"
proof -
  let ?append = "blocking_append_allow_prefix_rule json fsys (default_policy_path codex_home) (amendment_command a) s"
  obtain s1 r where call: "?append = (s1, r)" by fastforce
  show ?thesis
  proof (cases r)
    case (Inl e)
    with update call show ?thesis by (auto simp: append_amendment_and_update_def)
  next
    case (Inr u)
    have "?append = (s1, Inr ())" using call Inr by simp
    note listed = append_allow_rule_listed [OF fs this json]
    show ?thesis
    proof (cases "already_allowed mm home cwd pol (amendment_command a)")
      case True
      with update call Inr listed already_allowed_explicitly [OF True] show ?thesis
        by (auto simp: append_amendment_and_update_def)
    next
      case False
      have step: "(case (add_prefix_rule mm pol (amendment_command a) Allow :: 'e policy_error + _) of
           Inl e \<Rightarrow> ((s1, pol), Inl (AddRule e)) | Inr pol' \<Rightarrow> ((s1, pol'), Inr ())) = ((s', pol'), res)"
        using update call Inr False by (simp add: append_amendment_and_update_def Let_def)
      show ?thesis
      proof (cases res)
        case Inl
        with step show ?thesis by (auto split: sum.splits)
      next
        case (Inr u')
        with step have *: "add_prefix_rule mm pol (amendment_command a) Allow = (Inr pol' :: 'e policy_error + _)" "s' = s1"
          by (auto split: sum.splits)
        from added_rule_explicitly_allowed [OF laws *(1)] exact_matches_add_prefix_rule [OF laws *(1)]
          listed call \<open>r = Inr u\<close> *(2) Inr
        show ?thesis by simp
      qed
    qed
  qed
qed

theorem approved_amendment_is_remembered_witness:
  "\<exists>s' pol'. append_amendment_and_update (\<lambda>t. Inr (quoted t)) mem_amend_fs alist_multimap None None
        [RootDir] \<lparr>amendment_command = [lit ''make'']\<rparr> (Map.empty, sample_rules)
          = ((s', pol'), Inr () :: (unit, unit) ExecPolicyUpdateError + unit)
     \<and> explicitly_allowed alist_multimap None None pol' [lit ''make'']"
proof -
  let ?a = "\<lparr>amendment_command = [lit ''make'']\<rparr>"
  let ?json = "\<lambda>t. Inr (quoted t) :: unit + str"
  let ?path = "default_policy_path [RootDir]"
  have parent: "path_parent ?path = Some [RootDir, Normal (lit ''rules'')]" by code_simp
  have append: "\<exists>s'. blocking_append_allow_prefix_rule ?json mem_amend_fs ?path [lit ''make''] Map.empty
      = (s', Inr () :: unit AmendError + unit)"
    by (simp add: blocking_append_allow_prefix_rule_def append_rule_line_def append_locked_line_def then_do_def
          mem_amend_fs_def parent)
  then obtain s' pol' where upd: "append_amendment_and_update ?json mem_amend_fs alist_multimap None None [RootDir] ?a
        (Map.empty, sample_rules) = ((s', pol'), Inr () :: (unit, unit) ExecPolicyUpdateError + unit)"
    by (cases "already_allowed alist_multimap None None sample_rules [lit ''make'']")
       (auto simp: append_amendment_and_update_def add_prefix_rule_def)
  have json: "nl \<notin> set (json_array js)" if "json_tokens ?json (amendment_command ?a) = Inr js" for js
  proof -
    have "js = [quoted (lit ''make'')]" using that by simp
    moreover have "nl \<notin> set (json_array [quoted (lit ''make'')])" by code_simp
    ultimately show ?thesis by simp
  qed
  from approved_amendment_is_remembered [OF alist_multimap_laws mem_amend_fs_lawful json upd] upd
  show ?thesis by auto
qed

end
