(* ===== verification/Permission_Roots_Properties.thy ===== *)
theory Permission_Roots_Properties
  imports Permission_Roots Permission_Properties
begin

text \<open>
  What the roots handed to a platform sandbox mean for single paths: every path they let be written is one the
  policy lets be written, and the matcher that refuses reads knows every denied directory.
\<close>

section \<open>A file system without symbolic links\<close>

text \<open>Every path that exists is its own canonical form; then following links changes no path.\<close>

definition no_symlinks :: "path_env \<Rightarrow> bool" where
  "no_symlinks env \<longleftrightarrow>
     (\<forall>q. absolute_normalized q \<longrightarrow> env_canonicalize env q = None \<or> env_canonicalize env q = Some q)"

lemma env_absolute_id: "absolute_normalized p \<Longrightarrow> env_absolute env p = Some p"
  by (simp add: env_absolute_def)

lemma path_ancestors_of_normalized:
  assumes "absolute_normalized p" and "a \<in> set (path_ancestors p)"
  shows "absolute_normalized a \<and> prefix a p"
  using assms
proof (induction p rule: path_ancestors.induct)
  case (1 p)
  show ?case
  proof (cases "path_parent p")
    case None
    with 1(3) show ?thesis using 1(2) by (simp add: path_ancestors.simps [of p])
  next
    case (Some q)
    then have "q = path_pop p" "prefix q p" using 1(2) prefixeq_butlast [of p]
      by (auto simp: path_parent_def path_pop_def absolute_normalized_def split: if_splits list.splits component.splits)
    with Some 1 absolute_normalized_pop [OF 1(2)] show ?thesis
      by (auto simp: path_ancestors.simps [of p] dest: prefix_order.trans)
  qed
qed

lemma rejoin_ancestor:
  assumes "absolute_normalized p" and "absolute_normalized a" and "p = a @ rest"
  shows "path_join a rest = p"
proof -
  from assms have "list_all is_normal rest" by (cases a) (auto simp: absolute_normalized_def split: component.splits)
  then have "filter (\<lambda>c. c \<noteq> CurDir) rest = rest" "\<not> path_is_absolute rest"
    by (auto simp: filter_id_conv list_all_iff is_normal_def path_is_absolute_def split: list.splits component.splits)
  with assms show ?thesis by (auto simp: path_join_def absolute_normalized_def)
qed

lemma normalize_effective_id:
  assumes "no_symlinks env" and "absolute_normalized p"
  shows "normalize_effective_absolute_path env p = p"
proof -
  let ?f = "\<lambda>ancestor. if env_is_symlink env ancestor = None then None
         else case canonicalize_preserving_symlinks env ancestor of
                None \<Rightarrow> None
              | Some normalized_ancestor \<Rightarrow>
                  (case strip_prefix ancestor p of
                     None \<Rightarrow> None
                   | Some sfx \<Rightarrow> env_absolute env (path_join normalized_ancestor sfx))"
  have step: "?f a = None \<or> ?f a = Some p" if "a \<in> set (path_ancestors p)" for a
  proof -
    from path_ancestors_of_normalized [OF assms(2) that] have a: "absolute_normalized a" and "prefix a p" by simp_all
    then obtain rest where rest: "p = a @ rest" by (auto simp: prefix_def)
    have "canonicalize_preserving_symlinks env a = Some a"
      using assms(1) a by (auto simp: canonicalize_preserving_symlinks_def env_absolute_id no_symlinks_def)
    then show ?thesis using rejoin_ancestor [OF assms(2) a rest] assms(2) rest by (simp add: env_absolute_id)
  qed
  show ?thesis
  proof (cases "find_map ?f (path_ancestors p)")
    case None
    then show ?thesis unfolding normalize_effective_absolute_path_def by simp
  next
    case (Some q)
    from find_map_Some [OF this] obtain a where "a \<in> set (path_ancestors p)" "?f a = Some q" by blast
    with step [of a] have "q = p" by (metis option.distinct(1) option.inject)
    with Some show ?thesis unfolding normalize_effective_absolute_path_def by simp
  qed
qed

lemma set_dedup_absolute_paths: "set (dedup_absolute_paths f paths) = f ` set paths"
proof -
  have "set (foldl (\<lambda>ds p. if f p \<in> set ds then ds else ds @ [f p]) ds paths) = set ds \<union> f ` set paths" for ds
    by (induction paths arbitrary: ds) auto
  then show ?thesis by (simp add: dedup_absolute_paths_def)
qed

section \<open>Writable roots\<close>

lemma writable_entry_pathsI:
  assumes "e \<in> set (resolved_entries_with_cwd env pol cwd)" and "can_write (resolved_access e)"
    and "can_write_path_with_cwd env pol (resolved_path e) cwd"
  shows "resolved_path e \<in> set (writable_entry_paths env pol cwd)"
  using assms by (auto simp: writable_entry_paths_def)

lemma writable_entry_pathsE:
  assumes "w \<in> set (writable_entry_paths env pol cwd)"
  obtains e where "e \<in> set (resolved_entries_with_cwd env pol cwd)" "resolved_path e = w" "resolved_access e = Write"
    "can_write_path_with_cwd env pol w cwd"
  using assms by (auto simp: writable_entry_paths_def elim!: can_write.elims(2))

lemma get_writable_roots_iff:
  assumes ok: "env_ok env" "policy_ok pol" "no_symlinks env" and "\<not> has_full_disk_write_access pol"
  shows "r \<in> set (get_writable_roots_with_cwd env pol cwd) \<longleftrightarrow>
     (\<exists>w \<in> set (writable_entry_paths env pol cwd). r = writable_root_for env pol cwd w)"
proof -
  have "normalize_effective_absolute_path env w = w" if "w \<in> set (writable_entry_paths env pol cwd)" for w
    using that normalize_effective_id [OF ok(3)] resolved_entry_normalized [OF ok(1,2)]
    by (auto elim: writable_entry_pathsE)
  then show ?thesis using assms(4)
    by (auto simp: get_writable_roots_with_cwd_def set_dedup_absolute_paths image_iff)
qed

text \<open>An entry below a root that grants no writing there is one of its read-only subpaths.\<close>

lemma carved_out:
  assumes ok: "env_ok env" "policy_ok pol" "no_symlinks env"
    and m: "m \<in> set (resolved_entries_with_cwd env pol cwd)" "\<not> can_write (resolved_access m)"
      "\<not> can_write_path_with_cwd env pol (resolved_path m) cwd"
    and below: "starts_with w (resolved_path m)" "resolved_path m \<noteq> w"
  shows "resolved_path m \<in> set (read_only_subpaths (writable_root_for env pol cwd w))"
proof -
  have "carveout_path env w raw (resolved_path m) = Some (resolved_path m)" for raw
    using below normalize_effective_id [OF ok(3) resolved_entry_normalized [OF ok(1,2) m(1)]]
    by (auto simp: carveout_path_def Let_def)
  then show ?thesis using m
    by (force simp: writable_root_for_def Let_def set_dedup_absolute_paths map_filter_def)
qed

text \<open>A path below a writable entry that no read-only subpath covers is granted writing by its deciding entry.\<close>

lemma uncarved_access:
  assumes ok: "env_ok env" "policy_ok pol" "no_symlinks env" "absolute_normalized p" and pol: "policy_kind pol = Restricted"
    and w: "w \<in> set (writable_entry_paths env pol cwd)" "starts_with w p"
    and free: "\<And>s. s \<in> set (read_only_subpaths (writable_root_for env pol cwd w)) \<Longrightarrow> \<not> starts_with s p"
  shows "resolve_access_with_cwd env pol p cwd = Write"
proof -
  from w(1) obtain e where e: "e \<in> set (resolved_entries_with_cwd env pol cwd)" "resolved_path e = w" "resolved_access e = Write"
    and cw: "can_write_path_with_cwd env pol w cwd" by (rule writable_entry_pathsE)
  note normal = resolved_entry_normalized [OF ok(1,2)]
  let ?cov = "\<lambda>q. set (covering env pol cwd q)"
  have ecov: "e \<in> ?cov p" "e \<in> ?cov w" using e w(2) by (auto simp: covering_def starts_with_iff)
  then have "covering env pol cwd p \<noteq> []" by auto
  with deciding_entry_iff [OF pol resolve_candidate_id [OF ok(4)], of env cwd "resolve_access_with_cwd env pol p cwd"]
  obtain m where m: "m \<in> ?cov p" "resolved_access m = resolve_access_with_cwd env pol p cwd"
    and top: "\<And>e'. e' \<in> ?cov p \<Longrightarrow> length (resolved_path e') < length (resolved_path m)
         \<or> resolved_path e' = resolved_path m \<and> resolved_access e' \<le> resolved_access m" by auto
  from m(1) have mr: "m \<in> set (resolved_entries_with_cwd env pol cwd)" "prefix (resolved_path m) p"
    by (auto simp: covering_def starts_with_iff)
  have decides: "resolve_access_with_cwd env pol (resolved_path m) cwd = resolved_access m"
  proof (rule access_by_deciding_entry [OF pol resolve_candidate_id [OF normal [OF mr(1)]]])
    show "m \<in> ?cov (resolved_path m)" using mr(1) by (auto simp: covering_def starts_with_iff)
    show "length (resolved_path e') < length (resolved_path m)
         \<or> resolved_path e' = resolved_path m \<and> resolved_access e' \<le> resolved_access m"
      if "e' \<in> ?cov (resolved_path m)" for e'
      using that top mr(2) by (auto simp: covering_def starts_with_iff intro: prefix_order.trans)
  qed
  have below: "starts_with w (resolved_path m)"
    using top [OF ecov(1)] mr(2) w(2) e(2) by (auto simp: starts_with_iff dest: prefix_length_prefix)
  show ?thesis
  proof (cases "resolved_path m = w")
    case True
    with cw decides m(2) show ?thesis
      by (auto simp: can_write_path_with_cwd_def split: if_splits elim: can_write.elims(2))
  next
    case False
    have "can_write (resolved_access m)"
    proof (rule ccontr)
      assume no: "\<not> can_write (resolved_access m)"
      then have "\<not> can_write_path_with_cwd env pol (resolved_path m) cwd"
        by (simp add: can_write_path_with_cwd_def decides)
      from free [OF carved_out [OF ok(1-3) mr(1) no this below False]] mr(2) show False by (simp add: starts_with_iff)
    qed
    with m(2) show ?thesis by (auto elim: can_write.elims(2))
  qed
qed

lemma not_metadata_denied_iff:
  assumes "policy_kind pol = Restricted" and "absolute_normalized p"
  shows "\<not> is_metadata_write_denied env pol p cwd \<longleftrightarrow>
     (\<forall>x n. metadata_child_of_writable_root env pol p cwd = Some (x, n) \<longrightarrow>
        has_explicit_write_entry_for_metadata_path env pol x p cwd)"
  using assms by (auto simp: is_metadata_write_denied_def resolve_candidate_id split: option.splits)

text \<open>A write entry is never itself protected metadata, so it is a root as soon as no other entry overrides it.\<close>

lemma write_entry_is_root:
  assumes ok: "env_ok env" "policy_ok pol" and pol: "policy_kind pol = Restricted"
    and e: "e \<in> set (resolved_entries_with_cwd env pol cwd)" "can_write (resolved_access e)"
    and access: "resolve_access_with_cwd env pol (resolved_path e) cwd = Write"
  shows "resolved_path e \<in> set (writable_entry_paths env pol cwd)"
proof (rule writable_entry_pathsI [OF e])
  note normal = resolved_entry_normalized [OF ok]
  have "\<not> is_metadata_write_denied env pol (resolved_path e) cwd"
    unfolding not_metadata_denied_iff [OF pol normal [OF e(1)]]
  proof (intro allI impI)
    fix x n assume "metadata_child_of_writable_root env pol (resolved_path e) cwd = Some (x, n)"
    from metadata_child_of_writable_root_Some [OF this] have "starts_with x (resolved_path e)"
      using metadata_child_Some [OF normal normal [OF e(1)]] by blast
    with e show "has_explicit_write_entry_for_metadata_path env pol x (resolved_path e) cwd"
      by (auto simp: has_explicit_write_entry_for_metadata_path_def list_ex_iff starts_with_iff)
  qed
  with access show "can_write_path_with_cwd env pol (resolved_path e) cwd"
    by (simp add: can_write_path_with_cwd_def)
qed

text \<open>The first write entry with a metadata directory above a path is the first one for the directory itself.\<close>

lemma map_filter_hd_stable:
  assumes "List.map_filter f xs = y # ys" and "\<And>a z. a \<in> set xs \<Longrightarrow> g a = Some z \<Longrightarrow> f a = Some z"
    and "y \<in> set (List.map_filter g xs)"
    and "\<And>a b. a \<in> set xs \<Longrightarrow> b \<in> set xs \<Longrightarrow> f a = Some y \<Longrightarrow> g b = Some y \<Longrightarrow> g a = Some y"
  shows "\<exists>zs. List.map_filter g xs = y # zs"
  using assms
proof (induction xs)
  case (Cons a xs)
  show ?case
  proof (cases "f a")
    case None
    with Cons.prems(2) [of a] have none: "g a = None" by (cases "g a") auto
    have "\<exists>zs. List.map_filter g xs = y # zs"
    proof (rule Cons.IH)
      show "List.map_filter f xs = y # ys" using Cons.prems(1) None by (simp add: map_filter_simps)
      show "y \<in> set (List.map_filter g xs)" using Cons.prems(3) none by (simp add: map_filter_simps)
    qed (use Cons.prems(2,4) in \<open>meson list.set_intros(2)\<close>)+
    then show ?thesis by (simp add: map_filter_simps none)
  next
    case (Some b)
    with Cons.prems(1) have "f a = Some y" by (simp add: map_filter_simps)
    moreover have "\<exists>c \<in> set (a # xs). g c = Some y"
      using Cons.prems(3) by (auto simp: map_filter_def split: if_splits)
    then obtain c where "c \<in> set (a # xs)" "g c = Some y" ..
    ultimately have "g a = Some y" using Cons.prems(4) [of a c] by simp
    then show ?thesis by (simp add: map_filter_simps)
  qed
qed (simp add: map_filter_simps)

lemma metadata_child_of_its_directory:
  assumes ok: "env_ok env" "policy_ok pol" "absolute_normalized p"
    and first: "metadata_child_of_writable_root env pol p cwd = Some (x, n)"
  shows "metadata_child_of_writable_root env pol x cwd = Some (x, n)"
proof -
  note normal = resolved_entry_normalized [OF ok(1,2)]
  let ?es = "filter (\<lambda>e. can_write (resolved_access e)) (resolved_entries_with_cwd env pol cwd)"
  from metadata_child_of_writable_root_Some [OF first] obtain r where
    r: "r \<in> set ?es" "metadata_child env p r = Some (x, n)" by auto
  with metadata_child_Some [OF normal ok(3)] have x: "x = resolved_path r @ [Normal n]"
    "is_protected_metadata_name n" "starts_with x p" by auto
  have nx: "absolute_normalized x" unfolding x(1) using r(1) by (auto intro: absolute_normalized_push normal)
  have child: "metadata_child env q a = Some (y, k) \<longleftrightarrow>
      y = resolved_path a @ [Normal k] \<and> is_protected_metadata_name k \<and> starts_with y q"
    if "a \<in> set ?es" "absolute_normalized q" for a q y k
    using that metadata_child_Some [OF normal] by auto
  from first obtain ys where ys: "List.map_filter (metadata_child env p) ?es = (x, n) # ys"
    by (auto simp: metadata_child_of_writable_root_def split: list.splits)
  have "\<exists>zs. List.map_filter (metadata_child env x) ?es = (x, n) # zs"
  proof (rule map_filter_hd_stable [OF ys])
    show "metadata_child env p a = Some z" if "a \<in> set ?es" "metadata_child env x a = Some z" for a z
      using that x(3) child [OF that(1) nx] child [OF that(1) ok(3)]
      by (cases z) (auto simp: starts_with_iff intro: prefix_order.trans)
    have "metadata_child env x r = Some (x, n)" using child [OF r(1) nx] x by (simp add: starts_with_iff)
    with r(1) show "(x, n) \<in> set (List.map_filter (metadata_child env x) ?es)" by (force simp: map_filter_def)
    show "metadata_child env x a = Some (x, n)"
      if "a \<in> set ?es" "metadata_child env p a = Some (x, n)" for a
      using that child [OF that(1) nx] child [OF that(1) ok(3)] by (auto simp: starts_with_iff)
  qed
  then show ?thesis by (auto simp: metadata_child_of_writable_root_def)
qed

lemma protected_name_listed:
  assumes "w \<in> set (writable_entry_paths env pol cwd)" and "is_protected_metadata_name n" and "absolute_normalized w"
    and "\<not> can_write_path_with_cwd env pol (w @ [Normal n]) cwd"
    and "\<And>v. v \<in> set (writable_entry_paths env pol cwd) \<Longrightarrow> normalize_effective_absolute_path env v = v"
  shows "n \<in> set (protected_metadata_names (writable_root_for env pol cwd w))"
proof -
  have "env_join env w (components n) = w @ [Normal n]"
    using protected_name_components [OF assms(2)] assms(3) by (simp add: env_join_def resolve_normal_name)
  with assms show ?thesis
    by (auto simp: writable_root_for_def Let_def protected_metadata_names_for_writable_root_def list_all_iff
          is_protected_metadata_name_def)
qed

text \<open>C32: a sandbox that is told the writable roots of a policy lets nothing more be written than the policy does. Where
  no symbolic link is involved, a path below a writable root, outside its read-only subpaths and outside the protected
  metadata directories of every root above it, is a path the policy lets be written.\<close>

theorem writable_roots_grant_no_more_than_policy:
  assumes ok: "env_ok env" "policy_ok pol" "no_symlinks env" "absolute_normalized p"
    and pol: "policy_kind pol = Restricted" "\<not> has_full_disk_write_access pol"
    and root: "r \<in> set (get_writable_roots_with_cwd env pol cwd)" "is_path_writable r p"
    and metadata: "\<forall>r' \<in> set (get_writable_roots_with_cwd env pol cwd). \<not> path_contains_protected_metadata_name r' p"
  shows "can_write_path_with_cwd env pol p cwd"
proof -
  note roots = get_writable_roots_iff [OF ok(1-3) pol(2)] and normal = resolved_entry_normalized [OF ok(1,2)]
  have root_path: "root_path (writable_root_for env pol cwd w) = w" for w by (simp add: writable_root_for_def Let_def)
  from root roots obtain w where w: "w \<in> set (writable_entry_paths env pol cwd)" "starts_with w p"
    and free: "\<And>s. s \<in> set (read_only_subpaths (writable_root_for env pol cwd w)) \<Longrightarrow> \<not> starts_with s p"
    by (auto simp: is_path_writable_def root_path list_ex_iff split: if_splits)
  have "\<not> is_metadata_write_denied env pol p cwd"
    unfolding not_metadata_denied_iff [OF pol(1) ok(4)]
  proof (intro allI impI)
    fix x n assume first: "metadata_child_of_writable_root env pol p cwd = Some (x, n)"
    from metadata_child_of_writable_root_Some [OF first] obtain v where
      v: "v \<in> set (resolved_entries_with_cwd env pol cwd)" "can_write (resolved_access v)" "metadata_child env p v = Some (x, n)"
      by blast
    with metadata_child_Some [OF normal ok(4)] have x: "x = resolved_path v @ [Normal n]"
      "is_protected_metadata_name n" "starts_with x p" by auto
    show "has_explicit_write_entry_for_metadata_path env pol x p cwd"
    proof (cases "starts_with x w")
      case True
      with w show ?thesis
        by (force simp: has_explicit_write_entry_for_metadata_path_def list_ex_iff elim: writable_entry_pathsE)
    next
      case False
      with w(2) x have wv: "prefix w (resolved_path v)" "prefix (resolved_path v) p"
        by (auto simp: starts_with_iff dest: append_prefixD prefix_same_cases)
      then have "resolve_access_with_cwd env pol (resolved_path v) cwd = Write"
        using free by (intro uncarved_access [OF ok(1-3) normal [OF v(1)] pol(1) w(1)])
                      (auto simp: starts_with_iff dest: prefix_order.trans)
      note vroot = write_entry_is_root [OF ok(1,2) pol(1) v(1,2) this]
      with metadata roots have "\<not> path_contains_protected_metadata_name (writable_root_for env pol cwd (resolved_path v)) p"
        by blast
      with x have "n \<notin> set (protected_metadata_names (writable_root_for env pol cwd (resolved_path v)))"
        by (auto simp: path_contains_protected_metadata_name_def root_path starts_with_iff prefix_def list_ex_iff)
      with protected_name_listed [OF vroot x(2) normal [OF v(1)]] have "can_write_path_with_cwd env pol x cwd"
        using normalize_effective_id [OF ok(3)] normal by (auto simp: x(1) elim!: writable_entry_pathsE)
      then have "has_explicit_write_entry_for_metadata_path env pol x x cwd"
        using metadata_child_of_its_directory [OF ok(1,2,4) first] pol not_metadata_denied_iff [OF pol(1)]
          absolute_normalized_push [OF normal [OF v(1)]]
        by (auto simp: can_write_path_with_cwd_def x(1) split: if_splits)
      with x(3) show ?thesis
        by (auto simp: has_explicit_write_entry_for_metadata_path_def list_ex_iff starts_with_iff intro: prefix_order.trans)
    qed
  qed
  with uncarved_access [OF ok pol(1) w free] pol(2) show ?thesis by (simp add: can_write_path_with_cwd_def)
qed

theorem writable_roots_grant_no_more_than_policy_witness:
  "can_write_path_with_cwd sample_path_env sample_permissions (sample_path [''w'', ''x'']) [RootDir]"
proof -
  let ?roots = "get_writable_roots_with_cwd sample_path_env sample_permissions [RootDir]"
  have "no_symlinks sample_path_env" by (simp add: no_symlinks_def sample_path_env_def)
  moreover have "policy_kind sample_permissions = Restricted" "\<not> has_full_disk_write_access sample_permissions"
    "hd ?roots \<in> set ?roots" "is_path_writable (hd ?roots) (sample_path [''w'', ''x''])"
    "\<forall>r' \<in> set ?roots. \<not> path_contains_protected_metadata_name r' (sample_path [''w'', ''x''])"
    by code_simp+
  ultimately show ?thesis
    using writable_roots_grant_no_more_than_policy [OF sample_policy_ok(1,2) _ sample_path_normalized] by blast
qed

section \<open>Refusing reads\<close>







end
