(* ===== verification/Permission_Transforms.thy ===== *)
theory Permission_Transforms
  imports Permission_Roots
begin

text \<open>
  Additional permissions: what a command asks for beyond its policy and what it is granted (\<^verbatim>\<open>AdditionalPermissionProfile\<close>
  of \<^verbatim>\<open>protocol/src/models.rs\<close>, and \<^verbatim>\<open>sandboxing/src/policy_transforms.rs\<close>). As in the matcher of denied reads, compiling
  and matching a glob pattern are arguments.
\<close>

section \<open>Additional permissions\<close>

record FileSystemPermissions =
  perm_entries :: "FileSystemSandboxEntry list"
  perm_glob_scan_max_depth :: "nat option"

type_synonym NetworkPermissions = "bool option"

record AdditionalPermissionProfile =
  add_network :: "NetworkPermissions option"
  add_file_system :: "FileSystemPermissions option"

definition fs_permissions_is_empty :: "FileSystemPermissions \<Rightarrow> bool" where
  "fs_permissions_is_empty p \<longleftrightarrow> perm_entries p = []"

definition additional_is_empty :: "AdditionalPermissionProfile \<Rightarrow> bool" where
  "additional_is_empty p \<longleftrightarrow> add_network p = None \<and> add_file_system p = None"

definition filter_option :: "('a \<Rightarrow> bool) \<Rightarrow> 'a option \<Rightarrow> 'a option" where
  "filter_option P m = Option.bind m (\<lambda>x. if P x then Some x else None)"

definition from_read_write_roots :: "path_buf list option \<Rightarrow> path_buf list option \<Rightarrow> FileSystemPermissions" where
  "from_read_write_roots read write_roots =
     \<lparr>perm_entries =
        (case read of Some r \<Rightarrow> map (\<lambda>p. mk_entry (AbsPath p) Read) r | None \<Rightarrow> [])
        @ (case write_roots of Some w \<Rightarrow> map (\<lambda>p. mk_entry (AbsPath p) Write) w | None \<Rightarrow> []),
      perm_glob_scan_max_depth = None\<rparr>"

fun legacy_roots_loop ::
  "FileSystemSandboxEntry list \<Rightarrow> path_buf list \<Rightarrow> path_buf list \<Rightarrow> (path_buf list \<times> path_buf list) option" where
  "legacy_roots_loop [] read write_roots = Some (read, write_roots)"
| "legacy_roots_loop (e # es) read write_roots =
     (case entry_path e of
        AbsPath p \<Rightarrow>
          (case entry_access e of
             Read \<Rightarrow> legacy_roots_loop es (read @ [p]) write_roots
           | Write \<Rightarrow> legacy_roots_loop es read (write_roots @ [p])
           | Deny \<Rightarrow> None)
      | _ \<Rightarrow> None)"

definition legacy_read_write_roots :: "FileSystemPermissions \<Rightarrow> (path_buf list option \<times> path_buf list option) option" where
  "legacy_read_write_roots p =
     (if perm_glob_scan_max_depth p \<noteq> None then None
      else map_option (\<lambda>(r, w). (if r = [] then None else Some r, if w = [] then None else Some w))
             (legacy_roots_loop (perm_entries p) [] []))"

section \<open>Normalising a request\<close>

fun normalize_entry_path :: "path_env \<Rightarrow> FileSystemPath \<Rightarrow> FileSystemPath" where
  "normalize_entry_path env (AbsPath p) =
     AbsPath (case Option.bind (canonicalize_preserving_symlinks env p) (env_absolute env) of Some q \<Rightarrow> q | None \<Rightarrow> p)"
| "normalize_entry_path env q = q"

fun normalize_entries ::
  "path_env \<Rightarrow> FileSystemSandboxEntry list \<Rightarrow> FileSystemSandboxEntry list \<Rightarrow> str + FileSystemSandboxEntry list" where
  "normalize_entries env [] entries = Inr entries"
| "normalize_entries env (e # es) entries =
     (if (case entry_path e of GlobPattern _ \<Rightarrow> True | _ \<Rightarrow> False) \<and> entry_access e \<noteq> Deny
      then Inl (lit ''glob file system permissions only support deny-read entries'')
      else normalize_entries env es
             (push_unique entries (mk_entry (normalize_entry_path env (entry_path e)) (entry_access e))))"

definition normalize_additional_permissions ::
  "path_env \<Rightarrow> AdditionalPermissionProfile \<Rightarrow> str + AdditionalPermissionProfile" where
  "normalize_additional_permissions env p =
     (let network = filter_option (\<lambda>n. n \<noteq> None) (add_network p)
      in case add_file_system p of
           None \<Rightarrow> Inr \<lparr>add_network = network, add_file_system = None\<rparr>
         | Some f \<Rightarrow>
             bind_result (normalize_entries env (perm_entries f) [])
               (\<lambda>entries. Inr \<lparr>add_network = network,
                   add_file_system = filter_option (\<lambda>x. \<not> fs_permissions_is_empty x) (Some (f\<lparr>perm_entries := entries\<rparr>))\<rparr>))"

section \<open>Merging\<close>

datatype GlobScanDepth = Bounded nat | Unbounded

definition effective_glob_scan_depth :: "FileSystemSandboxEntry list \<Rightarrow> nat option \<Rightarrow> GlobScanDepth option" where
  "effective_glob_scan_depth entries depth =
     (if list_ex (\<lambda>e. entry_access e = Deny \<and> (case entry_path e of GlobPattern _ \<Rightarrow> True | _ \<Rightarrow> False)) entries
      then Some (case depth of Some d \<Rightarrow> Bounded d | None \<Rightarrow> Unbounded)
      else None)"

definition merge_glob_scan_max_depth ::
  "FileSystemSandboxEntry list \<Rightarrow> nat option \<Rightarrow> FileSystemSandboxEntry list \<Rightarrow> nat option \<Rightarrow> nat option" where
  "merge_glob_scan_max_depth left_entries left_depth right_entries right_depth =
     (case (effective_glob_scan_depth left_entries left_depth, effective_glob_scan_depth right_entries right_depth) of
        (Some Unbounded, _) \<Rightarrow> None
      | (_, Some Unbounded) \<Rightarrow> None
      | (Some (Bounded l), Some (Bounded r)) \<Rightarrow> Some (max l r)
      | (Some (Bounded d), None) \<Rightarrow> Some d
      | (None, Some (Bounded d)) \<Rightarrow> Some d
      | (None, None) \<Rightarrow> None)"

definition merge_permission_entries ::
  "FileSystemSandboxEntry list \<Rightarrow> FileSystemSandboxEntry list \<Rightarrow> FileSystemSandboxEntry list" where
  "merge_permission_entries base permissions = foldl push_unique [] (base @ permissions)"

definition merge_permission_profiles ::
  "AdditionalPermissionProfile option \<Rightarrow> AdditionalPermissionProfile option \<Rightarrow> AdditionalPermissionProfile option" where
  "merge_permission_profiles base permissions =
     (case permissions of
        None \<Rightarrow> base
      | Some p \<Rightarrow>
          (case base of
             None \<Rightarrow> filter_option (\<lambda>x. \<not> additional_is_empty x) (Some p)
           | Some b \<Rightarrow>
               filter_option (\<lambda>x. \<not> additional_is_empty x)
                 (Some \<lparr>add_network =
                          (if add_network b = Some (Some True) \<or> add_network p = Some (Some True)
                           then Some (Some True) else None),
                        add_file_system =
                          (case (add_file_system b, add_file_system p) of
                             (Some bf, Some pf) \<Rightarrow>
                               filter_option (\<lambda>x. \<not> fs_permissions_is_empty x)
                                 (Some \<lparr>perm_entries = merge_permission_entries (perm_entries bf) (perm_entries pf),
                                        perm_glob_scan_max_depth =
                                          non_zero (merge_glob_scan_max_depth (perm_entries bf) (perm_glob_scan_max_depth bf)
                                            (perm_entries pf) (perm_glob_scan_max_depth pf))\<rparr>)
                           | (Some bf, None) \<Rightarrow> Some bf
                           | (None, Some pf) \<Rightarrow> Some pf
                           | (None, None) \<Rightarrow> None)\<rparr>)))"

section \<open>Intersecting a request with a grant\<close>

definition resolve_permission_path :: "path_env \<Rightarrow> FileSystemPath \<Rightarrow> path_buf \<Rightarrow> path_buf option" where
  "resolve_permission_path env p cwd =
     (case p of
        AbsPath q \<Rightarrow> Some q
      | GlobPattern _ \<Rightarrow> None
      | Special v \<Rightarrow>
          (case v of
             Root \<Rightarrow> env_absolute env (last (path_ancestors cwd))
           | ProjectRoots subpath \<Rightarrow>
               map_option (\<lambda>c. case subpath of Some s \<Rightarrow> env_join env c s | None \<Rightarrow> c) (env_absolute env cwd)
           | Tmpdir \<Rightarrow>
               (case env_tmpdir env of
                  None \<Rightarrow> None
                | Some t \<Rightarrow> if t = [] then None else env_absolute env (components t))
           | SlashTmp \<Rightarrow> filter_option (env_is_dir env) (env_absolute env slash_tmp_path)
           | Minimal \<Rightarrow> None
           | UnknownPath _ _ \<Rightarrow> None))"

fun access_covers :: "FileSystemAccessMode \<Rightarrow> FileSystemAccessMode \<Rightarrow> bool" where
  "access_covers requested Read = can_read requested"
| "access_covers requested Write = can_write requested"
| "access_covers requested Deny = False"

definition paths_overlap :: "path_buf \<Rightarrow> path_buf \<Rightarrow> bool" where
  "paths_overlap left right \<longleftrightarrow> starts_with right left \<or> starts_with left right"

definition is_glob_char :: "nat \<Rightarrow> bool" where
  "is_glob_char c \<longleftrightarrow> c \<in> set (lit ''*?[]'')"

definition glob_static_prefix_path :: "path_env \<Rightarrow> str \<Rightarrow> path_buf \<Rightarrow> path_buf option" where
  "glob_static_prefix_path env pattern cwd =
     (let resolved = path_display (resolve_path_against_base (env_home env) pattern cwd);
          pre = takeWhile (\<lambda>c. \<not> is_glob_char c) resolved
      in if pre = resolved then env_absolute env (components resolved)
         else if pre = [] then None
         else if last pre = slash \<or> last pre = of_char (CHR 0x5C) then env_absolute env (components pre)
         else Option.bind (path_parent (components pre)) (env_absolute env))"

fun materialize_cwd_dependent_entry :: "path_env \<Rightarrow> FileSystemSandboxEntry \<Rightarrow> path_buf \<Rightarrow> FileSystemSandboxEntry" where
  "materialize_cwd_dependent_entry env e cwd =
     (case entry_path e of
        Special (ProjectRoots _) \<Rightarrow>
          (case resolve_permission_path env (entry_path e) cwd of
             Some p \<Rightarrow> mk_entry (AbsPath p) (entry_access e)
           | None \<Rightarrow> e)
      | GlobPattern pattern \<Rightarrow>
          mk_entry (GlobPattern (path_display (resolve_path_against_base (env_home env) pattern cwd))) (entry_access e)
      | _ \<Rightarrow> e)"

definition granted_file_system_entry_within_request ::
  "('g \<Rightarrow> path_buf \<Rightarrow> bool) \<Rightarrow> path_env \<Rightarrow> FileSystemPermissions \<Rightarrow> FileSystemSandboxPolicy \<Rightarrow> 'g ReadDenyMatcher option
   \<Rightarrow> FileSystemSandboxEntry \<Rightarrow> path_buf \<Rightarrow> bool" where
  "granted_file_system_entry_within_request is_match env requested requested_policy matcher granted_entry cwd =
     (if \<not> can_read (entry_access granted_entry) then False
      else case resolve_permission_path env (entry_path granted_entry) cwd of
             Some p \<Rightarrow>
               if (case matcher of Some m \<Rightarrow> is_read_denied is_match env m p | None \<Rightarrow> False) then False
               else access_covers (resolve_access_with_cwd env requested_policy p cwd) (entry_access granted_entry)
           | None \<Rightarrow>
               list_ex (\<lambda>e. access_covers (entry_access e) (entry_access granted_entry)
                             \<and> entry_path e = entry_path granted_entry) (perm_entries requested))"

definition deny_entry_constrains_accepted_grant ::
  "path_env \<Rightarrow> FileSystemSandboxEntry \<Rightarrow> FileSystemSandboxEntry list \<Rightarrow> path_buf \<Rightarrow> bool" where
  "deny_entry_constrains_accepted_grant env deny_entry accepted_entries cwd =
     list_ex (\<lambda>e.
         case resolve_permission_path env (entry_path e) cwd of
           None \<Rightarrow> False
         | Some grant_path \<Rightarrow>
             (case (case entry_path deny_entry of
                      GlobPattern pattern \<Rightarrow> glob_static_prefix_path env pattern cwd
                    | _ \<Rightarrow> resolve_permission_path env (entry_path deny_entry) cwd) of
                Some p \<Rightarrow> paths_overlap p grant_path
              | None \<Rightarrow> False))
       (filter (\<lambda>e. can_read (entry_access e)) accepted_entries)"

text \<open>The retained entries and the output with the new ones among them appended.\<close>

definition retained_deny_entries ::
  "path_env \<Rightarrow> FileSystemSandboxEntry list \<Rightarrow> FileSystemSandboxEntry list \<Rightarrow> path_buf \<Rightarrow> FileSystemSandboxEntry list" where
  "retained_deny_entries env source_entries accepted_entries cwd =
     map (\<lambda>e. materialize_cwd_dependent_entry env e cwd)
       (filter (\<lambda>e. entry_access e = Deny \<and> deny_entry_constrains_accepted_grant env e accepted_entries cwd) source_entries)"

definition retain_constraining_deny_entries ::
  "path_env \<Rightarrow> FileSystemSandboxEntry list \<Rightarrow> FileSystemSandboxEntry list \<Rightarrow> path_buf \<Rightarrow> FileSystemSandboxEntry list
   \<Rightarrow> FileSystemSandboxEntry list \<times> FileSystemSandboxEntry list" where
  "retain_constraining_deny_entries env source_entries accepted_entries cwd output_entries =
     (let retained = retained_deny_entries env source_entries accepted_entries cwd
      in (foldl push_unique output_entries retained, retained))"

definition accepted_grant_entries ::
  "(str \<Rightarrow> str + 'g) \<Rightarrow> ('g \<Rightarrow> path_buf \<Rightarrow> bool) \<Rightarrow> path_env \<Rightarrow> FileSystemPermissions \<Rightarrow> FileSystemPermissions \<Rightarrow> path_buf
   \<Rightarrow> FileSystemSandboxEntry list" where
  "accepted_grant_entries build_glob is_match env requested granted cwd =
     (let requested_policy = restricted (perm_entries requested);
          matcher = Option.bind (read_deny_new build_glob env requested_policy cwd) (\<lambda>m. m)
      in foldl push_unique []
           (map (\<lambda>e. materialize_cwd_dependent_entry env e cwd)
             (filter (\<lambda>e. granted_file_system_entry_within_request is_match env requested requested_policy matcher e cwd)
               (perm_entries granted))))"

definition intersect_file_system ::
  "(str \<Rightarrow> str + 'g) \<Rightarrow> ('g \<Rightarrow> path_buf \<Rightarrow> bool) \<Rightarrow> path_env \<Rightarrow> FileSystemPermissions \<Rightarrow> FileSystemPermissions \<Rightarrow> path_buf
   \<Rightarrow> FileSystemPermissions" where
  "intersect_file_system build_glob is_match env requested granted cwd =
     (let accepted = accepted_grant_entries build_glob is_match env requested granted cwd;
          (entries1, requested_retained) =
            retain_constraining_deny_entries env (perm_entries requested) accepted cwd accepted;
          (entries2, granted_retained) =
            retain_constraining_deny_entries env (perm_entries granted) accepted cwd entries1
      in \<lparr>perm_entries = entries2,
          perm_glob_scan_max_depth =
            non_zero (merge_glob_scan_max_depth requested_retained (perm_glob_scan_max_depth requested)
                       granted_retained (perm_glob_scan_max_depth granted))\<rparr>)"

definition intersect_permission_profiles ::
  "(str \<Rightarrow> str + 'g) \<Rightarrow> ('g \<Rightarrow> path_buf \<Rightarrow> bool) \<Rightarrow> path_env \<Rightarrow> AdditionalPermissionProfile
   \<Rightarrow> AdditionalPermissionProfile \<Rightarrow> path_buf \<Rightarrow> AdditionalPermissionProfile" where
  "intersect_permission_profiles build_glob is_match env requested granted cwd =
     \<lparr>add_network =
        (if add_network requested = Some (Some True) \<and> add_network granted = Some (Some True)
         then Some (Some True) else None),
      add_file_system =
        filter_option (\<lambda>x. \<not> fs_permissions_is_empty x)
          (map_option (\<lambda>r. intersect_file_system build_glob is_match env r
               (case add_file_system granted of
                  Some g \<Rightarrow> g
                | None \<Rightarrow> \<lparr>perm_entries = [], perm_glob_scan_max_depth = None\<rparr>) cwd)
             (add_file_system requested))\<rparr>"

section \<open>The effective policy\<close>

definition merge_file_system_policy_with_additional_permissions ::
  "FileSystemSandboxPolicy \<Rightarrow> FileSystemPermissions \<Rightarrow> FileSystemSandboxPolicy" where
  "merge_file_system_policy_with_additional_permissions pol additional =
     (if policy_kind pol = Restricted then
        pol\<lparr>policy_entries := foldl push_unique (policy_entries pol) (perm_entries additional),
            glob_scan_max_depth :=
              merge_glob_scan_max_depth (policy_entries pol) (glob_scan_max_depth pol)
                (perm_entries additional) (perm_glob_scan_max_depth additional)\<rparr>
      else pol)"

definition effective_file_system_sandbox_policy ::
  "FileSystemSandboxPolicy \<Rightarrow> AdditionalPermissionProfile option \<Rightarrow> FileSystemSandboxPolicy" where
  "effective_file_system_sandbox_policy pol additional =
     (case Option.bind additional add_file_system of
        None \<Rightarrow> pol
      | Some f \<Rightarrow>
          if fs_permissions_is_empty f then pol else merge_file_system_policy_with_additional_permissions pol f)"

definition merge_network_access :: "bool \<Rightarrow> AdditionalPermissionProfile \<Rightarrow> bool" where
  "merge_network_access base additional \<longleftrightarrow> base \<or> Option.bind (add_network additional) (\<lambda>n. n) = Some True"

definition effective_network_sandbox_policy ::
  "NetworkSandboxPolicy \<Rightarrow> AdditionalPermissionProfile option \<Rightarrow> NetworkSandboxPolicy" where
  "effective_network_sandbox_policy network_policy additional =
     (case additional of
        Some p \<Rightarrow> if merge_network_access (network_is_enabled network_policy) p then NetEnabled else NetRestricted
      | None \<Rightarrow> network_policy)"

text \<open>None is the panic of \<^verbatim>\<open>from_runtime_permissions_with_enforcement\<close>.\<close>

definition effective_permission_profile ::
  "PermissionProfile \<Rightarrow> AdditionalPermissionProfile option \<Rightarrow> PermissionProfile option" where
  "effective_permission_profile profile additional =
     (case to_runtime_permissions profile of
        (pol, net) \<Rightarrow>
          from_runtime_permissions_with_enforcement (enforcement profile)
            (effective_file_system_sandbox_policy pol additional) (effective_network_sandbox_policy net additional))"

definition should_require_platform_sandbox :: "FileSystemSandboxPolicy \<Rightarrow> NetworkSandboxPolicy \<Rightarrow> bool \<Rightarrow> bool" where
  "should_require_platform_sandbox pol network_policy has_managed_network_requirements =
     (if has_managed_network_requirements then True
      else if \<not> network_is_enabled network_policy then policy_kind pol \<noteq> ExternalSandbox
      else policy_kind pol = Restricted \<and> \<not> has_full_disk_write_access pol)"

text \<open>The permission a patch asks for (\<^verbatim>\<open>core/src/tools/handlers/apply_patch.rs\<close>): writing the directories of the paths it
  names that are not writable yet.\<close>

definition write_permissions_for_paths ::
  "path_env \<Rightarrow> path_buf list \<Rightarrow> FileSystemSandboxPolicy \<Rightarrow> path_buf \<Rightarrow> AdditionalPermissionProfile option" where
  "write_permissions_for_paths env file_paths pol cwd =
     (let parents = map (\<lambda>p. case path_parent p of Some q \<Rightarrow> q | None \<Rightarrow> p) file_paths;
          needed = remdups_adj (sort (filter (\<lambda>p. \<not> can_write_path_with_cwd env pol p cwd) parents))
      in case those (map (env_absolute env) needed) of
           None \<Rightarrow> None
         | Some write_paths \<Rightarrow>
             if write_paths = [] then None
             else (case normalize_additional_permissions env
                          \<lparr>add_network = None, add_file_system = Some (from_read_write_roots (Some []) (Some write_paths))\<rparr> of
                     Inr p \<Rightarrow> Some p
                   | Inl _ \<Rightarrow> None))"

end
