(* ===== verification/Permission_Transforms_Properties.thy ===== *)
theory Permission_Transforms_Properties
  imports Permission_Transforms Permission_Roots_Properties
begin

text \<open>
  What additional permissions can add: a command that asks for more than its policy gets, for reading, at most what it asked
  for and what was granted.
\<close>

section \<open>The entries that cover a path\<close>



definition leads :: "(path_buf \<times> FileSystemAccessMode) set \<Rightarrow> path_buf \<Rightarrow> FileSystemAccessMode \<Rightarrow> bool" where
  "leads C d a \<longleftrightarrow> (d, a) \<in> C \<and> (\<forall>(d', a') \<in> C. length d' < length d \<or> d' = d \<and> a' \<le> a)"





lemma leads_unique: "leads C d a \<Longrightarrow> leads C d' a' \<Longrightarrow> d = d' \<and> a = a'"
  by (fastforce simp: leads_def)




section \<open>Resolving the entries of a request\<close>



lemma set_push_unique [simp]: "set (push_unique xs x) = insert x (set xs)"
  by (auto simp: push_unique_def)

lemma set_foldl_push_unique [simp]: "set (foldl push_unique acc xs) = set acc \<union> set xs"
  by (induction xs arbitrary: acc) auto


section \<open>The intersection\<close>








section \<open>The effective policy\<close>









text \<open>For writing this fails: an entry of the request that asks for reading only, below one that asks for writing, is neither
  accepted nor kept, so a grant of the whole directory makes it writable.\<close>

lemma intersection_writes_beyond_request:
  "\<not> can_write_path_with_cwd sample_path_env
     (restricted [mk_entry (AbsPath (sample_path [''d''])) Write, mk_entry (AbsPath (sample_path [''d'', ''r''])) Read])
     (sample_path [''d'', ''r'', ''x'']) [RootDir]"
  "can_write_path_with_cwd sample_path_env
     (restricted (perm_entries (intersect_file_system (\<lambda>_. Inl []) (\<lambda>_ _. False) sample_path_env
        \<lparr>perm_entries = [mk_entry (AbsPath (sample_path [''d''])) Write, mk_entry (AbsPath (sample_path [''d'', ''r''])) Read],
         perm_glob_scan_max_depth = None\<rparr>
        \<lparr>perm_entries = [mk_entry (AbsPath (sample_path [''d''])) Write], perm_glob_scan_max_depth = None\<rparr> [RootDir])))
     (sample_path [''d'', ''r'', ''x'']) [RootDir]"
  by code_simp+

end
