(* ===== verification/Ordered_Collections.thy ===== *)
theory Ordered_Collections
  imports Prelude "HOL-Library.AList" "HOL-Library.List_Lexorder"
begin

text \<open>
  The ordered collections of the Rust standard library as the sources use them: \<^verbatim>\<open>binary_search\<close> on a
  sorted slice, and \<^verbatim>\<open>BTreeMap\<close> as the association list its iterator yields, in ascending order of
  the keys. Strings compare lexicographically, as their UTF-8 bytes do.
\<close>

section \<open>Binary search\<close>

text \<open>The range \<open>[base, base + len)\<close> is halved until one element is left.\<close>

fun search_from :: "'a :: linorder list \<Rightarrow> 'a \<Rightarrow> nat \<Rightarrow> nat \<Rightarrow> nat" where
  "search_from xs x base len =
     (if len \<le> 1 then base
      else let half = len div 2; mid = base + half
           in search_from xs x (if x < xs ! mid then base else mid) (len - half))"

declare search_from.simps [simp del]

definition binary_search_ok :: "'a :: linorder list \<Rightarrow> 'a \<Rightarrow> bool" where
  "binary_search_ok xs x \<longleftrightarrow> xs \<noteq> [] \<and> xs ! search_from xs x 0 (length xs) = x"

lemma search_from_bounds:
  "0 < len \<Longrightarrow> base \<le> search_from xs x base len \<and> search_from xs x base len < base + len"
proof (induction xs x base len rule: search_from.induct)
  case (1 xs x base len)
  show ?case
  proof (cases "len \<le> 1")
    case False
    have "len div 2 < len" "0 < len - len div 2" using False by auto
    with False 1 show ?thesis
      by (subst (1 2) search_from.simps) (fastforce simp: Let_def)
  qed (use 1 in \<open>simp add: search_from.simps\<close>)
qed

text \<open>On a sorted list the element that is left bounds the sought one from below whenever some element
  of the range does.\<close>

lemma search_from_finds:
  "sorted xs \<Longrightarrow> base + len \<le> length xs \<Longrightarrow> x \<in> set (take len (drop base xs)) \<Longrightarrow>
   xs ! search_from xs x base len = x"
proof (induction xs x base len rule: search_from.induct)
  case (1 xs x base len)
  from "1.prems"(3) obtain i where i: "i < len" "xs ! (base + i) = x"
    using "1.prems"(2) by (auto simp: in_set_conv_nth)
  show ?case
  proof (cases "len \<le> 1")
    case True
    with i have "i = 0" by simp
    with True i show ?thesis by (simp add: search_from.simps)
  next
    case False
    define half where "half = len div 2"
    define base' where "base' = (if x < xs ! (base + half) then base else base + half)"
    have half: "0 < half" "half < len" "half \<le> len - half" using False by (auto simp: half_def)
    have step: "search_from xs x base len = search_from xs x base' (len - half)"
      using False by (simp add: search_from.simps [of xs x base len] half_def base'_def Let_def)
    have bound: "base' + (len - half) \<le> length xs"
      using "1.prems"(2) half by (auto simp: base'_def)
    have "\<exists>j. j < len - half \<and> xs ! (base' + j) = x"
    proof (cases "x < xs ! (base + half)")
      case True
      have "i < half"
      proof (rule ccontr)
        assume "\<not> i < half"
        then have "xs ! (base + half) \<le> xs ! (base + i)"
          using "1.prems"(1,2) i by (intro sorted_nth_mono) auto
        with True i show False by simp
      qed
      with True i half show ?thesis by (intro exI [of _ i]) (simp add: base'_def)
    next
      case below: False
      show ?thesis
      proof (cases "half \<le> i")
        case True
        with below i half show ?thesis
          by (intro exI [of _ "i - half"]) (simp add: base'_def)
      next
        case False
        then have "xs ! (base + i) \<le> xs ! (base + half)"
          using "1.prems"(1,2) half by (intro sorted_nth_mono) auto
        with below i half show ?thesis by (intro exI [of _ 0]) (simp add: base'_def)
      qed
    qed
    with bound have "x \<in> set (take (len - half) (drop base' xs))"
      by (force simp: in_set_conv_nth)
    from "1.IH" [OF False half_def refl, folded base'_def, OF "1.prems"(1) bound this]
    show ?thesis by (simp add: step)
  qed
qed

lemma binary_search_ok_iff:
  assumes "sorted xs" shows "binary_search_ok xs x \<longleftrightarrow> x \<in> set xs"
proof
  assume "binary_search_ok xs x"
  then show "x \<in> set xs"
    using search_from_bounds [of "length xs" 0 xs x] by (auto simp: binary_search_ok_def in_set_conv_nth)
next
  assume "x \<in> set xs"
  with search_from_finds [OF assms, of 0 "length xs" x] show "binary_search_ok xs x"
    by (auto simp: binary_search_ok_def)
qed

section \<open>Ordered maps\<close>

text \<open>\<^verbatim>\<open>BTreeMap::insert\<close>; \<^verbatim>\<open>get\<close> is \<open>map_of\<close>, and an update through \<^verbatim>\<open>get_mut\<close> is \<open>AList.update\<close>.\<close>

fun bt_insert :: "'k :: linorder \<Rightarrow> 'v \<Rightarrow> ('k \<times> 'v) list \<Rightarrow> ('k \<times> 'v) list" where
  "bt_insert k v [] = [(k, v)]"
| "bt_insert k v ((k', v') # m) =
     (if k < k' then (k, v) # (k', v') # m
      else if k = k' then (k, v) # m
      else (k', v') # bt_insert k v m)"

definition bt_ok :: "('k :: linorder \<times> 'v) list \<Rightarrow> bool" where
  "bt_ok m \<longleftrightarrow> sorted_wrt (<) (map fst m)"

lemma keys_bt_insert: "fst ` set (bt_insert k v m) = insert k (fst ` set m)"
  by (induction k v m rule: bt_insert.induct) (simp_all add: insert_commute)

lemma map_of_bt_insert: "bt_ok m \<Longrightarrow> map_of (bt_insert k v m) = (map_of m)(k \<mapsto> v)"
proof (induction m)
  case (Cons e m)
  obtain k' v' where e: "e = (k', v')" by fastforce
  with Cons.prems have "bt_ok m" "\<And>y. y \<in> set (map fst m) \<Longrightarrow> k' < y" by (auto simp: bt_ok_def)
  with Cons.IH e show ?case by (auto simp: fun_eq_iff)
qed simp

lemma bt_ok_insert: "bt_ok m \<Longrightarrow> bt_ok (bt_insert k v m)"
proof (induction m)
  case (Cons e m)
  obtain k' v' where e: "e = (k', v')" by fastforce
  with Cons.prems have m: "bt_ok m" "\<And>y. y \<in> fst ` set m \<Longrightarrow> k' < y" by (auto simp: bt_ok_def)
  have "bt_ok (bt_insert k v m)" using Cons.IH m by simp
  moreover have "k' < k \<Longrightarrow> y \<in> fst ` set (bt_insert k v m) \<Longrightarrow> k' < y" for y
    using m by (auto simp: keys_bt_insert)
  ultimately show ?case using e m by (fastforce simp: bt_ok_def)
qed (simp add: bt_ok_def)

lemma bt_ok_distinct: "bt_ok m \<Longrightarrow> distinct (map fst m)"
  using strict_sorted_iff by (auto simp: bt_ok_def)

lemma bt_ok_update: "bt_ok m \<Longrightarrow> map_of m k = Some w \<Longrightarrow> bt_ok (AList.update k v m)"
  using image_eqI [of k fst, OF _ map_of_SomeD [of m k w]] by (simp add: bt_ok_def update_keys)

text \<open>Lowering one counter of a map of counters lowers their sum.\<close>

lemma sum_update_pred:
  fixes m :: "('k \<times> nat) list"
  shows "map_of m k = Some (Suc n) \<Longrightarrow> sum_list (map snd (AList.update k n m)) < sum_list (map snd m)"
  by (induction m) (auto split: if_splits)

end
