(* ===== verification/Workflow_Spec.thy ===== *)
theory Workflow_Spec
  imports Ordered_Collections
begin

text \<open>
  The declarative workflow specification of the workflows crate: the types of
  \<^verbatim>\<open>codex-rs/workflows/src/spec.rs\<close>, the errors of \<^verbatim>\<open>error.rs\<close>, the approved names of
  \<^verbatim>\<open>ancient_names.rs\<close> and the prompt of \<^verbatim>\<open>branch_prompt.rs\<close>.

  A struct is a record whose fields carry the struct's initials, since several structs share field
  names. The unsigned integers are \<open>nat\<close>: the code only compares them. A field of type
  \<^verbatim>\<open>serde_yaml::Value\<close> is a \<open>yaml_value\<close> whose numbers are a type parameter.
\<close>

section \<open>YAML values\<close>

datatype 'n yaml_value =
    YNull
  | YBool bool
  | YNumber 'n
  | YString str
  | YSequence "'n yaml_value list"
  | YMapping "('n yaml_value \<times> 'n yaml_value) list"
  | YTagged str "'n yaml_value"

section \<open>The specification\<close>

datatype WorkflowStatus = Draft | NeedsClarification | Blocked

record WorkflowFixture =
  wx_purpose :: str
  wx_executable :: bool
  wx_data :: str
  wx_generated_at :: "str option"

datatype WorkflowModelRouter = OpenRouter

datatype WorkflowModelRoutingCapability =
  AgentWorker | CodeEdit | CodeReview | Planning | Release | Verification

record WorkflowModelRoutingContext =
  rx_task_id :: "str option"
  rx_task_title :: "str option"
  rx_project_path :: "str option"
  rx_tags :: "str list"
  rx_auth_profile :: "str option"
  rx_approval_policy :: "str option"
  rx_permission_profile :: "str option"
  rx_worktree_mode :: "str option"

record WorkflowModelRoutingConstraints =
  rc_allowed_model_gateways :: "str list"
  rc_preferred_model_gateways :: "str list"
  rc_allowed_providers :: "str list"
  rc_preferred_providers :: "str list"
  rc_allowed_models :: "str list"
  rc_preferred_models :: "str list"
  rc_allowed_reasoning :: "str list"
  rc_preferred_reasoning :: "str list"
  rc_allowed_service_tiers :: "str list"
  rc_preferred_service_tiers :: "str list"
  rc_allowed_auth_profiles :: "str list"
  rc_allowed_approval_policies :: "str list"
  rc_allowed_permission_profiles :: "str list"
  rc_allowed_worktree_modes :: "str list"
  rc_max_context_tokens :: "nat option"
  rc_budget_usd :: "str option"
  rc_fallback_required :: bool

record WorkflowModelRoutingRequest =
  rr_requested_capability :: WorkflowModelRoutingCapability
  rr_context :: WorkflowModelRoutingContext
  rr_constraints :: WorkflowModelRoutingConstraints

datatype WorkflowModelRoutingDecisionStatus = Selected | Fallback | Error

record WorkflowModelRoutingFallback =
  rf_used :: bool
  rf_reason :: "str option"

record WorkflowModelRoutingError =
  re_code :: str
  re_message :: str

record WorkflowModelRoutingDecision =
  rd_status :: WorkflowModelRoutingDecisionStatus
  rd_model_gateway :: "str option"
  rd_provider :: "str option"
  rd_model :: "str option"
  rd_reasoning :: "str option"
  rd_service_tier :: "str option"
  rd_auth_profile :: "str option"
  rd_explanation :: "str option"
  rd_fallback :: "WorkflowModelRoutingFallback option"
  rd_warnings :: "str list"
  rd_errors :: "WorkflowModelRoutingError list"

record WorkflowModelRoutingContract =
  ro_contract_version :: str
  ro_router :: WorkflowModelRouter
  ro_request :: WorkflowModelRoutingRequest
  ro_decision :: "WorkflowModelRoutingDecision option"

record WorkflowModelRoute =
  mr_model_gateway :: str
  mr_provider :: str
  mr_model :: str
  mr_reasoning :: str
  mr_service_tier :: "str option"
  mr_approval_policy :: "str option"
  mr_permission_profile :: "str option"
  mr_routing :: "WorkflowModelRoutingContract option"

record WorkflowLimits =
  max_parallel_steps :: nat
  max_agents :: nat
  max_worktrees :: nat
  max_runtime_seconds :: nat
  max_step_runtime_seconds :: nat
  max_tokens :: nat
  max_tool_calls :: nat

record WorkflowApprovals =
  required_before :: "str list"

record WorkflowAgent =
  ag_id :: str
  ag_display_name :: str
  ag_role :: str
  ag_model :: WorkflowModelRoute

datatype WorkflowWorkspaceMode = IsolatedWorktree | SharedRepository

record WorkflowWorkspace =
  ww_mode :: WorkflowWorkspaceMode

record WorkflowVerifierRetryPolicy =
  rp_max_attempts :: nat

record WorkflowVerifier =
  wv_id :: str
  wv_kind :: str
  wv_artifact :: "str option"
  wv_must_contain :: "str list"
  wv_cwd :: "str option"
  wv_sandbox :: "str option"
  wv_network :: "str option"
  wv_timeout_seconds :: "nat option"
  wv_output_limit_bytes :: "nat option"
  wv_commands :: "str list"
  wv_expected_stdout :: "str option"
  wv_expected_exit_code :: "int option"
  wv_retry_policy :: "WorkflowVerifierRetryPolicy option"

record WorkflowCompletion =
  model_marked_state :: str
  verifiers :: "WorkflowVerifier list"

record WorkflowStep =
  st_id :: str
  st_title :: str
  st_agent :: str
  st_model :: "WorkflowModelRoute option"
  st_workspace :: "WorkflowWorkspace option"
  st_parallel_group :: "str option"
  st_depends_on :: "str list"
  st_approval_gate :: "str option"
  st_outputs :: "str list"
  st_completion :: "WorkflowCompletion option"

datatype WorkflowLoopIntervalUnit = Minutes | Hours | Days

datatype WorkflowLoopSchedule =
    Dynamic
  | Interval nat WorkflowLoopIntervalUnit
  | Cron str

datatype WorkflowStopCondition = WorkflowComplete | StepSucceeded str

record WorkflowLoop =
  lp_id :: str
  lp_title :: str
  lp_schedule :: WorkflowLoopSchedule
  lp_timezone :: str
  lp_stop_condition :: WorkflowStopCondition
  lp_max_iterations :: nat
  lp_trigger_step :: "str option"
  lp_expires_after_seconds :: "nat option"

record WorkflowMonitorLink =
  ml_id :: str
  ml_title :: str
  ml_source :: str
  ml_max_events_per_tick :: nat
  ml_monitor_ref :: "str option"
  ml_trigger_step :: "str option"
  ml_stop_condition :: "WorkflowStopCondition option"

record WorkflowArtifacts =
  retention :: str
  required :: "str list"

record WorkflowCleanup =
  on_cancel :: "str list"
  on_complete :: "str list"

record 'n WorkflowSpec =
  schema_version :: str
  workflow_id :: str
  ws_display_name :: str
  source_prompt :: str
  ws_status :: WorkflowStatus
  questions :: "str list"
  blocking_reasons :: "str list"
  fixture :: "WorkflowFixture option"
  execution_defaults :: WorkflowModelRoute
  limits :: WorkflowLimits
  approvals :: WorkflowApprovals
  domain_invariants :: "'n yaml_value option"
  agents :: "WorkflowAgent list"
  steps :: "WorkflowStep list"
  loops :: "WorkflowLoop list"
  monitors :: "WorkflowMonitorLink list"
  artifacts :: WorkflowArtifacts
  cleanup :: WorkflowCleanup

section \<open>Errors and limits\<close>

datatype WorkflowSpecError =
    EmptyDocument
  | DocumentTooLarge nat nat
  | MarkdownFence
  | ParseYaml str
  | UnsupportedYamlFeature str str
  | Invalid str

text \<open>\<^verbatim>\<open>WorkflowSpecResult<()>\<close> of a check, and \<^verbatim>\<open>WorkflowSpecError::invalid\<close> as the error it returns.\<close>

type_synonym check = "WorkflowSpecError + unit"

definition invalid :: "str \<Rightarrow> check" where
  "invalid m = Inl (Invalid m)"

definition workflow_spec_error_display :: "WorkflowSpecError \<Rightarrow> str" where
  "workflow_spec_error_display e =
     (case e of
        EmptyDocument \<Rightarrow> lit ''workflow YAML is empty''
      | DocumentTooLarge bytes max_bytes \<Rightarrow>
          lit ''workflow YAML is '' @ show_nat bytes @ lit '' bytes, which exceeds the ''
          @ show_nat max_bytes @ lit '' byte validation limit''
      | MarkdownFence \<Rightarrow>
          lit ''workflow YAML must be a raw YAML document; Markdown fences are not allowed''
      | ParseYaml m \<Rightarrow> lit ''failed to parse workflow YAML: '' @ m
      | UnsupportedYamlFeature path feature \<Rightarrow>
          lit ''workflow YAML uses unsupported YAML feature at '' @ path @ lit '': '' @ feature
      | Invalid m \<Rightarrow> lit ''workflow spec is invalid: '' @ m)"

definition MAX_WORKFLOW_PROMPT_FIELD_CHARS :: nat where
  "MAX_WORKFLOW_PROMPT_FIELD_CHARS = 240"

definition MAX_WORKFLOW_YAML_BYTES :: nat where
  "MAX_WORKFLOW_YAML_BYTES = 256 * 1024"

definition SUPPORTED_SCHEMA_VERSION :: str where
  "SUPPORTED_SCHEMA_VERSION = lit ''workflow.codex.codewith/v0''"

section \<open>Approved names\<close>

definition ANCIENT_NAMES :: "str list" where
  "ANCIENT_NAMES = map lit
     [''aeschylus'', ''agrippa'', ''alexander'', ''anaxagoras'', ''anaximander'', ''apollonius'',
      ''archimedes'', ''aristarchus'', ''aristotle'', ''aryabhata'', ''augustus'', ''aurelius'',
      ''boethius'', ''caesar'', ''cato'', ''cicero'', ''claudius'', ''cleopatra'', ''confucius'',
      ''democritus'', ''diophantus'', ''eratosthenes'', ''euclid'', ''eudoxus'', ''galen'',
      ''hammurabi'', ''hero'', ''hipparchus'', ''hippocrates'', ''hypatia'', ''julius'', ''lucretius'',
      ''marcus aurelius'', ''menelaus'', ''nero'', ''nicomachus'', ''ovid'', ''pappus'', ''parmenides'',
      ''phidias'', ''plato'', ''pliny'', ''plotinus'', ''plutarch'', ''ptolemy'', ''pythagoras'',
      ''quintilian'', ''seneca'', ''socrates'', ''solon'', ''sophocles'', ''strabo'', ''tacitus'',
      ''themistocles'', ''theophrastus'', ''thucydides'', ''varro'', ''virgil'', ''vitruvius'', ''zeno'']"

definition is_ancient_display_name :: "str \<Rightarrow> bool" where
  "is_ancient_display_name display_name =
     (case rsplit_once minus_sign display_name of
        None \<Rightarrow> False
      | Some (role, name) \<Rightarrow>
          if trim role = [] \<or> trim name = [] then False
          else binary_search_ok ANCIENT_NAMES (to_ascii_lowercase (trim name)))"

section \<open>The branch prompt\<close>

record WorkflowBranchPrompt =
  bp_run_id :: str
  bp_step_id :: str
  bp_title :: str
  bp_agent_id :: str
  bp_parallel_group :: "str option"

definition truncate_prompt_field :: "str \<Rightarrow> str" where
  "truncate_prompt_field value =
     (let truncated = take MAX_WORKFLOW_PROMPT_FIELD_CHARS value
      in if drop MAX_WORKFLOW_PROMPT_FIELD_CHARS value = [] then value else truncated @ lit ''...'')"

definition render_workflow_branch_prompt :: "WorkflowBranchPrompt \<Rightarrow> str" where
  "render_workflow_branch_prompt input =
     (let title = truncate_prompt_field (bp_title input);
          ls =
            [lit ''Workflow step '' @ backquoted (bp_step_id input) @ lit '': '' @ title,
             lit ''Workflow run: '' @ bp_run_id input,
             lit ''Agent: '' @ bp_agent_id input,
             lit ''Complete this workflow branch in its scoped session. Dependencies for this step are already satisfied.'',
             lit ''When finished, mark the branch work complete; deterministic workflow verifiers will decide final success.'']
            @ (case bp_parallel_group input of
                 None \<Rightarrow> []
               | Some parallel_group \<Rightarrow> [lit ''Parallel group: '' @ parallel_group])
      in join_with [nl] ls)"

section \<open>Facts about the names and the prompt\<close>

lemma sorted_ANCIENT_NAMES: "sorted ANCIENT_NAMES"
  by code_simp

lemma rsplit_once_unique: "rsplit_once c (l @ c # r) = Some (l, r)" if "c \<notin> set r"
proof -
  have "split_once c (rev r @ c # rev l) = Some (rev r, rev l)" using that
    by (induction r rule: rev_induct) auto
  then show ?thesis by (simp add: rsplit_once_def)
qed

lemma is_ancient_display_name_iff:
  "is_ancient_display_name d \<longleftrightarrow>
     (\<exists>role name. d = role @ minus_sign # name \<and> minus_sign \<notin> set name \<and> trim role \<noteq> []
        \<and> to_ascii_lowercase (trim name) \<in> set ANCIENT_NAMES)"
proof -
  have "[] \<notin> set ANCIENT_NAMES" by code_simp
  then have name: "to_ascii_lowercase (trim name) \<in> set ANCIENT_NAMES \<Longrightarrow> trim name \<noteq> []" for name
    by (metis to_ascii_lowercase_Nil_iff)
  show ?thesis (is "_ \<longleftrightarrow> ?rhs")
  proof
    assume "is_ancient_display_name d"
    then show ?rhs
      by (auto simp: is_ancient_display_name_def binary_search_ok_iff [OF sorted_ANCIENT_NAMES]
          dest!: rsplit_once_Some split: option.splits if_splits)
  next
    assume ?rhs
    then show "is_ancient_display_name d"
      by (auto simp: is_ancient_display_name_def binary_search_ok_iff [OF sorted_ANCIENT_NAMES]
          rsplit_once_unique name)
  qed
qed

lemma length_truncate_prompt_field: "length (truncate_prompt_field v) \<le> MAX_WORKFLOW_PROMPT_FIELD_CHARS + 3"
  by (simp add: truncate_prompt_field_def)

end
