(* ===== verification/Workflow_Validation.thy ===== *)
theory Workflow_Validation
  imports Workflow_Spec
begin

text \<open>
  The checks of \<^verbatim>\<open>codex-rs/workflows/src/validation.rs\<close> and the parser of \<^verbatim>\<open>parse.rs\<close>. A function
  that runs checks one after the other with the question-mark operator is \<open>first_error\<close> of the
  list of its checks; a loop that also collects identifiers in a set is \<open>unique_loop\<close>. The
  dependency check subtracts from an unsigned counter: \<open>None\<close> stands for the panic on underflow,
  and the functions above it pass it on.
\<close>

section \<open>Sequences of checks\<close>

definition reject_if :: "bool \<Rightarrow> str \<Rightarrow> check" where
  "reject_if c m = (if c then invalid m else Inr ())"

fun check_opt :: "('a \<Rightarrow> check) \<Rightarrow> 'a option \<Rightarrow> check" where
  "check_opt f None = Inr ()"
| "check_opt f (Some x) = f x"

definition check_indexed :: "(nat \<Rightarrow> 'a \<Rightarrow> check) \<Rightarrow> 'a list \<Rightarrow> check" where
  "check_indexed f xs = first_error (map (\<lambda>(i, x). f i x) (enumerate 0 xs))"

text \<open>A loop over elements that checks each one, requires its key to be new, and checks it further.\<close>

fun unique_loop ::
  "('a \<Rightarrow> str) \<Rightarrow> ('a \<Rightarrow> check) \<Rightarrow> ('a \<Rightarrow> str) \<Rightarrow> ('a \<Rightarrow> check) \<Rightarrow> str set \<Rightarrow> 'a list \<Rightarrow> check" where
  "unique_loop key before dup after seen [] = Inr ()"
| "unique_loop key before dup after seen (x # xs) =
     first_error
       [before x,
        reject_if (key x \<in> seen) (dup x),
        after x,
        unique_loop key before dup after (insert (key x) seen) xs]"

definition dotted :: "str \<Rightarrow> str \<Rightarrow> str" where
  "dotted path field = path @ lit ''.'' @ field"

definition indexed :: "str \<Rightarrow> nat \<Rightarrow> str" where
  "indexed path i = path @ lit ''['' @ show_nat i @ lit '']''"

section \<open>Checks on values\<close>

definition validate_non_empty :: "str \<Rightarrow> str \<Rightarrow> check" where
  "validate_non_empty path value = reject_if (trim value = []) (path @ lit '' must not be empty'')"

definition validate_prompt_field :: "str \<Rightarrow> str \<Rightarrow> check" where
  "validate_prompt_field path value =
     first_error
       [validate_non_empty path value,
        reject_if (length value > MAX_WORKFLOW_PROMPT_FIELD_CHARS)
          (path @ lit '' is too long; maximum is '' @ show_nat MAX_WORKFLOW_PROMPT_FIELD_CHARS
           @ lit '' characters'')]"

text \<open>The bytes of a string are all ASCII exactly when its characters are.\<close>

definition is_identifier_char :: "nat \<Rightarrow> bool" where
  "is_identifier_char c \<longleftrightarrow>
     65 \<le> c \<and> c \<le> 90 \<or> 97 \<le> c \<and> c \<le> 122 \<or> is_ascii_digit c \<or> c = 95 \<or> c = minus_sign"

definition validate_identifier :: "str \<Rightarrow> str \<Rightarrow> check" where
  "validate_identifier path value =
     first_error
       [validate_non_empty path value,
        reject_if (utf8_len value > 128)
          (path @ lit '' '' @ backquoted value @ lit '' is too long; maximum is 128 bytes''),
        reject_if (\<not> list_all is_identifier_char value)
          (path @ lit '' '' @ backquoted value
           @ lit '' must contain only ASCII letters, numbers, underscores, or hyphens'')]"

definition validate_string_list :: "str \<Rightarrow> str list \<Rightarrow> check" where
  "validate_string_list path values = check_indexed (\<lambda>i. validate_non_empty (indexed path i)) values"

definition PLACEHOLDER_ROUTE_VALUES :: "str list" where
  "PLACEHOLDER_ROUTE_VALUES =
     map lit [''ambient'', ''auto'', ''current'', ''default'', ''infer'', ''inherit'', ''inherited'']"

definition validate_route_field :: "str \<Rightarrow> str \<Rightarrow> str \<Rightarrow> check" where
  "validate_route_field path field value =
     first_error
       [validate_non_empty (dotted path field) value,
        reject_if (to_ascii_lowercase (trim value) \<in> set PLACEHOLDER_ROUTE_VALUES)
          (dotted path field @ lit '' must be exact and cannot use placeholder '' @ backquoted value)]"

definition validate_route_value_list :: "str \<Rightarrow> str \<Rightarrow> str list \<Rightarrow> check" where
  "validate_route_value_list path field values =
     check_indexed (\<lambda>i. validate_route_field (indexed (dotted path field) i) (lit ''value'')) values"

definition unwrap_or_default :: "str option \<Rightarrow> str" where
  "unwrap_or_default v = (case v of None \<Rightarrow> [] | Some s \<Rightarrow> s)"

definition validate_required_decision_route_field :: "str \<Rightarrow> str \<Rightarrow> str option \<Rightarrow> check" where
  "validate_required_decision_route_field path field value =
     validate_route_field path field (unwrap_or_default value)"

subsection \<open>Decimal numbers\<close>

text \<open>\<^verbatim>\<open>str::parse::<f64>\<close>: an optional sign, then \<^verbatim>\<open>inf\<close>, \<^verbatim>\<open>infinity\<close> or \<^verbatim>\<open>nan\<close> in any case, or digits
  with at most one point and at least one digit, and an optional exponent. A decimal is kept
  exactly, as its digits and a power of ten; rounding to the nearest double decides only whether the result is
  finite and whether it is zero. The greatest value that still rounds to a finite double lies below
  \<open>2\<^sup>1\<^sup>0\<^sup>2\<^sup>4 - 2\<^sup>9\<^sup>7\<^sup>0\<close>, and the greatest that rounds to zero is \<open>2\<^sup>-\<^sup>1\<^sup>0\<^sup>7\<^sup>5\<close>.\<close>

datatype f64_value = Infinity | NaN | Decimal bool nat int

definition digits_value :: "str \<Rightarrow> nat" where
  "digits_value ds = foldl (\<lambda>n d. 10 * n + (d - 48)) 0 ds"

definition split_sign :: "str \<Rightarrow> bool \<times> str" where
  "split_sign s =
     (case s of
        c # r \<Rightarrow> if c = minus_sign then (True, r) else if c = plus_sign then (False, r) else (False, s)
      | [] \<Rightarrow> (False, s))"

definition parse_exponent :: "str \<Rightarrow> int option" where
  "parse_exponent s =
     (case s of
        [] \<Rightarrow> Some 0
      | c # r \<Rightarrow>
          if ascii_lower c = 101 then
            (let (neg, ds) = split_sign r
             in if ds \<noteq> [] \<and> list_all is_ascii_digit ds
                then Some (if neg then - int (digits_value ds) else int (digits_value ds))
                else None)
          else None)"

definition parse_f64 :: "str \<Rightarrow> f64_value option" where
  "parse_f64 s =
     (let (neg, r) = split_sign s;
          whole = takeWhile is_ascii_digit r;
          r1 = dropWhile is_ascii_digit r;
          (frac, r2) =
            (case r1 of
               c # t \<Rightarrow> if c = 46 then (takeWhile is_ascii_digit t, dropWhile is_ascii_digit t) else ([], r1)
             | [] \<Rightarrow> ([], r1))
      in if whole @ frac \<noteq> [] then
           map_option (\<lambda>e. Decimal neg (digits_value (whole @ frac)) (e - int (length frac))) (parse_exponent r2)
         else if to_ascii_lowercase r = lit ''inf'' \<or> to_ascii_lowercase r = lit ''infinity'' then Some Infinity
         else if to_ascii_lowercase r = lit ''nan'' then Some NaN
         else None)"

definition rounds_to_finite :: "nat \<Rightarrow> int \<Rightarrow> bool" where
  "rounds_to_finite m e \<longleftrightarrow>
     (if 0 \<le> e then m * 10 ^ nat e < 2 ^ 1024 - 2 ^ 970 else m < (2 ^ 1024 - 2 ^ 970) * 10 ^ nat (- e))"

definition rounds_to_zero :: "nat \<Rightarrow> int \<Rightarrow> bool" where
  "rounds_to_zero m e \<longleftrightarrow> (if 0 \<le> e then m = 0 else m * 2 ^ 1075 \<le> 10 ^ nat (- e))"

definition finite_and_positive :: "f64_value \<Rightarrow> bool" where
  "finite_and_positive v =
     (case v of
        Infinity \<Rightarrow> False
      | NaN \<Rightarrow> False
      | Decimal neg m e \<Rightarrow> rounds_to_finite m e \<and> \<not> neg \<and> \<not> rounds_to_zero m e)"

section \<open>Checks on routes\<close>

definition validate_fallback :: "str \<Rightarrow> WorkflowModelRoutingFallback \<Rightarrow> check" where
  "validate_fallback path f =
     (if rf_used f then validate_non_empty (dotted path (lit ''reason'')) (unwrap_or_default (rf_reason f))
      else check_opt (validate_non_empty (dotted path (lit ''reason''))) (rf_reason f))"

definition validate_routing_error :: "str \<Rightarrow> WorkflowModelRoutingError \<Rightarrow> check" where
  "validate_routing_error path e =
     first_error
       [validate_identifier (dotted path (lit ''code'')) (re_code e),
        validate_non_empty (dotted path (lit ''message'')) (re_message e)]"

definition validate_routing_errors :: "str \<Rightarrow> WorkflowModelRoutingError list \<Rightarrow> check" where
  "validate_routing_errors path errors =
     check_indexed (\<lambda>i. validate_routing_error (indexed (dotted path (lit ''errors'')) i)) errors"

definition validate_decision :: "str \<Rightarrow> WorkflowModelRoutingDecision \<Rightarrow> check" where
  "validate_decision path d =
     first_error
       [validate_string_list (dotted path (lit ''warnings'')) (rd_warnings d),
        check_opt (validate_fallback (dotted path (lit ''fallback''))) (rd_fallback d),
        (if rd_status d = Selected \<or> rd_status d = Fallback then
           first_error
             [validate_required_decision_route_field path (lit ''model_gateway'') (rd_model_gateway d),
              validate_required_decision_route_field path (lit ''provider'') (rd_provider d),
              validate_required_decision_route_field path (lit ''model'') (rd_model d),
              validate_required_decision_route_field path (lit ''reasoning'') (rd_reasoning d),
              check_opt (validate_route_field path (lit ''service_tier'')) (rd_service_tier d),
              check_opt (validate_non_empty (dotted path (lit ''auth_profile''))) (rd_auth_profile d),
              validate_non_empty (dotted path (lit ''explanation'')) (unwrap_or_default (rd_explanation d)),
              (if rd_status d = Fallback then
                 (case rd_fallback d of
                    None \<Rightarrow> invalid (path @ lit ''.fallback must describe why fallback routing was used'')
                  | Some f \<Rightarrow>
                      reject_if (\<not> rf_used f) (path @ lit ''.fallback.used must be true for fallback decisions''))
               else Inr ()),
              validate_routing_errors path (rd_errors d)]
         else
           first_error
             [check_opt (validate_non_empty (dotted path (lit ''explanation''))) (rd_explanation d),
              reject_if (rd_errors d = []) (path @ lit ''.errors must describe why routing failed''),
              validate_routing_errors path (rd_errors d)])]"

definition validate_budget :: "str \<Rightarrow> str \<Rightarrow> check" where
  "validate_budget path budget_usd =
     first_error
       [validate_non_empty (dotted path (lit ''budget_usd'')) budget_usd,
        (case parse_f64 budget_usd of
           None \<Rightarrow> invalid (path @ lit ''.budget_usd must be a positive decimal string'')
         | Some amount \<Rightarrow> reject_if (\<not> finite_and_positive amount) (path @ lit ''.budget_usd must be positive''))]"

definition validate_constraints :: "str \<Rightarrow> WorkflowModelRoutingConstraints \<Rightarrow> check" where
  "validate_constraints path c =
     first_error
       (map (\<lambda>(field, values). validate_route_value_list path (lit field) values)
          [(''allowed_model_gateways'', rc_allowed_model_gateways c),
           (''preferred_model_gateways'', rc_preferred_model_gateways c),
           (''allowed_providers'', rc_allowed_providers c),
           (''preferred_providers'', rc_preferred_providers c),
           (''allowed_models'', rc_allowed_models c),
           (''preferred_models'', rc_preferred_models c),
           (''allowed_reasoning'', rc_allowed_reasoning c),
           (''preferred_reasoning'', rc_preferred_reasoning c),
           (''allowed_service_tiers'', rc_allowed_service_tiers c),
           (''preferred_service_tiers'', rc_preferred_service_tiers c)]
        @ map (\<lambda>(field, values). validate_string_list (dotted path (lit field)) values)
          [(''allowed_auth_profiles'', rc_allowed_auth_profiles c),
           (''allowed_approval_policies'', rc_allowed_approval_policies c),
           (''allowed_permission_profiles'', rc_allowed_permission_profiles c),
           (''allowed_worktree_modes'', rc_allowed_worktree_modes c)]
        @ [reject_if (rc_max_context_tokens c = Some 0) (path @ lit ''.max_context_tokens must be positive''),
           check_opt (validate_budget path) (rc_budget_usd c)])"

definition validate_context :: "str \<Rightarrow> WorkflowModelRoutingContext \<Rightarrow> check" where
  "validate_context path c =
     first_error
       ([check_opt (validate_identifier (dotted path (lit ''task_id''))) (rx_task_id c),
         check_opt (validate_prompt_field (dotted path (lit ''task_title''))) (rx_task_title c)]
        @ map (\<lambda>(field, value). check_opt (validate_non_empty (dotted path (lit field))) value)
          [(''project_path'', rx_project_path c),
           (''auth_profile'', rx_auth_profile c),
           (''approval_policy'', rx_approval_policy c),
           (''permission_profile'', rx_permission_profile c),
           (''worktree_mode'', rx_worktree_mode c)]
        @ [validate_string_list (dotted path (lit ''tags'')) (rx_tags c)])"

definition validate_request :: "str \<Rightarrow> WorkflowModelRoutingRequest \<Rightarrow> check" where
  "validate_request path r =
     first_error
       [validate_context (dotted path (lit ''context'')) (rr_context r),
        validate_constraints (dotted path (lit ''constraints'')) (rr_constraints r)]"

definition validate_contract :: "str \<Rightarrow> WorkflowModelRoutingContract \<Rightarrow> check" where
  "validate_contract path c =
     first_error
       [validate_non_empty (dotted path (lit ''contract_version'')) (ro_contract_version c),
        validate_request (dotted path (lit ''request'')) (ro_request c),
        check_opt (validate_decision (dotted path (lit ''decision''))) (ro_decision c)]"

definition validate_route :: "str \<Rightarrow> WorkflowModelRoute \<Rightarrow> check" where
  "validate_route path r =
     first_error
       [validate_route_field path (lit ''model_gateway'') (mr_model_gateway r),
        validate_route_field path (lit ''provider'') (mr_provider r),
        validate_route_field path (lit ''model'') (mr_model r),
        validate_route_field path (lit ''reasoning'') (mr_reasoning r),
        check_opt (validate_route_field path (lit ''service_tier'')) (mr_service_tier r),
        check_opt (validate_non_empty (dotted path (lit ''approval_policy''))) (mr_approval_policy r),
        check_opt (validate_non_empty (dotted path (lit ''permission_profile''))) (mr_permission_profile r),
        check_opt (validate_contract (dotted path (lit ''routing''))) (mr_routing r)]"

section \<open>Checks on limits, agents and verifiers\<close>

definition validate_limits :: "WorkflowLimits \<Rightarrow> check" where
  "validate_limits l =
     first_error
       [reject_if (max_parallel_steps l = 0) (lit ''limits.max_parallel_steps must be positive''),
        reject_if (max_agents l = 0) (lit ''limits.max_agents must be positive''),
        reject_if (max_runtime_seconds l = 0) (lit ''limits.max_runtime_seconds must be positive''),
        reject_if (max_step_runtime_seconds l = 0) (lit ''limits.max_step_runtime_seconds must be positive''),
        reject_if (max_tokens l = 0) (lit ''limits.max_tokens must be positive''),
        reject_if (max_tool_calls l = 0) (lit ''limits.max_tool_calls must be positive'')]"

definition validate_agents :: "'n WorkflowSpec \<Rightarrow> check" where
  "validate_agents spec =
     first_error
       [reject_if (length (agents spec) > max_agents (limits spec))
          (lit ''workflow defines '' @ show_nat (length (agents spec)) @ lit '' agents but limits.max_agents is ''
           @ show_nat (max_agents (limits spec))),
        unique_loop ag_id
          (\<lambda>agent. validate_identifier (lit ''agent.id'') (ag_id agent))
          (\<lambda>agent. lit ''agent id '' @ backquoted (ag_id agent) @ lit '' is duplicated'')
          (\<lambda>agent. first_error
             [reject_if (\<not> is_ancient_display_name (ag_display_name agent))
                (lit ''agent '' @ backquoted (ag_id agent) @ lit '' display_name ''
                 @ backquoted (ag_display_name agent)
                 @ lit '' must be role-first with an approved ancient name''),
              validate_non_empty (lit ''agent.role'') (ag_role agent),
              validate_route (lit ''agents.'' @ ag_id agent @ lit ''.model'') (ag_model agent)])
          {} (agents spec)]"

definition CANDIDATE_SUCCEEDED :: str where
  "CANDIDATE_SUCCEEDED = lit ''candidate_succeeded''"

definition ARTIFACT_CONTAINS_VERIFIER :: str where
  "ARTIFACT_CONTAINS_VERIFIER = lit ''artifact_contains''"

definition RUN_COMMANDS_VERIFIER :: str where
  "RUN_COMMANDS_VERIFIER = lit ''run_commands''"

definition MAX_VERIFIER_RETRY_ATTEMPTS :: nat where
  "MAX_VERIFIER_RETRY_ATTEMPTS = 5"

definition zero_or_unset :: "nat option \<Rightarrow> bool" where
  "zero_or_unset v \<longleftrightarrow> v = None \<or> v = Some 0"

definition validate_verifier :: "str \<Rightarrow> WorkflowVerifier \<Rightarrow> check" where
  "validate_verifier step_id v =
     (let at_step = lit ''step '' @ backquoted step_id;
          named = backquoted (wv_id v)
      in first_error
       [validate_identifier (lit ''verifier.id'') (wv_id v),
        (if wv_kind v = ARTIFACT_CONTAINS_VERIFIER then
           first_error
             [validate_non_empty (lit ''verifier.artifact'') (unwrap_or_default (wv_artifact v)),
              validate_string_list (lit ''verifier.must_contain'') (wv_must_contain v),
              reject_if (wv_must_contain v = [])
                (at_step @ lit '' artifact_contains verifier '' @ named @ lit '' must include must_contain'')]
         else if wv_kind v = RUN_COMMANDS_VERIFIER then
           first_error
             (map (\<lambda>(field, value). validate_non_empty (lit ''verifier.'' @ lit field) (unwrap_or_default value))
                [(''cwd'', wv_cwd v), (''sandbox'', wv_sandbox v), (''network'', wv_network v)]
              @ [reject_if (zero_or_unset (wv_timeout_seconds v))
                   (at_step @ lit '' run_commands verifier '' @ named @ lit '' must set timeout_seconds''),
                 reject_if (zero_or_unset (wv_output_limit_bytes v))
                   (at_step @ lit '' run_commands verifier '' @ named @ lit '' must set output_limit_bytes''),
                 validate_string_list (lit ''verifier.commands'') (wv_commands v),
                 reject_if (wv_commands v = [])
                   (at_step @ lit '' run_commands verifier '' @ named @ lit '' must include commands'')])
         else
           invalid (at_step @ lit '' verifier '' @ named @ lit '' has unsupported type '' @ backquoted (wv_kind v))),
        check_opt (\<lambda>p. reject_if (rp_max_attempts p = 0)
            (at_step @ lit '' verifier '' @ named @ lit '' retry_policy.max_attempts must be positive''))
          (wv_retry_policy v),
        check_opt (\<lambda>p. reject_if (rp_max_attempts p > MAX_VERIFIER_RETRY_ATTEMPTS)
            (at_step @ lit '' verifier '' @ named @ lit '' retry_policy.max_attempts must be at most ''
             @ show_nat MAX_VERIFIER_RETRY_ATTEMPTS))
          (wv_retry_policy v)])"

definition validate_completion :: "str \<Rightarrow> WorkflowCompletion \<Rightarrow> check" where
  "validate_completion step_id completion =
     first_error
       [reject_if (model_marked_state completion \<noteq> CANDIDATE_SUCCEEDED)
          (lit ''step '' @ backquoted step_id @ lit '' model_marked_state must be ''
           @ backquoted CANDIDATE_SUCCEEDED),
        reject_if (verifiers completion = [])
          (lit ''step '' @ backquoted step_id @ lit '' must include at least one verifier''),
        unique_loop wv_id (validate_verifier step_id)
          (\<lambda>v. lit ''step '' @ backquoted step_id @ lit '' verifier id '' @ backquoted (wv_id v)
               @ lit '' is duplicated'')
          (\<lambda>v. Inr ()) {} (verifiers completion)]"

section \<open>Checks on references between the parts\<close>

definition validate_dependencies :: "WorkflowStep \<Rightarrow> str set \<Rightarrow> check" where
  "validate_dependencies step step_ids =
     unique_loop (\<lambda>d. d)
       (\<lambda>d. first_error
          [validate_identifier (lit ''step.depends_on'') d,
           reject_if (d = st_id step) (lit ''step '' @ backquoted (st_id step) @ lit '' cannot depend on itself''),
           reject_if (d \<notin> step_ids)
             (lit ''step '' @ backquoted (st_id step) @ lit '' depends on unknown step '' @ backquoted d)])
       (\<lambda>d. lit ''step '' @ backquoted (st_id step) @ lit '' lists dependency '' @ backquoted d
            @ lit '' more than once'')
       (\<lambda>d. Inr ()) {} (st_depends_on step)"

definition validate_step_name :: "str \<Rightarrow> str set \<Rightarrow> str \<Rightarrow> check" where
  "validate_step_name path step_ids step_id =
     first_error
       [validate_identifier path step_id,
        reject_if (step_id \<notin> step_ids) (path @ lit '' references unknown step '' @ backquoted step_id)]"

definition validate_optional_step_ref :: "str \<Rightarrow> str option \<Rightarrow> str set \<Rightarrow> check" where
  "validate_optional_step_ref path step_id step_ids = check_opt (validate_step_name path step_ids) step_id"

definition validate_stop_condition :: "str \<Rightarrow> WorkflowStopCondition \<Rightarrow> str set \<Rightarrow> check" where
  "validate_stop_condition path stop_condition step_ids =
     (case stop_condition of
        WorkflowComplete \<Rightarrow> Inr ()
      | StepSucceeded step \<Rightarrow> validate_step_name path step_ids step)"

definition validate_loop_schedule :: "str \<Rightarrow> WorkflowLoopSchedule \<Rightarrow> check" where
  "validate_loop_schedule loop_id schedule =
     (case schedule of
        Dynamic \<Rightarrow> Inr ()
      | Interval amount _ \<Rightarrow>
          reject_if (amount = 0) (lit ''loop '' @ backquoted loop_id @ lit '' interval amount must be positive'')
      | Cron expression \<Rightarrow> validate_non_empty (lit ''loop.schedule.expression'') expression)"

definition MAX_WORKFLOW_LOOPS :: nat where
  "MAX_WORKFLOW_LOOPS = 32"

definition MAX_WORKFLOW_LOOP_ITERATIONS :: nat where
  "MAX_WORKFLOW_LOOP_ITERATIONS = 10000"

definition MAX_WORKFLOW_MONITOR_LINKS :: nat where
  "MAX_WORKFLOW_MONITOR_LINKS = 32"

definition MAX_WORKFLOW_MONITOR_EVENTS_PER_TICK :: nat where
  "MAX_WORKFLOW_MONITOR_EVENTS_PER_TICK = 50"

definition WORKFLOW_MONITOR_SOURCE_EXISTING_THREAD_MONITOR :: str where
  "WORKFLOW_MONITOR_SOURCE_EXISTING_THREAD_MONITOR = lit ''existing_thread_monitor''"

definition validate_loops :: "'n WorkflowSpec \<Rightarrow> str set \<Rightarrow> check" where
  "validate_loops spec step_ids =
     first_error
       [reject_if (length (loops spec) > MAX_WORKFLOW_LOOPS)
          (lit ''workflow defines '' @ show_nat (length (loops spec)) @ lit '' loops but the maximum is ''
           @ show_nat MAX_WORKFLOW_LOOPS),
        unique_loop lp_id
          (\<lambda>l. validate_identifier (lit ''loop.id'') (lp_id l))
          (\<lambda>l. lit ''loop id '' @ backquoted (lp_id l) @ lit '' is duplicated'')
          (\<lambda>l. let named = lit ''loop '' @ backquoted (lp_id l)
               in first_error
             [validate_prompt_field (lit ''loop.title'') (lp_title l),
              validate_non_empty (lit ''loop.timezone'') (lp_timezone l),
              validate_loop_schedule (lp_id l) (lp_schedule l),
              reject_if (lp_max_iterations l = 0) (named @ lit '' max_iterations must be positive''),
              reject_if (lp_max_iterations l > MAX_WORKFLOW_LOOP_ITERATIONS)
                (named @ lit '' max_iterations must be at most '' @ show_nat MAX_WORKFLOW_LOOP_ITERATIONS),
              reject_if (lp_expires_after_seconds l = Some 0)
                (named @ lit '' expires_after_seconds must be positive''),
              validate_optional_step_ref (lit ''loop.trigger_step'') (lp_trigger_step l) step_ids,
              validate_stop_condition (named @ lit '' stop_condition'') (lp_stop_condition l) step_ids])
          {} (loops spec)]"

definition validate_monitor_links :: "WorkflowMonitorLink list \<Rightarrow> str set \<Rightarrow> check" where
  "validate_monitor_links ms step_ids =
     first_error
       [reject_if (length ms > MAX_WORKFLOW_MONITOR_LINKS)
          (lit ''workflow defines '' @ show_nat (length ms) @ lit '' monitors but the maximum is ''
           @ show_nat MAX_WORKFLOW_MONITOR_LINKS),
        unique_loop ml_id
          (\<lambda>m. validate_identifier (lit ''monitor.id'') (ml_id m))
          (\<lambda>m. lit ''monitor id '' @ backquoted (ml_id m) @ lit '' is duplicated'')
          (\<lambda>m. let named = lit ''monitor '' @ backquoted (ml_id m)
               in first_error
             [validate_prompt_field (lit ''monitor.title'') (ml_title m),
              reject_if (ml_source m \<noteq> WORKFLOW_MONITOR_SOURCE_EXISTING_THREAD_MONITOR)
                (named @ lit '' source must be '' @ backquoted WORKFLOW_MONITOR_SOURCE_EXISTING_THREAD_MONITOR),
              reject_if (ml_max_events_per_tick m = 0) (named @ lit '' max_events_per_tick must be positive''),
              reject_if (ml_max_events_per_tick m > MAX_WORKFLOW_MONITOR_EVENTS_PER_TICK)
                (named @ lit '' max_events_per_tick must be at most ''
                 @ show_nat MAX_WORKFLOW_MONITOR_EVENTS_PER_TICK),
              validate_optional_step_ref (lit ''monitor.trigger_step'') (ml_trigger_step m) step_ids,
              check_opt (\<lambda>c. validate_stop_condition (named @ lit '' stop_condition'') c step_ids)
                (ml_stop_condition m)])
          {} ms]"

section \<open>Inversion of the combinators\<close>

declare first_error.simps [simp del]

lemma reject_if_Inr_iff [result_simps]: "reject_if c m = Inr u \<longleftrightarrow> \<not> c"
  by (simp add: reject_if_def invalid_def)

lemma invalid_not_Inr [simp]: "invalid m \<noteq> Inr u"
  by (simp add: invalid_def)

lemma check_opt_Inr_iff [result_simps]: "check_opt f x = Inr u \<longleftrightarrow> (\<forall>y \<in> set_option x. f y = Inr ())"
  by (cases x) simp_all

lemma check_indexed_Inr_iff:
  "check_indexed f xs = Inr u \<longleftrightarrow> (\<forall>i < length xs. f i (xs ! i) = Inr ())"
proof -
  have "set (enumerate 0 xs) = (\<lambda>i. (i, xs ! i)) ` {..<length xs}"
    by (force simp: in_set_enumerate_eq)
  then show ?thesis by (auto simp: check_indexed_def first_error_Inr_iff)
qed

lemma unique_loop_Inr_iff:
  "unique_loop key before dup after seen xs = Inr u \<longleftrightarrow>
     (\<forall>x \<in> set xs. before x = Inr () \<and> after x = Inr ()) \<and> distinct (map key xs) \<and> key ` set xs \<inter> seen = {}"
  by (induction xs arbitrary: seen) (auto simp: first_error_Inr_iff reject_if_Inr_iff)

lemma unique_loop_from_empty [result_simps]:
  "unique_loop key before dup after {} xs = Inr u \<longleftrightarrow>
     (\<forall>x \<in> set xs. before x = Inr () \<and> after x = Inr ()) \<and> distinct (map key xs)"
  by (simp add: unique_loop_Inr_iff)

end
