(* ===== verification/Workflow_Graph.thy ===== *)
theory Workflow_Graph
  imports Workflow_Validation
begin

text \<open>
  The dependency check of \<^verbatim>\<open>codex-rs/workflows/src/validation.rs\<close>, Kahn's algorithm over two
  \<^verbatim>\<open>BTreeMap\<close>s: the number of unmet dependencies of every step, and the steps that wait for a given
  one. It is shown to accept exactly the acyclic graphs.
\<close>

section \<open>The algorithm\<close>

definition missing_from_index :: "str \<Rightarrow> WorkflowSpecError" where
  "missing_from_index step_id =
     Invalid (lit ''step '' @ backquoted step_id @ lit '' was missing from dependency index'')"

definition push_outgoing :: "str \<Rightarrow> str \<Rightarrow> (str \<times> str list) list \<Rightarrow> (str \<times> str list) list" where
  "push_outgoing dependency dependent outgoing =
     (case map_of outgoing dependency of
        None \<Rightarrow> bt_insert dependency [dependent] outgoing
      | Some ds \<Rightarrow> AList.update dependency (ds @ [dependent]) outgoing)"

definition dependents_of :: "(str \<times> str list) list \<Rightarrow> str \<Rightarrow> str list" where
  "dependents_of outgoing step_id = (case map_of outgoing step_id of None \<Rightarrow> [] | Some dependents \<Rightarrow> dependents)"

text \<open>The edges, one for every entry of a \<^verbatim>\<open>depends_on\<close> list, in the order the loops visit them.\<close>

definition dependency_entries :: "WorkflowStep list \<Rightarrow> (str \<times> str) list" where
  "dependency_entries ss = concat (map (\<lambda>s. map (\<lambda>d. (d, st_id s)) (st_depends_on s)) ss)"

fun index_edges ::
  "(str \<times> nat) list \<Rightarrow> (str \<times> str list) list \<Rightarrow> (str \<times> str) list \<Rightarrow>
   WorkflowSpecError + (str \<times> nat) list \<times> (str \<times> str list) list" where
  "index_edges indegree outgoing [] = Inr (indegree, outgoing)"
| "index_edges indegree outgoing ((dependency, step_id) # es) =
     (case map_of indegree step_id of
        None \<Rightarrow> Inl (missing_from_index step_id)
      | Some degree \<Rightarrow>
          index_edges (AList.update step_id (degree + 1) indegree)
            (push_outgoing dependency step_id outgoing) es)"

text \<open>The inner loop lowers the count of every dependent; \<open>None\<close> is the underflow of \<^verbatim>\<open>*degree -= 1\<close>.\<close>

fun release_dependents ::
  "(str \<times> nat) list \<Rightarrow> str list \<Rightarrow> str list \<Rightarrow> (WorkflowSpecError + (str \<times> nat) list \<times> str list) option" where
  "release_dependents indegree ready [] = Some (Inr (indegree, ready))"
| "release_dependents indegree ready (dependent # ds) =
     (case map_of indegree dependent of
        None \<Rightarrow> Some (Inl (missing_from_index dependent))
      | Some 0 \<Rightarrow> None
      | Some (Suc degree) \<Rightarrow>
          release_dependents (AList.update dependent degree indegree)
            (if degree = 0 then ready @ [dependent] else ready) ds)"

lemma release_dependents_weight:
  "release_dependents indegree ready ds = Some (Inr (indegree', ready')) \<Longrightarrow>
   sum_list (map snd indegree') + length ready' \<le> sum_list (map snd indegree) + length ready"
proof (induction indegree ready ds rule: release_dependents.induct)
  case (2 indegree ready dependent ds)
  then show ?case
    by (fastforce split: option.splits nat.splits if_splits dest: sum_update_pred)
qed simp

function visit_ready ::
  "(str \<times> str list) list \<Rightarrow> (str \<times> nat) list \<Rightarrow> str list \<Rightarrow> nat \<Rightarrow> (WorkflowSpecError + nat) option" where
  "visit_ready outgoing indegree ready visited =
     (case ready of
        [] \<Rightarrow> Some (Inr visited)
      | step_id # rest \<Rightarrow>
          (case release_dependents indegree rest (dependents_of outgoing step_id) of
             None \<Rightarrow> None
           | Some (Inl e) \<Rightarrow> Some (Inl e)
           | Some (Inr (indegree', ready')) \<Rightarrow> visit_ready outgoing indegree' ready' (visited + 1)))"
  by pat_completeness auto
termination
  by (relation "measure (\<lambda>(outgoing, indegree, ready, visited). sum_list (map snd indegree) + length ready)")
     (auto dest: release_dependents_weight)

declare visit_ready.simps [simp del]

definition validate_acyclic_dependencies :: "WorkflowStep list \<Rightarrow> check option" where
  "validate_acyclic_dependencies ss =
     (case index_edges (fold (\<lambda>s. bt_insert (st_id s) 0) ss []) [] (dependency_entries ss) of
        Inl e \<Rightarrow> Some (Inl e)
      | Inr (indegree, outgoing) \<Rightarrow>
          (case visit_ready outgoing indegree (map fst (filter (\<lambda>(_, degree). degree = 0) indegree)) 0 of
             None \<Rightarrow> None
           | Some (Inl e) \<Rightarrow> Some (Inl e)
           | Some (Inr visited) \<Rightarrow>
               Some (reject_if (visited \<noteq> length ss) (lit ''workflow step dependencies contain a cycle''))))"

section \<open>The graph\<close>

text \<open>\<open>waits_for ss\<close> relates a dependency to the steps that name it.\<close>

definition waits_for :: "WorkflowStep list \<Rightarrow> (str \<times> str) set" where
  "waits_for ss = {(d, st_id s) | d s. s \<in> set ss \<and> d \<in> set (st_depends_on s)}"

text \<open>A graph whose steps have distinct names and wait for steps of the workflow only.\<close>

definition closed_graph :: "WorkflowStep list \<Rightarrow> bool" where
  "closed_graph ss \<longleftrightarrow>
     distinct (map st_id ss) \<and> (\<forall>s \<in> set ss. set (st_depends_on s) \<subseteq> st_id ` set ss)"

text \<open>The dependencies of a step, by its name.\<close>

definition deps_of :: "WorkflowStep list \<Rightarrow> str \<Rightarrow> str list" where
  "deps_of ss x = map fst (filter (\<lambda>e. snd e = x) (dependency_entries ss))"

section \<open>Building the index\<close>

lemma set_dependency_entries: "set (dependency_entries ss) = waits_for ss"
  by (auto simp: dependency_entries_def waits_for_def)

lemma set_deps_of: "set (deps_of ss x) = {d. (d, x) \<in> waits_for ss}"
  by (force simp: deps_of_def set_dependency_entries [symmetric])

lemma push_outgoing_ok:
  assumes "bt_ok outgoing"
  shows "bt_ok (push_outgoing d s outgoing)"
    and "dependents_of (push_outgoing d s outgoing) x =
           (if x = d then dependents_of outgoing d @ [s] else dependents_of outgoing x)"
  using assms
  by (auto simp: push_outgoing_def dependents_of_def bt_ok_insert map_of_bt_insert update_conv'
      intro: bt_ok_update split: option.splits)

lemma index_edges_ok:
  assumes "bt_ok indegree" "bt_ok outgoing" "snd ` set es \<subseteq> dom (map_of indegree)"
  shows "\<exists>indegree' outgoing'. index_edges indegree outgoing es = Inr (indegree', outgoing') \<and> bt_ok indegree'
     \<and> (\<forall>x. map_of indegree' x = map_option (\<lambda>n. n + count_list (map snd es) x) (map_of indegree x))
     \<and> (\<forall>x. dependents_of outgoing' x = dependents_of outgoing x @ map snd (filter (\<lambda>e. fst e = x) es))"
  using assms
proof (induction es arbitrary: indegree outgoing)
  case Nil
  then show ?case by (simp add: option.map_ident)
next
  case (Cons e es)
  obtain d s where e: "e = (d, s)" by fastforce
  with Cons.prems obtain n where n: "map_of indegree s = Some n" by auto
  let ?ind = "AList.update s (n + 1) indegree" and ?out = "push_outgoing d s outgoing"
  have "bt_ok ?ind" "bt_ok ?out" "snd ` set es \<subseteq> dom (map_of ?ind)"
    using Cons.prems n by (auto simp: push_outgoing_ok update_conv' intro: bt_ok_update)
  from Cons.IH [OF this] obtain indegree' outgoing' where
    "index_edges ?ind ?out es = Inr (indegree', outgoing')" "bt_ok indegree'"
    "\<forall>x. map_of indegree' x = map_option (\<lambda>n. n + count_list (map snd es) x) (map_of ?ind x)"
    "\<forall>x. dependents_of outgoing' x = dependents_of ?out x @ map snd (filter (\<lambda>e. fst e = x) es)"
    by blast
  with e n Cons.prems show ?case
    by (intro exI [of _ indegree'] exI [of _ outgoing'])
       (auto simp: push_outgoing_ok update_conv')
qed

lemma initial_indegree:
  "bt_ok m \<Longrightarrow> bt_ok (fold (\<lambda>s. bt_insert (st_id s) (0 :: nat)) ss m) \<and>
   map_of (fold (\<lambda>s. bt_insert (st_id s) 0) ss m) =
     (\<lambda>x. if x \<in> st_id ` set ss then Some 0 else map_of m x)"
proof (induction ss arbitrary: m)
  case (Cons s ss)
  from Cons.IH [OF bt_ok_insert [OF Cons.prems, of "st_id s" 0]] show ?case
    by (auto simp: map_of_bt_insert Cons.prems)
qed simp

section \<open>The loop\<close>

lemma release_dependents_ok:
  assumes "\<And>s. s \<in> set ds \<Longrightarrow> \<exists>n. map_of indegree s = Some n \<and> count_list ds s \<le> n"
  shows "\<exists>indegree' new. release_dependents indegree ready ds = Some (Inr (indegree', ready @ new))
     \<and> (\<forall>s. map_of indegree' s = map_option (\<lambda>n. n - count_list ds s) (map_of indegree s))
     \<and> distinct new \<and> set new = {s \<in> set ds. map_of indegree s = Some (count_list ds s)}"
  using assms
proof (induction ds arbitrary: indegree ready)
  case Nil
  then show ?case by (simp add: option.map_ident)
next
  case (Cons d ds)
  from Cons.prems [of d] obtain n where n: "map_of indegree d = Some n" "Suc (count_list ds d) \<le> n" by auto
  then obtain k where k: "map_of indegree d = Some (Suc k)" "count_list ds d \<le> k" by (cases n) auto
  let ?ind = "AList.update d k indegree"
  have "\<exists>n. map_of ?ind s = Some n \<and> count_list ds s \<le> n" if "s \<in> set ds" for s
    using Cons.prems [of s] that k by (auto simp: update_conv' split: if_splits)
  from Cons.IH [OF this, of "if k = 0 then ready @ [d] else ready"]
  obtain indegree' new where rest:
    "release_dependents ?ind (if k = 0 then ready @ [d] else ready) ds
       = Some (Inr (indegree', (if k = 0 then ready @ [d] else ready) @ new))"
    "\<forall>s. map_of indegree' s = map_option (\<lambda>n. n - count_list ds s) (map_of ?ind s)"
    "distinct new" "set new = {s \<in> set ds. map_of ?ind s = Some (count_list ds s)}"
    by blast
  have free: "k = 0 \<Longrightarrow> d \<notin> set ds" using k(2) by (simp add: count_list_0_iff [symmetric] del: count_list_0_iff)
  have waiting: "d \<in> set ds \<or> k \<noteq> count_list ds d \<or> k = 0" by (auto simp: count_list_0_iff)
  define all_new where "all_new = (if k = 0 then [d] else []) @ new"
  have "release_dependents indegree ready (d # ds) = Some (Inr (indegree', ready @ all_new))"
    using k rest(1) by (simp add: all_new_def)
  moreover have "map_of indegree' s = map_option (\<lambda>n. n - count_list (d # ds) s) (map_of indegree s)" for s
    using k rest(2) by (simp add: update_conv')
  moreover have "distinct all_new"
    using rest(3,4) free by (auto simp: all_new_def)
  moreover have "s \<in> set all_new \<longleftrightarrow> s \<in> set (d # ds) \<and> map_of indegree s = Some (count_list (d # ds) s)" for s
  proof (cases "s = d")
    case True
    have "s \<in> set all_new \<longleftrightarrow> k = 0 \<or> d \<in> set ds \<and> k = count_list ds d"
      using True rest(4) by (auto simp: all_new_def update_conv')
    with True k free waiting show ?thesis by (auto simp: count_notin)
  next
    case False
    then show ?thesis using rest(4) by (auto simp: all_new_def update_conv')
  qed
  ultimately show ?case by blast
qed

text \<open>What holds when the steps \<open>done_steps\<close> have left the queue, in this order.\<close>

definition deps_first :: "WorkflowStep list \<Rightarrow> str list \<Rightarrow> bool" where
  "deps_first ss xs \<longleftrightarrow> (\<forall>p x q. xs = p @ x # q \<longrightarrow> set (deps_of ss x) \<subseteq> set p)"

definition startable :: "WorkflowStep list \<Rightarrow> str set \<Rightarrow> str set" where
  "startable ss fin = {x \<in> st_id ` set ss. set (deps_of ss x) \<subseteq> fin}"

definition visit_inv ::
  "WorkflowStep list \<Rightarrow> str list \<Rightarrow> (str \<times> nat) list \<Rightarrow> str list \<Rightarrow> bool" where
  "visit_inv ss done_steps indegree ready \<longleftrightarrow>
     (\<forall>x \<in> st_id ` set ss. map_of indegree x = Some (length (filter (\<lambda>d. d \<notin> set done_steps) (deps_of ss x))))
     \<and> distinct (done_steps @ ready) \<and> set (done_steps @ ready) = startable ss (set done_steps)
     \<and> deps_first ss done_steps"

lemma deps_first_snoc: "deps_first ss xs \<Longrightarrow> set (deps_of ss x) \<subseteq> set xs \<Longrightarrow> deps_first ss (xs @ [x])"
  by (auto simp: deps_first_def append_eq_append_conv2 append_eq_Cons_conv Cons_eq_append_conv)

lemma waiting_split:
  "x \<notin> V \<Longrightarrow> length (filter (\<lambda>d. d \<notin> V) ds) = count_list ds x + length (filter (\<lambda>d. d \<notin> insert x V) ds)"
  by (induction ds) auto

lemma count_waiting_edges:
  "count_list (map snd (filter (\<lambda>e. fst e = x) es)) y = count_list (map fst (filter (\<lambda>e. snd e = y) es)) x"
  by (induction es) auto

lemma visit_inv_step:
  assumes inv: "visit_inv ss done_steps indegree (x # rest)"
    and out: "\<forall>y. dependents_of outgoing y = map snd (filter (\<lambda>e. fst e = y) (dependency_entries ss))"
  shows "\<exists>indegree' ready'. release_dependents indegree rest (dependents_of outgoing x) = Some (Inr (indegree', ready'))
           \<and> visit_inv ss (done_steps @ [x]) indegree' ready'"
proof -
  let ?V = "set done_steps" and ?ds = "dependents_of outgoing x" and ?ids = "st_id ` set ss"
  have deg: "\<And>s. s \<in> ?ids \<Longrightarrow> map_of indegree s = Some (length (filter (\<lambda>d. d \<notin> ?V) (deps_of ss s)))"
    and dist: "distinct (done_steps @ x # rest)"
    and queue: "set (done_steps @ x # rest) = startable ss ?V"
    and first: "deps_first ss done_steps"
    using inv by (auto simp: visit_inv_def)
  have x: "x \<notin> ?V" using dist by simp
  have cnt: "count_list ?ds s = count_list (deps_of ss s) x" for s
    by (simp add: out deps_of_def count_waiting_edges)
  have ids: "set ?ds = {s. x \<in> set (deps_of ss s)}" "set ?ds \<subseteq> ?ids"
    by (force simp: out set_deps_of set_dependency_entries waits_for_def)+
  have "\<exists>n. map_of indegree s = Some n \<and> count_list ?ds s \<le> n" if "s \<in> set ?ds" for s
    using deg [of s] ids that waiting_split [OF x, of "deps_of ss s"] by (auto simp: cnt)
  from release_dependents_ok [OF this, of rest] obtain indegree' new where new:
    "release_dependents indegree rest ?ds = Some (Inr (indegree', rest @ new))"
    "\<And>s. map_of indegree' s = map_option (\<lambda>n. n - count_list ?ds s) (map_of indegree s)"
    "distinct new" "set new = {s \<in> set ?ds. map_of indegree s = Some (count_list ?ds s)}"
    by blast
  have new_iff: "s \<in> set new \<longleftrightarrow> s \<in> ?ids \<and> x \<in> set (deps_of ss s) \<and> set (deps_of ss s) \<subseteq> insert x ?V" for s
  proof (cases "x \<in> set (deps_of ss s)")
    case True
    then have "s \<in> ?ids" using ids by auto
    with True new(4) ids(1) deg [of s] waiting_split [OF x, of "deps_of ss s"] show ?thesis
      by (auto simp: cnt filter_empty_conv)
  qed (use new(4) ids(1) in auto)
  have "visit_inv ss (done_steps @ [x]) indegree' (rest @ new)"
    unfolding visit_inv_def
  proof (intro conjI ballI)
    fix s assume "s \<in> ?ids"
    then show "map_of indegree' s = Some (length (filter (\<lambda>d. d \<notin> set (done_steps @ [x])) (deps_of ss s)))"
      using deg waiting_split [OF x, of "deps_of ss s"] by (simp add: new(2) cnt)
  next
    show "distinct ((done_steps @ [x]) @ rest @ new)"
    proof -
      have "startable ss ?V \<inter> set new = {}" using x by (auto simp: new_iff startable_def)
      with dist new(3) show ?thesis unfolding queue [symmetric] by auto
    qed
  next
    have "s \<in> set new \<or> s \<in> startable ss ?V \<longleftrightarrow> s \<in> startable ss (insert x ?V)" for s
      by (auto simp: new_iff startable_def)
    with queue show "set ((done_steps @ [x]) @ rest @ new) = startable ss (set (done_steps @ [x]))" by auto
  next
    show "deps_first ss (done_steps @ [x])"
      using queue first by (intro deps_first_snoc) (auto simp: startable_def)
  qed
  with new(1) show ?thesis by blast
qed

text \<open>The loop ends without a panic, having visited a closed set of steps, dependencies first.\<close>

lemma visit_ready_ok:
  assumes "visit_inv ss done_steps indegree ready"
    and "\<forall>y. dependents_of outgoing y = map snd (filter (\<lambda>e. fst e = y) (dependency_entries ss))"
  shows "\<exists>order. visit_ready outgoing indegree ready (length done_steps) = Some (Inr (length order))
           \<and> distinct order \<and> deps_first ss order \<and> set order = startable ss (set order)"
  using assms
proof (induction outgoing indegree ready "length done_steps" arbitrary: done_steps rule: visit_ready.induct)
  case (1 outgoing indegree ready)
  show ?case
  proof (cases ready)
    case Nil
    with "1.prems"(1) show ?thesis
      by (intro exI [of _ done_steps]) (simp add: visit_ready.simps visit_inv_def)
  next
    case (Cons x rest)
    from visit_inv_step [OF "1.prems"(1) [unfolded Cons] "1.prems"(2)] obtain indegree' ready' where step:
      "release_dependents indegree rest (dependents_of outgoing x) = Some (Inr (indegree', ready'))"
      "visit_inv ss (done_steps @ [x]) indegree' ready'" by blast
    have "visit_ready outgoing indegree ready (length done_steps) = visit_ready outgoing indegree' ready' (length (done_steps @ [x]))"
      unfolding Cons by (subst visit_ready.simps) (simp add: step(1))
    with "1.hyps" [OF Cons step(1) refl refl, of "done_steps @ [x]"] step(2) "1.prems"(2)
    show ?thesis by simp
  qed
qed

lemma deps_first_acyclic:
  assumes "distinct order" "deps_first ss order" "set order = st_id ` set ss"
  shows "acyclic (waits_for ss)"
proof -
  define pos where "pos x = (LEAST i. i < length order \<and> order ! i = x)" for x
  have pos: "pos (order ! i) = i" if "i < length order" for i
    using that assms(1) unfolding pos_def by (intro Least_equality) (auto simp: nth_eq_iff_index_eq)
  have "pos d < pos s" if "(d, s) \<in> waits_for ss" for d s
  proof -
    have s: "s \<in> set order" using that assms(3) by (auto simp: waits_for_def)
    then obtain i where i: "i < length order" "order ! i = s" by (auto simp: in_set_conv_nth)
    have "d \<in> set (take i order)"
      using assms(2) i that id_take_nth_drop [of i order] by (auto simp: deps_first_def set_deps_of)
    then obtain j where "j < i" "order ! j = d" by (auto simp: in_set_conv_nth)
    with i pos [of i] pos [of j] show ?thesis by auto
  qed
  then have "waits_for ss \<subseteq> measure pos" by auto
  then show ?thesis by (meson acyclic_subset wf_acyclic wf_measure)
qed

text \<open>In an acyclic graph a step that is not finished, all of whose dependencies are, always exists.\<close>

lemma acyclic_startable:
  assumes "closed_graph ss" "acyclic (waits_for ss)" "\<not> st_id ` set ss \<subseteq> fin"
  shows "\<exists>x \<in> startable ss fin. x \<notin> fin"
proof -
  have "waits_for ss \<subseteq> (\<Union>s \<in> set ss. set (st_depends_on s)) \<times> (st_id ` set ss)"
    by (auto simp: waits_for_def)
  then have "finite (waits_for ss)" by (rule finite_subset) auto
  then have "wf (waits_for ss)" using assms(2) by (rule finite_acyclic_wf)
  moreover have "st_id ` set ss - fin \<noteq> {}" using assms(3) by auto
  ultimately obtain x where x: "x \<in> st_id ` set ss - fin"
    "\<And>d. (d, x) \<in> waits_for ss \<Longrightarrow> d \<notin> st_id ` set ss - fin"
    using wfE_min' [of "waits_for ss" "st_id ` set ss - fin"] by metis
  have "d \<in> st_id ` set ss" if "(d, x) \<in> waits_for ss" for d
    using that assms(1) by (auto simp: waits_for_def closed_graph_def)
  with x show ?thesis by (auto simp: startable_def set_deps_of)
qed

text \<open>The loop starts from the steps without dependencies.\<close>

lemma index_ok:
  assumes "closed_graph ss"
  shows "\<exists>indegree outgoing.
     index_edges (fold (\<lambda>s. bt_insert (st_id s) 0) ss []) [] (dependency_entries ss) = Inr (indegree, outgoing)
     \<and> visit_inv ss [] indegree (map fst (filter (\<lambda>(_, degree). degree = 0) indegree))
     \<and> (\<forall>y. dependents_of outgoing y = map snd (filter (\<lambda>e. fst e = y) (dependency_entries ss)))"
proof -
  let ?start = "fold (\<lambda>s. bt_insert (st_id s) (0 :: nat)) ss []" and ?ids = "st_id ` set ss"
  have start: "bt_ok ?start" "map_of ?start = (\<lambda>x. if x \<in> ?ids then Some 0 else None)"
    using initial_indegree [of "[]" ss] by (auto simp: bt_ok_def)
  have "snd ` set (dependency_entries ss) \<subseteq> dom (map_of ?start)"
    by (auto simp: start(2) dom_def dependency_entries_def)
  from index_edges_ok [OF start(1) _ this, of "[]"] obtain indegree outgoing where built:
    "index_edges ?start [] (dependency_entries ss) = Inr (indegree, outgoing)" "bt_ok indegree"
    "\<forall>x. map_of indegree x = map_option (\<lambda>n. n + count_list (map snd (dependency_entries ss)) x) (map_of ?start x)"
    "\<forall>x. dependents_of outgoing x = map snd (filter (\<lambda>e. fst e = x) (dependency_entries ss))"
    by (auto simp: bt_ok_def dependents_of_def)
  have "count_list (map snd es) x = length (filter (\<lambda>e. snd e = x) es)" for x :: str and es :: "(str \<times> str) list"
    by (induction es) auto
  then have deg: "map_of indegree x = (if x \<in> ?ids then Some (length (deps_of ss x)) else None)" for x
    by (simp add: built(3) start(2) deps_of_def)
  let ?ready = "map fst (filter (\<lambda>(_, degree). degree = 0) indegree)"
  have dist: "distinct (map fst indegree)" by (rule bt_ok_distinct [OF built(2)])
  have "set ?ready = {x. map_of indegree x = Some 0}"
    using dist by (force simp: map_of_eq_Some_iff)
  then have "set ?ready = startable ss {}"
    by (auto simp: deg startable_def split: if_splits)
  moreover have "distinct ?ready" using dist by (rule distinct_map_filter)
  ultimately have "visit_inv ss [] indegree ?ready"
    by (auto simp: visit_inv_def deg deps_first_def)
  with built show ?thesis by blast
qed

lemma acyclic_check_total:
  assumes "closed_graph ss"
  shows "\<exists>order. distinct order \<and> deps_first ss order \<and> set order = startable ss (set order)
     \<and> validate_acyclic_dependencies ss =
         Some (reject_if (length order \<noteq> length ss) (lit ''workflow step dependencies contain a cycle''))"
proof -
  from index_ok [OF assms] obtain indegree outgoing where built:
    "index_edges (fold (\<lambda>s. bt_insert (st_id s) 0) ss []) [] (dependency_entries ss) = Inr (indegree, outgoing)"
    "visit_inv ss [] indegree (map fst (filter (\<lambda>(_, degree). degree = 0) indegree))"
    "\<forall>y. dependents_of outgoing y = map snd (filter (\<lambda>e. fst e = y) (dependency_entries ss))"
    by blast
  from visit_ready_ok [OF built(2,3)] obtain order where
    "visit_ready outgoing indegree (map fst (filter (\<lambda>(_, degree). degree = 0) indegree)) 0 = Some (Inr (length order))"
    "distinct order" "deps_first ss order" "set order = startable ss (set order)"
    by auto
  with built(1) show ?thesis
    by (intro exI [of _ order]) (simp add: validate_acyclic_dependencies_def)
qed

lemma acyclic_check_iff:
  assumes "closed_graph ss"
  shows "validate_acyclic_dependencies ss = Some (Inr ()) \<longleftrightarrow> acyclic (waits_for ss)"
proof -
  from acyclic_check_total [OF assms] obtain order where order:
    "distinct order" "deps_first ss order" "set order = startable ss (set order)"
    "validate_acyclic_dependencies ss =
       Some (reject_if (length order \<noteq> length ss) (lit ''workflow step dependencies contain a cycle''))"
    by blast
  have sub: "set order \<subseteq> st_id ` set ss" using order(3) by (auto simp: startable_def)
  have card: "card (st_id ` set ss) = length ss"
    using assms distinct_card [of "map st_id ss"] by (simp add: closed_graph_def)
  have "length order = length ss \<longleftrightarrow> set order = st_id ` set ss"
    using sub card distinct_card [OF order(1)] card_subset_eq [OF _ sub] by auto
  also have "\<dots> \<longleftrightarrow> acyclic (waits_for ss)"
    using deps_first_acyclic [OF order(1,2)] acyclic_startable [OF assms, of "set order"] sub order(3) by blast
  finally show ?thesis by (simp add: order(4) reject_if_Inr_iff)
qed

end
