(* ===== verification/Workflow_Parse.thy ===== *)
theory Workflow_Parse
  imports Workflow_Graph
begin

text \<open>
  Validation of a whole specification (\<^verbatim>\<open>WorkflowSpec::validate\<close> in
  \<^verbatim>\<open>codex-rs/workflows/src/validation.rs\<close>) and the parser of \<^verbatim>\<open>parse.rs\<close>. The YAML library is a
  parameter: \<open>from_str\<close> reads a document and \<open>from_value\<close> a value, each with the text of its error.
\<close>

section \<open>Steps\<close>

definition validate_step :: "str set \<Rightarrow> str set \<Rightarrow> WorkflowStep \<Rightarrow> check" where
  "validate_step agent_ids step_ids step =
     (let named = lit ''step '' @ backquoted (st_id step)
      in first_error
       [validate_prompt_field (lit ''step.title'') (st_title step),
        reject_if (st_agent step \<notin> agent_ids) (named @ lit '' references unknown agent '' @ backquoted (st_agent step)),
        (case st_model step of
           None \<Rightarrow> invalid (named @ lit '' must include an exact model route'')
         | Some model \<Rightarrow> validate_route (lit ''steps.'' @ st_id step @ lit ''.model'') model),
        check_opt (validate_identifier (lit ''step.parallel_group'')) (st_parallel_group step),
        validate_string_list (lit ''step.outputs'') (st_outputs step),
        validate_dependencies step step_ids,
        (case st_completion step of
           None \<Rightarrow> invalid (named @ lit '' must include verifier-gated completion'')
         | Some completion \<Rightarrow> validate_completion (st_id step) completion)])"

definition then_check :: "check \<Rightarrow> check option \<Rightarrow> check option" where
  "then_check c k = (case c of Inl e \<Rightarrow> Some (Inl e) | Inr _ \<Rightarrow> k)"

definition validate_steps :: "'n WorkflowSpec \<Rightarrow> check option" where
  "validate_steps spec =
     (let agent_ids = set (map ag_id (agents spec)); step_ids = set (map st_id (steps spec))
      in then_check
           (first_error
              (unique_loop st_id
                 (\<lambda>step. validate_identifier (lit ''step.id'') (st_id step))
                 (\<lambda>step. lit ''step id '' @ backquoted (st_id step) @ lit '' is duplicated'')
                 (\<lambda>step. Inr ()) {} (steps spec)
               # map (validate_step agent_ids step_ids) (steps spec)))
           (validate_acyclic_dependencies (steps spec)))"

section \<open>The whole specification\<close>

definition is_adversarial_text :: "str \<Rightarrow> bool" where
  "is_adversarial_text value \<longleftrightarrow>
     list_ex (\<lambda>word. contains_str (lit word) (to_ascii_lowercase value))
       [''adversary'', ''adversarial'', ''red team'', ''red_team'']"

definition validate_adversarial_work :: "'n WorkflowSpec \<Rightarrow> check" where
  "validate_adversarial_work spec =
     (let adversarial_agents =
            length (filter (\<lambda>agent. is_adversarial_text (ag_id agent)
                \<or> is_adversarial_text (ag_display_name agent) \<or> is_adversarial_text (ag_role agent)) (agents spec));
          adversarial_steps =
            length (filter (\<lambda>step. is_adversarial_text (st_id step) \<or> is_adversarial_text (st_title step)) (steps spec))
      in reject_if (adversarial_agents = 0 \<and> adversarial_steps = 0)
           (lit ''draft workflows must include adversarial work by at least one agent or one step''))"

definition validate_status :: "'n WorkflowSpec \<Rightarrow> check" where
  "validate_status spec =
     (case ws_status spec of
        Draft \<Rightarrow>
          first_error
            [reject_if (agents spec = []) (lit ''draft workflows must define at least one agent''),
             reject_if (steps spec = []) (lit ''draft workflows must define at least one step''),
             validate_adversarial_work spec]
      | NeedsClarification \<Rightarrow>
          reject_if (questions spec = [] \<and> blocking_reasons spec = [])
            (lit ''needs_clarification workflows must include questions or blocking_reasons'')
      | Blocked \<Rightarrow>
          reject_if (blocking_reasons spec = []) (lit ''blocked workflows must include blocking_reasons''))"

definition validate :: "'n WorkflowSpec \<Rightarrow> check option" where
  "validate spec =
     then_check
       (first_error
          [reject_if (schema_version spec \<noteq> SUPPORTED_SCHEMA_VERSION)
             (lit ''unsupported schema_version '' @ backquoted (schema_version spec) @ lit ''; expected ''
              @ backquoted SUPPORTED_SCHEMA_VERSION),
           validate_identifier (lit ''workflow_id'') (workflow_id spec),
           validate_prompt_field (lit ''display_name'') (ws_display_name spec),
           validate_non_empty (lit ''source_prompt'') (source_prompt spec),
           validate_route (lit ''execution_defaults'') (execution_defaults spec),
           validate_limits (limits spec),
           validate_string_list (lit ''approvals.required_before'') (required_before (approvals spec)),
           validate_string_list (lit ''artifacts.required'') (required (artifacts spec)),
           validate_non_empty (lit ''artifacts.retention'') (retention (artifacts spec)),
           validate_string_list (lit ''cleanup.on_cancel'') (on_cancel (cleanup spec)),
           validate_string_list (lit ''cleanup.on_complete'') (on_complete (cleanup spec)),
           validate_agents spec])
       (case validate_steps spec of
          None \<Rightarrow> None
        | Some c \<Rightarrow>
            then_check c
              (let step_ids = set (map st_id (steps spec))
               in Some (first_error
                    [validate_loops spec step_ids,
                     validate_monitor_links (monitors spec) step_ids,
                     validate_status spec])))"

section \<open>Parsing\<close>

definition unsupported_yaml_feature :: "str \<Rightarrow> string \<Rightarrow> check" where
  "unsupported_yaml_feature path feature = Inl (UnsupportedYamlFeature path (lit feature))"

function reject_unsupported_yaml_features :: "'n yaml_value \<Rightarrow> str \<Rightarrow> check" where
  "reject_unsupported_yaml_features value path =
     (case value of
        YTagged _ _ \<Rightarrow> unsupported_yaml_feature path ''custom YAML tags are not allowed''
      | YMapping mapping \<Rightarrow>
          first_error
            (map (\<lambda>(key, nested).
                case key of
                  YString key \<Rightarrow>
                    if key = lit ''<<'' then unsupported_yaml_feature path ''YAML merge keys are not allowed''
                    else reject_unsupported_yaml_features nested (dotted path key)
                | _ \<Rightarrow> unsupported_yaml_feature path ''mapping keys must be strings'')
              mapping)
      | YSequence sequence \<Rightarrow>
          first_error
            (map (\<lambda>(index, nested). reject_unsupported_yaml_features nested (indexed path index))
              (enumerate 0 sequence))
      | _ \<Rightarrow> Inr ())"
  by pat_completeness auto
termination
proof -
  have "size (xs ! i) < Suc (size_list size xs)" if "i < length xs" for i and xs :: "'n yaml_value list"
    using that by (simp add: less_Suc_eq_le size_list_estimation' [where x = "xs ! i"])
  moreover have "size v < Suc (size_list (size_prod size size) m)" if "(k, v) \<in> set m"
    for k v and m :: "('n yaml_value \<times> 'n yaml_value) list"
    using size_list_estimation' [OF that, of "size v" "size_prod size size"] by (simp add: less_Suc_eq_le)
  ultimately show ?thesis
    by (relation "measure (\<lambda>(v, path). size v)") (auto simp: in_set_enumerate_eq)
qed

declare reject_unsupported_yaml_features.simps [simp del]

definition parse_workflow_yaml ::
  "(str \<Rightarrow> str + 'n yaml_value) \<Rightarrow> ('n yaml_value \<Rightarrow> str + 'n WorkflowSpec) \<Rightarrow> str \<Rightarrow>
   (WorkflowSpecError + 'n WorkflowSpec) option" where
  "parse_workflow_yaml from_str from_value raw =
     (let trimmed = trim raw
      in if utf8_len raw > MAX_WORKFLOW_YAML_BYTES
         then Some (Inl (DocumentTooLarge (utf8_len raw) MAX_WORKFLOW_YAML_BYTES))
         else if trimmed = [] then Some (Inl EmptyDocument)
         else if starts_with (replicate 3 96) trimmed \<or> contains_str (nl # replicate 3 96) trimmed
         then Some (Inl MarkdownFence)
         else case from_str raw of
                Inl e \<Rightarrow> Some (Inl (ParseYaml e))
              | Inr value \<Rightarrow>
                  (case reject_unsupported_yaml_features value (lit ''$'') of
                     Inl e \<Rightarrow> Some (Inl e)
                   | Inr _ \<Rightarrow>
                       (case from_value value of
                          Inl e \<Rightarrow> Some (Inl (ParseYaml e))
                        | Inr spec \<Rightarrow>
                            (case validate spec of
                               None \<Rightarrow> None
                             | Some (Inl e) \<Rightarrow> Some (Inl e)
                             | Some (Inr _) \<Rightarrow> Some (Inr spec)))))"

section \<open>What validation requires\<close>

text \<open>The same requirements, stated without messages and in no particular order.\<close>

definition text_ok :: "str \<Rightarrow> bool" where
  "text_ok s \<longleftrightarrow> trim s \<noteq> []"

definition title_ok :: "str \<Rightarrow> bool" where
  "title_ok s \<longleftrightarrow> text_ok s \<and> length s \<le> 240"

definition identifier_ok :: "str \<Rightarrow> bool" where
  "identifier_ok s \<longleftrightarrow> s \<noteq> [] \<and> length s \<le> 128 \<and> (\<forall>c \<in> set s. is_identifier_char c)"

definition exact_ok :: "str \<Rightarrow> bool" where
  "exact_ok s \<longleftrightarrow> text_ok s \<and> to_ascii_lowercase (trim s) \<notin> set PLACEHOLDER_ROUTE_VALUES"

definition budget_ok :: "str \<Rightarrow> bool" where
  "budget_ok s \<longleftrightarrow> text_ok s \<and> (\<exists>v. parse_f64 s = Some v \<and> finite_and_positive v)"

definition fallback_ok :: "WorkflowModelRoutingFallback \<Rightarrow> bool" where
  "fallback_ok f \<longleftrightarrow> (\<forall>r \<in> set_option (rf_reason f). text_ok r) \<and> (rf_used f \<longrightarrow> rf_reason f \<noteq> None)"

definition routing_error_ok :: "WorkflowModelRoutingError \<Rightarrow> bool" where
  "routing_error_ok e \<longleftrightarrow> identifier_ok (re_code e) \<and> text_ok (re_message e)"

definition decision_ok :: "WorkflowModelRoutingDecision \<Rightarrow> bool" where
  "decision_ok d \<longleftrightarrow>
     (\<forall>w \<in> set (rd_warnings d). text_ok w) \<and> (\<forall>f \<in> set_option (rd_fallback d). fallback_ok f)
     \<and> (\<forall>e \<in> set (rd_errors d). routing_error_ok e) \<and> (\<forall>t \<in> set_option (rd_explanation d). text_ok t)
     \<and> (if rd_status d = Error then rd_errors d \<noteq> []
        else (\<forall>v \<in> {rd_model_gateway d, rd_provider d, rd_model d, rd_reasoning d}. \<exists>s. v = Some s \<and> exact_ok s)
          \<and> (\<forall>t \<in> set_option (rd_service_tier d). exact_ok t) \<and> (\<forall>p \<in> set_option (rd_auth_profile d). text_ok p)
          \<and> rd_explanation d \<noteq> None
          \<and> (rd_status d = Fallback \<longrightarrow> (\<exists>f. rd_fallback d = Some f \<and> rf_used f)))"

definition context_ok :: "WorkflowModelRoutingContext \<Rightarrow> bool" where
  "context_ok c \<longleftrightarrow>
     (\<forall>i \<in> set_option (rx_task_id c). identifier_ok i) \<and> (\<forall>t \<in> set_option (rx_task_title c). title_ok t)
     \<and> (\<forall>v \<in> {rx_project_path c, rx_auth_profile c, rx_approval_policy c, rx_permission_profile c, rx_worktree_mode c}.
          \<forall>s \<in> set_option v. text_ok s)
     \<and> (\<forall>t \<in> set (rx_tags c). text_ok t)"

definition constraints_ok :: "WorkflowModelRoutingConstraints \<Rightarrow> bool" where
  "constraints_ok c \<longleftrightarrow>
     (\<forall>vs \<in> {rc_allowed_model_gateways c, rc_preferred_model_gateways c, rc_allowed_providers c,
             rc_preferred_providers c, rc_allowed_models c, rc_preferred_models c, rc_allowed_reasoning c,
             rc_preferred_reasoning c, rc_allowed_service_tiers c, rc_preferred_service_tiers c}.
        \<forall>v \<in> set vs. exact_ok v)
     \<and> (\<forall>vs \<in> {rc_allowed_auth_profiles c, rc_allowed_approval_policies c, rc_allowed_permission_profiles c,
                rc_allowed_worktree_modes c}.
        \<forall>v \<in> set vs. text_ok v)
     \<and> rc_max_context_tokens c \<noteq> Some 0 \<and> (\<forall>b \<in> set_option (rc_budget_usd c). budget_ok b)"

definition contract_ok :: "WorkflowModelRoutingContract \<Rightarrow> bool" where
  "contract_ok c \<longleftrightarrow>
     text_ok (ro_contract_version c) \<and> context_ok (rr_context (ro_request c))
     \<and> constraints_ok (rr_constraints (ro_request c)) \<and> (\<forall>d \<in> set_option (ro_decision c). decision_ok d)"

definition route_ok :: "WorkflowModelRoute \<Rightarrow> bool" where
  "route_ok r \<longleftrightarrow>
     (\<forall>v \<in> {mr_model_gateway r, mr_provider r, mr_model r, mr_reasoning r}. exact_ok v)
     \<and> (\<forall>t \<in> set_option (mr_service_tier r). exact_ok t)
     \<and> (\<forall>v \<in> {mr_approval_policy r, mr_permission_profile r}. \<forall>s \<in> set_option v. text_ok s)
     \<and> (\<forall>c \<in> set_option (mr_routing r). contract_ok c)"

lemma utf8_len_ascii: "(\<forall>c \<in> set s. is_identifier_char c) \<Longrightarrow> utf8_len s = length s"
  by (induction s) (auto simp: utf8_len_def utf8_width_def is_identifier_char_def is_ascii_digit_def)

lemma identifier_char_not_whitespace: "is_identifier_char c \<Longrightarrow> \<not> is_whitespace c"
  by (auto simp: is_identifier_char_def is_ascii_digit_def is_whitespace_def)

lemma validate_non_empty_iff [result_simps]: "validate_non_empty path v = Inr u \<longleftrightarrow> text_ok v"
  by (simp add: validate_non_empty_def reject_if_Inr_iff text_ok_def)

lemma validate_prompt_field_iff [result_simps]: "validate_prompt_field path v = Inr u \<longleftrightarrow> title_ok v"
  by (auto simp: validate_prompt_field_def result_simps title_ok_def MAX_WORKFLOW_PROMPT_FIELD_CHARS_def)

lemma validate_identifier_iff [result_simps]: "validate_identifier path v = Inr u \<longleftrightarrow> identifier_ok v"
proof -
  have "trim v = v" if "\<forall>c \<in> set v. is_identifier_char c"
  proof (cases "v = []")
    case False
    with that show ?thesis by (simp add: trim_id identifier_char_not_whitespace)
  qed (simp add: trim_def)
  then show ?thesis
    by (auto simp: validate_identifier_def result_simps text_ok_def identifier_ok_def list_all_iff utf8_len_ascii)
qed

lemma validate_string_list_iff [result_simps]: "validate_string_list path vs = Inr u \<longleftrightarrow> (\<forall>v \<in> set vs. text_ok v)"
  by (simp add: validate_string_list_def check_indexed_Inr_iff validate_non_empty_iff all_set_conv_all_nth)

lemma validate_route_field_iff [result_simps]: "validate_route_field path field v = Inr u \<longleftrightarrow> exact_ok v"
  by (simp add: validate_route_field_def result_simps exact_ok_def)

lemma validate_route_value_list_iff [result_simps]:
  "validate_route_value_list path field vs = Inr u \<longleftrightarrow> (\<forall>v \<in> set vs. exact_ok v)"
  by (simp add: validate_route_value_list_def check_indexed_Inr_iff validate_route_field_iff all_set_conv_all_nth)

lemma text_ok_unwrap [simp]: "text_ok (unwrap_or_default v) \<longleftrightarrow> (\<exists>s. v = Some s \<and> text_ok s)"
  by (cases v) (simp_all add: unwrap_or_default_def text_ok_def trim_def)

lemma exact_ok_unwrap [simp]: "exact_ok (unwrap_or_default v) \<longleftrightarrow> (\<exists>s. v = Some s \<and> exact_ok s)"
  by (cases v) (simp_all add: unwrap_or_default_def exact_ok_def text_ok_def trim_def)

lemma validate_budget_iff [result_simps]: "validate_budget path b = Inr u \<longleftrightarrow> budget_ok b"
  by (auto simp: validate_budget_def result_simps budget_ok_def split: option.splits)

lemma validate_fallback_iff [result_simps]: "validate_fallback path f = Inr u \<longleftrightarrow> fallback_ok f"
  by (auto simp: validate_fallback_def result_simps fallback_ok_def)

lemma validate_routing_errors_iff [result_simps]:
  "validate_routing_errors path es = Inr u \<longleftrightarrow> (\<forall>e \<in> set es. routing_error_ok e)"
  by (simp add: validate_routing_errors_def validate_routing_error_def check_indexed_Inr_iff result_simps
      routing_error_ok_def all_set_conv_all_nth)

lemma validate_decision_iff [result_simps]: "validate_decision path d = Inr u \<longleftrightarrow> decision_ok d"
  by (cases "rd_status d")
     (auto simp: validate_decision_def validate_required_decision_route_field_def result_simps decision_ok_def
      split: option.splits)

lemma validate_constraints_iff [result_simps]: "validate_constraints path c = Inr u \<longleftrightarrow> constraints_ok c"
  by (simp add: validate_constraints_def result_simps constraints_ok_def conj_assoc)

lemma validate_context_iff [result_simps]: "validate_context path c = Inr u \<longleftrightarrow> context_ok c"
  by (simp add: validate_context_def result_simps context_ok_def conj_assoc)

lemma validate_contract_iff [result_simps]: "validate_contract path c = Inr u \<longleftrightarrow> contract_ok c"
  by (simp add: validate_contract_def validate_request_def result_simps contract_ok_def conj_assoc)

lemma validate_route_iff [result_simps]: "validate_route path r = Inr u \<longleftrightarrow> route_ok r"
  by (simp add: validate_route_def result_simps route_ok_def conj_assoc)

end
