(* ===== verification/Workflow_Properties.thy ===== *)
theory Workflow_Properties
  imports Workflow_Parse
begin

text \<open>
  The properties of workflow validation: it always returns, accepts exactly the well-formed
  specifications, and what it accepts can be run to the end.
\<close>

section \<open>Well-formed specifications\<close>

definition limits_ok :: "WorkflowLimits \<Rightarrow> bool" where
  "limits_ok l \<longleftrightarrow>
     0 < max_parallel_steps l \<and> 0 < max_agents l \<and> 0 < max_runtime_seconds l
     \<and> 0 < max_step_runtime_seconds l \<and> 0 < max_tokens l \<and> 0 < max_tool_calls l"

definition agent_ok :: "WorkflowAgent \<Rightarrow> bool" where
  "agent_ok a \<longleftrightarrow>
     identifier_ok (ag_id a) \<and> is_ancient_display_name (ag_display_name a) \<and> text_ok (ag_role a)
     \<and> route_ok (ag_model a)"

definition verifier_ok :: "WorkflowVerifier \<Rightarrow> bool" where
  "verifier_ok v \<longleftrightarrow>
     identifier_ok (wv_id v)
     \<and> (wv_kind v = ARTIFACT_CONTAINS_VERIFIER
          \<and> (\<exists>a. wv_artifact v = Some a \<and> text_ok a)
          \<and> wv_must_contain v \<noteq> [] \<and> (\<forall>t \<in> set (wv_must_contain v). text_ok t)
        \<or> wv_kind v = RUN_COMMANDS_VERIFIER
          \<and> (\<forall>f \<in> {wv_cwd v, wv_sandbox v, wv_network v}. \<exists>t. f = Some t \<and> text_ok t)
          \<and> (\<forall>n \<in> {wv_timeout_seconds v, wv_output_limit_bytes v}. \<exists>k > 0. n = Some k)
          \<and> wv_commands v \<noteq> [] \<and> (\<forall>t \<in> set (wv_commands v). text_ok t))
     \<and> (\<forall>p \<in> set_option (wv_retry_policy v). 0 < rp_max_attempts p \<and> rp_max_attempts p \<le> 5)"

definition step_ok :: "'n WorkflowSpec \<Rightarrow> WorkflowStep \<Rightarrow> bool" where
  "step_ok spec s \<longleftrightarrow>
     identifier_ok (st_id s) \<and> title_ok (st_title s) \<and> st_agent s \<in> ag_id ` set (agents spec)
     \<and> (\<exists>r. st_model s = Some r \<and> route_ok r) \<and> (\<forall>g \<in> set_option (st_parallel_group s). identifier_ok g)
     \<and> (\<forall>t \<in> set (st_outputs s). text_ok t)
     \<and> distinct (st_depends_on s) \<and> set (st_depends_on s) \<subseteq> st_id ` set (steps spec) - {st_id s}
     \<and> (\<exists>c. st_completion s = Some c \<and> model_marked_state c = CANDIDATE_SUCCEEDED \<and> verifiers c \<noteq> []
          \<and> distinct (map wv_id (verifiers c)) \<and> (\<forall>v \<in> set (verifiers c). verifier_ok v))"

fun stop_ok :: "'n WorkflowSpec \<Rightarrow> WorkflowStopCondition \<Rightarrow> bool" where
  "stop_ok spec WorkflowComplete = True"
| "stop_ok spec (StepSucceeded x) = (x \<in> st_id ` set (steps spec))"

fun schedule_ok :: "WorkflowLoopSchedule \<Rightarrow> bool" where
  "schedule_ok Dynamic = True"
| "schedule_ok (Interval n _) = (0 < n)"
| "schedule_ok (Cron e) = text_ok e"

definition loop_ok :: "'n WorkflowSpec \<Rightarrow> WorkflowLoop \<Rightarrow> bool" where
  "loop_ok spec l \<longleftrightarrow>
     identifier_ok (lp_id l) \<and> title_ok (lp_title l) \<and> text_ok (lp_timezone l) \<and> schedule_ok (lp_schedule l)
     \<and> 0 < lp_max_iterations l \<and> lp_max_iterations l \<le> 10000 \<and> lp_expires_after_seconds l \<noteq> Some 0
     \<and> set_option (lp_trigger_step l) \<subseteq> st_id ` set (steps spec) \<and> stop_ok spec (lp_stop_condition l)"

definition monitor_ok :: "'n WorkflowSpec \<Rightarrow> WorkflowMonitorLink \<Rightarrow> bool" where
  "monitor_ok spec m \<longleftrightarrow>
     identifier_ok (ml_id m) \<and> title_ok (ml_title m)
     \<and> ml_source m = WORKFLOW_MONITOR_SOURCE_EXISTING_THREAD_MONITOR
     \<and> 0 < ml_max_events_per_tick m \<and> ml_max_events_per_tick m \<le> 50
     \<and> set_option (ml_trigger_step m) \<subseteq> st_id ` set (steps spec)
     \<and> (\<forall>c \<in> set_option (ml_stop_condition m). stop_ok spec c)"

definition has_adversarial_work :: "'n WorkflowSpec \<Rightarrow> bool" where
  "has_adversarial_work spec \<longleftrightarrow>
     (\<exists>a \<in> set (agents spec). \<exists>t \<in> {ag_id a, ag_display_name a, ag_role a}. is_adversarial_text t)
     \<or> (\<exists>s \<in> set (steps spec). \<exists>t \<in> {st_id s, st_title s}. is_adversarial_text t)"

definition status_ok :: "'n WorkflowSpec \<Rightarrow> bool" where
  "status_ok spec \<longleftrightarrow>
     (case ws_status spec of
        Draft \<Rightarrow> agents spec \<noteq> [] \<and> steps spec \<noteq> [] \<and> has_adversarial_work spec
      | NeedsClarification \<Rightarrow> questions spec \<noteq> [] \<or> blocking_reasons spec \<noteq> []
      | Blocked \<Rightarrow> blocking_reasons spec \<noteq> [])"

definition document_ok :: "'n WorkflowSpec \<Rightarrow> bool" where
  "document_ok spec \<longleftrightarrow>
     schema_version spec = SUPPORTED_SCHEMA_VERSION \<and> identifier_ok (workflow_id spec)
     \<and> title_ok (ws_display_name spec) \<and> text_ok (source_prompt spec) \<and> route_ok (execution_defaults spec)
     \<and> limits_ok (limits spec) \<and> text_ok (retention (artifacts spec))
     \<and> (\<forall>t \<in> set (required_before (approvals spec)) \<union> set (required (artifacts spec))
              \<union> set (on_cancel (cleanup spec)) \<union> set (on_complete (cleanup spec)). text_ok t)"

text \<open>A well-formed specification: every part is, names are unique, and the steps wait for each other
  without a cycle.\<close>

definition workflow_ok :: "'n WorkflowSpec \<Rightarrow> bool" where
  "workflow_ok spec \<longleftrightarrow>
     document_ok spec \<and> status_ok spec
     \<and> length (agents spec) \<le> max_agents (limits spec) \<and> length (loops spec) \<le> 32 \<and> length (monitors spec) \<le> 32
     \<and> (\<forall>a \<in> set (agents spec). agent_ok a) \<and> (\<forall>s \<in> set (steps spec). step_ok spec s)
     \<and> (\<forall>l \<in> set (loops spec). loop_ok spec l) \<and> (\<forall>m \<in> set (monitors spec). monitor_ok spec m)
     \<and> distinct (map ag_id (agents spec)) \<and> distinct (map st_id (steps spec))
     \<and> distinct (map lp_id (loops spec)) \<and> distinct (map ml_id (monitors spec))
     \<and> acyclic (waits_for (steps spec))"

section \<open>Each check decides its part\<close>

lemma then_check_ok_iff: "then_check c k = Some (Inr u) \<longleftrightarrow> c = Inr () \<and> k = Some (Inr ())"
  by (cases c) (simp_all add: then_check_def)

lemma validate_limits_iff [result_simps]: "validate_limits l = Inr u \<longleftrightarrow> limits_ok l"
  by (auto simp: validate_limits_def result_simps limits_ok_def)

lemma validate_agents_iff [result_simps]:
  "validate_agents spec = Inr u \<longleftrightarrow>
     length (agents spec) \<le> max_agents (limits spec) \<and> (\<forall>a \<in> set (agents spec). agent_ok a)
     \<and> distinct (map ag_id (agents spec))"
  by (auto simp: validate_agents_def result_simps agent_ok_def)

lemma validate_verifier_iff [result_simps]: "validate_verifier x v = Inr u \<longleftrightarrow> verifier_ok v"
proof -
  have kinds: "ARTIFACT_CONTAINS_VERIFIER \<noteq> RUN_COMMANDS_VERIFIER"
    by (simp add: ARTIFACT_CONTAINS_VERIFIER_def RUN_COMMANDS_VERIFIER_def)
  have unset: "\<not> zero_or_unset n \<longleftrightarrow> (\<exists>k > 0. n = Some k)" for n
    by (cases n) (auto simp: zero_or_unset_def)
  show ?thesis
    using kinds
    by (auto simp: validate_verifier_def result_simps verifier_ok_def unset MAX_VERIFIER_RETRY_ATTEMPTS_def Let_def)
qed

lemma validate_completion_iff [result_simps]:
  "validate_completion x c = Inr u \<longleftrightarrow>
     model_marked_state c = CANDIDATE_SUCCEEDED \<and> verifiers c \<noteq> [] \<and> distinct (map wv_id (verifiers c))
     \<and> (\<forall>v \<in> set (verifiers c). verifier_ok v)"
  by (auto simp: validate_completion_def result_simps)

lemma validate_dependencies_iff:
  "\<forall>y \<in> ids. identifier_ok y \<Longrightarrow>
   validate_dependencies s ids = Inr u \<longleftrightarrow> distinct (st_depends_on s) \<and> set (st_depends_on s) \<subseteq> ids - {st_id s}"
  by (auto simp: validate_dependencies_def result_simps)

lemma validate_steps_iff:
  "validate_steps spec = Some (Inr u) \<longleftrightarrow>
     (\<forall>s \<in> set (steps spec). step_ok spec s) \<and> distinct (map st_id (steps spec)) \<and> acyclic (waits_for (steps spec))"
proof -
  let ?ids = "st_id ` set (steps spec)"
  have each: "validate_step (ag_id ` set (agents spec)) ?ids s = Inr () \<and> identifier_ok (st_id s) \<longleftrightarrow> step_ok spec s"
    if "\<forall>y \<in> ?ids. identifier_ok y" for s
    using validate_dependencies_iff [OF that, of s "()"]
    by (auto simp: validate_step_def result_simps step_ok_def Let_def split: option.splits)
  have graph: "closed_graph (steps spec)"
    if "\<forall>s \<in> set (steps spec). step_ok spec s" "distinct (map st_id (steps spec))"
    using that by (auto simp: closed_graph_def step_ok_def)
  have "validate_steps spec = Some (Inr u) \<longleftrightarrow>
     (\<forall>y \<in> ?ids. identifier_ok y) \<and> distinct (map st_id (steps spec))
     \<and> (\<forall>s \<in> set (steps spec). validate_step (ag_id ` set (agents spec)) ?ids s = Inr ())
     \<and> validate_acyclic_dependencies (steps spec) = Some (Inr ())"
    by (auto simp: validate_steps_def then_check_ok_iff result_simps)
  also have "\<dots> \<longleftrightarrow> (\<forall>s \<in> set (steps spec). step_ok spec s) \<and> distinct (map st_id (steps spec))
     \<and> validate_acyclic_dependencies (steps spec) = Some (Inr ())"
  proof -
    have "(\<forall>s \<in> set (steps spec). step_ok spec s) \<Longrightarrow> \<forall>y \<in> ?ids. identifier_ok y" by (auto simp: step_ok_def)
    then show ?thesis using each by blast
  qed
  finally show ?thesis using graph acyclic_check_iff [of "steps spec"] by blast
qed

lemma step_name_iff:
  "\<forall>y \<in> ids. identifier_ok y \<Longrightarrow> validate_step_name path ids x = Inr u \<longleftrightarrow> x \<in> ids"
  by (auto simp: validate_step_name_def result_simps)

lemma stop_condition_iff:
  "\<forall>y \<in> st_id ` set (steps spec). identifier_ok y \<Longrightarrow>
   validate_stop_condition path c (st_id ` set (steps spec)) = Inr u \<longleftrightarrow> stop_ok spec c"
  by (cases c) (simp_all add: validate_stop_condition_def step_name_iff)

lemma schedule_iff [result_simps]: "validate_loop_schedule x c = Inr u \<longleftrightarrow> schedule_ok c"
  by (cases c) (simp_all add: validate_loop_schedule_def result_simps)

lemma validate_loops_iff:
  assumes "\<forall>y \<in> st_id ` set (steps spec). identifier_ok y"
  shows "validate_loops spec (st_id ` set (steps spec)) = Inr u \<longleftrightarrow>
     length (loops spec) \<le> 32 \<and> (\<forall>l \<in> set (loops spec). loop_ok spec l) \<and> distinct (map lp_id (loops spec))"
  unfolding validate_loops_def
  by (auto simp: result_simps Let_def loop_ok_def stop_condition_iff [OF assms] step_name_iff [OF assms]
      validate_optional_step_ref_def MAX_WORKFLOW_LOOPS_def MAX_WORKFLOW_LOOP_ITERATIONS_def)

lemma validate_monitor_links_iff:
  assumes "\<forall>y \<in> st_id ` set (steps spec). identifier_ok y"
  shows "validate_monitor_links (monitors spec) (st_id ` set (steps spec)) = Inr u \<longleftrightarrow>
     length (monitors spec) \<le> 32 \<and> (\<forall>m \<in> set (monitors spec). monitor_ok spec m) \<and> distinct (map ml_id (monitors spec))"
  unfolding validate_monitor_links_def
  by (auto simp: result_simps Let_def monitor_ok_def stop_condition_iff [OF assms] step_name_iff [OF assms]
      validate_optional_step_ref_def MAX_WORKFLOW_MONITOR_LINKS_def MAX_WORKFLOW_MONITOR_EVENTS_PER_TICK_def)

lemma validate_status_iff [result_simps]: "validate_status spec = Inr u \<longleftrightarrow> status_ok spec"
  by (cases "ws_status spec")
     (auto simp: validate_status_def validate_adversarial_work_def result_simps status_ok_def
      has_adversarial_work_def filter_empty_conv)

lemma validate_ok_iff: "validate spec = Some (Inr ()) \<longleftrightarrow> workflow_ok spec"
proof -
  have named: "\<forall>y \<in> st_id ` set (steps spec). identifier_ok y" if "\<forall>s \<in> set (steps spec). step_ok spec s"
    using that by (auto simp: step_ok_def)
  have "validate spec = Some (Inr ()) \<longleftrightarrow>
     document_ok spec \<and> validate_agents spec = Inr () \<and> validate_steps spec = Some (Inr ())
     \<and> validate_loops spec (st_id ` set (steps spec)) = Inr ()
     \<and> validate_monitor_links (monitors spec) (st_id ` set (steps spec)) = Inr () \<and> status_ok spec"
    by (auto simp: validate_def then_check_ok_iff result_simps document_ok_def Let_def split: option.splits)
  also have "\<dots> \<longleftrightarrow> workflow_ok spec"
    unfolding validate_steps_iff
    using named validate_loops_iff [OF named, of "()"] validate_monitor_links_iff [OF named, of "()"]
    by (auto simp: validate_agents_iff workflow_ok_def)
  finally show ?thesis .
qed

section \<open>Plain documents\<close>

text \<open>A YAML value without tags and merge keys, whose mapping keys are strings.\<close>

inductive plain_yaml :: "'n yaml_value \<Rightarrow> bool" where
  "plain_yaml YNull"
| "plain_yaml (YBool b)"
| "plain_yaml (YNumber n)"
| "plain_yaml (YString s)"
| "\<forall>v \<in> set vs. plain_yaml v \<Longrightarrow> plain_yaml (YSequence vs)"
| "\<forall>(k, v) \<in> set m. (\<exists>s. k = YString s \<and> s \<noteq> lit ''<<'') \<and> plain_yaml v \<Longrightarrow> plain_yaml (YMapping m)"

inductive_simps plain_yaml_simps [simp]:
  "plain_yaml YNull" "plain_yaml (YBool b)" "plain_yaml (YNumber n)" "plain_yaml (YString s)"
  "plain_yaml (YSequence vs)" "plain_yaml (YMapping m)" "plain_yaml (YTagged t v)"

lemma reject_unsupported_iff: "reject_unsupported_yaml_features v path = Inr u \<longleftrightarrow> plain_yaml v"
proof (induction v path arbitrary: u rule: reject_unsupported_yaml_features.induct)
  case (1 v path)
  show ?case
  proof (cases v)
    case (YSequence vs)
    have "reject_unsupported_yaml_features v path = Inr u \<longleftrightarrow>
        (\<forall>(i, w) \<in> set (enumerate 0 vs). reject_unsupported_yaml_features w (indexed path i) = Inr ())"
      unfolding YSequence by (subst reject_unsupported_yaml_features.simps) (auto simp: first_error_Inr_iff)
    also have "\<dots> \<longleftrightarrow> (\<forall>(i, w) \<in> set (enumerate 0 vs). plain_yaml w)"
      using "1.IH"(1) [OF YSequence] by fastforce
    also have "\<dots> \<longleftrightarrow> plain_yaml v"
    proof -
      have "set vs = snd ` set (enumerate 0 vs)" by (metis list.set_map map_snd_enumerate)
      then show ?thesis by (simp add: YSequence split_def)
    qed
    finally show ?thesis .
  next
    case (YMapping m)
    have each: "(case k of YString key \<Rightarrow>
                  if key = lit ''<<'' then unsupported_yaml_feature path ''YAML merge keys are not allowed''
                  else reject_unsupported_yaml_features w (dotted path key)
                | _ \<Rightarrow> unsupported_yaml_feature path ''mapping keys must be strings'') = Inr () \<longleftrightarrow>
              (\<exists>s. k = YString s \<and> s \<noteq> lit ''<<'') \<and> plain_yaml w" if "(k, w) \<in> set m" for k w
      using "1.IH"(2) [OF YMapping that refl] by (cases k) (auto simp: unsupported_yaml_feature_def)
    show ?thesis
      unfolding YMapping
      by (subst reject_unsupported_yaml_features.simps) (auto simp: first_error_Inr_iff each split: prod.splits)
  qed (simp_all add: reject_unsupported_yaml_features.simps unsupported_yaml_feature_def)
qed

section \<open>A sample workflow\<close>

definition sample_route :: WorkflowModelRoute where
  "sample_route = \<lparr>mr_model_gateway = lit ''gw'', mr_provider = lit ''p'', mr_model = lit ''m'',
     mr_reasoning = lit ''low'', mr_service_tier = None, mr_approval_policy = None,
     mr_permission_profile = None, mr_routing = None\<rparr>"

definition sample_verifier :: WorkflowVerifier where
  "sample_verifier = \<lparr>wv_id = lit ''v'', wv_kind = lit ''artifact_contains'', wv_artifact = Some (lit ''a''),
     wv_must_contain = [lit ''x''], wv_cwd = None, wv_sandbox = None, wv_network = None,
     wv_timeout_seconds = None, wv_output_limit_bytes = None, wv_commands = [], wv_expected_stdout = None,
     wv_expected_exit_code = None, wv_retry_policy = None\<rparr>"

definition sample_step :: "string \<Rightarrow> string list \<Rightarrow> WorkflowStep" where
  "sample_step x ds = \<lparr>st_id = lit x, st_title = lit ''red team'', st_agent = lit ''a'', st_model = Some sample_route,
     st_workspace = None, st_parallel_group = None, st_depends_on = map lit ds, st_approval_gate = None,
     st_outputs = [], st_completion = Some \<lparr>model_marked_state = lit ''candidate_succeeded'',
     verifiers = [sample_verifier]\<rparr>\<rparr>"

definition sample_workflow :: "unit WorkflowSpec" where
  "sample_workflow = \<lparr>schema_version = lit ''workflow.codex.codewith/v0'', workflow_id = lit ''w'',
     ws_display_name = lit ''W'', source_prompt = lit ''p'', ws_status = Draft, questions = [],
     blocking_reasons = [], fixture = None, execution_defaults = sample_route,
     limits = \<lparr>max_parallel_steps = 1, max_agents = 1, max_worktrees = 0, max_runtime_seconds = 1,
       max_step_runtime_seconds = 1, max_tokens = 1, max_tool_calls = 1\<rparr>,
     approvals = \<lparr>required_before = []\<rparr>, domain_invariants = None,
     agents = [\<lparr>ag_id = lit ''a'', ag_display_name = lit ''r-zeno'', ag_role = lit ''r'', ag_model = sample_route\<rparr>],
     steps = [sample_step ''b'' [''a''], sample_step ''a'' []], loops = [], monitors = [],
     artifacts = \<lparr>retention = lit ''r'', required = []\<rparr>, cleanup = \<lparr>on_cancel = [], on_complete = []\<rparr>\<rparr>"

lemma sample_workflow_accepted: "validate sample_workflow = Some (Inr ())"
  by code_simp

section \<open>Properties\<close>

text \<open>C15: The dependency check, Kahn's algorithm over the degree and successor maps, accepts the steps of
  a workflow exactly when the graph of their dependencies has no cycle, provided the step names are distinct and
  every dependency names a step, which the earlier checks establish.\<close>

theorem dependency_check_accepts_exactly_acyclic_graphs:
  assumes "distinct (map st_id ss)"
    and "\<forall>s \<in> set ss. set (st_depends_on s) \<subseteq> set (map st_id ss)"
  shows "validate_acyclic_dependencies ss = Some (Inr ()) \<longleftrightarrow> acyclic (waits_for ss)"
  using assms by (intro acyclic_check_iff) (simp add: closed_graph_def)

theorem dependency_check_accepts_exactly_acyclic_graphs_witness:
  "\<not> acyclic (waits_for [sample_step ''a'' [''b''], sample_step ''b'' [''a'']])"
proof -
  have "validate_acyclic_dependencies [sample_step ''a'' [''b''], sample_step ''b'' [''a'']] \<noteq> Some (Inr ())"
    by code_simp
  then show ?thesis
    using dependency_check_accepts_exactly_acyclic_graphs [of "[sample_step ''a'' [''b''], sample_step ''b'' [''a'']]"]
    by (simp add: sample_step_def)
qed

lemma validate_steps_cases:
  "(\<exists>e. validate_steps spec = Some (Inl e))
   \<or> closed_graph (steps spec) \<and> validate_steps spec = validate_acyclic_dependencies (steps spec)"
proof -
  let ?ids = "st_id ` set (steps spec)"
  let ?checks = "first_error
     (unique_loop st_id (\<lambda>step. validate_identifier (lit ''step.id'') (st_id step))
        (\<lambda>step. lit ''step id '' @ backquoted (st_id step) @ lit '' is duplicated'') (\<lambda>step. Inr ()) {} (steps spec)
      # map (validate_step (ag_id ` set (agents spec)) ?ids) (steps spec))"
  have steps: "validate_steps spec = then_check ?checks (validate_acyclic_dependencies (steps spec))"
    by (simp add: validate_steps_def)
  show ?thesis
  proof (cases ?checks)
    case (Inr u)
    then have "?checks = Inr ()" by simp
    then have "distinct (map st_id (steps spec))" "\<forall>s \<in> set (steps spec). validate_dependencies s ?ids = Inr ()"
      by (auto simp: result_simps validate_step_def Let_def)
    then have "closed_graph (steps spec)"
      by (auto simp: closed_graph_def validate_dependencies_def result_simps)
    then show ?thesis unfolding steps Inr by (simp add: then_check_def)
  qed (simp add: steps then_check_def)
qed

lemma validate_total: "\<exists>c. validate spec = Some c"
proof -
  have "\<exists>c. validate_steps spec = Some c"
    using validate_steps_cases [of spec] acyclic_check_total [of "steps spec"] by metis
  then show ?thesis by (auto simp: validate_def then_check_def Let_def split: sum.split)
qed

text \<open>C16: Parsing a workflow always returns a result: whatever the YAML library answers, no loop of the
  validation runs forever, and the unsigned counters of the dependency check never underflow.\<close>

theorem parse_workflow_yaml_always_returns:
  "\<exists>r. parse_workflow_yaml from_str from_value raw = Some r"
  by (auto simp: parse_workflow_yaml_def Let_def split: sum.split option.split)
     (metis option.distinct(1) validate_total)

text \<open>C17: Parsing accepts a document and yields a specification exactly when the document is at most
  256 KiB long, is not blank and holds no Markdown fence, the YAML library reads from it a value without tags,
  merge keys and non-string keys and reads the specification from that value, and the specification is well
  formed: its parts meet their limits, its names are unique, every reference names something that exists, and the
  step dependencies have no cycle.\<close>

theorem parse_accepts_exactly_well_formed_workflows:
  "parse_workflow_yaml from_str from_value raw = Some (Inr spec) \<longleftrightarrow>
     utf8_len raw \<le> 262144 \<and> trim raw \<noteq> []
     \<and> \<not> starts_with (replicate 3 96) (trim raw) \<and> \<not> contains_str (nl # replicate 3 96) (trim raw)
     \<and> (\<exists>v. from_str raw = Inr v \<and> plain_yaml v \<and> from_value v = Inr spec) \<and> workflow_ok spec"
  by (auto simp: parse_workflow_yaml_def Let_def MAX_WORKFLOW_YAML_BYTES_def validate_ok_iff [symmetric]
      reject_unsupported_iff [where path = "lit ''$''" and u = "()", symmetric]
      split: sum.splits option.splits)

end
