(* ===== verification/Workflow_Run.thy ===== *)
theory Workflow_Run
  imports Workflow_Spec "HOL-Library.Product_Lexorder"
begin

text \<open>
  The persisted state of a workflow run: the statuses and rows of
  \<^verbatim>\<open>codex-rs/state/src/model/workflow.rs\<close>, and from \<^verbatim>\<open>codex-rs/state/src/runtime/workflows.rs\<close> the
  creation of a run from a specification, its event log, and the requests of the user: cancel, pause, resume and
  the decision on an approval gate.

  A \<open>run_state\<close> holds the rows of the workflow tables that belong to one run, each table in the order of
  insertion; a transaction is a function on it, and a statement \<^verbatim>\<open>UPDATE ... WHERE ...\<close> is \<open>update_where\<close>.
  Columns that no transition reads (titles, JSON snapshots of the specification, creation and update
  times, event payloads) are left out; the specification's limits and routes stand for their JSON columns. A
  status column holds the status its \<^verbatim>\<open>as_str\<close> writes. Fresh UUIDs are an argument of the creation.
\<close>

section \<open>Statuses\<close>

datatype WorkflowRunStatus =
    RunPending | RunRunning | RunWaiting | RunBlocked | RunPaused | RunCancelRequested | RunCancelled
  | RunFailed | RunCompleted | RunOther str

definition run_status_str :: "WorkflowRunStatus \<Rightarrow> str" where
  "run_status_str st =
     (case st of
        RunPending \<Rightarrow> lit ''pending'' | RunRunning \<Rightarrow> lit ''running'' | RunWaiting \<Rightarrow> lit ''waiting''
      | RunBlocked \<Rightarrow> lit ''blocked'' | RunPaused \<Rightarrow> lit ''paused''
      | RunCancelRequested \<Rightarrow> lit ''cancel_requested'' | RunCancelled \<Rightarrow> lit ''cancelled''
      | RunFailed \<Rightarrow> lit ''failed'' | RunCompleted \<Rightarrow> lit ''completed'' | RunOther s \<Rightarrow> s)"

definition run_status_try_from :: "str \<Rightarrow> str + WorkflowRunStatus" where
  "run_status_try_from v =
     (if v = lit ''pending'' then Inr RunPending
      else if v = lit ''running'' then Inr RunRunning
      else if v = lit ''waiting'' then Inr RunWaiting
      else if v = lit ''blocked'' then Inr RunBlocked
      else if v = lit ''paused'' then Inr RunPaused
      else if v = lit ''cancel_requested'' then Inr RunCancelRequested
      else if v = lit ''cancelled'' then Inr RunCancelled
      else if v = lit ''failed'' then Inr RunFailed
      else if v = lit ''completed'' \<or> v = lit ''complete'' then Inr RunCompleted
      else if trim v \<noteq> [] then Inr (RunOther v)
      else Inl (lit ''invalid workflow run status '' @ backquoted v))"

definition is_terminal :: "WorkflowRunStatus \<Rightarrow> bool" where
  "is_terminal st \<longleftrightarrow> st = RunCancelled \<or> st = RunFailed \<or> st = RunCompleted"

datatype WorkflowRunStepStatus =
    StepPending | StepReady | StepActive | StepWaitingVerifier | StepBlocked | StepSkipped | StepCancelled
  | StepFailed | StepSucceeded' | StepOther str

definition step_status_str :: "WorkflowRunStepStatus \<Rightarrow> str" where
  "step_status_str st =
     (case st of
        StepPending \<Rightarrow> lit ''pending'' | StepReady \<Rightarrow> lit ''ready'' | StepActive \<Rightarrow> lit ''active''
      | StepWaitingVerifier \<Rightarrow> lit ''waiting_verifier'' | StepBlocked \<Rightarrow> lit ''blocked''
      | StepSkipped \<Rightarrow> lit ''skipped'' | StepCancelled \<Rightarrow> lit ''cancelled''
      | StepFailed \<Rightarrow> lit ''failed'' | StepSucceeded' \<Rightarrow> lit ''succeeded'' | StepOther s \<Rightarrow> s)"

definition step_status_try_from :: "str \<Rightarrow> str + WorkflowRunStepStatus" where
  "step_status_try_from v =
     (if v = lit ''pending'' then Inr StepPending
      else if v = lit ''ready'' then Inr StepReady
      else if v = lit ''active'' then Inr StepActive
      else if v = lit ''waiting_verifier'' then Inr StepWaitingVerifier
      else if v = lit ''blocked'' then Inr StepBlocked
      else if v = lit ''skipped'' then Inr StepSkipped
      else if v = lit ''cancelled'' then Inr StepCancelled
      else if v = lit ''failed'' then Inr StepFailed
      else if v = lit ''succeeded'' \<or> v = lit ''complete'' then Inr StepSucceeded'
      else if trim v \<noteq> [] then Inr (StepOther v)
      else Inl (lit ''invalid workflow run step status '' @ backquoted v))"

datatype WorkflowRunStepVerifierStatus =
    VerifierPending | VerifierRunning | VerifierBlocked | VerifierPassed | VerifierFailed | VerifierSkipped
  | VerifierOther str

definition verifier_status_str :: "WorkflowRunStepVerifierStatus \<Rightarrow> str" where
  "verifier_status_str st =
     (case st of
        VerifierPending \<Rightarrow> lit ''pending'' | VerifierRunning \<Rightarrow> lit ''running''
      | VerifierBlocked \<Rightarrow> lit ''blocked'' | VerifierPassed \<Rightarrow> lit ''passed''
      | VerifierFailed \<Rightarrow> lit ''failed'' | VerifierSkipped \<Rightarrow> lit ''skipped'' | VerifierOther s \<Rightarrow> s)"

definition verifier_status_try_from :: "str \<Rightarrow> str + WorkflowRunStepVerifierStatus" where
  "verifier_status_try_from v =
     (if v = lit ''pending'' then Inr VerifierPending
      else if v = lit ''running'' then Inr VerifierRunning
      else if v = lit ''blocked'' then Inr VerifierBlocked
      else if v = lit ''passed'' then Inr VerifierPassed
      else if v = lit ''failed'' then Inr VerifierFailed
      else if v = lit ''skipped'' then Inr VerifierSkipped
      else if trim v \<noteq> [] then Inr (VerifierOther v)
      else Inl (lit ''invalid workflow run step verifier status '' @ backquoted v))"

section \<open>Rows\<close>

record workflow_run =
  wr_run_id :: str
  wr_status :: WorkflowRunStatus
  wr_status_reason :: "str option"
  wr_reason_code :: "str option"
  wr_generation :: int
  wr_owner_id :: "str option"
  wr_owner_instance_id :: "str option"
  wr_lease_expires_at :: "int option"
  wr_heartbeat_at :: "int option"
  wr_last_event_seq :: int
  wr_started_at :: "int option"
  wr_completed_at :: "int option"
  wr_limits :: WorkflowLimits
  wr_execution_defaults :: WorkflowModelRoute

record workflow_run_step =
  rs_step_run_id :: str
  rs_step_id :: str
  rs_sequence :: nat
  rs_agent_id :: str
  rs_status :: WorkflowRunStepStatus
  rs_status_reason :: "str option"
  rs_reason_code :: "str option"
  rs_approval_gate :: "str option"
  rs_approval_state :: "str option"
  rs_model_route :: "WorkflowModelRoute option"
  rs_workspace :: "WorkflowWorkspace option"
  rs_background_agent_run_id :: "str option"
  rs_attempt :: int
  rs_started_at :: "int option"
  rs_completed_at :: "int option"

record workflow_run_verifier =
  rv_verifier_run_id :: str
  rv_step_id :: str
  rv_verifier_id :: str
  rv_verifier_type :: str
  rv_status :: WorkflowRunStepVerifierStatus
  rv_status_reason :: "str option"
  rv_reason_code :: "str option"
  rv_attempt_count :: int
  rv_max_attempts :: "int option"
  rv_completed_at :: "int option"

record workflow_run_event =
  ev_seq :: int
  ev_type :: str
  ev_actor_kind :: str
  ev_actor_id :: "str option"
  ev_step_run_id :: "str option"
  ev_verifier_run_id :: "str option"

record run_state =
  rn_run :: workflow_run
  rn_steps :: "workflow_run_step list"
  rn_deps :: "(str \<times> str) list"
  rn_verifiers :: "workflow_run_verifier list"
  rn_events :: "workflow_run_event list"

definition update_where :: "('r \<Rightarrow> bool) \<Rightarrow> ('r \<Rightarrow> 'r) \<Rightarrow> 'r list \<Rightarrow> 'r list" where
  "update_where p f rows = map (\<lambda>r. if p r then f r else r) rows"

abbreviation set_run :: "(workflow_run \<Rightarrow> workflow_run) \<Rightarrow> run_state \<Rightarrow> run_state" where
  "set_run f s \<equiv> s\<lparr>rn_run := f (rn_run s)\<rparr>"

abbreviation set_steps :: "(workflow_run_step \<Rightarrow> bool) \<Rightarrow> (workflow_run_step \<Rightarrow> workflow_run_step) \<Rightarrow> run_state \<Rightarrow> run_state" where
  "set_steps p f s \<equiv> s\<lparr>rn_steps := update_where p f (rn_steps s)\<rparr>"

abbreviation set_verifiers ::
  "(workflow_run_verifier \<Rightarrow> bool) \<Rightarrow> (workflow_run_verifier \<Rightarrow> workflow_run_verifier) \<Rightarrow> run_state \<Rightarrow> run_state" where
  "set_verifiers p f s \<equiv> s\<lparr>rn_verifiers := update_where p f (rn_verifiers s)\<rparr>"

section \<open>Events\<close>

definition append_workflow_run_event ::
  "string \<Rightarrow> string \<Rightarrow> str option \<Rightarrow> str option \<Rightarrow> str option \<Rightarrow> run_state \<Rightarrow> run_state" where
  "append_workflow_run_event event_type actor_kind actor_id step_run_id verifier_run_id s =
     (let seq = wr_last_event_seq (rn_run s) + 1
      in s\<lparr>rn_run := (rn_run s)\<lparr>wr_last_event_seq := seq\<rparr>,
           rn_events := rn_events s @
             [\<lparr>ev_seq = seq, ev_type = lit event_type, ev_actor_kind = lit actor_kind, ev_actor_id = actor_id,
               ev_step_run_id = step_run_id, ev_verifier_run_id = verifier_run_id\<rparr>]\<rparr>)"

section \<open>Creation\<close>

definition WORKFLOW_STEP_APPROVAL_PENDING :: str where
  "WORKFLOW_STEP_APPROVAL_PENDING = lit ''pending''"

definition WORKFLOW_STEP_APPROVAL_APPROVED :: str where
  "WORKFLOW_STEP_APPROVAL_APPROVED = lit ''approved''"

definition WORKFLOW_STEP_APPROVAL_REJECTED :: str where
  "WORKFLOW_STEP_APPROVAL_REJECTED = lit ''rejected''"

definition insert_workflow_run :: "str \<Rightarrow> 'n WorkflowSpec \<Rightarrow> workflow_run" where
  "insert_workflow_run run_id spec =
     \<lparr>wr_run_id = run_id, wr_status = RunPending, wr_status_reason = None, wr_reason_code = None,
      wr_generation = 0, wr_owner_id = None, wr_owner_instance_id = None, wr_lease_expires_at = None,
      wr_heartbeat_at = None, wr_last_event_seq = 0, wr_started_at = None, wr_completed_at = None,
      wr_limits = limits spec, wr_execution_defaults = execution_defaults spec\<rparr>"

definition insert_step :: "(nat list \<Rightarrow> str) \<Rightarrow> nat \<Rightarrow> WorkflowStep \<Rightarrow> workflow_run_step" where
  "insert_step uuid sequence step =
     \<lparr>rs_step_run_id = uuid [sequence], rs_step_id = st_id step, rs_sequence = sequence,
      rs_agent_id = st_agent step, rs_status = StepPending, rs_status_reason = None, rs_reason_code = None,
      rs_approval_gate = st_approval_gate step,
      rs_approval_state = map_option (\<lambda>_. WORKFLOW_STEP_APPROVAL_PENDING) (st_approval_gate step),
      rs_model_route = st_model step, rs_workspace = st_workspace step, rs_background_agent_run_id = None,
      rs_attempt = 0, rs_started_at = None, rs_completed_at = None\<rparr>"

definition insert_verifier :: "(nat list \<Rightarrow> str) \<Rightarrow> nat \<Rightarrow> str \<Rightarrow> nat \<Rightarrow> WorkflowVerifier \<Rightarrow> workflow_run_verifier" where
  "insert_verifier uuid i step_id j v =
     \<lparr>rv_verifier_run_id = uuid [i, j], rv_step_id = step_id, rv_verifier_id = wv_id v,
      rv_verifier_type = wv_kind v, rv_status = VerifierPending, rv_status_reason = None, rv_reason_code = None,
      rv_attempt_count = 0, rv_max_attempts = map_option (\<lambda>p. int (rp_max_attempts p)) (wv_retry_policy v),
      rv_completed_at = None\<rparr>"

definition insert_step_verifiers :: "(nat list \<Rightarrow> str) \<Rightarrow> nat \<Rightarrow> WorkflowStep \<Rightarrow> workflow_run_verifier list" where
  "insert_step_verifiers uuid i step =
     (case st_completion step of
        None \<Rightarrow> []
      | Some completion \<Rightarrow>
          map (\<lambda>(j, v). insert_verifier uuid i (st_id step) j v) (enumerate 0 (verifiers completion)))"

definition create_workflow_run :: "(nat list \<Rightarrow> str) \<Rightarrow> 'n WorkflowSpec \<Rightarrow> run_state" where
  "create_workflow_run uuid spec =
     append_workflow_run_event ''created'' ''system'' None None None
       \<lparr>rn_run = insert_workflow_run (uuid []) spec,
        rn_steps = map (\<lambda>(i, step). insert_step uuid i step) (enumerate 0 (steps spec)),
        rn_deps = concat (map (\<lambda>step. map (\<lambda>d. (st_id step, d)) (st_depends_on step)) (steps spec)),
        rn_verifiers = concat (map (\<lambda>(i, step). insert_step_verifiers uuid i step) (enumerate 0 (steps spec))),
        rn_events = []\<rparr>"

section \<open>Requests of the user\<close>

definition release_owner :: "WorkflowRunStatus \<Rightarrow> str option \<Rightarrow> str option \<Rightarrow> workflow_run \<Rightarrow> workflow_run" where
  "release_owner status reason code r =
     r\<lparr>wr_status := status, wr_status_reason := reason, wr_reason_code := code, wr_owner_id := None,
       wr_owner_instance_id := None, wr_lease_expires_at := None, wr_heartbeat_at := None,
       wr_generation := wr_generation r + 1\<rparr>"

definition request_workflow_run_cancel :: "run_state \<Rightarrow> run_state \<times> bool" where
  "request_workflow_run_cancel s =
     (let status = wr_status (rn_run s)
      in if \<not> is_terminal status \<and> status \<noteq> RunCancelRequested then
           (append_workflow_run_event ''cancel_requested'' ''system'' None None None
              (set_run (release_owner RunCancelRequested (Some (lit ''user requested workflow cancellation''))
                 (Some (lit ''user_cancel_requested''))) s), True)
         else (s, False))"

definition pause_workflow_run :: "run_state \<Rightarrow> run_state \<times> bool" where
  "pause_workflow_run s =
     (let status = wr_status (rn_run s)
      in if \<not> is_terminal status \<and> status \<noteq> RunCancelRequested \<and> status \<noteq> RunPaused then
           (append_workflow_run_event ''paused'' ''system'' None None None
              (set_run (release_owner RunPaused (Some (lit ''workflow run paused''))
                 (Some (lit ''user_pause_requested''))) s), True)
         else (s, False))"

definition resume_workflow_run :: "run_state \<Rightarrow> run_state \<times> bool" where
  "resume_workflow_run s =
     (if wr_status (rn_run s) = RunPaused then
        (append_workflow_run_event ''resumed'' ''system'' None None None
           (set_run (release_owner RunWaiting None None) s), True)
      else (s, False))"

datatype WorkflowRunStepApprovalDecision = Approve | Reject

definition approval_state :: "WorkflowRunStepApprovalDecision \<Rightarrow> str" where
  "approval_state d =
     (case d of Approve \<Rightarrow> WORKFLOW_STEP_APPROVAL_APPROVED | Reject \<Rightarrow> WORKFLOW_STEP_APPROVAL_REJECTED)"

definition set_workflow_run_step_approval ::
  "str \<Rightarrow> WorkflowRunStepApprovalDecision \<Rightarrow> str option \<Rightarrow> run_state \<Rightarrow> run_state \<times> (bool \<times> bool) option" where
  "set_workflow_run_step_approval step_id decision actor_id s =
     (case List.find (\<lambda>r. rs_step_id r = step_id) (rn_steps s) of
        None \<Rightarrow> (s, None)
      | Some row \<Rightarrow>
          (let gate_present = rs_approval_gate row \<noteq> None;
               admittable = rs_status row = StepPending \<or> rs_status row = StepReady
           in if gate_present \<and> admittable \<and> rs_approval_state row \<noteq> Some (approval_state decision) then
                (case decision of
                   Approve \<Rightarrow>
                     (append_workflow_run_event ''step_approval_granted'' ''user'' actor_id (Some (rs_step_run_id row)) None
                        (set_steps (\<lambda>r. rs_step_id r = step_id)
                           (\<lambda>r. r\<lparr>rs_approval_state := Some WORKFLOW_STEP_APPROVAL_APPROVED\<rparr>) s),
                      Some (True, gate_present))
                 | Reject \<Rightarrow>
                     (append_workflow_run_event ''step_approval_rejected'' ''user'' actor_id (Some (rs_step_run_id row)) None
                        (set_steps (\<lambda>r. rs_step_id r = step_id)
                           (\<lambda>r. r\<lparr>rs_approval_state := Some WORKFLOW_STEP_APPROVAL_REJECTED,
                                  rs_status := StepSkipped,
                                  rs_status_reason := Some (lit ''workflow step rejected during user approval''),
                                  rs_reason_code := Some (lit ''user_rejected_approval'')\<rparr>) s),
                      Some (True, gate_present)))
              else (s, Some (False, gate_present))))"

section \<open>Facts\<close>

text \<open>Every status the program writes is read back as itself.\<close>

lemma run_status_round_trip: "(\<forall>x. st \<noteq> RunOther x) \<Longrightarrow> run_status_try_from (run_status_str st) = Inr st"
  by (cases st) (simp_all add: run_status_str_def run_status_try_from_def)

lemma step_status_round_trip: "(\<forall>x. st \<noteq> StepOther x) \<Longrightarrow> step_status_try_from (step_status_str st) = Inr st"
  by (cases st) (simp_all add: step_status_str_def step_status_try_from_def)

lemma verifier_status_round_trip:
  "(\<forall>x. st \<noteq> VerifierOther x) \<Longrightarrow> verifier_status_try_from (verifier_status_str st) = Inr st"
  by (cases st) (simp_all add: verifier_status_str_def verifier_status_try_from_def)

lemma append_event_simps [simp]:
  "rn_steps (append_workflow_run_event t k a sr vr s) = rn_steps s"
  "rn_deps (append_workflow_run_event t k a sr vr s) = rn_deps s"
  "rn_verifiers (append_workflow_run_event t k a sr vr s) = rn_verifiers s"
  "wr_status (rn_run (append_workflow_run_event t k a sr vr s)) = wr_status (rn_run s)"
  "wr_generation (rn_run (append_workflow_run_event t k a sr vr s)) = wr_generation (rn_run s)"
  "wr_owner_id (rn_run (append_workflow_run_event t k a sr vr s)) = wr_owner_id (rn_run s)"
  "wr_owner_instance_id (rn_run (append_workflow_run_event t k a sr vr s)) = wr_owner_instance_id (rn_run s)"
  "wr_lease_expires_at (rn_run (append_workflow_run_event t k a sr vr s)) = wr_lease_expires_at (rn_run s)"
  "wr_limits (rn_run (append_workflow_run_event t k a sr vr s)) = wr_limits (rn_run s)"
  by (simp_all add: append_workflow_run_event_def Let_def)

lemma set_update_where: "x \<in> set (update_where p f rows) \<longleftrightarrow> (\<exists>r \<in> set rows. x = (if p r then f r else r))"
  by (auto simp: update_where_def)

end
