(* ===== verification/Workflow_Orchestrator.thy ===== *)
theory Workflow_Orchestrator
  imports Workflow_Run
begin

text \<open>
  The orchestrator of workflow runs, \<^verbatim>\<open>codex-rs/state/src/runtime/workflow_orchestrator.rs\<close>, and the
  verifier transactions of \<^verbatim>\<open>codex-rs/state/src/runtime/workflow_verifiers.rs\<close>. An owner claims a run for a
  lease, receives a generation number, and passes both to every later call, which a fence checks.

  The clock is an argument \<open>now\<close> of each call. What other modules decide is an argument too: the steps
  whose projected goals are complete, the status of the background agents, the number of live agents, and the
  provisioning of a workspace with the creation of an agent for an admitted branch, which may fail and then rolls the
  transaction back. The effects of a cancellation and of a success on agents, goal plans and timers are not
  modelled. Errors are the texts of \<^verbatim>\<open>anyhow::bail!\<close>.
\<close>

section \<open>Leases\<close>

definition i64_saturating_add :: "int \<Rightarrow> int \<Rightarrow> int" where
  "i64_saturating_add x y = max (- (2 ^ 63)) (min (2 ^ 63 - 1) (x + y))"

definition i64_saturating_sub :: "int \<Rightarrow> int \<Rightarrow> int" where
  "i64_saturating_sub x y = max (- (2 ^ 63)) (min (2 ^ 63 - 1) (x - y))"

definition DEFAULT_WORKFLOW_LEASE_DURATION_MS :: int where
  "DEFAULT_WORKFLOW_LEASE_DURATION_MS = 60000"

definition validate_owner_id :: "str \<Rightarrow> str + unit" where
  "validate_owner_id owner_id =
     (if trim owner_id = [] then Inl (lit ''workflow run owner_id must not be empty'') else Inr ())"

definition lease_duration :: "int option \<Rightarrow> str + int" where
  "lease_duration requested =
     (let d = (case requested of None \<Rightarrow> DEFAULT_WORKFLOW_LEASE_DURATION_MS | Some d \<Rightarrow> d)
      in if d \<le> 0 then Inl (lit ''workflow run lease_duration_ms must be positive'') else Inr d)"

definition VERIFIER_TAKEOVER_PENDING_REASON_CODE :: str where
  "VERIFIER_TAKEOVER_PENDING_REASON_CODE = lit ''verifier_takeover_pending''"

definition requeue_running_workflow_verifiers_for_takeover :: "run_state \<Rightarrow> run_state" where
  "requeue_running_workflow_verifiers_for_takeover s =
     set_verifiers (\<lambda>v. rv_status v = VerifierRunning)
       (\<lambda>v. v\<lparr>rv_status := VerifierBlocked,
              rv_status_reason := Some (lit ''deterministic verifier was interrupted by workflow owner takeover''),
              rv_reason_code := Some VERIFIER_TAKEOVER_PENDING_REASON_CODE, rv_completed_at := None\<rparr>) s"

definition claim_workflow_run ::
  "str \<Rightarrow> str \<Rightarrow> int option \<Rightarrow> int \<Rightarrow> run_state \<Rightarrow> str + run_state \<times> (int \<times> int) option" where
  "claim_workflow_run owner_id owner_instance_id requested now s =
     bind_result (validate_owner_id owner_id) (\<lambda>_.
     bind_result (lease_duration requested) (\<lambda>d.
       let lease_expires_at = i64_saturating_add now d; r = rn_run s
       in if wr_status r \<notin> {RunCompleted, RunFailed, RunCancelled, RunPaused}
             \<and> (wr_owner_id r = None \<or> (case wr_lease_expires_at r of None \<Rightarrow> False | Some l \<Rightarrow> l \<le> now))
          then
            let generation = wr_generation r + 1;
                s1 = set_run (\<lambda>r. r\<lparr>wr_owner_id := Some owner_id, wr_owner_instance_id := Some owner_instance_id,
                       wr_lease_expires_at := Some lease_expires_at, wr_heartbeat_at := Some now,
                       wr_generation := generation,
                       wr_status := (if wr_status r \<in> {RunPending, RunWaiting} then RunRunning else wr_status r),
                       wr_started_at := (case wr_started_at r of None \<Rightarrow> Some now | Some t \<Rightarrow> Some t)\<rparr>) s
            in Inr (append_workflow_run_event ''claimed'' ''orchestrator'' (Some owner_id) None None
                      (requeue_running_workflow_verifiers_for_takeover s1),
                    Some (generation, lease_expires_at))
          else Inr (s, None)))"

text \<open>The condition that \<^verbatim>\<open>heartbeat_workflow_run\<close> and \<^verbatim>\<open>workflow_run_fence_is_current\<close> put on the row.\<close>

definition fence_current :: "str \<Rightarrow> str \<Rightarrow> int \<Rightarrow> int \<Rightarrow> workflow_run \<Rightarrow> bool" where
  "fence_current owner_id owner_instance_id generation now r \<longleftrightarrow>
     wr_owner_id r = Some owner_id \<and> wr_owner_instance_id r = Some owner_instance_id \<and> wr_generation r = generation
     \<and> (case wr_lease_expires_at r of None \<Rightarrow> False | Some l \<Rightarrow> l > now)"

definition heartbeat_workflow_run ::
  "str \<Rightarrow> str \<Rightarrow> int \<Rightarrow> int option \<Rightarrow> int \<Rightarrow> run_state \<Rightarrow> str + run_state \<times> int option" where
  "heartbeat_workflow_run owner_id owner_instance_id generation requested now s =
     bind_result (validate_owner_id owner_id) (\<lambda>_.
     bind_result (lease_duration requested) (\<lambda>d.
       if fence_current owner_id owner_instance_id generation now (rn_run s) then
         let l = max (the (wr_lease_expires_at (rn_run s))) (i64_saturating_add now d)
         in Inr (set_run (\<lambda>r. r\<lparr>wr_lease_expires_at := Some l, wr_heartbeat_at := Some now\<rparr>) s, Some l)
       else Inr (s, None)))"

definition workflow_run_fence_is_current :: "str \<Rightarrow> str \<Rightarrow> int \<Rightarrow> int \<Rightarrow> run_state \<Rightarrow> str + bool" where
  "workflow_run_fence_is_current owner_id owner_instance_id generation now s =
     bind_result (validate_owner_id owner_id) (\<lambda>_.
       Inr (fence_current owner_id owner_instance_id generation now (rn_run s)))"

definition claim_checked_workflow_run :: "str \<Rightarrow> str \<Rightarrow> int \<Rightarrow> int \<Rightarrow> run_state \<Rightarrow> workflow_run option" where
  "claim_checked_workflow_run owner_id owner_instance_id generation now s =
     (let run = rn_run s
      in if wr_status run = RunPaused then None
         else if wr_owner_id run \<noteq> Some owner_id then None
         else if wr_owner_instance_id run \<noteq> Some owner_instance_id then None
         else if wr_generation run \<noteq> generation then None
         else if (case wr_lease_expires_at run of None \<Rightarrow> True | Some l \<Rightarrow> l \<le> now) then None
         else Some run)"

section \<open>Advancing a run\<close>

definition append_each :: "('a \<Rightarrow> run_state \<Rightarrow> run_state) \<Rightarrow> 'a list \<Rightarrow> run_state \<Rightarrow> run_state" where
  "append_each f xs s = fold f xs s"

definition dependencies_met :: "run_state \<Rightarrow> workflow_run_step \<Rightarrow> bool" where
  "dependencies_met s r \<longleftrightarrow>
     \<not> list_ex (\<lambda>(step_id, dependency). step_id = rs_step_id r
          \<and> list_ex (\<lambda>d. rs_step_id d = dependency \<and> rs_status d \<noteq> StepSucceeded') (rn_steps s)) (rn_deps s)"

definition mark_ready_steps :: "str \<Rightarrow> run_state \<Rightarrow> run_state \<times> bool" where
  "mark_ready_steps owner_id s =
     (let selected = \<lambda>r. rs_status r = StepPending \<and> dependencies_met s r;
          rows = filter selected (rn_steps s)
      in (append_each (\<lambda>r. append_workflow_run_event ''step_ready'' ''orchestrator'' (Some owner_id)
              (Some (rs_step_run_id r)) None) rows
            (set_steps selected (\<lambda>r. r\<lparr>rs_status := StepReady\<rparr>) s),
          rows \<noteq> []))"

definition VERIFIER_EXECUTOR_PENDING_REASON :: str where
  "VERIFIER_EXECUTOR_PENDING_REASON = lit ''deterministic verifier executor is not enabled''"

definition VERIFIER_EXECUTOR_PENDING_REASON_CODE :: str where
  "VERIFIER_EXECUTOR_PENDING_REASON_CODE = lit ''verifier_executor_pending''"

definition block_pending_step_verifiers :: "str \<Rightarrow> str \<Rightarrow> run_state \<Rightarrow> run_state \<times> bool" where
  "block_pending_step_verifiers step_id owner_id s =
     (let selected = \<lambda>v. rv_step_id v = step_id \<and> rv_status v = VerifierPending;
          rows = filter selected (rn_verifiers s)
      in (append_each (\<lambda>v. append_workflow_run_event ''verifier_blocked'' ''orchestrator'' (Some owner_id) None
              (Some (rv_verifier_run_id v))) rows
            (set_verifiers selected
               (\<lambda>v. v\<lparr>rv_status := VerifierBlocked, rv_status_reason := Some VERIFIER_EXECUTOR_PENDING_REASON,
                      rv_reason_code := Some VERIFIER_EXECUTOR_PENDING_REASON_CODE\<rparr>) s),
          rows \<noteq> []))"

definition wait_for_verifiers :: "workflow_run_step \<Rightarrow> workflow_run_step" where
  "wait_for_verifiers r =
     r\<lparr>rs_status := StepWaitingVerifier, rs_status_reason := Some VERIFIER_EXECUTOR_PENDING_REASON,
       rs_reason_code := Some VERIFIER_EXECUTOR_PENDING_REASON_CODE\<rparr>"

definition observe_completed_step :: "str \<Rightarrow> str \<Rightarrow> run_state \<Rightarrow> run_state \<times> bool" where
  "observe_completed_step owner_id step_id s =
     (let selected = \<lambda>r. rs_step_id r = step_id \<and> rs_status r \<in> {StepPending, StepReady, StepActive}
      in case filter selected (rn_steps s) of
           [] \<Rightarrow> (s, False)
         | row # _ \<Rightarrow>
             (fst (block_pending_step_verifiers step_id owner_id
                (append_workflow_run_event ''step_waiting_verifier'' ''orchestrator'' (Some owner_id)
                   (Some (rs_step_run_id row)) None (set_steps selected wait_for_verifiers s))), True))"

fun observe_goal_plan_completion :: "str \<Rightarrow> str list \<Rightarrow> run_state \<Rightarrow> run_state \<times> bool" where
  "observe_goal_plan_completion owner_id [] s = (s, False)"
| "observe_goal_plan_completion owner_id (step_id # ids) s =
     (let (s1, changed1) = observe_completed_step owner_id step_id s;
          (s2, changed2) = observe_goal_plan_completion owner_id ids s1
      in (s2, changed1 \<or> changed2))"

definition verifiers_passed :: "run_state \<Rightarrow> str \<Rightarrow> bool" where
  "verifiers_passed s step_id \<longleftrightarrow>
     \<not> list_ex (\<lambda>v. rv_step_id v = step_id \<and> rv_status v \<noteq> VerifierPassed) (rn_verifiers s)"

definition step_success :: "int \<Rightarrow> workflow_run_step \<Rightarrow> workflow_run_step" where
  "step_success now r =
     r\<lparr>rs_status := StepSucceeded', rs_status_reason := None, rs_reason_code := None, rs_completed_at := Some now\<rparr>"

definition promote_verified_steps :: "str \<Rightarrow> int \<Rightarrow> run_state \<Rightarrow> run_state \<times> bool" where
  "promote_verified_steps owner_id now s =
     (let selected = \<lambda>r. rs_status r = StepWaitingVerifier \<and> verifiers_passed s (rs_step_id r);
          rows = filter selected (rn_steps s)
      in (append_each (\<lambda>r. append_workflow_run_event ''step_succeeded'' ''orchestrator'' (Some owner_id)
              (Some (rs_step_run_id r)) None) rows
            (set_steps selected (step_success now) s),
          rows \<noteq> []))"

definition derive_run_status_from_step_statuses :: "WorkflowRunStepStatus list \<Rightarrow> WorkflowRunStatus" where
  "derive_run_status_from_step_statuses statuses =
     (if StepFailed \<in> set statuses then RunFailed
      else if StepBlocked \<in> set statuses then RunBlocked
      else if StepWaitingVerifier \<in> set statuses then RunWaiting
      else if statuses \<noteq> [] \<and> list_all (\<lambda>st. st = StepSucceeded' \<or> st = StepSkipped) statuses then RunCompleted
      else RunRunning)"

definition workflow_run_reason_for_status :: "WorkflowRunStatus \<Rightarrow> str option \<times> str option" where
  "workflow_run_reason_for_status status =
     (case status of
        RunWaiting \<Rightarrow> (Some VERIFIER_EXECUTOR_PENDING_REASON, Some VERIFIER_EXECUTOR_PENDING_REASON_CODE)
      | RunBlocked \<Rightarrow> (Some (lit ''workflow run is blocked''), Some (lit ''workflow_blocked''))
      | RunFailed \<Rightarrow> (Some (lit ''workflow run failed''), Some (lit ''workflow_failed''))
      | _ \<Rightarrow> (None, None))"

definition recompute_workflow_run_status :: "str \<Rightarrow> int \<Rightarrow> run_state \<Rightarrow> run_state \<times> bool" where
  "recompute_workflow_run_status owner_id now s =
     (let next_status = derive_run_status_from_step_statuses (map rs_status (rn_steps s))
      in if wr_status (rn_run s) = next_status then (s, False)
         else
           let (reason, code) = workflow_run_reason_for_status next_status
           in (append_workflow_run_event ''run_status_changed'' ''orchestrator'' (Some owner_id) None None
                 (set_run (\<lambda>r. r\<lparr>wr_status := next_status, wr_status_reason := reason, wr_reason_code := code,
                    wr_completed_at := (if is_terminal next_status then Some now else wr_completed_at r)\<rparr>) s),
               True))"

definition cancel_workflow_run :: "str \<Rightarrow> int \<Rightarrow> run_state \<Rightarrow> run_state \<times> bool" where
  "cancel_workflow_run owner_id now s =
     (if wr_status (rn_run s) = RunCancelRequested then
        let cancelled = Some (lit ''workflow_cancelled'');
            s1 = set_run (\<lambda>r. r\<lparr>wr_status := RunCancelled,
                   wr_status_reason := (case wr_status_reason r of
                      None \<Rightarrow> Some (lit ''workflow run cancelled'') | Some t \<Rightarrow> Some t),
                   wr_reason_code := cancelled, wr_owner_id := None, wr_owner_instance_id := None,
                   wr_lease_expires_at := None, wr_heartbeat_at := Some now, wr_completed_at := Some now\<rparr>) s;
            s2 = set_steps (\<lambda>r. rs_status r \<notin> {StepSucceeded', StepCancelled, StepFailed, StepSkipped})
                   (\<lambda>r. r\<lparr>rs_status := StepCancelled, rs_reason_code := cancelled, rs_completed_at := Some now\<rparr>) s1;
            s3 = set_verifiers (\<lambda>v. rv_status v \<notin> {VerifierPassed, VerifierFailed, VerifierSkipped})
                   (\<lambda>v. v\<lparr>rv_status := VerifierSkipped, rv_reason_code := cancelled, rv_completed_at := Some now\<rparr>) s2
        in (append_workflow_run_event ''cancelled'' ''orchestrator'' (Some owner_id) None None s3, True)
      else (s, False))"

definition advance_steps :: "str \<Rightarrow> str list \<Rightarrow> int \<Rightarrow> run_state \<Rightarrow> run_state \<times> bool" where
  "advance_steps owner_id completed_projected_steps now s =
     (let (s1, c1) = mark_ready_steps owner_id s;
          (s2, c2) = observe_goal_plan_completion owner_id completed_projected_steps s1;
          (s3, c3) = promote_verified_steps owner_id now s2;
          (s4, c4) = recompute_workflow_run_status owner_id now s3
      in (s4, c1 \<or> c2 \<or> c3 \<or> c4))"

definition advance_workflow_run ::
  "str \<Rightarrow> str \<Rightarrow> int \<Rightarrow> str list \<Rightarrow> int \<Rightarrow> run_state \<Rightarrow> str + run_state \<times> bool option" where
  "advance_workflow_run owner_id owner_instance_id generation completed_projected_steps now s =
     bind_result (validate_owner_id owner_id) (\<lambda>_.
       case claim_checked_workflow_run owner_id owner_instance_id generation now s of
         None \<Rightarrow> Inr (s, None)
       | Some run \<Rightarrow>
           let (s', changed) =
                 (if wr_status run = RunCancelRequested then cancel_workflow_run owner_id now s
                  else if \<not> is_terminal (wr_status run) then advance_steps owner_id completed_projected_steps now s
                  else (s, False))
           in Inr (s', Some changed))"

end
