(* ===== verification/Workflow_Branches.thy ===== *)
theory Workflow_Branches
  imports Workflow_Orchestrator
begin

text \<open>
  Admission and reconciliation of the background agents that run the steps, from
  \<^verbatim>\<open>codex-rs/state/src/runtime/workflow_orchestrator.rs\<close>, and the claiming and recording of verifiers from
  \<^verbatim>\<open>codex-rs/state/src/runtime/workflow_verifiers.rs\<close>.
\<close>

section \<open>Reconciling finished branches\<close>

datatype BackgroundAgentEnd = AgentCompleted | AgentFailed | AgentCancelled

definition mark_branch_completed :: "str \<Rightarrow> workflow_run_step \<Rightarrow> run_state \<Rightarrow> run_state \<times> bool" where
  "mark_branch_completed owner_id branch s =
     (let selected = \<lambda>r. rs_step_run_id r = rs_step_run_id branch \<and> rs_status r = StepActive
      in if \<not> list_ex selected (rn_steps s) then (s, False)
         else
           (fst (block_pending_step_verifiers (rs_step_id branch) owner_id
              (append_workflow_run_event ''branch_completed'' ''orchestrator'' (Some owner_id)
                 (Some (rs_step_run_id branch)) None (set_steps selected wait_for_verifiers s))), True))"

definition mark_branch_failed :: "str \<Rightarrow> int \<Rightarrow> bool \<Rightarrow> workflow_run_step \<Rightarrow> run_state \<Rightarrow> run_state \<times> bool" where
  "mark_branch_failed owner_id now cancelled branch s =
     (let reason_code = Some (if cancelled then lit ''workflow_branch_cancelled'' else lit ''workflow_branch_failed'');
          selected = \<lambda>r. rs_step_run_id r = rs_step_run_id branch \<and> rs_status r = StepActive
      in if \<not> list_ex selected (rn_steps s) then (s, False)
         else
           (append_workflow_run_event ''branch_failed'' ''orchestrator'' (Some owner_id)
              (Some (rs_step_run_id branch)) None
              (set_verifiers (\<lambda>v. rv_step_id v = rs_step_id branch
                   \<and> rv_status v \<notin> {VerifierPassed, VerifierFailed, VerifierSkipped})
                 (\<lambda>v. v\<lparr>rv_status := VerifierSkipped, rv_reason_code := reason_code, rv_completed_at := Some now\<rparr>)
              (set_steps selected
                 (\<lambda>r. r\<lparr>rs_status := StepFailed,
                        rs_status_reason := Some (lit ''workflow branch agent did not complete successfully''),
                        rs_reason_code := reason_code, rs_completed_at := Some now\<rparr>) s)), True))"

text \<open>\<open>agent_end\<close> gives the final status of a background agent, for the agents that have one.\<close>

definition terminal_branches :: "(str \<Rightarrow> BackgroundAgentEnd option) \<Rightarrow> run_state \<Rightarrow> (workflow_run_step \<times> BackgroundAgentEnd) list" where
  "terminal_branches agent_end s =
     List.map_filter (\<lambda>r. map_option (Pair r) (Option.bind (rs_background_agent_run_id r) agent_end))
       (sort_key rs_sequence (filter (\<lambda>r. rs_status r = StepActive) (rn_steps s)))"

fun reconcile_branches :: "str \<Rightarrow> int \<Rightarrow> (workflow_run_step \<times> BackgroundAgentEnd) list \<Rightarrow> run_state \<Rightarrow> run_state \<times> bool" where
  "reconcile_branches owner_id now [] s = (s, False)"
| "reconcile_branches owner_id now ((branch, ended) # bs) s =
     (let (s1, c1) =
            (if ended = AgentCompleted then mark_branch_completed owner_id branch s
             else mark_branch_failed owner_id now (ended = AgentCancelled) branch s);
          (s2, c2) = reconcile_branches owner_id now bs s1
      in (s2, c1 \<or> c2))"

definition reconcile_workflow_run_branches ::
  "str \<Rightarrow> str \<Rightarrow> int \<Rightarrow> (str \<Rightarrow> BackgroundAgentEnd option) \<Rightarrow> int \<Rightarrow> run_state \<Rightarrow> str + run_state \<times> bool option" where
  "reconcile_workflow_run_branches owner_id owner_instance_id generation agent_end now s =
     bind_result (validate_owner_id owner_id) (\<lambda>_.
       case claim_checked_workflow_run owner_id owner_instance_id generation now s of
         None \<Rightarrow> Inr (s, None)
       | Some run \<Rightarrow>
           if is_terminal (wr_status run) \<or> wr_status run = RunCancelRequested then Inr (s, Some False)
           else
             let (s1, c1) = reconcile_branches owner_id now (terminal_branches agent_end s) s;
                 (s2, c2) = recompute_workflow_run_status owner_id now s1
             in Inr (s2, Some (c1 \<or> c2)))"

section \<open>Admitting branches\<close>

definition workflow_workspace_mode :: "WorkflowWorkspace option \<Rightarrow> WorkflowWorkspaceMode" where
  "workflow_workspace_mode w = (case w of None \<Rightarrow> SharedRepository | Some w \<Rightarrow> ww_mode w)"

definition active_branch :: "workflow_run_step \<Rightarrow> bool" where
  "active_branch r \<longleftrightarrow> rs_status r = StepActive \<and> rs_background_agent_run_id r \<noteq> None"

definition isolated_branch :: "workflow_run_step \<Rightarrow> bool" where
  "isolated_branch r \<longleftrightarrow> active_branch r \<and> workflow_workspace_mode (rs_workspace r) = IsolatedWorktree"

definition active_workflow_branch_counts :: "run_state \<Rightarrow> int \<times> int" where
  "active_workflow_branch_counts s =
     (int (length (filter active_branch (rn_steps s))), int (length (filter isolated_branch (rn_steps s))))"

definition branch_candidate :: "workflow_run_step \<Rightarrow> bool" where
  "branch_candidate r \<longleftrightarrow>
     rs_status r = StepReady \<and> rs_background_agent_run_id r = None
     \<and> (rs_approval_gate r = None \<or> rs_approval_state r = Some WORKFLOW_STEP_APPROVAL_APPROVED)"

definition ready_branch_candidates :: "run_state \<Rightarrow> workflow_run_step list" where
  "ready_branch_candidates s =
     sort_key (\<lambda>r. (rs_sequence r, rs_step_id r)) (filter branch_candidate (rn_steps s))"

definition branch_model_route :: "workflow_run \<Rightarrow> workflow_run_step \<Rightarrow> WorkflowModelRoute" where
  "branch_model_route run r = (case rs_model_route r of None \<Rightarrow> wr_execution_defaults run | Some m \<Rightarrow> m)"

definition provider_preflight_blocks :: "bool \<Rightarrow> WorkflowModelRoute \<Rightarrow> bool" where
  "provider_preflight_blocks env_present m \<longleftrightarrow>
     (to_ascii_lowercase (mr_model_gateway m) = lit ''openrouter'' \<or> to_ascii_lowercase (mr_provider m) = lit ''openrouter'')
     \<and> \<not> env_present"

definition block_provider_preflight :: "str \<Rightarrow> int \<Rightarrow> workflow_run_step \<Rightarrow> run_state \<Rightarrow> run_state \<times> bool" where
  "block_provider_preflight owner_id now candidate s =
     (let reason = Some (lit ''OpenRouter workflow branch requires OPENROUTER_API_KEY before admission'');
          code = Some (lit ''workflow_branch_provider_env_missing'');
          selected = \<lambda>r. rs_step_run_id r = rs_step_run_id candidate \<and> rs_status r = StepReady
                       \<and> rs_background_agent_run_id r = None
      in if \<not> list_ex selected (rn_steps s) then (s, False)
         else
           (append_workflow_run_event ''branch_preflight_blocked'' ''orchestrator'' (Some owner_id)
              (Some (rs_step_run_id candidate)) None
              (set_verifiers (\<lambda>v. rv_step_id v = rs_step_id candidate
                   \<and> rv_status v \<notin> {VerifierPassed, VerifierFailed, VerifierSkipped})
                 (\<lambda>v. v\<lparr>rv_status := VerifierBlocked, rv_status_reason := reason, rv_reason_code := code,
                        rv_completed_at := Some now\<rparr>)
              (set_steps selected
                 (\<lambda>r. r\<lparr>rs_status := StepBlocked, rs_status_reason := reason, rs_reason_code := code\<rparr>) s)), True))"

fun preflight_candidates :: "str \<Rightarrow> int \<Rightarrow> bool \<Rightarrow> workflow_run \<Rightarrow> workflow_run_step list \<Rightarrow> run_state \<Rightarrow> run_state \<times> bool" where
  "preflight_candidates owner_id now env_present run [] s = (s, False)"
| "preflight_candidates owner_id now env_present run (c # cs) s =
     (let (s1, c1) =
            (if provider_preflight_blocks env_present (branch_model_route run c)
             then block_provider_preflight owner_id now c s else (s, False));
          (s2, c2) = preflight_candidates owner_id now env_present run cs s1
      in (s2, c1 \<or> c2))"

definition workflow_branch_idempotency_key :: "str \<Rightarrow> str \<Rightarrow> int \<Rightarrow> str" where
  "workflow_branch_idempotency_key run_id step_id attempt =
     lit ''workflow:'' @ run_id @ lit '':step:'' @ step_id @ lit '':attempt:'' @
       (if attempt < 0 then minus_sign # show_nat (nat (- attempt)) else show_nat (nat attempt))"

definition admit_row :: "int \<Rightarrow> str \<Rightarrow> int \<Rightarrow> workflow_run_step \<Rightarrow> workflow_run_step" where
  "admit_row now agent_run_id attempt r =
     r\<lparr>rs_status := StepActive, rs_status_reason := Some (lit ''workflow branch admitted''),
       rs_reason_code := Some (lit ''workflow_branch_admitted''), rs_background_agent_run_id := Some agent_run_id,
       rs_attempt := attempt,
       rs_started_at := (case rs_started_at r of None \<Rightarrow> Some now | Some t \<Rightarrow> Some t)\<rparr>"

text \<open>\<open>agent_for\<close> is the agent found for an idempotency key, or a fresh one, \<open>provision\<close> prepares the
  workspace, and \<open>create\<close> records the agent. The loop carries the number of isolated worktrees and the
  admitted branches, newest last; an error rolls the transaction back.\<close>

type_synonym branch_effect = "workflow_run_step \<Rightarrow> WorkflowWorkspaceMode \<Rightarrow> int \<Rightarrow> str \<Rightarrow> str + unit"

fun admit_candidates ::
  "(str \<Rightarrow> str) \<Rightarrow> branch_effect \<Rightarrow> branch_effect \<Rightarrow> str \<Rightarrow> int \<Rightarrow> int \<Rightarrow> int \<Rightarrow>
   workflow_run_step list \<Rightarrow> int \<Rightarrow> (str \<times> str) list \<Rightarrow> run_state \<Rightarrow> str + run_state \<times> (str \<times> str) list" where
  "admit_candidates agent_for provision create owner_id now capacity max_wt [] isolated admitted s = Inr (s, admitted)"
| "admit_candidates agent_for provision create owner_id now capacity max_wt (c # cs) isolated admitted s =
     (if int (length admitted) \<ge> capacity then Inr (s, admitted)
      else
        let mode = workflow_workspace_mode (rs_workspace c)
        in if mode = IsolatedWorktree \<and> isolated \<ge> max_wt
           then admit_candidates agent_for provision create owner_id now capacity max_wt cs isolated admitted s
           else
             let isolated' = (if mode = IsolatedWorktree then isolated + 1 else isolated);
                 attempt = i64_saturating_add (rs_attempt c) 1;
                 agent = agent_for (workflow_branch_idempotency_key (wr_run_id (rn_run s)) (rs_step_id c) attempt);
                 selected = \<lambda>r. rs_step_run_id r = rs_step_run_id c \<and> rs_status r = StepReady
                              \<and> rs_background_agent_run_id r = None
             in bind_result (provision c mode attempt agent) (\<lambda>_.
                  if \<not> list_ex selected (rn_steps s)
                  then admit_candidates agent_for provision create owner_id now capacity max_wt cs isolated' admitted s
                  else
                    bind_result (create c mode attempt agent) (\<lambda>_.
                      admit_candidates agent_for provision create owner_id now capacity max_wt cs isolated'
                        (admitted @ [(rs_step_run_id c, agent)])
                        (append_workflow_run_event ''branch_admitted'' ''orchestrator'' (Some owner_id)
                           (Some (rs_step_run_id c)) None (set_steps selected (admit_row now agent attempt) s)))))"

text \<open>\<open>profile_check\<close> is the check of the caller's permission profile, a JSON value; \<open>live\<close> is the limit on background agents and the number alive, when a limit is set.\<close>

definition admission_capacity :: "WorkflowLimits \<Rightarrow> (int \<times> int) option \<Rightarrow> int \<Rightarrow> int" where
  "admission_capacity l live active =
     (let capacity = min (i64_saturating_sub (int (max_parallel_steps l)) active)
                         (i64_saturating_sub (int (max_agents l)) active)
      in case live of None \<Rightarrow> capacity | Some (limit, alive) \<Rightarrow> min capacity (i64_saturating_sub limit alive))"

definition admit_ready_workflow_branches ::
  "(str \<Rightarrow> str) \<Rightarrow> branch_effect \<Rightarrow> branch_effect \<Rightarrow> str \<Rightarrow> int \<Rightarrow> bool \<Rightarrow>
   (int \<times> int) option \<Rightarrow> workflow_run \<Rightarrow> run_state \<Rightarrow> str + run_state \<times> (str \<times> str) list \<times> bool" where
  "admit_ready_workflow_branches agent_for provision create owner_id now env_present live run s =
     (let (active, isolated) = active_workflow_branch_counts s;
          capacity = admission_capacity (wr_limits run) live active
      in if capacity \<le> 0 then Inr (s, [], False)
         else
           let candidates = ready_branch_candidates s;
               (s1, blocked) = preflight_candidates owner_id now env_present run candidates s
           in if blocked then Inr (s1, [], True)
              else bind_result
                     (admit_candidates agent_for provision create owner_id now capacity (int (max_worktrees (wr_limits run)))
                        candidates isolated [] s1)
                     (\<lambda>(s2, admitted). Inr (s2, admitted, admitted \<noteq> [])))"

definition admit_workflow_run_branches ::
  "str + unit \<Rightarrow> (str \<Rightarrow> str) \<Rightarrow> branch_effect \<Rightarrow> branch_effect \<Rightarrow> str \<Rightarrow> str \<Rightarrow> int \<Rightarrow> bool \<Rightarrow>
   (int \<times> int) option \<Rightarrow> int \<Rightarrow> run_state \<Rightarrow> str + run_state \<times> ((str \<times> str) list \<times> bool) option" where
  "admit_workflow_run_branches profile_check agent_for provision create owner_id owner_instance_id generation env_present live now s =
     bind_result (validate_owner_id owner_id) (\<lambda>_. bind_result profile_check (\<lambda>_.
       if (case live of None \<Rightarrow> False | Some (limit, _) \<Rightarrow> limit \<le> 0)
       then Inl (lit ''max_active_background_agent_runs must be positive when set'')
       else
         case claim_checked_workflow_run owner_id owner_instance_id generation now s of
           None \<Rightarrow> Inr (s, None)
         | Some run \<Rightarrow>
             if is_terminal (wr_status run) \<or> wr_status run = RunCancelRequested \<or> wr_status run = RunBlocked
             then Inr (s, Some ([], False))
             else bind_result (admit_ready_workflow_branches agent_for provision create owner_id now env_present live run s)
                    (\<lambda>(s1, admitted, changed).
                       Inr (if changed then fst (recompute_workflow_run_status owner_id now s1) else s1,
                            Some (admitted, changed)))))"

section \<open>Verifiers\<close>

datatype WorkflowRunVerifierClaimSelection = NextRunCommands | VerifierRunId str

definition VERIFIER_RETRY_PENDING_REASON_CODE :: str where
  "VERIFIER_RETRY_PENDING_REASON_CODE = lit ''verifier_retry_pending''"

definition claimable_verifier :: "run_state \<Rightarrow> workflow_run_verifier \<Rightarrow> workflow_run_step \<Rightarrow> bool" where
  "claimable_verifier s v r \<longleftrightarrow>
     rs_step_id r = rv_step_id v \<and> rs_status r = StepWaitingVerifier
     \<and> rv_status v \<in> {VerifierPending, VerifierBlocked}
     \<and> (rv_reason_code v = None
        \<or> rv_reason_code v \<in> {Some VERIFIER_EXECUTOR_PENDING_REASON_CODE, Some VERIFIER_RETRY_PENDING_REASON_CODE,
              Some VERIFIER_TAKEOVER_PENDING_REASON_CODE})"

definition selected_verifier ::
  "WorkflowRunVerifierClaimSelection \<Rightarrow> run_state \<Rightarrow> (workflow_run_step \<times> workflow_run_verifier) option" where
  "selected_verifier selection s =
     (let joined = concat (map (\<lambda>r. map (Pair r) (filter (\<lambda>v. claimable_verifier s v r) (rn_verifiers s))) (rn_steps s));
          chosen =
            (case selection of
               NextRunCommands \<Rightarrow>
                 sort_key (\<lambda>(r, v). (rs_sequence r, rv_verifier_id v))
                   (filter (\<lambda>(r, v). rv_verifier_type v = lit ''run_commands'') joined)
             | VerifierRunId i \<Rightarrow> filter (\<lambda>(r, v). rv_verifier_run_id v = i) joined)
      in case chosen of [] \<Rightarrow> None | e # _ \<Rightarrow> Some e)"

definition VERIFIER_RUNNING_LEASE_EXTENSION_MS :: int where
  "VERIFIER_RUNNING_LEASE_EXTENSION_MS = 31 * 60 * 1000"

definition claim_workflow_run_verifier ::
  "str \<Rightarrow> str \<Rightarrow> int \<Rightarrow> WorkflowRunVerifierClaimSelection \<Rightarrow> int \<Rightarrow> run_state \<Rightarrow> run_state \<times> str option" where
  "claim_workflow_run_verifier owner_id owner_instance_id generation selection now s =
     (case claim_checked_workflow_run owner_id owner_instance_id generation now s of
        None \<Rightarrow> (s, None)
      | Some run \<Rightarrow>
          if is_terminal (wr_status run) \<or> wr_status run = RunCancelRequested \<or> wr_status run = RunPaused
          then (s, None)
          else
            (case selected_verifier selection s of
               None \<Rightarrow> (s, None)
             | Some (step, verifier) \<Rightarrow>
                 let vid = rv_verifier_run_id verifier;
                     lease = i64_saturating_add now VERIFIER_RUNNING_LEASE_EXTENSION_MS;
                     s1 = set_verifiers (\<lambda>v. rv_verifier_run_id v = vid)
                            (\<lambda>v. v\<lparr>rv_status := VerifierRunning,
                                   rv_status_reason := Some (lit ''deterministic verifier is running''),
                                   rv_reason_code := Some (lit ''verifier_running''),
                                   rv_attempt_count := rv_attempt_count v + 1\<rparr>) s;
                     s2 = set_run (\<lambda>r. r\<lparr>wr_lease_expires_at :=
                              (case wr_lease_expires_at r of
                                 None \<Rightarrow> Some lease | Some l \<Rightarrow> Some (if l < lease then lease else l)),
                            wr_heartbeat_at := Some now\<rparr>) s1
                 in (append_workflow_run_event ''verifier_started'' ''workflow_verifier'' (Some owner_id)
                       (Some (rs_step_run_id step)) (Some vid) s2, Some vid)))"

datatype WorkflowRunVerifierOutcomeStatus = OutcomePassed | OutcomeFailed

record WorkflowRunVerifierResultSummary =
  vs_command_count :: int
  vs_expected_exit_code :: "int option"
  vs_observed_exit_code :: "int option"
  vs_timed_out :: bool
  vs_duration_ms :: int
  vs_output_bytes :: int
  vs_output_truncated :: bool

definition validate_verifier_result_summary ::
  "WorkflowRunVerifierOutcomeStatus \<Rightarrow> WorkflowRunVerifierResultSummary \<Rightarrow> str + unit" where
  "validate_verifier_result_summary outcome summary =
     (if vs_command_count summary < 0 then Inl (lit ''workflow verifier command_count must be non-negative'')
      else if vs_duration_ms summary < 0 then Inl (lit ''workflow verifier duration_ms must be non-negative'')
      else if vs_output_bytes summary < 0 then Inl (lit ''workflow verifier output_bytes must be non-negative'')
      else if outcome \<noteq> OutcomePassed then Inr ()
      else if vs_timed_out summary then Inl (lit ''workflow verifier passed outcome cannot have timed_out=true'')
      else if vs_output_truncated summary
      then Inl (lit ''workflow verifier passed outcome cannot have truncated output'')
      else if vs_command_count summary > 0 \<and> vs_observed_exit_code summary = None
      then Inl (lit ''workflow verifier passed outcome must include an observed exit code'')
      else
        (case (vs_expected_exit_code summary, vs_observed_exit_code summary) of
           (Some expected, Some observed) \<Rightarrow>
             if expected \<noteq> observed
             then Inl (lit ''workflow verifier passed outcome cannot have mismatched exit codes'')
             else Inr ()
         | _ \<Rightarrow> Inr ()))"

definition update_verifier_result ::
  "str \<Rightarrow> WorkflowRunStepVerifierStatus \<Rightarrow> str option \<Rightarrow> str option \<Rightarrow> int option \<Rightarrow> run_state \<Rightarrow> run_state" where
  "update_verifier_result vid status reason code completed_at s =
     set_verifiers (\<lambda>v. rv_verifier_run_id v = vid \<and> rv_status v = VerifierRunning)
       (\<lambda>v. v\<lparr>rv_status := status, rv_status_reason := reason, rv_reason_code := code,
              rv_completed_at := completed_at\<rparr>) s"

definition append_verifier_result_event :: "string \<Rightarrow> str \<Rightarrow> workflow_run_verifier \<Rightarrow> run_state \<Rightarrow> run_state" where
  "append_verifier_result_event event_type owner_id v s =
     append_workflow_run_event event_type ''workflow_verifier'' (Some owner_id)
       (map_option rs_step_run_id (List.find (\<lambda>r. rs_step_id r = rv_step_id v) (rn_steps s)))
       (Some (rv_verifier_run_id v)) s"

definition mark_verifier_retry_pending :: "str \<Rightarrow> workflow_run_verifier \<Rightarrow> run_state \<Rightarrow> run_state" where
  "mark_verifier_retry_pending owner_id v s =
     append_verifier_result_event ''verifier_retry_pending'' owner_id v
       (update_verifier_result (rv_verifier_run_id v) VerifierBlocked
          (Some (lit ''deterministic verifier retry is pending'')) (Some VERIFIER_RETRY_PENDING_REASON_CODE) None s)"

definition VERIFIER_FAILED_REASON :: str where
  "VERIFIER_FAILED_REASON = lit ''deterministic verifier failed''"

definition VERIFIER_FAILED_REASON_CODE :: str where
  "VERIFIER_FAILED_REASON_CODE = lit ''verifier_failed''"

definition mark_verifier_terminal ::
  "str \<Rightarrow> int \<Rightarrow> WorkflowRunVerifierOutcomeStatus \<Rightarrow> workflow_run_verifier \<Rightarrow> run_state \<Rightarrow> run_state" where
  "mark_verifier_terminal owner_id now outcome v s =
     (case outcome of
        OutcomePassed \<Rightarrow>
          append_verifier_result_event ''verifier_passed'' owner_id v
            (update_verifier_result (rv_verifier_run_id v) VerifierPassed None None (Some now) s)
      | OutcomeFailed \<Rightarrow>
          append_verifier_result_event ''verifier_failed'' owner_id v
            (update_verifier_result (rv_verifier_run_id v) VerifierFailed
               (Some VERIFIER_FAILED_REASON) (Some VERIFIER_FAILED_REASON_CODE) (Some now) s))"

definition maybe_complete_run_after_step_success :: "str \<Rightarrow> int \<Rightarrow> run_state \<Rightarrow> run_state" where
  "maybe_complete_run_after_step_success owner_id now s =
     (if list_ex (\<lambda>r. rs_status r \<notin> {StepSucceeded', StepSkipped}) (rn_steps s) then s
      else if is_terminal (wr_status (rn_run s)) then s
      else append_workflow_run_event ''run_status_changed'' ''workflow_verifier'' (Some owner_id) None None
             (set_run (\<lambda>r. r\<lparr>wr_status := RunCompleted, wr_status_reason := None, wr_reason_code := None,
                wr_completed_at := Some now\<rparr>) s))"

definition maybe_promote_step_after_verifier_pass :: "str \<Rightarrow> int \<Rightarrow> workflow_run_verifier \<Rightarrow> run_state \<Rightarrow> run_state" where
  "maybe_promote_step_after_verifier_pass owner_id now v s =
     (if \<not> verifiers_passed s (rv_step_id v) then s
      else
        let selected = \<lambda>r. rs_step_id r = rv_step_id v \<and> rs_status r = StepWaitingVerifier;
            s1 = (case List.find selected (rn_steps s) of
                    None \<Rightarrow> s
                  | Some row \<Rightarrow>
                      append_workflow_run_event ''step_succeeded'' ''workflow_verifier'' (Some owner_id)
                        (Some (rs_step_run_id row)) None (set_steps selected (step_success now) s))
        in maybe_complete_run_after_step_success owner_id now s1)"

definition mark_step_and_run_failed :: "str \<Rightarrow> int \<Rightarrow> workflow_run_verifier \<Rightarrow> run_state \<Rightarrow> run_state" where
  "mark_step_and_run_failed owner_id now v s =
     (let selected = \<lambda>r. rs_step_id r = rv_step_id v
            \<and> rs_status r \<notin> {StepSucceeded', StepFailed, StepCancelled, StepSkipped};
          s1 = (case List.find selected (rn_steps s) of
                  None \<Rightarrow> s
                | Some row \<Rightarrow>
                    append_workflow_run_event ''step_failed'' ''workflow_verifier'' (Some owner_id)
                      (Some (rs_step_run_id row)) (Some (rv_verifier_run_id v))
                      (set_steps selected
                         (\<lambda>r. r\<lparr>rs_status := StepFailed, rs_status_reason := Some VERIFIER_FAILED_REASON,
                                rs_reason_code := Some VERIFIER_FAILED_REASON_CODE, rs_completed_at := Some now\<rparr>) s))
      in if is_terminal (wr_status (rn_run s1)) then s1
         else append_workflow_run_event ''run_status_changed'' ''workflow_verifier'' (Some owner_id) None
                (Some (rv_verifier_run_id v))
                (set_run (\<lambda>r. r\<lparr>wr_status := RunFailed, wr_status_reason := Some VERIFIER_FAILED_REASON,
                   wr_reason_code := Some VERIFIER_FAILED_REASON_CODE, wr_completed_at := Some now\<rparr>) s1))"

definition MAX_VERIFIER_RETRY_ATTEMPTS_RUN :: int where
  "MAX_VERIFIER_RETRY_ATTEMPTS_RUN = 5"

definition record_workflow_run_verifier_result ::
  "str \<Rightarrow> str \<Rightarrow> int \<Rightarrow> str \<Rightarrow> WorkflowRunVerifierOutcomeStatus \<Rightarrow> WorkflowRunVerifierResultSummary \<Rightarrow> int \<Rightarrow> run_state \<Rightarrow>
   str + run_state \<times> bool option" where
  "record_workflow_run_verifier_result owner_id owner_instance_id generation verifier_run_id outcome summary now s =
     bind_result (validate_verifier_result_summary outcome summary) (\<lambda>_.
       case claim_checked_workflow_run owner_id owner_instance_id generation now s of
         None \<Rightarrow> Inr (s, None)
       | Some run \<Rightarrow>
           if is_terminal (wr_status run) \<or> wr_status run = RunCancelRequested \<or> wr_status run = RunPaused
           then Inr (s, None)
           else
             (case List.find (\<lambda>v. rv_verifier_run_id v = verifier_run_id \<and> rv_status v = VerifierRunning) (rn_verifiers s) of
                None \<Rightarrow> Inr (s, None)
              | Some v \<Rightarrow>
                  let retry_pending = outcome = OutcomeFailed
                        \<and> (case rv_max_attempts v of
                             None \<Rightarrow> False
                           | Some m \<Rightarrow> rv_attempt_count v < max 1 (min MAX_VERIFIER_RETRY_ATTEMPTS_RUN m))
                  in if retry_pending then Inr (mark_verifier_retry_pending owner_id v s, Some True)
                     else
                       let s1 = mark_verifier_terminal owner_id now outcome v s
                       in Inr (case outcome of
                                 OutcomePassed \<Rightarrow> maybe_promote_step_after_verifier_pass owner_id now v s1
                               | OutcomeFailed \<Rightarrow> mark_step_and_run_failed owner_id now v s1, Some False)))"

end
