(* ===== verification/Workflow_Machine.thy ===== *)
theory Workflow_Machine
  imports Workflow_Branches
begin

text \<open>
  The abstract machine behind a workflow run. Its moves change one table each and say nothing of owners, reasons and
  times; every transaction of the orchestrator is shown to be a sequence of them, so that an invariant of a
  run needs one proof per move.
\<close>

section \<open>The moves\<close>

definition all_done :: "run_state \<Rightarrow> bool" where
  "all_done s \<longleftrightarrow> (\<forall>r \<in> set (rn_steps s). rs_status r \<in> {StepSucceeded', StepSkipped})"

text \<open>A change of one step other than its admission: it keeps the identity of the row, leaves finished
  steps alone, makes a step ready only when its dependencies are met, and lets it succeed only from the
  verifier stage with every verifier passed.\<close>

definition step_move :: "run_state \<Rightarrow> workflow_run_step \<Rightarrow> workflow_run_step \<Rightarrow> bool" where
  "step_move s r r' \<longleftrightarrow>
     rs_step_run_id r' = rs_step_run_id r \<and> rs_step_id r' = rs_step_id r \<and> rs_approval_gate r' = rs_approval_gate r
     \<and> rs_workspace r' = rs_workspace r \<and> rs_status r \<notin> {StepSucceeded', StepSkipped}
     \<and> rs_status r' \<noteq> StepActive
     \<and> (rs_status r' = StepPending \<longrightarrow> rs_status r = StepPending)
     \<and> (rs_status r' = StepReady \<longrightarrow> rs_status r = StepReady \<or> rs_status r = StepPending \<and> dependencies_met s r)
     \<and> (rs_status r' = StepSucceeded' \<longrightarrow> rs_status r = StepWaitingVerifier \<and> verifiers_passed s (rs_step_id r))"

text \<open>A change of one verifier keeps its identity and leaves a passed one alone.\<close>

definition verifier_move :: "workflow_run_verifier \<Rightarrow> workflow_run_verifier \<Rightarrow> bool" where
  "verifier_move v v' \<longleftrightarrow>
     rv_status v \<noteq> VerifierPassed \<and> rv_step_id v' = rv_step_id v \<and> rv_verifier_run_id v' = rv_verifier_run_id v"

definition active_count :: "run_state \<Rightarrow> nat" where
  "active_count s = length (filter active_branch (rn_steps s))"

definition isolated_count :: "run_state \<Rightarrow> nat" where
  "isolated_count s = length (filter isolated_branch (rn_steps s))"

inductive machine_step :: "run_state \<Rightarrow> run_state \<Rightarrow> bool" where
  run: "wr_limits r = wr_limits (rn_run s) \<Longrightarrow> wr_generation (rn_run s) \<le> wr_generation r \<Longrightarrow>
    (wr_status r = RunCompleted \<Longrightarrow> wr_status (rn_run s) \<noteq> RunCompleted \<Longrightarrow> all_done s) \<Longrightarrow>
    (is_terminal (wr_status (rn_run s)) \<Longrightarrow> wr_status r = wr_status (rn_run s)) \<Longrightarrow>
    machine_step s (s\<lparr>rn_run := r, rn_events := es\<rparr>)"
| steps: "(\<And>r. r \<in> set (rn_steps s) \<Longrightarrow> p r \<Longrightarrow> step_move s r (f r)) \<Longrightarrow> machine_step s (set_steps p f s)"
| verifiers: "(\<And>v. v \<in> set (rn_verifiers s) \<Longrightarrow> p v \<Longrightarrow> verifier_move v (f v)) \<Longrightarrow>
    machine_step s (set_verifiers p f s)"
| admit: "c \<in> set (rn_steps s) \<Longrightarrow> branch_candidate c \<Longrightarrow>
    active_count s < max_parallel_steps (wr_limits (rn_run s)) \<Longrightarrow> active_count s < max_agents (wr_limits (rn_run s)) \<Longrightarrow>
    (workflow_workspace_mode (rs_workspace c) = IsolatedWorktree \<Longrightarrow>
       isolated_count s < max_worktrees (wr_limits (rn_run s))) \<Longrightarrow>
    machine_step s (set_steps (\<lambda>r. rs_step_run_id r = rs_step_run_id c \<and> rs_status r = StepReady
        \<and> rs_background_agent_run_id r = None) (admit_row now agent attempt) s)"

text \<open>Sequences of moves, and those that keep the status of the run.\<close>

abbreviation moves :: "run_state \<Rightarrow> run_state \<Rightarrow> bool" where
  "moves \<equiv> machine_step\<^sup>*\<^sup>*"

definition calm :: "run_state \<Rightarrow> run_state \<Rightarrow> bool" where
  "calm s s' \<longleftrightarrow> moves s s' \<and> wr_status (rn_run s') = wr_status (rn_run s)"

lemma calm_refl [simp, intro]: "calm s s"
  by (simp add: calm_def)

lemma calm_trans: "calm s s' \<Longrightarrow> calm s' s'' \<Longrightarrow> calm s s''"
  by (auto simp: calm_def)

lemma calm_moves: "calm s s' \<Longrightarrow> moves s s'"
  by (simp add: calm_def)

lemma calm_event [intro]: "calm s (append_workflow_run_event t k a sr vr s)"
  unfolding calm_def append_workflow_run_event_def Let_def
  by (intro conjI r_into_rtranclp machine_step.run) auto

lemma calm_then_event: "calm s s' \<Longrightarrow> calm s (append_workflow_run_event t k a sr vr s')"
  by (erule calm_trans) (rule calm_event)

lemma calm_events:
  assumes "\<And>x s. calm s (f x s)" "calm s s'" shows "calm s (append_each f xs s')"
proof -
  have "calm s' (fold f xs s')"
    by (induction xs arbitrary: s') (auto intro: calm_trans [OF assms(1)])
  with assms(2) show ?thesis unfolding append_each_def by (rule calm_trans)
qed

lemma moves_event: "moves s s' \<Longrightarrow> moves s (append_workflow_run_event t k a sr vr s')"
  by (erule rtranclp_trans) (rule calm_moves [OF calm_event])

lemma calm_steps:
  "(\<And>r. r \<in> set (rn_steps s) \<Longrightarrow> p r \<Longrightarrow> step_move s r (f r)) \<Longrightarrow> calm s (set_steps p f s)"
  unfolding calm_def by (auto intro: machine_step.steps)

lemma calm_verifiers:
  "(\<And>v. v \<in> set (rn_verifiers s) \<Longrightarrow> p v \<Longrightarrow> verifier_move v (f v)) \<Longrightarrow>
   calm s (set_verifiers p f s)"
  unfolding calm_def by (auto intro: machine_step.verifiers)

lemma calm_steps_verifiers:
  assumes "\<And>r. r \<in> set (rn_steps s) \<Longrightarrow> p r \<Longrightarrow> step_move s r (f r)"
    and "\<And>v. q v \<Longrightarrow> verifier_move v (g v)"
  shows "calm s ((set_steps p f s)\<lparr>rn_verifiers := update_where q g (rn_verifiers s)\<rparr>)"
  using calm_trans [OF calm_steps [of s p f] calm_verifiers [of "set_steps p f s" q g]] assms by simp

lemma moves_run:
  "wr_limits r = wr_limits (rn_run s) \<Longrightarrow> wr_generation (rn_run s) \<le> wr_generation r \<Longrightarrow>
   (wr_status r = RunCompleted \<Longrightarrow> wr_status (rn_run s) \<noteq> RunCompleted \<Longrightarrow> all_done s) \<Longrightarrow>
   (is_terminal (wr_status (rn_run s)) \<Longrightarrow> wr_status r = wr_status (rn_run s)) \<Longrightarrow> moves s (s\<lparr>rn_run := r\<rparr>)"
  using machine_step.run [of r s "rn_events s"] by auto

section \<open>Transactions are sequences of moves\<close>

lemma calm_mark_ready: "calm s (fst (mark_ready_steps owner s))"
  unfolding mark_ready_steps_def Let_def fst_conv
  by (intro calm_events calm_event calm_steps) (auto simp: step_move_def)

lemma calm_block_pending: "calm s (fst (block_pending_step_verifiers x owner s))"
  unfolding block_pending_step_verifiers_def Let_def fst_conv
  by (intro calm_events calm_event calm_verifiers) (auto simp: verifier_move_def)

lemma calm_wait:
  assumes "\<And>r. p r \<Longrightarrow> rs_status r \<in> {StepPending, StepReady, StepActive}"
  shows "calm s (fst (block_pending_step_verifiers x owner
    (append_workflow_run_event t k a sr vr (set_steps p wait_for_verifiers s))))"
  by (intro calm_trans [OF _ calm_block_pending] calm_then_event calm_steps)
     (use assms in \<open>fastforce simp: step_move_def wait_for_verifiers_def\<close>)

lemma calm_observe: "calm s (fst (observe_completed_step owner x s))"
  unfolding observe_completed_step_def Let_def
  by (auto simp del: fst_conv split: list.split simp add: fst_conv intro: calm_wait)

lemma calm_observe_all: "calm s (fst (observe_goal_plan_completion owner xs s))"
proof (induction xs arbitrary: s)
  case (Cons x xs)
  then show ?case by (auto simp: split_def Let_def intro: calm_trans calm_observe)
qed simp

lemma calm_promote: "calm s (fst (promote_verified_steps owner now s))"
  unfolding promote_verified_steps_def Let_def fst_conv
  by (intro calm_events calm_event calm_steps) (auto simp: step_move_def step_success_def)

lemma derive_completed:
  "derive_run_status_from_step_statuses (map rs_status (rn_steps s)) = RunCompleted \<Longrightarrow> all_done s"
  by (auto simp: derive_run_status_from_step_statuses_def all_done_def list_all_iff split: if_splits)

lemma moves_recompute:
  assumes "\<not> is_terminal (wr_status (rn_run s))"
  shows "moves s (fst (recompute_workflow_run_status owner now s))"
  using assms derive_completed [of s] unfolding recompute_workflow_run_status_def Let_def
  by (auto simp: split_def intro!: moves_event moves_run)

lemma fst_advance_steps:
  "fst (advance_steps owner done_ids now s) =
     fst (recompute_workflow_run_status owner now
       (fst (promote_verified_steps owner now
         (fst (observe_goal_plan_completion owner done_ids (fst (mark_ready_steps owner s)))))))"
  by (simp add: advance_steps_def split_def Let_def)

lemma calm_before_recompute:
  "calm s (fst (promote_verified_steps owner now
     (fst (observe_goal_plan_completion owner done_ids (fst (mark_ready_steps owner s))))))"
  by (intro calm_trans [OF _ calm_promote] calm_trans [OF _ calm_observe_all] calm_mark_ready)

lemma moves_calm_recompute:
  "calm s s' \<Longrightarrow> \<not> is_terminal (wr_status (rn_run s)) \<Longrightarrow> moves s (fst (recompute_workflow_run_status owner now s'))"
  by (metis calm_def moves_recompute rtranclp_trans)

lemma moves_cancel: "moves s (fst (cancel_workflow_run owner now s))"
proof (cases "wr_status (rn_run s) = RunCancelRequested")
  case True
  define c where "c = Some (lit ''workflow_cancelled'')"
  let ?r = "(rn_run s)\<lparr>wr_status := RunCancelled,
     wr_status_reason := (case wr_status_reason (rn_run s) of
        None \<Rightarrow> Some (lit ''workflow run cancelled'') | Some t \<Rightarrow> Some t),
     wr_reason_code := c, wr_owner_id := None, wr_owner_instance_id := None, wr_lease_expires_at := None,
     wr_heartbeat_at := Some now, wr_completed_at := Some now\<rparr>"
  let ?s1 = "s\<lparr>rn_run := ?r\<rparr>"
  let ?s2 = "set_steps (\<lambda>r. rs_status r \<notin> {StepSucceeded', StepCancelled, StepFailed, StepSkipped})
       (\<lambda>r. r\<lparr>rs_status := StepCancelled, rs_reason_code := c, rs_completed_at := Some now\<rparr>) ?s1"
  let ?s3 = "set_verifiers (\<lambda>v. rv_status v \<notin> {VerifierPassed, VerifierFailed, VerifierSkipped})
       (\<lambda>v. v\<lparr>rv_status := VerifierSkipped, rv_reason_code := c, rv_completed_at := Some now\<rparr>) ?s2"
  have "moves s ?s1"
    by (rule moves_run) (auto simp: True is_terminal_def)
  moreover have "calm ?s1 ?s2" by (intro calm_steps) (auto simp: step_move_def)
  moreover have "calm ?s2 ?s3" by (intro calm_verifiers) (auto simp: verifier_move_def)
  ultimately have "moves s ?s3" by (auto simp: calm_def)
  with True show ?thesis by (simp add: cancel_workflow_run_def Let_def c_def moves_event)
qed (simp add: cancel_workflow_run_def)

lemma moves_advance:
  "advance_workflow_run owner inst g done_ids now s = Inr (s', out) \<Longrightarrow> moves s s'"
  using moves_cancel [of s owner now]
  by (auto simp: advance_workflow_run_def bind_result_Inr_iff split_def fst_advance_steps claim_checked_workflow_run_def
      Let_def intro: moves_calm_recompute [OF calm_before_recompute] split: option.splits if_splits)

lemma moves_claim:
  assumes "claim_workflow_run owner inst requested now s = Inr (s', out)" shows "moves s s'"
proof -
  let ?r = "\<lambda>l. (rn_run s)\<lparr>wr_owner_id := Some owner, wr_owner_instance_id := Some inst,
     wr_lease_expires_at := Some l, wr_heartbeat_at := Some now, wr_generation := wr_generation (rn_run s) + 1,
     wr_status := (if wr_status (rn_run s) \<in> {RunPending, RunWaiting} then RunRunning else wr_status (rn_run s)),
     wr_started_at := (case wr_started_at (rn_run s) of None \<Rightarrow> Some now | Some t \<Rightarrow> Some t)\<rparr>"
  have "moves s (s\<lparr>rn_run := ?r l\<rparr>)" for l
    by (rule moves_run) (auto simp: is_terminal_def split: if_splits)
  moreover have "calm s1 (requeue_running_workflow_verifiers_for_takeover s1)" for s1
    unfolding requeue_running_workflow_verifiers_for_takeover_def by (intro calm_verifiers) (auto simp: verifier_move_def)
  ultimately have "moves s (requeue_running_workflow_verifiers_for_takeover (s\<lparr>rn_run := ?r l\<rparr>))" for l
    by (meson calm_moves rtranclp_trans)
  then show ?thesis
    using assms by (auto simp: claim_workflow_run_def bind_result_Inr_iff Let_def intro: moves_event split: if_splits)
qed

lemma moves_heartbeat:
  "heartbeat_workflow_run owner inst g requested now s = Inr (s', out) \<Longrightarrow> moves s s'"
  by (auto simp: heartbeat_workflow_run_def bind_result_Inr_iff Let_def intro!: moves_run split: if_splits)

lemma calm_reconcile: "calm s (fst (reconcile_branches owner now bs s))"
proof (induction bs arbitrary: s)
  case (Cons b bs)
  obtain branch ended where b: "b = (branch, ended)" by fastforce
  have "calm s (fst (mark_branch_completed owner branch s))"
    by (auto simp: mark_branch_completed_def Let_def intro: calm_wait)
  moreover have "calm s (fst (mark_branch_failed owner now c branch s))" for c
    unfolding mark_branch_failed_def Let_def
    by (auto intro!: calm_then_event calm_steps_verifiers simp: step_move_def verifier_move_def)
  ultimately show ?case using Cons.IH by (auto simp: b split_def Let_def intro: calm_trans)
qed simp

lemma moves_reconcile:
  "reconcile_workflow_run_branches owner inst g ends now s = Inr (s', out) \<Longrightarrow> moves s s'"
  by (auto simp: reconcile_workflow_run_branches_def bind_result_Inr_iff split_def claim_checked_workflow_run_def
      Let_def intro: moves_calm_recompute [OF calm_reconcile] split: option.splits if_splits)

lemma moves_release:
  assumes "st \<noteq> RunCompleted" "\<not> is_terminal (wr_status (rn_run s))"
  shows "moves s (set_run (release_owner st a b) s)"
  using assms by (intro moves_run) (auto simp: release_owner_def)

lemma moves_requests:
  "moves s (fst (request_workflow_run_cancel s))"
  "moves s (fst (pause_workflow_run s))"
  "moves s (fst (resume_workflow_run s))"
  by (auto simp: request_workflow_run_cancel_def pause_workflow_run_def resume_workflow_run_def Let_def is_terminal_def
      intro!: moves_event moves_release)

section \<open>Transactions that rely on the keys of the tables\<close>

definition keys_ok :: "run_state \<Rightarrow> bool" where
  "keys_ok s \<longleftrightarrow>
     distinct (map rs_step_run_id (rn_steps s)) \<and> distinct (map rs_step_id (rn_steps s))
     \<and> distinct (map rv_verifier_run_id (rn_verifiers s))"

lemma key_unique: "distinct (map k xs) \<Longrightarrow> x \<in> set xs \<Longrightarrow> y \<in> set xs \<Longrightarrow> k x = k y \<Longrightarrow> x = y"
  by (meson distinct_map inj_onD)

lemma moves_approval:
  assumes "keys_ok s" shows "moves s (fst (set_workflow_run_step_approval x d actor s))"
proof (cases "List.find (\<lambda>r. rs_step_id r = x) (rn_steps s)")
  case (Some row)
  then have row: "row \<in> set (rn_steps s)" "rs_step_id row = x" by (auto simp: find_Some_iff)
  have same: "r = row" if "r \<in> set (rn_steps s)" "rs_step_id r = x" for r
    using key_unique [of rs_step_id "rn_steps s" r row] assms row that by (simp add: keys_ok_def)
  have "calm s (set_steps (\<lambda>r. rs_step_id r = x) f s)" if "step_move s row (f row)" for f
    using that same by (intro calm_steps) blast
  then show ?thesis
    by (cases d)
       (auto simp: set_workflow_run_step_approval_def Some Let_def step_move_def intro!: calm_moves calm_then_event)
qed (simp add: set_workflow_run_step_approval_def)

lemma head_in_set: "(case xs of [] \<Rightarrow> None | e # _ \<Rightarrow> Some e) = Some x \<Longrightarrow> x \<in> set xs"
  by (auto split: list.splits)

lemma selected_verifier_claimable:
  assumes "selected_verifier sel s = Some (r, v)"
  shows "v \<in> set (rn_verifiers s) \<and> rv_status v \<noteq> VerifierPassed"
proof -
  define joined where "joined = concat (map (\<lambda>r. map (Pair r) (filter (\<lambda>v. claimable_verifier s v r) (rn_verifiers s))) (rn_steps s))"
  from assms have "(r, v) \<in> set (case sel of
      NextRunCommands \<Rightarrow> sort_key (\<lambda>(r, v). (rs_sequence r, rv_verifier_id v))
        (filter (\<lambda>(r, v). rv_verifier_type v = lit ''run_commands'') joined)
    | VerifierRunId i \<Rightarrow> filter (\<lambda>(r, v). rv_verifier_run_id v = i) joined)"
    unfolding selected_verifier_def Let_def joined_def [symmetric] by (rule head_in_set)
  then have "(r, v) \<in> set joined" by (cases sel) simp_all
  then show ?thesis by (auto simp: joined_def claimable_verifier_def)
qed

lemma moves_claim_verifier:
  assumes "keys_ok s" shows "moves s (fst (claim_workflow_run_verifier owner inst g sel now s))"
proof (cases "fst (claim_workflow_run_verifier owner inst g sel now s) = s")
  case False
  then obtain r v where sel: "selected_verifier sel s = Some (r, v)"
    by (auto simp: claim_workflow_run_verifier_def split: option.splits if_splits)
  define s1 where "s1 = set_verifiers (\<lambda>w. rv_verifier_run_id w = rv_verifier_run_id v)
    (\<lambda>v. v\<lparr>rv_status := VerifierRunning, rv_status_reason := Some (lit ''deterministic verifier is running''),
           rv_reason_code := Some (lit ''verifier_running''), rv_attempt_count := rv_attempt_count v + 1\<rparr>) s"
  note v = selected_verifier_claimable [OF sel]
  have "w = v" if "w \<in> set (rn_verifiers s)" "rv_verifier_run_id w = rv_verifier_run_id v" for w
    using key_unique [of rv_verifier_run_id "rn_verifiers s" w v] assms v that by (simp add: keys_ok_def)
  then have "moves s s1"
    unfolding s1_def using v by (intro calm_moves calm_verifiers) (auto simp: verifier_move_def)
  moreover have "moves s1 (s1\<lparr>rn_run := (rn_run s1)\<lparr>wr_lease_expires_at := l, wr_heartbeat_at := h\<rparr>\<rparr>)" for l h
    by (rule moves_run) auto
  ultimately have "moves s (s1\<lparr>rn_run := (rn_run s1)\<lparr>wr_lease_expires_at := l, wr_heartbeat_at := h\<rparr>\<rparr>)" for l h
    by (rule rtranclp_trans)
  with False show ?thesis
    unfolding claim_workflow_run_verifier_def sel Let_def option.case prod.case s1_def [symmetric]
    by (simp add: moves_event split: option.split)
qed simp

lemma calm_update_result: "calm s (update_verifier_result vid st a b c s)"
  unfolding update_verifier_result_def by (intro calm_verifiers) (auto simp: verifier_move_def)

lemma calm_result_event: "calm s s' \<Longrightarrow> calm s (append_verifier_result_event t owner v s')"
  unfolding append_verifier_result_event_def by (rule calm_then_event)

lemma calm_terminal: "calm s (mark_verifier_terminal owner now outcome v s)"
  by (cases outcome) (simp_all add: mark_verifier_terminal_def calm_result_event calm_update_result)

lemma moves_maybe_complete: "moves s (maybe_complete_run_after_step_success owner now s)"
  unfolding maybe_complete_run_after_step_success_def
  by (auto intro!: moves_event moves_run simp: all_done_def list_ex_iff)

lemma moves_maybe_promote: "moves s (maybe_promote_step_after_verifier_pass owner now v s)"
proof -
  let ?p = "\<lambda>r. rs_step_id r = rv_step_id v \<and> rs_status r = StepWaitingVerifier"
  have "verifiers_passed s (rv_step_id v) \<Longrightarrow> calm s (set_steps ?p (step_success now) s)"
    by (intro calm_steps) (auto simp: step_move_def step_success_def)
  then have "verifiers_passed s (rv_step_id v) \<Longrightarrow> moves s (case List.find ?p (rn_steps s) of None \<Rightarrow> s
      | Some row \<Rightarrow> append_workflow_run_event t k a (g row) vr (set_steps ?p (step_success now) s))" for t k a g vr
    by (auto split: option.split intro: moves_event calm_moves)
  then show ?thesis
    unfolding maybe_promote_step_after_verifier_pass_def Let_def
    by (auto intro: rtranclp_trans [OF _ moves_maybe_complete])
qed

lemma moves_step_and_run_failed: "moves s (mark_step_and_run_failed owner now v s)"
proof -
  let ?p = "\<lambda>r. rs_step_id r = rv_step_id v \<and> rs_status r \<notin> {StepSucceeded', StepFailed, StepCancelled, StepSkipped}"
  let ?f = "\<lambda>r. r\<lparr>rs_status := StepFailed, rs_status_reason := Some VERIFIER_FAILED_REASON,
    rs_reason_code := Some VERIFIER_FAILED_REASON_CODE, rs_completed_at := Some now\<rparr>"
  define s1 where "s1 = (case List.find ?p (rn_steps s) of None \<Rightarrow> s
    | Some row \<Rightarrow> append_workflow_run_event ''step_failed'' ''workflow_verifier'' (Some owner)
        (Some (rs_step_run_id row)) (Some (rv_verifier_run_id v)) (set_steps ?p ?f s))"
  have "calm s (set_steps ?p ?f s)" by (intro calm_steps) (auto simp: step_move_def)
  then have "moves s s1" by (auto simp: s1_def split: option.split intro: moves_event calm_moves)
  moreover have "moves s1 (s1\<lparr>rn_run := r\<rparr>)"
    if "\<not> is_terminal (wr_status (rn_run s1))" "wr_limits r = wr_limits (rn_run s1)"
      "wr_generation r = wr_generation (rn_run s1)" "wr_status r = RunFailed" for r
    using that by (intro moves_run) auto
  ultimately show ?thesis
    unfolding mark_step_and_run_failed_def Let_def s1_def [symmetric]
    by (auto intro!: moves_event elim: rtranclp_trans)
qed

lemma moves_record:
  "record_workflow_run_verifier_result owner inst g vid outcome summary now s = Inr (s', out) \<Longrightarrow> moves s s'"
  by (auto simp: record_workflow_run_verifier_result_def bind_result_Inr_iff Let_def mark_verifier_retry_pending_def
      intro: calm_moves [OF calm_result_event [OF calm_update_result]]
        rtranclp_trans [OF calm_moves [OF calm_terminal] moves_maybe_promote]
        rtranclp_trans [OF calm_moves [OF calm_terminal] moves_step_and_run_failed]
      split: option.splits if_splits WorkflowRunVerifierOutcomeStatus.splits)

end
