(* ===== verification/Workflow_Invariant.thy ===== *)
theory Workflow_Invariant
  imports Workflow_Machine
begin

text \<open>
  The invariant of a workflow run. Every move of the abstract machine keeps it, and so does every operation; admission,
  whose capacity check relies on the counts the invariant bounds, is shown to be a sequence of moves here.
\<close>

section \<open>The invariant\<close>

definition run_inv :: "run_state \<Rightarrow> bool" where
  "run_inv s \<longleftrightarrow>
     keys_ok s
     \<and> (\<forall>r \<in> set (rn_steps s). rs_status r \<in> {StepReady, StepActive} \<longrightarrow> dependencies_met s r)
     \<and> (\<forall>r \<in> set (rn_steps s). rs_status r = StepSucceeded' \<longrightarrow> verifiers_passed s (rs_step_id r))
     \<and> (\<forall>r \<in> set (rn_steps s). rs_status r = StepActive \<longrightarrow>
          rs_approval_gate r = None \<or> rs_approval_state r = Some WORKFLOW_STEP_APPROVAL_APPROVED)
     \<and> (wr_status (rn_run s) = RunCompleted \<longrightarrow> all_done s)
     \<and> active_count s \<le> max_parallel_steps (wr_limits (rn_run s)) \<and> active_count s \<le> max_agents (wr_limits (rn_run s))
     \<and> isolated_count s \<le> max_worktrees (wr_limits (rn_run s))"

lemma run_inv_keys: "run_inv s \<Longrightarrow> keys_ok s"
  by (simp add: run_inv_def)

section \<open>Updates of tables\<close>

lemma map_update_where: "(\<And>r. r \<in> set rows \<Longrightarrow> p r \<Longrightarrow> k (f r) = k r) \<Longrightarrow> map k (update_where p f rows) = map k rows"
  by (auto simp: update_where_def)

lemma count_update_le:
  "(\<And>r. r \<in> set rows \<Longrightarrow> p r \<Longrightarrow> Q (f r) \<Longrightarrow> Q r) \<Longrightarrow> length (filter Q (update_where p f rows)) \<le> length (filter Q rows)"
  by (induction rows) (auto simp: update_where_def)

lemma count_update_add: "length (filter Q (update_where p f rows)) \<le> length (filter Q rows) + length (filter p rows)"
  by (induction rows) (auto simp: update_where_def)

lemma count_key_le_1: "distinct (map k rows) \<Longrightarrow> (\<And>r. p r \<Longrightarrow> k r = x) \<Longrightarrow> length (filter p rows) \<le> 1"
proof (induction rows)
  case (Cons r rows)
  have "p r \<Longrightarrow> filter p rows = []"
    using Cons.prems by (fastforce simp: filter_empty_conv)
  with Cons show ?case by auto
qed simp

lemma dependencies_met_mono:
  assumes "dependencies_met s r" "rs_step_id r' = rs_step_id r" "rn_deps s' = rn_deps s"
    and "\<And>d'. d' \<in> set (rn_steps s') \<Longrightarrow>
      \<exists>d \<in> set (rn_steps s). rs_step_id d = rs_step_id d' \<and> (rs_status d = StepSucceeded' \<longrightarrow> rs_status d' = StepSucceeded')"
  shows "dependencies_met s' r'"
  using assms unfolding dependencies_met_def list_ex_iff by fastforce

lemma verifiers_passed_cong: "rn_verifiers s' = rn_verifiers s \<Longrightarrow> verifiers_passed s' x = verifiers_passed s x"
  by (simp add: verifiers_passed_def)

section \<open>Preservation by the moves\<close>

lemma run_inv_run_move:
  assumes "run_inv s" "wr_limits r = wr_limits (rn_run s)"
    and "wr_status r = RunCompleted \<Longrightarrow> wr_status (rn_run s) \<noteq> RunCompleted \<Longrightarrow> all_done s"
  shows "run_inv (s\<lparr>rn_run := r, rn_events := es\<rparr>)"
proof -
  let ?s = "s\<lparr>rn_run := r, rn_events := es\<rparr>"
  have "dependencies_met ?s = dependencies_met s" "verifiers_passed ?s = verifiers_passed s" "all_done ?s = all_done s"
    "active_count ?s = active_count s" "isolated_count ?s = isolated_count s" "keys_ok ?s = keys_ok s"
    by (simp_all add: fun_eq_iff dependencies_met_def verifiers_passed_def all_done_def active_count_def
        isolated_count_def keys_ok_def)
  with assms show ?thesis by (auto simp: run_inv_def)
qed

lemma run_inv_verifier_move:
  assumes inv: "run_inv s" and move: "\<And>v. v \<in> set (rn_verifiers s) \<Longrightarrow> p v \<Longrightarrow> verifier_move v (f v)"
  shows "run_inv (set_verifiers p f s)"
proof -
  let ?s = "set_verifiers p f s"
  have "verifiers_passed ?s x" if "verifiers_passed s x" for x
    using that move by (fastforce simp: verifiers_passed_def list_ex_iff set_update_where verifier_move_def)
  moreover have "map rv_verifier_run_id (update_where p f (rn_verifiers s)) = map rv_verifier_run_id (rn_verifiers s)"
    using move by (intro map_update_where) (simp add: verifier_move_def)
  moreover have "dependencies_met ?s = dependencies_met s" "all_done ?s = all_done s"
    "active_count ?s = active_count s" "isolated_count ?s = isolated_count s"
    by (simp_all add: fun_eq_iff dependencies_met_def all_done_def active_count_def isolated_count_def)
  ultimately show ?thesis using inv by (simp add: run_inv_def keys_ok_def)
qed

lemma run_inv_step_move:
  assumes inv: "run_inv s" and move: "\<And>r. r \<in> set (rn_steps s) \<Longrightarrow> p r \<Longrightarrow> step_move s r (f r)"
  shows "run_inv (set_steps p f s)"
proof -
  let ?s = "set_steps p f s"
  have row: "\<exists>r \<in> set (rn_steps s). r' = (if p r then f r else r) \<and> (p r \<longrightarrow> step_move s r r')"
    if "r' \<in> set (rn_steps ?s)" for r'
    using that move by (auto simp: set_update_where)
  have old: "\<exists>d \<in> set (rn_steps s). rs_step_id d = rs_step_id d' \<and> (rs_status d = StepSucceeded' \<longrightarrow> rs_status d' = StepSucceeded')"
    if "d' \<in> set (rn_steps ?s)" for d'
    using row [OF that] by (auto simp: step_move_def split: if_splits)
  have met: "dependencies_met ?s r'" if "dependencies_met s r" "rs_step_id r' = rs_step_id r" for r r'
    by (rule dependencies_met_mono [OF that]) (use old in auto)
  have passed: "verifiers_passed ?s = verifiers_passed s" by (simp add: verifiers_passed_def fun_eq_iff)
  have keys: "keys_ok ?s"
    using inv move map_update_where [of "rn_steps s" p rs_step_run_id f] map_update_where [of "rn_steps s" p rs_step_id f]
    by (simp add: run_inv_def keys_ok_def step_move_def)
  have counts: "active_count ?s \<le> active_count s" "isolated_count ?s \<le> isolated_count s"
    unfolding active_count_def isolated_count_def
    using move by (auto intro!: count_update_le simp: isolated_branch_def active_branch_def step_move_def)
  have ready: "dependencies_met ?s r'" if "r' \<in> set (rn_steps ?s)" "rs_status r' \<in> {StepReady, StepActive}" for r'
  proof -
    from row [OF that(1)] obtain r where r: "r \<in> set (rn_steps s)" "r' = (if p r then f r else r)"
      "p r \<longrightarrow> step_move s r r'" by blast
    then have "dependencies_met s r" "rs_step_id r' = rs_step_id r"
      using inv that(2) by (auto simp: run_inv_def step_move_def split: if_splits)
    then show ?thesis by (rule met)
  qed
  have success: "verifiers_passed s (rs_step_id r')" if "r' \<in> set (rn_steps ?s)" "rs_status r' = StepSucceeded'" for r'
    using row [OF that(1)] inv that(2) by (auto simp: run_inv_def step_move_def split: if_splits)
  have gate: "rs_approval_gate r' = None \<or> rs_approval_state r' = Some WORKFLOW_STEP_APPROVAL_APPROVED"
    if "r' \<in> set (rn_steps ?s)" "rs_status r' = StepActive" for r'
    using row [OF that(1)] inv that(2) by (auto simp: run_inv_def step_move_def split: if_splits)
  have "all_done s \<Longrightarrow> all_done ?s"
    using row by (fastforce simp: all_done_def step_move_def split: if_splits)
  with inv keys counts ready success gate show ?thesis by (auto simp: run_inv_def passed)
qed

lemma admit_row_simps [simp]:
  "rs_step_id (admit_row now agent attempt r) = rs_step_id r"
  "rs_step_run_id (admit_row now agent attempt r) = rs_step_run_id r"
  "rs_status (admit_row now agent attempt r) = StepActive"
  "rs_approval_gate (admit_row now agent attempt r) = rs_approval_gate r"
  "rs_approval_state (admit_row now agent attempt r) = rs_approval_state r"
  "rs_workspace (admit_row now agent attempt r) = rs_workspace r"
  by (simp_all add: admit_row_def)

abbreviation admittable_as :: "workflow_run_step \<Rightarrow> workflow_run_step \<Rightarrow> bool" where
  "admittable_as c \<equiv> \<lambda>r. rs_step_run_id r = rs_step_run_id c \<and> rs_status r = StepReady \<and> rs_background_agent_run_id r = None"

lemma admit_counts:
  assumes "keys_ok s" "c \<in> set (rn_steps s)"
  shows "active_count (set_steps (admittable_as c) (admit_row now agent attempt) s) \<le> active_count s + 1"
    and "isolated_count (set_steps (admittable_as c) (admit_row now agent attempt) s) \<le>
      isolated_count s + (if workflow_workspace_mode (rs_workspace c) = IsolatedWorktree then 1 else 0)"
proof -
  have one: "length (filter (admittable_as c) (rn_steps s)) \<le> 1"
    using assms by (intro count_key_le_1 [of rs_step_run_id]) (auto simp: keys_ok_def)
  show "active_count (set_steps (admittable_as c) (admit_row now agent attempt) s) \<le> active_count s + 1"
    using count_update_add [of active_branch "admittable_as c" "admit_row now agent attempt" "rn_steps s"] one
    by (simp add: active_count_def)
  have same: "r = c" if "r \<in> set (rn_steps s)" "rs_step_run_id r = rs_step_run_id c" for r
    using key_unique [of rs_step_run_id "rn_steps s" r c] assms that by (simp add: keys_ok_def)
  have "length (filter isolated_branch (update_where (admittable_as c) (admit_row now agent attempt) (rn_steps s)))
      \<le> length (filter isolated_branch (rn_steps s))" if "workflow_workspace_mode (rs_workspace c) \<noteq> IsolatedWorktree"
    by (rule count_update_le) (use that in \<open>auto simp: isolated_branch_def dest!: same\<close>)
  then show "isolated_count (set_steps (admittable_as c) (admit_row now agent attempt) s) \<le>
      isolated_count s + (if workflow_workspace_mode (rs_workspace c) = IsolatedWorktree then 1 else 0)"
    using count_update_add [of isolated_branch "admittable_as c" "admit_row now agent attempt" "rn_steps s"] one
    by (auto simp: isolated_count_def)
qed

lemma run_inv_admit_move:
  assumes inv: "run_inv s" and c: "c \<in> set (rn_steps s)" "branch_candidate c"
    and room: "active_count s < max_parallel_steps (wr_limits (rn_run s))"
      "active_count s < max_agents (wr_limits (rn_run s))"
      "workflow_workspace_mode (rs_workspace c) = IsolatedWorktree \<Longrightarrow>
        isolated_count s < max_worktrees (wr_limits (rn_run s))"
  shows "run_inv (set_steps (admittable_as c) (admit_row now agent attempt) s)"
proof -
  let ?s = "set_steps (admittable_as c) (admit_row now agent attempt) s"
  have same: "r = c" if "r \<in> set (rn_steps s)" "rs_step_run_id r = rs_step_run_id c" for r
    using key_unique [of rs_step_run_id "rn_steps s" r c] inv c that by (simp add: run_inv_def keys_ok_def)
  have row: "r' \<in> set (rn_steps ?s) \<Longrightarrow> r' = admit_row now agent attempt c \<or> r' \<in> set (rn_steps s)" for r'
    using same by (auto simp: set_update_where split: if_splits)
  have old: "\<exists>d \<in> set (rn_steps s). rs_step_id d = rs_step_id d' \<and> (rs_status d = StepSucceeded' \<longrightarrow> rs_status d' = StepSucceeded')"
    if "d' \<in> set (rn_steps ?s)" for d'
    using row [OF that] c by (auto simp: branch_candidate_def)
  have met: "dependencies_met ?s r'" if "dependencies_met s r" "rs_step_id r' = rs_step_id r" for r r'
    by (rule dependencies_met_mono [OF that]) (use old in auto)
  have passed: "verifiers_passed ?s = verifiers_passed s" by (simp add: verifiers_passed_def fun_eq_iff)
  have keys: "keys_ok ?s" using inv by (simp add: run_inv_def keys_ok_def map_update_where)
  have "rs_status c = StepReady" using c(2) by (simp add: branch_candidate_def)
  with inv c(1) have "dependencies_met s c" "\<not> all_done s"
    by (auto simp: run_inv_def all_done_def intro!: bexI [of _ c])
  moreover have "dependencies_met ?s r'"
    if "r' \<in> set (rn_steps ?s)" "rs_status r' \<in> {StepReady, StepActive}" "dependencies_met s c" for r'
    using row [OF that(1)] that(2,3) inv met by (auto simp: run_inv_def)
  moreover have "verifiers_passed s (rs_step_id r')" if "r' \<in> set (rn_steps ?s)" "rs_status r' = StepSucceeded'" for r'
    using row [OF that(1)] that(2) inv by (auto simp: run_inv_def)
  moreover have "rs_approval_gate r' = None \<or> rs_approval_state r' = Some WORKFLOW_STEP_APPROVAL_APPROVED"
    if "r' \<in> set (rn_steps ?s)" "rs_status r' = StepActive" for r'
    using row [OF that(1)] that(2) inv c by (auto simp: run_inv_def branch_candidate_def)
  ultimately show ?thesis
    using inv keys room admit_counts [OF run_inv_keys [OF inv] c(1), of now agent attempt]
    by (auto simp: run_inv_def passed split: if_splits)
qed

lemma run_inv_machine_step: "machine_step s s' \<Longrightarrow> run_inv s \<Longrightarrow> run_inv s'"
  by (induction rule: machine_step.induct)
     (blast intro: run_inv_run_move run_inv_step_move run_inv_verifier_move run_inv_admit_move)+

lemma run_inv_moves: "moves s s' \<Longrightarrow> run_inv s \<Longrightarrow> run_inv s'"
  by (induction rule: rtranclp_induct) (auto intro: run_inv_machine_step)

section \<open>Admission\<close>

lemma preflight_moves: "calm s (fst (preflight_candidates owner now env run cs s))"
proof (induction cs arbitrary: s)
  case (Cons c cs)
  have "calm s (fst (block_provider_preflight owner now c s))"
    unfolding block_provider_preflight_def Let_def
    by (auto intro!: calm_then_event calm_steps_verifiers simp: step_move_def verifier_move_def)
  with Cons.IH show ?case by (auto simp: split_def Let_def intro: calm_trans)
qed simp

lemma preflight_unchanged: "\<not> snd (preflight_candidates owner now env run cs s) \<Longrightarrow> fst (preflight_candidates owner now env run cs s) = s"
proof (induction cs arbitrary: s)
  case (Cons c cs)
  have "\<not> snd (block_provider_preflight owner now c s) \<Longrightarrow> fst (block_provider_preflight owner now c s) = s"
    by (auto simp: block_provider_preflight_def Let_def)
  with Cons show ?case by (auto simp: split_def Let_def split: if_splits)
qed simp

lemma below_saturating_sub: "int n < i64_saturating_sub (int m) (int k) \<Longrightarrow> n + k < m"
  by (auto simp: i64_saturating_sub_def max_def min_def split: if_splits)

lemma admit_one:
  assumes inv: "run_inv s" and r: "r \<in> set (rn_steps s)" "admittable_as c r" "branch_candidate r" "rs_workspace r = rs_workspace c"
    and room: "active_count s < max_parallel_steps (wr_limits (rn_run s))" "active_count s < max_agents (wr_limits (rn_run s))"
      "workflow_workspace_mode (rs_workspace c) = IsolatedWorktree \<Longrightarrow> isolated_count s < max_worktrees (wr_limits (rn_run s))"
    and s1: "s1 = append_workflow_run_event t knd a sr vr (set_steps (admittable_as c) (admit_row now agent attempt) s)"
  shows "calm s s1" "run_inv s1" "active_count s1 \<le> active_count s + 1"
    "isolated_count s1 \<le> isolated_count s + (if workflow_workspace_mode (rs_workspace c) = IsolatedWorktree then 1 else 0)"
proof -
  have as_r: "admittable_as c = admittable_as r" using r(2) by auto
  have "machine_step s (set_steps (admittable_as r) (admit_row now agent attempt) s)"
    by (rule machine_step.admit [OF r(1,3) room(1,2)]) (use room(3) r(4) in simp)
  then show calm: "calm s s1" unfolding s1 as_r by (intro calm_then_event) (auto simp: calm_def)
  show "run_inv s1" by (rule run_inv_moves [OF calm_moves [OF calm] inv])
  show "active_count s1 \<le> active_count s + 1"
    "isolated_count s1 \<le> isolated_count s + (if workflow_workspace_mode (rs_workspace c) = IsolatedWorktree then 1 else 0)"
    using admit_counts [OF run_inv_keys [OF inv] r(1), of now agent attempt, folded as_r] r(4)
    by (simp_all add: s1 active_count_def isolated_count_def)
qed

text \<open>The loop keeps the branches it has admitted and those that were active before within the limits.\<close>

lemma admit_candidates_moves:
  assumes "admit_candidates agent_for provision create owner now capacity (int (max_worktrees (wr_limits (rn_run s)))) cs
      isolated admitted s = Inr (s', out)"
    and "run_inv s"
    and "\<And>n. int n < capacity \<Longrightarrow> n + k < max_parallel_steps (wr_limits (rn_run s)) \<and> n + k < max_agents (wr_limits (rn_run s))"
    and "active_count s \<le> length admitted + k" "int (isolated_count s) \<le> isolated"
    and "\<forall>c \<in> set cs. \<forall>r \<in> set (rn_steps s). admittable_as c r \<longrightarrow> branch_candidate r \<and> rs_workspace r = rs_workspace c"
  shows "calm s s'"
  using assms
proof (induction cs arbitrary: isolated admitted s)
  case (Cons c cs)
  define mode where "mode = workflow_workspace_mode (rs_workspace c)"
  define isolated' where "isolated' = (if mode = IsolatedWorktree then isolated + 1 else isolated)"
  define attempt where "attempt = i64_saturating_add (rs_attempt c) 1"
  define agent where "agent = agent_for (workflow_branch_idempotency_key (wr_run_id (rn_run s)) (rs_step_id c) attempt)"
  define s1 where "s1 = append_workflow_run_event ''branch_admitted'' ''orchestrator'' (Some owner) (Some (rs_step_run_id c))
    None (set_steps (admittable_as c) (admit_row now agent attempt) s)"
  note defs = mode_def [symmetric] attempt_def [symmetric] agent_def [symmetric] isolated'_def [symmetric] s1_def [symmetric]
  note run = Cons.prems(1) [unfolded admit_candidates.simps Let_def, unfolded defs]
  show ?case
  proof (cases "int (length admitted) \<ge> capacity \<or> mode = IsolatedWorktree \<and> isolated \<ge> int (max_worktrees (wr_limits (rn_run s)))")
    case True
    then consider "s' = s" | "admit_candidates agent_for provision create owner now capacity
        (int (max_worktrees (wr_limits (rn_run s)))) cs isolated admitted s = Inr (s', out)"
      using run by (cases "int (length admitted) \<ge> capacity") simp_all
    then show ?thesis
    proof cases
      case 2
      from Cons.prems(6) show ?thesis by (intro Cons.IH [OF 2 Cons.prems(2-5)]) simp_all
    qed simp
  next
    case False
    show ?thesis
    proof (cases "list_ex (admittable_as c) (rn_steps s)")
      case none: False
      with run False have "admit_candidates agent_for provision create owner now capacity
          (int (max_worktrees (wr_limits (rn_run s)))) cs isolated' admitted s = Inr (s', out)"
        by (auto simp: bind_result_Inr_iff split: if_splits)
      from Cons.prems(5,6) show ?thesis
        by (intro Cons.IH [OF \<open>admit_candidates _ _ _ _ _ _ _ cs isolated' _ _ = _\<close> Cons.prems(2-4)]) (auto simp: isolated'_def)
    next
      case True
      with run False have rest: "admit_candidates agent_for provision create owner now capacity
          (int (max_worktrees (wr_limits (rn_run s)))) cs isolated' (admitted @ [(rs_step_run_id c, agent)]) s1 = Inr (s', out)"
        by (auto simp: bind_result_Inr_iff split: if_splits)
      from True obtain r where r: "r \<in> set (rn_steps s)" "admittable_as c r" by (auto simp: list_ex_iff)
      with Cons.prems(6) have cand: "branch_candidate r" "rs_workspace r = rs_workspace c" by auto
      have room: "active_count s < max_parallel_steps (wr_limits (rn_run s))" "active_count s < max_agents (wr_limits (rn_run s))"
        using Cons.prems(3) [of "length admitted"] Cons.prems(4) False by auto
      have wt: "isolated_count s < max_worktrees (wr_limits (rn_run s))"
        if "workflow_workspace_mode (rs_workspace c) = IsolatedWorktree"
        using that False Cons.prems(5) by (auto simp: mode_def)
      note one = admit_one [OF Cons.prems(2) r cand room wt s1_def]
      have "calm s1 s'"
      proof (rule Cons.IH [OF _ one(2)])
        show "active_count s1 \<le> length (admitted @ [(rs_step_run_id c, agent)]) + k"
          using one(3) Cons.prems(4) by simp
        show "int (isolated_count s1) \<le> isolated'"
          using one(4) Cons.prems(5) by (simp add: isolated'_def mode_def split: if_splits)
        show "\<forall>c \<in> set cs. \<forall>r \<in> set (rn_steps s1). admittable_as c r \<longrightarrow> branch_candidate r \<and> rs_workspace r = rs_workspace c"
          using Cons.prems(6) by (auto simp: s1_def set_update_where split: if_splits)
      qed (use rest Cons.prems(3) in \<open>simp_all add: s1_def\<close>)
      with one(1) show ?thesis by (rule calm_trans)
    qed
  qed
qed simp

lemma moves_admit:
  assumes inv: "run_inv s"
    and run: "admit_workflow_run_branches check agent_for provision create owner inst g env live now s = Inr (s', out)"
  shows "moves s s'"
proof -
  have calm_ready: "calm s s1" if result: "admit_ready_workflow_branches agent_for provision create owner now env live (rn_run s) s
      = Inr (s1, admitted, changed)" for s1 admitted changed
  proof -
    let ?cs = "ready_branch_candidates s" and ?l = "wr_limits (rn_run s)"
    define cap where "cap = admission_capacity ?l live (int (active_count s))"
    let ?pre = "preflight_candidates owner now env (rn_run s) ?cs s"
    have cap: "n + active_count s < max_parallel_steps ?l \<and> n + active_count s < max_agents ?l" if "int n < cap" for n
      using that below_saturating_sub by (auto simp: cap_def admission_capacity_def Let_def split: option.splits prod.splits)
    have cands: "admittable_as c r \<longrightarrow> branch_candidate r \<and> rs_workspace r = rs_workspace c"
      if "c \<in> set ?cs" "r \<in> set (rn_steps s)" for c r
      using that key_unique [of rs_step_run_id "rn_steps s" r c] inv
      by (auto simp: ready_branch_candidates_def run_inv_def keys_ok_def)
    consider "s1 = s" | "s1 = fst ?pre"
      | "\<not> snd ?pre" "admit_candidates agent_for provision create owner now cap (int (max_worktrees ?l)) ?cs
           (int (isolated_count s)) [] s = Inr (s1, admitted)"
      using result preflight_unchanged [of owner now env "rn_run s" ?cs s]
      by (auto simp: admit_ready_workflow_branches_def active_workflow_branch_counts_def split_def Let_def
          bind_result_Inr_iff cap_def active_count_def isolated_count_def split: if_splits)
    then show ?thesis
    proof cases
      case 3
      show ?thesis
        by (rule admit_candidates_moves [OF 3(2) inv cap]) (use cands in auto)
    qed (simp_all add: preflight_moves)
  qed
  from run calm_ready show ?thesis
    by (auto simp: admit_workflow_run_branches_def bind_result_Inr_iff claim_checked_workflow_run_def Let_def
        intro: calm_moves moves_calm_recompute split: option.splits if_splits)
qed

section \<open>Runs\<close>

text \<open>One call of any operation, by any caller at any time.\<close>

inductive run_call :: "run_state \<Rightarrow> run_state \<Rightarrow> bool" where
  claim: "claim_workflow_run owner inst requested now s = Inr (s', out) \<Longrightarrow> run_call s s'"
| heartbeat: "heartbeat_workflow_run owner inst g requested now s = Inr (s', out) \<Longrightarrow> run_call s s'"
| advance: "advance_workflow_run owner inst g done_ids now s = Inr (s', out) \<Longrightarrow> run_call s s'"
| admission: "admit_workflow_run_branches check agent_for provision create owner inst g env live now s = Inr (s', out) \<Longrightarrow>
    run_call s s'"
| reconcile: "reconcile_workflow_run_branches owner inst g ends now s = Inr (s', out) \<Longrightarrow> run_call s s'"
| verifier_claim: "claim_workflow_run_verifier owner inst g sel now s = (s', out) \<Longrightarrow> run_call s s'"
| verifier_result: "record_workflow_run_verifier_result owner inst g vid outcome summary now s = Inr (s', out) \<Longrightarrow> run_call s s'"
| cancel: "request_workflow_run_cancel s = (s', out) \<Longrightarrow> run_call s s'"
| pause: "pause_workflow_run s = (s', out) \<Longrightarrow> run_call s s'"
| resume: "resume_workflow_run s = (s', out) \<Longrightarrow> run_call s s'"
| approval: "set_workflow_run_step_approval x d actor s = (s', out) \<Longrightarrow> run_call s s'"

lemma run_call_moves: "run_call s s' \<Longrightarrow> run_inv s \<Longrightarrow> moves s s'"
proof (induction rule: run_call.induct)
  case (verifier_claim owner inst g sel now s s' out)
  then show ?case using moves_claim_verifier [OF run_inv_keys, of s owner inst g sel now] by simp
next
  case (approval x d actor s s' out)
  then show ?case using moves_approval [OF run_inv_keys, of s x d actor] by simp
next
  case (cancel s s' out) then show ?case using moves_requests(1) [of s] by simp
next
  case (pause s s' out) then show ?case using moves_requests(2) [of s] by simp
next
  case (resume s s' out) then show ?case using moves_requests(3) [of s] by simp
qed (blast intro: moves_claim moves_heartbeat moves_advance moves_admit moves_reconcile moves_record)+

lemma run_inv_calls: "run_call\<^sup>*\<^sup>* s s' \<Longrightarrow> run_inv s \<Longrightarrow> run_inv s'"
  by (induction rule: rtranclp_induct) (auto intro: run_inv_moves run_call_moves)

end
