(* ===== verification/Workflow_Run_Properties.thy ===== *)
theory Workflow_Run_Properties
  imports Workflow_Invariant Workflow_Properties
begin

text \<open>
  The properties of workflow runs, over every sequence of calls that starts from the creation of a run for an accepted
  specification. \<open>uuid\<close> stands for the fresh identifiers of the rows, which are distinct.
\<close>

section \<open>What the moves leave alone\<close>

definition frame :: "run_state \<Rightarrow> (str \<times> str) list \<times> str list \<times> str option list \<times> str list \<times> WorkflowLimits" where
  "frame s = (rn_deps s, map rs_step_id (rn_steps s), map rs_approval_gate (rn_steps s), map rv_step_id (rn_verifiers s),
     wr_limits (rn_run s))"

lemma machine_step_frame:
  "machine_step s s' \<Longrightarrow> frame s' = frame s \<and> wr_generation (rn_run s) \<le> wr_generation (rn_run s')"
  by (induction rule: machine_step.induct)
     (auto simp: frame_def step_move_def verifier_move_def intro!: map_update_where)

lemma moves_frame:
  "moves s s' \<Longrightarrow> frame s' = frame s \<and> wr_generation (rn_run s) \<le> wr_generation (rn_run s')"
  by (induction rule: rtranclp_induct) (auto dest: machine_step_frame)

lemma calls_frame:
  "run_call\<^sup>*\<^sup>* s s' \<Longrightarrow> run_inv s \<Longrightarrow> frame s' = frame s \<and> wr_generation (rn_run s) \<le> wr_generation (rn_run s')"
proof (induction rule: rtranclp_induct)
  case (step s1 s2)
  then show ?case using moves_frame [OF run_call_moves [OF step(2) run_inv_calls [OF step(1)]]] by auto
qed simp

section \<open>Creation\<close>

lemma map_enumerate_snd: "map (\<lambda>(i, x). f x) (enumerate n xs) = map f xs"
  by (induction xs arbitrary: n) auto

lemma map_enumerate_fst: "map (\<lambda>x. f (fst x)) (enumerate n xs) = map f [n..<n + length xs]"
  by (simp only: map_fst_enumerate [symmetric] map_map comp_def)

lemma created_rows:
  "rn_deps (create_workflow_run uuid spec) = map (\<lambda>(d, x). (x, d)) (dependency_entries (steps spec))"
  "map rs_step_id (rn_steps (create_workflow_run uuid spec)) = map st_id (steps spec)"
  "map rs_step_run_id (rn_steps (create_workflow_run uuid spec)) = map (\<lambda>i. uuid [i]) [0..<length (steps spec)]"
  "r \<in> set (rn_steps (create_workflow_run uuid spec)) \<Longrightarrow> rs_status r = StepPending"
  "wr_limits (rn_run (create_workflow_run uuid spec)) = limits spec"
  "wr_status (rn_run (create_workflow_run uuid spec)) = RunPending"
  "map rs_approval_gate (rn_steps (create_workflow_run uuid spec)) = map st_approval_gate (steps spec)"
  by (auto simp: create_workflow_run_def dependency_entries_def map_concat comp_def insert_workflow_run_def
      insert_step_def split_def map_enumerate_snd [unfolded split_def] map_enumerate_fst [of "\<lambda>i. uuid [i]" 0, simplified]
      in_set_enumerate_eq)

lemma created_verifier_ids:
  "map rv_verifier_run_id (rn_verifiers (create_workflow_run uuid spec)) =
     concat (map (\<lambda>(i, x). map (\<lambda>j. uuid [i, j])
       [0..<(case st_completion x of None \<Rightarrow> 0 | Some c \<Rightarrow> length (verifiers c))]) (enumerate 0 (steps spec)))"
proof -
  have "map rv_verifier_run_id (insert_step_verifiers uuid i x) =
      map (\<lambda>j. uuid [i, j]) [0..<(case st_completion x of None \<Rightarrow> 0 | Some c \<Rightarrow> length (verifiers c))]" for i x
    by (auto simp: insert_step_verifiers_def insert_verifier_def split_def comp_def
        map_enumerate_fst [of "\<lambda>j. uuid [i, j]" 0, simplified] split: option.split)
  then show ?thesis
    by (simp add: create_workflow_run_def map_concat comp_def split_def)
qed

lemma distinct_verifier_ids:
  assumes "inj uuid"
  shows "distinct (concat (map (\<lambda>(i, x). map (\<lambda>j. uuid [i, j]) [0..<k x]) (enumerate n xs)))"
proof (induction xs arbitrary: n)
  case (Cons x xs)
  have "distinct (map (\<lambda>j. uuid [n, j]) [0..<k x])"
    by (simp add: distinct_map inj_on_def inj_eq [OF assms])
  moreover have "set (concat (map (\<lambda>(i, x). map (\<lambda>j. uuid [i, j]) [0..<k x]) (enumerate (Suc n) xs))) \<subseteq> {uuid [i, j] | i j. n < i}"
    by (auto simp: in_set_enumerate_eq)
  moreover have "set (map (\<lambda>j. uuid [n, j]) [0..<k x]) \<inter> {uuid [i, j] | i j. n < i} = {}"
    by (auto simp: inj_eq [OF assms])
  ultimately have "distinct (map (\<lambda>j. uuid [n, j]) [0..<k x])" "set (map (\<lambda>j. uuid [n, j]) [0..<k x])
      \<inter> set (concat (map (\<lambda>(i, x). map (\<lambda>j. uuid [i, j]) [0..<k x]) (enumerate (Suc n) xs))) = {}"
    by (simp, blast)
  with Cons [of "Suc n"] show ?case by simp
qed simp

lemma run_inv_created:
  assumes "inj uuid" "workflow_ok spec"
  shows "run_inv (create_workflow_run uuid spec)"
proof -
  let ?s = "create_workflow_run uuid spec"
  have pending: "r \<in> set (rn_steps ?s) \<Longrightarrow> rs_status r = StepPending" for r by (rule created_rows(4))
  have "distinct (map (\<lambda>i. uuid [i]) [0..<n])" for n
    by (simp add: distinct_map inj_on_def inj_eq [OF assms(1)])
  then have "keys_ok ?s"
    using assms(2) unfolding keys_ok_def created_rows(2,3) created_verifier_ids
    by (simp only: workflow_ok_def distinct_verifier_ids [OF assms(1)] simp_thms)
  moreover have "active_count ?s = 0" "isolated_count ?s = 0"
    using pending by (auto simp: active_count_def isolated_count_def isolated_branch_def active_branch_def filter_empty_conv)
  ultimately show ?thesis
    using pending by (auto simp: run_inv_def created_rows(6))
qed

text \<open>The states of a run of an accepted specification.\<close>

definition run_reaches :: "(nat list \<Rightarrow> str) \<Rightarrow> 'n WorkflowSpec \<Rightarrow> run_state \<Rightarrow> bool" where
  "run_reaches uuid spec s \<longleftrightarrow>
     inj uuid \<and> validate spec = Some (Inr ()) \<and> run_call\<^sup>*\<^sup>* (create_workflow_run uuid spec) s"

lemma run_reaches_inv: "run_reaches uuid spec s \<Longrightarrow> run_inv s"
  by (auto simp: run_reaches_def validate_ok_iff intro: run_inv_calls run_inv_created)

lemma run_reaches_frame: "run_reaches uuid spec s \<Longrightarrow> frame s = frame (create_workflow_run uuid spec)"
  by (auto simp: run_reaches_def validate_ok_iff run_inv_created dest: calls_frame)

section \<open>Sample runs\<close>

definition sample_uuid :: "nat list \<Rightarrow> str" where
  "sample_uuid is = is"

definition sample_owner :: str where
  "sample_owner = lit ''o''"

definition sample_created :: run_state where
  "sample_created = create_workflow_run sample_uuid sample_workflow"

definition sample_claimed :: run_state where
  "sample_claimed = (case claim_workflow_run sample_owner sample_owner None 0 sample_created of Inr (s, _) \<Rightarrow> s | Inl _ \<Rightarrow> sample_created)"

definition state_of :: "str + run_state \<times> 'a \<Rightarrow> run_state" where
  "state_of m = (case m of Inr (s, _) \<Rightarrow> s | Inl _ \<Rightarrow> sample_created)"

definition sample_summary :: WorkflowRunVerifierResultSummary where
  "sample_summary = \<lparr>vs_command_count = 0, vs_expected_exit_code = None, vs_observed_exit_code = None, vs_timed_out = False,
     vs_duration_ms = 0, vs_output_bytes = 0, vs_output_truncated = False\<rparr>"

definition sample_advance :: "str list \<Rightarrow> run_state \<Rightarrow> run_state" where
  "sample_advance done_ids s = state_of (advance_workflow_run sample_owner sample_owner 1 done_ids 0 s)"

definition sample_verify :: "str \<Rightarrow> run_state \<Rightarrow> run_state" where
  "sample_verify vid s =
     state_of (record_workflow_run_verifier_result sample_owner sample_owner 1 vid OutcomePassed sample_summary 0
       (fst (claim_workflow_run_verifier sample_owner sample_owner 1 (VerifierRunId vid) 0 s)))"

definition sample_waiting :: run_state where
  "sample_waiting = sample_advance [lit ''a''] sample_claimed"

definition sample_ready :: run_state where
  "sample_ready = sample_advance [] (sample_verify [1, 0] sample_waiting)"

definition sample_completed :: run_state where
  "sample_completed = sample_verify [0, 0] (sample_advance [lit ''b''] sample_ready)"

lemma sample_inj: "inj sample_uuid"
  by (simp add: sample_uuid_def inj_on_def)

lemma sample_claim:
  "claim_workflow_run sample_owner sample_owner None 0 sample_created = Inr (sample_claimed, Some (1, 60000))"
  by code_simp

lemma sample_created_reaches: "run_reaches sample_uuid sample_workflow sample_created"
  by (simp add: run_reaches_def sample_inj sample_workflow_accepted sample_created_def)

lemma state_of_reaches:
  assumes "run_reaches sample_uuid sample_workflow s" "\<And>s' out. m = Inr (s', out) \<Longrightarrow> run_call s s'"
  shows "run_reaches sample_uuid sample_workflow (state_of m)"
  using assms sample_created_reaches
  by (auto simp: state_of_def run_reaches_def intro: rtranclp.rtrancl_into_rtrancl split: sum.split)

lemma sample_advance_call:
  "run_reaches sample_uuid sample_workflow s \<Longrightarrow> run_reaches sample_uuid sample_workflow (sample_advance done_ids s)"
  unfolding sample_advance_def by (erule state_of_reaches) (rule run_call.advance)

lemma sample_verify_call:
  assumes "run_reaches sample_uuid sample_workflow s"
  shows "run_reaches sample_uuid sample_workflow (sample_verify vid s)"
proof -
  have "run_call s (fst (claim_workflow_run_verifier sample_owner sample_owner 1 (VerifierRunId vid) 0 s))"
    by (metis prod.collapse run_call.verifier_claim)
  with assms have "run_reaches sample_uuid sample_workflow
      (fst (claim_workflow_run_verifier sample_owner sample_owner 1 (VerifierRunId vid) 0 s))"
    by (auto simp: run_reaches_def)
  then show ?thesis
    unfolding sample_verify_def by (rule state_of_reaches) (blast intro: run_call.verifier_result)
qed

lemma sample_reaches:
  "run_reaches sample_uuid sample_workflow sample_created"
  "run_reaches sample_uuid sample_workflow sample_claimed"
  "run_reaches sample_uuid sample_workflow sample_ready"
  "run_reaches sample_uuid sample_workflow sample_completed"
proof -
  show created: "run_reaches sample_uuid sample_workflow sample_created" by (rule sample_created_reaches)
  then show claimed: "run_reaches sample_uuid sample_workflow sample_claimed"
    using run_call.claim [OF sample_claim] by (auto simp: run_reaches_def)
  then show ready: "run_reaches sample_uuid sample_workflow sample_ready"
    unfolding sample_ready_def sample_waiting_def by (intro sample_advance_call sample_verify_call)
  then show "run_reaches sample_uuid sample_workflow sample_completed"
    unfolding sample_completed_def by (intro sample_advance_call sample_verify_call)
qed

section \<open>Properties\<close>




text \<open>C19: When a run of an accepted specification is completed, every step of the specification was either
  skipped or has succeeded, and a step that has succeeded has at least one verifier, all of which have passed.\<close>

theorem completed_run_is_verified:
  assumes "run_reaches uuid spec s" and "wr_status (rn_run s) = RunCompleted" and "step \<in> set (steps spec)"
  shows "\<exists>r \<in> set (rn_steps s). rs_step_id r = st_id step
    \<and> (rs_status r = StepSkipped
       \<or> rs_status r = StepSucceeded' \<and> (\<exists>v \<in> set (rn_verifiers s). rv_step_id v = st_id step)
         \<and> (\<forall>v \<in> set (rn_verifiers s). rv_step_id v = st_id step \<longrightarrow> rv_status v = VerifierPassed))"
proof -
  note inv = run_reaches_inv [OF assms(1)] and frame = run_reaches_frame [OF assms(1)]
  have "st_id step \<in> set (map rs_step_id (rn_steps s))"
    using frame assms(3) by (simp add: frame_def created_rows(2))
  then obtain r where r: "r \<in> set (rn_steps s)" "rs_step_id r = st_id step" by auto
  obtain c where c: "st_completion step = Some c" "verifiers c \<noteq> []"
    using assms(1,3) by (auto simp: run_reaches_def validate_ok_iff workflow_ok_def step_ok_def)
  obtain i where i: "i < length (steps spec)" "steps spec ! i = step"
    using assms(3) by (auto simp: in_set_conv_nth)
  have "insert_verifier uuid i (st_id step) 0 (hd (verifiers c)) \<in> set (rn_verifiers (create_workflow_run uuid spec))"
    using i c by (force simp: create_workflow_run_def in_set_enumerate_eq insert_step_verifiers_def hd_conv_nth)
  then have "st_id step \<in> set (map rv_step_id (rn_verifiers (create_workflow_run uuid spec)))"
    by (force simp: insert_verifier_def)
  then have v: "\<exists>v \<in> set (rn_verifiers s). rv_step_id v = st_id step"
    using frame unfolding frame_def by (auto simp: image_iff) (metis image_iff list.set_map)
  have "rs_status r \<in> {StepSucceeded', StepSkipped}" using inv assms(2) r by (auto simp: run_inv_def all_done_def)
  moreover have "rs_status r = StepSucceeded' \<Longrightarrow> verifiers_passed s (st_id step)"
    using inv r by (auto simp: run_inv_def)
  ultimately show ?thesis using r v by (auto simp: verifiers_passed_def list_ex_iff)
qed

theorem completed_run_is_verified_witness:
  "\<exists>r \<in> set (rn_steps sample_completed). rs_step_id r = lit ''b'' \<and> rs_status r \<in> {StepSkipped, StepSucceeded'}"
proof -
  have "wr_status (rn_run sample_completed) = RunCompleted" by code_simp
  from completed_run_is_verified [OF sample_reaches(4) this, of "sample_step ''b'' [''a'']"] show ?thesis
    by (auto simp: sample_workflow_def sample_step_def)
qed

text \<open>C20: In every state a run of an accepted specification can reach, the branches that run at once stay
  within the specification's limits on parallel steps and on agents, and those in worktrees of their own within its
  limit on worktrees.\<close>

theorem running_branches_stay_within_limits:
  assumes "run_reaches uuid spec s"
  shows "length (filter active_branch (rn_steps s)) \<le> max_parallel_steps (limits spec)
    \<and> length (filter active_branch (rn_steps s)) \<le> max_agents (limits spec)
    \<and> length (filter isolated_branch (rn_steps s)) \<le> max_worktrees (limits spec)"
  using run_reaches_inv [OF assms] run_reaches_frame [OF assms]
  by (simp add: run_inv_def active_count_def isolated_count_def frame_def created_rows(5))

theorem running_branches_stay_within_limits_witness:
  "length (filter active_branch (rn_steps sample_ready)) \<le> 1"
  using running_branches_stay_within_limits [OF sample_reaches(3)] by (simp add: sample_workflow_def)






section \<open>Progress\<close>

definition pending_count :: "run_state \<Rightarrow> nat" where
  "pending_count s = length (filter (\<lambda>r. rs_status r = StepPending) (rn_steps s))"

lemma count_update_less:
  "(\<And>r. r \<in> set rows \<Longrightarrow> p r \<Longrightarrow> Q (f r) \<Longrightarrow> Q r) \<Longrightarrow> \<exists>r \<in> set rows. p r \<and> Q r \<and> \<not> Q (f r) \<Longrightarrow>
   length (filter Q (update_where p f rows)) < length (filter Q rows)"
proof (induction rows)
  case (Cons r rows)
  have "length (filter Q (update_where p f rows)) \<le> length (filter Q rows)"
    by (rule count_update_le) (use Cons.prems in auto)
  with Cons show ?case by (auto simp: update_where_def)
qed simp

lemma pending_count_moves: "moves s s' \<Longrightarrow> pending_count s' \<le> pending_count s"
proof (induction rule: rtranclp_induct)
  case (step s1 s2)
  from step(2) have "pending_count s2 \<le> pending_count s1"
    by (induction rule: machine_step.induct) (auto simp: pending_count_def step_move_def intro!: count_update_le)
  with step.IH show ?case by simp
qed simp

lemma all_done_moves: "moves s s' \<Longrightarrow> all_done s \<Longrightarrow> all_done s'"
proof (induction rule: rtranclp_induct)
  case (step s1 s2)
  then have "all_done s1" by simp
  with step(2) show ?case
    by (induction rule: machine_step.induct)
       (fastforce simp: all_done_def set_update_where step_move_def branch_candidate_def split: if_splits)+
qed simp

lemma steps_recompute: "rn_steps (fst (recompute_workflow_run_status owner now s)) = rn_steps s"
  by (simp add: recompute_workflow_run_status_def Let_def split_def)

lemma recompute_completes:
  "all_done s \<Longrightarrow> rn_steps s \<noteq> [] \<Longrightarrow> wr_status (rn_run (fst (recompute_workflow_run_status owner now s))) = RunCompleted"
  by (auto simp: recompute_workflow_run_status_def derive_run_status_from_step_statuses_def all_done_def list_all_iff
      Let_def split_def)

lemma steps_mark_ready:
  "rn_steps (fst (mark_ready_steps owner s)) = update_where (\<lambda>r. rs_status r = StepPending \<and> dependencies_met s r)
     (\<lambda>r. r\<lparr>rs_status := StepReady\<rparr>) (rn_steps s)"
proof -
  have "rn_steps (append_each (\<lambda>r. append_workflow_run_event t k a (sr r) vr) rows s0) = rn_steps s0"
    for rows :: "workflow_run_step list" and t k a sr vr s0
    unfolding append_each_def by (induction rows arbitrary: s0) auto
  then show ?thesis by (simp add: mark_ready_steps_def Let_def)
qed

lemma some_step_can_start:
  assumes "run_reaches uuid spec s"
    and "\<forall>r \<in> set (rn_steps s). rs_status r \<in> {StepPending, StepSucceeded'}"
    and "\<exists>r \<in> set (rn_steps s). rs_status r \<noteq> StepSucceeded'"
  shows "\<exists>r \<in> set (rn_steps s). rs_status r = StepPending \<and> dependencies_met s r"
proof -
  note inv = run_reaches_inv [OF assms(1)] and frame = run_reaches_frame [OF assms(1)]
  define fin where "fin = rs_step_id ` {r \<in> set (rn_steps s). rs_status r = StepSucceeded'}"
  have deps: "rn_deps s = map (\<lambda>(d, x). (x, d)) (dependency_entries (steps spec))"
    and names: "map rs_step_id (rn_steps s) = map st_id (steps spec)"
    using frame by (simp_all add: frame_def created_rows)
  have ids: "rs_step_id ` set (rn_steps s) = st_id ` set (steps spec)" using names by (metis list.set_map)
  have same: "r = r'" if "r \<in> set (rn_steps s)" "r' \<in> set (rn_steps s)" "rs_step_id r = rs_step_id r'" for r r'
    using key_unique [of rs_step_id "rn_steps s"] inv that by (simp add: run_inv_def keys_ok_def)
  have graph: "closed_graph (steps spec)" "acyclic (waits_for (steps spec))"
    using assms(1) by (auto simp: run_reaches_def validate_ok_iff workflow_ok_def closed_graph_def step_ok_def)
  from assms(3) obtain r0 where r0: "r0 \<in> set (rn_steps s)" "rs_status r0 \<noteq> StepSucceeded'" by blast
  then have "rs_step_id r0 \<notin> fin" using same by (fastforce simp: fin_def)
  then have "\<not> st_id ` set (steps spec) \<subseteq> fin" unfolding ids [symmetric] using r0(1) by blast
  from acyclic_startable [OF graph this] obtain x where x: "x \<in> startable (steps spec) fin" "x \<notin> fin" by blast
  then have "x \<in> rs_step_id ` set (rn_steps s)" by (simp add: ids startable_def)
  then obtain r where r: "r \<in> set (rn_steps s)" "rs_step_id r = x" by auto
  have "rs_status r = StepPending" using r x(2) assms(2) by (auto simp: fin_def)
  moreover have "rs_status r' = StepSucceeded'" if "(x, d) \<in> set (rn_deps s)" "r' \<in> set (rn_steps s)" "rs_step_id r' = d" for d r'
  proof -
    have "d \<in> fin" using x(1) that(1) by (auto simp: deps set_dependency_entries startable_def set_deps_of)
    with that(2,3) same show ?thesis by (fastforce simp: fin_def)
  qed
  then have "dependencies_met s r" using r(2) by (auto simp: dependencies_met_def list_ex_iff)
  ultimately show ?thesis using r(1) by blast
qed

text \<open>C22: A run of an accepted specification never gets stuck on its dependencies: when its owner advances it
  while every step is pending or has succeeded, either all steps have succeeded and the run is completed, or
  some pending step leaves the pending state.\<close>

theorem advance_makes_progress:
  assumes "run_reaches uuid spec s" and "steps spec \<noteq> []" and "trim owner \<noteq> []"
    and "claim_checked_workflow_run owner inst g now s = Some run"
    and "\<not> is_terminal (wr_status run)" and "wr_status run \<noteq> RunCancelRequested"
    and "\<forall>r \<in> set (rn_steps s). rs_status r \<in> {StepPending, StepSucceeded'}"
  shows "\<exists>s' changed. advance_workflow_run owner inst g completed now s = Inr (s', Some changed)
    \<and> (if \<forall>r \<in> set (rn_steps s). rs_status r = StepSucceeded' then wr_status (rn_run s') = RunCompleted
       else pending_count s' < pending_count s)"
proof -
  let ?s1 = "fst (mark_ready_steps owner s)"
  let ?s3 = "fst (promote_verified_steps owner now (fst (observe_goal_plan_completion owner completed ?s1)))"
  let ?s4 = "fst (advance_steps owner completed now s)"
  have run: "advance_workflow_run owner inst g completed now s = Inr (?s4, Some (snd (advance_steps owner completed now s)))"
    using assms(3-6) by (simp add: advance_workflow_run_def validate_owner_id_def split_def Let_def)
  have s4: "?s4 = fst (recompute_workflow_run_status owner now ?s3)" by (rule fst_advance_steps)
  have "map rs_step_id (rn_steps ?s3) = map st_id (steps spec)"
    using moves_frame [OF calm_moves [OF calm_before_recompute [of s owner now completed]]] run_reaches_frame [OF assms(1)]
    by (simp add: frame_def created_rows(2))
  then have nonempty: "rn_steps ?s3 \<noteq> []" using assms(2) by auto
  have "wr_status (rn_run ?s4) = RunCompleted" if "\<forall>r \<in> set (rn_steps s). rs_status r = StepSucceeded'"
    unfolding s4
    by (rule recompute_completes [OF all_done_moves [OF calm_moves [OF calm_before_recompute]] nonempty])
       (use that in \<open>simp add: all_done_def\<close>)
  moreover have "pending_count ?s4 < pending_count s" if todo: "\<not> (\<forall>r \<in> set (rn_steps s). rs_status r = StepSucceeded')"
  proof -
    have "moves ?s1 ?s3"
      by (intro calm_moves calm_trans [OF calm_observe_all calm_promote])
    then have "pending_count ?s4 \<le> pending_count ?s1"
      using pending_count_moves [of ?s1 ?s3] unfolding s4 by (simp add: pending_count_def steps_recompute)
    also have "pending_count ?s1 < pending_count s"
      unfolding pending_count_def steps_mark_ready using some_step_can_start [OF assms(1,7)] todo
      by (auto intro!: count_update_less)
    finally show ?thesis .
  qed
  ultimately show ?thesis using run by auto
qed

theorem advance_makes_progress_witness:
  "\<exists>s' changed. advance_workflow_run sample_owner sample_owner 1 [] 0 sample_claimed = Inr (s', Some changed)
     \<and> pending_count s' < pending_count sample_claimed"
proof -
  have "claim_checked_workflow_run sample_owner sample_owner 1 0 sample_claimed = Some (rn_run sample_claimed)
      \<and> wr_status (rn_run sample_claimed) = RunRunning \<and> trim sample_owner \<noteq> []
      \<and> list_all (\<lambda>r. rs_status r = StepPending) (rn_steps sample_claimed) \<and> rn_steps sample_claimed \<noteq> []"
    by code_simp
  then show ?thesis
    using advance_makes_progress [OF sample_reaches(2), of sample_owner sample_owner 1 0 "rn_run sample_claimed" "[]"]
    by (auto simp: sample_workflow_def is_terminal_def list_all_iff neq_Nil_conv)
qed

end
