(* ===== verification/Stream_Search.thy ===== *)
theory Stream_Search
  imports Prelude "HOL-Library.Product_Lexorder"
begin

text \<open>
  Searching for delimiters in a text that arrives in pieces: \<^verbatim>\<open>str::find\<close>,
  \<^verbatim>\<open>longest_suffix_prefix_len\<close> of \<^verbatim>\<open>codex-rs/utils/stream-parser/src/inline_hidden_tag.rs\<close>, and the reason why
  the part of a text before its longest open suffix can be released: no delimiter can start there, whatever
  follows. Positions and lengths count characters where the source counts bytes; both orders agree on prefixes
  and suffixes of one text.
\<close>

section \<open>Searching\<close>

fun find_str :: "'a list \<Rightarrow> 'a list \<Rightarrow> nat option" where
  "find_str needle s =
     (if starts_with needle s then Some 0
      else (case s of [] \<Rightarrow> None | _ # t \<Rightarrow> map_option Suc (find_str needle t)))"

declare find_str.simps [simp del]

definition longest_suffix_prefix_len :: "'a list \<Rightarrow> 'a list \<Rightarrow> nat" where
  "longest_suffix_prefix_len s needle =
     (case List.find (\<lambda>k. ends_with (take k needle) s) (rev [1..<Suc (min (length s) (length needle - 1))]) of
        Some k \<Rightarrow> k
      | None \<Rightarrow> 0)"

text \<open>\<^verbatim>\<open>Iterator::min_by\<close>: the first of the elements with the least key.\<close>

fun min_by_key :: "('a \<Rightarrow> 'k :: linorder) \<Rightarrow> 'a list \<Rightarrow> 'a option" where
  "min_by_key key [] = None"
| "min_by_key key (x # xs) =
     (case min_by_key key xs of
        None \<Rightarrow> Some x
      | Some y \<Rightarrow> if key x \<le> key y then Some x else Some y)"

lemma min_by_key_None_iff: "min_by_key key xs = None \<longleftrightarrow> xs = []"
  by (cases xs) (auto split: option.splits)

lemma min_by_key_Some:
  "min_by_key key xs = Some y \<Longrightarrow> y \<in> set xs \<and> (\<forall>x \<in> set xs. key y \<le> key x)"
proof (induction xs arbitrary: y)
  case (Cons x xs)
  then show ?case
    by (cases "min_by_key key xs") (fastforce simp: min_by_key_None_iff split: if_splits)+
qed simp

lemma min_by_key_Some_iff:
  assumes "inj_on key (set xs)"
  shows "min_by_key key xs = Some y \<longleftrightarrow> y \<in> set xs \<and> (\<forall>x \<in> set xs. key y \<le> key x)"
proof
  assume y: "y \<in> set xs \<and> (\<forall>x \<in> set xs. key y \<le> key x)"
  then obtain z where z: "min_by_key key xs = Some z"
    by (cases "min_by_key key xs") (auto simp: min_by_key_None_iff)
  from min_by_key_Some [OF z] y have "key z = key y" "z \<in> set xs" by (auto intro: antisym)
  with assms y z show "min_by_key key xs = Some y" by (auto dest: inj_onD)
qed (rule min_by_key_Some)

lemma min_by_key_map:
  assumes "\<And>x y. x \<in> set xs \<Longrightarrow> y \<in> set xs \<Longrightarrow> key (f x) \<le> key (f y) \<longleftrightarrow> key x \<le> key y"
  shows "min_by_key key (map f xs) = map_option f (min_by_key key xs)"
  using assms
proof (induction xs)
  case (Cons x xs)
  then have "min_by_key key (map f xs) = map_option f (min_by_key key xs)" by simp
  then show ?case
    using Cons.prems by (cases "min_by_key key xs") (auto dest!: min_by_key_Some)
qed simp

section \<open>Occurrences\<close>

lemma find_str_Some_iff:
  "find_str d s = Some i \<longleftrightarrow> prefix d (drop i s) \<and> i \<le> length s \<and> (\<forall>j < i. \<not> prefix d (drop j s))"
proof (induction s arbitrary: i)
  case Nil
  show ?case by (auto simp: find_str.simps [of d "[]"] text_simps)
next
  case (Cons c s)
  show ?case
  proof (cases "prefix d (c # s)")
    case True
    then show ?thesis by (force simp: find_str.simps [of d "c # s"] text_simps)
  next
    case False
    then show ?thesis
      by (cases i) (auto simp: find_str.simps [of d "c # s"] text_simps Cons.IH All_less_Suc2)
  qed
qed

lemma find_str_None_iff: "find_str d s = None \<longleftrightarrow> (\<forall>j \<le> length s. \<not> prefix d (drop j s))"
proof
  show "\<forall>j \<le> length s. \<not> prefix d (drop j s)" if none: "find_str d s = None"
  proof (rule ccontr)
    assume "\<not> (\<forall>j \<le> length s. \<not> prefix d (drop j s))"
    then obtain j where "j \<le> length s \<and> prefix d (drop j s)" by blast
    then obtain i where "i \<le> length s \<and> prefix d (drop i s)" "\<forall>j < i. \<not> (j \<le> length s \<and> prefix d (drop j s))"
      using exists_least_iff [of "\<lambda>j. j \<le> length s \<and> prefix d (drop j s)"] by blast
    then have "find_str d s = Some i" by (auto simp: find_str_Some_iff)
    with none show False by simp
  qed
  show "find_str d s = None" if "\<forall>j \<le> length s. \<not> prefix d (drop j s)"
    using that by (cases "find_str d s") (auto simp: find_str_Some_iff)
qed

lemma prefix_drop_bound: "prefix d (drop j s) \<Longrightarrow> d \<noteq> [] \<Longrightarrow> j + length d \<le> length s"
  using prefix_length_le [of d "drop j s"] by (cases "j \<le> length s") auto

lemma find_str_shift:
  assumes "\<And>j. j < v \<Longrightarrow> \<not> prefix d (drop j s)" and "v \<le> length s"
  shows "find_str d s = map_option ((+) v) (find_str d (drop v s))"
  using assms
proof (induction v arbitrary: s)
  case (Suc v)
  then obtain c t where s: "s = c # t" by (cases s) auto
  have "\<not> prefix d (drop j t)" if "j < v" for j using Suc.prems(1) [of "Suc j"] that s by simp
  with Suc s have "find_str d t = map_option ((+) v) (find_str d (drop v t))" by simp
  moreover have "\<not> prefix d s" using Suc.prems(1) [of 0] by simp
  ultimately show ?case
    unfolding s by (simp add: find_str.simps [of d "c # t"] text_simps option.map_comp comp_def)
qed (simp add: option.map_ident plus_nat.add_0 [abs_def])

section \<open>Open suffixes\<close>

text \<open>The lengths at which the text may have begun a delimiter that it does not complete.\<close>

definition open_suffix :: "'a list \<Rightarrow> 'a list \<Rightarrow> nat \<Rightarrow> bool" where
  "open_suffix s d k \<longleftrightarrow> k \<le> length s \<and> k < length d \<and> suffix (take k d) s"

lemma find_rev_greatest:
  "(case List.find P (rev [1..<Suc n]) of Some k \<Rightarrow> k | None \<Rightarrow> 0) = (GREATEST k. k = 0 \<or> k \<le> n \<and> P k)"
proof (induction n)
  case 0
  have "(GREATEST k. k = 0 \<or> k \<le> 0 \<and> P k) = 0" by (rule Greatest_equality) auto
  then show ?case by simp
next
  case (Suc n)
  show ?case
  proof (cases "P (Suc n)")
    case True
    then have "(GREATEST k. k = 0 \<or> k \<le> Suc n \<and> P k) = Suc n" by (auto intro!: Greatest_equality)
    with True show ?thesis by simp
  next
    case False
    then have "k = 0 \<or> k \<le> Suc n \<and> P k \<longleftrightarrow> k = 0 \<or> k \<le> n \<and> P k" for k
      by (auto simp: le_Suc_eq)
    with False Suc.IH show ?thesis by simp
  qed
qed

lemma longest_suffix_prefix_len_Greatest:
  "longest_suffix_prefix_len s d = (GREATEST k. k = 0 \<or> open_suffix s d k)"
proof -
  have "k = 0 \<or> k \<le> min (length s) (length d - 1) \<and> suffix (take k d) s \<longleftrightarrow> k = 0 \<or> open_suffix s d k" for k
    by (auto simp: open_suffix_def)
  then show ?thesis
    unfolding longest_suffix_prefix_len_def find_rev_greatest ends_with_iff by simp
qed

lemma longest_suffix_prefix_len_le:
  "open_suffix s d k \<Longrightarrow> k \<le> longest_suffix_prefix_len s d"
  "longest_suffix_prefix_len s d \<le> length s"
proof -
  define P where "P k \<longleftrightarrow> k = 0 \<or> open_suffix s d k" for k
  have bound: "\<And>y. P y \<Longrightarrow> y \<le> length s" by (auto simp: P_def open_suffix_def)
  have len: "longest_suffix_prefix_len s d = Greatest P"
    by (simp add: longest_suffix_prefix_len_Greatest P_def [abs_def])
  show "k \<le> longest_suffix_prefix_len s d" if "open_suffix s d k"
    unfolding len using that by (intro Greatest_le_nat [OF _ bound]) (simp add: P_def)
  have "P (Greatest P)" by (rule GreatestI_nat [where k = 0, OF _ bound]) (simp add: P_def)
  with bound show "longest_suffix_prefix_len s d \<le> length s"
    unfolding len by blast
qed

lemma suffix_iff_drop: "suffix xs ys \<longleftrightarrow> length xs \<le> length ys \<and> drop (length ys - length xs) ys = xs"
  by (metis append_eq_conv_conj diff_add_inverse2 length_append suffix_def suffix_drop suffix_length_le)

lemma open_suffix_drop:
  "open_suffix s d k \<longleftrightarrow> k \<le> length s \<and> k < length d \<and> drop (length s - k) s = take k d"
  by (auto simp: open_suffix_def suffix_iff_drop min_def)

text \<open>The longest open suffix over several delimiters.\<close>

definition held_len :: "'a list list \<Rightarrow> 'a list \<Rightarrow> nat" where
  "held_len ds s = fold max (map (longest_suffix_prefix_len s) ds) 0"

lemma fold_max_le: "(fold max xs (a :: nat) \<le> b) \<longleftrightarrow> a \<le> b \<and> (\<forall>x \<in> set xs. x \<le> b)"
  by (induction xs arbitrary: a) auto

lemma fold_max_ge: "x = a \<or> x \<in> set xs \<Longrightarrow> x \<le> fold max xs (a :: nat)"
  by (metis fold_max_le order_refl)

lemma held_len_le: "held_len ds s \<le> length s"
  by (simp add: held_len_def fold_max_le longest_suffix_prefix_len_le(2))

lemma held_len_open: "d \<in> set ds \<Longrightarrow> open_suffix s d k \<Longrightarrow> k \<le> held_len ds s"
  unfolding held_len_def
  by (rule order_trans [OF longest_suffix_prefix_len_le(1) fold_max_ge]) auto

text \<open>No delimiter that the text does not hold yet can start in the released part.\<close>

lemma no_start_in_released:
  assumes "d \<in> set ds" and "\<And>j. \<not> prefix d (drop j s)" and "j < length s - held_len ds s"
  shows "\<not> prefix d (drop j (s @ b))"
proof
  assume "prefix d (drop j (s @ b))"
  with assms(2,3) obtain us where d: "d = drop j s @ us" by (auto simp: prefix_append)
  with assms(2) [of j] have "us \<noteq> []" by auto
  with d have "open_suffix s d (length s - j)"
    using assms(3) by (cases us) (auto simp: open_suffix_drop)
  from held_len_open [OF assms(1) this] assms(3) show False by simp
qed

lemma open_suffix_released:
  assumes "d \<in> set ds" and "v = length s - held_len ds s"
  shows "open_suffix (s @ b) d k \<longleftrightarrow> open_suffix (drop v s @ b) d k"
proof -
  have short: "k \<le> length (drop v s @ b)" if "open_suffix (s @ b) d k"
  proof (rule ccontr)
    assume long: "\<not> k \<le> length (drop v s @ b)"
    define j where "j = length (s @ b) - k"
    have k: "k \<le> length (s @ b)" "k < length d" using that by (auto simp: open_suffix_def)
    then have j: "j < v" "j < length s" "k = (length s - j) + length b"
      using long assms(2) held_len_le [of ds s] by (auto simp: j_def)
    have "drop j s @ b = take k d" using that j(2) by (auto simp: open_suffix_drop j_def)
    then have "take (length s - j) (drop j s @ b) = take (length s - j) (take k d)" by simp
    then have "drop j s = take (length s - j) d" using j(3) by simp
    then have "open_suffix s d (length s - j)" using k j by (auto simp: open_suffix_drop)
    from held_len_open [OF assms(1) this] j assms(2) show False by simp
  qed
  have same: "drop (length (s @ b) - k) (s @ b) = drop (length (drop v s @ b) - k) (drop v s @ b)"
    if "k \<le> length (drop v s @ b)"
  proof -
    have "drop v (s @ b) = drop v s @ b" using assms(2) by simp
    then have "drop (length (drop v s @ b) - k) (drop v s @ b) = drop (length (drop v s @ b) - k + v) (s @ b)"
      by (metis drop_drop)
    also have "length (drop v s @ b) - k + v = length (s @ b) - k" using that assms(2) by auto
    finally show ?thesis by simp
  qed
  show ?thesis
  proof (cases "k \<le> length (drop v s @ b)")
    case True
    then have "k \<le> length (s @ b)" by auto
    with True same show ?thesis unfolding open_suffix_drop by simp
  next
    case False
    with short show ?thesis unfolding open_suffix_drop by blast
  qed
qed

lemma longest_released:
  "d \<in> set ds \<Longrightarrow> v = length s - held_len ds s \<Longrightarrow>
   longest_suffix_prefix_len (s @ b) d = longest_suffix_prefix_len (drop v s @ b) d"
  unfolding longest_suffix_prefix_len_Greatest by (simp only: open_suffix_released [of d ds v s])

lemma held_len_released:
  assumes "v = length s - held_len ds s"
  shows "held_len ds (s @ b) = held_len ds (drop v s @ b)"
proof -
  have "map (longest_suffix_prefix_len (s @ b)) ds = map (longest_suffix_prefix_len (drop v s @ b)) ds"
    using assms by (intro map_cong refl longest_released)
  then show ?thesis unfolding held_len_def by (simp only:)
qed

lemma find_str_released:
  assumes "d \<in> set ds" and "find_str d s = None" and "v = length s - held_len ds s"
  shows "find_str d (s @ b) = map_option ((+) v) (find_str d (drop v s @ b))"
proof -
  have "\<not> prefix d (drop j s)" for j
    using assms(2) by (cases "j \<le> length s") (auto simp: find_str_None_iff)
  then have "\<And>j. j < v \<Longrightarrow> \<not> prefix d (drop j (s @ b))"
    using no_start_in_released [OF assms(1)] assms(3) by blast
  from find_str_shift [OF this, of v] assms(3) show ?thesis by simp
qed

lemma find_str_append: "find_str d s = Some i \<Longrightarrow> find_str d (s @ b) = Some i"
  by (auto simp: find_str_Some_iff prefix_append dest!: prefix_length_le)

end
