(* ===== verification/Stream_Trait.thy ===== *)
theory Stream_Trait
  imports Prelude
begin

text \<open>
  The interface of the incremental text parsers, \<^verbatim>\<open>codex-rs/utils/stream-parser/src/stream_text.rs\<close>: a parser is fed
  pieces of a text, answers each with the visible text and the payloads it could decide on, and is flushed at
  the end. The trait is the locale \<open>stream_text_parser\<close>: its law is that cutting a piece in two changes
  neither the state that is reached nor what has been produced. Payloads are compared through an observation, which
  forgets how a parser splits a run of text over several payloads.
\<close>

section \<open>Chunks\<close>

record 'x StreamTextChunk =
  visible_text :: str
  extracted :: "'x list"

definition default_chunk :: "'x StreamTextChunk" where
  "default_chunk = \<lparr>visible_text = [], extracted = []\<rparr>"

definition chunk_is_empty :: "'x StreamTextChunk \<Rightarrow> bool" where
  "chunk_is_empty c \<longleftrightarrow> visible_text c = [] \<and> extracted c = []"

text \<open>What a caller that appends the text and the payloads of the next chunk has collected.\<close>

definition add_chunk :: "'x StreamTextChunk \<Rightarrow> 'x StreamTextChunk \<Rightarrow> 'x StreamTextChunk" where
  "add_chunk c d = \<lparr>visible_text = visible_text c @ visible_text d, extracted = extracted c @ extracted d\<rparr>"

lemma add_chunk_simps [simp]:
  "visible_text (add_chunk c d) = visible_text c @ visible_text d"
  "extracted (add_chunk c d) = extracted c @ extracted d"
  "visible_text default_chunk = []"
  "extracted default_chunk = []"
  by (simp_all add: add_chunk_def default_chunk_def)

lemma add_chunk_monoid [simp]:
  "add_chunk default_chunk c = c"
  "add_chunk c default_chunk = c"
  "add_chunk (add_chunk a b) c = add_chunk a (add_chunk b c)"
  by (simp_all add: add_chunk_def default_chunk_def)

section \<open>Feeding a parser\<close>

text \<open>What a caller gets that pushes the pieces one after the other and collects the answers.\<close>

fun feed :: "('p \<Rightarrow> str \<Rightarrow> ('p \<times> 'x StreamTextChunk) option) \<Rightarrow> 'p \<Rightarrow> str list \<Rightarrow> ('p \<times> 'x StreamTextChunk) option" where
  "feed push p [] = Some (p, default_chunk)"
| "feed push p (s # ss) =
     (case push p s of
        None \<Rightarrow> None
      | Some (p1, c1) \<Rightarrow>
          (case feed push p1 ss of None \<Rightarrow> None | Some (p2, c2) \<Rightarrow> Some (p2, add_chunk c1 c2)))"

definition collect ::
  "('p \<Rightarrow> str \<Rightarrow> ('p \<times> 'x StreamTextChunk) option) \<Rightarrow> ('p \<Rightarrow> 'p \<times> 'x StreamTextChunk) \<Rightarrow> 'p \<Rightarrow> str list \<Rightarrow>
   'x StreamTextChunk option" where
  "collect push fin p ss =
     (case feed push p ss of None \<Rightarrow> None | Some (p', c) \<Rightarrow> Some (add_chunk c (snd (fin p'))))"

definition observed :: "('x \<Rightarrow> 'o list) \<Rightarrow> 'x StreamTextChunk \<Rightarrow> str \<times> 'o list" where
  "observed obs c = (visible_text c, concat (map obs (extracted c)))"

definition join_observed :: "str \<times> 'o list \<Rightarrow> str \<times> 'o list \<Rightarrow> str \<times> 'o list" where
  "join_observed x y = (fst x @ fst y, snd x @ snd y)"

lemma observed_simps [simp]:
  "observed obs (add_chunk c d) = join_observed (observed obs c) (observed obs d)"
  "observed obs default_chunk = ([], [])"
  "join_observed ([], []) x = x"
  "join_observed x ([], []) = x"
  "join_observed (join_observed x y) z = join_observed x (join_observed y z)"
  by (simp_all add: observed_def join_observed_def)

section \<open>The trait\<close>

locale stream_text_parser =
  fixes ready :: "'p \<Rightarrow> bool"
    and push :: "'p \<Rightarrow> str \<Rightarrow> ('p \<times> 'x StreamTextChunk) option"
    and fin :: "'p \<Rightarrow> 'p \<times> 'x StreamTextChunk"
    and obs :: "'x \<Rightarrow> 'o list"
  assumes push_total: "ready p \<Longrightarrow> \<exists>p' c. push p s = Some (p', c) \<and> ready p'"
    and push_empty: "ready p \<Longrightarrow> push p [] = Some (p, default_chunk)"
    and push_append:
      "ready p \<Longrightarrow> push p s = Some (p1, c1) \<Longrightarrow> push p1 t = Some (p2, c2) \<Longrightarrow>
       \<exists>c. push p (s @ t) = Some (p2, c) \<and> observed obs c = join_observed (observed obs c1) (observed obs c2)"
begin

lemma feed_concat:
  assumes "ready p"
  shows "\<exists>p' c d. feed push p ss = Some (p', c) \<and> push p (concat ss) = Some (p', d)
    \<and> observed obs c = observed obs d \<and> ready p'"
  using assms
proof (induction ss arbitrary: p)
  case Nil
  then show ?case by (simp add: push_empty)
next
  case (Cons s ss)
  obtain p1 c1 where p1: "push p s = Some (p1, c1)" "ready p1" using push_total [OF Cons.prems] by blast
  obtain p2 c d where p2: "feed push p1 ss = Some (p2, c)" "push p1 (concat ss) = Some (p2, d)"
    "observed obs c = observed obs d" "ready p2"
    using Cons.IH [OF p1(2)] by blast
  show ?case using push_append [OF Cons.prems p1(1) p2(2)] p1 p2 by auto
qed

lemma collect_concat:
  assumes "ready p"
  shows "\<exists>c d. collect push fin p ss = Some c \<and> collect push fin p [concat ss] = Some d \<and> observed obs c = observed obs d"
  using feed_concat [OF assms, of ss] by (auto simp: collect_def)

end

end
