(* ===== verification/Stream_Utf8.thy ===== *)
theory Stream_Utf8
  imports Stream_Trait "HOL-Library.Word"
begin

text \<open>
  Streams of bytes: \<^verbatim>\<open>codex-rs/utils/stream-parser/src/utf8_stream.rs\<close>. \<open>from_utf8\<close> is the decoder of the standard
  library with its error: the number of bytes that are valid, and the length of the offending sequence or
  None when the input ends inside a sequence. The inner parser is any parser of the trait.
\<close>

section \<open>Decoding\<close>

type_synonym byte = "8 word"

datatype decoded = Scalar nat nat | Malformed "nat option"

definition continuation :: "byte \<Rightarrow> bool" where
  "continuation b \<longleftrightarrow> 128 \<le> unat b \<and> unat b < 192"

definition second_of_three :: "nat \<Rightarrow> byte \<Rightarrow> bool" where
  "second_of_three lead b \<longleftrightarrow>
     continuation b \<and> (lead = 224 \<longrightarrow> 160 \<le> unat b) \<and> (lead = 237 \<longrightarrow> unat b < 160)"

definition second_of_four :: "nat \<Rightarrow> byte \<Rightarrow> bool" where
  "second_of_four lead b \<longleftrightarrow>
     continuation b \<and> (lead = 240 \<longrightarrow> 144 \<le> unat b) \<and> (lead = 244 \<longrightarrow> unat b < 144)"

definition low_bits :: "byte \<Rightarrow> nat" where
  "low_bits b = unat b mod 64"

fun next_scalar :: "byte list \<Rightarrow> decoded" where
  "next_scalar [] = Malformed None"
| "next_scalar (b # bs) =
     (let lead = unat b
      in if lead < 128 then Scalar lead 1
         else if 194 \<le> lead \<and> lead < 224 then
           (case bs of
              [] \<Rightarrow> Malformed None
            | c # _ \<Rightarrow> if continuation c then Scalar (lead mod 32 * 64 + low_bits c) 2 else Malformed (Some 1))
         else if 224 \<le> lead \<and> lead < 240 then
           (case bs of
              [] \<Rightarrow> Malformed None
            | c # cs \<Rightarrow>
                if \<not> second_of_three lead c then Malformed (Some 1)
                else case cs of
                       [] \<Rightarrow> Malformed None
                     | d # _ \<Rightarrow>
                         if continuation d then Scalar ((lead mod 16 * 64 + low_bits c) * 64 + low_bits d) 3
                         else Malformed (Some 2))
         else if 240 \<le> lead \<and> lead < 245 then
           (case bs of
              [] \<Rightarrow> Malformed None
            | c # cs \<Rightarrow>
                if \<not> second_of_four lead c then Malformed (Some 1)
                else case cs of
                       [] \<Rightarrow> Malformed None
                     | d # ds \<Rightarrow>
                         if \<not> continuation d then Malformed (Some 2)
                         else case ds of
                                [] \<Rightarrow> Malformed None
                              | e # _ \<Rightarrow>
                                  if continuation e
                                  then Scalar (((lead mod 8 * 64 + low_bits c) * 64 + low_bits d) * 64 + low_bits e) 4
                                  else Malformed (Some 3))
         else Malformed (Some 1))"

lemma next_scalar_width: "next_scalar bs = Scalar c w \<Longrightarrow> 0 < w \<and> w \<le> length bs"
  by (cases bs) (auto simp: Let_def split: if_splits list.splits)

lemma next_scalar_append:
  "next_scalar bs \<noteq> Malformed None \<Longrightarrow> next_scalar (bs @ x) = next_scalar bs"
  by (cases bs) (auto simp: Let_def split: if_splits list.splits)

lemma next_scalar_take: "next_scalar bs = Scalar c w \<Longrightarrow> next_scalar (take w bs) = Scalar c w"
  by (cases bs) (auto simp: Let_def split: if_splits list.splits)

text \<open>The scalars in front, the number of their bytes, and why the decoder stopped before the end, if it did.\<close>

function decode_run :: "byte list \<Rightarrow> str \<times> nat \<times> nat option option" where
  "decode_run bs =
     (if bs = [] then ([], 0, None)
      else case next_scalar bs of
             Malformed e \<Rightarrow> ([], 0, Some e)
           | Scalar c w \<Rightarrow> (case decode_run (drop w bs) of (s, n, e) \<Rightarrow> (c # s, w + n, e)))"
  by pat_completeness auto
termination
  by (relation "measure length") (auto dest: next_scalar_width)

declare decode_run.simps [simp del]

lemma decode_run_Nil [simp]: "decode_run [] = ([], 0, None)"
  by (simp add: decode_run.simps)

record Utf8Error =
  err_valid_up_to :: nat
  err_error_len :: "nat option"

definition from_utf8 :: "byte list \<Rightarrow> Utf8Error + str" where
  "from_utf8 bs =
     (case decode_run bs of
        (s, _, None) \<Rightarrow> Inr s
      | (_, n, Some e) \<Rightarrow> Inl \<lparr>err_valid_up_to = n, err_error_len = e\<rparr>)"

section \<open>The byte stream parser\<close>

datatype Utf8StreamParserError = InvalidUtf8 nat nat | IncompleteUtf8AtEof

definition utf8_stream_error_display :: "Utf8StreamParserError \<Rightarrow> str" where
  "utf8_stream_error_display e =
     (case e of
        InvalidUtf8 valid_up_to error_len \<Rightarrow>
          lit ''invalid UTF-8 in streamed bytes at offset '' @ show_nat valid_up_to @ lit '' (error length ''
          @ show_nat error_len @ lit '')''
      | IncompleteUtf8AtEof \<Rightarrow> lit ''incomplete UTF-8 code point at end of stream'')"

record 'p Utf8StreamParser =
  us_inner :: 'p
  us_pending_utf8 :: "byte list"

definition utf8_new :: "'p \<Rightarrow> 'p Utf8StreamParser" where
  "utf8_new inner = \<lparr>us_inner = inner, us_pending_utf8 = []\<rparr>"

definition error_len_or_zero :: "Utf8Error \<Rightarrow> nat" where
  "error_len_or_zero e = (case err_error_len e of Some l \<Rightarrow> l | None \<Rightarrow> 0)"

definition push_bytes ::
  "('p \<Rightarrow> str \<Rightarrow> ('p \<times> 'x StreamTextChunk) option) \<Rightarrow> 'p Utf8StreamParser \<Rightarrow> byte list \<Rightarrow>
   ('p Utf8StreamParser \<times> (Utf8StreamParserError + 'x StreamTextChunk)) option" where
  "push_bytes push p chunk =
     (let old_len = length (us_pending_utf8 p);
          bytes = us_pending_utf8 p @ chunk
      in case from_utf8 bytes of
           Inr s \<Rightarrow>
             map_option (\<lambda>(inner, out). (\<lparr>us_inner = inner, us_pending_utf8 = []\<rparr>, Inr out)) (push (us_inner p) s)
         | Inl err \<Rightarrow>
             (case err_error_len err of
                Some error_len \<Rightarrow>
                  Some (p\<lparr>us_pending_utf8 := take old_len bytes\<rparr>, Inl (InvalidUtf8 (err_valid_up_to err) error_len))
              | None \<Rightarrow>
                  if err_valid_up_to err = 0 then Some (p\<lparr>us_pending_utf8 := bytes\<rparr>, Inr default_chunk)
                  else case from_utf8 (take (err_valid_up_to err) bytes) of
                         Inl prefix_err \<Rightarrow>
                           Some (p\<lparr>us_pending_utf8 := take old_len bytes\<rparr>,
                                 Inl (InvalidUtf8 (err_valid_up_to prefix_err) (error_len_or_zero prefix_err)))
                       | Inr s \<Rightarrow>
                           map_option (\<lambda>(inner, out).
                               (\<lparr>us_inner = inner, us_pending_utf8 = drop (err_valid_up_to err) bytes\<rparr>, Inr out))
                             (push (us_inner p) s)))"

definition utf8_finish ::
  "('p \<Rightarrow> str \<Rightarrow> ('p \<times> 'x StreamTextChunk) option) \<Rightarrow> ('p \<Rightarrow> 'p \<times> 'x StreamTextChunk) \<Rightarrow> 'p Utf8StreamParser \<Rightarrow>
   ('p Utf8StreamParser \<times> (Utf8StreamParserError + 'x StreamTextChunk)) option" where
  "utf8_finish push fin p =
     (if us_pending_utf8 p = [] then
        (case fin (us_inner p) of (inner, tail) \<Rightarrow> Some (p\<lparr>us_inner := inner\<rparr>, Inr (add_chunk default_chunk tail)))
      else case from_utf8 (us_pending_utf8 p) of
             Inl err \<Rightarrow>
               (case err_error_len err of
                  Some error_len \<Rightarrow> Some (p, Inl (InvalidUtf8 (err_valid_up_to err) error_len))
                | None \<Rightarrow> Some (p, Inl IncompleteUtf8AtEof))
           | Inr s \<Rightarrow>
               map_option (\<lambda>(inner, out).
                   case fin inner of (inner', tail) \<Rightarrow>
                     (\<lparr>us_inner = inner', us_pending_utf8 = []\<rparr>, Inr (add_chunk out tail)))
                 (push (us_inner p) s))"

definition into_inner :: "'p Utf8StreamParser \<Rightarrow> Utf8StreamParserError + 'p" where
  "into_inner p =
     (if us_pending_utf8 p = [] then Inr (us_inner p)
      else case from_utf8 (us_pending_utf8 p) of
             Inr _ \<Rightarrow> Inr (us_inner p)
           | Inl err \<Rightarrow>
               (case err_error_len err of
                  Some error_len \<Rightarrow> Inl (InvalidUtf8 (err_valid_up_to err) error_len)
                | None \<Rightarrow> Inl IncompleteUtf8AtEof))"

definition into_inner_lossy :: "'p Utf8StreamParser \<Rightarrow> 'p" where
  "into_inner_lossy p = us_inner p"

text \<open>A caller that stops at the first error.\<close>

fun feed_bytes ::
  "('p \<Rightarrow> str \<Rightarrow> ('p \<times> 'x StreamTextChunk) option) \<Rightarrow> 'p Utf8StreamParser \<Rightarrow> byte list list \<Rightarrow>
   ('p Utf8StreamParser \<times> (Utf8StreamParserError + 'x StreamTextChunk)) option" where
  "feed_bytes push p [] = Some (p, Inr default_chunk)"
| "feed_bytes push p (b # bs) =
     (case push_bytes push p b of
        None \<Rightarrow> None
      | Some (p1, Inl e) \<Rightarrow> Some (p1, Inl e)
      | Some (p1, Inr c1) \<Rightarrow>
          map_option (\<lambda>(p2, r). (p2, bind_result r (\<lambda>c2. Inr (add_chunk c1 c2)))) (feed_bytes push p1 bs))"

definition collect_bytes ::
  "('p \<Rightarrow> str \<Rightarrow> ('p \<times> 'x StreamTextChunk) option) \<Rightarrow> ('p \<Rightarrow> 'p \<times> 'x StreamTextChunk) \<Rightarrow> 'p \<Rightarrow> byte list list \<Rightarrow>
   (Utf8StreamParserError + 'x StreamTextChunk) option" where
  "collect_bytes push fin inner bs =
     (case feed_bytes push (utf8_new inner) bs of
        None \<Rightarrow> None
      | Some (p, Inl e) \<Rightarrow> Some (Inl e)
      | Some (p, Inr c) \<Rightarrow>
          map_option (\<lambda>(_, r). bind_result r (\<lambda>tail. Inr (add_chunk c tail))) (utf8_finish push fin p))"

section \<open>Decoding in pieces\<close>

lemma decode_run_bound: "decode_run bs = (s, n, e) \<Longrightarrow> n \<le> length bs \<and> (e = None \<longrightarrow> n = length bs)"
proof (induction bs arbitrary: s n e rule: decode_run.induct)
  case (1 bs)
  show ?case
  proof (cases "next_scalar bs")
    case (Scalar c w)
    obtain s' n' e' where rest: "decode_run (drop w bs) = (s', n', e')" by (metis prod_cases3)
    have "bs \<noteq> []" using Scalar by auto
    with 1 Scalar rest next_scalar_width [OF Scalar] show ?thesis
      by (fastforce simp: decode_run.simps [of bs])
  qed (use 1 in \<open>auto simp: decode_run.simps [of bs] split: if_splits\<close>)
qed

text \<open>More bytes do not change what has been decoded; they are decoded from where the decoder stopped.\<close>

lemma decode_run_append:
  assumes "decode_run bs = (s, n, e)" and "e = None \<or> e = Some None"
  shows "decode_run (bs @ x) = (case decode_run (drop n bs @ x) of (s', n', e') \<Rightarrow> (s @ s', n + n', e'))"
  using assms
proof (induction bs arbitrary: s n e rule: decode_run.induct)
  case (1 bs)
  show ?case
  proof (cases "next_scalar bs")
    case (Scalar c w)
    obtain s' n' e' where rest: "decode_run (drop w bs) = (s', n', e')" by (metis prod_cases3)
    have w: "0 < w" "w \<le> length bs" "bs \<noteq> []" using Scalar next_scalar_width [OF Scalar] by auto
    have res: "s = c # s'" "n = w + n'" "e = e'" using "1.prems"(1) w Scalar rest by (auto simp: decode_run.simps [of bs])
    have "decode_run (drop w bs @ x) = (case decode_run (drop n' (drop w bs) @ x) of (t, m, e') \<Rightarrow> (s' @ t, n' + m, e'))"
      using "1.IH" [OF w(3) Scalar rest] "1.prems"(2) res by simp
    moreover have "next_scalar (bs @ x) = Scalar c w" using next_scalar_append [of bs x] Scalar by simp
    ultimately show ?thesis
      using w res by (simp add: decode_run.simps [of "bs @ x"] add.commute split: prod.split)
  next
    case (Malformed m)
    then have "s = []" "n = 0" using "1.prems" by (auto simp: decode_run.simps [of bs] split: if_splits)
    then show ?thesis by (simp split: prod.split)
  qed
qed

lemma decode_run_broken:
  "decode_run bs = (s, n, Some (Some k)) \<Longrightarrow> decode_run (bs @ x) = (s, n, Some (Some k))"
proof (induction bs arbitrary: s n rule: decode_run.induct)
  case (1 bs)
  have ne: "bs \<noteq> []" using "1.prems" by (auto simp: decode_run.simps [of bs])
  show ?case
  proof (cases "next_scalar bs")
    case (Scalar c w)
    obtain s' n' e' where rest: "decode_run (drop w bs) = (s', n', e')" by (metis prod_cases3)
    have w: "w \<le> length bs" using next_scalar_width [OF Scalar] by auto
    have res: "s = c # s'" "n = w + n'" "e' = Some (Some k)"
      using "1.prems"(1) ne Scalar rest by (auto simp: decode_run.simps [of bs])
    with "1.IH" [OF ne Scalar, of s' n'] rest have "decode_run (drop w bs @ x) = (s', n', e')" by simp
    then show ?thesis
      using ne w res Scalar next_scalar_append [of bs x] by (simp add: decode_run.simps [of "bs @ x"])
  next
    case (Malformed m)
    then have "s = []" "n = 0" "m = Some k" using "1.prems" ne by (auto simp: decode_run.simps [of bs])
    then show ?thesis using Malformed ne next_scalar_append [of bs x] by (simp add: decode_run.simps [of "bs @ x"])
  qed
qed

lemma decode_run_parts:
  assumes "decode_run bs = (s, n, e)"
  shows "decode_run (take n bs) = (s, n, None)" and "decode_run (drop n bs) = ([], 0, e)"
  using assms
proof (induction bs arbitrary: s n e rule: decode_run.induct)
  case (1 bs)
  {
    case 1
    show ?case
    proof (cases "next_scalar bs")
      case (Scalar c w)
      obtain s' n' e' where rest: "decode_run (drop w bs) = (s', n', e')" by (metis prod_cases3)
      have ne: "bs \<noteq> []" and w: "0 < w" using Scalar next_scalar_width [OF Scalar] by auto
      have res: "s = c # s'" "n = w + n'" "e = e'" using 1 ne Scalar rest by (auto simp: decode_run.simps [of bs])
      have "next_scalar (take n bs) = Scalar c w"
        using next_scalar_append [of "take w bs" "take n' (drop w bs)"] next_scalar_take [OF Scalar] res by (simp add: take_add)
      moreover have "drop w (take n bs) = take n' (drop w bs)" using res by (simp add: drop_take)
      ultimately show ?thesis
        using "1.IH"(1) [OF ne Scalar rest] ne w res by (simp add: decode_run.simps [of "take (w + n') bs"])
    qed (use 1 in \<open>auto simp: decode_run.simps [of bs] decode_run.simps [of "[]"] split: if_splits\<close>)
  next
    case 2
    show ?case
    proof (cases "next_scalar bs")
      case (Scalar c w)
      obtain s' n' e' where rest: "decode_run (drop w bs) = (s', n', e')" by (metis prod_cases3)
      have ne: "bs \<noteq> []" using Scalar by auto
      then show ?thesis
        using "1.IH"(2) [OF ne Scalar rest] 2 Scalar rest by (auto simp: decode_run.simps [of bs] add.commute)
    qed (use 2 in \<open>auto simp: decode_run.simps [of bs] split: if_splits\<close>)
  }
qed

section \<open>Bytes in pieces\<close>

text \<open>The bytes that are held back are the start of one sequence.\<close>

definition held_back :: "byte list \<Rightarrow> bool" where
  "held_back bs \<longleftrightarrow> decode_run bs = ([], 0, None) \<or> decode_run bs = ([], 0, Some None)"

lemma held_back_Nil [simp]: "held_back []"
  by (simp add: held_back_def)

lemma push_bytes_error: "push_bytes push p chunk = Some (p', Inl e) \<Longrightarrow> p' = p"
  by (auto simp: push_bytes_def Let_def split: sum.splits option.splits if_splits)

context stream_text_parser
begin

lemma push_bytes_decoded:
  assumes "ready (us_inner p)" and "decode_run (us_pending_utf8 p @ chunk) = (s, n, e)" and "e = None \<or> e = Some None"
  shows "\<exists>p' c. push_bytes push p chunk = Some (p', Inr c) \<and> push (us_inner p) s = Some (us_inner p', c)
    \<and> us_pending_utf8 p' = drop n (us_pending_utf8 p @ chunk) \<and> ready (us_inner p')"
proof -
  let ?bytes = "us_pending_utf8 p @ chunk"
  obtain q c where q: "push (us_inner p) s = Some (q, c)" "ready q" using push_total [OF assms(1)] by blast
  show ?thesis
  proof (cases "e = None")
    case True
    with assms(2) have "from_utf8 ?bytes = Inr s" "n = length ?bytes" by (auto simp: from_utf8_def dest: decode_run_bound)
    with q show ?thesis by (simp add: push_bytes_def)
  next
    case False
    with assms(2,3) have err: "from_utf8 ?bytes = Inl \<lparr>err_valid_up_to = n, err_error_len = None\<rparr>" by (simp add: from_utf8_def)
    have part: "from_utf8 (take n ?bytes) = Inr s" using decode_run_parts(1) [OF assms(2)] by (simp add: from_utf8_def)
    have "push (us_inner p) s = Some (us_inner p, default_chunk)" if "n = 0"
      using that decode_run_parts(1) [OF assms(2)] push_empty [OF assms(1)] by simp
    with q err part assms(1) show ?thesis by (auto simp: push_bytes_def Let_def simp del: take_append drop_append)
  qed
qed

lemma feed_bytes_decoded:
  assumes "ready (us_inner p)" and "decode_run (us_pending_utf8 p @ concat bss) = (s, n, e)" and "held_back (us_pending_utf8 p)"
  shows "if e = None \<or> e = Some None
    then \<exists>p' c d. feed_bytes push p bss = Some (p', Inr c) \<and> push (us_inner p) s = Some (us_inner p', d)
      \<and> observed obs c = observed obs d \<and> us_pending_utf8 p' = drop n (us_pending_utf8 p @ concat bss) \<and> ready (us_inner p')
    else \<exists>p' e. feed_bytes push p bss = Some (p', Inl e)"
  using assms
proof (induction bss arbitrary: p s n)
  case Nil
  then have "s = []" "n = 0" "e = None \<or> e = Some None" by (auto simp: held_back_def)
  with Nil push_empty show ?case by auto
next
  case (Cons b bss)
  let ?bytes = "us_pending_utf8 p @ b"
  obtain s1 n1 e1 where 1: "decode_run ?bytes = (s1, n1, e1)" by (metis prod_cases3)
  show ?case
  proof (cases "e1 = None \<or> e1 = Some None")
    case True
    obtain p1 c1 where p1: "push_bytes push p b = Some (p1, Inr c1)" "push (us_inner p) s1 = Some (us_inner p1, c1)"
      "us_pending_utf8 p1 = drop n1 ?bytes" "ready (us_inner p1)"
      using push_bytes_decoded [OF Cons.prems(1) 1 True] by blast
    obtain s2 n2 e2 where 2: "decode_run (us_pending_utf8 p1 @ concat bss) = (s2, n2, e2)" by (metis prod_cases3)
    have all: "s = s1 @ s2" "n = n1 + n2" "e = e2"
      using decode_run_append [OF 1 True, of "concat bss"] 2 Cons.prems(2) by (auto simp: p1(3))
    have "held_back (us_pending_utf8 p1)" using decode_run_parts(2) [OF 1] True by (auto simp: held_back_def p1(3))
    note IH = Cons.IH [OF p1(4) 2 [folded all(3)] this]
    have "n1 \<le> length ?bytes" using decode_run_bound [OF 1] by simp
    then have rest: "drop n2 (us_pending_utf8 p1 @ concat bss) = drop n (us_pending_utf8 p @ concat (b # bss))"
      using drop_drop [of n2 n1 "?bytes @ concat bss"] by (simp add: p1(3) all(2) add.commute)
    show ?thesis
    proof (cases "e = None \<or> e = Some None")
      case True
      with IH obtain p2 c d where p2: "feed_bytes push p1 bss = Some (p2, Inr c)" "push (us_inner p1) s2 = Some (us_inner p2, d)"
        "observed obs c = observed obs d" "us_pending_utf8 p2 = drop n2 (us_pending_utf8 p1 @ concat bss)" "ready (us_inner p2)"
        by auto
      from push_append [OF Cons.prems(1) p1(2) p2(2)] obtain d' where
        "push (us_inner p) s = Some (us_inner p2, d')" "observed obs d' = join_observed (observed obs c1) (observed obs d)"
        by (auto simp: all(1))
      with True p1(1) p2 rest show ?thesis by auto
    next
      case False
      with IH p1(1) show ?thesis by auto
    qed
  next
    case False
    then obtain k where k: "e1 = Some (Some k)" by (cases e1) auto
    with decode_run_broken [of ?bytes s1 n1 k "concat bss"] 1 Cons.prems(2) have "e = Some (Some k)" by simp
    moreover have "push_bytes push p b = Some (p\<lparr>us_pending_utf8 := us_pending_utf8 p\<rparr>, Inl (InvalidUtf8 n1 k))"
      using 1 k by (simp add: push_bytes_def from_utf8_def)
    ultimately show ?thesis by simp
  qed
qed

text \<open>Bytes are decoded as a whole, however they are cut.\<close>

lemma collect_bytes_decoded:
  assumes "ready p"
  shows "case from_utf8 (concat bss) of
      Inr s \<Rightarrow> \<exists>c d. collect_bytes push fin p bss = Some (Inr c) \<and> collect push fin p [s] = Some d \<and> observed obs c = observed obs d
    | Inl _ \<Rightarrow> \<exists>e. collect_bytes push fin p bss = Some (Inl e)"
proof -
  obtain s n e where run: "decode_run (concat bss) = (s, n, e)" by (metis prod_cases3)
  note fed = feed_bytes_decoded [of "utf8_new p" bss s n e, simplified utf8_new_def, simplified, OF assms run, folded utf8_new_def]
  show ?thesis
  proof (cases "e = None \<or> e = Some None")
    case True
    with fed obtain q c d where q: "feed_bytes push (utf8_new p) bss = Some (q, Inr c)" "push p s = Some (us_inner q, d)"
      "observed obs c = observed obs d" "us_pending_utf8 q = drop n (concat bss)" "ready (us_inner q)"
      by (auto simp: utf8_new_def)
    show ?thesis
    proof (cases "e = None")
      case True
      then have "us_pending_utf8 q = []" using q(4) decode_run_bound [OF run] by simp
      with q True run show ?thesis
        by (auto simp: collect_bytes_def utf8_finish_def from_utf8_def collect_def split: prod.split)
    next
      case False
      with \<open>e = None \<or> e = Some None\<close> have e: "e = Some None" by simp
      have "decode_run (us_pending_utf8 q) = ([], 0, e)" using decode_run_parts(2) [OF run] q(4) by simp
      with e have "us_pending_utf8 q \<noteq> []" "from_utf8 (us_pending_utf8 q) = Inl \<lparr>err_valid_up_to = 0, err_error_len = None\<rparr>"
        by (auto simp: from_utf8_def)
      with q e run show ?thesis by (simp add: collect_bytes_def utf8_finish_def from_utf8_def)
    qed
  next
    case False
    with fed run show ?thesis by (cases e) (auto simp: collect_bytes_def from_utf8_def)
  qed
qed

end

end
