(* ===== verification/Stream_Tags.thy ===== *)
theory Stream_Tags
  imports Stream_Search Stream_Utf8
begin

text \<open>
  The parsers that take hidden tags out of the model's text while it streams in:
  \<^verbatim>\<open>inline_hidden_tag.rs\<close> and \<^verbatim>\<open>citation.rs\<close> of \<^verbatim>\<open>codex-rs/utils/stream-parser/src\<close>. The loop
  of \<^verbatim>\<open>push_str\<close> is a partial function, whose value None is a loop that does not end: with empty delimiters, which
  \<^verbatim>\<open>new\<close> refuses, it need not end.
\<close>

section \<open>Hidden inline tags\<close>

record 't ExtractedInlineTag =
  ex_tag :: 't
  ex_content :: str

record 't InlineTagSpec =
  sp_tag :: 't
  sp_open :: str
  sp_close :: str

record 't ActiveTag =
  ac_tag :: 't
  ac_close :: str
  ac_content :: str

record 't InlineHiddenTagParser =
  ih_specs :: "'t InlineTagSpec list"
  ih_pending :: str
  ih_active :: "'t ActiveTag option"

definition inline_new :: "'t InlineTagSpec list \<Rightarrow> 't InlineHiddenTagParser option" where
  "inline_new specs =
     (if specs = [] then None
      else if list_ex (\<lambda>spec. sp_open spec = [] \<or> sp_close spec = []) specs then None
      else Some \<lparr>ih_specs = specs, ih_pending = [], ih_active = None\<rparr>)"

definition open_positions :: "'t InlineTagSpec list \<Rightarrow> str \<Rightarrow> (nat \<times> nat \<times> nat) list" where
  "open_positions specs pending =
     List.map_filter (\<lambda>(idx, spec). map_option (\<lambda>pos. (pos, length (sp_open spec), idx)) (find_str (sp_open spec) pending))
       (enumerate 0 specs)"

definition open_rank :: "nat \<times> nat \<times> nat \<Rightarrow> nat \<times> int \<times> nat" where
  "open_rank = (\<lambda>(pos, len, idx). (pos, - int len, idx))"

definition find_next_open :: "'t InlineTagSpec list \<Rightarrow> str \<Rightarrow> (nat \<times> nat) option" where
  "find_next_open specs pending =
     map_option (\<lambda>(pos, _, idx). (pos, idx)) (min_by_key open_rank (open_positions specs pending))"

definition max_open_prefix_suffix_len :: "'t InlineTagSpec list \<Rightarrow> str \<Rightarrow> nat" where
  "max_open_prefix_suffix_len specs pending =
     fold max (map (\<lambda>spec. longest_suffix_prefix_len pending (sp_open spec)) specs) 0"

definition push_visible :: "str \<Rightarrow> 'x StreamTextChunk \<Rightarrow> 'x StreamTextChunk" where
  "push_visible text out = out\<lparr>visible_text := visible_text out @ text\<rparr>"

definition push_extracted :: "'x \<Rightarrow> 'x StreamTextChunk \<Rightarrow> 'x StreamTextChunk" where
  "push_extracted x out = out\<lparr>extracted := extracted out @ [x]\<rparr>"

partial_function (option) inline_loop ::
  "'t InlineTagSpec list \<Rightarrow> str \<Rightarrow> 't ActiveTag option \<Rightarrow> 't ExtractedInlineTag StreamTextChunk \<Rightarrow>
   (str \<times> 't ActiveTag option \<times> 't ExtractedInlineTag StreamTextChunk) option" where
  "inline_loop specs pending active out =
     (case active of
        Some a \<Rightarrow>
          (case find_str (ac_close a) pending of
             Some close_idx \<Rightarrow>
               inline_loop specs (drop (close_idx + length (ac_close a)) pending) None
                 (push_extracted \<lparr>ex_tag = ac_tag a, ex_content = ac_content a @ take close_idx pending\<rparr> out)
           | None \<Rightarrow>
               let keep = longest_suffix_prefix_len pending (ac_close a); released = length pending - keep
               in Some (drop released pending, Some (a\<lparr>ac_content := ac_content a @ take released pending\<rparr>), out))
      | None \<Rightarrow>
          (case find_next_open specs pending of
             Some (open_idx, spec_idx) \<Rightarrow>
               let spec = specs ! spec_idx
               in inline_loop specs (drop (open_idx + length (sp_open spec)) pending)
                    (Some \<lparr>ac_tag = sp_tag spec, ac_close = sp_close spec, ac_content = []\<rparr>)
                    (push_visible (take open_idx pending) out)
           | None \<Rightarrow>
               let keep = max_open_prefix_suffix_len specs pending; released = length pending - keep
               in Some (drop released pending, None, push_visible (take released pending) out)))"

declare inline_loop.simps [code]

definition inline_push_str ::
  "'t InlineHiddenTagParser \<Rightarrow> str \<Rightarrow> ('t InlineHiddenTagParser \<times> 't ExtractedInlineTag StreamTextChunk) option" where
  "inline_push_str p chunk =
     map_option (\<lambda>(pending, active, out). (p\<lparr>ih_pending := pending, ih_active := active\<rparr>, out))
       (inline_loop (ih_specs p) (ih_pending p @ chunk) (ih_active p) default_chunk)"

definition inline_finish ::
  "'t InlineHiddenTagParser \<Rightarrow> 't InlineHiddenTagParser \<times> 't ExtractedInlineTag StreamTextChunk" where
  "inline_finish p =
     (case ih_active p of
        Some a \<Rightarrow>
          (p\<lparr>ih_pending := [], ih_active := None\<rparr>,
           push_extracted \<lparr>ex_tag = ac_tag a, ex_content = ac_content a @ ih_pending p\<rparr> default_chunk)
      | None \<Rightarrow> (p\<lparr>ih_pending := []\<rparr>, push_visible (ih_pending p) default_chunk))"

section \<open>Citations\<close>

datatype CitationTag = Citation

definition CITATION_OPEN :: str where "CITATION_OPEN = lit ''<oai-mem-citation>''"
definition CITATION_CLOSE :: str where "CITATION_CLOSE = lit ''</oai-mem-citation>''"

type_synonym CitationStreamParser = "CitationTag InlineHiddenTagParser"

definition citation_specs :: "CitationTag InlineTagSpec list" where
  "citation_specs = [\<lparr>sp_tag = Citation, sp_open = CITATION_OPEN, sp_close = CITATION_CLOSE\<rparr>]"

definition citation_new :: "CitationStreamParser option" where
  "citation_new = inline_new citation_specs"

definition contents_only :: "'t ExtractedInlineTag StreamTextChunk \<Rightarrow> str StreamTextChunk" where
  "contents_only c = \<lparr>visible_text = visible_text c, extracted = map ex_content (extracted c)\<rparr>"

definition citation_push_str ::
  "CitationStreamParser \<Rightarrow> str \<Rightarrow> (CitationStreamParser \<times> str StreamTextChunk) option" where
  "citation_push_str p chunk = map_option (\<lambda>(p', c). (p', contents_only c)) (inline_push_str p chunk)"

definition citation_finish :: "CitationStreamParser \<Rightarrow> CitationStreamParser \<times> str StreamTextChunk" where
  "citation_finish p = (case inline_finish p of (p', c) \<Rightarrow> (p', contents_only c))"

definition strip_citations :: "str \<Rightarrow> (str \<times> str list) option" where
  "strip_citations text =
     (case citation_new of
        None \<Rightarrow> None
      | Some p \<Rightarrow>
          (case citation_push_str p text of
             None \<Rightarrow> None
           | Some (p', out) \<Rightarrow>
               (case citation_finish p' of
                  (_, tail) \<Rightarrow> Some (visible_text out @ visible_text tail, extracted out @ extracted tail))))"

end
