(* ===== verification/Stream_Split.thy ===== *)
theory Stream_Split
  imports Stream_Tags
begin

text \<open>
  Feeding the inline tag parser a text in two pieces gives what feeding it at once gives, provided no opening
  delimiter lies inside another one. The loop then ends in a state that is stable: nothing more can be released
  until more text comes.
\<close>

section \<open>The next opening delimiter\<close>

definition specs_ok :: "'t InlineTagSpec list \<Rightarrow> bool" where
  "specs_ok specs \<longleftrightarrow>
     specs \<noteq> [] \<and> (\<forall>spec \<in> set specs. sp_open spec \<noteq> [] \<and> sp_close spec \<noteq> [])"

definition independent_opens :: "'t InlineTagSpec list \<Rightarrow> bool" where
  "independent_opens specs \<longleftrightarrow>
     (\<forall>s \<in> set specs. \<forall>t \<in> set specs. sublist (sp_open s) (sp_open t) \<longrightarrow> sp_open s = sp_open t)"

lemma open_positions_iff:
  "(pos, len, idx) \<in> set (open_positions specs s) \<longleftrightarrow>
   idx < length specs \<and> len = length (sp_open (specs ! idx)) \<and> find_str (sp_open (specs ! idx)) s = Some pos"
proof -
  have "set (open_positions specs s) = {x. \<exists>(idx, spec) \<in> set (enumerate 0 specs).
      map_option (\<lambda>pos. (pos, length (sp_open spec), idx)) (find_str (sp_open spec) s) = Some x}"
    by (force simp: open_positions_def map_filter_def)
  then show ?thesis by (auto simp: in_set_enumerate_eq)
qed

lemma open_rank_inj: "inj_on open_rank A"
  by (auto simp: inj_on_def open_rank_def split: prod.splits)

lemma find_next_open_Some_iff:
  "find_next_open specs s = Some (pos, idx) \<longleftrightarrow>
   (\<exists>len. (pos, len, idx) \<in> set (open_positions specs s)
     \<and> (\<forall>y \<in> set (open_positions specs s). open_rank (pos, len, idx) \<le> open_rank y))"
  by (auto simp: find_next_open_def min_by_key_Some_iff [OF open_rank_inj])

lemma find_next_open_None_iff:
  "find_next_open specs s = None \<longleftrightarrow> (\<forall>spec \<in> set specs. find_str (sp_open spec) s = None)"
proof -
  have "open_positions specs s = [] \<longleftrightarrow> (\<forall>idx len pos. (pos, len, idx) \<notin> set (open_positions specs s))"
    by (cases "open_positions specs s") auto
  then show ?thesis
    by (auto simp: find_next_open_def min_by_key_None_iff open_positions_iff all_set_conv_all_nth)
qed

lemma find_next_open_SomeD:
  assumes "find_next_open specs s = Some (pos, idx)"
  shows "idx < length specs" and "pos + length (sp_open (specs ! idx)) \<le> length s"
proof -
  obtain len where "(pos, len, idx) \<in> set (open_positions specs s)"
    using assms unfolding find_next_open_Some_iff by blast
  then have idx: "idx < length specs" and "find_str (sp_open (specs ! idx)) s = Some pos"
    by (auto simp: open_positions_iff)
  then show "idx < length specs" "pos + length (sp_open (specs ! idx)) \<le> length s"
    by (auto simp: find_str_Some_iff dest: prefix_length_le)
qed

text \<open>An opening delimiter found in a text stays the next one when the text grows.\<close>

lemma find_next_open_append:
  assumes "independent_opens specs" and "find_next_open specs s = Some (pos, idx)"
  shows "find_next_open specs (s @ b) = Some (pos, idx)"
proof -
  from assms(2) obtain len where x: "(pos, len, idx) \<in> set (open_positions specs s)"
    and least: "\<And>y. y \<in> set (open_positions specs s) \<Longrightarrow> open_rank (pos, len, idx) \<le> open_rank y"
    unfolding find_next_open_Some_iff by blast
  let ?d = "sp_open (specs ! idx)"
  from x have idx: "idx < length specs" "len = length ?d" "find_str ?d s = Some pos"
    by (auto simp: open_positions_iff)
  have "open_rank (pos, len, idx) \<le> open_rank (pos', len', idx')"
    if y: "(pos', len', idx') \<in> set (open_positions specs (s @ b))" for pos' len' idx'
  proof (cases "find_str (sp_open (specs ! idx')) s")
    case None
    let ?e = "sp_open (specs ! idx')"
    have e: "idx' < length specs" "find_str ?e (s @ b) = Some pos'" using y by (auto simp: open_positions_iff)
    have "pos < pos'"
    proof (rule ccontr)
      assume "\<not> pos < pos'"
      have "pos \<le> length s" "prefix ?d (drop pos s)" using idx(3) by (auto simp: find_str_Some_iff)
      have le: "pos' \<le> pos" "pos' \<le> length s" using \<open>\<not> pos < pos'\<close> \<open>pos \<le> length s\<close> by auto
      then have "prefix ?e (drop pos' s @ b)" "\<not> prefix ?e (drop pos' s)"
        using e(2) None by (auto simp: find_str_Some_iff find_str_None_iff)
      then obtain us where "?e = drop pos' s @ us" by (auto simp: prefix_append)
      moreover have "drop pos' s = take (pos - pos') (drop pos' s) @ drop pos s"
        using le by (metis append_take_drop_id drop_drop le_add_diff_inverse2)
      moreover obtain vs where "drop pos s = ?d @ vs" using \<open>prefix ?d (drop pos s)\<close> by (auto simp: prefix_def)
      ultimately have "sublist ?d ?e" unfolding sublist_def by (metis append.assoc)
      then have "?d = ?e" using assms(1) idx(1) e(1) by (auto simp: independent_opens_def)
      with idx(3) None show False by simp
    qed
    then show ?thesis by (simp add: open_rank_def less_eq_prod_def)
  next
    case (Some q)
    with y find_str_append [OF Some, of b] have "(pos', len', idx') \<in> set (open_positions specs s)"
      by (auto simp: open_positions_iff)
    then show ?thesis by (rule least)
  qed
  moreover have "(pos, len, idx) \<in> set (open_positions specs (s @ b))"
    using idx find_str_append by (auto simp: open_positions_iff)
  ultimately show ?thesis unfolding find_next_open_Some_iff by auto
qed

text \<open>Releasing the part before the longest open suffix moves the next opening delimiter.\<close>

lemma max_open_held: "max_open_prefix_suffix_len specs s = held_len (map sp_open specs) s"
  by (simp add: max_open_prefix_suffix_len_def held_len_def comp_def)

lemma find_next_open_released:
  assumes "find_next_open specs s = None" and "v = length s - max_open_prefix_suffix_len specs s"
  shows "find_next_open specs (s @ b) =
    map_option (\<lambda>(pos, idx). (v + pos, idx)) (find_next_open specs (drop v s @ b))"
proof -
  have "find_str (sp_open spec) (s @ b) = map_option ((+) v) (find_str (sp_open spec) (drop v s @ b))"
    if "spec \<in> set specs" for spec
    using find_str_released [of "sp_open spec" "map sp_open specs"] assms that
    by (auto simp: max_open_held find_next_open_None_iff)
  then have "open_positions specs (s @ b) = map (\<lambda>(pos, rest). (v + pos, rest)) (open_positions specs (drop v s @ b))"
    unfolding open_positions_def map_filter_def map_map
    by (auto simp: in_set_enumerate_eq comp_def intro!: map_cong filter_cong)
  moreover have "min_by_key open_rank (map (\<lambda>(pos, rest). (v + pos, rest)) xs) =
      map_option (\<lambda>(pos, rest). (v + pos, rest)) (min_by_key open_rank xs)" for xs
    by (rule min_by_key_map) (auto simp: open_rank_def less_eq_prod_def)
  ultimately show ?thesis
    by (simp add: find_next_open_def option.map_comp comp_def split_def)
qed

section \<open>The loop\<close>

definition active_ok :: "'t ActiveTag option \<Rightarrow> bool" where
  "active_ok active \<longleftrightarrow> (case active of None \<Rightarrow> True | Some a \<Rightarrow> ac_close a \<noteq> [])"

text \<open>A state in which the loop stops at once, with nothing released.\<close>

definition stable :: "'t InlineTagSpec list \<Rightarrow> str \<Rightarrow> 't ActiveTag option \<Rightarrow> bool" where
  "stable specs pending active \<longleftrightarrow>
     (case active of
        Some a \<Rightarrow> find_str (ac_close a) pending = None \<and> held_len [ac_close a] pending = length pending
      | None \<Rightarrow> find_next_open specs pending = None \<and> max_open_prefix_suffix_len specs pending = length pending)"

lemma held_len_single: "held_len [d] s = longest_suffix_prefix_len s d"
  by (simp add: held_len_def)

lemma loop_stable:
  "stable specs pending active \<Longrightarrow> inline_loop specs pending active out = Some (pending, active, out)"
  by (subst inline_loop.simps) (auto simp: stable_def held_len_single push_visible_def Let_def split: option.splits)

lemma released_stable:
  assumes "v = length s - held_len ds (s :: 'a list)"
  shows "held_len ds (drop v s) = length (drop v s)" and "d \<in> set ds \<Longrightarrow> find_str d s = None \<Longrightarrow> find_str d (drop v s) = None"
  using held_len_released [OF assms, of "[]"] find_str_released [of d ds s v "[]"] assms held_len_le [of ds s]
  by auto

lemma loop_total:
  assumes "specs_ok specs" "active_ok active"
  shows "\<exists>pending' active' out'. inline_loop specs pending active out = Some (pending', active', out')
    \<and> stable specs pending' active' \<and> active_ok active'"
  using assms(2)
proof (induction "length pending" arbitrary: pending active out rule: less_induct)
  case less
  show ?case
  proof (cases active)
    case None
    show ?thesis
    proof (cases "find_next_open specs pending")
      case miss: None
      let ?ds = "map sp_open specs"
      have "stable specs (drop (length pending - held_len ?ds pending) pending) None"
        using released_stable [OF refl, where s = pending and ds = ?ds] miss
        by (auto simp: stable_def max_open_held find_next_open_None_iff)
      with None miss less.prems show ?thesis
        by (subst inline_loop.simps) (simp add: max_open_held Let_def)
    next
      case (Some hit)
      obtain pos idx where hit: "hit = (pos, idx)" by (cases hit)
      with Some have idx: "idx < length specs" "pos + length (sp_open (specs ! idx)) \<le> length pending"
        using find_next_open_SomeD by blast+
      moreover have "sp_open (specs ! idx) \<noteq> []" "sp_close (specs ! idx) \<noteq> []"
        using assms(1) idx(1) by (auto simp: specs_ok_def)
      ultimately have "\<exists>pending' active' out'. inline_loop specs (drop (pos + length (sp_open (specs ! idx))) pending)
          (Some \<lparr>ac_tag = sp_tag (specs ! idx), ac_close = sp_close (specs ! idx), ac_content = []\<rparr>)
          (push_visible (take pos pending) out) = Some (pending', active', out')
        \<and> stable specs pending' active' \<and> active_ok active'"
        by (intro less.hyps) (auto simp: active_ok_def simp flip: length_greater_0_conv)
      with None Some hit show ?thesis by (subst inline_loop.simps) (simp add: Let_def)
    qed
  next
    case (Some a)
    show ?thesis
    proof (cases "find_str (ac_close a) pending")
      case miss: None
      have "stable specs (drop (length pending - held_len [ac_close a] pending) pending) (Some (a\<lparr>ac_content := c\<rparr>))" for c
        using released_stable [OF refl, where s = pending and ds = "[ac_close a]"] miss by (simp add: stable_def)
      with Some miss less.prems show ?thesis
        by (subst inline_loop.simps) (simp add: held_len_single Let_def active_ok_def)
    next
      case close: (Some pos)
      then have "prefix (ac_close a) (drop pos pending)" by (simp add: find_str_Some_iff)
      with less.prems Some have "pos + length (ac_close a) \<le> length pending" "ac_close a \<noteq> []"
        by (auto simp: active_ok_def dest: prefix_drop_bound)
      then have "\<exists>pending' active' out'. inline_loop specs (drop (pos + length (ac_close a)) pending) None out'' =
          Some (pending', active', out') \<and> stable specs pending' active' \<and> active_ok active'" for out''
        by (intro less.hyps) (auto simp: active_ok_def simp flip: length_greater_0_conv)
      with Some close show ?thesis by (subst inline_loop.simps) simp
    qed
  qed
qed

text \<open>A text cut in two.\<close>

lemma take_released:
  "v \<le> length s \<Longrightarrow> take (v + i) (s @ b) = take v s @ take i (drop v s @ b)"
  "v \<le> length s \<Longrightarrow> drop (v + i) (s @ b) = drop i (drop v s @ b)"
  using take_add [of v i "s @ b"] drop_drop [of i v "s @ b"] by (simp_all add: add.commute)

lemma push_visible_visible: "push_visible b (push_visible a out) = push_visible (a @ b) out"
  by (simp add: push_visible_def)

lemma loop_append:
  assumes "specs_ok specs" "independent_opens specs" "active_ok active"
  shows "inline_loop specs (pending @ b) active out =
    Option.bind (inline_loop specs pending active out) (\<lambda>(pending', active', out'). inline_loop specs (pending' @ b) active' out')"
  using assms(3)
proof (induction "length pending" arbitrary: pending active out rule: less_induct)
  case less
  show ?case
  proof (cases active)
    case None
    show ?thesis
    proof (cases "find_next_open specs pending")
      case miss: None
      define v where "v = length pending - max_open_prefix_suffix_len specs pending"
      have "v \<le> length pending" by (simp add: v_def)
      note shift = find_next_open_released [of specs pending v b, OF miss v_def] take_released [OF this]
      have same: "max_open_prefix_suffix_len specs (pending @ b) = max_open_prefix_suffix_len specs (drop v pending @ b)"
        unfolding max_open_held by (rule held_len_released) (simp add: v_def max_open_held)
      have "inline_loop specs (pending @ b) None out = inline_loop specs (drop v pending @ b) None (push_visible (take v pending) out)"
      proof (cases "find_next_open specs (drop v pending @ b)")
        case n2: None
        have "length (pending @ b) - max_open_prefix_suffix_len specs (pending @ b) =
            v + (length (drop v pending @ b) - max_open_prefix_suffix_len specs (drop v pending @ b))"
          using \<open>v \<le> length pending\<close> held_len_le [of "map sp_open specs" "drop v pending @ b"]
          unfolding same by (simp add: max_open_held)
        then show ?thesis
          using n2 shift by (simp add: inline_loop.simps [of specs _ None] Let_def push_visible_visible del: take_append drop_append length_append drop_drop)
      next
        case (Some hit)
        then show ?thesis
          using shift by (cases hit) (simp add: inline_loop.simps [of specs _ None] Let_def push_visible_visible add.assoc del: take_append drop_append length_append drop_drop)
      qed
      moreover have "inline_loop specs pending None out = Some (drop v pending, None, push_visible (take v pending) out)"
        using miss by (simp add: inline_loop.simps [of specs pending None] Let_def v_def)
      ultimately show ?thesis using None by simp
    next
      case (Some hit)
      obtain pos idx where hit: "hit = (pos, idx)" by (cases hit)
      let ?spec = "specs ! idx"
      let ?m = "pos + length (sp_open ?spec)"
      have idx: "idx < length specs" "?m \<le> length pending" using find_next_open_SomeD Some hit by blast+
      moreover have "sp_open ?spec \<noteq> []" "sp_close ?spec \<noteq> []" using assms(1) idx(1) by (auto simp: specs_ok_def)
      ultimately have "inline_loop specs (drop ?m pending @ b) (Some \<lparr>ac_tag = sp_tag ?spec, ac_close = sp_close ?spec, ac_content = []\<rparr>) out' =
          Option.bind (inline_loop specs (drop ?m pending) (Some \<lparr>ac_tag = sp_tag ?spec, ac_close = sp_close ?spec, ac_content = []\<rparr>) out')
            (\<lambda>(pending', active', out'). inline_loop specs (pending' @ b) active' out')" for out'
        by (intro less.hyps) (auto simp: active_ok_def simp flip: length_greater_0_conv)
      then show ?thesis
        using None Some hit idx find_next_open_append [OF assms(2), of pending pos idx b]
        by (simp add: inline_loop.simps [of specs _ None] Let_def)
    qed
  next
    case (Some a)
    show ?thesis
    proof (cases "find_str (ac_close a) pending")
      case miss: None
      define v where "v = length pending - held_len [ac_close a] pending"
      have "v \<le> length pending" by (simp add: v_def)
      note shift = find_str_released [OF _ miss v_def, of b, simplified] take_released [OF this]
      have same: "held_len [ac_close a] (pending @ b) = held_len [ac_close a] (drop v pending @ b)"
        by (rule held_len_released) (simp add: v_def)
      let ?a = "a\<lparr>ac_content := ac_content a @ take v pending\<rparr>"
      have "inline_loop specs (pending @ b) (Some a) out = inline_loop specs (drop v pending @ b) (Some ?a) out"
      proof (cases "find_str (ac_close a) (drop v pending @ b)")
        case n2: None
        have "length (pending @ b) - held_len [ac_close a] (pending @ b) =
            v + (length (drop v pending @ b) - held_len [ac_close a] (drop v pending @ b))"
          using \<open>v \<le> length pending\<close> held_len_le [of "[ac_close a]" "drop v pending @ b"] by (simp add: same)
        then show ?thesis
          using n2 shift by (simp add: inline_loop.simps [of specs _ "Some _"] Let_def del: take_append drop_append length_append drop_drop flip: held_len_single)
      next
        case (Some pos)
        then show ?thesis
          using shift by (simp add: inline_loop.simps [of specs _ "Some _"] Let_def add.assoc del: take_append drop_append length_append drop_drop)
      qed
      moreover have "inline_loop specs pending (Some a) out = Some (drop v pending, Some ?a, out)"
        using miss by (simp add: inline_loop.simps [of specs pending "Some a"] Let_def v_def held_len_single)
      ultimately show ?thesis using Some by simp
    next
      case close: (Some pos)
      then have "prefix (ac_close a) (drop pos pending)" by (simp add: find_str_Some_iff)
      with less.prems Some have m: "pos + length (ac_close a) \<le> length pending" "ac_close a \<noteq> []"
        by (auto simp: active_ok_def dest: prefix_drop_bound)
      then have "inline_loop specs (drop (pos + length (ac_close a)) pending @ b) None out' =
          Option.bind (inline_loop specs (drop (pos + length (ac_close a)) pending) None out')
            (\<lambda>(pending', active', out'). inline_loop specs (pending' @ b) active' out')" for out'
        by (intro less.hyps) (auto simp: active_ok_def simp flip: length_greater_0_conv)
      then show ?thesis
        using Some close m find_str_append [OF close, of b]
        by (simp add: inline_loop.simps [of specs _ "Some a"])
    qed
  qed
qed

section \<open>The parser\<close>

text \<open>What has been produced before does not matter.\<close>

lemma push_add:
  "push_visible t (add_chunk c d) = add_chunk c (push_visible t d)"
  "push_extracted x (add_chunk c d) = add_chunk c (push_extracted x d)"
  by (simp_all add: push_visible_def push_extracted_def add_chunk_def)

lemma loop_add:
  assumes "specs_ok specs" "active_ok active"
  shows "inline_loop specs pending active (add_chunk c d) =
    map_option (\<lambda>(pending', active', out). (pending', active', add_chunk c out)) (inline_loop specs pending active d)"
  using assms(2)
proof (induction "length pending" arbitrary: pending active d rule: less_induct)
  case less
  show ?case
  proof (cases active)
    case None
    show ?thesis
    proof (cases "find_next_open specs pending")
      case (Some hit)
      obtain pos idx where hit: "hit = (pos, idx)" by (cases hit)
      let ?m = "pos + length (sp_open (specs ! idx))"
      let ?a = "Some \<lparr>ac_tag = sp_tag (specs ! idx), ac_close = sp_close (specs ! idx), ac_content = []\<rparr>"
      have idx: "idx < length specs" "?m \<le> length pending" using find_next_open_SomeD Some hit by blast+
      moreover have "sp_open (specs ! idx) \<noteq> []" "sp_close (specs ! idx) \<noteq> []"
        using assms(1) idx(1) by (auto simp: specs_ok_def)
      ultimately have "inline_loop specs (drop ?m pending) ?a (add_chunk c out) =
          map_option (\<lambda>(pending', active', out). (pending', active', add_chunk c out)) (inline_loop specs (drop ?m pending) ?a out)" for out
        by (intro less.hyps) (auto simp: active_ok_def simp flip: length_greater_0_conv)
      with None Some hit show ?thesis by (simp add: inline_loop.simps [of specs pending None] Let_def push_add)
    qed (simp add: None inline_loop.simps [of specs pending None] Let_def push_add)
  next
    case (Some a)
    show ?thesis
    proof (cases "find_str (ac_close a) pending")
      case close: (Some pos)
      then have "prefix (ac_close a) (drop pos pending)" by (simp add: find_str_Some_iff)
      with less.prems Some have "pos + length (ac_close a) \<le> length pending" "ac_close a \<noteq> []"
        by (auto simp: active_ok_def dest: prefix_drop_bound)
      then have "inline_loop specs (drop (pos + length (ac_close a)) pending) None (add_chunk c out) =
          map_option (\<lambda>(pending', active', out). (pending', active', add_chunk c out))
            (inline_loop specs (drop (pos + length (ac_close a)) pending) None out)" for out
        by (intro less.hyps) (auto simp: active_ok_def simp flip: length_greater_0_conv)
      with Some close show ?thesis by (simp add: inline_loop.simps [of specs pending "Some a"] push_add)
    qed (simp add: Some inline_loop.simps [of specs pending "Some a"] Let_def)
  qed
qed

definition inline_ready :: "'t InlineHiddenTagParser \<Rightarrow> bool" where
  "inline_ready p \<longleftrightarrow> specs_ok (ih_specs p) \<and> independent_opens (ih_specs p) \<and> active_ok (ih_active p)
     \<and> stable (ih_specs p) (ih_pending p) (ih_active p)"

lemma inline_push_total:
  assumes "inline_ready p"
  shows "\<exists>p' c. inline_push_str p s = Some (p', c) \<and> inline_ready p'"
  using assms loop_total [of "ih_specs p" "ih_active p" "ih_pending p @ s" default_chunk]
  by (auto simp: inline_ready_def inline_push_str_def)

lemma inline_push_append:
  assumes "inline_ready p" "inline_push_str p s = Some (p1, c1)" "inline_push_str p1 t = Some (p2, c2)"
  shows "inline_push_str p (s @ t) = Some (p2, add_chunk c1 c2)"
proof -
  let ?S = "ih_specs p"
  have ok: "specs_ok ?S" "independent_opens ?S" "active_ok (ih_active p)" using assms(1) by (auto simp: inline_ready_def)
  obtain pd ac where l1: "inline_loop ?S (ih_pending p @ s) (ih_active p) default_chunk = Some (pd, ac, c1)"
    "p1 = p\<lparr>ih_pending := pd, ih_active := ac\<rparr>"
    using assms(2) by (auto simp: inline_push_str_def)
  have "active_ok ac" using loop_total [OF ok(1,3), of "ih_pending p @ s" default_chunk] l1(1) by auto
  moreover obtain pd' ac' where "inline_loop ?S (pd @ t) ac default_chunk = Some (pd', ac', c2)"
    "p2 = p\<lparr>ih_pending := pd', ih_active := ac'\<rparr>"
    using assms(3) l1(2) by (auto simp: inline_push_str_def)
  ultimately show ?thesis
    using loop_append [OF ok, of "ih_pending p @ s" t default_chunk] l1(1) loop_add [OF ok(1), of ac "pd @ t" c1 default_chunk]
    by (simp add: inline_push_str_def)
qed

lemma inline_push_empty: "inline_ready p \<Longrightarrow> inline_push_str p [] = Some (p, default_chunk)"
  by (simp add: inline_ready_def inline_push_str_def loop_stable)

interpretation inline: stream_text_parser inline_ready inline_push_str inline_finish "\<lambda>x. [x]"
  using inline_push_total by unfold_locales (force simp: inline_push_empty dest: inline_push_append)+

lemma stable_initially: "specs_ok specs \<Longrightarrow> stable specs [] None"
  by (auto simp: specs_ok_def stable_def max_open_held held_len_le [of _ "[]", simplified] find_next_open_None_iff find_str_None_iff)

lemma inline_new_ready:
  "inline_new specs = Some p \<Longrightarrow> independent_opens specs \<Longrightarrow> inline_ready p"
  by (auto simp: inline_new_def inline_ready_def active_ok_def specs_ok_def list_ex_iff stable_initially split: if_splits)

section \<open>Citations\<close>

lemma contents_only_simps [simp]:
  "contents_only (add_chunk c d) = add_chunk (contents_only c) (contents_only d)"
  "contents_only default_chunk = default_chunk"
  by (simp_all add: contents_only_def add_chunk_def default_chunk_def)

interpretation citation: stream_text_parser inline_ready citation_push_str citation_finish "\<lambda>x. [x]"
  using inline_push_total by unfold_locales
    (force simp: citation_push_str_def inline_push_empty dest: inline_push_append)+

lemma citation_delimiters [simp]: "CITATION_OPEN \<noteq> []" "CITATION_CLOSE \<noteq> []"
  by (simp_all add: CITATION_OPEN_def CITATION_CLOSE_def lit_def)

text \<open>What a text with citations consists of: the text outside the tags and the contents of the tags, where a
  tag reaches to the first closing delimiter after its opening one, or to the end.\<close>

function split_citations :: "str \<Rightarrow> str \<times> str list" where
  "split_citations doc =
     (case find_str CITATION_OPEN doc of
        None \<Rightarrow> (doc, [])
      | Some i \<Rightarrow>
          let body = drop (i + length CITATION_OPEN) doc
          in case find_str CITATION_CLOSE body of
               None \<Rightarrow> (take i doc, [body])
             | Some j \<Rightarrow>
                 (case split_citations (drop (j + length CITATION_CLOSE) body) of
                    (v, cs) \<Rightarrow> (take i doc @ v, take j body # cs)))"
  by pat_completeness auto
termination
proof (relation "measure length")
  show "(drop (j + length CITATION_CLOSE) body, doc) \<in> measure length"
    if "find_str CITATION_OPEN doc = Some i" "body = drop (i + length CITATION_OPEN) doc" for doc i body j
  proof -
    have "length CITATION_OPEN = 18" by (simp add: CITATION_OPEN_def)
    with that prefix_drop_bound [of CITATION_OPEN i doc] show ?thesis by (auto simp: find_str_Some_iff)
  qed
qed simp

declare split_citations.simps [simp del]

lemma citation_specs_ok: "specs_ok citation_specs" "independent_opens citation_specs"
  by (simp_all add: specs_ok_def independent_opens_def citation_specs_def)

lemma citation_find: "find_next_open citation_specs s = map_option (\<lambda>i. (i, 0)) (find_str CITATION_OPEN s)"
  by (simp add: find_next_open_def open_positions_def citation_specs_def map_filter_def option.map_comp comp_def
      split: option.split)

definition close_off :: "str \<times> 't ActiveTag option \<times> 't ExtractedInlineTag StreamTextChunk \<Rightarrow> str \<times> str list" where
  "close_off = (\<lambda>(pending, active, out).
     (visible_text out @ (if active = None then pending else []),
      map ex_content (extracted out) @ (case active of None \<Rightarrow> [] | Some a \<Rightarrow> [ac_content a @ pending])))"

lemma citation_loop:
  "\<exists>st. inline_loop citation_specs doc None out = Some st
    \<and> close_off st = (visible_text out @ fst (split_citations doc), map ex_content (extracted out) @ snd (split_citations doc))"
proof (induction doc arbitrary: out rule: split_citations.induct)
  case (1 doc)
  show ?case
  proof (cases "find_str CITATION_OPEN doc")
    case None
    then show ?thesis
      by (simp add: inline_loop.simps [of citation_specs doc None] citation_find close_off_def push_visible_def Let_def
          split_citations.simps [of doc])
  next
    case (Some i)
    define body where "body = drop (i + length CITATION_OPEN) doc"
    let ?a = "\<lparr>ac_tag = Citation, ac_close = CITATION_CLOSE, ac_content = []\<rparr>"
    have only: "citation_specs ! 0 = \<lparr>sp_tag = Citation, sp_open = CITATION_OPEN, sp_close = CITATION_CLOSE\<rparr>"
      by (simp add: citation_specs_def)
    have first: "inline_loop citation_specs doc None out = inline_loop citation_specs body (Some ?a) (push_visible (take i doc) out)"
      using Some by (simp add: inline_loop.simps [of citation_specs doc None] citation_find Let_def only body_def)
    show ?thesis
    proof (cases "find_str CITATION_CLOSE body")
      case None
      with Some show ?thesis
        unfolding first
        by (simp add: inline_loop.simps [of citation_specs body "Some ?a"] close_off_def push_visible_def Let_def
            split_citations.simps [of doc] flip: body_def)
    next
      case close: (Some j)
      let ?rest = "drop (j + length CITATION_CLOSE) body"
      let ?out = "push_extracted \<lparr>ex_tag = Citation, ex_content = take j body\<rparr> (push_visible (take i doc) out)"
      have "inline_loop citation_specs body (Some ?a) (push_visible (take i doc) out) = inline_loop citation_specs ?rest None ?out"
        using close by (simp add: inline_loop.simps [of citation_specs body "Some ?a"])
      then show ?thesis
        using 1 [OF Some body_def close, of ?out] Some close unfolding first
        by (simp add: split_citations.simps [of doc] push_visible_def push_extracted_def split_def flip: body_def)
    qed
  qed
qed

lemma citation_new_ready: "\<exists>p. citation_new = Some p \<and> inline_ready p"
  using inline_new_ready [OF _ citation_specs_ok(2)]
  by (simp add: citation_new_def inline_new_def citation_specs_def)

lemma citation_collect_whole:
  assumes "citation_new = Some p"
  shows "collect citation_push_str citation_finish p [doc] =
    Some \<lparr>visible_text = fst (split_citations doc), extracted = snd (split_citations doc)\<rparr>"
proof -
  have p: "p = \<lparr>ih_specs = citation_specs, ih_pending = [], ih_active = None\<rparr>"
    using assms by (auto simp: citation_new_def inline_new_def split: if_splits)
  obtain pending active out where "inline_loop citation_specs doc None default_chunk = Some (pending, active, out)"
    "fst (split_citations doc) = fst (close_off (pending, active, out))"
    "snd (split_citations doc) = snd (close_off (pending, active, out))"
    using citation_loop [of doc default_chunk] by auto
  then show ?thesis
    by (auto simp: p collect_def citation_push_str_def inline_push_str_def citation_finish_def inline_finish_def
        contents_only_def close_off_def add_chunk_def push_visible_def push_extracted_def default_chunk_def split: option.split)
qed

end
