(* ===== verification/Stream_Lines.thy ===== *)
theory Stream_Lines
  imports Stream_Utf8
begin

text \<open>
  Blocks whose tags stand alone on a line: \<^verbatim>\<open>tagged_line_parser.rs\<close> and \<^verbatim>\<open>proposed_plan.rs\<close> of
  \<^verbatim>\<open>codex-rs/utils/stream-parser/src\<close>. The parser holds a line back while it may still be a tag. The lemmas compare
  it with a reading of the text line by line, through the sequence of events that the segments stand for: one event
  per character and per tag.
\<close>

section \<open>The line parser\<close>

record 't TagSpec =
  ts_open :: str
  ts_close :: str
  ts_tag :: 't

datatype 't TaggedLineSegment = Normal str | TagStart 't | TagDelta 't str | TagEnd 't

record 't TaggedLineParser =
  tl_specs :: "'t TagSpec list"
  tl_active_tag :: "'t option"
  tl_detect_tag :: bool
  tl_line_buffer :: str

definition tagged_line_new :: "'t TagSpec list \<Rightarrow> 't TaggedLineParser" where
  "tagged_line_new specs = \<lparr>tl_specs = specs, tl_active_tag = None, tl_detect_tag = True, tl_line_buffer = []\<rparr>"

fun push_segment :: "'t TaggedLineSegment list \<Rightarrow> 't TaggedLineSegment \<Rightarrow> 't TaggedLineSegment list" where
  "push_segment segments (Normal delta) =
     (if delta = [] then segments
      else case rev segments of
             Normal existing # rest \<Rightarrow> rev rest @ [Normal (existing @ delta)]
           | _ \<Rightarrow> segments @ [Normal delta])"
| "push_segment segments (TagDelta tag delta) =
     (if delta = [] then segments
      else case rev segments of
             TagDelta existing_tag existing # rest \<Rightarrow>
               if existing_tag = tag then rev rest @ [TagDelta tag (existing @ delta)]
               else segments @ [TagDelta tag delta]
           | _ \<Rightarrow> segments @ [TagDelta tag delta])"
| "push_segment segments (TagStart tag) = segments @ [TagStart tag]"
| "push_segment segments (TagEnd tag) = segments @ [TagEnd tag]"

definition push_text :: "'t TaggedLineParser \<Rightarrow> str \<Rightarrow> 't TaggedLineSegment list \<Rightarrow> 't TaggedLineSegment list" where
  "push_text p line segments =
     (case tl_active_tag p of
        Some tag \<Rightarrow> push_segment segments (TagDelta tag line)
      | None \<Rightarrow> push_segment segments (Normal line))"

definition is_tag_prefix :: "'t TagSpec list \<Rightarrow> str \<Rightarrow> bool" where
  "is_tag_prefix specs slug \<longleftrightarrow>
     list_ex (\<lambda>spec. starts_with (trim_end slug) (ts_open spec) \<or> starts_with (trim_end slug) (ts_close spec)) specs"

definition match_open :: "'t TagSpec list \<Rightarrow> str \<Rightarrow> 't option" where
  "match_open specs slug = map_option ts_tag (List.find (\<lambda>spec. ts_open spec = slug) specs)"

definition match_close :: "'t TagSpec list \<Rightarrow> str \<Rightarrow> 't option" where
  "match_close specs slug = map_option ts_tag (List.find (\<lambda>spec. ts_close spec = slug) specs)"

definition without_newline :: "str \<Rightarrow> str" where
  "without_newline line = (case strip_suffix [nl] line of Some l \<Rightarrow> l | None \<Rightarrow> line)"

definition finish_line ::
  "'t TaggedLineParser \<Rightarrow> 't TaggedLineSegment list \<Rightarrow> 't TaggedLineParser \<times> 't TaggedLineSegment list" where
  "finish_line p segments =
     (let line = tl_line_buffer p;
          slug = trim_end (trim_start (without_newline line));
          p = p\<lparr>tl_line_buffer := [], tl_detect_tag := True\<rparr>
      in case (match_open (tl_specs p) slug, tl_active_tag p, match_close (tl_specs p) slug) of
           (Some tag, None, _) \<Rightarrow> (p\<lparr>tl_active_tag := Some tag\<rparr>, push_segment segments (TagStart tag))
         | (_, Some active, Some tag) \<Rightarrow>
             if active = tag then (p\<lparr>tl_active_tag := None\<rparr>, push_segment segments (TagEnd tag))
             else (p, push_text p line segments)
         | _ \<Rightarrow> (p, push_text p line segments))"

definition parse_char ::
  "nat \<Rightarrow> 't TaggedLineParser \<times> 't TaggedLineSegment list \<times> str \<Rightarrow> 't TaggedLineParser \<times> 't TaggedLineSegment list \<times> str" where
  "parse_char ch = (\<lambda>(p, segments, run).
     if tl_detect_tag p then
       let segments = (if run \<noteq> [] then push_text p run segments else segments);
           p = p\<lparr>tl_line_buffer := tl_line_buffer p @ [ch]\<rparr>
       in if ch = nl then (case finish_line p segments of (p, segments) \<Rightarrow> (p, segments, []))
          else
            let slug = trim_start (tl_line_buffer p)
            in if slug = [] \<or> is_tag_prefix (tl_specs p) slug then (p, segments, [])
               else
                 let buffered = tl_line_buffer p; p = p\<lparr>tl_line_buffer := [], tl_detect_tag := False\<rparr>
                 in (p, push_text p buffered segments, [])
     else
       let run = run @ [ch]
       in if ch = nl then (p\<lparr>tl_detect_tag := True\<rparr>, push_text p run segments, []) else (p, segments, run))"

definition tagged_line_parse :: "'t TaggedLineParser \<Rightarrow> str \<Rightarrow> 't TaggedLineParser \<times> 't TaggedLineSegment list" where
  "tagged_line_parse p delta =
     (case fold parse_char delta (p, [], []) of
        (p, segments, run) \<Rightarrow> (p, if run \<noteq> [] then push_text p run segments else segments))"

definition tagged_line_finish :: "'t TaggedLineParser \<Rightarrow> 't TaggedLineParser \<times> 't TaggedLineSegment list" where
  "tagged_line_finish p =
     (let (p, segments) = (if tl_line_buffer p \<noteq> [] then finish_line p [] else (p, []));
          segments = (case tl_active_tag p of Some tag \<Rightarrow> push_segment segments (TagEnd tag) | None \<Rightarrow> segments)
      in (p\<lparr>tl_active_tag := None, tl_detect_tag := True\<rparr>, segments))"

section \<open>Proposed plans\<close>

datatype PlanTag = ProposedPlan

definition OPEN_TAG :: str where "OPEN_TAG = lit ''<proposed_plan>''"
definition CLOSE_TAG :: str where "CLOSE_TAG = lit ''</proposed_plan>''"

datatype ProposedPlanSegment =
  PlanNormal str | ProposedPlanStart | ProposedPlanDelta str | ProposedPlanEnd

type_synonym ProposedPlanParser = "PlanTag TaggedLineParser"

definition plan_specs :: "PlanTag TagSpec list" where
  "plan_specs = [\<lparr>ts_open = OPEN_TAG, ts_close = CLOSE_TAG, ts_tag = ProposedPlan\<rparr>]"

definition plan_new :: ProposedPlanParser where
  "plan_new = tagged_line_new plan_specs"

fun map_segment :: "PlanTag TaggedLineSegment \<Rightarrow> ProposedPlanSegment" where
  "map_segment (Normal t) = PlanNormal t"
| "map_segment (TagStart _) = ProposedPlanStart"
| "map_segment (TagDelta _ t) = ProposedPlanDelta t"
| "map_segment (TagEnd _) = ProposedPlanEnd"

definition map_segments :: "PlanTag TaggedLineSegment list \<Rightarrow> ProposedPlanSegment StreamTextChunk" where
  "map_segments segments =
     fold (\<lambda>segment out.
         let mapped = map_segment segment;
             out = (case mapped of PlanNormal t \<Rightarrow> out\<lparr>visible_text := visible_text out @ t\<rparr> | _ \<Rightarrow> out)
         in out\<lparr>extracted := extracted out @ [mapped]\<rparr>)
       segments default_chunk"

definition plan_push_str :: "ProposedPlanParser \<Rightarrow> str \<Rightarrow> ProposedPlanParser \<times> ProposedPlanSegment StreamTextChunk" where
  "plan_push_str p chunk = (case tagged_line_parse p chunk of (p, segments) \<Rightarrow> (p, map_segments segments))"

definition plan_finish :: "ProposedPlanParser \<Rightarrow> ProposedPlanParser \<times> ProposedPlanSegment StreamTextChunk" where
  "plan_finish p = (case tagged_line_finish p of (p, segments) \<Rightarrow> (p, map_segments segments))"

definition strip_proposed_plan_blocks :: "str \<Rightarrow> str" where
  "strip_proposed_plan_blocks s =
     (let (p, out) = plan_push_str plan_new s in visible_text out @ visible_text (snd (plan_finish p)))"

definition extract_proposed_plan_text :: "str \<Rightarrow> str option" where
  "extract_proposed_plan_text s =
     (let (p, out) = plan_push_str plan_new s;
          (saw_plan_block, plan_text) =
            fold (\<lambda>segment (saw, acc).
                case segment of
                  ProposedPlanStart \<Rightarrow> (True, [])
                | ProposedPlanDelta delta \<Rightarrow> (saw, acc @ delta)
                | ProposedPlanEnd \<Rightarrow> (saw, acc)
                | PlanNormal _ \<Rightarrow> (saw, acc))
              (extracted out @ extracted (snd (plan_finish p))) (False, [])
      in if saw_plan_block then Some plan_text else None)"

end
