(* ===== verification/Stream_Lines_Spec.thy ===== *)
theory Stream_Lines_Spec
  imports Stream_Lines
begin

text \<open>
  The line parser reads a text as its lines say, however the text is cut. First the segments are
  reduced to events and the parser to a machine that takes one character at a time; then a whole line is followed
  through the machine.
\<close>

section \<open>Events\<close>

datatype 't line_event = Char "'t option" nat | Begin 't | End 't

fun segment_events :: "'t TaggedLineSegment \<Rightarrow> 't line_event list" where
  "segment_events (Normal s) = map (Char None) s"
| "segment_events (TagDelta t s) = map (Char (Some t)) s"
| "segment_events (TagStart t) = [Begin t]"
| "segment_events (TagEnd t) = [End t]"

abbreviation events :: "'t TaggedLineSegment list \<Rightarrow> 't line_event list" where
  "events segments \<equiv> concat (map segment_events segments)"

lemma rev_Cons_eq: "rev xs = y # ys \<longleftrightarrow> xs = rev ys @ [y]"
  by (metis rev.simps(2) rev_rev_ident)

lemma push_segment_events [simp]: "events (push_segment segments seg) = events segments @ segment_events seg"
  by (cases seg) (auto simp: rev_Cons_eq split: list.split TaggedLineSegment.split)

declare push_segment.simps [simp del]

lemma push_text_events [simp]: "events (push_text p line segments) = events segments @ map (Char (tl_active_tag p)) line"
  by (simp add: push_text_def split: option.split)

section \<open>The machine\<close>

text \<open>The effect of a complete line: the events it stands for and the tag that is open after it.\<close>

definition line_effect :: "'t TagSpec list \<Rightarrow> 't option \<Rightarrow> str \<Rightarrow> 't line_event list \<times> 't option" where
  "line_effect specs active line =
     (let slug = trim line
      in case (match_open specs slug, active, match_close specs slug) of
           (Some tag, None, _) \<Rightarrow> ([Begin tag], Some tag)
         | (_, Some a, Some tag) \<Rightarrow> if a = tag then ([End tag], None) else (map (Char active) line, active)
         | _ \<Rightarrow> (map (Char active) line, active))"

definition kept :: "'t TagSpec list \<Rightarrow> str \<Rightarrow> bool" where
  "kept specs u \<longleftrightarrow> trim_start u = [] \<or> is_tag_prefix specs (trim_start u)"

definition machine :: "nat \<Rightarrow> 't TaggedLineParser \<times> 't line_event list \<Rightarrow> 't TaggedLineParser \<times> 't line_event list" where
  "machine ch = (\<lambda>(p, es).
     if tl_detect_tag p then
       let line = tl_line_buffer p @ [ch]
       in if ch = nl then
            (case line_effect (tl_specs p) (tl_active_tag p) line of
               (new, active) \<Rightarrow> (p\<lparr>tl_line_buffer := [], tl_active_tag := active\<rparr>, es @ new))
          else if kept (tl_specs p) line then (p\<lparr>tl_line_buffer := line\<rparr>, es)
          else (p\<lparr>tl_line_buffer := [], tl_detect_tag := False\<rparr>, es @ map (Char (tl_active_tag p)) line)
     else (p\<lparr>tl_detect_tag := ch = nl\<rparr>, es @ [Char (tl_active_tag p) ch]))"

lemma is_whitespace_nl [simp]: "is_whitespace nl"
  by (simp add: is_whitespace_def)

lemma trim_end_nl [simp]: "trim_end (s @ [nl]) = trim_end s"
  by (simp add: trim_end_def)

lemma trim_without_newline: "trim_end (trim_start (without_newline line)) = trim line"
proof (cases "strip_suffix [nl] line")
  case (Some l)
  then have "line = l @ [nl]" by (simp add: strip_suffix_Some_iff)
  with Some show ?thesis by (simp add: without_newline_def trim_alt flip: trim_def)
qed (simp add: without_newline_def trim_def)

lemma finish_line_effect:
  assumes "line_effect (tl_specs p) (tl_active_tag p) (tl_line_buffer p) = (new, active)"
    and "finish_line p segments = (p', segments')"
  shows "p' = p\<lparr>tl_line_buffer := [], tl_detect_tag := True, tl_active_tag := active\<rparr>" "events segments' = events segments @ new"
  using assms unfolding finish_line_def line_effect_def Let_def trim_without_newline
  by (auto split: option.splits if_splits)

lemma parse_char_machine:
  assumes "parse_char ch (p, segments, run) = (p', segments', run')"
  shows "machine ch (p, events segments @ map (Char (tl_active_tag p)) run) =
    (p', events segments' @ map (Char (tl_active_tag p')) run')"
proof (cases "tl_detect_tag p \<and> ch = nl")
  case True
  let ?p = "p\<lparr>tl_line_buffer := tl_line_buffer p @ [nl]\<rparr>"
  let ?segs = "if run \<noteq> [] then push_text p run segments else segments"
  obtain new active where eff: "line_effect (tl_specs p) (tl_active_tag p) (tl_line_buffer p @ [nl]) = (new, active)"
    by (cases "line_effect (tl_specs p) (tl_active_tag p) (tl_line_buffer p @ [nl])")
  have fin: "finish_line ?p ?segs = (p', segments')" "run' = []"
    using True assms by (auto simp: parse_char_def Let_def split: prod.splits)
  have "p' = p\<lparr>tl_line_buffer := [], tl_detect_tag := True, tl_active_tag := active\<rparr>"
    "events segments' = events segments @ map (Char (tl_active_tag p)) run @ new"
    using finish_line_effect [of ?p new active, OF _ fin(1)] eff by auto
  moreover have "p\<lparr>tl_line_buffer := [], tl_active_tag := active\<rparr> =
      p\<lparr>tl_line_buffer := [], tl_detect_tag := True, tl_active_tag := active\<rparr>"
    using True by (cases p) simp
  ultimately show ?thesis using True eff fin(2) by (simp add: machine_def)
next
  case False
  with assms show ?thesis
    by (auto simp: parse_char_def machine_def kept_def Let_def split: if_splits)
qed

lemma fold_parse_machine:
  "fold parse_char delta (p, segments, run) = (p', segments', run') \<Longrightarrow>
   fold machine delta (p, events segments @ map (Char (tl_active_tag p)) run) =
     (p', events segments' @ map (Char (tl_active_tag p')) run')"
proof (induction delta arbitrary: p segments run)
  case (Cons ch delta)
  obtain p1 s1 r1 where 1: "parse_char ch (p, segments, run) = (p1, s1, r1)" by (metis prod_cases3)
  with Cons show ?case by (simp add: parse_char_machine [OF 1])
qed simp

lemma parse_machine:
  "fold machine delta (p, []) = (fst (tagged_line_parse p delta), events (snd (tagged_line_parse p delta)))"
proof -
  obtain p' s r where f: "fold parse_char delta (p, [], []) = (p', s, r)" by (metis prod_cases3)
  from fold_parse_machine [OF this] show ?thesis by (simp add: tagged_line_parse_def f)
qed

lemma machine_events: "machine ch (p, es) = (fst (machine ch (p, [])), es @ snd (machine ch (p, [])))"
  by (simp add: machine_def Let_def split_def)

lemma fold_machine_events:
  "fold machine delta (p, es) = (fst (fold machine delta (p, [])), es @ snd (fold machine delta (p, [])))"
proof (induction delta arbitrary: p es)
  case (Cons ch delta)
  obtain p1 e1 where 1: "machine ch (p, []) = (p1, e1)" by (cases "machine ch (p, [])")
  then have "machine ch (p, es) = (p1, es @ e1)" by (simp add: machine_events [of ch p es])
  with 1 Cons.IH [of p1 "es @ e1"] Cons.IH [of p1 e1] show ?case by simp
qed simp

lemma parse_append:
  assumes "tagged_line_parse p s = (p1, s1)" "tagged_line_parse p1 t = (p2, s2)"
  shows "fst (tagged_line_parse p (s @ t)) = p2 \<and> events (snd (tagged_line_parse p (s @ t))) = events s1 @ events s2"
  using parse_machine [of "s @ t" p] parse_machine [of s p] parse_machine [of t p1] fold_machine_events [of t p1 "events s1"] assms
  by simp

section \<open>Whole lines\<close>

lemma trim_start_prefix: "prefix u w \<Longrightarrow> prefix (trim_start u) (trim_start w)"
  by (auto simp: prefix_def trim_start_def dropWhile_append) (metis append_Nil dropWhile_eq_Nil_conv)

lemma trim_end_append: "trim_end (s @ t) = (if trim_end t = [] then trim_end s else s @ trim_end t)"
  by (auto simp: trim_end_def dropWhile_append)

lemma trim_end_prefix: "prefix (trim_end s) s"
  by (simp add: trim_end_def prefix_def) (metis rev_append rev_rev_ident takeWhile_dropWhile_id)

lemma trim_prefix: "prefix u w \<Longrightarrow> prefix (trim u) (trim w)"
proof -
  assume "prefix u w"
  then obtain t where t: "trim_start w = trim_start u @ t" using trim_start_prefix by (blast elim: prefixE)
  show ?thesis
    unfolding trim_def t trim_end_append by (simp add: trim_end_prefix prefix_prefix)
qed

text \<open>A line that is a tag is held back to its end.\<close>

lemma kept_prefix:
  assumes "match_open specs (trim w) \<noteq> None \<or> match_close specs (trim w) \<noteq> None" and "prefix u w"
  shows "kept specs u"
proof -
  obtain spec where "spec \<in> set specs" "trim w = ts_open spec \<or> trim w = ts_close spec"
    using assms(1) by (auto simp: match_open_def match_close_def find_None_iff)
  with trim_prefix [OF assms(2)] show ?thesis
    unfolding kept_def is_tag_prefix_def trim_def by (auto simp: list_ex_iff starts_with_iff)
qed

definition at_line :: "'t TagSpec list \<Rightarrow> 't option \<Rightarrow> 't TaggedLineParser" where
  "at_line specs active = \<lparr>tl_specs = specs, tl_active_tag = active, tl_detect_tag = True, tl_line_buffer = []\<rparr>"

lemma partial_line:
  assumes "nl \<notin> set w"
  shows "fold machine w (at_line specs active, []) =
    (if \<forall>u. prefix u w \<and> u \<noteq> [] \<longrightarrow> kept specs u then ((at_line specs active)\<lparr>tl_line_buffer := w\<rparr>, [])
     else ((at_line specs active)\<lparr>tl_detect_tag := False\<rparr>, map (Char active) w))"
  using assms
proof (induction w rule: rev_induct)
  case Nil
  show ?case by (simp add: at_line_def)
next
  case (snoc c w)
  have "(\<forall>u. prefix u (w @ [c]) \<and> u \<noteq> [] \<longrightarrow> kept specs u) \<longleftrightarrow>
      (\<forall>u. prefix u w \<and> u \<noteq> [] \<longrightarrow> kept specs u) \<and> kept specs (w @ [c])"
    by (auto simp: prefix_snoc)
  with snoc show ?case by (auto simp: machine_def at_line_def Let_def)
qed

lemma plain_line:
  assumes "\<not> kept specs u" "prefix u w"
  shows "line_effect specs active w = (map (Char active) w, active)"
proof -
  have "match_open specs (trim w) = None" "match_close specs (trim w) = None" using kept_prefix assms by blast+
  then show ?thesis by (simp add: line_effect_def split: option.split)
qed

lemma full_line:
  assumes "nl \<notin> set w"
  shows "fold machine (w @ [nl]) (at_line specs active, []) =
    (case line_effect specs active (w @ [nl]) of (new, active') \<Rightarrow> (at_line specs active', new))"
proof (cases "\<forall>u. prefix u w \<and> u \<noteq> [] \<longrightarrow> kept specs u")
  case True
  then show ?thesis
    using partial_line [OF assms, of specs active] by (simp add: machine_def at_line_def Let_def split: prod.split)
next
  case False
  then obtain u where u: "prefix u (w @ [nl])" "\<not> kept specs u" by (auto simp: prefix_snoc)
  show ?thesis unfolding plain_line [OF u(2,1)] using partial_line [OF assms, of specs active] False
    by (simp add: machine_def at_line_def)
qed

text \<open>The text line by line: each line with its newline, the last one perhaps without.\<close>

fun split_lines :: "str \<Rightarrow> str list" where
  "split_lines [] = []"
| "split_lines (c # cs) =
     (if c = nl then [nl] # split_lines cs
      else case split_lines cs of [] \<Rightarrow> [[c]] | l # ls \<Rightarrow> (c # l) # ls)"

fun block_events :: "'t TagSpec list \<Rightarrow> 't option \<Rightarrow> str list \<Rightarrow> 't line_event list" where
  "block_events specs None [] = []"
| "block_events specs (Some tag) [] = [End tag]"
| "block_events specs active (l # ls) =
     (case line_effect specs active l of (new, active') \<Rightarrow> new @ block_events specs active' ls)"

lemma split_lines_full: "nl \<notin> set w \<Longrightarrow> split_lines (w @ nl # s) = (w @ [nl]) # split_lines s"
  by (induction w) auto

lemma split_lines_partial: "nl \<notin> set w \<Longrightarrow> w \<noteq> [] \<Longrightarrow> split_lines w = [w]"
proof (induction w)
  case (Cons c w)
  then show ?case by (cases w) auto
qed simp

lemma finish_partial:
  assumes "nl \<notin> set w"
  shows "case fold machine w (at_line specs active, []) of (p, es) \<Rightarrow>
    es @ events (snd (tagged_line_finish p)) = block_events specs active (split_lines w)"
proof (cases "w = []")
  case True
  then show ?thesis by (cases active) (simp_all add: at_line_def tagged_line_finish_def)
next
  case False
  have rest: "block_events specs a [] = (case a of None \<Rightarrow> [] | Some t \<Rightarrow> [End t])" for a :: "'a option"
    by (cases a) auto
  show ?thesis
  proof (cases "\<forall>u. prefix u w \<and> u \<noteq> [] \<longrightarrow> kept specs u")
    case True
    let ?p = "(at_line specs active)\<lparr>tl_line_buffer := w\<rparr>"
    obtain new active' where eff: "line_effect specs active w = (new, active')" by (cases "line_effect specs active w")
    obtain p' segs where fin: "finish_line ?p [] = (p', segs)" by (cases "finish_line ?p []")
    have "tl_active_tag p' = active'" "events segs = new"
      using finish_line_effect [of ?p new active', OF _ fin] eff by (simp_all add: at_line_def)
    then have "events (snd (tagged_line_finish ?p)) = new @ block_events specs active' []"
      using fin False by (auto simp: tagged_line_finish_def rest split: option.split)
    then show ?thesis
      using partial_line [OF assms, of specs active] True False eff assms by (simp add: split_lines_partial)
  next
    case plain: False
    then obtain u where u: "prefix u w" "\<not> kept specs u" by auto
    have "events (snd (tagged_line_finish ((at_line specs active)\<lparr>tl_detect_tag := False\<rparr>))) = block_events specs active []"
      by (simp add: tagged_line_finish_def at_line_def rest split: option.split)
    then show ?thesis
      using partial_line [OF assms, of specs active] False plain plain_line [OF u(2,1), of active] assms
      by (simp add: split_lines_partial)
  qed
qed

lemma machine_reads_lines:
  "case fold machine s (at_line specs active, []) of (p, es) \<Rightarrow>
     es @ events (snd (tagged_line_finish p)) = block_events specs active (split_lines s)"
proof (induction "length s" arbitrary: s active rule: less_induct)
  case less
  show ?case
  proof (cases "nl \<in> set s")
    case False
    then show ?thesis by (rule finish_partial)
  next
    case True
    then obtain w t where s: "s = w @ nl # t" "nl \<notin> set w" by (meson split_list_first)
    obtain new active' where eff: "line_effect specs active (w @ [nl]) = (new, active')"
      by (cases "line_effect specs active (w @ [nl])")
    have "fold machine s (at_line specs active, []) = fold machine t (fold machine (w @ [nl]) (at_line specs active, []))"
      by (simp add: s)
    also have "\<dots> = fold machine t (at_line specs active', new)"
      using full_line [OF s(2), of specs active] eff by simp
    finally have "fold machine s (at_line specs active, []) =
        (fst (fold machine t (at_line specs active', [])), new @ snd (fold machine t (at_line specs active', [])))"
      by (simp add: fold_machine_events [of t _ new])
    moreover have "split_lines s = (w @ [nl]) # split_lines t" using s split_lines_full by simp
    ultimately show ?thesis using less [of t active'] s eff by (auto simp: split_def)
  qed
qed

section \<open>Plans\<close>

fun plan_segment_events :: "ProposedPlanSegment \<Rightarrow> PlanTag line_event list" where
  "plan_segment_events (PlanNormal s) = map (Char None) s"
| "plan_segment_events ProposedPlanStart = [Begin ProposedPlan]"
| "plan_segment_events (ProposedPlanDelta s) = map (Char (Some ProposedPlan)) s"
| "plan_segment_events ProposedPlanEnd = [End ProposedPlan]"

definition shown :: "'t line_event list \<Rightarrow> str" where
  "shown es = List.map_filter (\<lambda>e. case e of Char None c \<Rightarrow> Some c | _ \<Rightarrow> None) es"

lemma shown_simps [simp]:
  "shown [] = []"
  "shown (es @ fs) = shown es @ shown fs"
  "shown (map (Char None) s) = s"
  "shown (map (Char (Some t)) s) = []"
  "shown (Begin t # es) = shown es"
  "shown (End t # es) = shown es"
  by (simp_all add: shown_def map_filter_def comp_def)

lemma plan_tag_eq: "ProposedPlan = t"
  by (cases t) simp

lemma plan_segment_events_map [simp]: "plan_segment_events (map_segment seg) = segment_events seg"
  by (cases seg) (simp_all add: plan_tag_eq)

lemma map_segments_alt:
  "map_segments segments = \<lparr>visible_text = shown (events segments), extracted = map map_segment segments\<rparr>"
proof -
  have "fold (\<lambda>segment out.
         let mapped = map_segment segment;
             out = (case mapped of PlanNormal t \<Rightarrow> out\<lparr>visible_text := visible_text out @ t\<rparr> | _ \<Rightarrow> out)
         in out\<lparr>extracted := extracted out @ [mapped]\<rparr>) segments out =
      add_chunk out \<lparr>visible_text = shown (events segments), extracted = map map_segment segments\<rparr>" for out
  proof (induction segments arbitrary: out)
    case (Cons seg segments)
    then show ?case by (cases seg) (simp_all add: Let_def add_chunk_def)
  qed (simp add: add_chunk_def)
  then show ?thesis by (simp add: map_segments_def)
qed

lemma observed_map_segments: "observed plan_segment_events (map_segments segments) = (shown (events segments), events segments)"
  by (simp add: map_segments_alt observed_def comp_def)

lemma plan_push_append:
  assumes "plan_push_str p s = (p1, c1)" "plan_push_str p1 t = (p2, c2)"
  shows "\<exists>c. plan_push_str p (s @ t) = (p2, c)
    \<and> observed plan_segment_events c = join_observed (observed plan_segment_events c1) (observed plan_segment_events c2)"
  using assms parse_append [of p s p1 _ t p2]
  by (fastforce simp: plan_push_str_def observed_map_segments join_observed_def split: prod.splits)

interpretation plan: stream_text_parser "\<lambda>_. True" "\<lambda>p s. Some (plan_push_str p s)" plan_finish plan_segment_events
proof unfold_locales
  show "\<exists>p' c. Some (plan_push_str p s) = Some (p', c) \<and> True" for p s by (cases "plan_push_str p s") simp
  show "Some (plan_push_str p []) = Some (p, default_chunk)" for p
    by (simp add: plan_push_str_def tagged_line_parse_def map_segments_def)
qed (use plan_push_append in fastforce)

lemma plan_collect_whole:
  "\<exists>c. collect (\<lambda>p s. Some (plan_push_str p s)) plan_finish plan_new [s] = Some c
    \<and> observed plan_segment_events c = (shown (block_events plan_specs None (split_lines s)), block_events plan_specs None (split_lines s))"
proof -
  obtain p segs where p: "tagged_line_parse plan_new s = (p, segs)" by (cases "tagged_line_parse plan_new s")
  obtain p' segs' where p': "tagged_line_finish p = (p', segs')" by (cases "tagged_line_finish p")
  have "plan_new = at_line plan_specs None" by (simp add: plan_new_def tagged_line_new_def at_line_def)
  then have "events segs @ events segs' = block_events plan_specs None (split_lines s)"
    using machine_reads_lines [where s = s and specs = plan_specs and active = None] parse_machine [of s plan_new] p p' by simp
  then show ?thesis
    using p p' by (simp add: collect_def plan_push_str_def plan_finish_def observed_map_segments join_observed_def flip: shown_simps(2))
qed

end
