(* ===== verification/Stream_Assistant.thy ===== *)
theory Stream_Assistant
  imports Stream_Split Stream_Lines_Spec
begin

text \<open>
  The parser of the assistant's text, \<^verbatim>\<open>codex-rs/utils/stream-parser/src/assistant_text.rs\<close>: citations are taken out of the
  stream, and in plan mode the text that remains goes through the parser of proposed plans. It composes two parsers
  of the trait, and its result is the composition of what they compute on whole texts.
\<close>

record AssistantTextChunk =
  at_visible_text :: str
  at_citations :: "str list"
  at_plan_segments :: "ProposedPlanSegment list"

definition default_assistant_chunk :: AssistantTextChunk where
  "default_assistant_chunk = \<lparr>at_visible_text = [], at_citations = [], at_plan_segments = []\<rparr>"

definition assistant_chunk_is_empty :: "AssistantTextChunk \<Rightarrow> bool" where
  "assistant_chunk_is_empty c \<longleftrightarrow> at_visible_text c = [] \<and> at_citations c = [] \<and> at_plan_segments c = []"

record AssistantTextStreamParser =
  as_plan_mode :: bool
  as_citations :: CitationStreamParser
  as_plan :: ProposedPlanParser

definition assistant_new :: "bool \<Rightarrow> AssistantTextStreamParser option" where
  "assistant_new plan_mode =
     map_option (\<lambda>citations. \<lparr>as_plan_mode = plan_mode, as_citations = citations, as_plan = plan_new\<rparr>) citation_new"

definition parse_visible_text ::
  "AssistantTextStreamParser \<Rightarrow> str \<Rightarrow> AssistantTextStreamParser \<times> AssistantTextChunk" where
  "parse_visible_text p s =
     (if \<not> as_plan_mode p then (p, default_assistant_chunk\<lparr>at_visible_text := s\<rparr>)
      else case plan_push_str (as_plan p) s of
             (plan, plan_chunk) \<Rightarrow>
               (p\<lparr>as_plan := plan\<rparr>,
                default_assistant_chunk\<lparr>at_visible_text := visible_text plan_chunk, at_plan_segments := extracted plan_chunk\<rparr>))"

definition assistant_push_str ::
  "AssistantTextStreamParser \<Rightarrow> str \<Rightarrow> (AssistantTextStreamParser \<times> AssistantTextChunk) option" where
  "assistant_push_str p chunk =
     map_option (\<lambda>(citations, citation_chunk).
         case parse_visible_text (p\<lparr>as_citations := citations\<rparr>) (visible_text citation_chunk) of
           (p', out) \<Rightarrow> (p', out\<lparr>at_citations := extracted citation_chunk\<rparr>))
       (citation_push_str (as_citations p) chunk)"

definition assistant_finish :: "AssistantTextStreamParser \<Rightarrow> AssistantTextStreamParser \<times> AssistantTextChunk" where
  "assistant_finish p =
     (case citation_finish (as_citations p) of
        (citations, citation_chunk) \<Rightarrow>
          (case parse_visible_text (p\<lparr>as_citations := citations\<rparr>) (visible_text citation_chunk) of
             (p1, out) \<Rightarrow>
               let (p2, out) =
                 (if as_plan_mode p1 then
                    (case plan_finish (as_plan p1) of
                       (plan, tail) \<Rightarrow>
                         (p1\<lparr>as_plan := plan\<rparr>,
                          if chunk_is_empty tail then out
                          else out\<lparr>at_visible_text := at_visible_text out @ visible_text tail,
                                   at_plan_segments := at_plan_segments out @ extracted tail\<rparr>))
                  else (p1, out))
               in (p2, out\<lparr>at_citations := extracted citation_chunk\<rparr>)))"

definition add_assistant_chunk :: "AssistantTextChunk \<Rightarrow> AssistantTextChunk \<Rightarrow> AssistantTextChunk" where
  "add_assistant_chunk c d =
     \<lparr>at_visible_text = at_visible_text c @ at_visible_text d, at_citations = at_citations c @ at_citations d,
      at_plan_segments = at_plan_segments c @ at_plan_segments d\<rparr>"

fun assistant_feed ::
  "AssistantTextStreamParser \<Rightarrow> str list \<Rightarrow> (AssistantTextStreamParser \<times> AssistantTextChunk) option" where
  "assistant_feed p [] = Some (p, default_assistant_chunk)"
| "assistant_feed p (s # ss) =
     (case assistant_push_str p s of
        None \<Rightarrow> None
      | Some (p1, c1) \<Rightarrow>
          (case assistant_feed p1 ss of None \<Rightarrow> None | Some (p2, c2) \<Rightarrow> Some (p2, add_assistant_chunk c1 c2)))"

definition assistant_collect :: "AssistantTextStreamParser \<Rightarrow> str list \<Rightarrow> AssistantTextChunk option" where
  "assistant_collect p ss =
     (case assistant_feed p ss of None \<Rightarrow> None | Some (p', c) \<Rightarrow> Some (add_assistant_chunk c (snd (assistant_finish p'))))"

section \<open>The two parsers in a row\<close>

text \<open>The visible texts that the citation parser answers with are the pieces that the plan parser is fed.\<close>

fun visible_pieces :: "CitationStreamParser \<Rightarrow> str list \<Rightarrow> str list" where
  "visible_pieces q [] = []"
| "visible_pieces q (s # ss) =
     (case citation_push_str q s of None \<Rightarrow> [] | Some (q1, c) \<Rightarrow> visible_text c # visible_pieces q1 ss)"

lemma visible_pieces_concat:
  "feed citation_push_str q ss = Some (q', c) \<Longrightarrow> concat (visible_pieces q ss) = visible_text c"
  by (induction ss arbitrary: q c) (auto split: option.splits)

abbreviation plan_feed :: "ProposedPlanParser \<Rightarrow> str list \<Rightarrow> (ProposedPlanParser \<times> ProposedPlanSegment StreamTextChunk) option" where
  "plan_feed \<equiv> feed (\<lambda>p s. Some (plan_push_str p s))"

lemma assistant_feed_stages:
  assumes "feed citation_push_str (as_citations p) ss = Some (q, c)"
    and "plan_feed (as_plan p) (visible_pieces (as_citations p) ss) = Some (r, d)"
  shows "assistant_feed p ss = Some
    (if as_plan_mode p
     then (p\<lparr>as_citations := q, as_plan := r\<rparr>,
           \<lparr>at_visible_text = visible_text d, at_citations = extracted c, at_plan_segments = extracted d\<rparr>)
     else (p\<lparr>as_citations := q\<rparr>, \<lparr>at_visible_text = visible_text c, at_citations = extracted c, at_plan_segments = []\<rparr>))"
  using assms
proof (induction ss arbitrary: p c d r)
  case Nil
  then show ?case by (auto simp: default_assistant_chunk_def)
next
  case (Cons s ss)
  obtain q1 c1 where 1: "citation_push_str (as_citations p) s = Some (q1, c1)"
    using Cons.prems(1) by (auto split: option.splits)
  obtain c2 where 2: "feed citation_push_str q1 ss = Some (q, c2)" "c = add_chunk c1 c2"
    using Cons.prems(1) 1 by (auto split: option.splits)
  obtain r1 d1 where 3: "plan_push_str (as_plan p) (visible_text c1) = (r1, d1)" by fastforce
  obtain d2 where 4: "plan_feed r1 (visible_pieces q1 ss) = Some (r, d2)" "d = add_chunk d1 d2"
    using Cons.prems(2) 1 3 by (auto split: option.splits)
  show ?case
  proof (cases "as_plan_mode p")
    case True
    have "assistant_feed (p\<lparr>as_citations := q1, as_plan := r1\<rparr>) ss = Some (p\<lparr>as_citations := q, as_plan := r\<rparr>,
        \<lparr>at_visible_text = visible_text d2, at_citations = extracted c2, at_plan_segments = extracted d2\<rparr>)"
      using Cons.IH [of "p\<lparr>as_citations := q1, as_plan := r1\<rparr>" c2 r d2] 2 4 True by simp
    with True 1 2 3 4 show ?thesis
      by (simp add: assistant_push_str_def parse_visible_text_def add_assistant_chunk_def default_assistant_chunk_def)
  next
    case False
    obtain r' d' where "plan_feed (as_plan p) (visible_pieces q1 ss) = Some (r', d')"
      using plan.feed_concat by blast
    then have "assistant_feed (p\<lparr>as_citations := q1\<rparr>) ss = Some (p\<lparr>as_citations := q\<rparr>,
        \<lparr>at_visible_text = visible_text c2, at_citations = extracted c2, at_plan_segments = []\<rparr>)"
      using Cons.IH [of "p\<lparr>as_citations := q1\<rparr>" c2 r' d'] 2 False by simp
    with False 1 2 show ?thesis
      by (simp add: assistant_push_str_def parse_visible_text_def add_assistant_chunk_def default_assistant_chunk_def)
  qed
qed

lemma feed_snoc:
  "feed push p (ss @ [s]) =
     (case feed push p ss of
        None \<Rightarrow> None
      | Some (p1, c1) \<Rightarrow> (case push p1 s of None \<Rightarrow> None | Some (p2, c2) \<Rightarrow> Some (p2, add_chunk c1 c2)))"
  by (induction ss arbitrary: p) (auto split: option.splits)

lemma citation_collect:
  assumes "citation_new = Some q"
  shows "collect citation_push_str citation_finish q ss =
    Some \<lparr>visible_text = fst (split_citations (concat ss)), extracted = snd (split_citations (concat ss))\<rparr>"
proof -
  have "inline_ready q" using citation_new_ready assms by (metis option.inject)
  from citation.collect_concat [OF this, of ss] obtain c where
    c: "collect citation_push_str citation_finish q ss = Some c"
      "observed (\<lambda>x. [x]) c = observed (\<lambda>x. [x])
        \<lparr>visible_text = fst (split_citations (concat ss)), extracted = snd (split_citations (concat ss))\<rparr>"
    using citation_collect_whole [OF assms] by auto
  have concat_single: "concat (map (\<lambda>x. [x]) xs) = xs" for xs :: "str list" by (induction xs) auto
  from c show ?thesis by (cases c; cases "split_citations (concat ss)") (simp add: observed_def concat_single)
qed

lemma plan_collect:
  "\<exists>c. collect (\<lambda>p s. Some (plan_push_str p s)) plan_finish plan_new ss = Some c
    \<and> observed plan_segment_events c =
      (shown (block_events plan_specs None (split_lines (concat ss))), block_events plan_specs None (split_lines (concat ss)))"
  using plan.collect_concat [of plan_new ss] plan_collect_whole [of "concat ss"] by auto

text \<open>Plan segments and visible text of the whole stream.\<close>

lemma assistant_collect_stages:
  assumes "assistant_new plan_mode = Some p"
    and t_def: "t = fst (split_citations (concat ss))"
  shows "\<exists>c. assistant_collect p ss = Some c \<and> at_citations c = snd (split_citations (concat ss))
    \<and> (if plan_mode
       then (at_visible_text c, concat (map plan_segment_events (at_plan_segments c))) =
              (shown (block_events plan_specs None (split_lines t)), block_events plan_specs None (split_lines t))
       else (at_visible_text c, at_plan_segments c) = (t, []))"
proof -
  obtain q where q: "citation_new = Some q" "p = \<lparr>as_plan_mode = plan_mode, as_citations = q, as_plan = plan_new\<rparr>"
    using assms(1) by (auto simp: assistant_new_def)
  obtain q' c where c: "feed citation_push_str q ss = Some (q', c)"
    using citation_collect [OF q(1), of ss] by (auto simp: collect_def split: option.splits)
  obtain q'' tail where tail: "citation_finish q' = (q'', tail)" by fastforce
  have all: "add_chunk c tail = \<lparr>visible_text = t, extracted = snd (split_citations (concat ss))\<rparr>"
    using citation_collect [OF q(1), of ss] c tail by (simp add: collect_def t_def)
  let ?pieces = "visible_pieces q ss"
  obtain r d where d: "plan_feed plan_new ?pieces = Some (r, d)" using plan.feed_concat by blast
  note fed = assistant_feed_stages [of p ss q' c r d, unfolded q(2), simplified, OF c d]
  have vis: "concat (?pieces @ [visible_text tail]) = t"
    using visible_pieces_concat [OF c] arg_cong [OF all, of visible_text] by simp
  have cit: "extracted c @ extracted tail = snd (split_citations (concat ss))"
    using arg_cong [OF all, of extracted] by simp
  show ?thesis
  proof (cases plan_mode)
    case False
    with fed tail cit arg_cong [OF all, of visible_text] show ?thesis
      by (simp add: q(2) assistant_collect_def assistant_finish_def parse_visible_text_def add_assistant_chunk_def
          default_assistant_chunk_def)
  next
    case True
    obtain r1 d1 where d1: "plan_push_str r (visible_text tail) = (r1, d1)" by fastforce
    obtain r2 d2 where d2: "plan_finish r1 = (r2, d2)" by fastforce
    have "collect (\<lambda>p s. Some (plan_push_str p s)) plan_finish plan_new (?pieces @ [visible_text tail]) =
        Some (add_chunk d (add_chunk d1 d2))"
      using d d1 d2 by (simp add: collect_def feed_snoc)
    with plan_collect [of "?pieces @ [visible_text tail]"] have "observed plan_segment_events (add_chunk d (add_chunk d1 d2)) =
        (shown (block_events plan_specs None (split_lines t)), block_events plan_specs None (split_lines t))"
      unfolding vis by simp
    with fed tail cit True d1 d2 show ?thesis
      by (auto simp: q(2) assistant_collect_def assistant_finish_def parse_visible_text_def add_assistant_chunk_def
          default_assistant_chunk_def observed_def join_observed_def chunk_is_empty_def Let_def)
  qed
qed

end
