(* ===== verification/Stream_Properties.thy ===== *)
theory Stream_Properties
  imports Stream_Assistant
begin

text \<open>
  What the incremental parsers of \<^verbatim>\<open>codex-rs/utils/stream-parser/src\<close> promise: the pieces in which a text or its
  bytes arrive do not matter, and the result is what reading the whole text gives.
\<close>

section \<open>The helpers on whole texts\<close>

lemma strip_citations_whole: "strip_citations s = Some (split_citations s)"
proof -
  obtain q where q: "citation_new = Some q" using citation_new_ready by blast
  from citation_collect_whole [OF q, of s] show ?thesis
    by (auto simp: strip_citations_def q collect_def add_chunk_def default_chunk_def split: option.splits prod.splits)
qed

lemma strip_proposed_plan_blocks_whole:
  "strip_proposed_plan_blocks s = shown (block_events plan_specs None (split_lines s))"
proof -
  obtain p out where p: "plan_push_str plan_new s = (p, out)" by fastforce
  with plan_collect_whole [of s] show ?thesis
    by (auto simp: strip_proposed_plan_blocks_def collect_def observed_def join_observed_def)
qed

text \<open>The text of the last plan, from the events.\<close>

definition plan_step :: "PlanTag line_event \<Rightarrow> str option \<Rightarrow> str option" where
  "plan_step e acc = (case e of
       Begin _ \<Rightarrow> Some []
     | Char (Some _) c \<Rightarrow> map_option (\<lambda>t. t @ [c]) acc
     | _ \<Rightarrow> acc)"

lemma plan_step_simps [simp]:
  "plan_step (Begin t) acc = Some []"
  "plan_step (End t) acc = acc"
  "plan_step (Char None c) acc = acc"
  "plan_step (Char (Some t) c) acc = map_option (\<lambda>t. t @ [c]) acc"
  by (simp_all add: plan_step_def)

lemma plan_step_text:
  "fold plan_step (map (Char (Some t)) s) acc = map_option (\<lambda>a. a @ s) acc"
  "fold plan_step (map (Char None) s) acc = acc"
  by (induction s arbitrary: acc) (auto simp: option.map_comp comp_def option.map_ident)

lemma extract_fold:
  "fold (\<lambda>segment (saw, acc).
      case segment of
        ProposedPlanStart \<Rightarrow> (True, [])
      | ProposedPlanDelta delta \<Rightarrow> (saw, acc @ delta)
      | ProposedPlanEnd \<Rightarrow> (saw, acc)
      | PlanNormal _ \<Rightarrow> (saw, acc)) segments (saw, acc) = (saw', acc') \<Longrightarrow>
   (if saw' then Some acc' else None) =
     fold plan_step (concat (map plan_segment_events segments)) (if saw then Some acc else None)"
proof (induction segments arbitrary: saw acc)
  case (Cons seg segments)
  then show ?case by (cases seg) (auto simp: plan_step_text)
qed auto

lemma extract_proposed_plan_text_whole:
  "extract_proposed_plan_text s = fold plan_step (block_events plan_specs None (split_lines s)) None"
proof -
  obtain p out where p: "plan_push_str plan_new s = (p, out)" by fastforce
  let ?segs = "extracted out @ extracted (snd (plan_finish p))"
  have "concat (map plan_segment_events ?segs) = block_events plan_specs None (split_lines s)"
    using plan_collect_whole [of s] p by (auto simp: collect_def observed_def join_observed_def)
  then show ?thesis
    using extract_fold [of ?segs False "[]"] unfolding extract_proposed_plan_text_def p
    by (simp del: fold_append concat_append map_append split: prod.split)
qed

section \<open>Properties\<close>

text \<open>C30: However the assistant's text is cut into pieces, the parser always answers, and the answers together are those
  for the whole text: the citations are the contents of its citation tags, in order; outside plan mode the
  visible text is the text without them; in plan mode that text is read line by line, a line that is a plan tag opens
  or closes a plan, the plan segments carry its characters in order, and the visible text is what lies outside plans.\<close>

theorem streamed_assistant_text_is_that_of_whole_text:
  "\<exists>p c. assistant_new plan_mode = Some p \<and> assistant_collect p ss = Some c
    \<and> at_citations c = snd (split_citations (concat ss))
    \<and> (let rest = fst (split_citations (concat ss)); es = block_events plan_specs None (split_lines rest)
       in if plan_mode then concat (map plan_segment_events (at_plan_segments c)) = es \<and> at_visible_text c = shown es
          else at_visible_text c = rest \<and> at_plan_segments c = [])"
proof -
  obtain q where "citation_new = Some q" using citation_new_ready by blast
  then obtain p where p: "assistant_new plan_mode = Some p" by (auto simp: assistant_new_def)
  from assistant_collect_stages [OF this refl, of ss] show ?thesis
    by (auto simp: p Let_def split: if_splits)
qed

text \<open>C31: Bytes of a stream with citations are decoded as a whole, however they are cut, also inside a
  character: when all bytes together are valid UTF-8 every push succeeds and the result is that of the decoded text;
  when they are not, some push or the end of the stream reports an error.\<close>

theorem streamed_bytes_decode_as_a_whole:
  "\<exists>q. citation_new = Some q
    \<and> (case from_utf8 (concat bss) of
         Inr s \<Rightarrow> collect_bytes citation_push_str citation_finish q bss =
           Some (Inr \<lparr>visible_text = fst (split_citations s), extracted = snd (split_citations s)\<rparr>)
       | Inl _ \<Rightarrow> \<exists>e. collect_bytes citation_push_str citation_finish q bss = Some (Inl e))"
proof -
  obtain q where q: "citation_new = Some q" "inline_ready q" using citation_new_ready by blast
  have "c = d" if "observed (\<lambda>x. [x]) c = observed (\<lambda>x. [x]) d" for c d :: "str StreamTextChunk"
  proof -
    have "concat (map (\<lambda>x. [x]) xs) = xs" for xs :: "str list" by (induction xs) auto
    with that show ?thesis by (cases c; cases d) (simp add: observed_def)
  qed
  with citation.collect_bytes_decoded [OF q(2), of bss] citation_collect_whole [OF q(1)] q(1) show ?thesis
    by (fastforce split: sum.splits)
qed

text \<open>A parser of hidden inline tags gives the same visible text and the same tags whatever the pieces are in
  which the text arrives, as long as no opening delimiter lies inside another one.\<close>

theorem inline_tags_do_not_depend_on_pieces:
  assumes "inline_new specs = Some p" and "independent_opens specs"
  shows "\<exists>c. collect inline_push_str inline_finish p ss = Some c \<and> collect inline_push_str inline_finish p [concat ss] = Some c"
proof -
  have "c = d" if "observed (\<lambda>x. [x]) c = observed (\<lambda>x. [x]) d" for c d :: "'a ExtractedInlineTag StreamTextChunk"
  proof -
    have "concat (map (\<lambda>x. [x]) xs) = xs" for xs :: "'a ExtractedInlineTag list" by (induction xs) auto
    with that show ?thesis by (cases c; cases d) (simp add: observed_def)
  qed
  with inline.collect_concat [OF inline_new_ready [OF assms], of ss] show ?thesis by blast
qed

definition sample_tags :: "nat InlineTagSpec list" where
  "sample_tags =
     [\<lparr>sp_tag = 0, sp_open = lit ''<a>'', sp_close = lit ''</a>''\<rparr>, \<lparr>sp_tag = 1, sp_open = lit ''<ab>'', sp_close = lit ''</ab>''\<rparr>]"

theorem inline_tags_do_not_depend_on_pieces_witness:
  "\<exists>p. inline_new sample_tags = Some p
    \<and> collect inline_push_str inline_finish p (map lit [''x<a'', ''b>y</'', ''ab>z'']) =
        collect inline_push_str inline_finish p [lit ''x<ab>y</ab>z'']"
proof -
  have "independent_opens sample_tags"
    by (simp add: independent_opens_def sample_tags_def sublist_code lit_def)
  moreover have new: "inline_new sample_tags = Some \<lparr>ih_specs = sample_tags, ih_pending = [], ih_active = None\<rparr>"
    by (simp add: inline_new_def sample_tags_def lit_def)
  ultimately show ?thesis
    using inline_tags_do_not_depend_on_pieces [of sample_tags _ "map lit [''x<a'', ''b>y</'', ''ab>z'']"]
    by (fastforce simp: lit_append [symmetric])
qed

text \<open>Without that condition the pieces matter: of two opening delimiters of which one starts with the other, the
  shorter one wins when the text arrives cut behind it.\<close>

definition nested_tags :: "nat InlineTagSpec list" where
  "nested_tags =
     [\<lparr>sp_tag = 0, sp_open = lit ''<a'', sp_close = lit ''>''\<rparr>, \<lparr>sp_tag = 1, sp_open = lit ''<ab'', sp_close = lit ''>''\<rparr>]"

lemma nested_opens_depend_on_pieces:
  "collect inline_push_str inline_finish (the (inline_new nested_tags)) [lit ''<ab>''] \<noteq>
   collect inline_push_str inline_finish (the (inline_new nested_tags)) [lit ''<a'', lit ''b>'']"
  by code_simp

end
