(* ===== verification/Output_Truncation.thy ===== *)
theory Output_Truncation
  imports Prelude
begin

text \<open>
  Shortening texts to a budget (\<^verbatim>\<open>utils/string/src/truncate.rs\<close> and \<^verbatim>\<open>utils/output-truncation/src/lib.rs\<close>): the middle of the
  text gives way to a marker. Budgets count bytes of UTF-8, or tokens of four bytes; \<^verbatim>\<open>usize\<close> and \<^verbatim>\<open>u64\<close> arithmetic saturates
  at \<open>usize_max\<close>.
\<close>

section \<open>Bytes and tokens\<close>

definition usize_max :: nat where "usize_max = 2 ^ 64 - 1"

definition saturating_add :: "nat \<Rightarrow> nat \<Rightarrow> nat" where
  "saturating_add a b = min (a + b) usize_max"

definition saturating_mul :: "nat \<Rightarrow> nat \<Rightarrow> nat" where
  "saturating_mul a b = min (a * b) usize_max"

definition len_utf8 :: "nat \<Rightarrow> nat" where
  "len_utf8 c = (if c < 128 then 1 else if c < 2048 then 2 else if c < 65536 then 3 else 4)"

definition byte_len :: "str \<Rightarrow> nat" where
  "byte_len s = sum_list (map len_utf8 s)"

text \<open>\<^verbatim>\<open>&s[..n]\<close> and \<^verbatim>\<open>&s[n..]\<close> at a character boundary.\<close>

fun byte_take :: "nat \<Rightarrow> str \<Rightarrow> str" where
  "byte_take n [] = []"
| "byte_take n (c # s) = (if len_utf8 c \<le> n then c # byte_take (n - len_utf8 c) s else [])"

fun byte_drop :: "nat \<Rightarrow> str \<Rightarrow> str" where
  "byte_drop n [] = []"
| "byte_drop n (c # s) = (if n = 0 then c # s else byte_drop (n - len_utf8 c) s)"

definition APPROX_BYTES_PER_TOKEN :: nat where "APPROX_BYTES_PER_TOKEN = 4"

definition approx_token_count :: "str \<Rightarrow> nat" where
  "approx_token_count s = saturating_add (byte_len s) (APPROX_BYTES_PER_TOKEN - 1) div APPROX_BYTES_PER_TOKEN"

definition approx_bytes_for_tokens :: "nat \<Rightarrow> nat" where
  "approx_bytes_for_tokens tokens = saturating_mul tokens APPROX_BYTES_PER_TOKEN"

definition approx_tokens_from_byte_count :: "nat \<Rightarrow> nat" where
  "approx_tokens_from_byte_count bytes = saturating_add bytes (APPROX_BYTES_PER_TOKEN - 1) div APPROX_BYTES_PER_TOKEN"

definition approx_tokens_from_byte_count_i64 :: "int \<Rightarrow> int" where
  "approx_tokens_from_byte_count_i64 bytes =
     (if bytes \<le> 0 then 0 else min (int (approx_tokens_from_byte_count (min (nat bytes) usize_max))) (2 ^ 63 - 1))"

section \<open>Cutting the middle\<close>

fun split_loop :: "nat \<Rightarrow> nat \<Rightarrow> str \<Rightarrow> nat \<Rightarrow> nat \<Rightarrow> nat \<Rightarrow> nat \<Rightarrow> bool \<Rightarrow> nat \<times> nat \<times> nat" where
  "split_loop beginning_bytes tail_start_target [] idx prefix_end suffix_start removed_chars suffix_started =
     (prefix_end, suffix_start, removed_chars)"
| "split_loop beginning_bytes tail_start_target (c # s) idx prefix_end suffix_start removed_chars suffix_started =
     (let char_end = idx + len_utf8 c
      in if char_end \<le> beginning_bytes then
           split_loop beginning_bytes tail_start_target s char_end char_end suffix_start removed_chars suffix_started
         else if idx \<ge> tail_start_target then
           split_loop beginning_bytes tail_start_target s char_end prefix_end
             (if suffix_started then suffix_start else idx) removed_chars True
         else
           split_loop beginning_bytes tail_start_target s char_end prefix_end suffix_start
             (saturating_add removed_chars 1) suffix_started)"

definition split_string :: "str \<Rightarrow> nat \<Rightarrow> nat \<Rightarrow> nat \<times> str \<times> str" where
  "split_string s beginning_bytes end_bytes =
     (if s = [] then (0, [], [])
      else
        let len = byte_len s;
            tail_start_target = len - end_bytes;
            (prefix_end, suffix_start0, removed_chars) = split_loop beginning_bytes tail_start_target s 0 0 len 0 False;
            suffix_start = (if suffix_start0 < prefix_end then prefix_end else suffix_start0)
        in (removed_chars, byte_take prefix_end s, byte_drop suffix_start s))"

definition split_budget :: "nat \<Rightarrow> nat \<times> nat" where
  "split_budget budget = (budget div 2, budget - budget div 2)"

abbreviation ellipsis :: nat where "ellipsis \<equiv> 8230"

definition format_truncation_marker :: "bool \<Rightarrow> nat \<Rightarrow> str" where
  "format_truncation_marker use_tokens removed_count =
     ellipsis # show_nat removed_count @ (if use_tokens then lit '' tokens truncated'' else lit '' chars truncated'') @ [ellipsis]"

definition removed_units :: "bool \<Rightarrow> nat \<Rightarrow> nat \<Rightarrow> nat" where
  "removed_units use_tokens removed_bytes removed_chars =
     (if use_tokens then approx_tokens_from_byte_count removed_bytes else min removed_chars usize_max)"

definition assemble_truncated_output :: "str \<Rightarrow> str \<Rightarrow> str \<Rightarrow> str" where
  "assemble_truncated_output pre suf marker = pre @ marker @ suf"

definition truncate_with_byte_estimate :: "str \<Rightarrow> nat \<Rightarrow> bool \<Rightarrow> str" where
  "truncate_with_byte_estimate s max_bytes use_tokens =
     (if s = [] then []
      else if max_bytes = 0 then format_truncation_marker use_tokens (removed_units use_tokens (byte_len s) (length s))
      else if byte_len s \<le> max_bytes then s
      else
        let (left_budget, right_budget) = split_budget max_bytes;
            (removed_chars, left, right) = split_string s left_budget right_budget;
            marker = format_truncation_marker use_tokens (removed_units use_tokens (byte_len s - max_bytes) removed_chars)
        in assemble_truncated_output left right marker)"

definition truncate_middle_chars :: "str \<Rightarrow> nat \<Rightarrow> str" where
  "truncate_middle_chars s max_bytes = truncate_with_byte_estimate s max_bytes False"

definition truncate_middle_with_token_budget :: "str \<Rightarrow> nat \<Rightarrow> str \<times> nat option" where
  "truncate_middle_with_token_budget s max_tokens =
     (if s = [] then ([], None)
      else if max_tokens > 0 \<and> byte_len s \<le> approx_bytes_for_tokens max_tokens then (s, None)
      else
        let truncated = truncate_with_byte_estimate s (approx_bytes_for_tokens max_tokens) True
        in if truncated = s then (truncated, None) else (truncated, Some (approx_token_count s)))"

section \<open>Policies\<close>

datatype TruncationPolicy = Bytes nat | Tokens nat

fun token_budget :: "TruncationPolicy \<Rightarrow> nat" where
  "token_budget (Bytes b) = approx_tokens_from_byte_count b"
| "token_budget (Tokens t) = t"

fun byte_budget :: "TruncationPolicy \<Rightarrow> nat" where
  "byte_budget (Bytes b) = b"
| "byte_budget (Tokens t) = approx_bytes_for_tokens t"

fun truncate_text :: "str \<Rightarrow> TruncationPolicy \<Rightarrow> str" where
  "truncate_text content (Bytes b) = truncate_middle_chars content b"
| "truncate_text content (Tokens t) = fst (truncate_middle_with_token_budget content t)"

definition formatted_truncate_text :: "str \<Rightarrow> TruncationPolicy \<Rightarrow> str" where
  "formatted_truncate_text content policy =
     (if byte_len content \<le> byte_budget policy then content
      else lit ''Total output lines: '' @ show_nat (length (str_lines content)) @ [nl, nl] @ truncate_text content policy)"

section \<open>Lists of content items\<close>

datatype ImageDetail = Auto | Low | High | Original

datatype FunctionCallOutputContentItem =
  OutText str
| OutImage str "ImageDetail option"
| OutEncrypted str

fun item_text :: "FunctionCallOutputContentItem \<Rightarrow> str option" where
  "item_text (OutText t) = Some t"
| "item_text _ = None"

fun combine_text :: "str list \<Rightarrow> str \<Rightarrow> str" where
  "combine_text [] combined = combined"
| "combine_text (t # ts) combined = combine_text ts ((if combined = [] then [] else combined @ [nl]) @ t)"

definition formatted_truncate_text_content_items_with_policy ::
  "FunctionCallOutputContentItem list \<Rightarrow> TruncationPolicy \<Rightarrow> FunctionCallOutputContentItem list \<times> nat option" where
  "formatted_truncate_text_content_items_with_policy items policy =
     (let text_segments = List.map_filter item_text items
      in if text_segments = [] then (items, None)
         else
           let combined = combine_text text_segments []
           in if byte_len combined \<le> byte_budget policy then (items, None)
              else (OutText (formatted_truncate_text combined policy) # filter (\<lambda>i. item_text i = None) items,
                    Some (approx_token_count combined)))"

fun policy_cost :: "TruncationPolicy \<Rightarrow> str \<Rightarrow> nat" where
  "policy_cost (Bytes _) t = byte_len t"
| "policy_cost (Tokens _) t = approx_token_count t"

fun with_budget :: "TruncationPolicy \<Rightarrow> nat \<Rightarrow> TruncationPolicy" where
  "with_budget (Bytes _) b = Bytes b"
| "with_budget (Tokens _) b = Tokens b"

fun policy_budget :: "TruncationPolicy \<Rightarrow> nat" where
  "policy_budget (Bytes b) = b"
| "policy_budget (Tokens t) = t"

fun truncate_items_loop ::
  "TruncationPolicy \<Rightarrow> FunctionCallOutputContentItem list \<Rightarrow> nat \<Rightarrow> nat \<Rightarrow> FunctionCallOutputContentItem list
   \<Rightarrow> FunctionCallOutputContentItem list \<times> nat" where
  "truncate_items_loop policy [] remaining_budget omitted_text_items out = (out, omitted_text_items)"
| "truncate_items_loop policy (item # items) remaining_budget omitted_text_items out =
     (case item of
        OutText t \<Rightarrow>
          if remaining_budget = 0 then truncate_items_loop policy items 0 (omitted_text_items + 1) out
          else if policy_cost policy t \<le> remaining_budget then
            truncate_items_loop policy items (remaining_budget - policy_cost policy t) omitted_text_items (out @ [OutText t])
          else
            let snippet = truncate_text t (with_budget policy remaining_budget)
            in if snippet = [] then truncate_items_loop policy items 0 (omitted_text_items + 1) out
               else truncate_items_loop policy items 0 omitted_text_items (out @ [OutText snippet])
      | _ \<Rightarrow> truncate_items_loop policy items remaining_budget omitted_text_items (out @ [item]))"

definition truncate_function_output_items_with_policy ::
  "FunctionCallOutputContentItem list \<Rightarrow> TruncationPolicy \<Rightarrow> FunctionCallOutputContentItem list" where
  "truncate_function_output_items_with_policy items policy =
     (case truncate_items_loop policy items (policy_budget policy) 0 [] of
        (out, omitted) \<Rightarrow>
          if omitted > 0 then out @ [OutText (lit ''[omitted '' @ show_nat omitted @ lit '' text items ...]'')] else out)"

end
