(* ===== verification/Output_Truncation_Properties.thy ===== *)
theory Output_Truncation_Properties
  imports Output_Truncation
begin

text \<open>
  Truncation keeps whole characters of both ends within its budget, drops what is between them and counts it.
\<close>

section \<open>Lengths in bytes\<close>

lemma len_utf8_pos [simp]: "0 < len_utf8 c"
  by (simp add: len_utf8_def)

lemma byte_len_simps [simp]:
  "byte_len [] = 0"
  "byte_len (c # s) = len_utf8 c + byte_len s"
  "byte_len (s @ t) = byte_len s + byte_len t"
  by (simp_all add: byte_len_def)

lemma byte_len_0_iff [simp]: "byte_len s = 0 \<longleftrightarrow> s = []"
  by (cases s) simp_all

lemma length_le_byte_len: "length s \<le> byte_len s"
proof (induction s)
  case (Cons c s)
  then show ?case using len_utf8_pos [of c] by (simp del: len_utf8_pos)
qed simp

lemma byte_take_append [simp]: "byte_take (byte_len s) (s @ t) = s"
proof (induction s)
  case Nil
  show ?case by (cases t) simp_all
qed simp

lemma byte_drop_append [simp]: "byte_drop (byte_len s) (s @ t) = t"
proof (induction s)
  case Nil
  show ?case by (cases t) simp_all
qed simp

section \<open>The cut\<close>

text \<open>Past the prefix no character ends within the beginning any more: the loop drops characters until the tail starts.\<close>

lemma split_loop_tail:
  assumes "s = [] \<or> b < idx + len_utf8 (hd s)" and "tail \<le> idx"
  shows "split_loop b tail s idx pe ss rm True = (pe, ss, rm)"
  using assms
proof (induction s arbitrary: idx)
  case (Cons c s)
  have "split_loop b tail s (idx + len_utf8 c) pe ss rm True = (pe, ss, rm)"
    using Cons.prems by (intro Cons.IH) (auto intro: trans_less_add1)
  with Cons.prems show ?case by (simp add: Let_def)
qed simp

lemma split_loop_middle:
  assumes "s = [] \<or> b < idx + len_utf8 (hd s)" and "rm + length s < usize_max"
  shows "\<exists>mid after. s = mid @ after
     \<and> split_loop b tail s idx pe (idx + byte_len s) rm False = (pe, idx + byte_len mid, rm + length mid)
     \<and> (after = [] \<or> tail \<le> idx + byte_len mid)
     \<and> (mid = [] \<or> idx + byte_len (butlast mid) < tail)"
  using assms
proof (induction s arbitrary: idx rm)
  case (Cons c s)
  have b: "b < idx + len_utf8 c" using Cons.prems by simp
  have next_ok: "s = [] \<or> b < idx + len_utf8 c + len_utf8 (hd s)" using b by (simp add: trans_less_add1)
  show ?case
  proof (cases "tail \<le> idx")
    case True
    have "split_loop b tail s (idx + len_utf8 c) pe idx rm True = (pe, idx, rm)"
      using True next_ok by (intro split_loop_tail) auto
    with True b have "split_loop b tail (c # s) idx pe (idx + byte_len (c # s)) rm False = (pe, idx + byte_len [], rm + length ([] :: str))"
      by (simp add: Let_def)
    with True show ?thesis by (intro exI [of _ "[]"] exI [of _ "c # s"]) simp
  next
    case False
    have "rm + 1 + length s < usize_max" using Cons.prems(2) by simp
    from Cons.IH [OF next_ok this] obtain mid after where *: "s = mid @ after"
      "split_loop b tail s (idx + len_utf8 c) pe (idx + len_utf8 c + byte_len s) (rm + 1) False
         = (pe, idx + len_utf8 c + byte_len mid, rm + 1 + length mid)"
      "after = [] \<or> tail \<le> idx + len_utf8 c + byte_len mid"
      "mid = [] \<or> idx + len_utf8 c + byte_len (butlast mid) < tail" by blast
    have "saturating_add rm 1 = rm + 1" using Cons.prems(2) by (simp add: saturating_add_def)
    with False b * have "split_loop b tail (c # s) idx pe (idx + byte_len (c # s)) rm False
        = (pe, idx + byte_len (c # mid), rm + length (c # mid))"
      by (simp add: Let_def add.assoc)
    with False * show ?thesis by (intro exI [of _ "c # mid"] exI [of _ after]) (auto simp: add.assoc)
  qed
qed simp

lemma split_loop_prefix:
  "\<exists>before rest. s = before @ rest
     \<and> split_loop b tail s idx pe ss rm False =
         split_loop b tail rest (idx + byte_len before) (if before = [] then pe else idx + byte_len before) ss rm False
     \<and> (before = [] \<or> idx + byte_len before \<le> b)
     \<and> (rest = [] \<or> b < idx + byte_len before + len_utf8 (hd rest))"
proof (induction s arbitrary: idx pe)
  case (Cons c s)
  show ?case
  proof (cases "idx + len_utf8 c \<le> b")
    case True
    from Cons.IH [of "idx + len_utf8 c" "idx + len_utf8 c"] obtain before rest where *: "s = before @ rest"
      "split_loop b tail s (idx + len_utf8 c) (idx + len_utf8 c) ss rm False =
         split_loop b tail rest (idx + len_utf8 c + byte_len before)
           (if before = [] then idx + len_utf8 c else idx + len_utf8 c + byte_len before) ss rm False"
      "before = [] \<or> idx + len_utf8 c + byte_len before \<le> b"
      "rest = [] \<or> b < idx + len_utf8 c + byte_len before + len_utf8 (hd rest)" by blast
    with True show ?thesis
      by (intro exI [of _ "c # before"] exI [of _ rest]) (auto simp: Let_def add.assoc)
  next
    case False
    then show ?thesis by (intro exI [of _ "[]"] exI [of _ "c # s"]) simp
  qed
qed simp

text \<open>The two ends are the longest that fit their share of the budget.\<close>

lemma split_string_spec:
  assumes long: "b + e < byte_len s" and size: "length s < usize_max"
  shows "\<exists>before mid after. s = before @ mid @ after \<and> split_string s b e = (length mid, before, after) \<and> mid \<noteq> []
     \<and> byte_len before \<le> b \<and> byte_len after \<le> e
     \<and> b < byte_len before + len_utf8 (hd mid) \<and> e < byte_len after + len_utf8 (last mid)"
proof -
  let ?tail = "byte_len s - e"
  obtain before rest where raw: "s = before @ rest"
    "split_loop b ?tail s 0 0 (byte_len s) 0 False =
       split_loop b ?tail rest (0 + byte_len before) (if before = [] then 0 else 0 + byte_len before) (byte_len s) 0 False"
    "before = [] \<or> 0 + byte_len before \<le> b" "rest = [] \<or> b < 0 + byte_len before + len_utf8 (hd rest)"
    using split_loop_prefix [of s b ?tail 0 0 "byte_len s" 0] by blast
  have "(if before = [] then 0 else 0 + byte_len before) = byte_len before" by simp
  with raw have br: "s = before @ rest"
    "split_loop b ?tail s 0 0 (byte_len s) 0 False = split_loop b ?tail rest (byte_len before) (byte_len before) (byte_len s) 0 False"
    "before = [] \<or> byte_len before \<le> b" "rest = [] \<or> b < byte_len before + len_utf8 (hd rest)"
    by (simp_all only: add_0)
  have "0 + length rest < usize_max" using size br(1) by simp
  from split_loop_middle [OF br(4) this, of ?tail "byte_len before"] obtain mid after where ma: "rest = mid @ after"
    "split_loop b ?tail rest (byte_len before) (byte_len before) (byte_len before + byte_len rest) 0 False
       = (byte_len before, byte_len before + byte_len mid, 0 + length mid)"
    "after = [] \<or> ?tail \<le> byte_len before + byte_len mid" "mid = [] \<or> byte_len before + byte_len (butlast mid) < ?tail"
    by blast
  have before: "byte_len before \<le> b" using br(3) by auto
  have after: "byte_len after \<le> e" using ma(3) by (auto simp: br(1) ma(1))
  have mid: "mid \<noteq> []" using long before after by (auto simp: br(1) ma(1))
  have "e < byte_len after + len_utf8 (last mid)"
  proof -
    have "byte_len mid = byte_len (butlast mid) + len_utf8 (last mid)"
      using mid by (metis append_butlast_last_id byte_len_simps(1,2,3) add_0_right)
    with ma(4) mid show ?thesis by (simp add: br(1) ma(1))
  qed
  moreover have "split_string s b e = (length mid, before, after)"
  proof -
    have "byte_take (byte_len before) (before @ mid @ after) = before"
      "byte_drop (byte_len (before @ mid)) ((before @ mid) @ after) = after" by (rule byte_take_append byte_drop_append)+
    moreover have "split_loop b ?tail s 0 0 (byte_len s) 0 False = (byte_len before, byte_len before + byte_len mid, length mid)"
      using br(1,2) ma(2) by simp
    ultimately show ?thesis using mid by (simp add: split_string_def br(1) ma(1) Let_def)
  qed
  ultimately show ?thesis using br(1,4) ma(1) before after mid by (intro exI [of _ before] exI [of _ mid] exI [of _ after]) auto
qed

fun counts_tokens :: "TruncationPolicy \<Rightarrow> bool" where
  "counts_tokens (Tokens _) = True"
| "counts_tokens (Bytes _) = False"

lemma truncate_with_estimate_long:
  assumes "max_bytes < byte_len s" and "length s < usize_max"
  shows "\<exists>before mid after. s = before @ mid @ after \<and> mid \<noteq> []
     \<and> truncate_with_byte_estimate s max_bytes tok =
         before @ format_truncation_marker tok (removed_units tok (byte_len s - max_bytes) (length mid)) @ after
     \<and> byte_len before \<le> max_bytes div 2 \<and> byte_len after \<le> max_bytes - max_bytes div 2
     \<and> max_bytes div 2 < byte_len before + len_utf8 (hd mid) \<and> max_bytes - max_bytes div 2 < byte_len after + len_utf8 (last mid)"
proof (cases "max_bytes = 0")
  case True
  with assms show ?thesis
    by (intro exI [of _ "[]"] exI [of _ s]) (auto simp: truncate_with_byte_estimate_def)
next
  case False
  have "max_bytes div 2 + (max_bytes - max_bytes div 2) < byte_len s" using assms(1) by simp
  from split_string_spec [OF this assms(2)] obtain before mid after where *: "s = before @ mid @ after"
    "split_string s (max_bytes div 2) (max_bytes - max_bytes div 2) = (length mid, before, after)" "mid \<noteq> []"
    "byte_len before \<le> max_bytes div 2" "byte_len after \<le> max_bytes - max_bytes div 2"
    "max_bytes div 2 < byte_len before + len_utf8 (hd mid)" "max_bytes - max_bytes div 2 < byte_len after + len_utf8 (last mid)"
    by blast
  have "truncate_with_byte_estimate s max_bytes tok =
      before @ format_truncation_marker tok (removed_units tok (byte_len s - max_bytes) (length mid)) @ after"
    using assms(1) False *(2,3)
    by (auto simp: truncate_with_byte_estimate_def split_budget_def assemble_truncated_output_def *(1))
  with * show ?thesis by blast
qed

lemma truncate_text_estimate:
  "truncate_text content policy =
     (if byte_len content \<le> byte_budget policy then content
      else truncate_with_byte_estimate content (byte_budget policy) (counts_tokens policy))"
  by (cases policy)
     (auto simp: truncate_middle_chars_def truncate_middle_with_token_budget_def truncate_with_byte_estimate_def Let_def)

text \<open>C36: a truncated text fits its budget and says what it lost. A text within the budget is returned as it is; of a longer one
  the result is its beginning and its end around one marker, whole characters, each no longer than half the budget and
  so long that one more character would not fit, and the marker counts the characters between them, or the tokens over the budget.\<close>

theorem truncated_text_keeps_both_ends:
  assumes "length content < usize_max"
  shows "(byte_len content \<le> byte_budget policy \<longrightarrow> truncate_text content policy = content)
     \<and> (byte_budget policy < byte_len content \<longrightarrow>
          (\<exists>before mid after. content = before @ mid @ after \<and> mid \<noteq> []
            \<and> truncate_text content policy =
                before @ format_truncation_marker (counts_tokens policy)
                  (if counts_tokens policy then approx_tokens_from_byte_count (byte_len content - byte_budget policy) else length mid)
                @ after
            \<and> byte_len before \<le> byte_budget policy div 2
            \<and> byte_len after \<le> byte_budget policy - byte_budget policy div 2
            \<and> byte_budget policy div 2 < byte_len before + len_utf8 (hd mid)
            \<and> byte_budget policy - byte_budget policy div 2 < byte_len after + len_utf8 (last mid)))"
proof (intro conjI impI)
  assume "byte_budget policy < byte_len content"
  from truncate_with_estimate_long [OF this assms, of "counts_tokens policy"] obtain before mid after where *:
    "content = before @ mid @ after" "mid \<noteq> []"
    "truncate_with_byte_estimate content (byte_budget policy) (counts_tokens policy) =
       before @ format_truncation_marker (counts_tokens policy)
         (removed_units (counts_tokens policy) (byte_len content - byte_budget policy) (length mid)) @ after"
    "byte_len before \<le> byte_budget policy div 2" "byte_len after \<le> byte_budget policy - byte_budget policy div 2"
    "byte_budget policy div 2 < byte_len before + len_utf8 (hd mid)"
    "byte_budget policy - byte_budget policy div 2 < byte_len after + len_utf8 (last mid)" by blast
  moreover have "length mid \<le> usize_max" using assms *(1) by simp
  ultimately show "\<exists>before mid after. content = before @ mid @ after \<and> mid \<noteq> []
      \<and> truncate_text content policy =
          before @ format_truncation_marker (counts_tokens policy)
            (if counts_tokens policy then approx_tokens_from_byte_count (byte_len content - byte_budget policy) else length mid)
          @ after
      \<and> byte_len before \<le> byte_budget policy div 2
      \<and> byte_len after \<le> byte_budget policy - byte_budget policy div 2
      \<and> byte_budget policy div 2 < byte_len before + len_utf8 (hd mid)
      \<and> byte_budget policy - byte_budget policy div 2 < byte_len after + len_utf8 (last mid)"
    using \<open>byte_budget policy < byte_len content\<close>
    by (intro exI [of _ before] exI [of _ mid] exI [of _ after])
       (simp add: truncate_text_estimate removed_units_def min_absorb1)
qed (simp add: truncate_text_estimate)

theorem truncated_text_keeps_both_ends_witness:
  "\<exists>before mid after. lit ''abcdefgh'' = before @ mid @ after \<and> mid \<noteq> []
     \<and> truncate_text (lit ''abcdefgh'') (Bytes 4) = before @ format_truncation_marker False (length mid) @ after
     \<and> byte_len before \<le> 2 \<and> byte_len after \<le> 2"
proof -
  have len: "length (lit ''abcdefgh'') < usize_max" and long: "byte_budget (Bytes 4) < byte_len (lit ''abcdefgh'')" by code_simp+
  from truncated_text_keeps_both_ends [OF len, of "Bytes 4"] long show ?thesis by auto
qed

section \<open>Lists of items\<close>

lemma truncate_items_loop_media:
  "filter (\<lambda>i. item_text i = None) (fst (truncate_items_loop policy items rem om out)) =
     filter (\<lambda>i. item_text i = None) out @ filter (\<lambda>i. item_text i = None) items"
  by (induction policy items rem om out rule: truncate_items_loop.induct)
     (auto simp: Let_def split: FunctionCallOutputContentItem.split)

text \<open>Images and encrypted items are never dropped or reordered.\<close>

lemma truncate_items_keep_media:
  "filter (\<lambda>i. item_text i = None) (truncate_function_output_items_with_policy items policy) =
     filter (\<lambda>i. item_text i = None) items"
  using truncate_items_loop_media [of policy items "policy_budget policy" 0 "[]"]
  by (auto simp: truncate_function_output_items_with_policy_def split: prod.split)

end
