(* ===== verification/Context_Items.thy ===== *)
theory Context_Items
  imports Output_Truncation
begin

text \<open>
  The items of a conversation (\<^verbatim>\<open>ResponseItem\<close> of \<^verbatim>\<open>protocol/src/models.rs\<close>) and the passes that make them fit for a prompt
  (\<^verbatim>\<open>core/src/context_manager/normalize.rs\<close>). Payloads that the context manager only copies, phases, shell actions, tool
  descriptions and the like, are of the type \<open>'j\<close>. \<^verbatim>\<open>error_or_panic\<close> logs, as in a release build.
\<close>

section \<open>Items\<close>

datatype ContentItem =
  InputText str
| InputImage str "ImageDetail option"
| OutputText str

datatype FunctionCallOutputBody =
  Text str
| ContentItems "FunctionCallOutputContentItem list"

record FunctionCallOutputPayload =
  out_body :: FunctionCallOutputBody
  out_success :: "bool option"

datatype 'j ResponseItem =
  Message "str option" str "ContentItem list" "'j option"
| AgentMessage str str "'j list"
| Reasoning str "'j list" "'j list option" "str option"
| LocalShellCall "str option" "str option" 'j 'j
| FunctionCall "str option" str "str option" str str
| ToolSearchCall "str option" "str option" "str option" str 'j
| FunctionCallOutput str FunctionCallOutputPayload
| CustomToolCall "str option" "str option" str str "str option" str
| CustomToolCallOutput str "str option" FunctionCallOutputPayload
| ToolSearchOutput "str option" str str "'j list"
| WebSearchCall "str option" "str option" "'j option"
| ImageGenerationCall str str "str option" str
| Compaction str
| CompactionTrigger
| ContextCompaction "str option"
| Other

definition from_text :: "str \<Rightarrow> FunctionCallOutputPayload" where
  "from_text content = \<lparr>out_body = Text content, out_success = None\<rparr>"

section \<open>Calls and outputs\<close>

datatype RequiredCall = Function str | ToolSearch str | CustomTool str

text \<open>The output a call must have, if it has an identifier; a local shell call is answered by a function output.\<close>

fun output_required_by :: "'j ResponseItem \<Rightarrow> RequiredCall option" where
  "output_required_by (FunctionCall _ _ _ _ call_id) = Some (Function call_id)"
| "output_required_by (ToolSearchCall _ (Some call_id) _ _ _) = Some (ToolSearch call_id)"
| "output_required_by (CustomToolCall _ _ call_id _ _ _) = Some (CustomTool call_id)"
| "output_required_by (LocalShellCall _ (Some call_id) _ _) = Some (Function call_id)"
| "output_required_by _ = None"

fun answers :: "RequiredCall \<Rightarrow> 'j ResponseItem \<Rightarrow> bool" where
  "answers (Function call_id) (FunctionCallOutput existing _) \<longleftrightarrow> existing = call_id"
| "answers (ToolSearch call_id) (ToolSearchOutput (Some existing) _ _ _) \<longleftrightarrow> existing = call_id"
| "answers (CustomTool call_id) (CustomToolCallOutput existing _ _) \<longleftrightarrow> existing = call_id"
| "answers _ _ \<longleftrightarrow> False"

fun synthetic_output :: "RequiredCall \<Rightarrow> 'j ResponseItem" where
  "synthetic_output (Function call_id) = FunctionCallOutput call_id (from_text (lit ''aborted''))"
| "synthetic_output (ToolSearch call_id) = ToolSearchOutput (Some call_id) (lit ''completed'') (lit ''client'') []"
| "synthetic_output (CustomTool call_id) = CustomToolCallOutput call_id None (from_text (lit ''aborted''))"

definition missing_output :: "'j ResponseItem list \<Rightarrow> 'j ResponseItem \<Rightarrow> 'j ResponseItem option" where
  "missing_output items item =
     (case output_required_by item of
        None \<Rightarrow> None
      | Some r \<Rightarrow> if list_ex (answers r) items then None else Some (synthetic_output r))"

text \<open>The synthetic outputs with the positions of their calls, inserted from the last to the first.\<close>

definition missing_outputs_to_insert :: "'j ResponseItem list \<Rightarrow> (nat \<times> 'j ResponseItem) list" where
  "missing_outputs_to_insert items =
     List.map_filter (\<lambda>(idx, item). map_option (Pair idx) (missing_output items item)) (List.enumerate 0 items)"

definition insert_at :: "nat \<Rightarrow> 'a \<Rightarrow> 'a list \<Rightarrow> 'a list" where
  "insert_at i x xs = take i xs @ x # drop i xs"

definition ensure_call_outputs_present :: "'j ResponseItem list \<Rightarrow> 'j ResponseItem list" where
  "ensure_call_outputs_present items =
     foldl (\<lambda>acc (idx, output_item). insert_at (idx + 1) output_item acc) items (rev (missing_outputs_to_insert items))"

fun required_call_for_output :: "'j ResponseItem \<Rightarrow> RequiredCall option" where
  "required_call_for_output (FunctionCallOutput call_id _) = Some (Function call_id)"
| "required_call_for_output (CustomToolCallOutput call_id _ _) = Some (CustomTool call_id)"
| "required_call_for_output (ToolSearchOutput call_id _ execution _) =
     (if execution = lit ''server'' then None else map_option ToolSearch call_id)"
| "required_call_for_output _ = None"

definition function_call_ids :: "'j ResponseItem list \<Rightarrow> str set" where
  "function_call_ids items = set (List.map_filter (\<lambda>i. case i of FunctionCall _ _ _ _ c \<Rightarrow> Some c | _ \<Rightarrow> None) items)"

definition tool_search_call_ids :: "'j ResponseItem list \<Rightarrow> str set" where
  "tool_search_call_ids items = set (List.map_filter (\<lambda>i. case i of ToolSearchCall _ c _ _ _ \<Rightarrow> c | _ \<Rightarrow> None) items)"

definition local_shell_call_ids :: "'j ResponseItem list \<Rightarrow> str set" where
  "local_shell_call_ids items = set (List.map_filter (\<lambda>i. case i of LocalShellCall _ c _ _ \<Rightarrow> c | _ \<Rightarrow> None) items)"

definition custom_tool_call_ids :: "'j ResponseItem list \<Rightarrow> str set" where
  "custom_tool_call_ids items = set (List.map_filter (\<lambda>i. case i of CustomToolCall _ _ c _ _ _ \<Rightarrow> Some c | _ \<Rightarrow> None) items)"

fun call_present :: "'j ResponseItem list \<Rightarrow> RequiredCall \<Rightarrow> bool" where
  "call_present items (Function c) \<longleftrightarrow> c \<in> function_call_ids items \<or> c \<in> local_shell_call_ids items"
| "call_present items (ToolSearch c) \<longleftrightarrow> c \<in> tool_search_call_ids items"
| "call_present items (CustomTool c) \<longleftrightarrow> c \<in> custom_tool_call_ids items"

definition remove_orphan_outputs :: "'j ResponseItem list \<Rightarrow> 'j ResponseItem list" where
  "remove_orphan_outputs items =
     filter (\<lambda>item. case required_call_for_output item of None \<Rightarrow> True | Some r \<Rightarrow> call_present items r) items"

definition remove_first_matching :: "('a \<Rightarrow> bool) \<Rightarrow> 'a list \<Rightarrow> 'a list" where
  "remove_first_matching P items = takeWhile (\<lambda>i. \<not> P i) items @ tl (dropWhile (\<lambda>i. \<not> P i) items)"

fun remove_corresponding_for :: "'j ResponseItem list \<Rightarrow> 'j ResponseItem \<Rightarrow> 'j ResponseItem list" where
  "remove_corresponding_for items (FunctionCall _ _ _ _ call_id) =
     remove_first_matching (\<lambda>i. case i of FunctionCallOutput existing _ \<Rightarrow> existing = call_id | _ \<Rightarrow> False) items"
| "remove_corresponding_for items (FunctionCallOutput call_id _) =
     (let is_call = (\<lambda>i. case i of FunctionCall _ _ _ _ existing \<Rightarrow> existing = call_id | _ \<Rightarrow> False);
          is_shell = (\<lambda>i. case i of LocalShellCall _ existing _ _ \<Rightarrow> existing = Some call_id | _ \<Rightarrow> False)
      in if list_ex is_call items then remove_first_matching is_call items
         else if list_ex is_shell items then remove_first_matching is_shell items
         else items)"
| "remove_corresponding_for items (ToolSearchCall _ (Some call_id) _ _ _) =
     remove_first_matching (\<lambda>i. case i of ToolSearchOutput existing _ _ _ \<Rightarrow> existing = Some call_id | _ \<Rightarrow> False) items"
| "remove_corresponding_for items (ToolSearchOutput (Some call_id) _ _ _) =
     remove_first_matching (\<lambda>i. case i of ToolSearchCall _ existing _ _ _ \<Rightarrow> existing = Some call_id | _ \<Rightarrow> False) items"
| "remove_corresponding_for items (CustomToolCall _ _ call_id _ _ _) =
     remove_first_matching (\<lambda>i. case i of CustomToolCallOutput existing _ _ \<Rightarrow> existing = call_id | _ \<Rightarrow> False) items"
| "remove_corresponding_for items (CustomToolCallOutput call_id _ _) =
     remove_first_matching (\<lambda>i. case i of CustomToolCall _ _ existing _ _ _ \<Rightarrow> existing = call_id | _ \<Rightarrow> False) items"
| "remove_corresponding_for items (LocalShellCall _ (Some call_id) _ _) =
     remove_first_matching (\<lambda>i. case i of FunctionCallOutput existing _ \<Rightarrow> existing = call_id | _ \<Rightarrow> False) items"
| "remove_corresponding_for items _ = items"

section \<open>Images\<close>

definition IMAGE_CONTENT_OMITTED_PLACEHOLDER :: str where
  "IMAGE_CONTENT_OMITTED_PLACEHOLDER = lit ''image content omitted because you do not support image input''"

definition REMOTE_IMAGE_URL_PLACEHOLDER :: str where
  "REMOTE_IMAGE_URL_PLACEHOLDER = lit ''image content omitted because remote image URLs are not supported''"

definition is_remote_image_url :: "str \<Rightarrow> bool" where
  "is_remote_image_url image_url =
     (case split_once (of_char (CHR '':'')) image_url of
        Some (scheme, _) \<Rightarrow> to_ascii_lowercase scheme = lit ''http'' \<or> to_ascii_lowercase scheme = lit ''https''
      | None \<Rightarrow> False)"

text \<open>Replacing the image content that satisfies a condition by a text, in messages and in tool outputs.\<close>

fun replace_content_image :: "(str \<Rightarrow> bool) \<Rightarrow> str \<Rightarrow> ContentItem \<Rightarrow> ContentItem" where
  "replace_content_image P placeholder (InputImage url detail) = (if P url then InputText placeholder else InputImage url detail)"
| "replace_content_image P placeholder c = c"

fun replace_output_image :: "(str \<Rightarrow> bool) \<Rightarrow> str \<Rightarrow> FunctionCallOutputContentItem \<Rightarrow> FunctionCallOutputContentItem" where
  "replace_output_image P placeholder (OutImage url detail) = (if P url then OutText placeholder else OutImage url detail)"
| "replace_output_image P placeholder c = c"

fun replace_body_images :: "(str \<Rightarrow> bool) \<Rightarrow> str \<Rightarrow> FunctionCallOutputBody \<Rightarrow> FunctionCallOutputBody" where
  "replace_body_images P placeholder (ContentItems items) = ContentItems (map (replace_output_image P placeholder) items)"
| "replace_body_images P placeholder (Text t) = Text t"

fun replace_item_images :: "(str \<Rightarrow> bool) \<Rightarrow> str \<Rightarrow> 'j ResponseItem \<Rightarrow> 'j ResponseItem" where
  "replace_item_images P placeholder (Message i role content phase) =
     Message i role (map (replace_content_image P placeholder) content) phase"
| "replace_item_images P placeholder (FunctionCallOutput c out) =
     FunctionCallOutput c (out\<lparr>out_body := replace_body_images P placeholder (out_body out)\<rparr>)"
| "replace_item_images P placeholder (CustomToolCallOutput c n out) =
     CustomToolCallOutput c n (out\<lparr>out_body := replace_body_images P placeholder (out_body out)\<rparr>)"
| "replace_item_images P placeholder item = item"

definition replace_remote_images_with_error :: "'j ResponseItem list \<Rightarrow> 'j ResponseItem list" where
  "replace_remote_images_with_error items = map (replace_item_images is_remote_image_url REMOTE_IMAGE_URL_PLACEHOLDER) items"

datatype InputModality = ModText | ModImage

fun clear_generated_image :: "'j ResponseItem \<Rightarrow> 'j ResponseItem" where
  "clear_generated_image (ImageGenerationCall i status revised result) = ImageGenerationCall i status revised []"
| "clear_generated_image item = item"

definition strip_images_when_unsupported :: "InputModality list \<Rightarrow> 'j ResponseItem list \<Rightarrow> 'j ResponseItem list" where
  "strip_images_when_unsupported input_modalities items =
     (if ModImage \<in> set input_modalities then items
      else map (\<lambda>i. clear_generated_image (replace_item_images (\<lambda>_. True) IMAGE_CONTENT_OMITTED_PLACEHOLDER i)) items)"

end
