(* ===== verification/Context_Fragments.thy ===== *)
theory Context_Fragments
  imports Context_Items
begin

text \<open>
  The fragments of context that the program injects into a conversation as messages of the user
  (\<^verbatim>\<open>context-fragments/src\<close> and \<^verbatim>\<open>core/src/context\<close>): how each is rendered and how its text is recognised again. The bodies
  that are printed with JSON or floating point, and that of the environment, are arguments. The reader of XML, which
  recognises the prompts of hooks, is the argument \<open>from_xml\<close>: it gives the text and the run of a hook.
\<close>

section \<open>Markers\<close>

definition matches_marked_text :: "str \<Rightarrow> str \<Rightarrow> str \<Rightarrow> bool" where
  "matches_marked_text start_marker end_marker txt \<longleftrightarrow>
     start_marker \<noteq> [] \<and> end_marker \<noteq> []
     \<and> to_ascii_lowercase (take (length start_marker) (trim_start txt)) = to_ascii_lowercase start_marker
     \<and> (let trimmed = trim txt
        in to_ascii_lowercase (drop (length trimmed - length end_marker) trimmed) = to_ascii_lowercase end_marker)"

text \<open>The source cuts the text at the length of a marker in bytes and compares ignoring ASCII case; the markers
  are ASCII, so the piece it compares is as long in characters.\<close>

section \<open>Fragments\<close>

datatype ContextFragment =
    UserInstructions str str
  | EnvironmentContext str
  | AdditionalContextUserFragment str str
  | SkillInstructions str str str
  | UserShellCommand str
  | TurnAborted str
  | SubagentNotification str
  | InternalModelContextFragment str str

definition ADDITIONAL_CONTEXT_START_MARKER_PREFIX :: str where
  "ADDITIONAL_CONTEXT_START_MARKER_PREFIX = lit ''<external_''"

definition CONTEXT_START_MARKER :: str where "CONTEXT_START_MARKER = lit ''<codex_internal_context''"
definition CONTEXT_END_MARKER :: str where "CONTEXT_END_MARKER = lit ''</codex_internal_context>''"
definition SOURCE_ATTR_START :: str where "SOURCE_ATTR_START = lit '' source='' @ [34]"
definition SOURCE_ATTR_END :: str where "SOURCE_ATTR_END = [34] @ lit ''>''"
definition MAX_ADDITIONAL_CONTEXT_VALUE_TOKENS :: nat where "MAX_ADDITIONAL_CONTEXT_VALUE_TOKENS = 1000"

definition USER_INSTRUCTIONS_MARKERS :: "str \<times> str" where
  "USER_INSTRUCTIONS_MARKERS = (lit ''# CODEWITH.md instructions for '', lit ''</INSTRUCTIONS>'')"

definition ENVIRONMENT_CONTEXT_MARKERS :: "str \<times> str" where
  "ENVIRONMENT_CONTEXT_MARKERS = (lit ''<environment_context>'', lit ''</environment_context>'')"

definition SKILL_MARKERS :: "str \<times> str" where
  "SKILL_MARKERS = (lit ''<skill>'', lit ''</skill>'')"

definition USER_SHELL_COMMAND_MARKERS :: "str \<times> str" where
  "USER_SHELL_COMMAND_MARKERS = (lit ''<user_shell_command>'', lit ''</user_shell_command>'')"

definition TURN_ABORTED_MARKERS :: "str \<times> str" where
  "TURN_ABORTED_MARKERS = (lit ''<turn_aborted>'', lit ''</turn_aborted>'')"

definition SUBAGENT_NOTIFICATION_MARKERS :: "str \<times> str" where
  "SUBAGENT_NOTIFICATION_MARKERS = (lit ''<subagent_notification>'', lit ''</subagent_notification>'')"

fun fragment_markers :: "ContextFragment \<Rightarrow> str \<times> str" where
  "fragment_markers (UserInstructions _ _) = USER_INSTRUCTIONS_MARKERS"
| "fragment_markers (EnvironmentContext _) = ENVIRONMENT_CONTEXT_MARKERS"
| "fragment_markers (AdditionalContextUserFragment _ _) = (ADDITIONAL_CONTEXT_START_MARKER_PREFIX, lit ''>'')"
| "fragment_markers (SkillInstructions _ _ _) = SKILL_MARKERS"
| "fragment_markers (UserShellCommand _) = USER_SHELL_COMMAND_MARKERS"
| "fragment_markers (TurnAborted _) = TURN_ABORTED_MARKERS"
| "fragment_markers (SubagentNotification _) = SUBAGENT_NOTIFICATION_MARKERS"
| "fragment_markers (InternalModelContextFragment _ _) = (CONTEXT_START_MARKER, CONTEXT_END_MARKER)"

definition additional_context_body :: "str \<Rightarrow> str \<Rightarrow> str" where
  "additional_context_body key v =
     key @ lit ''>'' @ fst (truncate_middle_with_token_budget v MAX_ADDITIONAL_CONTEXT_VALUE_TOKENS) @ lit ''</external_'' @ key"

fun fragment_body :: "ContextFragment \<Rightarrow> str" where
  "fragment_body (UserInstructions directory t) = directory @ [10, 10] @ lit ''<INSTRUCTIONS>'' @ [10] @ t @ [10]"
| "fragment_body (EnvironmentContext body) = body"
| "fragment_body (AdditionalContextUserFragment key v) = additional_context_body key v"
| "fragment_body (SkillInstructions name path contents) =
     [10] @ lit ''<name>'' @ name @ lit ''</name>'' @ [10] @ lit ''<path>'' @ path @ lit ''</path>'' @ [10] @ contents @ [10]"
| "fragment_body (UserShellCommand body) = body"
| "fragment_body (TurnAborted guidance) = [10] @ guidance @ [10]"
| "fragment_body (SubagentNotification json) = [10] @ json @ [10]"
| "fragment_body (InternalModelContextFragment source body) = SOURCE_ATTR_START @ source @ SOURCE_ATTR_END @ [10] @ body @ [10]"

definition render :: "ContextFragment \<Rightarrow> str" where
  "render f =
     (let (start_marker, end_marker) = fragment_markers f; body = fragment_body f
      in if start_marker = [] \<and> end_marker = [] then body else start_marker @ body @ end_marker)"

definition fragment_into :: "ContextFragment \<Rightarrow> 'j ResponseItem" where
  "fragment_into f = Message None (lit ''user'') [InputText (render f)] None"

section \<open>Recognising a fragment\<close>

definition additional_context_matches_text :: "str \<Rightarrow> bool" where
  "additional_context_matches_text txt =
     (case strip_prefix ADDITIONAL_CONTEXT_START_MARKER_PREFIX (trim txt) of
        None \<Rightarrow> False
      | Some rest \<Rightarrow>
          (case split_once 62 rest of
             None \<Rightarrow> False
           | Some (key, value_and_close) \<Rightarrow> ends_with (lit ''</external_'' @ key @ lit ''>'') value_and_close))"

definition matches_legacy_goal_context :: "str \<Rightarrow> bool" where
  "matches_legacy_goal_context txt \<longleftrightarrow> starts_with (lit ''<goal_context>'') txt \<and> ends_with (lit ''</goal_context>'') txt"

definition is_ascii_lowercase :: "nat \<Rightarrow> bool" where
  "is_ascii_lowercase c \<longleftrightarrow> 97 \<le> c \<and> c \<le> 122"

fun is_valid_source :: "str \<Rightarrow> bool" where
  "is_valid_source [] = False"
| "is_valid_source (c # cs) =
     (is_ascii_lowercase c \<and> list_all (\<lambda>ch. is_ascii_lowercase ch \<or> is_ascii_digit ch \<or> ch = 95) cs)"

definition internal_context_matches_text :: "str \<Rightarrow> bool" where
  "internal_context_matches_text txt =
     (let trimmed = trim txt
      in if matches_legacy_goal_context trimmed then True
         else case strip_prefix CONTEXT_START_MARKER trimmed of
           None \<Rightarrow> False
         | Some rest \<Rightarrow>
             (case strip_prefix SOURCE_ATTR_START rest of
                None \<Rightarrow> False
              | Some rest' \<Rightarrow>
                  (case split_once_str SOURCE_ATTR_END rest' of
                     None \<Rightarrow> False
                   | Some (source, body_and_close) \<Rightarrow> is_valid_source source \<and> ends_with CONTEXT_END_MARKER body_and_close)))"

definition process_limit_warning_matches_text :: "str \<Rightarrow> bool" where
  "process_limit_warning_matches_text txt =
     starts_with (lit ''Warning: The maximum number of unified exec processes you can keep open is'') (trim txt)"

definition apply_patch_warning_matches_text :: "str \<Rightarrow> bool" where
  "apply_patch_warning_matches_text txt =
     (starts_with (lit ''Warning: apply_patch was requested via '') (trim txt)
      \<and> ends_with (lit ''Use the apply_patch tool instead of exec_command.'') (trim txt))"

definition model_mismatch_warning_matches_text :: "str \<Rightarrow> bool" where
  "model_mismatch_warning_matches_text txt =
     starts_with (lit ''Warning: Your account was flagged for potentially high-risk cyber activity'') (trim txt)"

definition CONTEXTUAL_USER_FRAGMENTS :: "(str \<Rightarrow> bool) list" where
  "CONTEXTUAL_USER_FRAGMENTS =
     [case_prod matches_marked_text USER_INSTRUCTIONS_MARKERS,
      case_prod matches_marked_text ENVIRONMENT_CONTEXT_MARKERS,
      additional_context_matches_text,
      case_prod matches_marked_text SKILL_MARKERS,
      case_prod matches_marked_text USER_SHELL_COMMAND_MARKERS,
      case_prod matches_marked_text TURN_ABORTED_MARKERS,
      case_prod matches_marked_text SUBAGENT_NOTIFICATION_MARKERS,
      internal_context_matches_text,
      process_limit_warning_matches_text,
      apply_patch_warning_matches_text,
      model_mismatch_warning_matches_text]"

definition is_standard_contextual_user_text :: "str \<Rightarrow> bool" where
  "is_standard_contextual_user_text txt = list_ex (\<lambda>matches_text. matches_text txt) CONTEXTUAL_USER_FRAGMENTS"

type_synonym from_xml = "str \<Rightarrow> (str \<times> str) option"

definition parse_hook_prompt_fragment :: "from_xml \<Rightarrow> str \<Rightarrow> (str \<times> str) option" where
  "parse_hook_prompt_fragment from_xml txt =
     (case from_xml (trim txt) of
        None \<Rightarrow> None
      | Some (hook_text, hook_run_id) \<Rightarrow> if trim hook_run_id = [] then None else Some (hook_text, hook_run_id))"

fun is_contextual_user_fragment :: "from_xml \<Rightarrow> ContentItem \<Rightarrow> bool" where
  "is_contextual_user_fragment from_xml (InputText t) =
     (parse_hook_prompt_fragment from_xml t \<noteq> None \<or> is_standard_contextual_user_text t)"
| "is_contextual_user_fragment from_xml _ = False"

section \<open>The contract of the trait\<close>

text \<open>A fragment that keeps the default methods of \<^verbatim>\<open>ContextualUserFragment\<close> is recognised whatever its body, when its
  markers are not empty and neither starts nor ends the text with a blank.\<close>

locale marked_fragment =
  fixes markers :: "str \<times> str"
  assumes start_not_blank: "fst markers \<noteq> []" "\<not> is_whitespace (hd (fst markers))"
    and end_not_blank: "snd markers \<noteq> []" "\<not> is_whitespace (last (snd markers))"
begin

lemma trim_rendered: "trim (fst markers @ body @ snd markers) = fst markers @ body @ snd markers"
  using start_not_blank end_not_blank
  by (intro trim_id) auto

lemma trim_start_rendered: "trim_start (fst markers @ body @ snd markers) = fst markers @ body @ snd markers"
  using start_not_blank by (cases "fst markers") (simp_all add: trim_start_def)

lemma recognises_rendered: "case_prod matches_marked_text markers (fst markers @ body @ snd markers)"
  using start_not_blank(1) end_not_blank(1)
  by (simp add: matches_marked_text_def split_def trim_rendered trim_start_rendered)

end

lemmas marker_defs = USER_INSTRUCTIONS_MARKERS_def ENVIRONMENT_CONTEXT_MARKERS_def SKILL_MARKERS_def
  USER_SHELL_COMMAND_MARKERS_def TURN_ABORTED_MARKERS_def SUBAGENT_NOTIFICATION_MARKERS_def
  ADDITIONAL_CONTEXT_START_MARKER_PREFIX_def CONTEXT_START_MARKER_def CONTEXT_END_MARKER_def

interpretation user_instructions: marked_fragment USER_INSTRUCTIONS_MARKERS
  by unfold_locales (code_simp, code_simp, code_simp, code_simp)

interpretation environment_context: marked_fragment ENVIRONMENT_CONTEXT_MARKERS
  by unfold_locales (code_simp, code_simp, code_simp, code_simp)

interpretation skill: marked_fragment SKILL_MARKERS
  by unfold_locales (code_simp, code_simp, code_simp, code_simp)

interpretation user_shell_command: marked_fragment USER_SHELL_COMMAND_MARKERS
  by unfold_locales (code_simp, code_simp, code_simp, code_simp)

interpretation turn_aborted: marked_fragment TURN_ABORTED_MARKERS
  by unfold_locales (code_simp, code_simp, code_simp, code_simp)

interpretation subagent_notification: marked_fragment SUBAGENT_NOTIFICATION_MARKERS
  by unfold_locales (code_simp, code_simp, code_simp, code_simp)

end
