(* ===== verification/Context_Manager.thy ===== *)
theory Context_Manager
  imports Context_Fragments
begin

text \<open>
  The transcript of a thread (\<^verbatim>\<open>core/src/context_manager/history.rs\<close>): recording items, preparing the prompt, rolling back turns
  and keeping tool outputs within a budget. What the code asks libraries for is the argument \<open>env\<close>: reading a hook
  prompt from XML, whether a text is an inter-agent message in JSON, the length of an item as JSON, the size of an image and
  the scaling of a budget in floating point. The reference context is of an arbitrary type.
\<close>

section \<open>Surroundings\<close>

record 'j history_env =
  henv_from_xml :: from_xml
  henv_inter_agent_json :: "str \<Rightarrow> bool"
  henv_json_len :: "'j ResponseItem \<Rightarrow> nat option"
  henv_image_size :: "str \<Rightarrow> (nat \<times> nat) option"
  henv_scale :: "nat \<Rightarrow> nat"

section \<open>Token usage\<close>

text \<open>The counts are \<^verbatim>\<open>i64\<close>; sums that the code writes with plain operators wrap around, as in a release build.\<close>

definition i64_wrap :: "int \<Rightarrow> int" where
  "i64_wrap x = (x + 2 ^ 63) mod 2 ^ 64 - 2 ^ 63"

definition i64_clamp :: "int \<Rightarrow> int" where
  "i64_clamp x = max (- (2 ^ 63)) (min x (2 ^ 63 - 1))"

record TokenUsage =
  input_tokens :: int
  cached_input_tokens :: int
  cache_write_input_tokens :: int
  output_tokens :: int
  reasoning_output_tokens :: int
  total_tokens :: int

definition default_token_usage :: TokenUsage where
  "default_token_usage = \<lparr>input_tokens = 0, cached_input_tokens = 0, cache_write_input_tokens = 0, output_tokens = 0,
     reasoning_output_tokens = 0, total_tokens = 0\<rparr>"

definition add_assign :: "TokenUsage \<Rightarrow> TokenUsage \<Rightarrow> TokenUsage" where
  "add_assign u v =
     \<lparr>input_tokens = i64_wrap (input_tokens u + input_tokens v),
      cached_input_tokens = i64_wrap (cached_input_tokens u + cached_input_tokens v),
      cache_write_input_tokens = i64_wrap (cache_write_input_tokens u + cache_write_input_tokens v),
      output_tokens = i64_wrap (output_tokens u + output_tokens v),
      reasoning_output_tokens = i64_wrap (reasoning_output_tokens u + reasoning_output_tokens v),
      total_tokens = i64_wrap (total_tokens u + total_tokens v)\<rparr>"

record TokenUsageInfo =
  total_token_usage :: TokenUsage
  last_token_usage :: TokenUsage
  model_context_window :: "int option"

definition append_last_usage :: "TokenUsage \<Rightarrow> TokenUsageInfo \<Rightarrow> TokenUsageInfo" where
  "append_last_usage last_usage info =
     info\<lparr>total_token_usage := add_assign (total_token_usage info) last_usage, last_token_usage := last_usage\<rparr>"

definition new_or_append :: "TokenUsageInfo option \<Rightarrow> TokenUsage option \<Rightarrow> int option \<Rightarrow> TokenUsageInfo option" where
  "new_or_append info last_usage context_window =
     (if info = None \<and> last_usage = None then None
      else
        let start = (case info of
                       Some i \<Rightarrow> i
                     | None \<Rightarrow> \<lparr>total_token_usage = default_token_usage, last_token_usage = default_token_usage,
                               model_context_window = context_window\<rparr>);
            added = (case last_usage of Some u \<Rightarrow> append_last_usage u start | None \<Rightarrow> start)
        in Some (case context_window of Some w \<Rightarrow> added\<lparr>model_context_window := Some w\<rparr> | None \<Rightarrow> added))"

definition fill_to_context_window :: "int \<Rightarrow> TokenUsageInfo \<Rightarrow> TokenUsageInfo" where
  "fill_to_context_window context_window info =
     (let delta = max (i64_wrap (context_window - total_tokens (total_token_usage info))) 0
      in \<lparr>total_token_usage = default_token_usage\<lparr>total_tokens := context_window\<rparr>,
          last_token_usage = default_token_usage\<lparr>total_tokens := delta\<rparr>,
          model_context_window = Some context_window\<rparr>)"

definition full_context_window :: "int \<Rightarrow> TokenUsageInfo" where
  "full_context_window context_window =
     fill_to_context_window context_window
       \<lparr>total_token_usage = default_token_usage, last_token_usage = default_token_usage,
        model_context_window = Some context_window\<rparr>"

section \<open>The transcript\<close>

record ('j, 'c) ContextManager =
  cm_items :: "'j ResponseItem list"
  history_version :: nat
  token_info :: "TokenUsageInfo option"
  reference_context_item :: "'c option"

definition new_context_manager :: "('j, 'c) ContextManager" where
  "new_context_manager =
     \<lparr>cm_items = [], history_version = 0, token_info = new_or_append None None None, reference_context_item = None\<rparr>"

definition set_token_usage_full :: "int \<Rightarrow> ('j, 'c) ContextManager \<Rightarrow> ('j, 'c) ContextManager" where
  "set_token_usage_full context_window cm =
     cm\<lparr>token_info := Some (case token_info cm of
                              Some info \<Rightarrow> fill_to_context_window context_window info
                            | None \<Rightarrow> full_context_window context_window)\<rparr>"

definition update_token_info :: "TokenUsage \<Rightarrow> int option \<Rightarrow> ('j, 'c) ContextManager \<Rightarrow> ('j, 'c) ContextManager" where
  "update_token_info usage context_window cm =
     cm\<lparr>token_info := new_or_append (token_info cm) (Some usage) context_window\<rparr>"

definition bump :: "nat \<Rightarrow> nat" where
  "bump v = saturating_add v 1"

section \<open>Kinds of items\<close>

definition CONTEXTUAL_DEVELOPER_PREFIXES :: "str list" where
  "CONTEXTUAL_DEVELOPER_PREFIXES =
     [lit ''<permissions instructions>'', lit ''<model_switch>'', lit ''<collaboration_mode>'', lit ''<realtime_conversation>'',
      lit ''<personality_spec>'']"

fun is_contextual_dev_fragment :: "ContentItem \<Rightarrow> bool" where
  "is_contextual_dev_fragment (InputText t) =
     list_ex (\<lambda>pre. to_ascii_lowercase (take (length pre) (trim_start t)) = to_ascii_lowercase pre) CONTEXTUAL_DEVELOPER_PREFIXES"
| "is_contextual_dev_fragment _ = False"

definition is_contextual_dev_message_content :: "ContentItem list \<Rightarrow> bool" where
  "is_contextual_dev_message_content content \<longleftrightarrow> list_ex is_contextual_dev_fragment content"

definition has_non_contextual_dev_message_content :: "ContentItem list \<Rightarrow> bool" where
  "has_non_contextual_dev_message_content content \<longleftrightarrow> list_ex (\<lambda>c. \<not> is_contextual_dev_fragment c) content"

definition is_contextual_user_message_content :: "'j history_env \<Rightarrow> ContentItem list \<Rightarrow> bool" where
  "is_contextual_user_message_content env content \<longleftrightarrow> list_ex (is_contextual_user_fragment (henv_from_xml env)) content"

fun is_inter_agent_instruction_content :: "'j history_env \<Rightarrow> ContentItem list \<Rightarrow> bool" where
  "is_inter_agent_instruction_content env [InputText t] = henv_inter_agent_json env t"
| "is_inter_agent_instruction_content env [OutputText t] = henv_inter_agent_json env t"
| "is_inter_agent_instruction_content env _ = False"

fun is_user_turn_boundary :: "'j history_env \<Rightarrow> 'j ResponseItem \<Rightarrow> bool" where
  "is_user_turn_boundary env (AgentMessage _ _ _) = True"
| "is_user_turn_boundary env (Message _ role content _) =
     (role = lit ''user'' \<and> \<not> is_contextual_user_message_content env content
      \<or> role = lit ''assistant'' \<and> is_inter_agent_instruction_content env content)"
| "is_user_turn_boundary env _ = False"

fun is_api_message :: "'j ResponseItem \<Rightarrow> bool" where
  "is_api_message (Message _ role _ _) = (role \<noteq> lit ''system'')"
| "is_api_message CompactionTrigger = False"
| "is_api_message Other = False"
| "is_api_message _ = True"

fun is_model_generated_item :: "'j ResponseItem \<Rightarrow> bool" where
  "is_model_generated_item (Message _ role _ _) = (role = lit ''assistant'')"
| "is_model_generated_item (Reasoning _ _ _ _) = True"
| "is_model_generated_item (FunctionCall _ _ _ _ _) = True"
| "is_model_generated_item (ToolSearchCall _ _ _ _ _) = True"
| "is_model_generated_item (WebSearchCall _ _ _) = True"
| "is_model_generated_item (ImageGenerationCall _ _ _ _) = True"
| "is_model_generated_item (CustomToolCall _ _ _ _ _ _) = True"
| "is_model_generated_item (LocalShellCall _ _ _ _) = True"
| "is_model_generated_item (Compaction _) = True"
| "is_model_generated_item (ContextCompaction _) = True"
| "is_model_generated_item _ = False"

definition user_message_positions :: "'j history_env \<Rightarrow> 'j ResponseItem list \<Rightarrow> nat list" where
  "user_message_positions env items =
     map fst (filter (\<lambda>(idx, item). is_user_turn_boundary env item) (List.enumerate 0 items))"

section \<open>Recording\<close>

fun truncate_function_output_payload :: "FunctionCallOutputPayload \<Rightarrow> TruncationPolicy \<Rightarrow> FunctionCallOutputPayload" where
  "truncate_function_output_payload output policy =
     \<lparr>out_body =
        (case out_body output of
           Text content \<Rightarrow> Text (truncate_text content policy)
         | ContentItems items \<Rightarrow> ContentItems (truncate_function_output_items_with_policy items policy)),
      out_success = out_success output\<rparr>"

fun scale_policy :: "'j history_env \<Rightarrow> TruncationPolicy \<Rightarrow> TruncationPolicy" where
  "scale_policy env (Bytes b) = Bytes (henv_scale env b)"
| "scale_policy env (Tokens t) = Tokens (henv_scale env t)"

fun process_item :: "'j history_env \<Rightarrow> TruncationPolicy \<Rightarrow> 'j ResponseItem \<Rightarrow> 'j ResponseItem" where
  "process_item env policy (FunctionCallOutput call_id output) =
     FunctionCallOutput call_id (truncate_function_output_payload output (scale_policy env policy))"
| "process_item env policy (CustomToolCallOutput call_id name output) =
     CustomToolCallOutput call_id name (truncate_function_output_payload output (scale_policy env policy))"
| "process_item env policy item = item"

definition record_items ::
  "'j history_env \<Rightarrow> 'j ResponseItem list \<Rightarrow> TruncationPolicy \<Rightarrow> ('j, 'c) ContextManager \<Rightarrow> ('j, 'c) ContextManager" where
  "record_items env items policy cm =
     foldl (\<lambda>m item. if is_api_message item then m\<lparr>cm_items := cm_items m @ [process_item env policy item]\<rparr> else m) cm items"

definition replace_history :: "'j ResponseItem list \<Rightarrow> ('j, 'c) ContextManager \<Rightarrow> ('j, 'c) ContextManager" where
  "replace_history items cm = cm\<lparr>cm_items := items, history_version := bump (history_version cm)\<rparr>"

definition replace_recorded_items ::
  "'j history_env \<Rightarrow> 'j ResponseItem list \<Rightarrow> TruncationPolicy \<Rightarrow> ('j, 'c) ContextManager \<Rightarrow> ('j, 'c) ContextManager" where
  "replace_recorded_items env items policy cm =
     replace_history (cm_items (record_items env items policy (new_context_manager :: ('j, 'c) ContextManager))) cm"

definition remove_first_item :: "('j, 'c) ContextManager \<Rightarrow> ('j, 'c) ContextManager" where
  "remove_first_item cm =
     (case cm_items cm of
        [] \<Rightarrow> cm
      | removed # rest \<Rightarrow> cm\<lparr>cm_items := remove_corresponding_for rest removed\<rparr>)"

section \<open>The prompt\<close>

definition normalize_items :: "InputModality list \<Rightarrow> 'j ResponseItem list \<Rightarrow> 'j ResponseItem list" where
  "normalize_items input_modalities items =
     replace_remote_images_with_error (strip_images_when_unsupported input_modalities
       (remove_orphan_outputs (ensure_call_outputs_present items)))"

definition normalize_history :: "InputModality list \<Rightarrow> ('j, 'c) ContextManager \<Rightarrow> ('j, 'c) ContextManager" where
  "normalize_history input_modalities cm = cm\<lparr>cm_items := normalize_items input_modalities (cm_items cm)\<rparr>"

definition for_prompt :: "InputModality list \<Rightarrow> ('j, 'c) ContextManager \<Rightarrow> 'j ResponseItem list" where
  "for_prompt input_modalities cm = cm_items (normalize_history input_modalities cm)"

section \<open>Rolling back\<close>

text \<open>The loop that walks back from the cut, with the reference context it may clear.\<close>

fun trim_pre_turn_context_updates ::
  "'j history_env \<Rightarrow> 'j ResponseItem list \<Rightarrow> nat \<Rightarrow> nat \<Rightarrow> 'c option \<Rightarrow> nat \<times> 'c option" where
  "trim_pre_turn_context_updates env snapshot first_instruction_turn_idx 0 ref = (0, ref)"
| "trim_pre_turn_context_updates env snapshot first_instruction_turn_idx (Suc c) ref =
     (if Suc c > first_instruction_turn_idx then
        (case snapshot ! c of
           Message _ role content _ \<Rightarrow>
             if role = lit ''developer'' \<and> is_contextual_dev_message_content content then
               trim_pre_turn_context_updates env snapshot first_instruction_turn_idx c
                 (if has_non_contextual_dev_message_content content then None else ref)
             else if role = lit ''user'' \<and> is_contextual_user_message_content env content then
               trim_pre_turn_context_updates env snapshot first_instruction_turn_idx c ref
             else (Suc c, ref)
         | _ \<Rightarrow> (Suc c, ref))
      else (Suc c, ref))"

definition drop_last_n_user_turns ::
  "'j history_env \<Rightarrow> nat \<Rightarrow> ('j, 'c) ContextManager \<Rightarrow> ('j, 'c) ContextManager" where
  "drop_last_n_user_turns env num_turns cm =
     (if num_turns = 0 then cm
      else
        let snapshot = cm_items cm;
            user_positions = user_message_positions env snapshot
        in case user_positions of
             [] \<Rightarrow> replace_history snapshot cm
           | first_instruction_turn_idx # _ \<Rightarrow>
               let cut_idx = (if num_turns \<ge> length user_positions then first_instruction_turn_idx
                              else user_positions ! (length user_positions - num_turns));
                   (cut_end, ref) = trim_pre_turn_context_updates env snapshot first_instruction_turn_idx cut_idx
                                  (reference_context_item cm)
               in replace_history (take cut_end snapshot) (cm\<lparr>reference_context_item := ref\<rparr>))"

section \<open>Estimating sizes\<close>

definition estimate_reasoning_length :: "nat \<Rightarrow> nat" where
  "estimate_reasoning_length encoded_len = saturating_mul encoded_len 3 div 4 - 650"

definition estimate_encrypted_function_output_length :: "nat \<Rightarrow> nat" where
  "estimate_encrypted_function_output_length encoded_len =
     (let n = saturating_mul encoded_len 9 in n div 16 + (if n mod 16 > 0 then 1 else 0))"

definition parse_base64_image_data_url :: "str \<Rightarrow> str option" where
  "parse_base64_image_data_url url =
     (if to_ascii_lowercase (take 5 url) \<noteq> lit ''data:'' then None
      else case split_once (of_char (CHR '','')) url of
             None \<Rightarrow> None
           | Some (metadata, payload) \<Rightarrow>
               let parts = split_on (of_char (CHR '';'')) (drop 5 metadata)
               in if to_ascii_lowercase (take 6 (hd parts)) \<noteq> lit ''image/'' then None
                  else if list_ex (\<lambda>part. to_ascii_lowercase part = lit ''base64'') (tl parts) then Some payload
                  else None)"

definition estimate_original_image_bytes :: "'j history_env \<Rightarrow> str \<Rightarrow> int option" where
  "estimate_original_image_bytes env image_url =
     (case parse_base64_image_data_url image_url of
        None \<Rightarrow> None
      | Some payload \<Rightarrow>
          map_option (\<lambda>(width, height).
              let patches = i64_clamp (int ((width + 31) div 32) * int ((height + 31) div 32))
              in i64_clamp (int (approx_bytes_for_tokens (min (nat patches) 10000))))
            (henv_image_size env payload))"

definition image_adjustment :: "'j history_env \<Rightarrow> (str \<times> ImageDetail option) list \<Rightarrow> int \<times> int" where
  "image_adjustment env images =
     foldl (\<lambda>(payload_bytes, replacement_bytes) (image_url, detail).
         case parse_base64_image_data_url image_url of
           None \<Rightarrow> (payload_bytes, replacement_bytes)
         | Some payload \<Rightarrow>
             (i64_clamp (payload_bytes + i64_clamp (int (byte_len payload))),
              i64_clamp (replacement_bytes
                + (if detail = Some Original
                   then (case estimate_original_image_bytes env image_url of Some b \<Rightarrow> b | None \<Rightarrow> 7373)
                   else 7373)))) (0, 0) images"

fun output_images :: "FunctionCallOutputPayload \<Rightarrow> (str \<times> ImageDetail option) list" where
  "output_images output =
     (case out_body output of
        ContentItems items \<Rightarrow> List.map_filter (\<lambda>i. case i of OutImage url detail \<Rightarrow> Some (url, detail) | _ \<Rightarrow> None) items
      | Text _ \<Rightarrow> [])"

fun image_data_url_estimate_adjustment :: "'j history_env \<Rightarrow> 'j ResponseItem \<Rightarrow> int \<times> int" where
  "image_data_url_estimate_adjustment env (Message _ _ content _) =
     image_adjustment env (List.map_filter (\<lambda>c. case c of InputImage url detail \<Rightarrow> Some (url, detail) | _ \<Rightarrow> None) content)"
| "image_data_url_estimate_adjustment env (FunctionCallOutput _ output) = image_adjustment env (output_images output)"
| "image_data_url_estimate_adjustment env (CustomToolCallOutput _ _ output) = image_adjustment env (output_images output)"
| "image_data_url_estimate_adjustment env _ = (0, 0)"

fun encrypted_function_output_estimate_adjustment :: "'j ResponseItem \<Rightarrow> int \<times> int" where
  "encrypted_function_output_estimate_adjustment (FunctionCallOutput _ output) =
     (case out_body output of
        ContentItems items \<Rightarrow>
          foldl (\<lambda>(payload_bytes, replacement_bytes) item.
              case item of
                OutEncrypted content \<Rightarrow>
                  (i64_clamp (payload_bytes + i64_clamp (int (byte_len content))),
                   i64_clamp (replacement_bytes
                     + i64_clamp (int (estimate_encrypted_function_output_length (byte_len content)))))
              | _ \<Rightarrow> (payload_bytes, replacement_bytes)) (0, 0) items
      | Text _ \<Rightarrow> (0, 0))"
| "encrypted_function_output_estimate_adjustment _ = (0, 0)"

fun hidden_content :: "'j ResponseItem \<Rightarrow> str option" where
  "hidden_content (Reasoning _ _ _ encrypted) = encrypted"
| "hidden_content (Compaction encrypted) = Some encrypted"
| "hidden_content (ContextCompaction encrypted) = encrypted"
| "hidden_content _ = None"

definition estimate_response_item_model_visible_bytes :: "'j history_env \<Rightarrow> 'j ResponseItem \<Rightarrow> int" where
  "estimate_response_item_model_visible_bytes env item =
     (case hidden_content item of
        Some content \<Rightarrow> i64_clamp (int (estimate_reasoning_length (byte_len content)))
      | None \<Rightarrow>
          (let raw = (case henv_json_len env item of Some n \<Rightarrow> i64_clamp (int n) | None \<Rightarrow> 0);
               (image_payload, image_replacement) = image_data_url_estimate_adjustment env item;
               (encrypted_payload, encrypted_replacement) = encrypted_function_output_estimate_adjustment item;
               raw1 = i64_clamp (i64_clamp (raw - image_payload) + image_replacement)
           in i64_clamp (i64_clamp (raw1 - encrypted_payload) + encrypted_replacement)))"

definition estimate_item_token_count :: "'j history_env \<Rightarrow> 'j ResponseItem \<Rightarrow> int" where
  "estimate_item_token_count env item =
     approx_tokens_from_byte_count_i64 (estimate_response_item_model_visible_bytes env item)"

definition saturating_sum :: "int list \<Rightarrow> int" where
  "saturating_sum xs = foldl (\<lambda>a b. i64_clamp (a + b)) 0 xs"

definition estimate_token_count_with_base_instructions :: "'j history_env \<Rightarrow> str \<Rightarrow> ('j, 'c) ContextManager \<Rightarrow> int" where
  "estimate_token_count_with_base_instructions env base_instructions cm =
     i64_clamp (i64_clamp (int (approx_token_count base_instructions))
       + saturating_sum (map (estimate_item_token_count env) (cm_items cm)))"

definition rposition :: "('a \<Rightarrow> bool) \<Rightarrow> 'a list \<Rightarrow> nat option" where
  "rposition P xs = (if list_ex P xs then Some (length xs - 1 - length (takeWhile (\<lambda>x. \<not> P x) (rev xs))) else None)"

definition get_non_last_reasoning_items_tokens :: "'j history_env \<Rightarrow> ('j, 'c) ContextManager \<Rightarrow> int" where
  "get_non_last_reasoning_items_tokens env cm =
     (case rposition (is_user_turn_boundary env) (cm_items cm) of
        None \<Rightarrow> 0
      | Some last_user_index \<Rightarrow>
          saturating_sum (map (estimate_item_token_count env)
            (filter (\<lambda>item. case item of Reasoning _ _ _ (Some _) \<Rightarrow> True | _ \<Rightarrow> False) (take last_user_index (cm_items cm)))))"

definition items_after_last_model_generated_item :: "('j, 'c) ContextManager \<Rightarrow> 'j ResponseItem list" where
  "items_after_last_model_generated_item cm =
     (case rposition is_model_generated_item (cm_items cm) of
        None \<Rightarrow> []
      | Some index \<Rightarrow> drop (index + 1) (cm_items cm))"

definition get_total_token_usage :: "'j history_env \<Rightarrow> bool \<Rightarrow> ('j, 'c) ContextManager \<Rightarrow> int" where
  "get_total_token_usage env server_reasoning_included cm =
     (let last_tokens = (case token_info cm of Some info \<Rightarrow> total_tokens (last_token_usage info) | None \<Rightarrow> 0);
          after = saturating_sum (map (estimate_item_token_count env) (items_after_last_model_generated_item cm))
      in if server_reasoning_included then i64_clamp (last_tokens + after)
         else i64_clamp (i64_clamp (last_tokens + get_non_last_reasoning_items_tokens env cm) + after))"

record TotalTokenUsageBreakdown =
  last_api_response_total_tokens :: int
  all_history_items_model_visible_bytes :: int
  estimated_tokens_of_items_added :: int
  estimated_bytes_of_items_added :: int

definition get_total_token_usage_breakdown :: "'j history_env \<Rightarrow> ('j, 'c) ContextManager \<Rightarrow> TotalTokenUsageBreakdown" where
  "get_total_token_usage_breakdown env cm =
     (let last_usage = (case token_info cm of Some info \<Rightarrow> last_token_usage info | None \<Rightarrow> default_token_usage);
          added = items_after_last_model_generated_item cm
      in \<lparr>last_api_response_total_tokens = total_tokens last_usage,
          all_history_items_model_visible_bytes =
            saturating_sum (map (estimate_response_item_model_visible_bytes env) (cm_items cm)),
          estimated_tokens_of_items_added = saturating_sum (map (estimate_item_token_count env) added),
          estimated_bytes_of_items_added = saturating_sum (map (estimate_response_item_model_visible_bytes env) added)\<rparr>)"

section \<open>Bounding tool outputs\<close>

definition HEADLESS_TOOL_OUTPUT_TOTAL_TOKENS :: nat where "HEADLESS_TOOL_OUTPUT_TOTAL_TOKENS = 24000"
definition HEADLESS_TOOL_OUTPUT_ITEM_TOKENS :: nat where "HEADLESS_TOOL_OUTPUT_ITEM_TOKENS = 4000"

definition HEADLESS_TOOL_OUTPUT_OMITTED :: str where
  "HEADLESS_TOOL_OUTPUT_OMITTED = lit ''[historical tool output omitted]''"

fun headless_tool_output_token_count :: "'j history_env \<Rightarrow> 'j ResponseItem \<Rightarrow> nat option" where
  "headless_tool_output_token_count env item =
     (case item of
        FunctionCallOutput _ _ \<Rightarrow> Some (nat (estimate_item_token_count env item))
      | CustomToolCallOutput _ _ _ \<Rightarrow> Some (nat (estimate_item_token_count env item))
      | _ \<Rightarrow> None)"

definition bound_headless_tool_output_payload :: "FunctionCallOutputPayload \<Rightarrow> nat \<Rightarrow> FunctionCallOutputPayload \<times> bool" where
  "bound_headless_tool_output_payload output budget =
     (let bounded = (if budget = 0 then \<lparr>out_body = Text HEADLESS_TOOL_OUTPUT_OMITTED, out_success = out_success output\<rparr>
                     else truncate_function_output_payload output (Tokens budget))
      in if output = bounded then (output, False) else (bounded, True))"

fun bound_headless_tool_output :: "'j ResponseItem \<Rightarrow> nat \<Rightarrow> 'j ResponseItem \<times> bool" where
  "bound_headless_tool_output (FunctionCallOutput c output) budget =
     (case bound_headless_tool_output_payload output budget of (out, changed) \<Rightarrow> (FunctionCallOutput c out, changed))"
| "bound_headless_tool_output (CustomToolCallOutput c n output) budget =
     (case bound_headless_tool_output_payload output budget of (out, changed) \<Rightarrow> (CustomToolCallOutput c n out, changed))"
| "bound_headless_tool_output item budget = (item, False)"

text \<open>The loop over the items from the newest to the oldest; the items of the result are in the same order.\<close>

fun bound_loop :: "'j history_env \<Rightarrow> 'j ResponseItem list \<Rightarrow> nat \<Rightarrow> bool \<Rightarrow> 'j ResponseItem list \<times> bool" where
  "bound_loop env [] remaining_tokens changed = ([], changed)"
| "bound_loop env (item # rest) remaining_tokens changed =
     (case headless_tool_output_token_count env item of
        None \<Rightarrow> (case bound_loop env rest remaining_tokens changed of (is, ch) \<Rightarrow> (item # is, ch))
      | Some item_tokens \<Rightarrow>
          (let item_budget = min remaining_tokens HEADLESS_TOOL_OUTPUT_ITEM_TOKENS
           in if item_tokens > item_budget then
                (case bound_headless_tool_output item item_budget of
                   (item', ch1) \<Rightarrow>
                     (case bound_loop env rest (remaining_tokens - item_budget) (changed \<or> ch1) of (is, ch) \<Rightarrow> (item' # is, ch)))
              else (case bound_loop env rest (remaining_tokens - item_tokens) changed of (is, ch) \<Rightarrow> (item # is, ch))))"

definition bound_headless_turn_tool_outputs :: "'j history_env \<Rightarrow> ('j, 'c) ContextManager \<Rightarrow> ('j, 'c) ContextManager \<times> bool" where
  "bound_headless_turn_tool_outputs env cm =
     (case bound_loop env (rev (cm_items cm)) HEADLESS_TOOL_OUTPUT_TOTAL_TOKENS False of
        (items, changed) \<Rightarrow>
          (cm\<lparr>cm_items := rev items,
              history_version := (if changed then bump (history_version cm) else history_version cm)\<rparr>, changed))"

section \<open>Images of the last turn\<close>

definition is_out_image :: "FunctionCallOutputContentItem \<Rightarrow> bool" where
  "is_out_image i \<longleftrightarrow> (case i of OutImage _ _ \<Rightarrow> True | _ \<Rightarrow> False)"

definition replace_last_turn_images :: "'j history_env \<Rightarrow> str \<Rightarrow> ('j, 'c) ContextManager \<Rightarrow> ('j, 'c) ContextManager \<times> bool" where
  "replace_last_turn_images env placeholder cm =
     (case rposition (\<lambda>item. (case item of FunctionCallOutput _ _ \<Rightarrow> True | _ \<Rightarrow> False) \<or> is_user_turn_boundary env item) (cm_items cm) of
        None \<Rightarrow> (cm, False)
      | Some index \<Rightarrow>
          (case cm_items cm ! index of
             FunctionCallOutput c output \<Rightarrow>
               (case out_body output of
                  ContentItems items \<Rightarrow>
                    if list_ex is_out_image items
                    then (cm\<lparr>cm_items := (cm_items cm)
                               [index := FunctionCallOutput c
                                  (output\<lparr>out_body := ContentItems (map (replace_output_image (\<lambda>_. True) placeholder) items)\<rparr>)],
                             history_version := bump (history_version cm)\<rparr>, True)
                    else (cm, False)
                | Text _ \<Rightarrow> (cm, False))
           | _ \<Rightarrow> (cm, False)))"

end
