(* ===== verification/Context_Properties.thy ===== *)
theory Context_Properties
  imports Context_Manager
begin

text \<open>
  The transcript that reaches the model: every call has its output and every output its call, images only where they are
  supported, and a rollback that removes whole turns.
\<close>

section \<open>Calls and their outputs\<close>

fun answered_call :: "'j ResponseItem \<Rightarrow> RequiredCall option" where
  "answered_call (FunctionCallOutput c _) = Some (Function c)"
| "answered_call (CustomToolCallOutput c _ _) = Some (CustomTool c)"
| "answered_call (ToolSearchOutput c _ _ _) = map_option ToolSearch c"
| "answered_call _ = None"


lemma required_answered: "required_call_for_output i = Some r \<Longrightarrow> answered_call i = Some r"
  by (cases i) (auto split: if_splits)

lemma call_is_no_output: "output_required_by i = Some r \<Longrightarrow> answered_call i = None \<and> required_call_for_output i = None"
  by (cases i rule: output_required_by.cases) auto

lemma synthetic_simps [simp]:
  "answered_call (synthetic_output r) = Some r"
  "output_required_by (synthetic_output r) = None"
  "required_call_for_output (synthetic_output r) = Some r"
  by (cases r; simp)+

lemma in_map_filter: "x \<in> set (List.map_filter g xs) \<longleftrightarrow> (\<exists>i \<in> set xs. g i = Some x)"
  by (induction xs) (auto simp: map_filter_simps split: option.splits)

lemma distinct_map_filter_filter: "distinct (List.map_filter f xs) \<Longrightarrow> distinct (List.map_filter f (filter P xs))"
  by (induction xs) (auto simp: map_filter_simps in_map_filter split: option.splits)


definition calls_answered :: "'j ResponseItem list \<Rightarrow> bool" where
  "calls_answered items \<longleftrightarrow>
     list_all (\<lambda>c. case output_required_by c of
                     Some r \<Rightarrow> list_ex (\<lambda>i. answered_call i = Some r) items
                   | None \<Rightarrow> True) items"

definition outputs_called :: "'j ResponseItem list \<Rightarrow> bool" where
  "outputs_called items \<longleftrightarrow>
     list_all (\<lambda>i. case required_call_for_output i of
                     Some r \<Rightarrow> list_ex (\<lambda>c. output_required_by c = Some r) items
                   | None \<Rightarrow> True) items"

lemma calls_answered_iff:
  "calls_answered items \<longleftrightarrow>
     (\<forall>c \<in> set items. \<forall>r. output_required_by c = Some r \<longrightarrow> (\<exists>i \<in> set items. answered_call i = Some r))"
  by (auto simp: calls_answered_def list_all_iff list_ex_iff split: option.splits)

lemma outputs_called_iff:
  "outputs_called items \<longleftrightarrow>
     (\<forall>i \<in> set items. \<forall>r. required_call_for_output i = Some r \<longrightarrow> (\<exists>c \<in> set items. output_required_by c = Some r))"
  by (auto simp: outputs_called_def list_all_iff list_ex_iff split: option.splits)

section \<open>Adding missing outputs\<close>







section \<open>Removing orphans\<close>





section \<open>Images\<close>

lemma image_passes_keep_kind [simp]:
  "answered_call (replace_item_images P t i) = answered_call i"
  "output_required_by (replace_item_images P t i) = output_required_by i"
  "required_call_for_output (replace_item_images P t i) = required_call_for_output i"
  "answered_call (clear_generated_image i) = answered_call i"
  "output_required_by (clear_generated_image i) = output_required_by i"
  "required_call_for_output (clear_generated_image i) = required_call_for_output i"
proof -
  show "answered_call (replace_item_images P t i) = answered_call i" by (cases i) auto
  show "output_required_by (replace_item_images P t i) = output_required_by i" by (cases i rule: output_required_by.cases) auto
  show "required_call_for_output (replace_item_images P t i) = required_call_for_output i" by (cases i) auto
  show "answered_call (clear_generated_image i) = answered_call i" by (cases i) auto
  show "output_required_by (clear_generated_image i) = output_required_by i" by (cases i rule: output_required_by.cases) auto
  show "required_call_for_output (clear_generated_image i) = required_call_for_output i" by (cases i) auto
qed

text \<open>The image pass of one item.\<close>

definition image_pass :: "InputModality list \<Rightarrow> 'j ResponseItem \<Rightarrow> 'j ResponseItem" where
  "image_pass mods i =
     replace_item_images is_remote_image_url REMOTE_IMAGE_URL_PLACEHOLDER
       (if ModImage \<in> set mods then i
        else clear_generated_image (replace_item_images (\<lambda>_. True) IMAGE_CONTENT_OMITTED_PLACEHOLDER i))"


lemma image_pass_keeps_kind [simp]:
  "answered_call (image_pass mods i) = answered_call i"
  "output_required_by (image_pass mods i) = output_required_by i"
  "required_call_for_output (image_pass mods i) = required_call_for_output i"
  by (simp_all add: image_pass_def)







section \<open>The prompt\<close>





section \<open>Removing the oldest item\<close>

text \<open>No two calls and no two outputs carry the same identifier.\<close>

definition unique_ids :: "'j ResponseItem list \<Rightarrow> bool" where
  "unique_ids items \<longleftrightarrow> distinct (List.map_filter output_required_by items) \<and> distinct (List.map_filter answered_call items)"

lemma remove_only_match:
  assumes "distinct (List.map_filter f xs)" and "\<And>i. i \<in> set xs \<Longrightarrow> P i \<Longrightarrow> f i = Some r"
    and "\<exists>i \<in> set xs. f i = Some r \<Longrightarrow> \<exists>i \<in> set xs. P i"
  shows "remove_first_matching P xs = filter (\<lambda>i. f i \<noteq> Some r) xs"
proof (cases "\<exists>i \<in> set xs. P i")
  case False
  then have same: "filter (\<lambda>i. f i \<noteq> Some r) xs = xs" "takeWhile (\<lambda>i. \<not> P i) xs = xs" "dropWhile (\<lambda>i. \<not> P i) xs = []"
    using assms(3) by (auto simp: filter_id_conv takeWhile_eq_all_conv dropWhile_eq_Nil_conv)
  show ?thesis unfolding remove_first_matching_def same by simp
next
  case True
  then obtain ys i zs where xs: "xs = ys @ i # zs" "P i" "\<forall>y \<in> set ys. \<not> P y"
    using split_list_first_prop [of xs P] by blast
  have i: "f i = Some r" using assms(2) xs by simp
  have "List.map_filter f xs = List.map_filter f ys @ r # List.map_filter f zs" by (simp add: xs(1) map_filter_def i)
  with assms(1) have "r \<notin> set (List.map_filter f ys)" "r \<notin> set (List.map_filter f zs)" by simp_all
  then have others: "f y \<noteq> Some r" if "y \<in> set ys \<union> set zs" for y using that by (auto simp: in_map_filter)
  have "takeWhile (\<lambda>i. \<not> P i) (ys @ i # zs) = ys" "dropWhile (\<lambda>i. \<not> P i) (ys @ i # zs) = i # zs"
    using xs(2,3) by (simp_all add: takeWhile_append2 dropWhile_append2)
  then have "remove_first_matching P xs = ys @ zs" by (simp add: remove_first_matching_def xs(1))
  moreover have "filter (\<lambda>i. f i \<noteq> Some r) ys = ys" "filter (\<lambda>i. f i \<noteq> Some r) zs = zs"
    using others by (simp_all add: filter_id_conv)
  ultimately show ?thesis by (simp add: xs(1) i)
qed

lemma remove_corresponding_call:
  assumes "unique_ids (x # rest)" and "output_required_by x = Some r"
  shows "remove_corresponding_for rest x = filter (\<lambda>i. answered_call i \<noteq> Some r) rest"
proof -
  have u: "distinct (List.map_filter answered_call rest)"
    using assms(1) by (auto simp: unique_ids_def map_filter_simps split: option.splits)
  have p: "(\<lambda>i :: 'a ResponseItem. case i of FunctionCallOutput existing _ \<Rightarrow> existing = c | _ \<Rightarrow> False) = (\<lambda>i. answered_call i = Some (Function c))"
    "(\<lambda>i :: 'a ResponseItem. case i of ToolSearchOutput existing _ _ _ \<Rightarrow> existing = Some c | _ \<Rightarrow> False) = (\<lambda>i. answered_call i = Some (ToolSearch c))"
    "(\<lambda>i :: 'a ResponseItem. case i of CustomToolCallOutput existing _ _ \<Rightarrow> existing = c | _ \<Rightarrow> False) = (\<lambda>i. answered_call i = Some (CustomTool c))"
    for c by (auto simp: fun_eq_iff split: ResponseItem.split)
  have "remove_corresponding_for rest x = remove_first_matching (\<lambda>i. answered_call i = Some r) rest"
    using assms(2) by (cases x rule: output_required_by.cases) (auto simp: p)
  also have "\<dots> = filter (\<lambda>i. answered_call i \<noteq> Some r) rest" by (rule remove_only_match [OF u]) auto
  finally show ?thesis .
qed

lemma remove_corresponding_output:
  assumes "unique_ids (x # rest)" and "answered_call x = Some r"
  shows "remove_corresponding_for rest x = filter (\<lambda>i. output_required_by i \<noteq> Some r) rest"
proof -
  have u: "distinct (List.map_filter output_required_by rest)"
    using assms(1) by (auto simp: unique_ids_def map_filter_simps split: option.splits)
  show ?thesis
  proof (cases x)
    case (FunctionCallOutput c out)
    let ?call = "\<lambda>i :: 'a ResponseItem. case i of FunctionCall _ _ _ _ existing \<Rightarrow> existing = c | _ \<Rightarrow> False"
    let ?shell = "\<lambda>i :: 'a ResponseItem. case i of LocalShellCall _ existing _ _ \<Rightarrow> existing = Some c | _ \<Rightarrow> False"
    have r: "r = Function c" using assms(2) FunctionCallOutput by simp
    have p: "output_required_by i = Some (Function c) \<longleftrightarrow> ?call i \<or> ?shell i" for i :: "'a ResponseItem"
      by (cases i rule: output_required_by.cases) auto
    have "remove_first_matching ?call rest = filter (\<lambda>i. output_required_by i \<noteq> Some r) rest" if "list_ex ?call rest"
      using that by (intro remove_only_match [OF u]) (auto simp: p r list_ex_iff)
    moreover have "remove_first_matching ?shell rest = filter (\<lambda>i. output_required_by i \<noteq> Some r) rest"
      if "\<not> list_ex ?call rest" "list_ex ?shell rest"
      using that by (intro remove_only_match [OF u]) (auto simp: p r list_ex_iff)
    moreover have "rest = filter (\<lambda>i. output_required_by i \<noteq> Some r) rest" if "\<not> list_ex ?call rest" "\<not> list_ex ?shell rest"
      using that by (simp add: filter_id_conv p r list_ex_iff)
    ultimately show ?thesis by (simp add: FunctionCallOutput Let_def)
  next
    case (CustomToolCallOutput c n out)
    then show ?thesis using assms(2)
      by (simp, intro remove_only_match [OF u]) (auto split: ResponseItem.splits elim!: output_required_by.elims)
  next
    case (ToolSearchOutput c st ex ts)
    then obtain d where "c = Some d" "r = ToolSearch d" using assms(2) by auto
    then show ?thesis using ToolSearchOutput
      by (simp, intro remove_only_match [OF u]) (auto split: ResponseItem.splits elim!: output_required_by.elims)
  qed (use assms(2) in simp_all)
qed

lemma remove_corresponding_other:
  "output_required_by x = None \<Longrightarrow> answered_call x = None \<Longrightarrow> remove_corresponding_for rest x = rest"
  by (cases x rule: output_required_by.cases) auto

text \<open>C38: dropping the oldest item keeps the transcript well formed. When no two calls and no two outputs have the same
  identifier and calls and outputs correspond, they still do after the oldest item and its counterpart are removed.\<close>

theorem remove_first_item_keeps_pairs:
  assumes "calls_answered (cm_items cm)" and "outputs_called (cm_items cm)" and "unique_ids (cm_items cm)"
  shows "calls_answered (cm_items (remove_first_item cm)) \<and> outputs_called (cm_items (remove_first_item cm))
     \<and> unique_ids (cm_items (remove_first_item cm))"
proof (cases "cm_items cm")
  case Nil
  with assms show ?thesis by (simp add: remove_first_item_def)
next
  case (Cons x rest)
  have u: "unique_ids (x # rest)" using assms(3) Cons by simp
  have ids: "unique_ids (filter P rest)" for P
    using u by (auto simp: unique_ids_def map_filter_simps intro!: distinct_map_filter_filter split: option.splits)
  have answered: "\<exists>i \<in> set (x # rest). answered_call i = Some r" if "c \<in> set (x # rest)" "output_required_by c = Some r" for c r
    using assms(1) that by (auto simp: Cons calls_answered_iff)
  have called: "\<exists>c \<in> set (x # rest). output_required_by c = Some r" if "i \<in> set (x # rest)" "required_call_for_output i = Some r" for i r
    using assms(2) that by (auto simp: Cons outputs_called_iff)
  consider (call) r where "output_required_by x = Some r" | (out) r where "answered_call x = Some r"
    | (other) "output_required_by x = None" "answered_call x = None" by fastforce
  then show ?thesis
  proof cases
    case call
    have once: "output_required_by c \<noteq> Some r" if "c \<in> set rest" for c
      using u that call by (auto simp: unique_ids_def map_filter_simps in_map_filter)
    let ?kept = "filter (\<lambda>i. answered_call i \<noteq> Some r) rest"
    have "calls_answered ?kept" unfolding calls_answered_iff
    proof (intro ballI allI impI)
      fix c q assume c: "c \<in> set ?kept" "output_required_by c = Some q"
      with answered [of c q] call_is_no_output [OF call] obtain i where "i \<in> set rest" "answered_call i = Some q" by auto
      with once [of c] c show "\<exists>i \<in> set ?kept. answered_call i = Some q" by auto
    qed
    moreover have "outputs_called ?kept" unfolding outputs_called_iff
    proof (intro ballI allI impI)
      fix i q assume i: "i \<in> set ?kept" "required_call_for_output i = Some q"
      with required_answered [OF i(2)] have "q \<noteq> r" by auto
      with called [of i q] i call obtain c where "c \<in> set rest" "output_required_by c = Some q" by auto
      with call_is_no_output show "\<exists>c \<in> set ?kept. output_required_by c = Some q" by fastforce
    qed
    ultimately show ?thesis by (simp add: remove_first_item_def Cons remove_corresponding_call [OF u call] ids)
  next
    case out
    have once: "answered_call i \<noteq> Some r" if "i \<in> set rest" for i
      using u that out by (auto simp: unique_ids_def map_filter_simps in_map_filter split: option.splits)
    let ?kept = "filter (\<lambda>i. output_required_by i \<noteq> Some r) rest"
    have "calls_answered ?kept" unfolding calls_answered_iff
    proof (intro ballI allI impI)
      fix c q assume c: "c \<in> set ?kept" "output_required_by c = Some q"
      with answered [of c q] out obtain i where "i \<in> set rest" "answered_call i = Some q" by auto
      with call_is_no_output show "\<exists>i \<in> set ?kept. answered_call i = Some q" by fastforce
    qed
    moreover have "outputs_called ?kept" unfolding outputs_called_iff
    proof (intro ballI allI impI)
      fix i q assume i: "i \<in> set ?kept" "required_call_for_output i = Some q"
      with required_answered [OF i(2)] once have "q \<noteq> r" by auto
      moreover from called [of i q] i obtain c where "c \<in> set (x # rest)" "output_required_by c = Some q" by auto
      moreover from this call_is_no_output out have "c \<noteq> x" by fastforce
      ultimately show "\<exists>c \<in> set ?kept. output_required_by c = Some q" by auto
    qed
    ultimately show ?thesis by (simp add: remove_first_item_def Cons remove_corresponding_output [OF u out] ids)
  next
    case other
    have "calls_answered rest" "outputs_called rest"
      using answered called other by (fastforce simp: calls_answered_iff outputs_called_iff)+
    then show ?thesis using ids [of "\<lambda>_. True"] by (simp add: remove_first_item_def Cons remove_corresponding_other other)
  qed
qed

theorem remove_first_item_keeps_pairs_witness:
  "calls_answered (cm_items (remove_first_item (new_context_manager\<lparr>cm_items :=
     [FunctionCall None (lit ''f'') None [] (lit ''1''), CustomToolCall None None (lit ''2'') [] None [],
      FunctionCallOutput (lit ''1'') (from_text []), CustomToolCallOutput (lit ''2'') None (from_text [])]\<rparr>
     :: (nat, nat) ContextManager)))"
proof -
  let ?cm = "new_context_manager\<lparr>cm_items :=
     [FunctionCall None (lit ''f'') None [] (lit ''1''), CustomToolCall None None (lit ''2'') [] None [],
      FunctionCallOutput (lit ''1'') (from_text []), CustomToolCallOutput (lit ''2'') None (from_text [])]\<rparr>
     :: (nat, nat) ContextManager"
  have "calls_answered (cm_items ?cm)" "outputs_called (cm_items ?cm)" "unique_ids (cm_items ?cm)" by code_simp+
  from remove_first_item_keeps_pairs [OF this] show ?thesis by blast
qed

section \<open>Rolling back turns\<close>

abbreviation turns :: "'j history_env \<Rightarrow> 'j ResponseItem list \<Rightarrow> nat" where
  "turns env items \<equiv> length (filter (is_user_turn_boundary env) items)"

lemma enumerate_Suc: "List.enumerate (Suc n) xs = map (\<lambda>(i, x). (Suc i, x)) (List.enumerate n xs)"
  by (induction xs arbitrary: n) simp_all

lemma positions_simps:
  "user_message_positions env [] = []"
  "user_message_positions env (x # xs) =
     (if is_user_turn_boundary env x then [0] else []) @ map Suc (user_message_positions env xs)"
  by (simp_all add: user_message_positions_def enumerate_Suc filter_map o_def split_def)

lemma length_positions: "length (user_message_positions env xs) = turns env xs"
  by (induction xs) (simp_all add: positions_simps)

text \<open>Cutting at the position of a turn leaves the turns before it.\<close>

lemma turns_before_position:
  "k < turns env xs \<Longrightarrow>
     turns env (take (user_message_positions env xs ! k) xs) = k
     \<and> user_message_positions env xs ! k < length xs
     \<and> prefix (takeWhile (\<lambda>i. \<not> is_user_turn_boundary env i) xs) (take (user_message_positions env xs ! k) xs)"
proof (induction xs arbitrary: k)
  case (Cons x xs)
  show ?case
  proof (cases "is_user_turn_boundary env x")
    case True
    with Cons show ?thesis by (cases k) (auto simp: positions_simps length_positions)
  next
    case False
    with Cons show ?thesis by (auto simp: positions_simps length_positions)
  qed
qed simp

lemma first_position:
  "turns env xs \<noteq> 0 \<Longrightarrow>
     user_message_positions env xs ! 0 = length (takeWhile (\<lambda>i. \<not> is_user_turn_boundary env i) xs)"
  by (induction xs) (auto simp: positions_simps length_positions)

text \<open>Trimming removes no turn and stops at the first one.\<close>

lemma trim_keeps_turns:
  assumes "trim_pre_turn_context_updates env xs first n ref = (m, ref')" and "n \<le> length xs" and "first \<le> n"
  shows "first \<le> m \<and> m \<le> n \<and> turns env (take m xs) = turns env (take n xs)"
  using assms
proof (induction n arbitrary: ref)
  case (Suc n)
  have step: "turns env (take (Suc n) xs) = turns env (take n xs) + (if is_user_turn_boundary env (xs ! n) then 1 else 0)"
    using Suc.prems(2) by (simp add: take_Suc_conv_app_nth)
  have roles: "lit ''developer'' \<noteq> lit ''user''" "lit ''developer'' \<noteq> lit ''assistant''" "lit ''user'' \<noteq> lit ''assistant''" by simp_all
  consider (stop) "m = Suc n"
    | (go) ref1 where "trim_pre_turn_context_updates env xs first n ref1 = (m, ref')" "first \<le> n"
        "\<not> is_user_turn_boundary env (xs ! n)"
    using Suc.prems(1,3) roles by (auto split: if_splits ResponseItem.splits)
  then show ?case
  proof cases
    case go
    with Suc.IH [OF go(1) _ go(2)] Suc.prems(2) step show ?thesis by simp
  qed (use Suc.prems in simp)
qed simp

text \<open>C39: a rollback removes whole turns. Rolling back some turns leaves a beginning of the transcript with that many turns less,
  or none, and never touches what comes before the first turn; the version of the history grows.\<close>

theorem rollback_drops_turns:
  assumes "0 < n"
  shows "prefix (cm_items (drop_last_n_user_turns env n cm)) (cm_items cm)
     \<and> turns env (cm_items (drop_last_n_user_turns env n cm)) = turns env (cm_items cm) - n
     \<and> prefix (takeWhile (\<lambda>i. \<not> is_user_turn_boundary env i) (cm_items cm)) (cm_items (drop_last_n_user_turns env n cm))
     \<and> history_version (drop_last_n_user_turns env n cm) = bump (history_version cm)"
proof (cases "turns env (cm_items cm) = 0")
  case True
  then have "user_message_positions env (cm_items cm) = []" using length_positions [of env "cm_items cm"] by simp
  with assms True show ?thesis
    by (simp add: drop_last_n_user_turns_def replace_history_def Let_def takeWhile_is_prefix)
next
  case False
  let ?xs = "cm_items cm" and ?ps = "user_message_positions env (cm_items cm)"
  obtain first ps where ps: "?ps = first # ps" using False length_positions [of env ?xs] by (cases ?ps) auto
  define idx where "idx = (if n \<ge> length ?ps then first else ?ps ! (length ?ps - n))"
  have len: "turns env ?xs = Suc (length ps)" using length_positions [of env ?xs] by (simp add: ps)
  have k: "idx = ?ps ! (turns env ?xs - n)" "turns env ?xs - n < turns env ?xs"
    using assms False by (auto simp: idx_def len ps not_le)
  note at = turns_before_position [OF k(2), folded k(1)]
  have first: "first = length (takeWhile (\<lambda>i. \<not> is_user_turn_boundary env i) ?xs)"
    using first_position [OF False] by (simp add: ps)
  obtain m ref where trim: "trim_pre_turn_context_updates env ?xs first idx (reference_context_item cm) = (m, ref)" by fastforce
  have "first \<le> idx" using at prefix_length_le first by fastforce
  from trim_keeps_turns [OF trim _ this] at
  have m: "first \<le> m" "turns env (take m ?xs) = turns env ?xs - n" by auto
  have result: "drop_last_n_user_turns env n cm = replace_history (take m ?xs) (cm\<lparr>reference_context_item := ref\<rparr>)"
    using assms trim unfolding drop_last_n_user_turns_def Let_def ps list.case idx_def [unfolded ps, symmetric] by simp
  have "takeWhile (\<lambda>i. \<not> is_user_turn_boundary env i) ?xs = take first ?xs" unfolding first by (rule takeWhile_eq_take)
  moreover have "prefix (take first ?xs) (take m ?xs)" using m(1) by (metis min.absorb1 take_is_prefix take_take)
  ultimately show ?thesis using m(2) by (simp add: result replace_history_def take_is_prefix)
qed

definition sample_history_env :: "nat history_env" where
  "sample_history_env = \<lparr>henv_from_xml = (\<lambda>_. None), henv_inter_agent_json = (\<lambda>_. False), henv_json_len = (\<lambda>_. None),
     henv_image_size = (\<lambda>_. None), henv_scale = (\<lambda>n. n)\<rparr>"

definition sample_message :: "string \<Rightarrow> string \<Rightarrow> nat ResponseItem" where
  "sample_message role t = Message None (lit role) [InputText (lit t)] None"

definition sample_context :: "nat ResponseItem" where
  "sample_context = fragment_into (TurnAborted (lit ''stop''))"

definition sample_transcript :: "(nat, nat) ContextManager" where
  "sample_transcript = new_context_manager\<lparr>cm_items := [sample_context, sample_message ''user'' ''one'',
     sample_message ''assistant'' ''a'', sample_context, sample_message ''user'' ''two'', sample_message ''assistant'' ''b'']\<rparr>"

theorem rollback_drops_turns_witness:
  "cm_items (drop_last_n_user_turns sample_history_env 1 sample_transcript) =
     [sample_context, sample_message ''user'' ''one'', sample_message ''assistant'' ''a'']
   \<and> turns sample_history_env (cm_items (drop_last_n_user_turns sample_history_env 1 sample_transcript)) =
       turns sample_history_env (cm_items sample_transcript) - 1"
proof (rule conjI)
  show "cm_items (drop_last_n_user_turns sample_history_env 1 sample_transcript) =
     [sample_context, sample_message ''user'' ''one'', sample_message ''assistant'' ''a'']" by code_simp
qed (use rollback_drops_turns [of 1 sample_history_env sample_transcript] in simp)

end
