(* ===== verification/Context_Fragment_Properties.thy ===== *)
theory Context_Fragment_Properties
  imports Context_Manager
begin

text \<open>
  What the program injects into a conversation is told apart from what the user says: a rendered fragment is recognised,
  so it never opens a turn of the user.
\<close>











text \<open>The key of an additional context comes from a client and is not checked: with a closing bracket in it the
  fragment counts as something the user said.\<close>

lemma bracket_in_key_opens_a_turn:
  "is_user_turn_boundary \<lparr>henv_from_xml = (\<lambda>_. None), henv_inter_agent_json = (\<lambda>_. False), henv_json_len = (\<lambda>_. None),
     henv_image_size = (\<lambda>_. None), henv_scale = (\<lambda>n. n)\<rparr>
     (fragment_into (AdditionalContextUserFragment (lit ''a>b'') (lit ''x'')) :: nat ResponseItem)"
  by code_simp


end
