(* ===== verification/Network_Address.thy ===== *)
theory Network_Address
  imports Prelude "HOL-Library.Word"
begin

text \<open>
  IP addresses as the network proxy uses them (\<^verbatim>\<open>codex-rs/network-proxy/src/policy.rs\<close>): the parser of the standard library
  (\<^verbatim>\<open>str::parse::<IpAddr>\<close>), its classes of addresses, and the class of addresses that are not public. An IPv4 address is a
  32-bit word, an IPv6 address eight 16-bit groups.
\<close>

unbundle bit_operations_syntax

section \<open>Addresses\<close>

type_synonym Ipv4Addr = "32 word"

datatype Ipv6Addr = Ipv6Addr "16 word" "16 word" "16 word" "16 word" "16 word" "16 word" "16 word" "16 word"

datatype IpAddr = V4 Ipv4Addr | V6 Ipv6Addr

definition from_octets :: "nat \<Rightarrow> nat \<Rightarrow> nat \<Rightarrow> nat \<Rightarrow> Ipv4Addr" where
  "from_octets a b c d = of_nat (((a * 256 + b) * 256 + c) * 256 + d)"

definition octet :: "nat \<Rightarrow> Ipv4Addr \<Rightarrow> nat" where
  "octet i ip = unat (take_bit 8 (drop_bit (8 * (3 - i)) ip))"

section \<open>Parsing\<close>

text \<open>A reader takes the text that is left and gives the value and the rest, or None without reading anything.\<close>

type_synonym 'a reader = "str \<Rightarrow> ('a \<times> str) option"

fun to_digit :: "nat \<Rightarrow> nat \<Rightarrow> nat option" where
  "to_digit radix c =
     (let d = (if 48 \<le> c \<and> c \<le> 57 then Some (c - 48)
               else if 97 \<le> c \<and> c \<le> 122 then Some (c - 87)
               else if 65 \<le> c \<and> c \<le> 90 then Some (c - 55)
               else None)
      in case d of Some n \<Rightarrow> if n < radix then Some n else None | None \<Rightarrow> None)"

fun read_digits :: "nat \<Rightarrow> str \<Rightarrow> nat list \<times> str" where
  "read_digits radix [] = ([], [])"
| "read_digits radix (c # s) =
     (case to_digit radix c of
        Some d \<Rightarrow> (let (ds, rest) = read_digits radix s in (d # ds, rest))
      | None \<Rightarrow> ([], c # s))"

definition read_number :: "nat \<Rightarrow> nat \<Rightarrow> bool \<Rightarrow> nat \<Rightarrow> nat reader" where
  "read_number radix max_digits allow_zero_prefix max_value s =
     (let (ds, rest) = read_digits radix s; result = foldl (\<lambda>n d. n * radix + d) 0 ds
      in if length ds > max_digits then None
         else if ds = [] then None
         else if \<not> allow_zero_prefix \<and> hd ds = 0 \<and> length ds > 1 then None
         else if result > max_value then None
         else Some (result, rest))"

fun read_given_char :: "nat \<Rightarrow> unit reader" where
  "read_given_char c [] = None"
| "read_given_char c (x # s) = (if x = c then Some ((), s) else None)"

definition read_separator :: "nat \<Rightarrow> nat \<Rightarrow> 'a reader \<Rightarrow> 'a reader" where
  "read_separator sep index inner s =
     (if index > 0 then (case read_given_char sep s of Some (_, rest) \<Rightarrow> inner rest | None \<Rightarrow> None) else inner s)"

fun read_octets :: "nat \<Rightarrow> nat \<Rightarrow> nat list reader" where
  "read_octets 0 i s = Some ([], s)"
| "read_octets (Suc k) i s =
     (case read_separator 46 i (read_number 10 3 False 255) s of
        Some (n, rest) \<Rightarrow> map_option (\<lambda>(ns, r). (n # ns, r)) (read_octets k (Suc i) rest)
      | None \<Rightarrow> None)"

definition read_ipv4_addr :: "Ipv4Addr reader" where
  "read_ipv4_addr s =
     (case read_octets 4 0 s of
        Some ([a, b, c, d], rest) \<Rightarrow> Some (from_octets a b c d, rest)
      | _ \<Rightarrow> None)"

text \<open>The groups of an IPv6 address: how many are left, the position, and whether they end with an embedded IPv4 address,
  for which two groups must be left.\<close>

fun read_groups :: "nat \<Rightarrow> nat \<Rightarrow> str \<Rightarrow> nat list \<times> bool \<times> str" where
  "read_groups 0 i s = ([], False, s)"
| "read_groups (Suc k) i s =
     (case (if k > 0 then read_separator 58 i read_ipv4_addr s else None) of
        Some (v4, rest) \<Rightarrow> ([octet 0 v4 * 256 + octet 1 v4, octet 2 v4 * 256 + octet 3 v4], True, rest)
      | None \<Rightarrow>
          (case read_separator 58 i (read_number 16 4 True 65535) s of
             Some (g, rest) \<Rightarrow> (let (gs, v4, r) = read_groups k (Suc i) rest in (g # gs, v4, r))
           | None \<Rightarrow> ([], False, s)))"

fun from_segments :: "nat list \<Rightarrow> Ipv6Addr option" where
  "from_segments [a, b, c, d, e, f, g, h] =
     Some (Ipv6Addr (of_nat a) (of_nat b) (of_nat c) (of_nat d) (of_nat e) (of_nat f) (of_nat g) (of_nat h))"
| "from_segments _ = None"

definition read_ipv6_addr :: "Ipv6Addr reader" where
  "read_ipv6_addr s =
     (let (head, head_ipv4, r) = read_groups 8 0 s
      in if length head = 8 then map_option (\<lambda>ip. (ip, r)) (from_segments head)
         else if head_ipv4 then None
         else case read_given_char 58 r of
           None \<Rightarrow> None
         | Some (_, r1) \<Rightarrow>
             (case read_given_char 58 r1 of
                None \<Rightarrow> None
              | Some (_, r2) \<Rightarrow>
                  (let (tail, _, r3) = read_groups (8 - (length head + 1)) 0 r2
                   in map_option (\<lambda>ip. (ip, r3))
                        (from_segments (head @ replicate (8 - length tail - length head) 0 @ tail)))))"

definition read_ip_addr :: "IpAddr reader" where
  "read_ip_addr s =
     (case read_ipv4_addr s of
        Some (ip, rest) \<Rightarrow> Some (V4 ip, rest)
      | None \<Rightarrow> map_option (\<lambda>(ip, rest). (V6 ip, rest)) (read_ipv6_addr s))"

definition parse_ip_addr :: "str \<Rightarrow> IpAddr option" where
  "parse_ip_addr s = (case read_ip_addr s of Some (ip, []) \<Rightarrow> Some ip | _ \<Rightarrow> None)"

section \<open>Classes of the standard library\<close>

definition ipv4_is_loopback :: "Ipv4Addr \<Rightarrow> bool" where
  "ipv4_is_loopback ip \<longleftrightarrow> octet 0 ip = 127"

definition ipv4_is_private :: "Ipv4Addr \<Rightarrow> bool" where
  "ipv4_is_private ip \<longleftrightarrow>
     octet 0 ip = 10
     \<or> octet 0 ip = 172 \<and> 16 \<le> octet 1 ip \<and> octet 1 ip \<le> 31
     \<or> octet 0 ip = 192 \<and> octet 1 ip = 168"

definition ipv4_is_link_local :: "Ipv4Addr \<Rightarrow> bool" where
  "ipv4_is_link_local ip \<longleftrightarrow> octet 0 ip = 169 \<and> octet 1 ip = 254"

definition ipv4_is_unspecified :: "Ipv4Addr \<Rightarrow> bool" where
  "ipv4_is_unspecified ip \<longleftrightarrow> ip = 0"

definition ipv4_is_multicast :: "Ipv4Addr \<Rightarrow> bool" where
  "ipv4_is_multicast ip \<longleftrightarrow> 224 \<le> octet 0 ip \<and> octet 0 ip \<le> 239"

definition ipv4_is_broadcast :: "Ipv4Addr \<Rightarrow> bool" where
  "ipv4_is_broadcast ip \<longleftrightarrow> ip = from_octets 255 255 255 255"

fun to_ipv4 :: "Ipv6Addr \<Rightarrow> Ipv4Addr option" where
  "to_ipv4 (Ipv6Addr a b c d e f g h) =
     (if a = 0 \<and> b = 0 \<and> c = 0 \<and> d = 0 \<and> e = 0 \<and> (f = 0 \<or> f = 0xFFFF)
      then Some (of_nat (unat g * 65536 + unat h)) else None)"

fun ipv6_is_loopback :: "Ipv6Addr \<Rightarrow> bool" where
  "ipv6_is_loopback ip \<longleftrightarrow> ip = Ipv6Addr 0 0 0 0 0 0 0 1"

fun ipv6_is_unspecified :: "Ipv6Addr \<Rightarrow> bool" where
  "ipv6_is_unspecified ip \<longleftrightarrow> ip = Ipv6Addr 0 0 0 0 0 0 0 0"

fun ipv6_is_multicast :: "Ipv6Addr \<Rightarrow> bool" where
  "ipv6_is_multicast (Ipv6Addr a _ _ _ _ _ _ _) \<longleftrightarrow> a AND 0xFF00 = 0xFF00"

fun ipv6_is_unique_local :: "Ipv6Addr \<Rightarrow> bool" where
  "ipv6_is_unique_local (Ipv6Addr a _ _ _ _ _ _ _) \<longleftrightarrow> a AND 0xFE00 = 0xFC00"

fun ipv6_is_unicast_link_local :: "Ipv6Addr \<Rightarrow> bool" where
  "ipv6_is_unicast_link_local (Ipv6Addr a _ _ _ _ _ _ _) \<longleftrightarrow> a AND 0xFFC0 = 0xFE80"

fun ip_is_loopback :: "IpAddr \<Rightarrow> bool" where
  "ip_is_loopback (V4 ip) = ipv4_is_loopback ip"
| "ip_is_loopback (V6 ip) = ipv6_is_loopback ip"

section \<open>Addresses that are not public\<close>

definition ipv4_in_cidr :: "Ipv4Addr \<Rightarrow> Ipv4Addr \<Rightarrow> nat \<Rightarrow> bool" where
  "ipv4_in_cidr ip base prefix_len =
     (let m = (if prefix_len = 0 then 0 else push_bit (32 - prefix_len) (- 1))
      in ip AND m = base AND m)"

definition is_non_public_ipv4 :: "Ipv4Addr \<Rightarrow> bool" where
  "is_non_public_ipv4 ip \<longleftrightarrow>
     ipv4_is_loopback ip \<or> ipv4_is_private ip \<or> ipv4_is_link_local ip \<or> ipv4_is_unspecified ip
     \<or> ipv4_is_multicast ip \<or> ipv4_is_broadcast ip
     \<or> ipv4_in_cidr ip (from_octets 0 0 0 0) 8
     \<or> ipv4_in_cidr ip (from_octets 100 64 0 0) 10
     \<or> ipv4_in_cidr ip (from_octets 192 0 0 0) 24
     \<or> ipv4_in_cidr ip (from_octets 192 0 2 0) 24
     \<or> ipv4_in_cidr ip (from_octets 198 18 0 0) 15
     \<or> ipv4_in_cidr ip (from_octets 198 51 100 0) 24
     \<or> ipv4_in_cidr ip (from_octets 203 0 113 0) 24
     \<or> ipv4_in_cidr ip (from_octets 240 0 0 0) 4"

definition is_non_public_ipv6 :: "Ipv6Addr \<Rightarrow> bool" where
  "is_non_public_ipv6 ip =
     (case to_ipv4 ip of
        Some v4 \<Rightarrow> is_non_public_ipv4 v4 \<or> ipv6_is_loopback ip
      | None \<Rightarrow> ipv6_is_loopback ip \<or> ipv6_is_unspecified ip \<or> ipv6_is_multicast ip \<or> ipv6_is_unique_local ip
               \<or> ipv6_is_unicast_link_local ip)"

fun is_non_public_ip :: "IpAddr \<Rightarrow> bool" where
  "is_non_public_ip (V4 ip) = is_non_public_ipv4 ip"
| "is_non_public_ip (V6 ip) = is_non_public_ipv6 ip"

section \<open>The ranges of a class\<close>

text \<open>A prefix of length \<open>p\<close> fixes the quotient by \<open>2 ^ (32 - p)\<close>; the octets are digits to the base 256.\<close>

lemma and_high_mask: "w AND push_bit n (- 1) = push_bit n (drop_bit n w)" for w :: "'a::len word"
  by (rule bit_word_eqI) (auto simp: bit_simps)

lemma high_bits_eq_iff:
  "n < LENGTH('a) \<Longrightarrow> w AND push_bit n (- 1) = v AND push_bit n (- 1) \<longleftrightarrow> unat w div 2 ^ n = unat v div 2 ^ n"
  for w v :: "'a::len word"
proof -
  assume "n < LENGTH('a)"
  have low: "drop_bit n (push_bit n (drop_bit n x)) = drop_bit n x" for x :: "'a word"
    by (rule bit_word_eqI) (auto simp: bit_simps dest: bit_imp_le_length)
  have "push_bit n (drop_bit n w) = push_bit n (drop_bit n v) \<longleftrightarrow> drop_bit n w = drop_bit n v"
    by (metis low)
  also have "\<dots> \<longleftrightarrow> unat w div 2 ^ n = unat v div 2 ^ n"
    by (metis unat_drop_bit_eq drop_bit_eq_div word_unat_eq_iff)
  finally show ?thesis by (simp only: and_high_mask)
qed

lemma cidr_iff:
  "0 < p \<Longrightarrow> p \<le> 32 \<Longrightarrow> ipv4_in_cidr ip base p \<longleftrightarrow> unat ip div 2 ^ (32 - p) = unat base div 2 ^ (32 - p)"
  using high_bits_eq_iff [of "32 - p" ip base] by (simp add: ipv4_in_cidr_def del: push_bit_minus_one)

lemma octet_eq: "octet i ip = unat ip div 2 ^ (8 * (3 - i)) mod 256"
proof -
  have "unat (take_bit 8 w) = take_bit 8 (unat w)" for w :: "32 word" by (simp add: unsigned_take_bit_eq)
  then show ?thesis by (simp only: octet_def unat_drop_bit_eq) (simp add: drop_bit_eq_div take_bit_eq_mod)
qed

lemma unat_from_octets:
  "a < 256 \<Longrightarrow> b < 256 \<Longrightarrow> c < 256 \<Longrightarrow> d < 256 \<Longrightarrow> unat (from_octets a b c d) = ((a * 256 + b) * 256 + c) * 256 + d"
  by (simp only: from_octets_def unat_of_nat) (simp add: take_bit_eq_mod)

lemma div_eq_interval: "0 < k \<Longrightarrow> n div k = q \<longleftrightarrow> q * k \<le> n \<and> n < (q + 1) * k" for n k q :: nat
  by (auto simp: div_nat_eqI mult.commute less_eq_div_iff_mult_less_eq)
     (metis dividend_less_div_times mult.commute add.commute)

end
