(* ===== verification/Network_Address_Properties.thy ===== *)
theory Network_Address_Properties
  imports Network_Address
begin

text \<open>
  Which addresses the network proxy holds to be local: the ranges of IPv4, and how the classes of IPv6 reduce to them.
\<close>

definition ipv4_text :: "nat \<times> nat \<times> nat \<times> nat \<Rightarrow> nat" where
  "ipv4_text = (\<lambda>(a, b, c, d). ((a * 256 + b) * 256 + c) * 256 + d)"

definition non_public_ranges :: "((nat \<times> nat \<times> nat \<times> nat) \<times> (nat \<times> nat \<times> nat \<times> nat)) list" where
  "non_public_ranges =
     [((0, 0, 0, 0), (0, 255, 255, 255)),
      ((10, 0, 0, 0), (10, 255, 255, 255)),
      ((100, 64, 0, 0), (100, 127, 255, 255)),
      ((127, 0, 0, 0), (127, 255, 255, 255)),
      ((169, 254, 0, 0), (169, 254, 255, 255)),
      ((172, 16, 0, 0), (172, 31, 255, 255)),
      ((192, 0, 0, 0), (192, 0, 0, 255)),
      ((192, 0, 2, 0), (192, 0, 2, 255)),
      ((192, 168, 0, 0), (192, 168, 255, 255)),
      ((198, 18, 0, 0), (198, 19, 255, 255)),
      ((198, 51, 100, 0), (198, 51, 100, 255)),
      ((203, 0, 113, 0), (203, 0, 113, 255)),
      ((224, 0, 0, 0), (255, 255, 255, 255))]"

lemma unat_ipv4_less: "unat ip < 4294967296" for ip :: Ipv4Addr
  using unsigned_less [of ip] by simp

lemma octet0_interval: "octet 0 ip = x \<longleftrightarrow> x * 16777216 \<le> unat ip \<and> unat ip < (x + 1) * 16777216"
proof -
  have "unat ip div 16777216 < 256" using unat_ipv4_less [of ip] by (simp add: less_mult_imp_div_less)
  then have "octet 0 ip = unat ip div 16777216" by (simp add: octet_eq)
  then show ?thesis using div_eq_interval [of 16777216 "unat ip" x] by simp
qed

lemma octet1_eq: "unat ip div 65536 = octet 0 ip * 256 + octet 1 ip"
proof -
  have "unat ip div 16777216 < 256" using unat_ipv4_less [of ip] by (simp add: less_mult_imp_div_less)
  moreover have "unat ip div 16777216 = unat ip div 65536 div 256" by (simp flip: div_mult2_eq)
  ultimately show ?thesis by (simp add: octet_eq)
qed

lemma octet01_interval:
  "x \<le> y \<Longrightarrow> y < 256 \<Longrightarrow> octet 0 ip = a \<and> x \<le> octet 1 ip \<and> octet 1 ip \<le> y \<longleftrightarrow>
     (a * 256 + x) * 65536 \<le> unat ip \<and> unat ip < (a * 256 + y + 1) * 65536"
proof -
  assume xy: "x \<le> y" "y < 256"
  have "octet 1 ip < 256" by (simp add: octet_eq)
  then have "octet 0 ip = a \<and> x \<le> octet 1 ip \<and> octet 1 ip \<le> y \<longleftrightarrow>
      a * 256 + x \<le> unat ip div 65536 \<and> unat ip div 65536 < a * 256 + y + 1"
    unfolding octet1_eq using xy by (cases "octet 0 ip" a rule: linorder_cases) auto
  then show ?thesis
    by (simp add: less_eq_div_iff_mult_less_eq div_less_iff_less_mult mult.commute)
qed

lemma octet0_range: "x \<le> octet 0 ip \<and> octet 0 ip \<le> y \<longleftrightarrow> x * 16777216 \<le> unat ip \<and> unat ip < (y + 1) * 16777216"
proof -
  have "unat ip div 16777216 < 256" using unat_ipv4_less [of ip] by (simp add: less_mult_imp_div_less)
  then have "octet 0 ip = unat ip div 16777216" by (simp add: octet_eq)
  moreover have "unat ip div 16777216 \<le> y \<longleftrightarrow> unat ip < (y + 1) * 16777216"
    using div_less_iff_less_mult [of 16777216 "unat ip" "y + 1"] by (simp add: less_Suc_eq_le)
  ultimately show ?thesis by (simp add: less_eq_div_iff_mult_less_eq)
qed

lemma cidr_interval:
  assumes "0 < p" "p \<le> 32" "unat base = q * 2 ^ (32 - p)"
  shows "ipv4_in_cidr ip base p \<longleftrightarrow> q * 2 ^ (32 - p) \<le> unat ip \<and> unat ip < (q + 1) * 2 ^ (32 - p)"
  using assms div_eq_interval [of "2 ^ (32 - p)" "unat ip" q] by (simp add: cidr_iff)

text \<open>The classes one by one, as ranges.\<close>

lemma range_c1: "ipv4_in_cidr ip (from_octets 0 0 0 0) 8 \<longleftrightarrow> unat ip \<le> 16777215"
  using cidr_interval [where ip = ip, of 8 "from_octets 0 0 0 0" 0] by (auto simp: unat_from_octets)

lemma range_c2: "ipv4_in_cidr ip (from_octets 100 64 0 0) 10 \<longleftrightarrow> 1681915904 \<le> unat ip \<and> unat ip \<le> 1686110207"
  using cidr_interval [where ip = ip, of 10 "from_octets 100 64 0 0" 401] by (auto simp: unat_from_octets)

lemma range_c3: "ipv4_in_cidr ip (from_octets 192 0 0 0) 24 \<longleftrightarrow> 3221225472 \<le> unat ip \<and> unat ip \<le> 3221225727"
  using cidr_interval [where ip = ip, of 24 "from_octets 192 0 0 0" 12582912] by (auto simp: unat_from_octets)

lemma range_c4: "ipv4_in_cidr ip (from_octets 192 0 2 0) 24 \<longleftrightarrow> 3221225984 \<le> unat ip \<and> unat ip \<le> 3221226239"
  using cidr_interval [where ip = ip, of 24 "from_octets 192 0 2 0" 12582914] by (auto simp: unat_from_octets)

lemma range_c5: "ipv4_in_cidr ip (from_octets 198 18 0 0) 15 \<longleftrightarrow> 3323068416 \<le> unat ip \<and> unat ip \<le> 3323199487"
  using cidr_interval [where ip = ip, of 15 "from_octets 198 18 0 0" 25353] by (auto simp: unat_from_octets)

lemma range_c6: "ipv4_in_cidr ip (from_octets 198 51 100 0) 24 \<longleftrightarrow> 3325256704 \<le> unat ip \<and> unat ip \<le> 3325256959"
  using cidr_interval [where ip = ip, of 24 "from_octets 198 51 100 0" 12989284] by (auto simp: unat_from_octets)

lemma range_c7: "ipv4_in_cidr ip (from_octets 203 0 113 0) 24 \<longleftrightarrow> 3405803776 \<le> unat ip \<and> unat ip \<le> 3405804031"
  using cidr_interval [where ip = ip, of 24 "from_octets 203 0 113 0" 13303921] by (auto simp: unat_from_octets)

lemma range_c8: "ipv4_in_cidr ip (from_octets 240 0 0 0) 4 \<longleftrightarrow> 4026531840 \<le> unat ip"
  using cidr_interval [where ip = ip, of 4 "from_octets 240 0 0 0" 15] unat_ipv4_less [of ip] by (auto simp: unat_from_octets)

lemma range_o1: "ipv4_is_loopback ip \<longleftrightarrow> 2130706432 \<le> unat ip \<and> unat ip \<le> 2147483647"
  by (auto simp: ipv4_is_loopback_def octet0_interval)

lemma octet01_point:
  "y < 256 \<Longrightarrow> octet 0 ip = a \<and> octet 1 ip = y \<longleftrightarrow> (a * 256 + y) * 65536 \<le> unat ip \<and> unat ip < (a * 256 + y + 1) * 65536"
  using octet01_interval [of y y ip a] by (metis order_antisym order_refl)

lemma less_as_le: "0 < k \<Longrightarrow> n < k \<longleftrightarrow> n \<le> k - 1" for n k :: nat
  by auto

lemma range_o2: "ipv4_is_private ip \<longleftrightarrow> 167772160 \<le> unat ip \<and> unat ip \<le> 184549375
    \<or> 2886729728 \<le> unat ip \<and> unat ip \<le> 2887778303 \<or> 3232235520 \<le> unat ip \<and> unat ip \<le> 3232301055"
proof -
  have "octet 0 ip = 10 \<longleftrightarrow> 167772160 \<le> unat ip \<and> unat ip \<le> 184549375"
    by (simp add: octet0_interval less_as_le)
  moreover have "octet 0 ip = 172 \<and> 16 \<le> octet 1 ip \<and> octet 1 ip \<le> 31 \<longleftrightarrow> 2886729728 \<le> unat ip \<and> unat ip \<le> 2887778303"
    using octet01_interval [of 16 31 ip 172] by (simp add: less_as_le)
  moreover have "octet 0 ip = 192 \<and> octet 1 ip = 168 \<longleftrightarrow> 3232235520 \<le> unat ip \<and> unat ip \<le> 3232301055"
    using octet01_point [of 168 ip 192] by (simp add: less_as_le)
  ultimately show ?thesis by (simp only: ipv4_is_private_def)
qed

lemma range_o3: "ipv4_is_link_local ip \<longleftrightarrow> 2851995648 \<le> unat ip \<and> unat ip \<le> 2852061183"
  using octet01_point [of 254 ip 169] by (simp add: ipv4_is_link_local_def less_as_le)

lemma range_o4: "ipv4_is_unspecified ip \<longleftrightarrow> unat ip = 0"
  by (simp add: ipv4_is_unspecified_def unat_eq_zero)

lemma range_o5: "ipv4_is_multicast ip \<longleftrightarrow> 3758096384 \<le> unat ip \<and> unat ip \<le> 4026531839"
  using octet0_range [of 224 ip 239] by (auto simp: ipv4_is_multicast_def)

lemma range_o6: "ipv4_is_broadcast ip \<longleftrightarrow> unat ip = 4294967295"
  by (simp add: ipv4_is_broadcast_def word_unat_eq_iff unat_from_octets)

text \<open>The IPv4 addresses held to be local are exactly those of thirteen ranges: this network, the private networks,
  carrier-grade translation, loopback, link-local, protocol assignments, the networks for documentation and
  benchmarks, and everything from the multicast addresses up.\<close>

theorem non_public_ipv4_ranges:
  "is_non_public_ipv4 ip \<longleftrightarrow> list_ex (\<lambda>(lo, hi). ipv4_text lo \<le> unat ip \<and> unat ip \<le> ipv4_text hi) non_public_ranges"
proof -
  have low: "ipv4_is_unspecified ip \<or> ipv4_in_cidr ip (from_octets 0 0 0 0) 8 \<longleftrightarrow> unat ip \<le> 16777215"
    by (auto simp: range_c1 range_o4)
  have bound: "unat ip \<le> 4294967295" using unat_ipv4_less [of ip] by simp
  then have high: "ipv4_is_multicast ip \<or> ipv4_is_broadcast ip \<or> ipv4_in_cidr ip (from_octets 240 0 0 0) 4 \<longleftrightarrow> 3758096384 \<le> unat ip"
    by (auto simp: range_c8 range_o5 range_o6)
  have split: "is_non_public_ipv4 ip \<longleftrightarrow>
      (ipv4_is_unspecified ip \<or> ipv4_in_cidr ip (from_octets 0 0 0 0) 8)
      \<or> ipv4_is_private ip \<or> ipv4_in_cidr ip (from_octets 100 64 0 0) 10 \<or> ipv4_is_loopback ip \<or> ipv4_is_link_local ip
      \<or> ipv4_in_cidr ip (from_octets 192 0 0 0) 24 \<or> ipv4_in_cidr ip (from_octets 192 0 2 0) 24
      \<or> ipv4_in_cidr ip (from_octets 198 18 0 0) 15 \<or> ipv4_in_cidr ip (from_octets 198 51 100 0) 24
      \<or> ipv4_in_cidr ip (from_octets 203 0 113 0) 24
      \<or> (ipv4_is_multicast ip \<or> ipv4_is_broadcast ip \<or> ipv4_in_cidr ip (from_octets 240 0 0 0) 4)"
    unfolding is_non_public_ipv4_def by blast
  have ranges: "list_ex (\<lambda>(lo, hi). ipv4_text lo \<le> unat ip \<and> unat ip \<le> ipv4_text hi) non_public_ranges \<longleftrightarrow>
      unat ip \<le> 16777215
      \<or> 167772160 \<le> unat ip \<and> unat ip \<le> 184549375 \<or> 1681915904 \<le> unat ip \<and> unat ip \<le> 1686110207
      \<or> 2130706432 \<le> unat ip \<and> unat ip \<le> 2147483647 \<or> 2851995648 \<le> unat ip \<and> unat ip \<le> 2852061183
      \<or> 2886729728 \<le> unat ip \<and> unat ip \<le> 2887778303 \<or> 3221225472 \<le> unat ip \<and> unat ip \<le> 3221225727
      \<or> 3221225984 \<le> unat ip \<and> unat ip \<le> 3221226239 \<or> 3232235520 \<le> unat ip \<and> unat ip \<le> 3232301055
      \<or> 3323068416 \<le> unat ip \<and> unat ip \<le> 3323199487 \<or> 3325256704 \<le> unat ip \<and> unat ip \<le> 3325256959
      \<or> 3405803776 \<le> unat ip \<and> unat ip \<le> 3405804031 \<or> 3758096384 \<le> unat ip"
    using bound by (simp add: non_public_ranges_def ipv4_text_def)
  show ?thesis
    unfolding split low high range_c2 range_c3 range_c4 range_c5 range_c6 range_c7 range_o1 range_o2 range_o3 ranges
    by (simp only: disj_ac)
qed

text \<open>An address of IPv6 that carries one of IPv4, mapped or compatible, is held to be local exactly when that one is, or when it
  is the loopback address.\<close>

lemma embedded_ipv4_is_classified:
  "to_ipv4 ip = Some v4 \<Longrightarrow> is_non_public_ipv6 ip \<longleftrightarrow> is_non_public_ipv4 v4 \<or> ip = Ipv6Addr 0 0 0 0 0 0 0 1"
  by (simp add: is_non_public_ipv6_def)

text \<open>Addresses for documentation, and the addresses under which a translator reaches a private network of
  IPv4, pass for public.\<close>

lemma documentation_address_is_public:
  "\<not> is_non_public_ipv6 (Ipv6Addr 0x2001 0xDB8 0 0 0 0 0 1)"
  by (simp add: is_non_public_ipv6_def)

lemma translated_private_address_is_public:
  "\<not> is_non_public_ipv6 (Ipv6Addr 0x64 0xFF9B 0 0 0 0 0x0A00 1)"
  by (simp add: is_non_public_ipv6_def)

end
