(* ===== verification/Network_Policy.thy ===== *)
theory Network_Policy
  imports Network_Address
begin

text \<open>
  Hosts and domain patterns of the network proxy (\<^verbatim>\<open>codex-rs/network-proxy/src/policy.rs\<close>). The \<^verbatim>\<open>globset\<close> crate is the record
  \<open>glob_crate\<close>: compiling a pattern that ignores case, matching, and the error with which a set may refuse to be built. The
  host parser of the \<^verbatim>\<open>url\<close> crate is a function that gives the text of the host. An \<^verbatim>\<open>anyhow\<close> error is the chain of its
  messages, the outermost first.
\<close>

section \<open>Errors and surroundings\<close>

type_synonym anyhow = "str list"

definition anyhow_context :: "str \<Rightarrow> anyhow + 'a \<Rightarrow> anyhow + 'a" where
  "anyhow_context c = map_err (\<lambda>e. c # e)"

record 'g glob_crate =
  glob_build :: "str \<Rightarrow> str + 'g"
  glob_is_match :: "'g \<Rightarrow> str \<Rightarrow> bool"
  globset_error :: "'g list \<Rightarrow> str option"

type_synonym 'g GlobSet = "'g list"

definition globset_is_match :: "'g glob_crate \<Rightarrow> 'g GlobSet \<Rightarrow> str \<Rightarrow> bool" where
  "globset_is_match crate gs host = list_ex (\<lambda>g. glob_is_match crate g host) gs"

section \<open>Hosts\<close>

definition unscoped_ip_literal :: "str \<Rightarrow> str option" where
  "unscoped_ip_literal host =
     (case split_once 37 host of
        Some (ip, _) \<Rightarrow> if parse_ip_addr ip \<noteq> None then Some ip else None
      | None \<Rightarrow> None)"

definition scoped_ip_literal :: "str \<Rightarrow> str \<Rightarrow> str option" where
  "scoped_ip_literal delimiter host =
     (case split_once_str delimiter host of
        Some (ip, scope) \<Rightarrow> if parse_ip_addr ip \<noteq> None then Some (ip @ [37] @ scope) else None
      | None \<Rightarrow> None)"

definition normalize_ip_literal :: "str \<Rightarrow> str option" where
  "normalize_ip_literal host =
     (if parse_ip_addr host \<noteq> None then Some host
      else case scoped_ip_literal (lit ''%25'') host of
             Some ip \<Rightarrow> Some ip
           | None \<Rightarrow> scoped_ip_literal (lit ''%'') host)"

definition normalize_dns_host_or_ip_literal :: "str \<Rightarrow> str" where
  "normalize_dns_host_or_ip_literal host =
     (let h = trim_end_matches 46 (to_ascii_lowercase host)
      in case normalize_ip_literal h of Some ip \<Rightarrow> ip | None \<Rightarrow> h)"

definition normalize_host :: "str \<Rightarrow> str" where
  "normalize_host host =
     (let h = trim host
      in if h \<noteq> [] \<and> hd h = 91 \<and> 93 \<in> set h then normalize_dns_host_or_ip_literal (takeWhile (\<lambda>c. c \<noteq> 93) (tl h))
         else if length (filter (\<lambda>c. c = 58) h) = 1 then normalize_dns_host_or_ip_literal (takeWhile (\<lambda>c. c \<noteq> 58) h)
         else normalize_dns_host_or_ip_literal h)"

definition host_parse :: "str \<Rightarrow> anyhow + str" where
  "host_parse input =
     (let normalized = normalize_host input
      in if normalized = [] then Inl [lit ''host is empty''] else Inr normalized)"

definition without_scope :: "str \<Rightarrow> str" where
  "without_scope host = (case unscoped_ip_literal host of Some ip \<Rightarrow> ip | None \<Rightarrow> host)"

definition is_loopback_host :: "str \<Rightarrow> bool" where
  "is_loopback_host host =
     (let h = without_scope host
      in if h = lit ''localhost'' then True
         else case parse_ip_addr h of Some ip \<Rightarrow> ip_is_loopback ip | None \<Rightarrow> False)"

section \<open>Patterns\<close>

datatype DomainPattern = ApexAndSubdomains str | SubdomainsOnly str | Exact str

definition parse_domain :: "str \<Rightarrow> (str \<Rightarrow> DomainPattern) \<Rightarrow> DomainPattern" where
  "parse_domain domain build = (if trim domain = [] then Exact [] else build (trim domain))"

definition domain_pattern_parse :: "str \<Rightarrow> DomainPattern" where
  "domain_pattern_parse input =
     (let p = trim input
      in if p = [] then Exact []
         else case strip_prefix (lit ''**.'') p of
           Some domain \<Rightarrow> parse_domain domain ApexAndSubdomains
         | None \<Rightarrow>
             (case strip_prefix (lit ''*.'') p of
                Some domain \<Rightarrow> parse_domain domain SubdomainsOnly
              | None \<Rightarrow> Exact p))"

fun expand_parsed :: "DomainPattern \<Rightarrow> str list" where
  "expand_parsed (Exact domain) = [domain]"
| "expand_parsed (SubdomainsOnly domain) = [lit ''?*.'' @ domain]"
| "expand_parsed (ApexAndSubdomains domain) = [domain, lit ''?*.'' @ domain]"

definition expand_domain_pattern :: "str \<Rightarrow> str list" where
  "expand_domain_pattern pattern = expand_parsed (domain_pattern_parse pattern)"

definition normalize_pattern :: "str \<Rightarrow> str" where
  "normalize_pattern pattern =
     (let p = trim pattern
      in if p = lit ''*'' then lit ''*''
         else case strip_prefix (lit ''**.'') p of
           Some domain \<Rightarrow> lit ''**.'' @ normalize_host domain
         | None \<Rightarrow>
             (case strip_prefix (lit ''*.'') p of
                Some domain \<Rightarrow> lit ''*.'' @ normalize_host domain
              | None \<Rightarrow> normalize_host p))"

definition is_global_wildcard_domain_pattern :: "str \<Rightarrow> bool" where
  "is_global_wildcard_domain_pattern pattern =
     list_ex (\<lambda>candidate. candidate = lit ''*'') (expand_domain_pattern (normalize_pattern pattern))"

section \<open>Compiled sets\<close>

datatype GlobalWildcard = AllowWildcard | RejectWildcard

fun compile_candidates ::
  "'g glob_crate \<Rightarrow> str list \<Rightarrow> str set \<Rightarrow> 'g list \<Rightarrow> anyhow + (str set \<times> 'g list)" where
  "compile_candidates crate [] seen globs = Inr (seen, globs)"
| "compile_candidates crate (c # cs) seen globs =
     (if c \<in> seen then compile_candidates crate cs seen globs
      else case glob_build crate c of
        Inl e \<Rightarrow> Inl [lit ''invalid glob pattern: '' @ c, e]
      | Inr g \<Rightarrow> compile_candidates crate cs (insert c seen) (globs @ [g]))"

fun compile_patterns ::
  "'g glob_crate \<Rightarrow> GlobalWildcard \<Rightarrow> str list \<Rightarrow> str set \<Rightarrow> 'g list \<Rightarrow> anyhow + 'g list" where
  "compile_patterns crate gw [] seen globs = Inr globs"
| "compile_patterns crate gw (p # ps) seen globs =
     (if gw = RejectWildcard \<and> is_global_wildcard_domain_pattern p then
        Inl [lit ''unsupported global wildcard domain pattern '' @ [34, 42, 34] @
             lit ''; use exact hosts or scoped wildcards like *.example.com or **.example.com'']
      else case compile_candidates crate (expand_domain_pattern (normalize_pattern p)) seen globs of
        Inl e \<Rightarrow> Inl e
      | Inr (seen', globs') \<Rightarrow> compile_patterns crate gw ps seen' globs')"

definition compile_globset_with_policy :: "'g glob_crate \<Rightarrow> str list \<Rightarrow> GlobalWildcard \<Rightarrow> anyhow + 'g GlobSet" where
  "compile_globset_with_policy crate patterns gw =
     (case compile_patterns crate gw patterns {} [] of
        Inl e \<Rightarrow> Inl e
      | Inr globs \<Rightarrow> (case globset_error crate globs of Some e \<Rightarrow> Inl [e] | None \<Rightarrow> Inr globs))"

definition compile_allowlist_globset :: "'g glob_crate \<Rightarrow> str list \<Rightarrow> anyhow + 'g GlobSet" where
  "compile_allowlist_globset crate patterns = compile_globset_with_policy crate patterns AllowWildcard"

definition compile_denylist_globset :: "'g glob_crate \<Rightarrow> str list \<Rightarrow> anyhow + 'g GlobSet" where
  "compile_denylist_globset crate patterns = compile_globset_with_policy crate patterns RejectWildcard"

section \<open>Patterns compared with patterns\<close>

definition normalize_domain :: "str \<Rightarrow> str" where
  "normalize_domain domain = to_ascii_lowercase (trim_end_matches 46 domain)"

definition domain_eq :: "str \<Rightarrow> str \<Rightarrow> bool" where
  "domain_eq left right \<longleftrightarrow> normalize_domain left = normalize_domain right"

definition is_subdomain_or_equal :: "str \<Rightarrow> str \<Rightarrow> bool" where
  "is_subdomain_or_equal child parent =
     (let c = normalize_domain child; p = normalize_domain parent
      in if c = p then True else ends_with (46 # p) c)"

definition is_strict_subdomain :: "str \<Rightarrow> str \<Rightarrow> bool" where
  "is_strict_subdomain child parent =
     (let c = normalize_domain child; p = normalize_domain parent
      in c \<noteq> p \<and> ends_with (46 # p) c)"

fun allows :: "DomainPattern \<Rightarrow> DomainPattern \<Rightarrow> bool" where
  "allows (Exact domain) (Exact candidate) = domain_eq candidate domain"
| "allows (Exact domain) _ = False"
| "allows (SubdomainsOnly domain) (Exact candidate) = is_strict_subdomain candidate domain"
| "allows (SubdomainsOnly domain) (SubdomainsOnly candidate) = is_subdomain_or_equal candidate domain"
| "allows (SubdomainsOnly domain) (ApexAndSubdomains candidate) = is_strict_subdomain candidate domain"
| "allows (ApexAndSubdomains domain) (Exact candidate) = is_subdomain_or_equal candidate domain"
| "allows (ApexAndSubdomains domain) (SubdomainsOnly candidate) = is_subdomain_or_equal candidate domain"
| "allows (ApexAndSubdomains domain) (ApexAndSubdomains candidate) = is_subdomain_or_equal candidate domain"

type_synonym url_host = "str \<Rightarrow> str option"

definition parse_domain_for_constraints :: "url_host \<Rightarrow> str \<Rightarrow> str" where
  "parse_domain_for_constraints url_host_parse domain =
     (let d = trim_end_matches 46 (trim domain)
      in if d = [] then []
         else
           let host = (if hd d = 91 \<and> last d = 93 then butlast (tl d) else d)
           in if 42 \<in> set host \<or> 63 \<in> set host \<or> 37 \<in> set host then d
              else case url_host_parse host of Some h \<Rightarrow> h | None \<Rightarrow> [])"

definition parse_for_constraints :: "url_host \<Rightarrow> str \<Rightarrow> DomainPattern" where
  "parse_for_constraints url_host_parse input =
     (let p = trim input
      in if p = [] then Exact []
         else case strip_prefix (lit ''**.'') p of
           Some domain \<Rightarrow> ApexAndSubdomains (parse_domain_for_constraints url_host_parse domain)
         | None \<Rightarrow>
             (case strip_prefix (lit ''*.'') p of
                Some domain \<Rightarrow> SubdomainsOnly (parse_domain_for_constraints url_host_parse domain)
              | None \<Rightarrow> Exact (parse_domain_for_constraints url_host_parse p)))"

end
