(* ===== verification/Network_Config.thy ===== *)
theory Network_Config
  imports Network_Policy Absolute_Path Ordered_Collections
begin

text \<open>
  The configuration of the network proxy (\<^verbatim>\<open>codex-rs/network-proxy/src/config.rs\<close>, and the types of hooks of
  \<^verbatim>\<open>mitm_hook.rs\<close>): domain and socket permissions, the addresses the proxy binds to, and the paths of sockets. Surroundings are
  the record \<open>proxy_env\<close>: the home and current directories, links, environment variables, files of secrets, the URL parser and
  the HTTP header types of third-party crates, the debug formats of texts, and the error with which the state of an
  interception, its certificates, may fail to be made. Ports are natural numbers below 65536.
\<close>

section \<open>Surroundings\<close>

record proxy_env =
  penv_home :: "path_buf option"
  penv_current_dir :: "path_buf option"
  penv_canonicalize :: "path_buf \<Rightarrow> path_buf option"
  penv_env_var :: "str \<Rightarrow> str option"
  penv_read_file :: "path_buf \<Rightarrow> str + str"
  penv_url_parse :: "str \<Rightarrow> (str option \<times> nat option) option"
  penv_url_host :: url_host
  penv_header_name :: "str \<Rightarrow> str + str"
  penv_header_value :: "str \<Rightarrow> str + str"
  penv_debug :: "str \<Rightarrow> str"
  penv_debug_list :: "str list \<Rightarrow> str"
  penv_debug_set :: "str set \<Rightarrow> str"
  penv_mitm_error :: "bool \<Rightarrow> bool \<Rightarrow> anyhow option"

section \<open>Types\<close>

datatype NetworkDomainPermission = PermNone | PermAllow | PermDeny

fun permission_rank :: "NetworkDomainPermission \<Rightarrow> nat" where
  "permission_rank PermNone = 0"
| "permission_rank PermAllow = 1"
| "permission_rank PermDeny = 2"

instantiation NetworkDomainPermission :: linorder
begin

definition less_eq_NetworkDomainPermission :: "NetworkDomainPermission \<Rightarrow> NetworkDomainPermission \<Rightarrow> bool" where
  "p \<le> q \<longleftrightarrow> permission_rank p \<le> permission_rank q"

definition less_NetworkDomainPermission :: "NetworkDomainPermission \<Rightarrow> NetworkDomainPermission \<Rightarrow> bool" where
  "p < q \<longleftrightarrow> permission_rank p < permission_rank q"

instance
proof
  have inj: "permission_rank p = permission_rank q \<Longrightarrow> p = q" for p q by (cases p; cases q) simp_all
  fix p q r :: NetworkDomainPermission
  show "p < q \<longleftrightarrow> p \<le> q \<and> \<not> q \<le> p" "p \<le> p" "p \<le> q \<Longrightarrow> q \<le> r \<Longrightarrow> p \<le> r" "p \<le> q \<or> q \<le> p"
    by (auto simp: less_eq_NetworkDomainPermission_def less_NetworkDomainPermission_def)
  show "p \<le> q \<Longrightarrow> q \<le> p \<Longrightarrow> p = q"
    by (rule inj) (simp add: less_eq_NetworkDomainPermission_def)
qed

end

type_synonym NetworkDomainPermissionEntry = "str \<times> NetworkDomainPermission"

datatype NetworkUnixSocketPermission = SocketAllow | SocketDeny

datatype NetworkMode = Limited | Full

fun allows_method :: "NetworkMode \<Rightarrow> str \<Rightarrow> bool" where
  "allows_method Full _ = True"
| "allows_method Limited m = (m = lit ''GET'' \<or> m = lit ''HEAD'' \<or> m = lit ''OPTIONS'')"

record MitmHookMatchConfig =
  hm_methods :: "str list"
  hm_path_prefixes :: "str list"
  hm_query :: "(str \<times> str list) list"
  hm_headers :: "(str \<times> str list) list"
  hm_has_body :: bool

record InjectedHeaderConfig =
  ih_name :: str
  ih_secret_env_var :: "str option"
  ih_secret_file :: "str option"
  ih_prefix :: "str option"

record MitmHookConfig =
  hook_host :: str
  hook_matcher :: MitmHookMatchConfig
  hook_strip_request_headers :: "str list"
  hook_inject_request_headers :: "InjectedHeaderConfig list"

record NetworkProxySettings =
  np_enabled :: bool
  np_proxy_url :: str
  np_enable_socks5 :: bool
  np_socks_url :: str
  np_enable_socks5_udp :: bool
  np_allow_upstream_proxy :: bool
  np_dangerously_allow_non_loopback_proxy :: bool
  np_dangerously_allow_all_unix_sockets :: bool
  np_mode :: NetworkMode
  np_domains :: "NetworkDomainPermissionEntry list option"
  np_unix_sockets :: "(str \<times> NetworkUnixSocketPermission) list option"
  np_allow_local_binding :: bool
  np_mitm :: bool
  np_mitm_hooks :: "MitmHookConfig list"

definition default_settings :: NetworkProxySettings where
  "default_settings =
     \<lparr>np_enabled = False, np_proxy_url = lit ''http://127.0.0.1:3128'', np_enable_socks5 = True,
      np_socks_url = lit ''http://127.0.0.1:8081'', np_enable_socks5_udp = True, np_allow_upstream_proxy = True,
      np_dangerously_allow_non_loopback_proxy = False, np_dangerously_allow_all_unix_sockets = False,
      np_mode = Full, np_domains = None, np_unix_sockets = None, np_allow_local_binding = False,
      np_mitm = False, np_mitm_hooks = []\<rparr>"

section \<open>Domain permissions\<close>

text \<open>The loop over the entries: the patterns in order of their first entry, and the highest permission of each.\<close>

fun effective_loop ::
  "NetworkDomainPermissionEntry list \<Rightarrow> str list \<Rightarrow> (str \<rightharpoonup> NetworkDomainPermission)
   \<Rightarrow> str list \<times> (str \<rightharpoonup> NetworkDomainPermission)" where
  "effective_loop [] order eff = (order, eff)"
| "effective_loop ((pattern, permission) # es) order eff =
     (let order' = (if eff pattern = None then order @ [pattern] else order);
          old = (case eff pattern of Some p \<Rightarrow> p | None \<Rightarrow> permission)
      in effective_loop es order' (eff(pattern \<mapsto> (if permission > old then permission else old))))"

fun take_permissions :: "str list \<Rightarrow> (str \<rightharpoonup> NetworkDomainPermission) \<Rightarrow> NetworkDomainPermissionEntry list" where
  "take_permissions [] eff = []"
| "take_permissions (p # ps) eff =
     (case eff p of
        Some permission \<Rightarrow> (p, permission) # take_permissions ps (eff(p := None))
      | None \<Rightarrow> take_permissions ps eff)"

definition effective_entries :: "NetworkDomainPermissionEntry list \<Rightarrow> NetworkDomainPermissionEntry list" where
  "effective_entries entries = (let (order, eff) = effective_loop entries [] Map.empty in take_permissions order eff)"

definition non_empty :: "'a list \<Rightarrow> 'a list option" where
  "non_empty xs = (if xs = [] then None else Some xs)"

definition domain_entries :: "NetworkDomainPermission \<Rightarrow> NetworkProxySettings \<Rightarrow> str list option" where
  "domain_entries permission s =
     (case np_domains s of
        None \<Rightarrow> None
      | Some es \<Rightarrow> non_empty (map fst (filter (\<lambda>e. snd e = permission) (effective_entries es))))"

definition allowed_domains :: "NetworkProxySettings \<Rightarrow> str list option" where
  "allowed_domains s = domain_entries PermAllow s"

definition denied_domains :: "NetworkProxySettings \<Rightarrow> str list option" where
  "denied_domains s = domain_entries PermDeny s"

abbreviation or_empty :: "'a list option \<Rightarrow> 'a list" where
  "or_empty xs \<equiv> (case xs of Some ys \<Rightarrow> ys | None \<Rightarrow> [])"

fun push_domains ::
  "NetworkDomainPermission \<Rightarrow> str list \<Rightarrow> NetworkDomainPermissionEntry list \<Rightarrow> NetworkDomainPermissionEntry list" where
  "push_domains permission [] es = es"
| "push_domains permission (d # ds) es =
     push_domains permission ds (if (d, permission) \<in> set es then es else es @ [(d, permission)])"

definition set_domain_entries ::
  "str list \<Rightarrow> NetworkDomainPermission \<Rightarrow> NetworkProxySettings \<Rightarrow> NetworkProxySettings" where
  "set_domain_entries entries permission s =
     s\<lparr>np_domains := non_empty (push_domains permission entries (filter (\<lambda>e. snd e \<noteq> permission) (or_empty (np_domains s))))\<rparr>"

definition set_allowed_domains :: "str list \<Rightarrow> NetworkProxySettings \<Rightarrow> NetworkProxySettings" where
  "set_allowed_domains ds s = set_domain_entries ds PermAllow s"

definition set_denied_domains :: "str list \<Rightarrow> NetworkProxySettings \<Rightarrow> NetworkProxySettings" where
  "set_denied_domains ds s = set_domain_entries ds PermDeny s"

definition upsert_domain_permission ::
  "str \<Rightarrow> NetworkDomainPermission \<Rightarrow> (str \<Rightarrow> str) \<Rightarrow> NetworkProxySettings \<Rightarrow> NetworkProxySettings" where
  "upsert_domain_permission host permission norm s =
     s\<lparr>np_domains := non_empty (filter (\<lambda>e. norm (fst e) \<noteq> norm host) (or_empty (np_domains s)) @ [(host, permission)])\<rparr>"

section \<open>Sockets\<close>

definition allow_unix_sockets :: "NetworkProxySettings \<Rightarrow> str list" where
  "allow_unix_sockets s = map fst (filter (\<lambda>e. snd e = SocketAllow) (or_empty (np_unix_sockets s)))"

definition set_unix_socket_entries ::
  "str list \<Rightarrow> NetworkUnixSocketPermission \<Rightarrow> NetworkProxySettings \<Rightarrow> NetworkProxySettings" where
  "set_unix_socket_entries entries permission s =
     s\<lparr>np_unix_sockets := non_empty
        (foldl (\<lambda>m e. bt_insert e permission m) (filter (\<lambda>e. snd e \<noteq> permission) (or_empty (np_unix_sockets s))) entries)\<rparr>"

definition set_allow_unix_sockets :: "str list \<Rightarrow> NetworkProxySettings \<Rightarrow> NetworkProxySettings" where
  "set_allow_unix_sockets entries s = set_unix_socket_entries entries SocketAllow s"

datatype ValidatedUnixSocketPath = Native path_buf | UnixStyleAbsolute str

definition validated_socket_path :: "proxy_env \<Rightarrow> str \<Rightarrow> anyhow + ValidatedUnixSocketPath" where
  "validated_socket_path env socket_path =
     (if path_is_absolute (components socket_path) then
        (case from_absolute_path (penv_home env) (penv_current_dir env) socket_path of
           Some p \<Rightarrow> Inr (Native p)
         | None \<Rightarrow> Inl [lit ''failed to normalize unix socket path '' @ penv_debug env socket_path])
      else if starts_with (lit ''/'') socket_path then Inr (UnixStyleAbsolute socket_path)
      else Inl [lit ''expected an absolute path, got '' @ penv_debug env socket_path])"

fun validate_socket_paths :: "proxy_env \<Rightarrow> nat \<Rightarrow> str list \<Rightarrow> anyhow + unit" where
  "validate_socket_paths env i [] = Inr ()"
| "validate_socket_paths env i (p # ps) =
     (case anyhow_context (lit ''invalid network.allow_unix_sockets['' @ show_nat i @ lit '']'') (validated_socket_path env p) of
        Inl e \<Rightarrow> Inl e
      | Inr _ \<Rightarrow> validate_socket_paths env (Suc i) ps)"

definition validate_unix_socket_allowlist_paths :: "proxy_env \<Rightarrow> NetworkProxySettings \<Rightarrow> anyhow + unit" where
  "validate_unix_socket_allowlist_paths env s = validate_socket_paths env 0 (allow_unix_sockets s)"

section \<open>Addresses to bind\<close>

type_synonym SocketAddr = "IpAddr \<times> nat"

definition loopback_addr :: "nat \<Rightarrow> SocketAddr" where
  "loopback_addr port = (V4 (from_octets 127 0 0 1), port)"

definition clamp_non_loopback :: "SocketAddr \<Rightarrow> bool \<Rightarrow> SocketAddr" where
  "clamp_non_loopback addr allow_non_loopback =
     (if ip_is_loopback (fst addr) then addr
      else if allow_non_loopback then addr
      else loopback_addr (snd addr))"

definition clamp_bind_addrs :: "SocketAddr \<Rightarrow> SocketAddr \<Rightarrow> NetworkProxySettings \<Rightarrow> SocketAddr \<times> SocketAddr" where
  "clamp_bind_addrs http_addr socks_addr cfg =
     (let http = clamp_non_loopback http_addr (np_dangerously_allow_non_loopback_proxy cfg);
          socks = clamp_non_loopback socks_addr (np_dangerously_allow_non_loopback_proxy cfg)
      in if allow_unix_sockets cfg = [] \<and> \<not> np_dangerously_allow_all_unix_sockets cfg then (http, socks)
         else (loopback_addr (snd http), loopback_addr (snd socks)))"

definition parse_u16 :: "str \<Rightarrow> nat option" where
  "parse_u16 s =
     (let ds = (if s \<noteq> [] \<and> hd s = plus_sign then tl s else s);
          n = foldl (\<lambda>n d. n * 10 + (d - 48)) 0 ds
      in if ds = [] \<or> \<not> list_all is_ascii_digit ds \<or> n > 65535 then None else Some n)"

definition missing_host :: "str \<Rightarrow> anyhow" where
  "missing_host input = [lit ''missing host in network proxy address: '' @ input]"

definition port_or :: "nat \<Rightarrow> nat option \<Rightarrow> nat" where
  "port_or default_port p = (case p of Some n \<Rightarrow> n | None \<Rightarrow> default_port)"

definition before :: "'a \<Rightarrow> 'a list \<Rightarrow> 'a list" where
  "before c s = takeWhile (\<lambda>x. x \<noteq> c) s"

definition parse_host_port_fallback :: "str \<Rightarrow> nat \<Rightarrow> anyhow + str \<times> nat" where
  "parse_host_port_fallback input default_port =
     (let without_scheme = (case split_once_str (lit ''://'') input of Some (_, rest) \<Rightarrow> rest | None \<Rightarrow> input);
          host_port0 = before 47 without_scheme;
          host_port = (case rsplit_once 64 host_port0 of Some (_, rest) \<Rightarrow> rest | None \<Rightarrow> host_port0)
      in if host_port \<noteq> [] \<and> hd host_port = 91 \<and> 93 \<in> set host_port then
           let host = before 93 (tl host_port);
               rest = drop (length host + 2) host_port;
               port = port_or default_port (Option.bind (strip_prefix [58] rest) parse_u16)
           in if host = [] then Inl (missing_host input) else Inr (host, port)
         else case (if length (filter (\<lambda>c. c = 58) host_port) = 1 then rsplit_once 58 host_port else None) of
           Some (host, port) \<Rightarrow>
             if host = [] then Inl (missing_host input) else Inr (host, port_or default_port (parse_u16 port))
         | None \<Rightarrow> if host_port = [] then Inl (missing_host input) else Inr (host_port, default_port))"

definition trim_brackets :: "str \<Rightarrow> str" where
  "trim_brackets s = rev (dropWhile (\<lambda>c. c = 91 \<or> c = 93) (rev (dropWhile (\<lambda>c. c = 91 \<or> c = 93) s)))"

fun is_v6 :: "IpAddr option \<Rightarrow> bool" where
  "is_v6 (Some (V6 _)) = True"
| "is_v6 _ = False"

definition parse_host_port :: "proxy_env \<Rightarrow> str \<Rightarrow> nat \<Rightarrow> anyhow + str \<times> nat" where
  "parse_host_port env url default_port =
     (let trimmed = trim url
      in if trimmed = [] then Inl (missing_host url)
         else if is_v6 (parse_ip_addr trimmed) \<and> hd trimmed \<noteq> 91 then Inr (trimmed, default_port)
         else
           let candidate = (if contains_str (lit ''://'') trimmed then trimmed else lit ''http://'' @ trimmed)
           in case penv_url_parse env candidate of
                Some (Some host, port) \<Rightarrow>
                  (let h = trim_brackets host
                   in if h = [] then Inl (missing_host url) else Inr (h, port_or default_port port))
              | _ \<Rightarrow> parse_host_port_fallback trimmed default_port)"

definition resolve_addr :: "proxy_env \<Rightarrow> str \<Rightarrow> nat \<Rightarrow> anyhow + SocketAddr" where
  "resolve_addr env url default_port =
     (case parse_host_port env url default_port of
        Inl e \<Rightarrow> Inl e
      | Inr (host, port) \<Rightarrow>
          (let h = (if to_ascii_lowercase host = lit ''localhost'' then lit ''127.0.0.1'' else host)
           in case parse_ip_addr h of Some ip \<Rightarrow> Inr (ip, port) | None \<Rightarrow> Inr (loopback_addr port)))"

definition resolve_runtime :: "proxy_env \<Rightarrow> NetworkProxySettings \<Rightarrow> anyhow + SocketAddr \<times> SocketAddr" where
  "resolve_runtime env cfg =
     bind_result (validate_unix_socket_allowlist_paths env cfg) (\<lambda>_.
     bind_result (anyhow_context (lit ''invalid network.proxy_url: '' @ np_proxy_url cfg) (resolve_addr env (np_proxy_url cfg) 3128)) (\<lambda>http_addr.
     bind_result (anyhow_context (lit ''invalid network.socks_url: '' @ np_socks_url cfg) (resolve_addr env (np_socks_url cfg) 8081)) (\<lambda>socks_addr.
     Inr (clamp_bind_addrs http_addr socks_addr cfg))))"

definition format_host_and_port :: "str \<Rightarrow> nat \<Rightarrow> str" where
  "format_host_and_port host port =
     (if 58 \<in> set host then [91] @ host @ lit '']:'' @ show_nat port else host @ [58] @ show_nat port)"

definition host_and_port_from_network_addr :: "proxy_env \<Rightarrow> str \<Rightarrow> nat \<Rightarrow> str" where
  "host_and_port_from_network_addr env v default_port =
     (let trimmed = trim v
      in if trimmed = [] then lit ''<missing>''
         else case parse_host_port env trimmed default_port of
           Inr (host, port) \<Rightarrow> format_host_and_port host port
         | Inl _ \<Rightarrow> format_host_and_port trimmed default_port)"

end
