(* ===== verification/Network_Config_Properties.thy ===== *)
theory Network_Config_Properties
  imports Network_Config
begin

text \<open>
  The domain permissions in effect, and the addresses the proxy listens on.
\<close>

section \<open>Effective permissions\<close>

text \<open>The patterns in the order of their first entries, and the highest permission of one.\<close>

definition first_patterns :: "NetworkDomainPermissionEntry list \<Rightarrow> str list" where
  "first_patterns es = rev (remdups (rev (map fst es)))"

definition highest_permission :: "NetworkDomainPermissionEntry list \<Rightarrow> str \<Rightarrow> NetworkDomainPermission" where
  "highest_permission es p = Max (snd ` {e \<in> set es. fst e = p})"

lemma effective_loop_append:
  "effective_loop (xs @ ys) order eff = (case effective_loop xs order eff of (order', eff') \<Rightarrow> effective_loop ys order' eff')"
proof (induction xs arbitrary: order eff)
  case (Cons e xs)
  show ?case by (cases e) (simp only: append_Cons effective_loop.simps Let_def Cons.IH)
qed simp

lemma set_first_patterns: "set (first_patterns es) = fst ` set es"
  by (simp add: first_patterns_def)

lemma distinct_first_patterns: "distinct (first_patterns es)"
  by (simp add: first_patterns_def)

lemma first_patterns_snoc:
  "first_patterns (es @ [(p, q)]) = (if p \<in> fst ` set es then first_patterns es else first_patterns es @ [p])"
  by (simp add: first_patterns_def)

lemma highest_permission_snoc:
  "highest_permission (es @ [(p, q)]) r =
     (if r = p then (if p \<in> fst ` set es then max q (highest_permission es p) else q) else highest_permission es r)"
proof (cases "r = p")
  case True
  have eq: "snd ` {e \<in> set (es @ [(p, q)]). fst e = p} = insert q (snd ` {e \<in> set es. fst e = p})" by force
  show ?thesis
  proof (cases "p \<in> fst ` set es")
    case True
    then have ne: "snd ` {e \<in> set es. fst e = p} \<noteq> {}" by auto
    have "highest_permission (es @ [(p, q)]) p = max q (highest_permission es p)"
      unfolding highest_permission_def eq using ne by (intro Max_insert) simp_all
    with True \<open>r = p\<close> show ?thesis by simp
  next
    case False
    then have none: "snd ` {e \<in> set es. fst e = p} = {}" by force
    have "highest_permission (es @ [(p, q)]) p = q" unfolding highest_permission_def eq none by simp
    with False \<open>r = p\<close> show ?thesis by simp
  qed
next
  case False
  then have "{e \<in> set (es @ [(p, q)]). fst e = r} = {e \<in> set es. fst e = r}" by auto
  with False show ?thesis by (simp add: highest_permission_def)
qed

lemma effective_loop_result:
  "effective_loop es [] Map.empty =
     (first_patterns es, \<lambda>p. if p \<in> fst ` set es then Some (highest_permission es p) else None)"
proof (induction es rule: rev_induct)
  case Nil
  show ?case by (simp add: first_patterns_def)
next
  case (snoc e es)
  obtain p q where e: "e = (p, q)" by (cases e)
  show ?case
    unfolding e effective_loop_append snoc.IH
    by (auto simp: Let_def first_patterns_snoc highest_permission_snoc fun_eq_iff max_def)
qed

lemma take_permissions_map:
  "distinct ps \<Longrightarrow> set ps \<subseteq> dom eff \<Longrightarrow> take_permissions ps eff = map (\<lambda>p. (p, the (eff p))) ps"
proof (induction ps arbitrary: eff)
  case (Cons p ps)
  from Cons.prems obtain q where q: "eff p = Some q" by auto
  have "take_permissions ps (eff(p := None)) = map (\<lambda>r. (r, the ((eff(p := None)) r))) ps"
    using Cons.prems by (intro Cons.IH) auto
  also have "\<dots> = map (\<lambda>r. (r, the (eff r))) ps" using Cons.prems(1) by auto
  finally show ?case by (simp add: q)
qed simp

lemma effective_entries_iff:
  "(p, q) \<in> set (effective_entries es) \<longleftrightarrow> p \<in> fst ` set es \<and> q = highest_permission es p"
proof -
  let ?eff = "\<lambda>p. if p \<in> fst ` set es then Some (highest_permission es p) else None"
  have "take_permissions (first_patterns es) ?eff = map (\<lambda>p. (p, the (?eff p))) (first_patterns es)"
    by (rule take_permissions_map) (force simp: distinct_first_patterns set_first_patterns)+
  then show ?thesis
    unfolding effective_entries_def effective_loop_result Let_def prod.case
    by (simp only: set_map set_first_patterns) auto
qed

lemma or_empty_non_empty [simp]: "or_empty (non_empty xs) = xs"
  by (simp add: non_empty_def)

lemma domain_entries_iff:
  "d \<in> set (or_empty (domain_entries q s))
    \<longleftrightarrow> d \<in> fst ` set (or_empty (np_domains s)) \<and> highest_permission (or_empty (np_domains s)) d = q"
proof (cases "np_domains s")
  case (Some es)
  then have "set (or_empty (domain_entries q s)) = {p. (p, q) \<in> set (effective_entries es)}"
    by (force simp: domain_entries_def)
  with Some show ?thesis by (auto simp: effective_entries_iff)
qed (simp add: domain_entries_def)

text \<open>The permissions in effect are, for each pattern in the order of its first entry, the highest of the permissions
  its entries give it; deny is above allow, and allow above none.\<close>

theorem effective_entries_are_the_highest:
  "effective_entries es = map (\<lambda>p. (p, highest_permission es p)) (first_patterns es)"
proof -
  have "effective_entries es =
      map (\<lambda>p. (p, the (if p \<in> fst ` set es then Some (highest_permission es p) else None))) (first_patterns es)"
    unfolding effective_entries_def effective_loop_result Let_def prod.case
    by (rule take_permissions_map) (force simp: distinct_first_patterns set_first_patterns)+
  also have "\<dots> = map (\<lambda>p. (p, highest_permission es p)) (first_patterns es)"
    by (auto simp: set_first_patterns)
  finally show ?thesis .
qed

section \<open>Addresses to bind\<close>

lemma loopback_addr_is_loopback: "ip_is_loopback (fst (loopback_addr port))"
  by (simp add: loopback_addr_def ipv4_is_loopback_def octet_eq unat_from_octets)

text \<open>The addresses that the proxy binds are loopback addresses, whatever the configured URLs are, unless the
  configuration allows others and gives no access to Unix sockets.\<close>

theorem proxy_binds_loopback:
  assumes "resolve_runtime env cfg = Inr (http_addr, socks_addr)"
    and "\<not> np_dangerously_allow_non_loopback_proxy cfg
         \<or> allow_unix_sockets cfg \<noteq> [] \<or> np_dangerously_allow_all_unix_sockets cfg"
  shows "ip_is_loopback (fst http_addr) \<and> ip_is_loopback (fst socks_addr)"
proof -
  from assms(1) obtain a b where "clamp_bind_addrs a b cfg = (http_addr, socks_addr)"
    by (auto simp: resolve_runtime_def result_simps)
  with assms(2) show ?thesis
    by (auto simp: clamp_bind_addrs_def clamp_non_loopback_def loopback_addr_is_loopback Let_def split: if_splits)
qed

text \<open>Surroundings in which every variable has the same value, no URL is parsed, every header name is fine and texts are
  shown as they are.\<close>

definition plain_env :: proxy_env where
  "plain_env =
     \<lparr>penv_home = None, penv_current_dir = None, penv_canonicalize = (\<lambda>_. None), penv_env_var = (\<lambda>_. Some (lit ''secret'')),
      penv_read_file = (\<lambda>_. Inl (lit ''not found'')), penv_url_parse = (\<lambda>_. None),
      penv_url_host = (\<lambda>s. Some (to_ascii_lowercase s)), penv_header_name = Inr, penv_header_value = Inr,
      penv_debug = (\<lambda>s. s), penv_debug_list = concat, penv_debug_set = (\<lambda>_. []), penv_mitm_error = (\<lambda>_ _. None)\<rparr>"

lemma resolve_runtime_example:
  "resolve_runtime plain_env (default_settings\<lparr>np_proxy_url := lit ''0.0.0.0:80''\<rparr>) = Inr (loopback_addr 80, loopback_addr 8081)"
  by code_simp

theorem proxy_binds_loopback_witness:
  "ip_is_loopback (fst (loopback_addr 80)) \<and> ip_is_loopback (fst (loopback_addr 8081))"
  using resolve_runtime_example by (rule proxy_binds_loopback) (simp add: default_settings_def)

end
