(* ===== verification/Network_Hooks.thy ===== *)
theory Network_Hooks
  imports Network_Config
begin

text \<open>
  Hooks on intercepted requests (\<^verbatim>\<open>codex-rs/network-proxy/src/mitm_hook.rs\<close>): they are validated, compiled with the secrets
  they inject, and matched against a request. The glob crate comes with one matcher per setting of the path separator
  (\<open>path_glob\<close>, \<open>value_glob\<close>); a request is what the matcher looks at, with its query already decoded.
\<close>

section \<open>Compiled hooks\<close>

datatype 'g PathMatcher = PathPrefix str | PathGlob str 'g

datatype 'g ValueMatcher = ExactValue str | ValueGlob str 'g

datatype MatcherPattern = LiteralPattern str | GlobPatternText str

type_synonym 'g NameConstraint = "str \<times> 'g ValueMatcher list"

datatype SecretSource = EnvVar str | SecretFile path_buf

record ResolvedInjectedHeader =
  rh_name :: str
  rh_value :: str
  rh_source :: SecretSource

record MitmHookActions =
  strip_request_headers :: "str list"
  inject_request_headers :: "ResolvedInjectedHeader list"

record 'g MitmHook =
  mh_host :: str
  mh_methods :: "str list"
  mh_path_prefixes :: "'g PathMatcher list"
  mh_query :: "'g NameConstraint list"
  mh_headers :: "'g NameConstraint list"
  mh_actions :: MitmHookActions

type_synonym 'g MitmHooksByHost = "(str \<times> 'g MitmHook list) list"

record proxy_request =
  rq_method :: str
  rq_path :: str
  rq_query :: "(str \<times> str) list"
  rq_headers :: "(str \<times> str option) list"

datatype HookEvaluation = NoHooksForHost | Matched MitmHookActions | HookedHostNoMatch

text \<open>The two ways the crate is called, and matching.\<close>

record 'g hook_globs =
  path_glob :: "str \<Rightarrow> str + 'g"
  value_glob :: "str \<Rightarrow> str + 'g"
  hook_glob_match :: "'g \<Rightarrow> str \<Rightarrow> bool"

section \<open>Validation\<close>

definition normalize_hook_host :: "str \<Rightarrow> anyhow + str" where
  "normalize_hook_host host =
     (let normalized = normalize_host host
      in if normalized = [] then Inl [lit ''host must not be empty'']
         else if 42 \<in> set normalized then Inl [lit ''MITM hook hosts must be exact hosts and cannot contain wildcards'']
         else Inr normalized)"

definition ascii_upper :: "nat \<Rightarrow> nat" where
  "ascii_upper c = (if 97 \<le> c \<and> c \<le> 122 then c - 32 else c)"

definition normalize_methods :: "str list \<Rightarrow> anyhow + str list" where
  "normalize_methods methods =
     map_result (\<lambda>m. let normalized = map ascii_upper (trim m)
                     in if normalized = [] then Inl [lit ''methods must not contain empty entries''] else Inr normalized) methods"

definition parse_matcher_pattern :: "str \<Rightarrow> anyhow + MatcherPattern" where
  "parse_matcher_pattern pattern =
     (case strip_prefix (lit ''literal:'') pattern of
        Some l \<Rightarrow> Inr (LiteralPattern l)
      | None \<Rightarrow>
          (case strip_prefix (lit ''pattern:'') pattern of
             None \<Rightarrow> Inr (LiteralPattern pattern)
           | Some g \<Rightarrow> if g = [] then Inl [lit ''glob pattern must not be empty''] else Inr (GlobPatternText g)))"

definition compile_glob_matcher :: "proxy_env \<Rightarrow> (str \<Rightarrow> str + 'g) \<Rightarrow> str \<Rightarrow> anyhow + 'g" where
  "compile_glob_matcher env build pattern =
     map_err (\<lambda>e. [lit ''invalid glob pattern '' @ penv_debug env pattern @ lit '': '' @ e]) (build pattern)"

definition compile_path_matcher :: "proxy_env \<Rightarrow> 'g hook_globs \<Rightarrow> str \<Rightarrow> anyhow + 'g PathMatcher" where
  "compile_path_matcher env globs p =
     bind_result (parse_matcher_pattern p) (\<lambda>m. case m of
       LiteralPattern l \<Rightarrow> if l = [] then Inl [lit ''path_prefixes must not contain empty entries''] else Inr (PathPrefix l)
     | GlobPatternText g \<Rightarrow> bind_result (compile_glob_matcher env (path_glob globs) g) (\<lambda>c. Inr (PathGlob g c)))"

definition compile_value_matcher :: "proxy_env \<Rightarrow> 'g hook_globs \<Rightarrow> str \<Rightarrow> anyhow + 'g ValueMatcher" where
  "compile_value_matcher env globs v =
     bind_result (parse_matcher_pattern v) (\<lambda>m. case m of
       LiteralPattern l \<Rightarrow> Inr (ExactValue l)
     | GlobPatternText g \<Rightarrow> bind_result (compile_glob_matcher env (value_glob globs) g) (\<lambda>c. Inr (ValueGlob g c)))"

definition compile_path_matchers :: "proxy_env \<Rightarrow> 'g hook_globs \<Rightarrow> str list \<Rightarrow> anyhow + 'g PathMatcher list" where
  "compile_path_matchers env globs ps = map_result (compile_path_matcher env globs) ps"

definition compile_value_matchers :: "proxy_env \<Rightarrow> 'g hook_globs \<Rightarrow> str list \<Rightarrow> anyhow + 'g ValueMatcher list" where
  "compile_value_matchers env globs vs = map_result (compile_value_matcher env globs) vs"

definition normalize_query_name :: "str \<Rightarrow> anyhow + str" where
  "normalize_query_name name = (if name = [] then Inl [lit ''query keys must not be empty''] else Inr name)"

definition parse_header_name :: "proxy_env \<Rightarrow> str \<Rightarrow> anyhow + str" where
  "parse_header_name env name =
     map_err (\<lambda>e. [lit ''invalid header name '' @ penv_debug env name @ lit '': '' @ e]) (penv_header_name env name)"

definition parse_secret_file :: "proxy_env \<Rightarrow> str \<Rightarrow> anyhow + path_buf" where
  "parse_secret_file env p =
     (let relative = lit ''secret_file must be an absolute path: '' @ penv_debug env p
      in if trim p = [] then Inl [lit ''secret_file must not be empty'']
         else if \<not> path_is_absolute (components p) then Inl [relative]
         else case from_absolute_path (penv_home env) (penv_current_dir env) p of
           Some q \<Rightarrow> Inr q
         | None \<Rightarrow> Inl [relative])"

fun validate_query_constraints :: "proxy_env \<Rightarrow> 'g hook_globs \<Rightarrow> (str \<times> str list) list \<Rightarrow> anyhow + unit" where
  "validate_query_constraints env globs [] = Inr ()"
| "validate_query_constraints env globs ((name, vals) # qs) =
     bind_result (normalize_query_name name) (\<lambda>_.
     if vals = [] then Inl [lit ''query key '' @ penv_debug env name @ lit '' must list at least one allowed value'']
     else bind_result (anyhow_context (lit ''invalid matcher for query key '' @ penv_debug env name) (compile_value_matchers env globs vals))
            (\<lambda>_. validate_query_constraints env globs qs))"

fun validate_header_constraints :: "proxy_env \<Rightarrow> 'g hook_globs \<Rightarrow> (str \<times> str list) list \<Rightarrow> anyhow + unit" where
  "validate_header_constraints env globs [] = Inr ()"
| "validate_header_constraints env globs ((name, vals) # hs) =
     bind_result (parse_header_name env name) (\<lambda>_.
     bind_result (anyhow_context (lit ''invalid matcher for header '' @ penv_debug env name) (compile_value_matchers env globs vals))
       (\<lambda>_. validate_header_constraints env globs hs))"

fun validate_strip_request_headers :: "proxy_env \<Rightarrow> str list \<Rightarrow> anyhow + unit" where
  "validate_strip_request_headers env [] = Inr ()"
| "validate_strip_request_headers env (n # ns) =
     bind_result (parse_header_name env n) (\<lambda>_. validate_strip_request_headers env ns)"

definition one_secret :: str where "one_secret = lit ''expected exactly one of secret_env_var or secret_file''"

fun validate_injected_headers :: "proxy_env \<Rightarrow> InjectedHeaderConfig list \<Rightarrow> anyhow + unit" where
  "validate_injected_headers env [] = Inr ()"
| "validate_injected_headers env (h # hs) =
     bind_result (parse_header_name env (ih_name h)) (\<lambda>_.
     bind_result
       (case (ih_secret_env_var h, ih_secret_file h) of
          (Some v, None) \<Rightarrow> if trim v = [] then Inl [lit ''secret_env_var must not be empty''] else Inr ()
        | (None, Some f) \<Rightarrow> bind_result (parse_secret_file env f) (\<lambda>_. Inr ())
        | _ \<Rightarrow> Inl [one_secret])
       (\<lambda>_. validate_injected_headers env hs))"

definition hook_field :: "nat \<Rightarrow> string \<Rightarrow> str" where
  "hook_field i field = lit ''network.mitm_hooks['' @ show_nat i @ lit '']'' @ lit field"

definition validate_hook :: "proxy_env \<Rightarrow> 'g hook_globs \<Rightarrow> nat \<Rightarrow> MitmHookConfig \<Rightarrow> anyhow + unit" where
  "validate_hook env globs i hook =
     (let m = hook_matcher hook; invalid = (\<lambda>field r. anyhow_context (lit ''invalid '' @ hook_field i field) r)
      in bind_result (anyhow_context (lit ''invalid '' @ hook_field i ''.host'') (normalize_hook_host (hook_host hook))) (\<lambda>host.
         bind_result (anyhow_context (lit ''invalid '' @ hook_field i ''.match.methods'') (normalize_methods (hm_methods m))) (\<lambda>methods.
         if methods = [] then Inl [hook_field i ''.match.methods must not be empty'']
         else bind_result (anyhow_context (lit ''invalid '' @ hook_field i ''.match.path_prefixes'')
                (compile_path_matchers env globs (hm_path_prefixes m))) (\<lambda>paths.
         if paths = [] then Inl [hook_field i ''.match.path_prefixes must not be empty'']
         else if hm_has_body m then
           Inl [hook_field i ''.match.body is reserved for a future release and is not yet supported'']
         else bind_result (invalid ''.match.query'' (validate_query_constraints env globs (hm_query m))) (\<lambda>_.
         bind_result (invalid ''.match.headers'' (validate_header_constraints env globs (hm_headers m))) (\<lambda>_.
         bind_result (invalid ''.actions.strip_request_headers'' (validate_strip_request_headers env (hook_strip_request_headers hook))) (\<lambda>_.
         bind_result (invalid ''.actions.inject_request_headers'' (validate_injected_headers env (hook_inject_request_headers hook))) (\<lambda>_.
         if host = [] then Inl [hook_field i ''.host must not be empty''] else Inr ()))))))))"

fun validate_hooks :: "proxy_env \<Rightarrow> 'g hook_globs \<Rightarrow> nat \<Rightarrow> MitmHookConfig list \<Rightarrow> anyhow + unit" where
  "validate_hooks env globs i [] = Inr ()"
| "validate_hooks env globs i (h # hs) = bind_result (validate_hook env globs i h) (\<lambda>_. validate_hooks env globs (Suc i) hs)"

definition validate_mitm_hook_config :: "proxy_env \<Rightarrow> 'g hook_globs \<Rightarrow> NetworkProxySettings \<Rightarrow> anyhow + unit" where
  "validate_mitm_hook_config env globs s =
     (if np_mitm_hooks s = [] then Inr ()
      else if \<not> np_mitm s then Inl [lit ''network.mitm_hooks requires network.mitm = true'']
      else validate_hooks env globs 0 (np_mitm_hooks s))"

section \<open>Compilation\<close>

definition compile_injected_header :: "proxy_env \<Rightarrow> InjectedHeaderConfig \<Rightarrow> anyhow + ResolvedInjectedHeader" where
  "compile_injected_header env h =
     bind_result (parse_header_name env (ih_name h)) (\<lambda>name.
     bind_result
       (case (ih_secret_env_var h, ih_secret_file h) of
          (Some v, None) \<Rightarrow>
            (case penv_env_var env v of
               Some s \<Rightarrow> Inr (s, EnvVar v)
             | None \<Rightarrow> Inl [lit ''missing required environment variable '' @ v])
        | (None, Some f) \<Rightarrow>
            bind_result (parse_secret_file env f) (\<lambda>p.
            case penv_read_file env p of
              Inr contents \<Rightarrow> Inr (trim contents, SecretFile p)
            | Inl e \<Rightarrow> Inl [lit ''failed to read secret file '' @ path_display p, e])
        | _ \<Rightarrow> Inl [one_secret])
       (\<lambda>(secret, source).
          bind_result (anyhow_context (lit ''invalid value for injected header '' @ ih_name h)
              (map_err (\<lambda>e. [e]) (penv_header_value env ((case ih_prefix h of Some p \<Rightarrow> p | None \<Rightarrow> []) @ secret))))
            (\<lambda>v. Inr \<lparr>rh_name = name, rh_value = v, rh_source = source\<rparr>)))"

definition compile_constraints ::
  "proxy_env \<Rightarrow> 'g hook_globs \<Rightarrow> (str \<Rightarrow> anyhow + str) \<Rightarrow> (str \<times> str list) list \<Rightarrow> anyhow + 'g NameConstraint list" where
  "compile_constraints env globs parse_name cs =
     map_result (\<lambda>(name, vals). bind_result (parse_name name) (\<lambda>n.
       bind_result (compile_value_matchers env globs vals) (\<lambda>vs. Inr (n, vs)))) cs"

definition compile_hook :: "proxy_env \<Rightarrow> 'g hook_globs \<Rightarrow> MitmHookConfig \<Rightarrow> anyhow + 'g MitmHook" where
  "compile_hook env globs hook =
     (let m = hook_matcher hook
      in bind_result (normalize_hook_host (hook_host hook)) (\<lambda>host.
         bind_result (normalize_methods (hm_methods m)) (\<lambda>methods.
         bind_result (compile_path_matchers env globs (hm_path_prefixes m)) (\<lambda>paths.
         bind_result (compile_constraints env globs normalize_query_name (hm_query m)) (\<lambda>query.
         bind_result (compile_constraints env globs (parse_header_name env) (hm_headers m)) (\<lambda>headers.
         bind_result (map_result (parse_header_name env) (hook_strip_request_headers hook)) (\<lambda>strip.
         bind_result (map_result (\<lambda>h. anyhow_context (lit ''failed to compile injected header '' @ ih_name h)
                        (compile_injected_header env h)) (hook_inject_request_headers hook)) (\<lambda>inject.
         Inr \<lparr>mh_host = host, mh_methods = methods, mh_path_prefixes = paths, mh_query = query, mh_headers = headers,
              mh_actions = \<lparr>strip_request_headers = strip, inject_request_headers = inject\<rparr>\<rparr>))))))))"

definition push_hook :: "'g MitmHook \<Rightarrow> 'g MitmHooksByHost \<Rightarrow> 'g MitmHooksByHost" where
  "push_hook h m = bt_insert (mh_host h) (case map_of m (mh_host h) of Some hs \<Rightarrow> hs @ [h] | None \<Rightarrow> [h]) m"

fun compile_hooks :: "proxy_env \<Rightarrow> 'g hook_globs \<Rightarrow> MitmHookConfig list \<Rightarrow> 'g MitmHooksByHost \<Rightarrow> anyhow + 'g MitmHooksByHost" where
  "compile_hooks env globs [] m = Inr m"
| "compile_hooks env globs (h # hs) m =
     bind_result (compile_hook env globs h) (\<lambda>c. compile_hooks env globs hs (push_hook c m))"

definition compile_mitm_hooks :: "proxy_env \<Rightarrow> 'g hook_globs \<Rightarrow> NetworkProxySettings \<Rightarrow> anyhow + 'g MitmHooksByHost" where
  "compile_mitm_hooks env globs s =
     bind_result (validate_mitm_hook_config env globs s) (\<lambda>_. compile_hooks env globs (np_mitm_hooks s) [])"

section \<open>Evaluation\<close>

fun path_matcher_matches :: "'g hook_globs \<Rightarrow> 'g PathMatcher \<Rightarrow> str \<Rightarrow> bool" where
  "path_matcher_matches globs (PathPrefix p) candidate = starts_with p candidate"
| "path_matcher_matches globs (PathGlob _ g) candidate = hook_glob_match globs g candidate"

fun value_matcher_matches :: "'g hook_globs \<Rightarrow> 'g ValueMatcher \<Rightarrow> str \<Rightarrow> bool" where
  "value_matcher_matches globs (ExactValue v) candidate = (v = candidate)"
| "value_matcher_matches globs (ValueGlob _ g) candidate = hook_glob_match globs g candidate"

definition path_matches :: "'g hook_globs \<Rightarrow> 'g PathMatcher list \<Rightarrow> str \<Rightarrow> bool" where
  "path_matches globs ms p = list_ex (\<lambda>m. path_matcher_matches globs m p) ms"

definition query_matches :: "'g hook_globs \<Rightarrow> 'g NameConstraint list \<Rightarrow> proxy_request \<Rightarrow> bool" where
  "query_matches globs cs req =
     list_all (\<lambda>(name, allowed). list_ex (\<lambda>(n, v). n = name \<and> list_ex (\<lambda>a. value_matcher_matches globs a v) allowed)
       (rq_query req)) cs"

definition headers_match :: "'g hook_globs \<Rightarrow> 'g NameConstraint list \<Rightarrow> proxy_request \<Rightarrow> bool" where
  "headers_match globs cs req =
     list_all (\<lambda>(name, allowed).
         let actual = filter (\<lambda>(n, _). n = name) (rq_headers req)
         in if actual = [] then False
            else if allowed = [] then True
            else list_ex (\<lambda>(_, v). case v of Some t \<Rightarrow> list_ex (\<lambda>a. value_matcher_matches globs a t) allowed | None \<Rightarrow> False) actual) cs"

definition hook_matches :: "'g hook_globs \<Rightarrow> 'g MitmHook \<Rightarrow> proxy_request \<Rightarrow> bool" where
  "hook_matches globs h req \<longleftrightarrow>
     map ascii_upper (rq_method req) \<in> set (mh_methods h)
     \<and> path_matches globs (mh_path_prefixes h) (rq_path req)
     \<and> query_matches globs (mh_query h) req
     \<and> headers_match globs (mh_headers h) req"

definition evaluate_mitm_hooks :: "'g hook_globs \<Rightarrow> 'g MitmHooksByHost \<Rightarrow> str \<Rightarrow> proxy_request \<Rightarrow> HookEvaluation" where
  "evaluate_mitm_hooks globs hooks_by_host host req =
     (case map_of hooks_by_host (normalize_host host) of
        None \<Rightarrow> NoHooksForHost
      | Some hooks \<Rightarrow>
          (case List.find (\<lambda>h. hook_matches globs h req) hooks of
             Some h \<Rightarrow> Matched (mh_actions h)
           | None \<Rightarrow> HookedHostNoMatch))"

end
