(* ===== verification/Network_Constraints.thy ===== *)
theory Network_Constraints
  imports Network_Hooks
begin

text \<open>
  Managed constraints on the configuration of the network proxy, and the state built from a configuration
  (\<^verbatim>\<open>codex-rs/network-proxy/src/state.rs\<close>, with the types of \<^verbatim>\<open>runtime.rs\<close>).
\<close>

section \<open>Constraints\<close>

record NetworkProxyConstraints =
  nc_enabled :: "bool option"
  nc_mode :: "NetworkMode option"
  nc_allow_upstream_proxy :: "bool option"
  nc_dangerously_allow_non_loopback_proxy :: "bool option"
  nc_dangerously_allow_all_unix_sockets :: "bool option"
  nc_allowed_domains :: "str list option"
  nc_allowlist_expansion_enabled :: "bool option"
  nc_denied_domains :: "str list option"
  nc_denylist_expansion_enabled :: "bool option"
  nc_allow_unix_sockets :: "str list option"
  nc_allow_local_binding :: "bool option"

definition no_constraints :: NetworkProxyConstraints where
  "no_constraints =
     \<lparr>nc_enabled = None, nc_mode = None, nc_allow_upstream_proxy = None, nc_dangerously_allow_non_loopback_proxy = None,
      nc_dangerously_allow_all_unix_sockets = None, nc_allowed_domains = None, nc_allowlist_expansion_enabled = None,
      nc_denied_domains = None, nc_denylist_expansion_enabled = None, nc_allow_unix_sockets = None,
      nc_allow_local_binding = None\<rparr>"

datatype NetworkProxyConstraintError = InvalidValue str str str

definition invalid_value :: "string \<Rightarrow> str \<Rightarrow> str \<Rightarrow> NetworkProxyConstraintError + unit" where
  "invalid_value field_name candidate allowed = Inl (InvalidValue (lit field_name) candidate allowed)"

fun network_mode_rank :: "NetworkMode \<Rightarrow> nat" where
  "network_mode_rank Limited = 0"
| "network_mode_rank Full = 1"

fun show_mode :: "NetworkMode \<Rightarrow> str" where
  "show_mode Limited = lit ''Limited''"
| "show_mode Full = lit ''Full''"

definition scoped_only :: str where
  "scoped_only = lit ''exact hosts or scoped wildcards like *.example.com or **.example.com''"

definition validate_non_global_wildcard_domain_patterns :: "string \<Rightarrow> str list \<Rightarrow> NetworkProxyConstraintError + unit" where
  "validate_non_global_wildcard_domain_patterns field_name patterns =
     (case List.find is_global_wildcard_domain_pattern patterns of
        Some p \<Rightarrow> invalid_value field_name (trim p) scoped_only
      | None \<Rightarrow> Inr ())"

text \<open>A boolean setting that a constraint may switch off.\<close>

definition switched_off :: "string \<Rightarrow> bool \<Rightarrow> bool option \<Rightarrow> NetworkProxyConstraintError + unit" where
  "switched_off field_name candidate max_value =
     (if candidate \<and> max_value = Some False
      then invalid_value field_name (lit ''true'') (lit ''false (disabled by managed config)'') else Inr ())"

definition lower_set :: "str list \<Rightarrow> str set" where
  "lower_set entries = to_ascii_lowercase ` set entries"

definition validate_allowed_domains ::
  "proxy_env \<Rightarrow> NetworkProxySettings \<Rightarrow> bool option \<Rightarrow> str list \<Rightarrow> NetworkProxyConstraintError + unit" where
  "validate_allowed_domains env cfg expansion managed =
     (let candidate = or_empty (allowed_domains cfg); denied = lower_set (or_empty (denied_domains cfg))
      in case expansion of
           Some True \<Rightarrow>
             (let missing = {e \<in> lower_set managed. e \<notin> lower_set candidate \<and> e \<notin> denied}
              in if missing = {} then Inr ()
                 else invalid_value ''network.allowed_domains'' (lit ''missing managed allowed_domains entries'') (penv_debug_set env missing))
         | Some False \<Rightarrow>
             if lower_set candidate = lower_set managed - denied then Inr ()
             else invalid_value ''network.allowed_domains'' (penv_debug_list env candidate) (lit ''must match managed allowed_domains'')
         | None \<Rightarrow>
             (let patterns = map (parse_for_constraints (penv_url_host env)) managed;
                  invalid = filter (\<lambda>e. \<not> list_ex (\<lambda>m. allows m (parse_for_constraints (penv_url_host env) e)) patterns) candidate
              in if invalid = [] then Inr ()
                 else invalid_value ''network.allowed_domains'' (penv_debug_list env invalid) (lit ''subset of managed allowed_domains'')))"

definition validate_denied_domains ::
  "proxy_env \<Rightarrow> NetworkProxySettings \<Rightarrow> bool option \<Rightarrow> str list \<Rightarrow> NetworkProxyConstraintError + unit" where
  "validate_denied_domains env cfg expansion managed =
     (let candidate = or_empty (denied_domains cfg)
      in if expansion = Some False then
           (if lower_set candidate = lower_set managed then Inr ()
            else invalid_value ''network.denied_domains'' (penv_debug_list env candidate) (lit ''must match managed denied_domains''))
         else
           (let missing = lower_set managed - lower_set candidate
            in if missing = {} then Inr ()
               else invalid_value ''network.denied_domains'' (lit ''missing managed denied_domains entries'') (penv_debug_set env missing)))"

definition validate_policy_against_constraints ::
  "proxy_env \<Rightarrow> 'g hook_globs \<Rightarrow> NetworkProxySettings \<Rightarrow> NetworkProxyConstraints \<Rightarrow> NetworkProxyConstraintError + unit" where
  "validate_policy_against_constraints env globs cfg c =
     first_error
       [map_err (\<lambda>e. InvalidValue (lit ''network.mitm_hooks'') (hd e) (lit ''valid MITM hook configuration''))
          (validate_mitm_hook_config env globs cfg),
        validate_non_global_wildcard_domain_patterns ''network.denied_domains'' (or_empty (denied_domains cfg)),
        switched_off ''network.enabled'' (np_enabled cfg) (nc_enabled c),
        (case nc_mode c of
           Some max_mode \<Rightarrow>
             if network_mode_rank (np_mode cfg) > network_mode_rank max_mode
             then invalid_value ''network.mode'' (show_mode (np_mode cfg)) (show_mode max_mode @ lit '' or more restrictive'') else Inr ()
         | None \<Rightarrow> Inr ()),
        switched_off ''network.allow_upstream_proxy'' (np_allow_upstream_proxy cfg) (nc_allow_upstream_proxy c),
        switched_off ''network.dangerously_allow_non_loopback_proxy'' (np_dangerously_allow_non_loopback_proxy cfg)
          (nc_dangerously_allow_non_loopback_proxy c),
        switched_off ''network.dangerously_allow_all_unix_sockets'' (np_dangerously_allow_all_unix_sockets cfg)
          (Some (case nc_dangerously_allow_all_unix_sockets c of Some b \<Rightarrow> b | None \<Rightarrow> nc_allow_unix_sockets c = None)),
        switched_off ''network.allow_local_binding'' (np_allow_local_binding cfg) (nc_allow_local_binding c),
        (case nc_allowed_domains c of
           Some managed \<Rightarrow>
             first_error
               [validate_non_global_wildcard_domain_patterns ''network.allowed_domains'' managed,
                validate_allowed_domains env cfg (nc_allowlist_expansion_enabled c) managed]
         | None \<Rightarrow> Inr ()),
        (case nc_denied_domains c of
           Some managed \<Rightarrow>
             first_error
               [validate_non_global_wildcard_domain_patterns ''network.denied_domains'' managed,
                validate_denied_domains env cfg (nc_denylist_expansion_enabled c) managed]
         | None \<Rightarrow> Inr ()),
        (case nc_allow_unix_sockets c of
           Some managed \<Rightarrow>
             (let invalid = filter (\<lambda>e. to_ascii_lowercase e \<notin> lower_set managed) (allow_unix_sockets cfg)
              in if invalid = [] then Inr ()
                 else invalid_value ''network.allow_unix_sockets'' (penv_debug_list env invalid) (lit ''subset of managed allow_unix_sockets''))
         | None \<Rightarrow> Inr ())]"

definition show_constraint_error :: "NetworkProxyConstraintError \<Rightarrow> str" where
  "show_constraint_error e =
     (case e of InvalidValue field_name candidate allowed \<Rightarrow>
        lit ''invalid value for '' @ field_name @ lit '': '' @ candidate @ lit '' (allowed '' @ allowed @ lit '')'')"

definition into_anyhow :: "NetworkProxyConstraintError + 'a \<Rightarrow> anyhow + 'a" where
  "into_anyhow = map_err (\<lambda>e. [show_constraint_error e])"

section \<open>The state of the proxy\<close>

record BlockedRequest =
  br_host :: str
  br_reason :: str
  br_client :: "str option"
  br_method :: "str option"
  br_mode :: "NetworkMode option"
  br_protocol :: str
  br_decision :: "str option"
  br_source :: "str option"
  br_port :: "nat option"
  br_timestamp :: int

record 'g ConfigState =
  cs_config :: NetworkProxySettings
  cs_allow_set :: "'g GlobSet"
  cs_deny_set :: "'g GlobSet"
  cs_mitm :: "(bool \<times> bool) option"
  cs_mitm_hooks :: "'g MitmHooksByHost"
  cs_constraints :: NetworkProxyConstraints
  cs_blocked :: "BlockedRequest list"
  cs_blocked_total :: nat

definition build_config_state ::
  "proxy_env \<Rightarrow> 'g glob_crate \<Rightarrow> 'g hook_globs \<Rightarrow> NetworkProxySettings \<Rightarrow> NetworkProxyConstraints \<Rightarrow> anyhow + 'g ConfigState" where
  "build_config_state env crate globs config constraints =
     (let allowed = or_empty (allowed_domains config); denied = or_empty (denied_domains config)
      in bind_result (validate_unix_socket_allowlist_paths env config) (\<lambda>_.
         bind_result (into_anyhow (validate_non_global_wildcard_domain_patterns ''network.denied_domains'' denied)) (\<lambda>_.
         bind_result (compile_denylist_globset crate denied) (\<lambda>deny_set.
         bind_result (compile_allowlist_globset crate allowed) (\<lambda>allow_set.
         bind_result (compile_mitm_hooks env globs config) (\<lambda>hooks.
         bind_result
           (if np_mitm config then
              (case penv_mitm_error env (np_allow_upstream_proxy config) (np_allow_local_binding config) of
                 Some e \<Rightarrow> Inl e
               | None \<Rightarrow> Inr (Some (np_allow_upstream_proxy config, np_allow_local_binding config)))
            else Inr None) (\<lambda>mitm.
         Inr \<lparr>cs_config = config, cs_allow_set = allow_set, cs_deny_set = deny_set, cs_mitm = mitm, cs_mitm_hooks = hooks,
              cs_constraints = constraints, cs_blocked = [], cs_blocked_total = 0\<rparr>)))))))"

end
