(* ===== verification/Network_Runtime.thy ===== *)
theory Network_Runtime
  imports Network_Constraints
begin

text \<open>
  The running proxy (\<^verbatim>\<open>codex-rs/network-proxy/src/runtime.rs\<close>, \<^verbatim>\<open>network_policy.rs\<close>, \<^verbatim>\<open>connect_policy.rs\<close> and the request policy
  of \<^verbatim>\<open>mitm.rs\<close>). An operation takes the answer of the reloader, \<open>reload\<close>, which every call asks first. A change of a domain
  list or of the mode reads the state, checks and compiles without holding the lock, and then writes unless something has
  changed meanwhile: \<open>prepare_domain_update\<close>, \<open>prepare_mode_change\<close> and \<open>commit_prepared\<close> are the two halves. A look-up of
  names gives None when it fails or takes too long.
\<close>

section \<open>Decisions\<close>

datatype HostBlockReason = HostDenied | HostNotAllowed | HostNotAllowedLocal

datatype HostBlockDecision = HostAllowed | HostBlocked HostBlockReason

fun reason_as_str :: "HostBlockReason \<Rightarrow> str" where
  "reason_as_str HostDenied = lit ''denied''"
| "reason_as_str HostNotAllowed = lit ''not_allowed''"
| "reason_as_str HostNotAllowedLocal = lit ''not_allowed_local''"

type_synonym 'g reload = "anyhow + 'g ConfigState option"

definition reload_if_needed :: "'g reload \<Rightarrow> 'g ConfigState \<Rightarrow> anyhow + 'g ConfigState" where
  "reload_if_needed r st =
     (case r of
        Inl e \<Rightarrow> Inl e
      | Inr None \<Rightarrow> Inr st
      | Inr (Some new_state) \<Rightarrow>
          Inr (new_state\<lparr>cs_blocked := cs_blocked st, cs_blocked_total := cs_blocked_total st\<rparr>))"

definition force_reload :: "anyhow + 'g ConfigState \<Rightarrow> 'g ConfigState \<Rightarrow> 'g ConfigState \<times> (anyhow + unit)" where
  "force_reload r st =
     (case r of
        Inr new_state \<Rightarrow> (new_state\<lparr>cs_blocked := cs_blocked st\<rparr>, Inr ())
      | Inl e \<Rightarrow> (st, Inl e))"

definition replace_config_state :: "'g reload \<Rightarrow> 'g ConfigState \<Rightarrow> 'g ConfigState \<Rightarrow> anyhow + 'g ConfigState" where
  "replace_config_state r new_state st =
     bind_result (reload_if_needed r st) (\<lambda>st1.
       Inr (new_state\<lparr>cs_blocked := cs_blocked st1, cs_blocked_total := cs_blocked_total st1\<rparr>))"

type_synonym lookup = "str \<Rightarrow> nat \<Rightarrow> IpAddr list option"

definition host_resolves_to_non_public_ip :: "lookup \<Rightarrow> str \<Rightarrow> nat \<Rightarrow> bool" where
  "host_resolves_to_non_public_ip lookup_host host port =
     (case parse_ip_addr host of
        Some ip \<Rightarrow> is_non_public_ip ip
      | None \<Rightarrow>
          (case lookup_host host port of
             None \<Rightarrow> True
           | Some addrs \<Rightarrow> list_ex is_non_public_ip addrs))"

definition globset_matches_host_or_unscoped :: "'g glob_crate \<Rightarrow> 'g GlobSet \<Rightarrow> str \<Rightarrow> bool" where
  "globset_matches_host_or_unscoped crate gs host \<longleftrightarrow>
     globset_is_match crate gs host
     \<or> (case unscoped_ip_literal host of Some ip \<Rightarrow> globset_is_match crate gs ip | None \<Rightarrow> False)"

definition is_explicit_local_allowlisted :: "str list \<Rightarrow> str \<Rightarrow> bool" where
  "is_explicit_local_allowlisted patterns normalized_host =
     list_ex (\<lambda>p.
         let pattern = trim p
         in if pattern = lit ''*'' \<or> starts_with (lit ''*.'') pattern \<or> starts_with (lit ''**.'') pattern then False
            else if 42 \<in> set pattern \<or> 63 \<in> set pattern then False
            else normalize_host pattern = normalized_host
                 \<or> unscoped_ip_literal normalized_host = Some (normalize_host pattern)) patterns"

definition is_local_literal :: "str \<Rightarrow> bool" where
  "is_local_literal host =
     (if is_loopback_host host then True
      else case parse_ip_addr (without_scope host) of Some ip \<Rightarrow> is_non_public_ip ip | None \<Rightarrow> False)"

definition decide_host :: "'g glob_crate \<Rightarrow> lookup \<Rightarrow> 'g ConfigState \<Rightarrow> str \<Rightarrow> nat \<Rightarrow> HostBlockDecision" where
  "decide_host crate lookup_host st host port =
     (let allowed = allowed_domains (cs_config st)
      in if globset_matches_host_or_unscoped crate (cs_deny_set st) host then HostBlocked HostDenied
         else if \<not> np_allow_local_binding (cs_config st)
           \<and> (if is_local_literal host then \<not> is_explicit_local_allowlisted (or_empty allowed) host
              else host_resolves_to_non_public_ip lookup_host host port) then HostBlocked HostNotAllowedLocal
         else if allowed = None \<or> \<not> globset_matches_host_or_unscoped crate (cs_allow_set st) host then HostBlocked HostNotAllowed
         else HostAllowed)"

definition host_blocked ::
  "'g glob_crate \<Rightarrow> lookup \<Rightarrow> 'g reload \<Rightarrow> str \<Rightarrow> nat \<Rightarrow> 'g ConfigState \<Rightarrow> anyhow + 'g ConfigState \<times> HostBlockDecision" where
  "host_blocked crate lookup_host r host port st =
     bind_result (reload_if_needed r st) (\<lambda>st1.
       case host_parse host of
         Inl _ \<Rightarrow> Inr (st1, HostBlocked HostNotAllowed)
       | Inr h \<Rightarrow> Inr (st1, decide_host crate lookup_host st1 h port))"

section \<open>Blocked requests\<close>

definition MAX_BLOCKED_EVENTS :: nat where "MAX_BLOCKED_EVENTS = 200"

definition u64_max :: nat where "u64_max = 2 ^ 64 - 1"

fun pop_excess :: "'a list \<Rightarrow> 'a list" where
  "pop_excess xs = (if length xs > MAX_BLOCKED_EVENTS then pop_excess (tl xs) else xs)"

declare pop_excess.simps [simp del]

definition push_blocked :: "BlockedRequest \<Rightarrow> 'g ConfigState \<Rightarrow> 'g ConfigState" where
  "push_blocked entry st =
     st\<lparr>cs_blocked := pop_excess (cs_blocked st @ [entry]), cs_blocked_total := min u64_max (cs_blocked_total st + 1)\<rparr>"

definition record_blocked :: "'g reload \<Rightarrow> BlockedRequest \<Rightarrow> 'g ConfigState \<Rightarrow> anyhow + 'g ConfigState" where
  "record_blocked r entry st = bind_result (reload_if_needed r st) (\<lambda>st1. Inr (push_blocked entry st1))"

definition drain_blocked :: "'g reload \<Rightarrow> 'g ConfigState \<Rightarrow> anyhow + 'g ConfigState \<times> BlockedRequest list" where
  "drain_blocked r st =
     bind_result (reload_if_needed r st) (\<lambda>st1. Inr (st1\<lparr>cs_blocked := []\<rparr>, cs_blocked st1))"

section \<open>Sockets and methods\<close>

fun socket_listed :: "proxy_env \<Rightarrow> path_buf \<Rightarrow> str list \<Rightarrow> bool" where
  "socket_listed env requested [] = False"
| "socket_listed env requested (a # as) =
     (case validated_socket_path env a of
        Inr (Native allowed) \<Rightarrow>
          if allowed = requested then True
          else if penv_canonicalize env requested \<noteq> None
            \<and> penv_canonicalize env allowed = penv_canonicalize env requested then True
          else socket_listed env requested as
      | _ \<Rightarrow> socket_listed env requested as)"

definition is_unix_socket_allowed :: "bool \<Rightarrow> proxy_env \<Rightarrow> 'g reload \<Rightarrow> str \<Rightarrow> 'g ConfigState \<Rightarrow> anyhow + bool" where
  "is_unix_socket_allowed supported env r p st =
     bind_result (reload_if_needed r st) (\<lambda>st1.
       if \<not> supported then Inr False
       else if \<not> path_is_absolute (components p) then Inr False
       else if np_dangerously_allow_all_unix_sockets (cs_config st1) then Inr True
       else case from_absolute_path (penv_home env) (penv_current_dir env) p of
         None \<Rightarrow> Inr False
       | Some requested \<Rightarrow> Inr (socket_listed env requested (allow_unix_sockets (cs_config st1))))"

definition method_allowed :: "'g reload \<Rightarrow> str \<Rightarrow> 'g ConfigState \<Rightarrow> anyhow + bool" where
  "method_allowed r m st = bind_result (reload_if_needed r st) (\<lambda>st1. Inr (allows_method (np_mode (cs_config st1)) m))"

definition host_has_mitm_hooks :: "'g reload \<Rightarrow> str \<Rightarrow> 'g ConfigState \<Rightarrow> anyhow + bool" where
  "host_has_mitm_hooks r host st =
     bind_result (reload_if_needed r st) (\<lambda>st1. Inr (map_of (cs_mitm_hooks st1) (normalize_host host) \<noteq> None))"

section \<open>Changes in two halves\<close>

text \<open>A change that has been prepared from a state and not yet been written: nothing to do, an error, a new state with the
  configuration and constraints it was made from, or a change of mode with the constraints it was checked against.\<close>

datatype 'g prepared =
  UpToDate | Refused anyhow | Commit NetworkProxySettings NetworkProxyConstraints "'g ConfigState"
| ModeChange NetworkProxyConstraints NetworkMode

definition commit_mode_change :: "NetworkProxyConstraints \<Rightarrow> NetworkMode \<Rightarrow> 'g ConfigState \<Rightarrow> 'g ConfigState option" where
  "commit_mode_change constraints mode st =
     (if cs_constraints st \<noteq> constraints then None
      else Some (st\<lparr>cs_config := (cs_config st)\<lparr>np_mode := mode\<rparr>\<rparr>))"

definition commit_domain_update ::
  "NetworkProxySettings \<Rightarrow> NetworkProxyConstraints \<Rightarrow> 'g ConfigState \<Rightarrow> 'g ConfigState \<Rightarrow> 'g ConfigState option" where
  "commit_domain_update previous constraints new_state st =
     (if cs_constraints st \<noteq> constraints \<or> cs_config st \<noteq> previous then None else Some new_state)"

text \<open>None stands for another round of the loop.\<close>

fun commit_prepared :: "'g prepared \<Rightarrow> 'g ConfigState \<Rightarrow> ('g ConfigState \<times> (anyhow + unit)) option" where
  "commit_prepared UpToDate st = Some (st, Inr ())"
| "commit_prepared (Refused e) st = Some (st, Inl e)"
| "commit_prepared (Commit previous constraints new_state) st =
     map_option (\<lambda>s. (s, Inr ())) (commit_domain_update previous constraints new_state st)"
| "commit_prepared (ModeChange constraints mode) st = map_option (\<lambda>s. (s, Inr ())) (commit_mode_change constraints mode st)"

definition prepare_mode_change :: "proxy_env \<Rightarrow> 'g hook_globs \<Rightarrow> NetworkMode \<Rightarrow> 'g ConfigState \<Rightarrow> 'g prepared" where
  "prepare_mode_change env globs mode st =
     (case anyhow_context (lit ''network.mode constrained by managed config'')
         (into_anyhow (validate_policy_against_constraints env globs ((cs_config st)\<lparr>np_mode := mode\<rparr>) (cs_constraints st))) of
        Inl e \<Rightarrow> Refused e
      | Inr _ \<Rightarrow> ModeChange (cs_constraints st) mode)"

text \<open>The whole operation when nothing else happens between the halves; the first round ends it.\<close>

definition set_network_mode ::
  "proxy_env \<Rightarrow> 'g hook_globs \<Rightarrow> 'g reload \<Rightarrow> NetworkMode \<Rightarrow> 'g ConfigState \<Rightarrow> ('g ConfigState \<times> (anyhow + unit)) option" where
  "set_network_mode env globs r mode st =
     (case reload_if_needed r st of
        Inl e \<Rightarrow> Some (st, Inl e)
      | Inr st1 \<Rightarrow> commit_prepared (prepare_mode_change env globs mode st1) st1)"

section \<open>Changing the domain lists\<close>

datatype DomainListKind = AllowList | DenyList

fun list_name :: "DomainListKind \<Rightarrow> str" where
  "list_name AllowList = lit ''allowlist''"
| "list_name DenyList = lit ''denylist''"

fun constraint_field :: "DomainListKind \<Rightarrow> str" where
  "constraint_field AllowList = lit ''network.allowed_domains''"
| "constraint_field DenyList = lit ''network.denied_domains''"

fun list_permission :: "DomainListKind \<Rightarrow> NetworkDomainPermission" where
  "list_permission AllowList = PermAllow"
| "list_permission DenyList = PermDeny"

fun list_entries :: "DomainListKind \<Rightarrow> NetworkProxySettings \<Rightarrow> str list" where
  "list_entries AllowList s = or_empty (allowed_domains s)"
| "list_entries DenyList s = or_empty (denied_domains s)"

fun opposite_entries :: "DomainListKind \<Rightarrow> NetworkProxySettings \<Rightarrow> str list" where
  "opposite_entries AllowList s = or_empty (denied_domains s)"
| "opposite_entries DenyList s = or_empty (allowed_domains s)"

definition prepare_domain_update ::
  "proxy_env \<Rightarrow> 'g glob_crate \<Rightarrow> 'g hook_globs \<Rightarrow> str \<Rightarrow> DomainListKind \<Rightarrow> 'g ConfigState \<Rightarrow> 'g prepared" where
  "prepare_domain_update env crate globs host target st =
     (let previous = cs_config st;
          same = (\<lambda>e. normalize_host e = host);
          candidate = upsert_domain_permission host (list_permission target) normalize_host previous
      in if list_ex same (list_entries target previous) \<and> \<not> list_ex same (opposite_entries target previous) then UpToDate
         else case anyhow_context (constraint_field target @ lit '' constrained by managed config'')
             (into_anyhow (validate_policy_against_constraints env globs candidate (cs_constraints st))) of
           Inl e \<Rightarrow> Refused e
         | Inr _ \<Rightarrow>
             (case anyhow_context (lit ''failed to compile updated network '' @ list_name target)
                 (build_config_state env crate globs candidate (cs_constraints st)) of
                Inl e \<Rightarrow> Refused e
              | Inr new_state \<Rightarrow>
                  Commit previous (cs_constraints st)
                    (new_state\<lparr>cs_blocked := cs_blocked st, cs_blocked_total := cs_blocked_total st\<rparr>)))"

definition update_domain_list ::
  "proxy_env \<Rightarrow> 'g glob_crate \<Rightarrow> 'g hook_globs \<Rightarrow> 'g reload \<Rightarrow> str \<Rightarrow> DomainListKind \<Rightarrow> 'g ConfigState
   \<Rightarrow> ('g ConfigState \<times> (anyhow + unit)) option" where
  "update_domain_list env crate globs r host target st =
     (case anyhow_context (lit ''invalid network host'') (host_parse host) of
        Inl e \<Rightarrow> Some (st, Inl e)
      | Inr h \<Rightarrow>
          (case reload_if_needed r st of
             Inl e \<Rightarrow> Some (st, Inl e)
           | Inr st1 \<Rightarrow> commit_prepared (prepare_domain_update env crate globs h target st1) st1))"

definition add_allowed_domain ::
  "proxy_env \<Rightarrow> 'g glob_crate \<Rightarrow> 'g hook_globs \<Rightarrow> 'g reload \<Rightarrow> str \<Rightarrow> 'g ConfigState \<Rightarrow> ('g ConfigState \<times> (anyhow + unit)) option" where
  "add_allowed_domain env crate globs r host st = update_domain_list env crate globs r host AllowList st"

definition add_denied_domain ::
  "proxy_env \<Rightarrow> 'g glob_crate \<Rightarrow> 'g hook_globs \<Rightarrow> 'g reload \<Rightarrow> str \<Rightarrow> 'g ConfigState \<Rightarrow> ('g ConfigState \<times> (anyhow + unit)) option" where
  "add_denied_domain env crate globs r host st = update_domain_list env crate globs r host DenyList st"

section \<open>The policy of a request\<close>

datatype NetworkDecisionSource = BaselinePolicy | ModeGuard | ProxyState | Decider

datatype NetworkPolicyDecision = DecideDeny | DecideAsk

datatype NetworkDecision = NetAllow | NetDeny str NetworkDecisionSource NetworkPolicyDecision

definition deny_with_source :: "str \<Rightarrow> NetworkDecisionSource \<Rightarrow> NetworkDecision" where
  "deny_with_source reason source =
     NetDeny (if reason = [] then lit ''policy_denied'' else reason) source DecideDeny"

definition ask_with_source :: "str \<Rightarrow> NetworkDecisionSource \<Rightarrow> NetworkDecision" where
  "ask_with_source reason source =
     NetDeny (if reason = [] then lit ''policy_denied'' else reason) source DecideAsk"

fun map_decider_decision :: "NetworkDecision \<Rightarrow> NetworkDecision" where
  "map_decider_decision NetAllow = NetAllow"
| "map_decider_decision (NetDeny reason _ decision) = NetDeny reason Decider decision"

definition evaluate_host_policy ::
  "'g glob_crate \<Rightarrow> lookup \<Rightarrow> 'g reload \<Rightarrow> NetworkDecision option \<Rightarrow> str \<Rightarrow> nat \<Rightarrow> 'g ConfigState
   \<Rightarrow> anyhow + 'g ConfigState \<times> NetworkDecision" where
  "evaluate_host_policy crate lookup_host r decider host port st =
     bind_result (host_blocked crate lookup_host r host port st) (\<lambda>(st1, d).
       Inr (st1,
         case d of
           HostAllowed \<Rightarrow> NetAllow
         | HostBlocked HostNotAllowed \<Rightarrow>
             (case decider of
                Some answer \<Rightarrow> map_decider_decision answer
              | None \<Rightarrow> deny_with_source (reason_as_str HostNotAllowed) BaselinePolicy)
         | HostBlocked reason \<Rightarrow> deny_with_source (reason_as_str reason) BaselinePolicy))"

text \<open>A connection to an address, after the name has been resolved again; with an upstream proxy the target is not checked.\<close>

definition target_checked_connect :: "bool \<Rightarrow> bool \<Rightarrow> IpAddr \<Rightarrow> bool" where
  "target_checked_connect via_upstream_proxy allow_local_binding ip \<longleftrightarrow>
     via_upstream_proxy \<or> \<not> (\<not> allow_local_binding \<and> is_non_public_ip ip)"

section \<open>Requests inside an intercepted connection\<close>

datatype MitmPolicyDecision = MitmAllow "MitmHookActions option" | MitmBlock nat str

record MitmPolicyContext =
  mp_target_host :: str
  mp_target_port :: nat
  mp_mode :: NetworkMode

definition mitm_blocked_request :: "MitmPolicyContext \<Rightarrow> str option \<Rightarrow> str \<Rightarrow> str \<Rightarrow> int \<Rightarrow> BlockedRequest" where
  "mitm_blocked_request policy client method reason now =
     \<lparr>br_host = mp_target_host policy, br_reason = reason, br_client = client, br_method = Some method,
      br_mode = Some (mp_mode policy), br_protocol = lit ''https'', br_decision = None, br_source = None,
      br_port = Some (mp_target_port policy), br_timestamp = now\<rparr>"

text \<open>A call on the state that is made to record only: its error is ignored, the state is then unchanged.\<close>

definition try_record :: "'g reload \<Rightarrow> BlockedRequest \<Rightarrow> 'g ConfigState \<Rightarrow> 'g ConfigState" where
  "try_record r entry st = (case record_blocked r entry st of Inr st1 \<Rightarrow> st1 | Inl _ \<Rightarrow> st)"

definition evaluate_mitm_policy ::
  "'g glob_crate \<Rightarrow> 'g hook_globs \<Rightarrow> lookup \<Rightarrow> 'g reload \<Rightarrow> 'g reload \<Rightarrow> 'g reload \<Rightarrow> int \<Rightarrow> MitmPolicyContext \<Rightarrow> str option
   \<Rightarrow> str option \<Rightarrow> proxy_request \<Rightarrow> 'g ConfigState \<Rightarrow> 'g ConfigState \<times> (anyhow + MitmPolicyDecision)" where
  "evaluate_mitm_policy crate globs lookup_host r1 r2 r3 now policy client request_host req st =
     (let blocked = (\<lambda>reason. mitm_blocked_request policy client (rq_method req) reason now)
      in if rq_method req = lit ''CONNECT'' then (st, Inr (MitmBlock 405 (lit ''CONNECT not supported inside MITM'')))
         else if (case request_host of
                    Some h \<Rightarrow> normalize_host h \<noteq> [] \<and> normalize_host h \<noteq> mp_target_host policy
                  | None \<Rightarrow> False) then (st, Inr (MitmBlock 400 (lit ''host mismatch'')))
         else case host_blocked crate lookup_host r1 (mp_target_host policy) (mp_target_port policy) st of
           Inl e \<Rightarrow> (st, Inl e)
         | Inr (st1, d) \<Rightarrow>
             if d = HostBlocked HostNotAllowedLocal then
               (try_record r2 (blocked (reason_as_str HostNotAllowedLocal)) st1,
                Inr (MitmBlock 403 (reason_as_str HostNotAllowedLocal)))
             else case reload_if_needed r2 st1 of
               Inl e \<Rightarrow> (st1, Inl e)
             | Inr st2 \<Rightarrow>
                 (case evaluate_mitm_hooks globs (cs_mitm_hooks st2) (mp_target_host policy) req of
                    HookedHostNoMatch \<Rightarrow>
                      (try_record r3 (blocked (lit ''mitm_hook_denied'')) st2, Inr (MitmBlock 403 (lit ''mitm_hook_denied'')))
                  | evaluation \<Rightarrow>
                      if \<not> allows_method (mp_mode policy) (rq_method req) then
                        (try_record r3 (blocked (lit ''method_not_allowed'')) st2, Inr (MitmBlock 403 (lit ''method_not_allowed'')))
                      else (st2, Inr (MitmAllow (case evaluation of Matched actions \<Rightarrow> Some actions | _ \<Rightarrow> None)))))"

definition apply_mitm_hook_actions :: "MitmHookActions option \<Rightarrow> (str \<times> str) list \<Rightarrow> (str \<times> str) list" where
  "apply_mitm_hook_actions actions headers =
     (case actions of
        None \<Rightarrow> headers
      | Some a \<Rightarrow>
          foldl (\<lambda>hs i. filter (\<lambda>(n, _). n \<noteq> rh_name i) hs @ [(rh_name i, rh_value i)])
            (foldl (\<lambda>hs n. filter (\<lambda>(m, _). m \<noteq> n) hs) headers (strip_request_headers a))
            (inject_request_headers a))"

end
