(* ===== verification/Network_Matching.thy ===== *)
theory Network_Matching
  imports Network_Runtime
begin

text \<open>
  What a compiled set of domain patterns matches. \<open>pattern_matches\<close> is the meaning of one pattern, without the sets and
  the removal of duplicates of the compiler; \<open>globset_documented\<close> states the documented behaviour of the glob crate on host names,
  and \<open>url_keeps_names\<close> that of the URL crate. \<open>wild_crate\<close> is a small matcher that behaves as documented.
\<close>

section \<open>Meaning of a pattern\<close>

definition candidate_matches :: "'g glob_crate \<Rightarrow> str \<Rightarrow> str \<Rightarrow> bool" where
  "candidate_matches crate c host = (case glob_build crate c of Inr g \<Rightarrow> glob_is_match crate g host | Inl _ \<Rightarrow> False)"

definition pattern_matches :: "'g glob_crate \<Rightarrow> str \<Rightarrow> str \<Rightarrow> bool" where
  "pattern_matches crate p host = list_ex (\<lambda>c. candidate_matches crate c host) (expand_domain_pattern (normalize_pattern p))"

definition pattern_covers :: "'g glob_crate \<Rightarrow> str \<Rightarrow> str \<Rightarrow> bool" where
  "pattern_covers crate p host \<longleftrightarrow>
     pattern_matches crate p host
     \<or> (case unscoped_ip_literal host of Some ip \<Rightarrow> pattern_matches crate p ip | None \<Rightarrow> False)"

lemma compile_candidates_sem:
  assumes "compile_candidates crate cs seen globs = Inr (seen', globs')"
    and "globset_is_match crate globs host \<longleftrightarrow> (\<exists>c \<in> seen. candidate_matches crate c host)"
  shows "seen' = seen \<union> set cs \<and> (globset_is_match crate globs' host \<longleftrightarrow> (\<exists>c \<in> seen'. candidate_matches crate c host))"
  using assms
proof (induction crate cs seen globs rule: compile_candidates.induct)
  case (2 crate c cs seen globs)
  show ?case
  proof (cases "c \<in> seen")
    case True
    with 2 show ?thesis by auto
  next
    case False
    with "2.prems"(1) obtain g where g: "glob_build crate c = Inr g"
      and rest: "compile_candidates crate cs (insert c seen) (globs @ [g]) = Inr (seen', globs')"
      by (auto split: sum.splits)
    have "globset_is_match crate (globs @ [g]) host \<longleftrightarrow> (\<exists>c \<in> insert c seen. candidate_matches crate c host)"
      using "2.prems"(2) g by (auto simp: globset_is_match_def candidate_matches_def)
    from "2.IH"(2) [OF False g rest this] show ?thesis by auto
  qed
qed auto

lemma compile_patterns_sem:
  assumes "compile_patterns crate gw ps seen globs = Inr globs'"
    and "globset_is_match crate globs host \<longleftrightarrow> (\<exists>c \<in> seen. candidate_matches crate c host)"
  shows "globset_is_match crate globs' host
    \<longleftrightarrow> globset_is_match crate globs host \<or> (\<exists>p \<in> set ps. pattern_matches crate p host)"
  using assms
proof (induction crate gw ps seen globs rule: compile_patterns.induct)
  case (2 crate gw p ps seen globs)
  from "2.prems"(1) obtain seen1 globs1
    where here: "compile_candidates crate (expand_domain_pattern (normalize_pattern p)) seen globs = Inr (seen1, globs1)"
      and rest: "compile_patterns crate gw ps seen1 globs1 = Inr globs'"
      and ok: "\<not> (gw = RejectWildcard \<and> is_global_wildcard_domain_pattern p)"
    by (auto split: sum.splits if_splits)
  from compile_candidates_sem [OF here "2.prems"(2)]
  have sem: "globset_is_match crate globs1 host \<longleftrightarrow> (\<exists>c \<in> seen1. candidate_matches crate c host)"
    and seen1: "seen1 = seen \<union> set (expand_domain_pattern (normalize_pattern p))" by auto
  from sem seen1 "2.prems"(2)
  have "globset_is_match crate globs1 host \<longleftrightarrow> globset_is_match crate globs host \<or> pattern_matches crate p host"
    by (auto simp: pattern_matches_def list_ex_iff)
  with "2.IH" [OF ok here _ rest sem] show ?case by auto
qed simp

lemma compile_globset_sem:
  assumes "compile_globset_with_policy crate ps gw = Inr gs"
  shows "globset_is_match crate gs host \<longleftrightarrow> (\<exists>p \<in> set ps. pattern_matches crate p host)"
proof -
  from assms have "compile_patterns crate gw ps {} [] = Inr gs"
    by (auto simp: compile_globset_with_policy_def split: sum.splits option.splits)
  from compile_patterns_sem [OF this, of host] show ?thesis by (simp add: globset_is_match_def)
qed

text \<open>A state whose sets are the ones compiled from its configuration.\<close>

definition compiled :: "'g glob_crate \<Rightarrow> 'g ConfigState \<Rightarrow> bool" where
  "compiled crate st \<longleftrightarrow>
     compile_denylist_globset crate (or_empty (denied_domains (cs_config st))) = Inr (cs_deny_set st)
     \<and> compile_allowlist_globset crate (or_empty (allowed_domains (cs_config st))) = Inr (cs_allow_set st)"

lemma compiled_sets:
  assumes "compiled crate st"
  shows deny_set_sem: "globset_matches_host_or_unscoped crate (cs_deny_set st) host
      \<longleftrightarrow> (\<exists>p \<in> set (or_empty (denied_domains (cs_config st))). pattern_covers crate p host)"
    and allow_set_sem: "globset_matches_host_or_unscoped crate (cs_allow_set st) host
      \<longleftrightarrow> (\<exists>p \<in> set (or_empty (allowed_domains (cs_config st))). pattern_covers crate p host)"
proof -
  have d: "compile_globset_with_policy crate (or_empty (denied_domains (cs_config st))) RejectWildcard = Inr (cs_deny_set st)"
    and a: "compile_globset_with_policy crate (or_empty (allowed_domains (cs_config st))) AllowWildcard = Inr (cs_allow_set st)"
    using assms by (simp_all only: compiled_def compile_denylist_globset_def compile_allowlist_globset_def)
  show "globset_matches_host_or_unscoped crate (cs_deny_set st) host
      \<longleftrightarrow> (\<exists>p \<in> set (or_empty (denied_domains (cs_config st))). pattern_covers crate p host)"
    unfolding globset_matches_host_or_unscoped_def pattern_covers_def compile_globset_sem [OF d]
    by (cases "unscoped_ip_literal host") auto
  show "globset_matches_host_or_unscoped crate (cs_allow_set st) host
      \<longleftrightarrow> (\<exists>p \<in> set (or_empty (allowed_domains (cs_config st))). pattern_covers crate p host)"
    unfolding globset_matches_host_or_unscoped_def pattern_covers_def compile_globset_sem [OF a]
    by (cases "unscoped_ip_literal host") auto
qed

section \<open>Names, and the crates on names\<close>

definition name_char :: "nat \<Rightarrow> bool" where
  "name_char c \<longleftrightarrow> 48 \<le> c \<and> c \<le> 57 \<or> 65 \<le> c \<and> c \<le> 90 \<or> 97 \<le> c \<and> c \<le> 122 \<or> c = 45 \<or> c = 46"

definition last_label :: "str \<Rightarrow> str" where
  "last_label s = (case rsplit_once 46 s of Some (_, l) \<Rightarrow> l | None \<Rightarrow> s)"

definition ascii_letter :: "nat \<Rightarrow> bool" where
  "ascii_letter c \<longleftrightarrow> 65 \<le> c \<and> c \<le> 90 \<or> 97 \<le> c \<and> c \<le> 122"

text \<open>A host name of letters, digits, hyphens and dots whose last label starts with a letter, so that it is not read as an
  address, and which has no label in Punycode.\<close>

definition host_name :: "str \<Rightarrow> bool" where
  "host_name s \<longleftrightarrow>
     list_all name_char s \<and> last_label s \<noteq> [] \<and> ascii_letter (hd (last_label s))
     \<and> \<not> contains_str (lit ''xn--'') (to_ascii_lowercase s)"

definition same_text :: "str \<Rightarrow> str \<Rightarrow> bool" where
  "same_text s t \<longleftrightarrow> to_ascii_lowercase s = to_ascii_lowercase t"

text \<open>The syntax of globs, on the patterns that policies use: a name stands for itself ignoring case; \<open>?*.\<close> before a name for
  one or more characters, a dot and the name; and a pattern that ends in a name matches only texts that end in it.\<close>

definition globset_documented :: "'g glob_crate \<Rightarrow> bool" where
  "globset_documented crate \<longleftrightarrow>
     (\<forall>s t. list_all name_char s \<longrightarrow> (candidate_matches crate s t \<longleftrightarrow> same_text t s))
     \<and> (\<forall>s t. list_all name_char s \<longrightarrow>
          (candidate_matches crate (lit ''?*.'' @ s) t \<longleftrightarrow> (\<exists>u. u \<noteq> [] \<and> same_text t (u @ 46 # s))))
     \<and> (\<forall>q s t. list_all name_char s \<longrightarrow> candidate_matches crate (q @ s) t \<longrightarrow> (\<exists>u. same_text t (u @ s)))"

definition url_keeps_names :: "url_host \<Rightarrow> bool" where
  "url_keeps_names url \<longleftrightarrow> (\<forall>s. host_name s \<longrightarrow> url s = Some (to_ascii_lowercase s))"

section \<open>A matcher that behaves as documented\<close>

fun wild :: "str \<Rightarrow> str \<Rightarrow> bool" where
  "wild [] t = (t = [])"
| "wild (c # p) [] = (c = 42 \<and> wild p [])"
| "wild (c # p) (d # t) =
     (if c = 42 then wild p (d # t) \<or> wild (c # p) t
      else if c = 63 then wild p t
      else ascii_lower c = ascii_lower d \<and> wild p t)"

definition wild_crate :: "str glob_crate" where
  "wild_crate =
     \<lparr>glob_build = (\<lambda>p. if list_ex (\<lambda>c. c \<in> {91, 92, 93, 123, 125}) p then Inl (lit ''unsupported syntax'') else Inr p),
      glob_is_match = wild, globset_error = (\<lambda>_. None)\<rparr>"

lemma wild_append: "wild (p @ s) t \<longleftrightarrow> (\<exists>t1 t2. t = t1 @ t2 \<and> wild p t1 \<and> wild s t2)"
proof (induction p t rule: wild.induct)
  case (2 c p)
  then show ?case by auto
next
  case (3 c p d t)
  have split: "(\<exists>t1 t2. d # t = t1 @ t2 \<and> Q t1 t2) \<longleftrightarrow> Q [] (d # t) \<or> (\<exists>t1 t2. t = t1 @ t2 \<and> Q (d # t1) t2)" for Q
    by (auto simp: Cons_eq_append_conv)
  show ?case
  proof (cases "c = 42")
    case True
    with 3 show ?thesis by (auto simp: split)
  next
    case False
    with 3 show ?thesis by (auto simp: split)
  qed
qed auto

lemma name_char_not_special: "name_char c \<Longrightarrow> c \<noteq> 42 \<and> c \<noteq> 63 \<and> c \<notin> {91, 92, 93, 123, 125} \<and> c \<noteq> 37 \<and> c \<noteq> 58"
  by (auto simp: name_char_def)

lemma wild_name: "list_all name_char s \<Longrightarrow> wild s t \<longleftrightarrow> same_text t s"
proof (induction s t rule: wild.induct)
  case (3 c p d t)
  then show ?case using name_char_not_special [of c] by (auto simp: same_text_def to_ascii_lowercase_def)
qed (auto simp: same_text_def to_ascii_lowercase_def name_char_def)

lemma wild_star: "wild [42] t"
  by (induction t) auto

lemma wild_crate_candidate:
  "candidate_matches wild_crate c t \<longleftrightarrow> \<not> list_ex (\<lambda>c. c \<in> {91, 92, 93, 123, 125}) c \<and> wild c t"
  by (simp add: candidate_matches_def wild_crate_def)

lemma same_text_append: "same_text t (u @ s) \<longleftrightarrow> (\<exists>t1 t2. t = t1 @ t2 \<and> same_text t1 u \<and> same_text t2 s)"
  unfolding same_text_def to_ascii_lowercase_def map_append map_eq_append_conv by metis

lemma same_text_refl [simp, intro]: "same_text t t"
  by (simp add: same_text_def)

lemma same_text_Nil: "same_text t u \<Longrightarrow> t = [] \<longleftrightarrow> u = []"
  unfolding same_text_def by (metis to_ascii_lowercase_Nil_iff)

lemma wild_crate_documented: "globset_documented wild_crate"
  unfolding globset_documented_def
proof (intro conjI allI impI)
  fix s t :: str
  assume s: "list_all name_char s"
  then have plain: "\<not> list_ex (\<lambda>c. c \<in> {91, 92, 93, 123, 125}) s"
    using name_char_not_special by (fastforce simp: list_all_iff list_ex_iff)
  with s show "candidate_matches wild_crate s t \<longleftrightarrow> same_text t s"
    by (simp add: wild_crate_candidate wild_name)
  have dot: "wild (46 # s) t2 \<longleftrightarrow> same_text t2 (46 # s)" for t2
    using s by (intro wild_name) (simp add: name_char_def)
  have any: "wild [63, 42] t1 \<longleftrightarrow> t1 \<noteq> []" for t1
    using wild_star by (cases t1) auto
  have "wild ([63, 42] @ 46 # s) t \<longleftrightarrow> (\<exists>u. u \<noteq> [] \<and> same_text t (u @ 46 # s))"
    unfolding wild_append any dot same_text_append using same_text_Nil by blast
  with plain show "candidate_matches wild_crate (lit ''?*.'' @ s) t \<longleftrightarrow> (\<exists>u. u \<noteq> [] \<and> same_text t (u @ 46 # s))"
    by (simp add: wild_crate_candidate lit_def)
next
  fix q s t :: str
  assume s: "list_all name_char s" and "candidate_matches wild_crate (q @ s) t"
  then have "wild (q @ s) t" by (simp add: wild_crate_candidate)
  then obtain t1 t2 where "t = t1 @ t2" "same_text t2 s" unfolding wild_append wild_name [OF s] by blast
  then have "same_text t (t1 @ s)" unfolding same_text_append by auto
  then show "\<exists>u. same_text t (u @ s)" ..
qed

end
