(* ===== verification/Network_Managed.thy ===== *)
theory Network_Managed
  imports Network_Matching
begin

text \<open>
  Domain patterns as the constraints read them (\<open>parse_for_constraints\<close>) and as the compiler reads them (\<open>normalize_pattern\<close>,
  \<open>domain_pattern_parse\<close>): on entries without colons, brackets and percent signs the two agree up to case, so that an entry
  which a managed pattern allows matches only hosts that the managed pattern matches.
\<close>

section \<open>Case and dots\<close>

lemma ascii_lower_eq_iff [simp]: "c < 65 \<or> 90 < c \<and> c < 97 \<or> 122 < c \<Longrightarrow> ascii_lower x = c \<longleftrightarrow> x = c"
  by (auto simp: ascii_lower_def)

lemma lower_append [simp]: "to_ascii_lowercase (s @ t) = to_ascii_lowercase s @ to_ascii_lowercase t"
  by (simp add: to_ascii_lowercase_def)

lemma lower_Nil [simp]: "to_ascii_lowercase [] = []"
  by (simp add: to_ascii_lowercase_def)

lemma lower_Cons [simp]: "to_ascii_lowercase (c # t) = ascii_lower c # to_ascii_lowercase t"
  by (simp add: to_ascii_lowercase_def)

lemma in_set_lower: "c < 65 \<or> 90 < c \<and> c < 97 \<or> 122 < c \<Longrightarrow> c \<in> set (to_ascii_lowercase s) \<longleftrightarrow> c \<in> set s"
  unfolding to_ascii_lowercase_def set_map using ascii_lower_eq_iff [of c] by (metis (no_types, lifting) image_iff)

lemma trim_end_matches_lower: "trim_end_matches 46 (to_ascii_lowercase s) = to_ascii_lowercase (trim_end_matches 46 s)"
  by (simp add: trim_end_matches_def to_ascii_lowercase_def rev_map dropWhile_map o_def)

lemma trim_end_matches_idem [simp]: "trim_end_matches c (trim_end_matches c s) = trim_end_matches c s"
  by (simp add: trim_end_matches_def)

lemma trim_end_matches_prefix: "\<exists>t. s = trim_end_matches c s @ t"
proof
  show "s = trim_end_matches c s @ rev (takeWhile (\<lambda>x. x = c) (rev s))"
    unfolding trim_end_matches_def by (metis rev_append rev_rev_ident takeWhile_dropWhile_id)
qed

lemma trim_end_matches_id: "s = [] \<or> last s \<noteq> c \<Longrightarrow> trim_end_matches c s = s"
  by (cases s rule: rev_cases) (auto simp: trim_end_matches_def)

lemma is_whitespace_lower [simp]: "is_whitespace (ascii_lower c) \<longleftrightarrow> is_whitespace c"
  by (auto simp: ascii_lower_def is_whitespace_def)

lemma hd_trim: "trim s \<noteq> [] \<Longrightarrow> \<not> is_whitespace (hd (trim s))"
  unfolding trim_alt trim_start_def by (metis hd_dropWhile)

lemma same_text_lower [simp]:
  "same_text (to_ascii_lowercase s) t \<longleftrightarrow> same_text s t" "same_text s (to_ascii_lowercase t) \<longleftrightarrow> same_text s t"
  by (simp_all add: same_text_def)

section \<open>Hosts without ports, brackets and scopes\<close>

definition simple_text :: "str \<Rightarrow> bool" where
  "simple_text s \<longleftrightarrow> 58 \<notin> set s \<and> 91 \<notin> set s \<and> 37 \<notin> set s"

lemma split_once_str_absent: "c \<notin> set s \<Longrightarrow> split_once_str (c # p) s = None"
  by (induction s) auto

lemma normalize_ip_literal_simple: "37 \<notin> set h \<Longrightarrow> normalize_ip_literal h = None \<or> normalize_ip_literal h = Some h"
  by (auto simp: normalize_ip_literal_def scoped_ip_literal_def lit_def split_once_str_absent)

lemma normalize_host_simple:
  assumes "simple_text s"
  shows "normalize_host s = to_ascii_lowercase (trim_end_matches 46 (trim s))"
proof -
  let ?h = "trim s"
  have sub: "set ?h \<subseteq> set s" by (rule set_trim)
  have no: "58 \<notin> set ?h" "91 \<notin> set ?h" "37 \<notin> set ?h" using assms sub by (auto simp: simple_text_def)
  have bracket: "\<not> (?h \<noteq> [] \<and> hd ?h = 91 \<and> 93 \<in> set ?h)" using no(2) hd_in_set by force
  have "filter (\<lambda>c. c = 58) ?h = []" using no(1) by (auto simp: filter_empty_conv)
  then have colons: "length (filter (\<lambda>c. c = 58) ?h) \<noteq> 1" by simp
  have "37 \<notin> set (trim_end_matches 46 (to_ascii_lowercase ?h))"
    using no(3) set_trim_end_matches by (fastforce simp: in_set_lower trim_end_matches_lower)
  from normalize_ip_literal_simple [OF this]
  have "normalize_dns_host_or_ip_literal ?h = to_ascii_lowercase (trim_end_matches 46 ?h)"
    by (auto simp: normalize_dns_host_or_ip_literal_def Let_def trim_end_matches_lower)
  moreover have "normalize_host s = normalize_dns_host_or_ip_literal ?h"
    by (simp only: normalize_host_def Let_def bracket colons if_False)
  ultimately show ?thesis by simp
qed

section \<open>Kinds of patterns\<close>

definition pattern_kind :: "str \<Rightarrow> (str \<Rightarrow> DomainPattern) \<times> str" where
  "pattern_kind e =
     (let p = trim e
      in case strip_prefix (lit ''**.'') p of
           Some d \<Rightarrow> (ApexAndSubdomains, d)
         | None \<Rightarrow> (case strip_prefix (lit ''*.'') p of Some d \<Rightarrow> (SubdomainsOnly, d) | None \<Rightarrow> (Exact, p)))"

lemma parse_for_constraints_kind:
  "parse_for_constraints url e = (case pattern_kind e of (build, r) \<Rightarrow> build (parse_domain_for_constraints url r))"
proof -
  have empty: "parse_domain_for_constraints url [] = []"
    by (simp add: parse_domain_for_constraints_def trim_def trim_end_matches_def)
  show ?thesis
  proof (cases "trim e = []")
    case True
    then have "pattern_kind e = (Exact, [])" by (simp add: pattern_kind_def lit_def)
    with True empty show ?thesis by (simp add: parse_for_constraints_def)
  next
    case False
    then show ?thesis by (simp add: parse_for_constraints_def pattern_kind_def Let_def split: option.splits)
  qed
qed

lemma pattern_kind_simple: "pattern_kind e = (build, r) \<Longrightarrow> simple_text e \<Longrightarrow> simple_text r"
  using set_trim [of e]
  by (auto simp: pattern_kind_def simple_text_def strip_prefix_Some_iff Let_def split: option.splits)

lemma normalize_pattern_kind:
  assumes "pattern_kind e = (build, r)" and "trim e \<noteq> lit ''*''"
  shows "normalize_pattern e = (case build [] of Exact _ \<Rightarrow> [] | SubdomainsOnly _ \<Rightarrow> lit ''*.'' | ApexAndSubdomains _ \<Rightarrow> lit ''**.'')
    @ normalize_host r"
  using assms by (auto simp: pattern_kind_def normalize_pattern_def Let_def split: option.splits)

lemma trimmed_text:
  assumes "n = to_ascii_lowercase (trim_end_matches 46 (trim r))" and "n \<noteq> []" and "\<not> is_whitespace (last n)"
  shows "trim n = n"
proof (rule trim_id [OF assms(2)])
  define s where "s = trim r"
  define d where "d = trim_end_matches 46 s"
  have "\<exists>t. s = d @ t" unfolding d_def by (rule trim_end_matches_prefix)
  then obtain t where t: "s = d @ t" ..
  have ne: "d \<noteq> []" using assms(1,2) by (auto simp: d_def s_def)
  then have "\<not> is_whitespace (hd s)" using hd_trim [of r] t by (simp add: s_def [symmetric])
  then have "\<not> is_whitespace (hd d)" using ne t by simp
  then show "\<not> is_whitespace (hd n)" using assms(1) ne by (simp add: to_ascii_lowercase_def hd_map d_def s_def)
qed (rule assms(3))

lemma no_star_prefix:
  assumes "strip_prefix p s = None" and "set p \<subseteq> {42, 46}"
  shows "strip_prefix p (to_ascii_lowercase (trim_end_matches 46 s)) = None"
proof (rule ccontr)
  assume "strip_prefix p (to_ascii_lowercase (trim_end_matches 46 s)) \<noteq> None"
  then obtain u where u: "map ascii_lower (trim_end_matches 46 s) = p @ u"
    by (auto simp: strip_prefix_Some_iff to_ascii_lowercase_def)
  then obtain a b where ab: "trim_end_matches 46 s = a @ b" "p = map ascii_lower a"
    by (auto simp: map_eq_append_conv)
  have "ascii_lower x = x" if "x \<in> set a" for x
  proof -
    have "ascii_lower x = 42 \<or> ascii_lower x = 46" using that ab(2) assms(2) by auto
    then show ?thesis by (auto simp: ascii_lower_def split: if_splits)
  qed
  then have "a = p" using ab(2) by (simp add: map_idI)
  moreover from trim_end_matches_prefix [of s 46] have "\<exists>t. s = (a @ b) @ t" unfolding ab(1) .
  ultimately obtain t where "s = p @ b @ t" by auto
  with assms(1) show False by simp
qed

lemma compiled_kind:
  assumes kind: "pattern_kind e = (build, r)" and simple: "simple_text e"
    and n: "n = normalize_host r" "n \<noteq> []" "\<not> is_whitespace (last n)" and star: "trim e \<noteq> lit ''*''"
  shows "domain_pattern_parse (normalize_pattern e) = build n"
proof -
  have n_eq: "n = to_ascii_lowercase (trim_end_matches 46 (trim r))"
    using normalize_host_simple [OF pattern_kind_simple [OF kind simple]] n(1) by simp
  have trim_n: "trim n = n" by (rule trimmed_text [OF n_eq n(2,3)])
  have trim_pre: "trim (p # q @ n) = p # q @ n" if "p = 42" for p q
    using that n(2,3) by (intro trim_id) (simp_all add: is_whitespace_def)
  note norm = normalize_pattern_kind [OF kind star, folded n(1)]
  consider "build = ApexAndSubdomains" | "build = SubdomainsOnly"
    | "build = Exact" "r = trim e" "strip_prefix (lit ''**.'') (trim e) = None" "strip_prefix (lit ''*.'') (trim e) = None"
    using kind by (auto simp: pattern_kind_def Let_def split: option.splits)
  then show ?thesis
  proof cases
    case 1
    with norm trim_pre [of 42 "[42, 46]"] trim_n n(2) show ?thesis
      by (simp add: domain_pattern_parse_def parse_domain_def lit_def)
  next
    case 2
    with norm trim_pre [of 42 "[46]"] trim_n n(2) show ?thesis
      by (simp add: domain_pattern_parse_def parse_domain_def lit_def)
  next
    case 3
    then have "strip_prefix (lit ''**.'') n = None" "strip_prefix (lit ''*.'') n = None"
      using no_star_prefix unfolding n_eq by (simp_all add: lit_def)
    with 3 norm trim_n n(2) show ?thesis by (simp add: domain_pattern_parse_def)
  qed
qed

section \<open>Entries and managed patterns\<close>

definition pattern_domain :: "str \<Rightarrow> str" where
  "pattern_domain e = trim_end_matches 46 (trim (snd (pattern_kind e)))"

text \<open>An entry of the allowlist whose domain is a host name or has a wildcard, and a managed pattern on a host name.\<close>

definition plain_entry :: "str \<Rightarrow> bool" where
  "plain_entry e \<longleftrightarrow> simple_text e \<and> (host_name (pattern_domain e) \<or> 42 \<in> set (pattern_domain e) \<or> 63 \<in> set (pattern_domain e))"

definition plain_managed :: "str \<Rightarrow> bool" where
  "plain_managed m \<longleftrightarrow> simple_text m \<and> host_name (pattern_domain m)"

lemma host_name_nonempty: "host_name s \<Longrightarrow> s \<noteq> []"
  by (auto simp: host_name_def last_label_def rsplit_once_def)

lemma constraint_domain:
  assumes "url_keeps_names url" and "plain_entry e"
  shows "normalize_domain (parse_domain_for_constraints url (snd (pattern_kind e))) = to_ascii_lowercase (pattern_domain e)"
proof -
  obtain build r where kind: "pattern_kind e = (build, r)" by (cases "pattern_kind e")
  define d where "d = trim_end_matches 46 (trim r)"
  have d: "pattern_domain e = d" by (simp add: pattern_domain_def kind d_def)
  have "simple_text r" using pattern_kind_simple [OF kind] assms(2) by (simp add: plain_entry_def)
  then have simple: "91 \<notin> set d" "37 \<notin> set d"
    using set_trim_end_matches [of 46 "trim r"] set_trim [of r] by (auto simp: d_def simple_text_def)
  have ne: "d \<noteq> []" using assms(2) host_name_nonempty by (auto simp: plain_entry_def d)
  then have no_bracket: "hd d \<noteq> 91" using simple(1) hd_in_set by force
  have idem: "trim_end_matches 46 d = d" by (simp add: d_def)
  have "parse_domain_for_constraints url r = d \<or> parse_domain_for_constraints url r = to_ascii_lowercase d"
    using assms ne no_bracket simple
    by (auto simp: parse_domain_for_constraints_def Let_def d_def [symmetric] plain_entry_def d url_keeps_names_def)
  then show ?thesis
    by (elim disjE) (simp_all add: kind d normalize_domain_def trim_end_matches_lower idem)
qed

lemma same_kind:
  assumes "plain_entry e" and "pattern_kind e = (build, r)" and "\<not> is_whitespace (last (pattern_domain e))"
    and "trim e \<noteq> lit ''*''"
  shows "domain_pattern_parse (normalize_pattern e) = build (to_ascii_lowercase (pattern_domain e))"
proof -
  have simple: "simple_text e" using assms(1) by (simp add: plain_entry_def)
  have n: "normalize_host r = to_ascii_lowercase (pattern_domain e)"
    using normalize_host_simple [OF pattern_kind_simple [OF assms(2) simple]] by (simp add: pattern_domain_def assms(2))
  have ne: "pattern_domain e \<noteq> []" using assms(1) host_name_nonempty by (auto simp: plain_entry_def)
  show ?thesis
    using assms(3) ne
    by (intro compiled_kind [OF assms(2) simple n [symmetric] _ _ assms(4)]) (simp_all add: to_ascii_lowercase_def last_map)
qed

section \<open>An allowed entry matches inside the managed pattern\<close>

definition below :: "str \<Rightarrow> str \<Rightarrow> bool" where
  "below domain host \<longleftrightarrow> (\<exists>u. u \<noteq> [] \<and> same_text host (u @ 46 # domain))"

lemma documented_name:
  "globset_documented crate \<Longrightarrow> list_all name_char d \<Longrightarrow> candidate_matches crate d h \<longleftrightarrow> same_text h d"
  by (simp add: globset_documented_def)

lemma documented_below:
  "globset_documented crate \<Longrightarrow> list_all name_char d \<Longrightarrow> candidate_matches crate (lit ''?*.'' @ d) h \<longleftrightarrow> below d h"
  by (simp add: globset_documented_def below_def)

lemma documented_suffix:
  assumes "globset_documented crate" and "list_all name_char d" and "suffix (46 # d) c" and "candidate_matches crate c h"
    and "h = [] \<or> hd h \<noteq> 46"
  shows "below d h"
proof -
  obtain q where "c = q @ 46 # d" using assms(3) by (auto simp: suffix_def)
  moreover have "list_all name_char (46 # d)" using assms(2) by (simp add: name_char_def)
  ultimately obtain u where u: "same_text h (u @ 46 # d)"
    using assms(1,4) unfolding globset_documented_def by metis
  have "u \<noteq> []"
  proof
    assume "u = []"
    with u have "to_ascii_lowercase h = 46 # to_ascii_lowercase d" by (simp add: same_text_def)
    with assms(5) show False by (cases h) (auto simp: ascii_lower_def split: if_splits)
  qed
  with u show ?thesis by (auto simp: below_def)
qed

lemma subdomain_candidate_below:
  assumes "globset_documented crate" and "list_all name_char d" and "n = d \<or> suffix (46 # d) n"
    and "candidate_matches crate (lit ''?*.'' @ n) h" and "h = [] \<or> hd h \<noteq> 46"
  shows "below d h"
proof -
  have "suffix (46 # d) (lit ''?*.'' @ n)" using assms(3) by (auto simp: lit_def suffix_def)
  with documented_suffix assms show ?thesis by blast
qed

lemma pattern_kind_cases:
  "pattern_kind e = (build, r) \<Longrightarrow> build = Exact \<or> build = SubdomainsOnly \<or> build = ApexAndSubdomains"
  by (auto simp: pattern_kind_def Let_def split: option.splits)

lemma name_char_not_space: "name_char c \<Longrightarrow> \<not> is_whitespace c"
  by (auto simp: name_char_def is_whitespace_def)

lemma host_name_lower: "host_name s \<Longrightarrow> list_all name_char (to_ascii_lowercase s)"
  by (auto simp: host_name_def list_all_iff to_ascii_lowercase_def ascii_lower_def name_char_def)

lemma managed_is_entry: "plain_managed m \<Longrightarrow> plain_entry m"
  by (simp add: plain_managed_def plain_entry_def)

lemma pattern_matches_kind:
  assumes "plain_entry e" and "pattern_kind e = (build, r)"
    and "suffix d (to_ascii_lowercase (pattern_domain e))" and "d \<noteq> []" and "list_all name_char d"
  shows "pattern_matches crate e h
    \<longleftrightarrow> list_ex (\<lambda>c. candidate_matches crate c h) (expand_parsed (build (to_ascii_lowercase (pattern_domain e))))"
proof -
  let ?n = "to_ascii_lowercase (pattern_domain e)"
  have last: "last ?n = last d" using assms(3,4) by (auto simp: suffix_def)
  have "last d \<in> set d" using assms(4) by simp
  then have name: "name_char (last ?n)" using assms(5) last by (auto simp: list_all_iff)
  have ne: "pattern_domain e \<noteq> []" using assms(3,4) by auto
  then have "\<not> is_whitespace (last (pattern_domain e))"
    using name_char_not_space [OF name] by (simp add: to_ascii_lowercase_def last_map)
  moreover have "trim e \<noteq> lit ''*''"
  proof
    assume star: "trim e = lit ''*''"
    then have "pattern_domain e = [42]"
      by (simp add: pattern_domain_def pattern_kind_def lit_def trim_def trim_start_def trim_end_def trim_end_matches_def is_whitespace_def)
    with name show False by (simp add: name_char_def ascii_lower_def)
  qed
  ultimately show ?thesis
    using same_kind [OF assms(1,2)] by (simp add: pattern_matches_def expand_domain_pattern_def)
qed

lemma subdomain_iff:
  "is_subdomain_or_equal c p \<longleftrightarrow> normalize_domain c = normalize_domain p \<or> suffix (46 # normalize_domain p) (normalize_domain c)"
  by (simp add: is_subdomain_or_equal_def Let_def ends_with_iff)

lemma strict_subdomain_iff:
  "is_strict_subdomain c p \<longleftrightarrow> suffix (46 # normalize_domain p) (normalize_domain c)"
  by (auto simp: is_strict_subdomain_def Let_def ends_with_iff suffix_def)

lemma allowed_entry_inside:
  assumes docs: "globset_documented crate" and url: "url_keeps_names url"
    and e: "plain_entry e" and m: "plain_managed m"
    and allowed: "allows (parse_for_constraints url m) (parse_for_constraints url e)"
    and matches: "pattern_matches crate e h" and dot: "h = [] \<or> hd h \<noteq> 46"
  shows "pattern_matches crate m h"
proof -
  define d where "d = to_ascii_lowercase (pattern_domain m)"
  define n where "n = to_ascii_lowercase (pattern_domain e)"
  obtain km rm where km: "pattern_kind m = (km, rm)" by (cases "pattern_kind m")
  obtain ke re where ke: "pattern_kind e = (ke, re)" by (cases "pattern_kind e")
  have names: "list_all name_char d" and ne: "d \<noteq> []"
    using m host_name_lower host_name_nonempty by (auto simp: d_def plain_managed_def)
  have dm: "normalize_domain (parse_domain_for_constraints url rm) = d"
    using constraint_domain [OF url managed_is_entry [OF m]] by (simp add: km d_def)
  have de: "normalize_domain (parse_domain_for_constraints url re) = n"
    using constraint_domain [OF url e] by (simp add: ke n_def)
  have allowed': "allows (km (parse_domain_for_constraints url rm)) (ke (parse_domain_for_constraints url re))"
    using allowed by (simp add: parse_for_constraints_kind km ke)
  note kinds = pattern_kind_cases [OF km] pattern_kind_cases [OF ke]
  note rel = domain_eq_def subdomain_iff strict_subdomain_iff dm de
  have under: "n = d \<or> suffix (46 # d) n" using allowed' kinds by (auto simp: rel)
  then have "suffix d n" by (auto simp: suffix_def)
  then have sem_e: "list_ex (\<lambda>c. candidate_matches crate c h) (expand_parsed (ke n))"
    using pattern_matches_kind [OF e ke _ ne names, of crate h] matches by (metis n_def)
  have sem_m: "pattern_matches crate m h \<longleftrightarrow> list_ex (\<lambda>c. candidate_matches crate c h) (expand_parsed (km d))"
    using pattern_matches_kind [OF managed_is_entry [OF m] km _ ne names, of crate h] by (simp add: d_def)
  have exact: "same_text h d" if "candidate_matches crate n h" "n = d"
    using documented_name [OF docs names] that by simp
  have strict: "below d h" if "candidate_matches crate n h" "suffix (46 # d) n"
    using documented_suffix [OF docs names that(2,1) dot] .
  have sub: "below d h" if "candidate_matches crate (lit ''?*.'' @ n) h"
    using subdomain_candidate_below [OF docs names under that dot] .
  show ?thesis
    using kinds allowed' sem_e exact strict sub under unfolding sem_m
    by (auto simp: rel documented_name [OF docs names] documented_below [OF docs names])
qed

end
