(* ===== verification/Network_Machine.thy ===== *)
theory Network_Machine
  imports Network_Managed Network_Config_Properties
begin

text \<open>
  The proxy as a state machine. A machine state is the state behind the lock and the domain updates that have been prepared and
  not yet committed, so that any other operation may come between the two halves of an update. States come from the loader
  (\<^verbatim>\<open>codex-rs/core/src/network_proxy_loader.rs\<close>), which checks the trusted constraints before it builds a state.
\<close>

section \<open>The loader and the steps\<close>

definition load_state ::
  "proxy_env \<Rightarrow> 'g glob_crate \<Rightarrow> 'g hook_globs \<Rightarrow> NetworkProxySettings \<Rightarrow> NetworkProxyConstraints \<Rightarrow> anyhow + 'g ConfigState" where
  "load_state env crate globs config constraints =
     bind_result (anyhow_context (lit ''network proxy constraints'')
         (into_anyhow (validate_policy_against_constraints env globs config constraints))) (\<lambda>_.
     build_config_state env crate globs config constraints)"

text \<open>The modification times of the configuration files, now and when they were read.\<close>

type_synonym layer_times = "(nat option \<times> nat option) list"

definition needs_reload :: "layer_times \<Rightarrow> bool" where
  "needs_reload layer_mtimes =
     list_ex (\<lambda>(new_mtime, old_mtime).
        case (new_mtime, old_mtime) of
          (Some n, Some m) \<Rightarrow> n > m
        | (Some _, None) \<Rightarrow> True
        | (None, Some _) \<Rightarrow> True
        | (None, None) \<Rightarrow> False) layer_mtimes"

definition mtime_maybe_reload ::
  "proxy_env \<Rightarrow> 'g glob_crate \<Rightarrow> 'g hook_globs \<Rightarrow> layer_times \<Rightarrow> NetworkProxySettings \<Rightarrow> NetworkProxyConstraints \<Rightarrow> 'g reload" where
  "mtime_maybe_reload env crate globs layer_mtimes config constraints =
     (if \<not> needs_reload layer_mtimes then Inr None
      else bind_result (load_state env crate globs config constraints) (\<lambda>st. Inr (Some st)))"

type_synonym 'g proxy_machine = "'g ConfigState \<times> 'g prepared list"

inductive proxy_step :: "proxy_env \<Rightarrow> 'g glob_crate \<Rightarrow> 'g hook_globs \<Rightarrow> 'g proxy_machine \<Rightarrow> 'g proxy_machine \<Rightarrow> bool"
  for env crate globs where
  reload: "reload_if_needed (mtime_maybe_reload env crate globs layer_mtimes config constraints) st = Inr st'
    \<Longrightarrow> proxy_step env crate globs (st, ps) (st', ps)"
| forced: "force_reload (load_state env crate globs config constraints) st = (st', outcome)
    \<Longrightarrow> proxy_step env crate globs (st, ps) (st', ps)"
| replace: "load_state env crate globs config constraints = Inr new_state
    \<Longrightarrow> replace_config_state (Inr None) new_state st = Inr st'
    \<Longrightarrow> proxy_step env crate globs (st, ps) (st', ps)"
| record_request: "record_blocked (Inr None) entry st = Inr st' \<Longrightarrow> proxy_step env crate globs (st, ps) (st', ps)"
| drain: "drain_blocked (Inr None) st = Inr (st', drained) \<Longrightarrow> proxy_step env crate globs (st, ps) (st', ps)"
| prepare: "host_parse host = Inr h
    \<Longrightarrow> proxy_step env crate globs (st, ps) (st, prepare_domain_update env crate globs h target st # ps)"
| prepare_mode: "proxy_step env crate globs (st, ps) (st, prepare_mode_change env globs mode st # ps)"
| commit: "p \<in> set ps \<Longrightarrow> commit_prepared p st = Some (st', outcome)
    \<Longrightarrow> proxy_step env crate globs (st, ps) (st', remove1 p ps)"
| retry: "p \<in> set ps \<Longrightarrow> commit_prepared p st = None \<Longrightarrow> proxy_step env crate globs (st, ps) (st, remove1 p ps)"

inductive proxy_reachable :: "proxy_env \<Rightarrow> 'g glob_crate \<Rightarrow> 'g hook_globs \<Rightarrow> 'g proxy_machine \<Rightarrow> bool"
  for env crate globs where
  start: "load_state env crate globs config constraints = Inr st \<Longrightarrow> proxy_reachable env crate globs (st, [])"
| step: "proxy_reachable env crate globs s \<Longrightarrow> proxy_step env crate globs s s' \<Longrightarrow> proxy_reachable env crate globs s'"

section \<open>The invariant\<close>

definition coherent :: "proxy_env \<Rightarrow> 'g glob_crate \<Rightarrow> 'g hook_globs \<Rightarrow> 'g ConfigState \<Rightarrow> bool" where
  "coherent env crate globs st \<longleftrightarrow>
     compiled crate st
     \<and> compile_mitm_hooks env globs (cs_config st) = Inr (cs_mitm_hooks st)
     \<and> validate_policy_against_constraints env globs (cs_config st) (cs_constraints st) = Inr ()
     \<and> length (cs_blocked st) \<le> MAX_BLOCKED_EVENTS"

definition within_mode :: "NetworkProxyConstraints \<Rightarrow> NetworkMode \<Rightarrow> bool" where
  "within_mode c mode \<longleftrightarrow>
     (case nc_mode c of Some max_mode \<Rightarrow> \<not> network_mode_rank mode > network_mode_rank max_mode | None \<Rightarrow> True)"

fun pending_coherent :: "proxy_env \<Rightarrow> 'g glob_crate \<Rightarrow> 'g hook_globs \<Rightarrow> 'g prepared \<Rightarrow> bool" where
  "pending_coherent env crate globs (Commit _ _ new_state) = coherent env crate globs new_state"
| "pending_coherent env crate globs (ModeChange constraints mode) = within_mode constraints mode"
| "pending_coherent env crate globs _ = True"

lemma into_anyhow_Inr_iff [result_simps]: "into_anyhow m = Inr x \<longleftrightarrow> m = Inr x"
  by (simp add: into_anyhow_def result_simps)

lemma anyhow_context_Inr_iff [result_simps]: "anyhow_context c m = Inr x \<longleftrightarrow> m = Inr x"
  by (simp add: anyhow_context_def result_simps)

lemma build_config_state_fields:
  assumes "build_config_state env crate globs config constraints = Inr st"
  shows "compiled crate st" "compile_mitm_hooks env globs (cs_config st) = Inr (cs_mitm_hooks st)"
    "cs_config st = config" "cs_constraints st = constraints" "cs_blocked st = []" "cs_blocked_total st = 0"
  using assms by (auto simp: build_config_state_def compiled_def Let_def result_simps)

lemma coherent_blocked:
  "coherent env crate globs st \<Longrightarrow> length bs \<le> MAX_BLOCKED_EVENTS
    \<Longrightarrow> coherent env crate globs (st\<lparr>cs_blocked := bs, cs_blocked_total := n\<rparr>)"
  by (simp add: coherent_def compiled_def)

lemma build_coherent:
  assumes "build_config_state env crate globs config constraints = Inr st"
    and "validate_policy_against_constraints env globs config constraints = Inr ()"
  shows "coherent env crate globs st"
  using build_config_state_fields [OF assms(1)] assms(2) by (simp add: coherent_def)

lemma load_state_coherent: "load_state env crate globs config constraints = Inr st \<Longrightarrow> coherent env crate globs st"
  by (auto simp: load_state_def result_simps intro: build_coherent)

lemma coherent_length: "coherent env crate globs st \<Longrightarrow> length (cs_blocked st) \<le> MAX_BLOCKED_EVENTS"
  by (simp add: coherent_def)

lemma pop_excess_bound: "length (pop_excess xs) \<le> MAX_BLOCKED_EVENTS"
  by (induction xs rule: pop_excess.induct) (subst pop_excess.simps, auto)

lemma compile_hooks_mode: "compile_mitm_hooks env globs (c\<lparr>np_mode := m\<rparr>) = compile_mitm_hooks env globs c"
  by (simp add: compile_mitm_hooks_def validate_mitm_hook_config_def)

lemma prepare_coherent:
  assumes "coherent env crate globs st"
  shows "pending_coherent env crate globs (prepare_domain_update env crate globs h target st)"
proof (cases "prepare_domain_update env crate globs h target st")
  case (Commit previous constraints new_state)
  let ?candidate = "upsert_domain_permission h (list_permission target) normalize_host (cs_config st)"
  from Commit obtain built where
    "validate_policy_against_constraints env globs ?candidate (cs_constraints st) = Inr ()"
    "build_config_state env crate globs ?candidate (cs_constraints st) = Inr built"
    "new_state = built\<lparr>cs_blocked := cs_blocked st, cs_blocked_total := cs_blocked_total st\<rparr>"
    by (auto simp: prepare_domain_update_def Let_def result_simps split: if_splits sum.splits)
  then have "coherent env crate globs new_state"
    using build_coherent coherent_blocked coherent_length [OF assms] by blast
  with Commit show ?thesis by simp
qed (auto simp: prepare_domain_update_def Let_def split: if_splits sum.splits)

text \<open>Apart from the order of modes, no constraint looks at the mode.\<close>

lemma mode_unseen:
  "validate_mitm_hook_config env globs (c\<lparr>np_mode := m\<rparr>) = validate_mitm_hook_config env globs c"
  "validate_allowed_domains env (c\<lparr>np_mode := m\<rparr>) b managed = validate_allowed_domains env c b managed"
  "validate_denied_domains env (c\<lparr>np_mode := m\<rparr>) b managed = validate_denied_domains env c b managed"
  "denied_domains (c\<lparr>np_mode := m\<rparr>) = denied_domains c" "allow_unix_sockets (c\<lparr>np_mode := m\<rparr>) = allow_unix_sockets c"
  "np_enabled (c\<lparr>np_mode := m\<rparr>) = np_enabled c" "np_mode (c\<lparr>np_mode := m\<rparr>) = m"
  "np_allow_upstream_proxy (c\<lparr>np_mode := m\<rparr>) = np_allow_upstream_proxy c"
  "np_dangerously_allow_non_loopback_proxy (c\<lparr>np_mode := m\<rparr>) = np_dangerously_allow_non_loopback_proxy c"
  "np_dangerously_allow_all_unix_sockets (c\<lparr>np_mode := m\<rparr>) = np_dangerously_allow_all_unix_sockets c"
  "np_allow_local_binding (c\<lparr>np_mode := m\<rparr>) = np_allow_local_binding c"
  by (simp_all add: validate_mitm_hook_config_def validate_allowed_domains_def validate_denied_domains_def allowed_domains_def
      denied_domains_def domain_entries_def allow_unix_sockets_def)

lemma mode_check_iff:
  "(case nc_mode c of
      Some max_mode \<Rightarrow> if network_mode_rank mode > network_mode_rank max_mode then invalid_value f x (y max_mode) else Inr ()
    | None \<Rightarrow> Inr ()) = Inr () \<longleftrightarrow> within_mode c mode"
  by (simp add: within_mode_def invalid_value_def split: option.split)

lemma validate_mode_iff:
  assumes "validate_policy_against_constraints env globs config constraints = Inr ()"
  shows "validate_policy_against_constraints env globs (config\<lparr>np_mode := mode\<rparr>) constraints = Inr () \<longleftrightarrow> within_mode constraints mode"
  using assms
  unfolding validate_policy_against_constraints_def first_error_Inr_iff list.set ball_simps ball_empty mode_unseen mode_check_iff
  by (elim conjE) (simp only: simp_thms)

lemma validate_within_mode:
  "validate_policy_against_constraints env globs config constraints = Inr () \<Longrightarrow> within_mode constraints (np_mode config)"
  unfolding validate_policy_against_constraints_def first_error_Inr_iff list.set ball_simps ball_empty mode_check_iff
  by (elim conjE) (simp only: simp_thms)

lemma prepare_mode_coherent: "pending_coherent env crate globs (prepare_mode_change env globs mode st)"
  using validate_within_mode [of env globs "(cs_config st)\<lparr>np_mode := mode\<rparr>" "cs_constraints st"]
  by (auto simp: prepare_mode_change_def result_simps split: sum.splits)

lemma mode_change_coherent:
  assumes "coherent env crate globs st" and "within_mode (cs_constraints st) mode"
  shows "coherent env crate globs (st\<lparr>cs_config := (cs_config st)\<lparr>np_mode := mode\<rparr>\<rparr>)"
  using assms validate_mode_iff [of env globs "cs_config st" "cs_constraints st" mode]
  by (simp add: coherent_def compiled_def compile_hooks_mode allowed_domains_def denied_domains_def domain_entries_def)

fun machine_inv :: "proxy_env \<Rightarrow> 'g glob_crate \<Rightarrow> 'g hook_globs \<Rightarrow> 'g proxy_machine \<Rightarrow> bool" where
  "machine_inv env crate globs (st, ps) \<longleftrightarrow> coherent env crate globs st \<and> list_all (pending_coherent env crate globs) ps"

lemma list_all_remove1: "list_all P ps \<Longrightarrow> list_all P (remove1 p ps)"
  using set_remove1_subset [of p ps] by (auto simp: list_all_iff)

lemma commit_coherent:
  "commit_prepared p st = Some (st', outcome) \<Longrightarrow> coherent env crate globs st \<Longrightarrow> pending_coherent env crate globs p
    \<Longrightarrow> coherent env crate globs st'"
  by (cases p)
     (auto simp: commit_domain_update_def commit_mode_change_def 
        intro: mode_change_coherent split: if_splits)

lemma fresh_coherent:
  assumes "coherent env crate globs new_state" and "coherent env crate globs st"
  shows "coherent env crate globs (new_state\<lparr>cs_blocked := cs_blocked st, cs_blocked_total := n\<rparr>)"
    and "coherent env crate globs (new_state\<lparr>cs_blocked := cs_blocked st\<rparr>)"
  using assms(1) coherent_length [OF assms(2)] by (simp_all add: coherent_def compiled_def)

lemma push_blocked_coherent: "coherent env crate globs st \<Longrightarrow> coherent env crate globs (push_blocked entry st)"
  unfolding push_blocked_def by (rule coherent_blocked [OF _ pop_excess_bound])

lemma drained_coherent: "coherent env crate globs st \<Longrightarrow> coherent env crate globs (st\<lparr>cs_blocked := []\<rparr>)"
  by (simp add: coherent_def compiled_def)

section \<open>Reloaders\<close>

text \<open>The trait \<^verbatim>\<open>ConfigReloader\<close>: what an operation may rely on is that a reloaded state is the compiled form of a
  configuration that keeps its constraints. Every operation then keeps the invariant, whether it reloads or not.\<close>

locale config_reloader =
  fixes env :: proxy_env and crate :: "'g glob_crate" and globs :: "'g hook_globs"
    and maybe_reload :: "'g reload" and reload_now :: "anyhow + 'g ConfigState"
  assumes maybe_reload_coherent: "maybe_reload = Inr (Some st) \<Longrightarrow> coherent env crate globs st"
    and reload_now_coherent: "reload_now = Inr st \<Longrightarrow> coherent env crate globs st"
begin

lemma reload_coherent:
  "coherent env crate globs st \<Longrightarrow> reload_if_needed maybe_reload st = Inr st' \<Longrightarrow> coherent env crate globs st'"
  by (auto simp: reload_if_needed_def split: sum.splits option.splits intro: fresh_coherent maybe_reload_coherent)

lemma forced_coherent:
  "coherent env crate globs st \<Longrightarrow> force_reload reload_now st = (st', outcome) \<Longrightarrow> coherent env crate globs st'"
  by (auto simp: force_reload_def split: sum.splits intro: fresh_coherent reload_now_coherent)

lemma replaced_coherent:
  "coherent env crate globs st \<Longrightarrow> coherent env crate globs new_state
    \<Longrightarrow> replace_config_state maybe_reload new_state st = Inr st' \<Longrightarrow> coherent env crate globs st'"
  by (auto simp: replace_config_state_def result_simps dest: reload_coherent intro: fresh_coherent)

lemma recorded_coherent:
  "coherent env crate globs st \<Longrightarrow> record_blocked maybe_reload entry st = Inr st' \<Longrightarrow> coherent env crate globs st'"
  by (auto simp: record_blocked_def result_simps dest: reload_coherent intro: push_blocked_coherent)

lemma drain_coherent:
  "coherent env crate globs st \<Longrightarrow> drain_blocked maybe_reload st = Inr (st', drained) \<Longrightarrow> coherent env crate globs st'"
  by (auto simp: drain_blocked_def result_simps dest: reload_coherent intro: drained_coherent)

lemma mode_coherent:
  "coherent env crate globs st \<Longrightarrow> set_network_mode env globs maybe_reload mode st = Some (st', outcome)
    \<Longrightarrow> coherent env crate globs st'"
  by (auto simp: set_network_mode_def split: sum.splits dest: reload_coherent intro: commit_coherent prepare_mode_coherent)

lemma decision_coherent:
  "coherent env crate globs st \<Longrightarrow> host_blocked crate lookup_host maybe_reload host port st = Inr (st', d)
    \<Longrightarrow> coherent env crate globs st'"
  by (cases "host_parse host") (auto simp: host_blocked_def result_simps dest: reload_coherent)

lemma update_coherent:
  "coherent env crate globs st \<Longrightarrow> update_domain_list env crate globs maybe_reload host target st = Some (st', outcome)
    \<Longrightarrow> coherent env crate globs st'"
  by (auto simp: update_domain_list_def split: sum.splits dest: reload_coherent intro: commit_coherent prepare_coherent)

end

interpretation mtime: config_reloader env crate globs
  "mtime_maybe_reload env crate globs layer_mtimes config constraints" "load_state env crate globs config constraints"
  for env crate globs layer_mtimes config constraints
  by unfold_locales (auto simp: mtime_maybe_reload_def result_simps split: if_splits intro: load_state_coherent)

lemma proxy_step_inv: "proxy_step env crate globs s s' \<Longrightarrow> machine_inv env crate globs s \<Longrightarrow> machine_inv env crate globs s'"
proof (induction rule: proxy_step.induct)
  case (reload layer_mtimes config constraints st st' ps)
  then show ?case by (auto intro: mtime.reload_coherent)
next
  case (forced config constraints st st' outcome ps)
  then show ?case by (auto intro: mtime.forced_coherent)
next
  case (replace config constraints new_state st st' ps)
  then show ?case by (auto simp: replace_config_state_def reload_if_needed_def intro: fresh_coherent load_state_coherent)
next
  case (record_request entry st st' ps)
  then show ?case by (auto simp: record_blocked_def reload_if_needed_def intro: push_blocked_coherent)
next
  case (drain st st' drained ps)
  then show ?case by (auto simp: drain_blocked_def reload_if_needed_def intro: drained_coherent)
next
  case (prepare host h st ps target)
  then show ?case by (auto intro: prepare_coherent)
next
  case (prepare_mode st ps mode)
  then show ?case by (auto intro: prepare_mode_coherent)
next
  case (commit p ps st st' outcome)
  from commit have "pending_coherent env crate globs p" by (auto simp: list_all_iff)
  with commit show ?case by (auto intro: commit_coherent list_all_remove1)
next
  case (retry p ps st)
  then show ?case by (auto intro: list_all_remove1)
qed

lemma proxy_reachable_inv: "proxy_reachable env crate globs s \<Longrightarrow> machine_inv env crate globs s"
  by (induction rule: proxy_reachable.induct) (auto intro: load_state_coherent proxy_step_inv)

lemma reachable_coherent: "proxy_reachable env crate globs (st, ps) \<Longrightarrow> coherent env crate globs st"
  using proxy_reachable_inv by fastforce

end
