(* ===== verification/Network_Hook_Lemmas.thy ===== *)
theory Network_Hook_Lemmas
  imports Network_Hooks
begin

text \<open>
  The compiled hooks of a host are the hooks configured for it, in their order.
\<close>

lemma map_result_set: "map_result f xs = Inr ys \<Longrightarrow> x \<in> set xs \<Longrightarrow> \<exists>y \<in> set ys. f x = Inr y"
  by (force simp: map_result_Inr_iff list_all2_conv_all_nth in_set_conv_nth)

lemma map_result_set_rev: "map_result f xs = Inr ys \<Longrightarrow> y \<in> set ys \<Longrightarrow> \<exists>x \<in> set xs. f x = Inr y"
  by (force simp: map_result_Inr_iff list_all2_conv_all_nth in_set_conv_nth)

lemma compile_hooks_sem:
  "compile_hooks env globs cs m = Inr m' \<Longrightarrow> bt_ok m
    \<Longrightarrow> \<exists>hs. map_result (compile_hook env globs) cs = Inr hs
          \<and> (\<forall>k. map_of m' k = (let fs = filter (\<lambda>h. mh_host h = k) hs
                                in if fs = [] then map_of m k else Some (or_empty (map_of m k) @ fs)))"
proof (induction env globs cs m rule: compile_hooks.induct)
  case (2 env globs c cs m)
  from "2.prems"(1) obtain h where h: "compile_hook env globs c = Inr h"
    and rest: "compile_hooks env globs cs (push_hook h m) = Inr m'" by (auto simp: result_simps)
  have ok: "bt_ok (push_hook h m)" using "2.prems"(2) by (simp add: push_hook_def bt_ok_insert)
  from "2.IH" [OF rest ok] obtain hs where hs: "map_result (compile_hook env globs) cs = Inr hs"
    and sem: "\<And>k. map_of m' k = (let fs = filter (\<lambda>h. mh_host h = k) hs
        in if fs = [] then map_of (push_hook h m) k else Some (or_empty (map_of (push_hook h m) k) @ fs))"
    by blast
  have push: "map_of (push_hook h m) k = (if mh_host h = k then Some (or_empty (map_of m k) @ [h]) else map_of m k)" for k
    using "2.prems"(2) by (auto simp: push_hook_def map_of_bt_insert split: option.splits)
  have "map_result (compile_hook env globs) (c # cs) = Inr (h # hs)" using h hs by simp
  moreover have "map_of m' k = (let fs = filter (\<lambda>h. mh_host h = k) (h # hs)
      in if fs = [] then map_of m k else Some (or_empty (map_of m k) @ fs))" for k
    unfolding sem push by (simp add: Let_def)
  ultimately show ?case by blast
qed (simp add: Let_def)

lemma compile_hook_host: "compile_hook env globs c = Inr h \<Longrightarrow> mh_host h = normalize_host (hook_host c)"
  by (auto simp: compile_hook_def normalize_hook_host_def Let_def result_simps split: if_splits)

text \<open>Hooks of the configuration that are for a host, as they are compiled.\<close>

definition configured_hook :: "proxy_env \<Rightarrow> 'g hook_globs \<Rightarrow> NetworkProxySettings \<Rightarrow> str \<Rightarrow> 'g MitmHook \<Rightarrow> bool" where
  "configured_hook env globs s host h \<longleftrightarrow>
     list_ex (\<lambda>c. normalize_host (hook_host c) = normalize_host host \<and> compile_hook env globs c = Inr h) (np_mitm_hooks s)"

lemma compiled_hooks_of_host:
  assumes "compile_mitm_hooks env globs s = Inr hooks"
  shows "map_of hooks (normalize_host host) = Some hs \<Longrightarrow> h \<in> set hs \<Longrightarrow> configured_hook env globs s host h"
    and "map_of hooks (normalize_host host) = None \<Longrightarrow> c \<in> set (np_mitm_hooks s) \<Longrightarrow> normalize_host (hook_host c) \<noteq> normalize_host host"
proof -
  have "compile_hooks env globs (np_mitm_hooks s) [] = Inr hooks" using assms by (auto simp: compile_mitm_hooks_def result_simps)
  from compile_hooks_sem [OF this] obtain all where
    all: "map_result (compile_hook env globs) (np_mitm_hooks s) = Inr all"
    and sem: "\<And>k. map_of hooks k = (let fs = filter (\<lambda>h. mh_host h = k) all in if fs = [] then None else Some fs)"
    by (auto simp: bt_ok_def Let_def)
  {
    assume "map_of hooks (normalize_host host) = Some hs" "h \<in> set hs"
    then have "h \<in> set all" "mh_host h = normalize_host host" by (auto simp: sem Let_def split: if_splits)
    with map_result_set_rev [OF all] compile_hook_host show "configured_hook env globs s host h"
      by (fastforce simp: configured_hook_def list_ex_iff)
  next
    assume "map_of hooks (normalize_host host) = None" "c \<in> set (np_mitm_hooks s)"
    with map_result_set [OF all] compile_hook_host show "normalize_host (hook_host c) \<noteq> normalize_host host"
      by (fastforce simp: sem Let_def filter_empty_conv split: if_splits)
  }
qed

lemma evaluate_mitm_hooks_sem:
  assumes "compile_mitm_hooks env globs s = Inr hooks"
  shows "evaluate_mitm_hooks globs hooks host req = Matched a
      \<Longrightarrow> \<exists>h. configured_hook env globs s host h \<and> hook_matches globs h req \<and> mh_actions h = a"
    and "evaluate_mitm_hooks globs hooks host req = NoHooksForHost \<Longrightarrow> \<not> configured_hook env globs s host h"
proof -
  assume "evaluate_mitm_hooks globs hooks host req = Matched a"
  then obtain hs h where "map_of hooks (normalize_host host) = Some hs" "List.find (\<lambda>h. hook_matches globs h req) hs = Some h"
    "mh_actions h = a"
    by (auto simp: evaluate_mitm_hooks_def split: option.splits)
  moreover from this(2) have "h \<in> set hs" "hook_matches globs h req" by (auto simp: find_Some_iff)
  ultimately show "\<exists>h. configured_hook env globs s host h \<and> hook_matches globs h req \<and> mh_actions h = a"
    using compiled_hooks_of_host(1) [OF assms] by blast
next
  assume "evaluate_mitm_hooks globs hooks host req = NoHooksForHost"
  then have "map_of hooks (normalize_host host) = None" by (auto simp: evaluate_mitm_hooks_def split: option.splits)
  from compiled_hooks_of_host(2) [OF assms this] show "\<not> configured_hook env globs s host h"
    by (auto simp: configured_hook_def list_ex_iff)
qed

end
