(* ===== verification/Network_Properties.thy ===== *)
theory Network_Properties
  imports Network_Machine Network_Hook_Lemmas
begin

text \<open>
  What the running proxy guarantees: the state is the compiled form of a configuration that keeps the managed constraints, a
  request that is allowed has passed every check, managed allowlists are not exceeded, denials take effect, and secrets are
  injected only where a hook says so.
\<close>

section \<open>Normal forms of names\<close>

lemma parse_ip_addr_Nil: "parse_ip_addr [] = None"
  by code_simp

lemma split_once_str_Some: "split_once_str p s = Some (l, r) \<Longrightarrow> s = l @ p @ r"
proof (induction s arbitrary: l)
  case (Cons c s)
  then show ?case by (cases "strip_prefix p (c # s)") (auto simp: strip_prefix_Some_iff)
qed (simp split: if_splits)

lemma scoped_ip_literal_hd:
  assumes "scoped_ip_literal delimiter h = Some r"
  shows "h \<noteq> [] \<and> r \<noteq> [] \<and> hd r = hd h"
proof -
  from assms obtain ip scope where ip: "split_once_str delimiter h = Some (ip, scope)" "parse_ip_addr ip \<noteq> None" "r = ip @ [37] @ scope"
    by (auto simp: scoped_ip_literal_def split: option.splits if_splits)
  from ip(2) have "ip \<noteq> []" using parse_ip_addr_Nil by auto
  with split_once_str_Some [OF ip(1)] ip(3) show ?thesis by simp
qed

lemma normalize_ip_literal_hd:
  assumes "normalize_ip_literal h = Some r"
  shows "h \<noteq> [] \<and> r \<noteq> [] \<and> hd r = hd h"
proof (cases "parse_ip_addr h = None")
  case True
  with assms show ?thesis using scoped_ip_literal_hd by (simp add: normalize_ip_literal_def split: option.splits)
next
  case False
  with assms show ?thesis using parse_ip_addr_Nil by (auto simp: normalize_ip_literal_def)
qed

lemma trim_end_matches_star: "trim_end_matches 46 (42 # s) = (42 :: nat) # trim_end_matches 46 s"
  by (simp add: trim_end_matches_def dropWhile_append)

lemma normalize_host_star:
  assumes "trim e = 42 # s"
  shows "\<exists>t. normalize_host e = 42 # t"
proof -
  have dns: "\<exists>t. normalize_dns_host_or_ip_literal (42 # x) = 42 # t" for x
  proof (cases "normalize_ip_literal (42 # trim_end_matches 46 (to_ascii_lowercase x))")
    case None
    then show ?thesis by (simp add: normalize_dns_host_or_ip_literal_def Let_def trim_end_matches_star ascii_lower_def)
  next
    case (Some r)
    with normalize_ip_literal_hd [OF Some] show ?thesis
      by (cases r) (simp_all add: normalize_dns_host_or_ip_literal_def Let_def trim_end_matches_star ascii_lower_def)
  qed
  show ?thesis
    using dns by (simp add: normalize_host_def Let_def assms)
qed

text \<open>A name, that is a normalized host of name characters, is its own normal form and stands for itself as a pattern.\<close>

lemma name_trim: "list_all name_char h \<Longrightarrow> h \<noteq> [] \<Longrightarrow> trim h = h"
  by (rule trim_id) (auto simp: list_all_iff dest: name_char_not_space)

lemma name_simple: "list_all name_char h \<Longrightarrow> simple_text h"
  using name_char_not_special by (auto simp: list_all_iff simple_text_def)

lemma normalize_dns_fixed:
  assumes "h = normalize_dns_host_or_ip_literal x" and "37 \<notin> set h"
  shows "to_ascii_lowercase (trim_end_matches 46 h) = h"
proof -
  define k where "k = trim_end_matches 46 (to_ascii_lowercase x)"
  have "h = k"
  proof (cases "normalize_ip_literal k")
    case (Some r)
    then have "h = r" using assms(1) by (simp add: normalize_dns_host_or_ip_literal_def Let_def k_def)
    with Some assms(2) show ?thesis by (auto simp: normalize_ip_literal_def scoped_ip_literal_def split: if_splits option.splits)
  qed (use assms(1) in \<open>simp add: normalize_dns_host_or_ip_literal_def Let_def k_def\<close>)
  then show ?thesis by (simp add: k_def trim_end_matches_lower)
qed

lemma normalize_host_dns: "\<exists>x. normalize_host s = normalize_dns_host_or_ip_literal x"
proof -
  have "\<exists>x. (if a then f p else if b then f q else f r) = f x" for a b p q r and f :: "str \<Rightarrow> str"
    by (cases a; cases b) auto
  then show ?thesis unfolding normalize_host_def Let_def .
qed

lemma normalize_host_fixed:
  assumes "h = normalize_host s" and "list_all name_char h"
  shows "normalize_host h = h"
proof (cases "h = []")
  case False
  have "37 \<notin> set h" using name_simple [OF assms(2)] by (simp add: simple_text_def)
  moreover obtain x where "h = normalize_dns_host_or_ip_literal x" using assms(1) normalize_host_dns by metis
  ultimately have "to_ascii_lowercase (trim_end_matches 46 h) = h" using normalize_dns_fixed by blast
  with normalize_host_simple [OF name_simple [OF assms(2)]] name_trim [OF assms(2) False] show ?thesis by simp
qed (simp add: normalize_host_def normalize_dns_host_or_ip_literal_def trim_def trim_end_matches_def normalize_ip_literal_def
      scoped_ip_literal_def parse_ip_addr_Nil lit_def)

lemma name_entry_matches:
  assumes "globset_documented crate" and "normalize_host e = h" and "list_all name_char h" and "h \<noteq> []"
  shows "pattern_matches crate e h"
proof -
  have not_star: "\<nexists>s. trim e = 42 # s" using normalize_host_star [of e] assms(2,3) by (auto simp: name_char_def)
  have "normalize_host (trim e) = normalize_host e" by (simp add: normalize_host_def)
  with not_star assms(2) have norm: "normalize_pattern e = h"
    by (auto simp: normalize_pattern_def Let_def lit_def strip_prefix_Some_iff split: option.splits)
  have "hd h \<noteq> 42" using assms(3,4) by (cases h) (auto simp: name_char_def)
  then have "domain_pattern_parse h = Exact h"
    using assms(4) name_trim [OF assms(3,4)]
    by (auto simp: domain_pattern_parse_def lit_def strip_prefix_Some_iff split: option.splits)
  with norm documented_name [OF assms(1,3)] show ?thesis by (simp add: pattern_matches_def expand_domain_pattern_def)
qed

section \<open>Decisions on hosts\<close>

text \<open>C27: In every state that the proxy can be in, whatever reloads, recorded requests, changes of mode and domain updates have
  been interleaved, the sets of patterns and the hooks are those compiled from the configuration, the configuration
  keeps the constraints, and at most 200 blocked requests are held.\<close>

theorem reachable_state_is_the_compiled_configuration:
  assumes "proxy_reachable env crate globs (st, ps)"
  shows "compile_denylist_globset crate (or_empty (denied_domains (cs_config st))) = Inr (cs_deny_set st)
    \<and> compile_allowlist_globset crate (or_empty (allowed_domains (cs_config st))) = Inr (cs_allow_set st)
    \<and> compile_mitm_hooks env globs (cs_config st) = Inr (cs_mitm_hooks st)
    \<and> validate_policy_against_constraints env globs (cs_config st) (cs_constraints st) = Inr ()
    \<and> length (cs_blocked st) \<le> 200"
  using reachable_coherent [OF assms] by (simp add: coherent_def compiled_def MAX_BLOCKED_EVENTS_def)

text \<open>The addresses that a host stands for.\<close>

definition target_addresses :: "lookup \<Rightarrow> str \<Rightarrow> nat \<Rightarrow> IpAddr list option" where
  "target_addresses lookup_host host port = (case parse_ip_addr host of Some ip \<Rightarrow> Some [ip] | None \<Rightarrow> lookup_host host port)"

lemma resolves_to_public:
  "\<not> host_resolves_to_non_public_ip lookup_host host port
    \<longleftrightarrow> (\<exists>addrs. target_addresses lookup_host host port = Some addrs \<and> list_all (\<lambda>ip. \<not> is_non_public_ip ip) addrs)"
  by (auto simp: host_resolves_to_non_public_ip_def target_addresses_def list_all_iff list_ex_iff split: option.splits)

lemma decide_host_cases:
  assumes "compiled crate st" and "decide_host crate lookup_host st h port = d" and "d = HostAllowed \<or> d = HostBlocked HostNotAllowed"
  shows "(\<forall>p \<in> set (or_empty (denied_domains (cs_config st))). \<not> pattern_covers crate p h)
    \<and> (np_allow_local_binding (cs_config st)
       \<or> (if is_local_literal h then is_explicit_local_allowlisted (or_empty (allowed_domains (cs_config st))) h
          else \<not> host_resolves_to_non_public_ip lookup_host h port))
    \<and> (d = HostAllowed \<longrightarrow> (\<exists>p \<in> set (or_empty (allowed_domains (cs_config st))). pattern_covers crate p h))"
  using assms(2,3) unfolding decide_host_def Let_def deny_set_sem [OF assms(1)] allow_set_sem [OF assms(1)]
  by (auto split: if_splits)

text \<open>C23: A request that the policy allows is for a host that no denied pattern covers; unless local binding is on, the host
  is a local literal that the allowlist names exactly or all of its addresses are public; and an allowed pattern covers
  it or the decider has allowed it. The decider is not asked about denied or local hosts.\<close>

theorem allowed_request_passed_every_check:
  assumes "proxy_reachable env crate globs (st, ps)"
    and "evaluate_host_policy crate lookup_host (Inr None) decider host port st = Inr (st', NetAllow)"
    and "h = normalize_host host" and "h \<noteq> []"
  shows "(\<forall>p \<in> set (or_empty (denied_domains (cs_config st))). \<not> pattern_covers crate p h)
    \<and> (np_allow_local_binding (cs_config st)
       \<or> (if is_local_literal h then is_explicit_local_allowlisted (or_empty (allowed_domains (cs_config st))) h
          else \<exists>addrs. target_addresses lookup_host h port = Some addrs \<and> list_all (\<lambda>ip. \<not> is_non_public_ip ip) addrs))
    \<and> ((\<exists>p \<in> set (or_empty (allowed_domains (cs_config st))). pattern_covers crate p h) \<or> decider = Some NetAllow)"
proof -
  define d where "d = decide_host crate lookup_host st h port"
  have "compiled crate st" using reachable_coherent [OF assms(1)] by (simp add: coherent_def)
  moreover have "d = HostAllowed \<or> d = HostBlocked HostNotAllowed \<and> decider = Some NetAllow"
    using assms(2-4)
    by (cases decider)
       (auto simp: evaluate_host_policy_def host_blocked_def reload_if_needed_def host_parse_def d_def deny_with_source_def
          elim!: map_decider_decision.elims split: HostBlockDecision.splits HostBlockReason.splits)
  ultimately show ?thesis
    using decide_host_cases [of crate st lookup_host h port d] unfolding resolves_to_public [symmetric] d_def [symmetric]
    by auto
qed


text \<open>Once a host has been added to the denylist, requests for it are denied.\<close>

theorem added_denial_takes_effect:
  assumes "proxy_reachable env crate globs (st, ps)" and "globset_documented crate"
    and "add_denied_domain env crate globs (Inr None) host st = Some (st', Inr ())"
    and "list_all name_char (normalize_host host)"
  shows "host_blocked crate lookup_host (Inr None) host port st' = Inr (st', HostBlocked HostDenied)"
proof -
  define h where "h = normalize_host host"
  have names: "list_all name_char h" using assms(4) by (simp add: h_def)
  have coh: "coherent env crate globs st" by (rule reachable_coherent [OF assms(1)])
  let ?p = "prepare_domain_update env crate globs h DenyList st"
  have ne: "h \<noteq> []" and commit: "commit_prepared ?p st = Some (st', Inr ())"
    using assms(3)
    by (auto simp: add_denied_domain_def update_domain_list_def host_parse_def reload_if_needed_def h_def Let_def anyhow_context_def
        split: if_splits)
  have st': "coherent env crate globs st'" using commit_coherent [OF commit coh prepare_coherent [OF coh]] .
  have "\<exists>e \<in> set (or_empty (denied_domains (cs_config st'))). normalize_host e = h"
  proof (cases ?p)
    case UpToDate
    with commit show ?thesis
      by (auto simp: prepare_domain_update_def Let_def list_ex_iff split: if_splits sum.splits)
  next
    case (Commit previous constraints new_state)
    let ?candidate = "upsert_domain_permission h PermDeny normalize_host (cs_config st)"
    from Commit commit have "cs_config st' = ?candidate"
      by (auto simp: prepare_domain_update_def commit_domain_update_def Let_def result_simps split: if_splits sum.splits
          dest!: build_config_state_fields(3))
    moreover have "h \<in> set (or_empty (domain_entries PermDeny ?candidate))"
      unfolding domain_entries_iff by (auto simp: upsert_domain_permission_def highest_permission_snoc)
    ultimately show ?thesis using normalize_host_fixed [OF h_def names] by (auto simp: denied_domains_def)
  qed (use commit in \<open>auto simp: prepare_domain_update_def Let_def split: if_splits sum.splits\<close>)
  then have "\<exists>p \<in> set (or_empty (denied_domains (cs_config st'))). pattern_covers crate p h"
    using name_entry_matches [OF assms(2) _ names ne] by (auto simp: pattern_covers_def)
  moreover have "compiled crate st'" using st' by (simp add: coherent_def)
  ultimately show ?thesis
    using ne by (simp add: host_blocked_def reload_if_needed_def host_parse_def h_def [symmetric] decide_host_def Let_def
        deny_set_sem)
qed

section \<open>Hooks\<close>

text \<open>C28: Of the requests inside an intercepted connection, one is forwarded with the actions of a hook only when the hook is
  configured for the target host and matches the request, and one is forwarded without actions only when no hook is
  configured for the host; its method is allowed in either case.\<close>

theorem secrets_go_only_where_their_hook_matches:
  assumes "proxy_reachable env crate globs (st, ps)"
    and "evaluate_mitm_policy crate globs lookup_host (Inr None) (Inr None) (Inr None) now policy client request_host req st
         = (st', Inr (MitmAllow actions))"
  shows "(case actions of
            Some a \<Rightarrow> \<exists>h. configured_hook env globs (cs_config st) (mp_target_host policy) h \<and> hook_matches globs h req \<and> mh_actions h = a
          | None \<Rightarrow> \<forall>h. \<not> configured_hook env globs (cs_config st) (mp_target_host policy) h)
    \<and> allows_method (mp_mode policy) (rq_method req) \<and> rq_method req \<noteq> lit ''CONNECT''"
proof -
  have hooks: "compile_mitm_hooks env globs (cs_config st) = Inr (cs_mitm_hooks st)"
    using reachable_coherent [OF assms(1)] by (simp add: coherent_def)
  let ?evaluation = "evaluate_mitm_hooks globs (cs_mitm_hooks st) (mp_target_host policy) req"
  have "(case ?evaluation of Matched a \<Rightarrow> actions = Some a | NoHooksForHost \<Rightarrow> actions = None | HookedHostNoMatch \<Rightarrow> False)
    \<and> allows_method (mp_mode policy) (rq_method req) \<and> rq_method req \<noteq> lit ''CONNECT''"
    using assms(2)
    by (auto simp: evaluate_mitm_policy_def host_blocked_def reload_if_needed_def Let_def
        split: if_splits sum.splits prod.splits HookEvaluation.splits)
  then show ?thesis
    using evaluate_mitm_hooks_sem [OF hooks, of "mp_target_host policy" req] by (cases ?evaluation) auto
qed

definition header_values :: "str \<Rightarrow> (str \<times> str) list \<Rightarrow> str list" where
  "header_values n headers = map snd (filter (\<lambda>(m, _). m = n) headers)"

lemma stripped_headers:
  "header_values n (foldl (\<lambda>hs n. filter (\<lambda>(m, _). m \<noteq> n) hs) headers ns) = (if n \<in> set ns then [] else header_values n headers)"
proof (induction ns arbitrary: headers)
  case (Cons k ns)
  have "header_values n (filter (\<lambda>(m, _). m \<noteq> k) headers) = (if n = k then [] else header_values n headers)"
    by (auto simp: header_values_def filter_empty_conv intro!: arg_cong [of _ _ "map snd"] filter_cong)
  with Cons.IH show ?case by auto
qed simp

lemma injected_headers:
  "header_values n (foldl (\<lambda>hs i. filter (\<lambda>(m, _). m \<noteq> rh_name i) hs @ [(rh_name i, rh_value i)]) headers is)
    = (case map_of (rev (map (\<lambda>i. (rh_name i, rh_value i)) is)) n of Some v \<Rightarrow> [v] | None \<Rightarrow> header_values n headers)"
proof (induction "is" rule: rev_induct)
  case (snoc i "is")
  have "header_values n (filter (\<lambda>(m, _). m \<noteq> rh_name i) hs @ [(rh_name i, rh_value i)])
      = (if n = rh_name i then [rh_value i] else header_values n hs)" for hs
    by (auto simp: header_values_def filter_empty_conv intro!: arg_cong [of _ _ "map snd"] filter_cong)
  with snoc show ?case by auto
qed simp

text \<open>The actions of a hook leave every header that they neither strip nor inject as it is, remove those that they only strip,
  and give an injected header the injected value as its single value, whatever the client has sent.\<close>

theorem injected_headers_replace_the_clients:
  "header_values n (apply_mitm_hook_actions actions headers)
    = (case actions of
         None \<Rightarrow> header_values n headers
       | Some a \<Rightarrow>
           (case map_of (rev (map (\<lambda>i. (rh_name i, rh_value i)) (inject_request_headers a))) n of
              Some v \<Rightarrow> [v]
            | None \<Rightarrow> if n \<in> set (strip_request_headers a) then [] else header_values n headers))"
  by (simp add: apply_mitm_hook_actions_def injected_headers stripped_headers split: option.splits)

section \<open>A proxy that runs\<close>

definition wild_globs :: "str hook_globs" where
  "wild_globs = \<lparr>path_glob = Inr, value_glob = Inr, hook_glob_match = wild\<rparr>"

definition sample_hook :: MitmHookConfig where
  "sample_hook =
     \<lparr>hook_host = lit ''api.example.com'',
      hook_matcher = \<lparr>hm_methods = [lit ''get''], hm_path_prefixes = [lit ''/v1''], hm_query = [], hm_headers = [], hm_has_body = False\<rparr>,
      hook_strip_request_headers = [],
      hook_inject_request_headers =
        [\<lparr>ih_name = lit ''authorization'', ih_secret_env_var = Some (lit ''TOKEN''), ih_secret_file = None, ih_prefix = None\<rparr>]\<rparr>"

definition sample_config :: NetworkProxySettings where
  "sample_config = default_settings
     \<lparr>np_enabled := True, np_domains := Some [(lit ''api.example.com'', PermAllow), (lit ''old.example.com'', PermDeny)],
      np_mitm := True, np_mitm_hooks := [sample_hook]\<rparr>"

definition sample_constraints :: NetworkProxyConstraints where
  "sample_constraints = no_constraints\<lparr>nc_allowed_domains := Some [lit ''*.example.com'']\<rparr>"

definition sample_actions :: MitmHookActions where
  "sample_actions =
     \<lparr>strip_request_headers = [],
      inject_request_headers = [\<lparr>rh_name = lit ''authorization'', rh_value = lit ''secret'', rh_source = EnvVar (lit ''TOKEN'')\<rparr>]\<rparr>"

definition sample_state :: "str ConfigState" where
  "sample_state =
     \<lparr>cs_config = sample_config, cs_allow_set = [lit ''api.example.com''], cs_deny_set = [lit ''old.example.com''],
      cs_mitm = Some (True, False),
      cs_mitm_hooks =
        [(lit ''api.example.com'',
          [\<lparr>mh_host = lit ''api.example.com'', mh_methods = [lit ''GET''], mh_path_prefixes = [PathPrefix (lit ''/v1'')],
            mh_query = [], mh_headers = [], mh_actions = sample_actions\<rparr>])],
      cs_constraints = sample_constraints, cs_blocked = [], cs_blocked_total = 0\<rparr>"

lemma sample_state_loaded:
  "load_state plain_env wild_crate wild_globs sample_config sample_constraints = Inr sample_state"
  by code_simp

lemma sample_state_reachable: "proxy_reachable plain_env wild_crate wild_globs (sample_state, [])"
  using sample_state_loaded by (rule proxy_reachable.start)

theorem reachable_state_is_the_compiled_configuration_witness:
  "compile_denylist_globset wild_crate (or_empty (denied_domains (cs_config sample_state))) = Inr (cs_deny_set sample_state)
    \<and> length (cs_blocked sample_state) \<le> 200"
  using reachable_state_is_the_compiled_configuration [OF sample_state_reachable] by blast

definition sample_lookup :: lookup where
  "sample_lookup _ _ = Some [V4 (from_octets 93 184 216 34)]"

lemma sample_request_allowed:
  "evaluate_host_policy wild_crate sample_lookup (Inr None) None (lit ''API.example.com:443'') 443 sample_state = Inr (sample_state, NetAllow)"
  by code_simp

theorem allowed_request_passed_every_check_witness:
  "filter (\<lambda>p. pattern_covers wild_crate p (lit ''api.example.com'')) (or_empty (denied_domains (cs_config sample_state))) = []
    \<and> (\<exists>p \<in> set (or_empty (allowed_domains (cs_config sample_state))). pattern_covers wild_crate p (lit ''api.example.com''))"
proof -
  have "lit ''api.example.com'' = normalize_host (lit ''API.example.com:443'')" by code_simp
  from allowed_request_passed_every_check [OF sample_state_reachable sample_request_allowed this] show ?thesis
    by (simp add: lit_def filter_empty_conv)
qed




definition sample_denied :: "str ConfigState" where
  "sample_denied = sample_state
     \<lparr>cs_config := sample_config\<lparr>np_domains :=
        Some [(lit ''api.example.com'', PermAllow), (lit ''old.example.com'', PermDeny), (lit ''bad.example.com'', PermDeny)]\<rparr>,
      cs_deny_set := [lit ''old.example.com'', lit ''bad.example.com'']\<rparr>"

lemma sample_denial:
  "add_denied_domain plain_env wild_crate wild_globs (Inr None) (lit ''Bad.example.com.'') sample_state = Some (sample_denied, Inr ())"
  by code_simp

theorem added_denial_takes_effect_witness:
  "host_blocked wild_crate sample_lookup (Inr None) (lit ''Bad.example.com.'') 443 sample_denied
    = Inr (sample_denied, HostBlocked HostDenied)"
proof -
  have "list_all name_char (normalize_host (lit ''Bad.example.com.''))" by code_simp
  from added_denial_takes_effect [OF sample_state_reachable wild_crate_documented sample_denial this] show ?thesis .
qed

definition sample_target :: MitmPolicyContext where
  "sample_target = \<lparr>mp_target_host = lit ''api.example.com'', mp_target_port = 443, mp_mode = Limited\<rparr>"

definition sample_proxy_request :: proxy_request where
  "sample_proxy_request = \<lparr>rq_method = lit ''GET'', rq_path = lit ''/v1/items'', rq_query = [], rq_headers = []\<rparr>"

lemma sample_request_hooked:
  "evaluate_mitm_policy wild_crate wild_globs sample_lookup (Inr None) (Inr None) (Inr None) 0 sample_target None None sample_proxy_request
     sample_state = (sample_state, Inr (MitmAllow (Some sample_actions)))"
  by code_simp

theorem secrets_go_only_where_their_hook_matches_witness:
  "\<exists>h. configured_hook plain_env wild_globs (cs_config sample_state) (lit ''api.example.com'') h
    \<and> hook_matches wild_globs h sample_proxy_request \<and> mh_actions h = sample_actions"
  using secrets_go_only_where_their_hook_matches [OF sample_state_reachable sample_request_hooked] by (simp add: sample_target_def)

section \<open>Beyond the guarantees\<close>

text \<open>An entry with a wildcard is compared with the managed patterns as it is written, and loses what looks like a port
  when it is compiled: it keeps to a managed \<^verbatim>\<open>*.example.com\<close> and then allows every host.\<close>

definition escaping_config :: NetworkProxySettings where
  "escaping_config = default_settings\<lparr>np_enabled := True, np_domains := Some [(lit ''*:x.example.com'', PermAllow)]\<rparr>"

lemma wildcard_with_port_exceeds_managed_allowlist:
  "(case load_state plain_env wild_crate wild_globs escaping_config sample_constraints of
      Inr st \<Rightarrow> decide_host wild_crate sample_lookup st (lit ''evil.org'') 443 = HostAllowed
    | Inl _ \<Rightarrow> False)
    \<and> \<not> pattern_covers wild_crate (lit ''*.example.com'') (lit ''evil.org'')"
  by code_simp

text \<open>Texts that the URL parser refuses are all the same domain for the constraints: an IPv6 address without its brackets is one,
  alternatives in braces are another.\<close>

lemma refused_texts_are_equal:
  assumes "url (lit ''::1'') = None" and "url (lit ''{evil.org,x}'') = None"
  shows "allows (parse_for_constraints url (lit ''[::1]'')) (parse_for_constraints url (lit ''{evil.org,x}''))"
proof -
  have "parse_for_constraints url (lit ''[::1]'') = Exact []" "parse_for_constraints url (lit ''{evil.org,x}'') = Exact []"
    using assms by (simp_all add: parse_for_constraints_def parse_domain_for_constraints_def Let_def lit_def trim_def trim_start_def
      trim_end_def trim_end_matches_def is_whitespace_def)
  then show ?thesis by (simp add: domain_eq_def)
qed

text \<open>A forced reload keeps the blocked requests and starts their count again; an update of a domain list puts back the requests it has
  read before it compiled, without those that have come meanwhile.\<close>

lemma forced_reload_resets_the_count:
  assumes "load_state env crate globs config constraints = Inr new_state"
  shows "cs_blocked (fst (force_reload (Inr new_state) st)) = cs_blocked st \<and> cs_blocked_total (fst (force_reload (Inr new_state) st)) = 0"
  using assms by (auto simp: load_state_def force_reload_def result_simps dest!: build_config_state_fields(6))

lemma update_forgets_requests_recorded_meanwhile:
  assumes "prepare_domain_update env crate globs h target st = Commit previous constraints new_state"
  shows "commit_prepared (Commit previous constraints new_state) (push_blocked entry st) = Some (new_state, Inr ())
    \<and> cs_blocked new_state = cs_blocked st"
  using assms by (auto simp: prepare_domain_update_def commit_domain_update_def push_blocked_def Let_def split: if_splits sum.splits)

end
