(* ===== verification/Network_Env.thy ===== *)
theory Network_Env
  imports Network_Runtime
begin

text \<open>
  The environment of the commands that run behind the proxy (\<^verbatim>\<open>codex-rs/network-proxy/src/proxy.rs\<close>) and the settings of a
  running proxy. An environment is a map from names to values; the addresses of the proxy come as the texts that are
  put into the variables, and the managed certificate bundle with the values its variables had when the proxy started.
\<close>

section \<open>Names\<close>

type_synonym env_map = "str \<rightharpoonup> str"

definition PROXY_URL_ENV_KEYS :: "str list" where
  "PROXY_URL_ENV_KEYS =
     [lit ''HTTP_PROXY'', lit ''HTTPS_PROXY'', lit ''WS_PROXY'', lit ''WSS_PROXY'', lit ''ALL_PROXY'', lit ''FTP_PROXY'',
      lit ''YARN_HTTP_PROXY'', lit ''YARN_HTTPS_PROXY'', lit ''NPM_CONFIG_HTTP_PROXY'', lit ''NPM_CONFIG_HTTPS_PROXY'',
      lit ''NPM_CONFIG_PROXY'', lit ''BUNDLE_HTTP_PROXY'', lit ''BUNDLE_HTTPS_PROXY'', lit ''PIP_PROXY'',
      lit ''DOCKER_HTTP_PROXY'', lit ''DOCKER_HTTPS_PROXY'']"










section \<open>Reading and rewriting an environment\<close>

definition proxy_url_env_value :: "env_map \<Rightarrow> str \<Rightarrow> str option" where
  "proxy_url_env_value env canonical_key =
     (case env canonical_key of Some v \<Rightarrow> Some v | None \<Rightarrow> env (to_ascii_lowercase canonical_key))"

definition has_proxy_url_env_vars :: "env_map \<Rightarrow> bool" where
  "has_proxy_url_env_vars env =
     list_ex (\<lambda>k. case proxy_url_env_value env k of Some v \<Rightarrow> trim v \<noteq> [] | None \<Rightarrow> False) PROXY_URL_ENV_KEYS"






record ManagedMitmCaTrustBundle =
  bundle_path :: str
  startup_env_values :: env_map




section \<open>The settings of a running proxy\<close>

record NetworkProxyRuntimeSettings =
  rs_allow_local_binding :: bool
  rs_allow_unix_sockets :: "str list"
  rs_dangerously_allow_all_unix_sockets :: bool
  rs_mitm_ca_trust_bundle :: "ManagedMitmCaTrustBundle option"

text \<open>The certificate bundle is made from files and comes as the result of making it.\<close>

definition runtime_settings_from_config ::
  "anyhow + ManagedMitmCaTrustBundle \<Rightarrow> NetworkProxySettings \<Rightarrow> anyhow + NetworkProxyRuntimeSettings" where
  "runtime_settings_from_config managed_ca_trust_bundle config =
     bind_result (if np_mitm config then bind_result managed_ca_trust_bundle (\<lambda>b. Inr (Some b)) else Inr None) (\<lambda>bundle.
     Inr \<lparr>rs_allow_local_binding = np_allow_local_binding config, rs_allow_unix_sockets = allow_unix_sockets config,
          rs_dangerously_allow_all_unix_sockets = np_dangerously_allow_all_unix_sockets config, rs_mitm_ca_trust_bundle = bundle\<rparr>)"

definition ensure :: "bool \<Rightarrow> string \<Rightarrow> anyhow + unit" where
  "ensure c m = (if c then Inr () else Inl [lit m])"

definition proxy_replace_config_state ::
  "anyhow + ManagedMitmCaTrustBundle \<Rightarrow> 'g reload \<Rightarrow> 'g reload \<Rightarrow> 'g ConfigState \<Rightarrow> 'g ConfigState \<times> NetworkProxyRuntimeSettings
   \<Rightarrow> ('g ConfigState \<times> NetworkProxyRuntimeSettings) \<times> (anyhow + unit)" where
  "proxy_replace_config_state managed_ca_trust_bundle r1 r2 new_state s =
     (case reload_if_needed r1 (fst s) of
        Inl e \<Rightarrow> (s, Inl e)
      | Inr st1 \<Rightarrow>
          (let new = cs_config new_state; current = cs_config st1
           in case first_error
                [ensure (np_enabled new = np_enabled current) ''cannot update network.enabled on a running proxy'',
                 ensure (np_proxy_url new = np_proxy_url current) ''cannot update network.proxy_url on a running proxy'',
                 ensure (np_socks_url new = np_socks_url current) ''cannot update network.socks_url on a running proxy'',
                 ensure (np_enable_socks5 new = np_enable_socks5 current) ''cannot update network.enable_socks5 on a running proxy'',
                 ensure (np_enable_socks5_udp new = np_enable_socks5_udp current) ''cannot update network.enable_socks5_udp on a running proxy''] of
                Inl e \<Rightarrow> ((st1, snd s), Inl e)
              | Inr _ \<Rightarrow>
                  (case runtime_settings_from_config managed_ca_trust_bundle new of
                     Inl e \<Rightarrow> ((st1, snd s), Inl e)
                   | Inr settings \<Rightarrow>
                       (case replace_config_state r2 new_state st1 of
                          Inl e \<Rightarrow> ((st1, snd s), Inl e)
                        | Inr st2 \<Rightarrow> ((st2, settings), Inr ())))))"

section \<open>Properties\<close>











end
