(* ===== verification/Network_Spec.thy ===== *)
theory Network_Spec
  imports Network_Machine Network_Env Exec_Policy Permission_Profile
begin

text \<open>
  How a session sets up its network proxy: the managed requirements of \<^verbatim>\<open>codex-rs/config/src/config_requirements.rs\<close> and the proxy
  specification of \<^verbatim>\<open>codex-rs/core/src/config/network_proxy_spec.rs\<close>, which applies the requirements to the user's
  configuration, adds the network rules of the execution policy, and builds the state. The maps of the requirements
  are association lists in the order of their keys. The answer of the policy decider to a request is an argument.
\<close>

section \<open>Requirements\<close>

datatype NetworkDomainPermissionToml = TomlAllow | TomlDeny

datatype NetworkUnixSocketPermissionToml = TomlSocketAllow | TomlSocketDeny

record NetworkConstraints =
  nr_enabled :: "bool option"
  nr_http_port :: "nat option"
  nr_socks_port :: "nat option"
  nr_allow_upstream_proxy :: "bool option"
  nr_dangerously_allow_non_loopback_proxy :: "bool option"
  nr_dangerously_allow_all_unix_sockets :: "bool option"
  nr_domains :: "(str \<times> NetworkDomainPermissionToml) list option"
  nr_managed_allowed_domains_only :: "bool option"
  nr_unix_sockets :: "(str \<times> NetworkUnixSocketPermissionToml) list option"
  nr_allow_local_binding :: "bool option"

text \<open>The raw table, with the lists of earlier versions.\<close>

record RawNetworkRequirementsToml = NetworkConstraints +
  raw_allowed_domains :: "str list option"
  raw_denied_domains :: "str list option"
  raw_allow_unix_sockets :: "str list option"

definition toml_allowed_domains :: "(str \<times> NetworkDomainPermissionToml) list \<Rightarrow> str list option" where
  "toml_allowed_domains es = non_empty (map fst (filter (\<lambda>e. snd e = TomlAllow) es))"

definition toml_denied_domains :: "(str \<times> NetworkDomainPermissionToml) list \<Rightarrow> str list option" where
  "toml_denied_domains es = non_empty (map fst (filter (\<lambda>e. snd e = TomlDeny) es))"

definition toml_allow_unix_sockets :: "(str \<times> NetworkUnixSocketPermissionToml) list \<Rightarrow> str list" where
  "toml_allow_unix_sockets es = map fst (filter (\<lambda>e. snd e = TomlSocketAllow) es)"

definition legacy_domain_permissions_from_lists ::
  "str list option \<Rightarrow> str list option \<Rightarrow> (str \<times> NetworkDomainPermissionToml) list option" where
  "legacy_domain_permissions_from_lists allowed denied =
     non_empty (foldl (\<lambda>m p. bt_insert p TomlDeny m) (foldl (\<lambda>m p. bt_insert p TomlAllow m) [] (or_empty allowed)) (or_empty denied))"

definition legacy_unix_socket_permissions_from_list ::
  "str list option \<Rightarrow> (str \<times> NetworkUnixSocketPermissionToml) list option" where
  "legacy_unix_socket_permissions_from_list allowed =
     non_empty (foldl (\<lambda>m p. bt_insert p TomlSocketAllow m) [] (or_empty allowed))"

definition deserialize_requirements :: "RawNetworkRequirementsToml \<Rightarrow> str + NetworkConstraints" where
  "deserialize_requirements raw =
     (if nr_domains raw \<noteq> None \<and> (raw_allowed_domains raw \<noteq> None \<or> raw_denied_domains raw \<noteq> None) then
        Inl (backquoted (lit ''experimental_network.domains'') @ lit '' cannot be combined with legacy ''
             @ backquoted (lit ''allowed_domains'') @ lit '' or '' @ backquoted (lit ''denied_domains''))
      else if nr_unix_sockets raw \<noteq> None \<and> raw_allow_unix_sockets raw \<noteq> None then
        Inl (backquoted (lit ''experimental_network.unix_sockets'') @ lit '' cannot be combined with legacy ''
             @ backquoted (lit ''allow_unix_sockets''))
      else Inr ((NetworkConstraints.truncate raw)
        \<lparr>nr_domains := (case nr_domains raw of
            Some d \<Rightarrow> Some d
          | None \<Rightarrow> legacy_domain_permissions_from_lists (raw_allowed_domains raw) (raw_denied_domains raw)),
         nr_unix_sockets := (case nr_unix_sockets raw of
            Some s \<Rightarrow> Some s
          | None \<Rightarrow> legacy_unix_socket_permissions_from_list (raw_allow_unix_sockets raw))\<rparr>))"

section \<open>The specification of a proxy\<close>

record NetworkProxySpec =
  spec_base_config :: NetworkProxySettings
  spec_requirements :: "NetworkConstraints option"
  spec_config :: NetworkProxySettings
  spec_constraints :: NetworkProxyConstraints
  spec_hard_deny_allowlist_misses :: bool

fun managed_sandbox_active :: "PermissionProfile \<Rightarrow> bool" where
  "managed_sandbox_active (Managed _ _) = True"
| "managed_sandbox_active _ = False"

definition managed_allowed_domains_only :: "NetworkConstraints \<Rightarrow> bool" where
  "managed_allowed_domains_only rq = (case nr_managed_allowed_domains_only rq of Some b \<Rightarrow> b | None \<Rightarrow> False)"

definition allowlist_expansion_enabled :: "PermissionProfile \<Rightarrow> bool \<Rightarrow> bool" where
  "allowlist_expansion_enabled profile hard_deny \<longleftrightarrow> managed_sandbox_active profile \<and> \<not> hard_deny"

definition denylist_expansion_enabled :: "PermissionProfile \<Rightarrow> bool" where
  "denylist_expansion_enabled profile = managed_sandbox_active profile"

fun merge_domain_lists :: "str list \<Rightarrow> str list \<Rightarrow> str list" where
  "merge_domain_lists managed [] = managed"
| "merge_domain_lists managed (e # es) =
     merge_domain_lists
       (if list_ex (\<lambda>m. to_ascii_lowercase m = to_ascii_lowercase e) managed then managed else managed @ [e]) es"

text \<open>A step of applying the requirements, taken when the requirement is set.\<close>

definition required :: "'a option \<Rightarrow> ('a \<Rightarrow> 's \<Rightarrow> 's) \<Rightarrow> 's \<Rightarrow> 's" where
  "required v f s = (case v of Some x \<Rightarrow> f x s | None \<Rightarrow> s)"

definition loopback_url :: "nat \<Rightarrow> str" where
  "loopback_url port = lit ''http://127.0.0.1:'' @ show_nat port"

definition managed_allowed :: "NetworkConstraints \<Rightarrow> bool \<Rightarrow> str list option" where
  "managed_allowed rq hard_deny =
     (let listed = Option.bind (nr_domains rq) toml_allowed_domains
      in if hard_deny then Some (or_empty listed) else listed)"

definition apply_requirements ::
  "NetworkProxySettings \<Rightarrow> NetworkConstraints \<Rightarrow> PermissionProfile \<Rightarrow> bool \<Rightarrow> NetworkProxySettings \<times> NetworkProxyConstraints" where
  "apply_requirements config rq profile hard_deny =
     foldl (\<lambda>s f. f s) (config, no_constraints)
       [required (nr_enabled rq) (\<lambda>b (c, k). (c\<lparr>np_enabled := b\<rparr>, k\<lparr>nc_enabled := Some b\<rparr>)),
        required (nr_http_port rq) (\<lambda>p (c, k). (c\<lparr>np_proxy_url := loopback_url p\<rparr>, k)),
        required (nr_socks_port rq) (\<lambda>p (c, k). (c\<lparr>np_socks_url := loopback_url p\<rparr>, k)),
        required (nr_allow_upstream_proxy rq) (\<lambda>b (c, k).
          (c\<lparr>np_allow_upstream_proxy := b\<rparr>, k\<lparr>nc_allow_upstream_proxy := Some b\<rparr>)),
        required (nr_dangerously_allow_non_loopback_proxy rq) (\<lambda>b (c, k).
          (c\<lparr>np_dangerously_allow_non_loopback_proxy := b\<rparr>, k\<lparr>nc_dangerously_allow_non_loopback_proxy := Some b\<rparr>)),
        required (nr_dangerously_allow_all_unix_sockets rq) (\<lambda>b (c, k).
          (c\<lparr>np_dangerously_allow_all_unix_sockets := b\<rparr>, k\<lparr>nc_dangerously_allow_all_unix_sockets := Some b\<rparr>)),
        required (managed_allowed rq hard_deny) (\<lambda>managed (c, k).
          let expansion = allowlist_expansion_enabled profile hard_deny;
              effective = (if expansion then merge_domain_lists managed (or_empty (allowed_domains c)) else managed)
          in (set_allowed_domains effective c,
              k\<lparr>nc_allowed_domains := Some managed, nc_allowlist_expansion_enabled := Some expansion\<rparr>)),
        required (Option.bind (nr_domains rq) toml_denied_domains) (\<lambda>managed (c, k).
          let expansion = denylist_expansion_enabled profile;
              effective = (if expansion then merge_domain_lists managed (or_empty (denied_domains c)) else managed)
          in (set_denied_domains effective c,
              k\<lparr>nc_denied_domains := Some managed, nc_denylist_expansion_enabled := Some expansion\<rparr>)),
        required (nr_unix_sockets rq) (\<lambda>sockets (c, k).
          let allowed = toml_allow_unix_sockets sockets
          in (set_allow_unix_sockets allowed c, k\<lparr>nc_allow_unix_sockets := Some allowed\<rparr>)),
        required (nr_allow_local_binding rq) (\<lambda>b (c, k).
          (c\<lparr>np_allow_local_binding := b\<rparr>, k\<lparr>nc_allow_local_binding := Some b\<rparr>))]"

definition invalid_constraints :: "NetworkProxyConstraintError \<Rightarrow> io_error" where
  "invalid_constraints e =
     \<lparr>kind = InvalidInput, message = lit ''network proxy constraints are invalid: '' @ show_constraint_error e\<rparr>"

definition from_config_and_constraints ::
  "proxy_env \<Rightarrow> 'g hook_globs \<Rightarrow> NetworkProxySettings \<Rightarrow> NetworkConstraints option \<Rightarrow> PermissionProfile \<Rightarrow> io_error + NetworkProxySpec" where
  "from_config_and_constraints env globs base requirements profile =
     (let hard_deny = (case requirements of Some rq \<Rightarrow> managed_allowed_domains_only rq | None \<Rightarrow> False);
          (config, constraints) =
            (case requirements of Some rq \<Rightarrow> apply_requirements base rq profile hard_deny | None \<Rightarrow> (base, no_constraints))
      in bind_result (map_err invalid_constraints (validate_policy_against_constraints env globs config constraints)) (\<lambda>_.
         Inr \<lparr>spec_base_config = base, spec_requirements = requirements, spec_config = config, spec_constraints = constraints,
              spec_hard_deny_allowlist_misses = hard_deny\<rparr>))"

definition recompute_for_permission_profile ::
  "proxy_env \<Rightarrow> 'g hook_globs \<Rightarrow> NetworkProxySpec \<Rightarrow> PermissionProfile \<Rightarrow> io_error + NetworkProxySpec" where
  "recompute_for_permission_profile env globs spec profile =
     from_config_and_constraints env globs (spec_base_config spec) (spec_requirements spec) profile"

fun upsert_network_domains :: "str list \<Rightarrow> bool \<Rightarrow> str set \<Rightarrow> NetworkProxySettings \<Rightarrow> NetworkProxySettings" where
  "upsert_network_domains [] allow incoming config = config"
| "upsert_network_domains (h # hs) allow incoming config =
     (if h \<in> incoming then upsert_network_domains hs allow incoming config
      else upsert_network_domains hs allow (insert h incoming)
             (upsert_domain_permission h (if allow then PermAllow else PermDeny) normalize_host config))"

definition apply_exec_policy_network_rules :: "'m Policy \<Rightarrow> NetworkProxySettings \<Rightarrow> NetworkProxySettings" where
  "apply_exec_policy_network_rules policy config =
     (let (allowed, denied) = compiled_network_domains policy
      in upsert_network_domains denied False {} (upsert_network_domains allowed True {} config))"

definition with_exec_policy_network_rules ::
  "proxy_env \<Rightarrow> 'g hook_globs \<Rightarrow> 'm Policy \<Rightarrow> NetworkProxySpec \<Rightarrow> io_error + NetworkProxySpec" where
  "with_exec_policy_network_rules env globs policy spec =
     (let config = apply_exec_policy_network_rules policy (spec_config spec)
      in bind_result (map_err invalid_constraints (validate_policy_against_constraints env globs config (spec_constraints spec)))
           (\<lambda>_. Inr (spec\<lparr>spec_config := config\<rparr>)))"

definition build_config_state_for_spec ::
  "proxy_env \<Rightarrow> 'g glob_crate \<Rightarrow> 'g hook_globs \<Rightarrow> NetworkProxySpec \<Rightarrow> anyhow + 'g ConfigState" where
  "build_config_state_for_spec env crate globs spec = build_config_state env crate globs (spec_config spec) (spec_constraints spec)"

text \<open>The decider that a started proxy has, by its answer: the given one, or one that asks.\<close>

definition started_decider :: "NetworkProxySpec \<Rightarrow> PermissionProfile \<Rightarrow> bool \<Rightarrow> NetworkDecision option \<Rightarrow> NetworkDecision option" where
  "started_decider spec profile enable_network_approval_flow policy_decider =
     (if enable_network_approval_flow \<and> \<not> spec_hard_deny_allowlist_misses spec then
        (case policy_decider of
           Some d \<Rightarrow> Some d
         | None \<Rightarrow> if managed_sandbox_active profile then Some (ask_with_source (lit ''not_allowed'') Decider) else None)
      else None)"

definition apply_to_started_proxy ::
  "proxy_env \<Rightarrow> 'g glob_crate \<Rightarrow> 'g hook_globs \<Rightarrow> anyhow + ManagedMitmCaTrustBundle \<Rightarrow> NetworkProxySpec
   \<Rightarrow> 'g ConfigState \<times> NetworkProxyRuntimeSettings \<Rightarrow> ('g ConfigState \<times> NetworkProxyRuntimeSettings) \<times> (anyhow + unit)" where
  "apply_to_started_proxy env crate globs managed_ca_trust_bundle spec s =
     (case build_config_state_for_spec env crate globs spec of
        Inl e \<Rightarrow> (s, Inl e)
      | Inr new_state \<Rightarrow> proxy_replace_config_state managed_ca_trust_bundle (Inr None) (Inr None) new_state s)"

end
