(* ===== verification/Network_Spec_Properties.thy ===== *)
theory Network_Spec_Properties
  imports Network_Spec Network_Properties Exec_Policy_Properties
begin

text \<open>
  What the managed requirements and the execution policy of a session mean for its network proxy.
\<close>

section \<open>Case of patterns\<close>

lemma trim_lower: "trim (to_ascii_lowercase s) = to_ascii_lowercase (trim s)"
  by (simp add: trim_def trim_start_def trim_end_def to_ascii_lowercase_def dropWhile_map o_def rev_map)

lemma takeWhile_lower:
  "c < 65 \<or> 90 < c \<and> c < 97 \<or> 122 < c
    \<Longrightarrow> takeWhile (\<lambda>x. x \<noteq> c) (to_ascii_lowercase s) = to_ascii_lowercase (takeWhile (\<lambda>x. x \<noteq> c) s)"
  by (simp add: to_ascii_lowercase_def takeWhile_map o_def)

lemma normalize_dns_lower: "normalize_dns_host_or_ip_literal (to_ascii_lowercase s) = normalize_dns_host_or_ip_literal s"
  by (simp add: normalize_dns_host_or_ip_literal_def)

lemma normalize_host_lower: "normalize_host (to_ascii_lowercase s) = normalize_host s"
proof -
  have count: "length (filter (\<lambda>c. c = 58) (to_ascii_lowercase t)) = length (filter (\<lambda>c. c = 58) t)" for t
    by (induction t) simp_all
  have tl_lower: "tl (to_ascii_lowercase t) = to_ascii_lowercase (tl t)" for t by (simp add: to_ascii_lowercase_def map_tl)
  have hd_lower: "t \<noteq> [] \<Longrightarrow> hd (to_ascii_lowercase t) = 91 \<longleftrightarrow> hd t = 91" for t by (cases t) simp_all
  show ?thesis
    unfolding normalize_host_def Let_def trim_lower count tl_lower
    by (auto simp: in_set_lower takeWhile_lower normalize_dns_lower hd_lower)
qed

lemma strip_prefix_lower:
  "set p \<subseteq> {42, 46} \<Longrightarrow> strip_prefix p (to_ascii_lowercase s) = map_option to_ascii_lowercase (strip_prefix p s)"
  by (induction p s rule: strip_prefix.induct) (auto simp: ascii_lower_def split: if_splits)

lemma normalize_pattern_lower: "normalize_pattern (to_ascii_lowercase p) = normalize_pattern p"
proof -
  have star: "to_ascii_lowercase s = lit ''*'' \<longleftrightarrow> s = lit ''*''" for s
    by (auto simp: lit_def to_ascii_lowercase_def map_eq_Cons_conv)
  have strip: "strip_prefix (lit ''**.'') (to_ascii_lowercase s) = map_option to_ascii_lowercase (strip_prefix (lit ''**.'') s)"
    "strip_prefix (lit ''*.'') (to_ascii_lowercase s) = map_option to_ascii_lowercase (strip_prefix (lit ''*.'') s)" for s
    by (simp_all add: strip_prefix_lower lit_def)
  show ?thesis
    unfolding normalize_pattern_def Let_def trim_lower star strip
    by (auto simp: normalize_host_lower split: option.splits)
qed

lemma pattern_covers_lower: "to_ascii_lowercase p = to_ascii_lowercase q \<Longrightarrow> pattern_covers crate p h \<longleftrightarrow> pattern_covers crate q h"
proof -
  assume "to_ascii_lowercase p = to_ascii_lowercase q"
  then have "normalize_pattern p = normalize_pattern q" by (metis normalize_pattern_lower)
  then have "pattern_matches crate p = pattern_matches crate q" by (simp add: pattern_matches_def fun_eq_iff)
  then show ?thesis by (simp add: pattern_covers_def split: option.splits)
qed

section \<open>Managed domains only\<close>

lemma apply_requirements_allowlist:
  assumes "apply_requirements config rq profile True = (c, k)"
  shows "nc_allowed_domains k = Some (or_empty (Option.bind (nr_domains rq) toml_allowed_domains))
    \<and> nc_allowlist_expansion_enabled k = Some False"
proof -
  have keep: "nc_allowed_domains (snd (required v f s)) = nc_allowed_domains (snd s)
      \<and> nc_allowlist_expansion_enabled (snd (required v f s)) = nc_allowlist_expansion_enabled (snd s)"
    if "\<And>x s. nc_allowed_domains (snd (f x s)) = nc_allowed_domains (snd s)
      \<and> nc_allowlist_expansion_enabled (snd (f x s)) = nc_allowlist_expansion_enabled (snd s)" for v f and s :: "'s \<times> NetworkProxyConstraints"
    using that by (cases v) (simp_all add: required_def)
  have "k = snd (apply_requirements config rq profile True)" using assms by simp
  then show ?thesis
    by (simp add: apply_requirements_def keep case_prod_beta Let_def)
       (simp add: required_def managed_allowed_def allowlist_expansion_enabled_def case_prod_beta)
qed

text \<open>C25: When the managed requirements say that only managed domains are allowed, a request that the started proxy
  allows is for a host that one of the managed patterns covers: neither the user's entries nor a decider add any.\<close>

theorem managed_only_proxy_allows_managed_hosts:
  assumes "from_config_and_constraints env globs config (Some rq) profile = Inr spec"
    and "nr_managed_allowed_domains_only rq = Some True"
    and "proxy_reachable env crate globs (st, ps)" and "cs_constraints st = spec_constraints spec"
    and "evaluate_host_policy crate lookup_host (Inr None) (started_decider spec profile flow decider) host port st = Inr (st', NetAllow)"
  shows "\<exists>m \<in> set (or_empty (Option.bind (nr_domains rq) toml_allowed_domains)). pattern_covers crate m (normalize_host host)"
proof -
  define h where "h = normalize_host host"
  let ?managed = "or_empty (Option.bind (nr_domains rq) toml_allowed_domains)"
  from assms(1,2) have hard: "spec_hard_deny_allowlist_misses spec"
    and "apply_requirements config rq profile True = (spec_config spec, spec_constraints spec)"
    by (auto simp: from_config_and_constraints_def managed_allowed_domains_only_def Let_def result_simps split: prod.splits)
  from apply_requirements_allowlist [OF this(2)] assms(4)
  have k: "nc_allowed_domains (cs_constraints st) = Some ?managed" "nc_allowlist_expansion_enabled (cs_constraints st) = Some False"
    by auto
  have coh: "coherent env crate globs st" by (rule reachable_coherent [OF assms(3)])
  then have "validate_policy_against_constraints env globs (cs_config st) (cs_constraints st) = Inr ()"
    by (simp add: coherent_def)
  then have "validate_allowed_domains env (cs_config st) (Some False) ?managed = Inr ()"
    using k by (simp add: validate_policy_against_constraints_def result_simps del: first_error.simps)
  then have sub: "lower_set (or_empty (allowed_domains (cs_config st))) \<subseteq> lower_set ?managed"
    by (auto simp: validate_allowed_domains_def invalid_value_def Let_def split: if_splits)
  have "started_decider spec profile flow decider = None" using hard by (simp add: started_decider_def)
  then have "decide_host crate lookup_host st h port = HostAllowed"
    using assms(5)
    by (auto simp: evaluate_host_policy_def host_blocked_def reload_if_needed_def host_parse_def h_def deny_with_source_def Let_def
        split: HostBlockDecision.splits HostBlockReason.splits if_splits)
  moreover have "compiled crate st" using coh by (simp add: coherent_def)
  ultimately obtain e where e: "e \<in> set (or_empty (allowed_domains (cs_config st)))" "pattern_covers crate e h"
    using decide_host_cases by blast
  then have "to_ascii_lowercase e \<in> lower_set ?managed"
    using subsetD [OF sub] unfolding lower_set_def by blast
  then obtain m where "m \<in> set ?managed" "to_ascii_lowercase e = to_ascii_lowercase m" unfolding lower_set_def by blast
  with e(2) pattern_covers_lower show ?thesis unfolding h_def by blast
qed

section \<open>Network rules of the execution policy\<close>






section \<open>A session with managed requirements\<close>

definition managed_requirements :: NetworkConstraints where
  "managed_requirements =
     \<lparr>nr_enabled = Some True, nr_http_port = None, nr_socks_port = None, nr_allow_upstream_proxy = None,
      nr_dangerously_allow_non_loopback_proxy = None, nr_dangerously_allow_all_unix_sockets = None,
      nr_domains = Some [(lit ''*.Example.com'', TomlAllow)], nr_managed_allowed_domains_only = Some True,
      nr_unix_sockets = None, nr_allow_local_binding = None\<rparr>"

definition user_config :: NetworkProxySettings where
  "user_config = default_settings\<lparr>np_domains := Some [(lit ''evil.org'', PermAllow)]\<rparr>"

definition managed_spec :: NetworkProxySpec where
  "managed_spec =
     \<lparr>spec_base_config = user_config, spec_requirements = Some managed_requirements,
      spec_config = user_config\<lparr>np_enabled := True, np_domains := Some [(lit ''*.Example.com'', PermAllow)]\<rparr>,
      spec_constraints = no_constraints\<lparr>nc_enabled := Some True, nc_allowed_domains := Some [lit ''*.Example.com''],
        nc_allowlist_expansion_enabled := Some False\<rparr>,
      spec_hard_deny_allowlist_misses = True\<rparr>"

definition managed_state :: "str ConfigState" where
  "managed_state =
     \<lparr>cs_config = spec_config managed_spec, cs_allow_set = [lit ''?*.example.com''], cs_deny_set = [], cs_mitm = None,
      cs_mitm_hooks = [], cs_constraints = spec_constraints managed_spec, cs_blocked = [], cs_blocked_total = 0\<rparr>"

lemma managed_spec_made:
  "from_config_and_constraints plain_env wild_globs user_config (Some managed_requirements) Disabled = Inr managed_spec"
  by code_simp

lemma managed_state_reachable: "proxy_reachable plain_env wild_crate wild_globs (managed_state, [])"
proof (rule proxy_reachable.start)
  show "load_state plain_env wild_crate wild_globs (spec_config managed_spec) (spec_constraints managed_spec) = Inr managed_state"
    by code_simp
qed

lemma managed_request_allowed:
  "evaluate_host_policy wild_crate sample_lookup (Inr None) (started_decider managed_spec Disabled True (Some NetAllow))
     (lit ''api.example.com'') 443 managed_state = Inr (managed_state, NetAllow)"
  by code_simp

theorem managed_only_proxy_allows_managed_hosts_witness:
  "\<exists>m \<in> {lit ''*.Example.com''}. pattern_covers wild_crate m (normalize_host (lit ''api.example.com''))"
proof -
  have "nr_managed_allowed_domains_only managed_requirements = Some True" by (simp add: managed_requirements_def)
  moreover have "cs_constraints managed_state = spec_constraints managed_spec" by (simp add: managed_state_def)
  moreover have "set (or_empty (Option.bind (nr_domains managed_requirements) toml_allowed_domains)) = {lit ''*.Example.com''}"
    by code_simp
  ultimately show ?thesis
    using managed_only_proxy_allows_managed_hosts [OF managed_spec_made _ managed_state_reachable _ managed_request_allowed] by simp
qed







text \<open>Requirements that allow and deny the same domain in different case cannot be met by the configuration they themselves
  produce: the permissions in effect tell the two apart, the check of the constraints does not.\<close>

lemma requirements_in_mixed_case_refuse_themselves:
  "\<not> isl (from_config_and_constraints plain_env wild_globs user_config (Some (managed_requirements
       \<lparr>nr_domains := Some [(lit ''example.com'', TomlAllow)]\<rparr>)) Disabled)
    \<and> isl (from_config_and_constraints plain_env wild_globs user_config (Some (managed_requirements
       \<lparr>nr_domains := Some [(lit ''Example.com'', TomlAllow), (lit ''example.com'', TomlDeny)]\<rparr>)) Disabled)"
  by code_simp

end
