(* ===== verification/Spec2Isabelle.thy ===== *)
theory Spec2Isabelle
  imports Patch_Properties Patch_Safety_Properties Exec_Policy_Properties Command_Safety_Properties Exec_Approval_Properties
    Permission_Properties Permission_Roots_Properties Permission_Transforms_Properties Workflow_Properties
    Workflow_Run_Properties Stream_Properties Output_Truncation_Properties Context_Properties Context_Fragment_Properties
    Network_Address_Properties Network_Config_Properties Network_Properties Network_Spec_Properties
begin

text \<open>
  \<^bold>\<open>codewith: what an agent may do to a machine, and what it is told.\<close>

  The program (\<^verbatim>\<open>src/codex-rs\<close>) runs a coding agent. What the agent asks for reaches the machine by two
  roads: a \<^emph>\<open>patch\<close>, which \<^verbatim>\<open>apply-patch\<close> parses, verifies and applies to files, and a \<^emph>\<open>command\<close>, which is checked
  against the user's execution policy (\<^verbatim>\<open>execpolicy\<close>), against the classifiers of \<^verbatim>\<open>shell-command\<close> and against the
  permission profile of the session (\<^verbatim>\<open>protocol\<close>, \<^verbatim>\<open>sandboxing\<close>). A command that may use the network does so through
  a proxy (\<^verbatim>\<open>network-proxy\<close>) that knows which hosts are allowed. What comes back passes through the stream
  parsers, is truncated and is kept in the context manager, which prepares the next prompt. On top of that,
  \<^verbatim>\<open>workflows\<close> and \<^verbatim>\<open>state\<close> run many agents as the steps of a workflow. This library models those parts in HOL and
  proves what they promise.

  \<^bold>\<open>Conventions.\<close> Text is a list of Unicode scalar values (\<open>str\<close>); a literal of the source is \<open>lit ''...''\<close>.
  A \<^verbatim>\<open>PathBuf\<close> is its list of components (Unix). A \<^verbatim>\<open>Result\<close> is a sum with the error on the left, a panic
  is the value None of an option. \<open>Prelude\<close> holds these types and the text functions, \<open>Ordered_Collections\<close> the
  ordered sets and maps. Code that is not part of the repository is an argument, and what the code relies on is a
  named hypothesis with a witness that instantiates it:
  the file system of \<^verbatim>\<open>apply_patch\<close> (\<open>fs_ops\<close>, laws \<open>lawful_fs\<close>), the file calls of the policy appender
  (\<open>amend_fs\<close>, laws \<open>amend_fs_lawful\<close>), the \<^verbatim>\<open>multimap\<close> crate (\<open>multimap_ops\<close>, laws \<open>multimap_laws\<close>), the
  Starlark interpreter, \<^verbatim>\<open>shlex\<close>, JSON and XML, the tree-sitter parser of shell scripts (\<open>shell_parser\<close>, law
  \<open>bash_grammar\<close>) and its query, the text of unified diffs, the file system that permissions look at (\<open>path_env\<close>, law \<open>env_ok\<close>),
  the compiler of globs (\<open>glob_crate\<close>, law \<open>globset_documented\<close>), the host parser of the \<^verbatim>\<open>url\<close> crate (law \<open>url_keeps_names\<close>), the look-up
  of names, header types, variables and secret files of the network proxy (\<open>proxy_env\<close>), \<^verbatim>\<open>serde_yaml\<close>, the clock, fresh identifiers, the background agents and worktrees of the
  workflow orchestrator, and the target operating system.

  \<^bold>\<open>Patches\<close> (\<^verbatim>\<open>apply-patch/src\<close>).
  \<^item> \<open>Patch_Parser\<close>: \<^verbatim>\<open>parser.rs\<close>, hunks and both parse modes with every error.
  \<^item> \<open>Streaming_Parser\<close>: \<^verbatim>\<open>streaming_parser.rs\<close>, the state machine that parses a patch as it arrives.
  \<^item> \<open>Seek_Sequence\<close>: \<^verbatim>\<open>seek_sequence.rs\<close>, the line matcher.
  \<^item> \<open>Patch_Replace\<close>, \<open>Patch_Edit_Spec\<close>: \<^verbatim>\<open>compute_replacements\<close> and \<^verbatim>\<open>apply_replacements\<close> of \<^verbatim>\<open>lib.rs\<close>, and the
    declarative edit relation they implement.
  \<^item> \<open>Patch_Apply\<close>, \<open>Patch_Delta\<close>: \<^verbatim>\<open>apply_patch\<close> down to the file calls, and the delta it reports.
  \<^item> \<open>Patch_Render\<close>, \<open>Patch_Roundtrip\<close>: a printer of patches and the proof that both parsers invert it.
  \<^item> \<open>Absolute_Path\<close>: \<^verbatim>\<open>utils/absolute-path/src\<close>, lexical resolution of paths.
  \<^item> \<open>Patch_Properties\<close>: C1 to C6. Parsing round trips, only complete hunks are returned, editing is correct, and an exact
    delta replays and undoes the change; further theorems say that the streaming parser does not depend on how the
    text is cut and that applying a patch never panics.
  \<^item> \<open>Patch_Invocation\<close>, \<open>Patch_Safety\<close>: \<^verbatim>\<open>invocation.rs\<close>, which finds a patch in a command and verifies it, and
    \<^verbatim>\<open>core/src/safety.rs\<close> and \<^verbatim>\<open>core/src/apply_patch.rs\<close>, which decide whether it may run.
  \<^item> \<open>Patch_Safety_Properties\<close>: C35. A patch approved without asking writes only where the policy lets it, proved by
    running it on a file system that refuses everything else; two counterexamples mark the hypotheses it needs.

  \<^bold>\<open>Execution policy\<close> (\<^verbatim>\<open>execpolicy/src\<close>).
  \<^item> \<open>Exec_Policy_Rule\<close>: \<^verbatim>\<open>decision.rs\<close>, \<^verbatim>\<open>rule.rs\<close>, \<^verbatim>\<open>error.rs\<close>, \<^verbatim>\<open>executable_name.rs\<close>.
  \<^item> \<open>Exec_Policy\<close>: \<^verbatim>\<open>policy.rs\<close>, the policy and its evaluation; the locale \<open>rule_trait\<close> is the \<^verbatim>\<open>Rule\<close> trait,
    interpreted on the prefix rules.
  \<^item> \<open>Exec_Policy_Parser\<close>, \<open>Exec_Policy_Builder\<close>: \<^verbatim>\<open>parser.rs\<close>, the builtins of the policy language, and the
    invariant of every builder a parser can reach.
  \<^item> \<open>Exec_Policy_Amend\<close>: \<^verbatim>\<open>amend.rs\<close> and \<^verbatim>\<open>sandbox_migration.rs\<close>, changes of a policy file.
  \<^item> \<open>Exec_Policy_Properties\<close>: C7 to C9. The strictest match decides, overlays never relax a decision, and built
    policies are well formed; more lemmas on further arguments, host executables, network domains and examples.

  \<^bold>\<open>Commands\<close> (\<^verbatim>\<open>shell-command/src\<close>, \<^verbatim>\<open>core/src/exec_policy.rs\<close>).
  \<^item> \<open>Shell_Script\<close>: \<^verbatim>\<open>bash.rs\<close> and \<^verbatim>\<open>shell_detect.rs\<close>, the commands of a shell script.
  \<^item> \<open>Command_Safety\<close>: \<^verbatim>\<open>command_safety/is_dangerous_command.rs\<close> and \<^verbatim>\<open>is_safe_command.rs\<close>.
  \<^item> \<open>Command_Safety_Properties\<close>: C10, what a safe script may hold; no command is both safe and dangerous.
  \<^item> \<open>Exec_Approval\<close>: \<^verbatim>\<open>exec_policy.rs\<close>, whether a command runs, asks or is refused, and the rules a user adds.
  \<^item> \<open>Exec_Approval_Properties\<close>: C11 and C12. The requirement follows every match of every command of the script, and a dangerous
    command never runs unasked; the sandbox is bypassed only by allowing rules, and a proposed rule settles the command.

  \<^bold>\<open>Permissions\<close> (\<^verbatim>\<open>protocol/src\<close>, \<^verbatim>\<open>sandboxing/src/policy_transforms.rs\<close>).
  \<^item> \<open>Permission_Policy\<close>, \<open>Permission_Profile\<close>: \<^verbatim>\<open>permissions.rs\<close> and the profiles of \<^verbatim>\<open>models.rs\<close>: entries, the access of a
    path, protected metadata, and the conversions from and to the legacy sandbox policy.
  \<^item> \<open>Permission_Roots\<close>: the rest of \<^verbatim>\<open>permissions.rs\<close>: the roots handed to a platform sandbox and the matcher of denied reads.
  \<^item> \<open>Permission_Transforms\<close>: \<^verbatim>\<open>policy_transforms.rs\<close>, additional permissions that are requested, granted, cut down and merged.
  \<^item> \<open>Permission_Properties\<close>, \<open>Permission_Roots_Properties\<close>, \<open>Permission_Transforms_Properties\<close>: C13, C14, C32 to C34. The most specific
    entry decides, denials survive, the legacy policy round-trips, the roots of a sandbox grant no more than the
    policy, denied reads are refused, and additional permissions let nothing be read that was not asked for and granted.

  \<^bold>\<open>Workflows\<close> (\<^verbatim>\<open>workflows/src\<close>, \<^verbatim>\<open>state/src/runtime\<close>).
  \<^item> \<open>Workflow_Spec\<close>, \<open>Workflow_Validation\<close>, \<open>Workflow_Graph\<close>, \<open>Workflow_Parse\<close>: the specification of a workflow, its
    checks with Kahn's algorithm, and the parser.
  \<^item> \<open>Workflow_Properties\<close>: C15 to C17. Parsing always returns and accepts exactly the well-formed workflows; the dependency
    check accepts exactly the acyclic graphs.
  \<^item> \<open>Workflow_Run\<close>, \<open>Workflow_Orchestrator\<close>, \<open>Workflow_Branches\<close>: the rows of a run and the transactions on them;
    \<open>Workflow_Machine\<close>, \<open>Workflow_Invariant\<close>: the step relation of all calls and its invariant.
  \<^item> \<open>Workflow_Run_Properties\<close>: C18 to C22. Dependencies and approvals are respected, completed runs are verified, limits hold,
    fences exclude earlier owners, and advancing makes progress.

  \<^bold>\<open>Network\<close> (\<^verbatim>\<open>network-proxy/src\<close>, \<^verbatim>\<open>core/src/config/network_proxy_spec.rs\<close>, \<^verbatim>\<open>core/src/network_proxy_loader.rs\<close>).
  \<^item> \<open>Network_Address\<close>, \<open>Network_Policy\<close>: addresses with the parser of the standard library, and \<^verbatim>\<open>policy.rs\<close>, hosts and domain patterns.
  \<^item> \<open>Network_Config\<close>, \<open>Network_Hooks\<close>, \<open>Network_Constraints\<close>: \<^verbatim>\<open>config.rs\<close>, \<^verbatim>\<open>mitm_hook.rs\<close> and \<^verbatim>\<open>state.rs\<close>, the configuration, its hooks and the
    managed constraints on it.
  \<^item> \<open>Network_Runtime\<close>: \<^verbatim>\<open>runtime.rs\<close>, \<^verbatim>\<open>network_policy.rs\<close>, \<^verbatim>\<open>connect_policy.rs\<close> and the policy of \<^verbatim>\<open>mitm.rs\<close>; a domain update is split where the
    code gives up its lock. \<open>Network_Machine\<close>: the step relation of the proxy with its invariant, and the trait of reloaders as the
    locale \<open>config_reloader\<close>, interpreted on the reloader of the loader.
  \<^item> \<open>Network_Env\<close>, \<open>Network_Spec\<close>: the environment of commands (\<^verbatim>\<open>proxy.rs\<close>), and the proxy of a session with managed requirements and
    the network rules of the execution policy.
  \<^item> \<open>Network_Matching\<close>, \<open>Network_Managed\<close>, \<open>Network_Hook_Lemmas\<close>: what compiled patterns and hooks match, and when an entry stays
    inside a managed pattern.
  \<^item> \<open>Network_Properties\<close>, \<open>Network_Spec_Properties\<close>, \<open>Network_Env\<close>: C23 to C29. An allowed request has passed every check, managed allowlists are not
    exceeded, forbidden hosts are denied, the state is the compiled configuration under every interleaving, secrets go only
    where a hook matches, and the environment of a command points at the proxy. \<open>Network_Address_Properties\<close>, \<open>Network_Config_Properties\<close>: the
    ranges of addresses that are not public, the permissions in effect and the addresses the proxy binds. Four lemmas at the
    end of \<open>Network_Properties\<close> show where the code falls short of its intent.

  \<^bold>\<open>Model output and context\<close> (\<^verbatim>\<open>utils/stream-parser\<close>, \<^verbatim>\<open>utils/output-truncation\<close>, \<^verbatim>\<open>core/src/context_manager\<close>).
  \<^item> \<open>Stream_Trait\<close>, \<open>Stream_Utf8\<close>, \<open>Stream_Tags\<close>, \<open>Stream_Lines\<close>, \<open>Stream_Assistant\<close>: the parsers of streamed text; the trait
    is a locale, interpreted on each parser. \<open>Stream_Search\<close>, \<open>Stream_Split\<close>, \<open>Stream_Lines_Spec\<close>: what they compute on a
    whole text.
  \<^item> \<open>Stream_Properties\<close>: C30 and C31. The result does not depend on how text or bytes are cut.
  \<^item> \<open>Output_Truncation\<close>: truncation to a budget of bytes or tokens; \<open>Output_Truncation_Properties\<close>: C36.
  \<^item> \<open>Context_Items\<close>, \<open>Context_Fragments\<close>, \<open>Context_Manager\<close>: the items of a conversation, the fragments of context
    injected into it, and its transcript with normalisation, rollback and token estimates.
  \<^item> \<open>Context_Properties\<close>, \<open>Context_Fragment_Properties\<close>: C37 to C40. Prompts are well formed, dropping the oldest item keeps calls and
    outputs paired, a rollback removes whole turns, and injected fragments never count as turns.

  \<^bold>\<open>Termination.\<close> Every definition but one is total: the loops over a syntax tree terminate by the number of
  nodes left, the search for a shell name by the length of the text, the search behind command
  wrappers by its own depth bound of 8 (\<open>MAX_DANGEROUS_COMMAND_WRAPPER_DEPTH\<close>), Kahn's algorithm by the edges left. The loop of the
  inline-tag parser (\<open>inline_loop\<close>) is a partial function that is proved to return on every state it can reach. There is no fuel.

  \<^bold>\<open>Not modelled.\<close> Windows variants, the text of unified diffs (a third-party crate), serde formats, display and JSON
  output, logging, the redaction of stored text, event payloads and timestamps of workflow runs, timers and goal
  plans, the servers of the network proxy and its certificates, the merging of configuration layers, command
  summaries, and the parts of the program around these crates: the agent session, the model clients, the
  terminal interface and the servers. They are I/O, display, conversion of data or asynchronous glue, or, like the goal
  plans of \<^verbatim>\<open>state\<close>, a second scheduler over SQL rows of the kind that the workflow orchestrator already is.
\<close>

end
